(* ===== verification/Agd_Prelude.thy ===== *)
theory Agd_Prelude
  imports Complex_Main "HOL-Library.Char_ord" "HOL-Library.List_Lexorder"
begin

text \<open>
  Shared vocabulary of the development: the Python values, floats and string methods that
  the modelled modules use, and the generic lemmas about them. Nothing here models a file of
  the repository; the definitions render the part of the Python language and of its standard
  library on which the modelled code is written.

  \<^item> \<open>pyfloat\<close> is a Python float. Finite floats are exact rationals (binary rounding is not
    modelled); the infinities and NaN are kept, with IEEE comparison, because the code tests
    for them and because NaN defeats comparisons.
  \<^item> \<open>pyval\<close> is a value of unknown type, as read from JSON or from a request.
  \<^item> \<open>string\<close> holds the code points up to 255.
\<close>

section \<open>Collections of facts\<close>

named_theorems pyfloat_simps "evaluation of float arithmetic and comparison"
named_theorems pystr_simps "laws of the string methods"

section \<open>Floats\<close>

datatype pyfloat = Fin rat | PosInf | NegInf | NaN

fun fadd :: "pyfloat \<Rightarrow> pyfloat \<Rightarrow> pyfloat" where
  "fadd (Fin a) (Fin b) = Fin (a + b)"
| "fadd NaN _ = NaN"
| "fadd _ NaN = NaN"
| "fadd PosInf NegInf = NaN"
| "fadd NegInf PosInf = NaN"
| "fadd PosInf _ = PosInf"
| "fadd _ PosInf = PosInf"
| "fadd NegInf _ = NegInf"
| "fadd _ NegInf = NegInf"

fun fneg :: "pyfloat \<Rightarrow> pyfloat" where
  "fneg (Fin a) = Fin (- a)"
| "fneg PosInf = NegInf"
| "fneg NegInf = PosInf"
| "fneg NaN = NaN"

definition fsub :: "pyfloat \<Rightarrow> pyfloat \<Rightarrow> pyfloat" where
  "fsub a b = fadd a (fneg b)"

fun flt :: "pyfloat \<Rightarrow> pyfloat \<Rightarrow> bool" where
  "flt (Fin a) (Fin b) \<longleftrightarrow> a < b"
| "flt NaN _ \<longleftrightarrow> False"
| "flt _ NaN \<longleftrightarrow> False"
| "flt NegInf b \<longleftrightarrow> b \<noteq> NegInf"
| "flt _ NegInf \<longleftrightarrow> False"
| "flt PosInf _ \<longleftrightarrow> False"
| "flt _ PosInf \<longleftrightarrow> True"

definition feq :: "pyfloat \<Rightarrow> pyfloat \<Rightarrow> bool" where
  "feq a b \<longleftrightarrow> a = b \<and> a \<noteq> NaN"

definition fle :: "pyfloat \<Rightarrow> pyfloat \<Rightarrow> bool" where
  "fle a b \<longleftrightarrow> flt a b \<or> feq a b"

text \<open>\<open>sum(xs)\<close>, \<open>max(a, b)\<close> and \<open>min(xs)\<close>: Python keeps the first of two arguments unless
  the second compares strictly better.\<close>

definition fsum :: "pyfloat list \<Rightarrow> pyfloat" where
  "fsum xs = foldl fadd (Fin 0) xs"

definition fmax :: "pyfloat \<Rightarrow> pyfloat \<Rightarrow> pyfloat" where
  "fmax a b = (if flt a b then b else a)"

definition fmin :: "pyfloat \<Rightarrow> pyfloat \<Rightarrow> pyfloat" where
  "fmin a b = (if flt b a then b else a)"

fun fmin_list :: "pyfloat \<Rightarrow> pyfloat list \<Rightarrow> pyfloat" where
  "fmin_list m [] = m"
| "fmin_list m (x # xs) = fmin_list (fmin m x) xs"

fun fmax_list :: "pyfloat \<Rightarrow> pyfloat list \<Rightarrow> pyfloat" where
  "fmax_list m [] = m"
| "fmax_list m (x # xs) = fmax_list (fmax m x) xs"

fun fabs :: "pyfloat \<Rightarrow> pyfloat" where
  "fabs (Fin a) = Fin \<bar>a\<bar>"
| "fabs PosInf = PosInf"
| "fabs NegInf = PosInf"
| "fabs NaN = NaN"

fun fmul :: "pyfloat \<Rightarrow> pyfloat \<Rightarrow> pyfloat" where
  "fmul (Fin a) (Fin b) = Fin (a * b)"
| "fmul NaN _ = NaN"
| "fmul _ NaN = NaN"
| "fmul (Fin a) b = (if a = 0 then NaN else if 0 < a then b else fneg b)"
| "fmul a (Fin b) = (if b = 0 then NaN else if 0 < b then a else fneg a)"
| "fmul PosInf b = b"
| "fmul NegInf b = fneg b"

fun is_finite :: "pyfloat \<Rightarrow> bool" where
  "is_finite (Fin _) = True"
| "is_finite _ = False"

text \<open>The rational of a finite float (0 otherwise; only used under \<open>is_finite\<close>).\<close>

fun the_fin :: "pyfloat \<Rightarrow> rat" where
  "the_fin (Fin a) = a"
| "the_fin _ = 0"

lemma feq_Fin [simp, pyfloat_simps]: "feq (Fin a) (Fin b) \<longleftrightarrow> a = b"
  by (simp add: feq_def)

lemma fle_Fin [simp, pyfloat_simps]: "fle (Fin a) (Fin b) \<longleftrightarrow> a \<le> b"
  by (auto simp: fle_def)

lemma fsub_Fin [simp, pyfloat_simps]: "fsub (Fin a) (Fin b) = Fin (a - b)"
  by (simp add: fsub_def)

lemma fmax_Fin [simp, pyfloat_simps]: "fmax (Fin a) (Fin b) = Fin (max a b)"
  by (simp add: fmax_def)

lemma fmin_Fin [simp, pyfloat_simps]: "fmin (Fin a) (Fin b) = Fin (min a b)"
  by (simp add: fmin_def)

lemma fadd_NaN [simp, pyfloat_simps]: "fadd x NaN = NaN" "fadd NaN x = NaN"
  by (cases x; simp)+

lemma flt_NaN [simp, pyfloat_simps]: "flt x NaN = False" "flt NaN x = False"
  by (cases x; simp)+

lemma fle_NaN [simp, pyfloat_simps]: "fle x NaN = False" "fle NaN x = False"
  by (auto simp: fle_def feq_def)

lemma is_finite_the_fin: "is_finite x \<Longrightarrow> Fin (the_fin x) = x"
  by (cases x) auto

lemma is_finite_conv: "is_finite x \<longleftrightarrow> (\<exists>a. x = Fin a)"
  by (cases x) auto

lemma foldl_fadd_Fin: "foldl fadd (Fin a) (map Fin xs) = Fin (a + sum_list xs)"
  by (induction xs arbitrary: a) (auto simp: add.assoc)

lemma fsum_Fin [simp, pyfloat_simps]: "fsum (map Fin xs) = Fin (sum_list xs)"
  by (simp add: fsum_def foldl_fadd_Fin)

lemma foldl_fadd_NaN: "foldl fadd NaN xs = NaN"
  by (induction xs) auto

lemma foldl_fadd_NaN_mem: "NaN \<in> set xs \<Longrightarrow> foldl fadd a xs = NaN"
  by (induction xs arbitrary: a) (auto simp: foldl_fadd_NaN)

lemma fsum_NaN: "NaN \<in> set xs \<Longrightarrow> fsum xs = NaN"
  by (simp add: fsum_def foldl_fadd_NaN_mem)

lemma fmin_list_Fin: "\<exists>m. fmin_list (Fin a) (map Fin xs) = Fin m \<and> m \<le> a \<and> (\<forall>x \<in> set xs. m \<le> x)"
proof (induction xs arbitrary: a)
  case Nil
  then show ?case by simp
next
  case (Cons x xs)
  from Cons.IH [of "min a x"] show ?case by auto
qed

section \<open>Dynamic values\<close>

datatype pyval =
    PNone
  | PBool bool
  | PInt int
  | PFloat pyfloat
  | PStr string
  | PList "pyval list"
  | PDict "(string \<times> pyval) list"

type_synonym pydict = "(string \<times> pyval) list"

text \<open>\<open>d.get(k)\<close>, with \<open>None\<close> for an absent key; later bindings of a dict literal are put
  first by the code below, so the first binding is the current one.\<close>

definition pyget :: "pydict \<Rightarrow> string \<Rightarrow> pyval" where
  "pyget d k = (case map_of d k of None \<Rightarrow> PNone | Some v \<Rightarrow> v)"

fun truthy :: "pyval \<Rightarrow> bool" where
  "truthy PNone = False"
| "truthy (PBool b) = b"
| "truthy (PInt i) = (i \<noteq> 0)"
| "truthy (PFloat x) = (x \<noteq> Fin 0)"
| "truthy (PStr s) = (s \<noteq> [])"
| "truthy (PList xs) = (xs \<noteq> [])"
| "truthy (PDict d) = (d \<noteq> [])"

text \<open>\<open>isinstance(v, (int, float)) and not isinstance(v, bool)\<close>, and the float it denotes.\<close>

fun as_number :: "pyval \<Rightarrow> pyfloat option" where
  "as_number (PInt i) = Some (Fin (of_int i))"
| "as_number (PFloat x) = Some x"
| "as_number _ = None"

section \<open>String methods\<close>

definition py_space :: "char \<Rightarrow> bool" where
  "py_space c \<longleftrightarrow> c \<in> set [CHR 0x20, CHR 0x09, CHR 0x0A, CHR 0x0B, CHR 0x0C, CHR 0x0D,
     CHR 0x1C, CHR 0x1D, CHR 0x1E, CHR 0x1F, CHR 0x85, CHR 0xA0]"

definition strip_by :: "(char \<Rightarrow> bool) \<Rightarrow> string \<Rightarrow> string" where
  "strip_by p s = rev (dropWhile p (rev (dropWhile p s)))"

abbreviation py_strip :: "string \<Rightarrow> string" where
  "py_strip \<equiv> strip_by py_space"

text \<open>\<open>str.lower\<close> on the code points up to 255: ASCII capitals and the Latin-1 capitals
  0xC0 to 0xDE other than the multiplication sign.\<close>

definition lower_char :: "char \<Rightarrow> char" where
  "lower_char c = (let n = (of_char c :: nat) in
     if (65 \<le> n \<and> n \<le> 90) \<or> (192 \<le> n \<and> n \<le> 222 \<and> n \<noteq> 215) then char_of (n + 32) else c)"

definition py_lower :: "string \<Rightarrow> string" where
  "py_lower s = map lower_char s"

definition starts_with :: "string \<Rightarrow> string \<Rightarrow> bool" where
  "starts_with s p \<longleftrightarrow> take (length p) s = p"

definition ends_with :: "string \<Rightarrow> string \<Rightarrow> bool" where
  "ends_with s p \<longleftrightarrow> starts_with (rev s) (rev p)"

fun contains_str :: "string \<Rightarrow> string \<Rightarrow> bool" where
  "contains_str [] p \<longleftrightarrow> p = []"
| "contains_str (c # s) p \<longleftrightarrow> starts_with (c # s) p \<or> contains_str s p"

text \<open>\<open>s.split(sep, 1)[0] if sep in s else s\<close> and \<open>s.partition(sep)\<close>.\<close>

definition before_char :: "char \<Rightarrow> string \<Rightarrow> string" where
  "before_char c s = takeWhile (\<lambda>d. d \<noteq> c) s"

definition after_char :: "char \<Rightarrow> string \<Rightarrow> string" where
  "after_char c s = drop 1 (dropWhile (\<lambda>d. d \<noteq> c) s)"

text \<open>\<open>s.split(sep)\<close> and \<open>sep.join(xs)\<close> for a one-character separator.\<close>

fun split_on :: "char \<Rightarrow> string \<Rightarrow> string list" where
  "split_on c [] = [[]]"
| "split_on c (d # s) =
     (if d = c then [] # split_on c s
      else case split_on c s of [] \<Rightarrow> [[d]] | x # xs \<Rightarrow> (d # x) # xs)"

fun join_with :: "char \<Rightarrow> string list \<Rightarrow> string" where
  "join_with c [] = []"
| "join_with c [x] = x"
| "join_with c (x # y # xs) = x @ c # join_with c (y # xs)"

text \<open>\<open>s.splitlines()\<close> on the code points up to 255.\<close>

definition is_line_break :: "char \<Rightarrow> bool" where
  "is_line_break c \<longleftrightarrow> (of_char c :: nat) \<in> {10, 11, 12, 13, 28, 29, 30, 133}"

fun crlf_to_lf :: "string \<Rightarrow> string" where
  "crlf_to_lf [] = []"
| "crlf_to_lf (c # s) = (if c = CHR 0x0D \<and> take 1 s = [CHR 0x0A] then crlf_to_lf s else c # crlf_to_lf s)"

fun lines_from :: "string \<Rightarrow> string \<Rightarrow> string list" where
  "lines_from cur [] = (if cur = [] then [] else [rev cur])"
| "lines_from cur (c # s) = (if is_line_break c then rev cur # lines_from [] s else lines_from (c # cur) s)"

definition splitlines :: "string \<Rightarrow> string list" where
  "splitlines s = lines_from [] (crlf_to_lf s)"

lemma split_on_nonempty [simp]: "split_on c s \<noteq> []"
  by (induction s) (auto split: list.splits)

lemma split_on_no_sep: "c \<notin> set x \<Longrightarrow> split_on c x = [x]"
  by (induction x) auto

lemma split_on_append:
  "c \<notin> set x \<Longrightarrow> split_on c (x @ c # s) = x # split_on c s"
  by (induction x) auto

lemma split_on_join [pystr_simps]:
  "xs \<noteq> [] \<Longrightarrow> \<forall>x \<in> set xs. c \<notin> set x \<Longrightarrow> split_on c (join_with c xs) = xs"
  by (induction c xs rule: join_with.induct) (auto simp: split_on_no_sep split_on_append)

lemma dropWhile_hd_id: "(\<And>x xs. s = x # xs \<Longrightarrow> \<not> p x) \<Longrightarrow> dropWhile p s = s"
  by (cases s) auto

lemma strip_by_idem [simp]: "strip_by p (strip_by p s) = strip_by p s"
proof -
  have ends: "dropWhile p (dropWhile p (xs :: string)) = dropWhile p xs" for xs
    by (induction xs) auto
  have keep: "dropWhile p (rev (dropWhile p (rev (dropWhile p s)))) =
      rev (dropWhile p (rev (dropWhile p s)))" for s :: string
  proof (rule dropWhile_hd_id)
    fix x xs assume eq: "rev (dropWhile p (rev (dropWhile p s))) = x # xs"
    obtain ys where ys: "rev (dropWhile p s) = ys @ dropWhile p (rev (dropWhile p s))"
      using takeWhile_dropWhile_id [of p "rev (dropWhile p s)"] by metis
    then have "dropWhile p s = rev (dropWhile p (rev (dropWhile p s))) @ rev ys"
      by (metis rev_append rev_rev_ident)
    with eq have "dropWhile p s = x # xs @ rev ys" by simp
    then show "\<not> p x" by (metis hd_dropWhile list.distinct(1) list.sel(1))
  qed
  show ?thesis by (simp add: strip_by_def keep ends)
qed

lemma strip_by_Nil [simp]: "strip_by p [] = []"
  by (simp add: strip_by_def)

lemma strip_by_clean:
  "s = [] \<or> (\<not> p (hd s) \<and> \<not> p (last s)) \<Longrightarrow> strip_by p s = s"
  by (cases s rule: rev_cases) (auto simp: strip_by_def dropWhile_append hd_append split: if_splits intro!: dropWhile_hd_id)

lemma strip_by_all: "\<forall>c \<in> set s. p c \<Longrightarrow> strip_by p s = []"
  by (auto simp: strip_by_def dest: set_dropWhileD)

lemma strip_by_empty: "strip_by p s = [] \<longleftrightarrow> (\<forall>c \<in> set s. p c)"
proof
  assume "strip_by p s = []"
  then have all: "\<forall>c \<in> set (dropWhile p s). p c" by (simp add: strip_by_def dropWhile_eq_Nil_conv)
  have "dropWhile p s = []"
  proof (rule ccontr)
    assume ne: "dropWhile p s \<noteq> []"
    then have "\<not> p (hd (dropWhile p s))" by (rule hd_dropWhile)
    with all ne show False by (metis list.set_sel(1))
  qed
  then show "\<forall>c \<in> set s. p c" by (simp add: dropWhile_eq_Nil_conv)
qed (rule strip_by_all)

lemma set_strip_by: "set (strip_by p s) \<subseteq> set s"
  by (auto simp: strip_by_def) (metis set_dropWhileD set_rev)

section \<open>Reading a float from text\<close>

text \<open>
  \<open>float(s)\<close>: surrounding blanks and a sign are skipped, then an infinity, a NaN, or a decimal
  literal with an optional fraction and exponent (single underscores between digits).
\<close>

definition is_digit :: "char \<Rightarrow> bool" where
  "is_digit c \<longleftrightarrow> c \<in> set ''0123456789''"

definition digit_val :: "char \<Rightarrow> nat" where
  "digit_val c = (of_char c :: nat) - 48"

definition nat_of_digits :: "string \<Rightarrow> nat" where
  "nat_of_digits ds = foldl (\<lambda>n c. 10 * n + digit_val c) 0 ds"

fun underscores_ok :: "bool \<Rightarrow> string \<Rightarrow> bool" where
  "underscores_ok prev [] \<longleftrightarrow> prev"
| "underscores_ok prev (c # cs) \<longleftrightarrow>
     (if c = CHR ''_'' then prev \<and> underscores_ok False cs else underscores_ok True cs)"

definition digits_part :: "string \<Rightarrow> string option" where
  "digits_part s = (if s = [] then Some []
     else if underscores_ok False s then Some (filter is_digit s) else None)"

definition is_digit_us :: "char \<Rightarrow> bool" where
  "is_digit_us c \<longleftrightarrow> is_digit c \<or> c = CHR ''_''"

definition take_sign :: "string \<Rightarrow> int \<times> string" where
  "take_sign s = (case s of [] \<Rightarrow> (1, [])
     | c # r \<Rightarrow> if c = CHR ''-'' then (- 1, r) else if c = CHR ''+'' then (1, r) else (1, s))"

definition parse_exponent :: "string \<Rightarrow> int option" where
  "parse_exponent s = (case s of [] \<Rightarrow> Some 0
     | c # r \<Rightarrow> if c = CHR ''e'' then
         (case take_sign r of (sg, ds) \<Rightarrow>
            if ds \<noteq> [] \<and> list_all is_digit_us ds then
              map_option (\<lambda>d. sg * int (nat_of_digits d)) (digits_part ds)
            else None)
       else None)"

definition scale10 :: "rat \<Rightarrow> int \<Rightarrow> rat" where
  "scale10 m e = (if 0 \<le> e then m * 10 ^ nat e else m / 10 ^ nat (- e))"

definition parse_decimal :: "string \<Rightarrow> rat option" where
  "parse_decimal s =
     (let ip = takeWhile is_digit_us s; r = dropWhile is_digit_us s;
          dotted = (r \<noteq> [] \<and> hd r = CHR ''.'');
          r1 = (if dotted then tl r else r);
          fp = (if dotted then takeWhile is_digit_us r1 else []);
          r2 = (if dotted then dropWhile is_digit_us r1 else r1)
      in case (digits_part ip, digits_part fp, parse_exponent r2) of
           (Some i, Some f, Some e) \<Rightarrow>
             if i = [] \<and> f = [] then None
             else Some (scale10 (of_nat (nat_of_digits (i @ f))) (e - int (length f)))
         | _ \<Rightarrow> None)"

definition py_float :: "string \<Rightarrow> pyfloat option" where
  "py_float s =
     (case take_sign (py_lower (py_strip s)) of (sg, body) \<Rightarrow>
        if body = ''inf'' \<or> body = ''infinity'' then Some (if sg < 0 then NegInf else PosInf)
        else if body = ''nan'' then Some NaN
        else map_option (\<lambda>m. Fin (of_int sg * m)) (parse_decimal body))"

text \<open>\<open>float(v)\<close> on a dynamic value: \<open>None\<close> where it raises ValueError or TypeError.\<close>

fun float_of :: "pyval \<Rightarrow> pyfloat option" where
  "float_of (PBool b) = Some (Fin (if b then 1 else 0))"
| "float_of (PInt i) = Some (Fin (of_int i))"
| "float_of (PFloat x) = Some x"
| "float_of (PStr s) = py_float s"
| "float_of _ = None"

lemma map_of_SomeD_fst: "map_of d k = Some v \<Longrightarrow> k \<in> fst ` set d"
  by (metis map_of_eq_None_iff option.distinct(1))

section \<open>Printing values\<close>

text \<open>
  \<open>str(v)\<close> and \<open>repr(v)\<close>. A finite float prints as its decimal expansion with at least one
  digit after the point (the switch to exponents for very large and very small magnitudes is
  not modelled); \<open>frac_digits\<close> finds the number of decimals, at most 20.
\<close>

fun show_nat :: "nat \<Rightarrow> string" where
  "show_nat n = (if n < 10 then [char_of (n + 48)] else show_nat (n div 10) @ [char_of (n mod 10 + 48)])"

declare show_nat.simps [simp del]

definition show_int :: "int \<Rightarrow> string" where
  "show_int i = (if i < 0 then CHR ''-'' # show_nat (nat (- i)) else show_nat (nat i))"

fun show_padded :: "nat \<Rightarrow> nat \<Rightarrow> string" where
  "show_padded 0 n = []"
| "show_padded (Suc k) n = show_padded k (n div 10) @ [char_of (n mod 10 + 48)]"

definition is_decimal :: "nat \<Rightarrow> rat \<Rightarrow> bool" where
  "is_decimal k q \<longleftrightarrow> of_int \<lfloor>q * 10 ^ k\<rfloor> = q * 10 ^ k"

definition frac_digits :: "rat \<Rightarrow> nat" where
  "frac_digits q = (case List.find (\<lambda>k. is_decimal k q) [1..<21] of None \<Rightarrow> 20 | Some k \<Rightarrow> k)"

fun repr_float :: "pyfloat \<Rightarrow> string" where
  "repr_float (Fin q) =
     (let k = frac_digits \<bar>q\<bar>; n = nat \<lfloor>\<bar>q\<bar> * 10 ^ k\<rfloor>
      in (if q < 0 then ''-'' else []) @ show_nat (n div 10 ^ k) @ ''.'' @ show_padded k (n mod 10 ^ k))"
| "repr_float PosInf = ''inf''"
| "repr_float NegInf = ''-inf''"
| "repr_float NaN = ''nan''"

definition hex_digit :: "nat \<Rightarrow> char" where
  "hex_digit n = ''0123456789abcdef'' ! n"

definition escape_char :: "char \<Rightarrow> char \<Rightarrow> string" where
  "escape_char q c = (let n = (of_char c :: nat) in
     if c = CHR 0x5C \<or> c = q then [CHR 0x5C, c]
     else if c = CHR 0x0A then [CHR 0x5C, CHR ''n'']
     else if c = CHR 0x0D then [CHR 0x5C, CHR ''r'']
     else if c = CHR 0x09 then [CHR 0x5C, CHR ''t'']
     else if n < 32 \<or> (127 \<le> n \<and> n \<le> 160) \<or> n = 173 then
       [CHR 0x5C, CHR ''x'', hex_digit (n div 16), hex_digit (n mod 16)]
     else [c])"

definition repr_str :: "string \<Rightarrow> string" where
  "repr_str s = (let q = (if CHR 0x27 \<in> set s \<and> CHR 0x22 \<notin> set s then CHR 0x22 else CHR 0x27)
     in q # concat (map (escape_char q) s) @ [q])"

fun comma_sep :: "string list \<Rightarrow> string" where
  "comma_sep [] = []"
| "comma_sep [x] = x"
| "comma_sep (x # y # xs) = x @ '', '' @ comma_sep (y # xs)"

fun py_repr :: "pyval \<Rightarrow> string" where
  "py_repr PNone = ''None''"
| "py_repr (PBool b) = (if b then ''True'' else ''False'')"
| "py_repr (PInt i) = show_int i"
| "py_repr (PFloat x) = repr_float x"
| "py_repr (PStr s) = repr_str s"
| "py_repr (PList xs) = ''['' @ comma_sep (map py_repr xs) @ '']''"
| "py_repr (PDict d) = ''{'' @ comma_sep (map (\<lambda>(k, v). repr_str k @ '': '' @ py_repr v) d) @ ''}''"

definition py_str :: "pyval \<Rightarrow> string" where
  "py_str v = (case v of PStr s \<Rightarrow> s | _ \<Rightarrow> py_repr v)"

lemma py_str_PStr [simp]: "py_str (PStr s) = s"
  by (simp add: py_str_def)

text \<open>\<open>dict(v)\<close> of a mapping or of an iterable of pairs (with string keys); \<open>None\<close> where it raises.\<close>

fun pair_of :: "pyval \<Rightarrow> (string \<times> pyval) option" where
  "pair_of (PList [PStr k, v]) = Some (k, v)"
| "pair_of (PStr [a, b]) = Some ([a], PStr [b])"
| "pair_of _ = None"

definition dict_put :: "string \<Rightarrow> pyval \<Rightarrow> pydict \<Rightarrow> pydict" where
  "dict_put k v d = (if k \<in> fst ` set d then map (\<lambda>(k', v'). if k' = k then (k, v) else (k', v')) d
     else d @ [(k, v)])"

fun dict_of_pairs :: "pyval list \<Rightarrow> pydict \<Rightarrow> pydict option" where
  "dict_of_pairs [] d = Some d"
| "dict_of_pairs (x # xs) d =
     (case pair_of x of None \<Rightarrow> None | Some (k, v) \<Rightarrow> dict_of_pairs xs (dict_put k v d))"

fun py_dict :: "pyval \<Rightarrow> pydict option" where
  "py_dict (PDict d) = Some d"
| "py_dict (PList xs) = dict_of_pairs xs []"
| "py_dict _ = None"

text \<open>\<open>{**a, **b}\<close>: the entries of \<open>b\<close> win.\<close>

definition dict_merge :: "pydict \<Rightarrow> pydict \<Rightarrow> pydict" where
  "dict_merge a b = foldl (\<lambda>d (k, v). dict_put k v d) a b"

lemma map_of_dict_put [simp]: "map_of (dict_put k v d) = (map_of d)(k \<mapsto> v)"
proof
  fix x
  have upd: "map_of (map (\<lambda>(k', v'). if k' = k then (k, v) else (k', v')) d) x =
      (if x = k then (if k \<in> fst ` set d then Some v else None) else map_of d x)"
    by (induction d) (auto simp: rev_image_eqI)
  show "map_of (dict_put k v d) x = ((map_of d)(k \<mapsto> v)) x"
  proof (cases "k \<in> fst ` set d")
    case True
    then show ?thesis by (simp add: dict_put_def upd)
  next
    case False
    then have "map_of d k = None" by (simp add: map_of_eq_None_iff)
    with False show ?thesis by (auto simp: dict_put_def map_add_def split: option.splits)
  qed
qed

lemma map_of_dict_merge: "map_of (dict_merge a b) = (map_of a)(map fst b [\<mapsto>] map snd b)"
  unfolding dict_merge_def by (induction b arbitrary: a) auto

lemma pyget_dict_put [simp]: "pyget (dict_put k v d) x = (if x = k then v else pyget d x)"
  by (simp add: pyget_def)

section \<open>Results\<close>

text \<open>A result is \<open>Inl\<close> of an error or \<open>Inr\<close> of a value.\<close>

fun is_ok :: "'e + 'a \<Rightarrow> bool" where
  "is_ok (Inl _) = False"
| "is_ok (Inr _) = True"

lemma not_ok_fstD: "\<not> is_ok (fst p) \<Longrightarrow> \<exists>e w. p = (Inl e, w)"
  by (cases p; cases "fst p") auto

lemma is_ok_fstD: "is_ok (fst p) \<Longrightarrow> \<exists>x w. p = (Inr x, w)"
  by (cases p; cases "fst p") auto

lemma is_ok_iff: "is_ok r \<longleftrightarrow> (\<exists>x. r = Inr x)"
  by (cases r) auto

definition of_option :: "'e \<Rightarrow> 'a option \<Rightarrow> 'e + 'a" where
  "of_option e x = (case x of None \<Rightarrow> Inl e | Some y \<Rightarrow> Inr y)"

lemma of_option_simps [simp]: "of_option e None = Inl e" "of_option e (Some y) = Inr y"
  by (simp_all add: of_option_def)

text \<open>The first element that satisfies a test: \<open>next((x for x in xs if p(x)), None)\<close> is the
  library's \<open>List.find\<close>.\<close>

lemma find_SomeD: "List.find p xs = Some x \<Longrightarrow> x \<in> set xs \<and> p x"
  by (auto simp: find_Some_iff)

end
