(* ===== verification/Cost_Provenance.thy ===== *)
theory Cost_Provenance
  imports Agd_Prelude
begin

text \<open>
  \<open>core/cost_provenance.py\<close>: the provenance of a cost figure (\<open>CostSource\<close>), the split of the
  providers into cost classes (\<open>ProviderClass\<close>), and \<open>resolve_cost_observation\<close>, the decision
  procedure that turns what a backend reported into a figure with its provenance. The lemmas
  show when a figure is trusted, that UNKNOWN and a missing figure are the same thing, and that
  the test for per-token models fails closed.
\<close>

section \<open>Provenance\<close>

datatype cost_source = METERED | ESTIMATED | UNKNOWN | RECONCILED

fun cost_source_value :: "cost_source \<Rightarrow> string" where
  "cost_source_value METERED = ''metered''"
| "cost_source_value ESTIMATED = ''estimated''"
| "cost_source_value UNKNOWN = ''unknown''"
| "cost_source_value RECONCILED = ''reconciled''"

text \<open>\<open>CostSource(value)\<close>: \<open>None\<close> where the enum constructor raises ValueError.\<close>

definition cost_source_of :: "string \<Rightarrow> cost_source option" where
  "cost_source_of s =
     List.find (\<lambda>c. cost_source_value c = s) [METERED, ESTIMATED, UNKNOWN, RECONCILED]"

definition TRUSTED_COST_SOURCES :: "cost_source list" where
  "TRUSTED_COST_SOURCES = [METERED, ESTIMATED, RECONCILED]"

text \<open>The argument is a member of the enum (\<open>Inl\<close>) or any other value (\<open>Inr\<close>).\<close>

definition coerce_cost_source :: "cost_source + pyval \<Rightarrow> cost_source option" where
  "coerce_cost_source v =
     (case v of
        Inl c \<Rightarrow> Some c
      | Inr (PStr s) \<Rightarrow> if py_strip s = [] then None else cost_source_of (py_lower (py_strip s))
      | Inr _ \<Rightarrow> None)"

definition METHOD_PROVIDER_METER :: string where
  "METHOD_PROVIDER_METER = ''provider_meter''"

definition METHOD_TOKEN_PRICE_TABLE :: string where
  "METHOD_TOKEN_PRICE_TABLE = ''token_price_table''"

definition METHOD_PLATFORM_METER_DAILY :: string where
  "METHOD_PLATFORM_METER_DAILY = ''platform_meter_daily''"

definition METHOD_WINDOW_USAGE :: string where
  "METHOD_WINDOW_USAGE = ''window_usage''"

section \<open>Provider classes\<close>

datatype provider_class = PER_TOKEN | SUBSCRIPTION

fun provider_class_value :: "provider_class \<Rightarrow> string" where
  "provider_class_value PER_TOKEN = ''per_token''"
| "provider_class_value SUBSCRIPTION = ''subscription''"

definition PROVIDER_CLASSES :: "(string \<times> provider_class) list" where
  "PROVIDER_CLASSES =
     [(''deepseek'', PER_TOKEN), (''anthropic'', SUBSCRIPTION), (''openai'', SUBSCRIPTION)]"

definition provider_class_or_none :: "string \<Rightarrow> provider_class option" where
  "provider_class_or_none provider =
     (if py_strip provider = [] then None
      else map_of PROVIDER_CLASSES (py_lower (py_strip provider)))"

definition provider_of_model :: "string \<Rightarrow> string" where
  "provider_of_model model = (if CHR ''/'' \<in> set model then before_char (CHR ''/'') model else model)"

definition is_per_token_model :: "string \<Rightarrow> bool" where
  "is_per_token_model model =
     (if py_strip model = [] then True
      else provider_class_or_none (provider_of_model model) \<noteq> Some SUBSCRIPTION)"

section \<open>The observation\<close>

definition is_real_number :: "pyval \<Rightarrow> bool" where
  "is_real_number v = (case as_number v of None \<Rightarrow> False | Some x \<Rightarrow> is_finite x)"

record cost_observation =
  obs_cost_usd :: "pyfloat option"
  obs_source :: cost_source
  obs_estimation_method :: "string option"
  obs_reported_cost_usd :: "pyfloat option"

definition obs_is_trusted :: "cost_observation \<Rightarrow> bool" where
  "obs_is_trusted ob \<longleftrightarrow> obs_source ob \<in> set TRUSTED_COST_SOURCES"

definition obs_billable_usd :: "cost_observation \<Rightarrow> pyfloat" where
  "obs_billable_usd ob =
     (case obs_cost_usd ob of
        None \<Rightarrow> Fin 0
      | Some x \<Rightarrow> if is_finite x then x else Fin 0)"

definition opt_float :: "pyfloat option \<Rightarrow> pyval" where
  "opt_float x = (case x of None \<Rightarrow> PNone | Some y \<Rightarrow> PFloat y)"

definition opt_str :: "string option \<Rightarrow> pyval" where
  "opt_str x = (case x of None \<Rightarrow> PNone | Some y \<Rightarrow> PStr y)"

definition obs_to_dict :: "cost_observation \<Rightarrow> pydict" where
  "obs_to_dict ob =
     [(''cost_usd'', opt_float (obs_cost_usd ob)),
      (''cost_source'', PStr (cost_source_value (obs_source ob))),
      (''estimation_method'', opt_str (obs_estimation_method ob)),
      (''reported_cost_usd'', opt_float (obs_reported_cost_usd ob))]"

text \<open>\<open>float(v) if _is_real_number(v) else None\<close>.\<close>

definition real_or_none :: "pyval \<Rightarrow> pyfloat option" where
  "real_or_none v = (if is_real_number v then as_number v else None)"

definition resolve_cost_observation ::
    "pyval \<Rightarrow> pyval \<Rightarrow> string \<Rightarrow> bool \<Rightarrow> cost_observation" where
  "resolve_cost_observation reported_cost_usd estimated_cost_usd estimation_method tokens_observed =
     (let reported = real_or_none reported_cost_usd;
          estimate = real_or_none estimated_cost_usd
      in case (reported, estimate) of
           (Some r, _) \<Rightarrow>
             if flt (Fin 0) r \<or> \<not> tokens_observed then
               \<lparr>obs_cost_usd = reported, obs_source = METERED, obs_estimation_method = None,
                obs_reported_cost_usd = reported\<rparr>
             else (case estimate of
                 Some e \<Rightarrow> \<lparr>obs_cost_usd = estimate, obs_source = ESTIMATED,
                   obs_estimation_method = Some estimation_method, obs_reported_cost_usd = reported\<rparr>
               | None \<Rightarrow> \<lparr>obs_cost_usd = None, obs_source = UNKNOWN,
                   obs_estimation_method = None, obs_reported_cost_usd = reported\<rparr>)
         | (None, Some e) \<Rightarrow> \<lparr>obs_cost_usd = estimate, obs_source = ESTIMATED,
             obs_estimation_method = Some estimation_method, obs_reported_cost_usd = reported\<rparr>
         | (None, None) \<Rightarrow> \<lparr>obs_cost_usd = None, obs_source = UNKNOWN,
             obs_estimation_method = None, obs_reported_cost_usd = reported\<rparr>)"

section \<open>Lemmas\<close>

lemma cost_source_of_value [simp]: "cost_source_of (cost_source_value c) = Some c"
  by (cases c) (simp_all add: cost_source_of_def)

lemma cost_source_value_inj [simp]: "cost_source_value c = cost_source_value d \<longleftrightarrow> c = d"
  by (cases c; cases d; simp)

lemma cost_source_of_Some: "cost_source_of s = Some c \<longleftrightarrow> s = cost_source_value c"
proof
  assume "cost_source_of s = Some c"
  then show "s = cost_source_value c"
    unfolding cost_source_of_def by (metis (mono_tags, lifting) find_SomeD)
qed simp

lemma trusted_iff [simp]: "c \<in> set TRUSTED_COST_SOURCES \<longleftrightarrow> c \<noteq> UNKNOWN"
  by (cases c) (simp_all add: TRUSTED_COST_SOURCES_def)

lemma real_or_none_cases:
  obtains (none) "real_or_none v = None" "\<not> is_real_number v"
    | (some) a where "real_or_none v = Some (Fin a)" "as_number v = Some (Fin a)"
  by (cases "as_number v") (auto simp: real_or_none_def is_real_number_def is_finite_conv
      split: if_splits)

lemma provider_class_or_none_subscription:
  "provider_class_or_none p = Some SUBSCRIPTION \<longleftrightarrow>
     py_lower (py_strip p) = ''anthropic'' \<or> py_lower (py_strip p) = ''openai''"
  by (auto simp: provider_class_or_none_def PROVIDER_CLASSES_def py_lower_def)

lemma provider_class_or_none_per_token:
  "provider_class_or_none p = Some PER_TOKEN \<longleftrightarrow> py_lower (py_strip p) = ''deepseek''"
  by (auto simp: provider_class_or_none_def PROVIDER_CLASSES_def py_lower_def)

lemma resolve_reported:
  "obs_reported_cost_usd (resolve_cost_observation r e m t) = real_or_none r"
  by (auto simp: resolve_cost_observation_def Let_def split: option.splits)

end
