(* ===== verification/Lease_Types.thy ===== *)
theory Lease_Types
  imports Cost_Provenance
begin

text \<open>
  The value objects of \<open>control/lease_registry.py\<close>: the error hierarchy, \<open>LeaseScope\<close>, \<open>Lease\<close>
  with its stored form (\<open>to_dict\<close>, \<open>from_dict\<close>), \<open>AdmissionRecord\<close> with \<open>validate\<close>, the
  resolution of provider classes, the refusal of the sandbox Redis and the concurrency
  recommendation. Message texts are not modelled; an error carries the names of the fields or
  the kind of denial instead.
\<close>

section \<open>Errors\<close>

text \<open>
  \<open>LeaseDenied\<close>, \<open>LeaseUnavailable\<close> and \<open>LeaseField\<close> are the subclasses of \<open>AdmissionError\<close>.
  \<open>OtherError\<close> stands for an exception outside that family (a client error, or the
  AttributeError of a payload that is no mapping).
\<close>

datatype denial = CapExceeded | UnknownCost | ClassBoundary | Contention

datatype lease_error =
    LeaseDenied denial
  | LeaseUnavailable
  | LeaseField "string list"
  | OtherError

fun is_admission_error :: "lease_error \<Rightarrow> bool" where
  "is_admission_error OtherError = False"
| "is_admission_error _ = True"

section \<open>Vocabularies\<close>

datatype lease_kind = BUDGET | CONCURRENCY

fun lease_kind_value :: "lease_kind \<Rightarrow> string" where
  "lease_kind_value BUDGET = ''budget''"
| "lease_kind_value CONCURRENCY = ''concurrency''"

datatype scope_kind = FLEET | PROVIDER | MODEL | CAMPAIGN | RUN

fun scope_kind_value :: "scope_kind \<Rightarrow> string" where
  "scope_kind_value FLEET = ''fleet''"
| "scope_kind_value PROVIDER = ''provider''"
| "scope_kind_value MODEL = ''model''"
| "scope_kind_value CAMPAIGN = ''campaign''"
| "scope_kind_value RUN = ''run''"

definition UNIT_USD :: string where "UNIT_USD = ''usd''"

definition UNIT_WINDOW_PERCENT :: string where "UNIT_WINDOW_PERCENT = ''window_percent''"

definition UNIT_SLOTS :: string where "UNIT_SLOTS = ''slots''"

fun BUDGET_UNIT_BY_CLASS :: "provider_class \<Rightarrow> string" where
  "BUDGET_UNIT_BY_CLASS PER_TOKEN = UNIT_USD"
| "BUDGET_UNIT_BY_CLASS SUBSCRIPTION = UNIT_WINDOW_PERCENT"

definition WINDOW_PERCENT_MAX :: pyfloat where
  "WINDOW_PERCENT_MAX = Fin 100"

definition EPSILON :: rat where
  "EPSILON = 1 / 1000000000"

definition KEY_TTL_SECONDS :: int where
  "KEY_TTL_SECONDS = 7 * 24 * 3600"

definition DEFAULT_TTL_SECONDS :: int where
  "DEFAULT_TTL_SECONDS = 3600"

text \<open>The enum constructors applied to a stored value; \<open>None\<close> is ValueError.\<close>

definition enum_of :: "('a \<Rightarrow> string) \<Rightarrow> 'a list \<Rightarrow> pyval \<Rightarrow> 'a option" where
  "enum_of value members v =
     (case v of PStr s \<Rightarrow> List.find (\<lambda>m. value m = s) members | _ \<Rightarrow> None)"

definition lease_kind_of :: "pyval \<Rightarrow> lease_kind option" where
  "lease_kind_of = enum_of lease_kind_value [BUDGET, CONCURRENCY]"

definition scope_kind_of :: "pyval \<Rightarrow> scope_kind option" where
  "scope_kind_of = enum_of scope_kind_value [FLEET, PROVIDER, MODEL, CAMPAIGN, RUN]"

definition provider_class_of :: "pyval \<Rightarrow> provider_class option" where
  "provider_class_of = enum_of provider_class_value [PER_TOKEN, SUBSCRIPTION]"

definition cost_source_of_val :: "pyval \<Rightarrow> cost_source option" where
  "cost_source_of_val = enum_of cost_source_value [METERED, ESTIMATED, UNKNOWN, RECONCILED]"

section \<open>Scopes\<close>

record lease_scope =
  scope_kind :: scope_kind
  scope_name :: string

text \<open>\<open>LeaseScope(kind, name)\<close>, with the checks of \<open>__post_init__\<close>.\<close>

definition mk_scope :: "scope_kind \<Rightarrow> string \<Rightarrow> lease_error + lease_scope" where
  "mk_scope k n =
     (if py_strip n = [] then Inl (LeaseField [''name''])
      else if CHR '':'' \<in> set n then Inl (LeaseField [''name''])
      else Inr \<lparr>scope_kind = k, scope_name = n\<rparr>)"

definition scope_token :: "lease_scope \<Rightarrow> string" where
  "scope_token s = scope_kind_value (scope_kind s) @ '':'' @ scope_name s"

text \<open>What construction guarantees of every scope.\<close>

definition scope_ok :: "lease_scope \<Rightarrow> bool" where
  "scope_ok s \<longleftrightarrow> py_strip (scope_name s) \<noteq> [] \<and> CHR '':'' \<notin> set (scope_name s)"

section \<open>Leases\<close>

record lease =
  lease_id :: string
  lease_kind :: lease_kind
  lease_scope :: lease_scope
  lease_provider_class :: provider_class
  lease_amount :: pyfloat
  lease_unit :: string
  lease_hard_cap :: pyfloat
  lease_expires_at :: pyfloat
  lease_granted_at :: pyfloat
  lease_run_id :: string
  lease_cost_source :: "cost_source option"
  lease_metadata :: pydict

definition is_expired :: "lease \<Rightarrow> rat \<Rightarrow> bool" where
  "is_expired l now \<longleftrightarrow> fle (lease_expires_at l) (Fin now)"

definition lease_to_dict :: "lease \<Rightarrow> pydict" where
  "lease_to_dict l =
     [(''lease_id'', PStr (lease_id l)),
      (''kind'', PStr (lease_kind_value (lease_kind l))),
      (''scope_kind'', PStr (scope_kind_value (scope_kind (lease_scope l)))),
      (''scope_name'', PStr (scope_name (lease_scope l))),
      (''provider_class'', PStr (provider_class_value (lease_provider_class l))),
      (''amount'', PFloat (lease_amount l)),
      (''unit'', PStr (lease_unit l)),
      (''hard_cap'', PFloat (lease_hard_cap l)),
      (''expires_at'', PFloat (lease_expires_at l)),
      (''granted_at'', PFloat (lease_granted_at l)),
      (''run_id'', PStr (lease_run_id l)),
      (''cost_source'', opt_str (map_option cost_source_value (lease_cost_source l))),
      (''metadata'', PDict (lease_metadata l))]"

definition lease_required_fields :: "string list" where
  "lease_required_fields =
     [''lease_id'', ''kind'', ''scope_kind'', ''scope_name'', ''provider_class'', ''amount'',
      ''unit'', ''hard_cap'', ''expires_at'', ''granted_at'', ''run_id'']"

definition lease_cost_source_of :: "pyval \<Rightarrow> cost_source option option" where
  "lease_cost_source_of raw =
     (if truthy raw then map_option Some (cost_source_of_val raw) else Some None)"

definition lease_from_dict :: "pydict \<Rightarrow> lease_error + lease" where
  "lease_from_dict d =
     (let missing = filter (\<lambda>k. pyget d k = PNone) lease_required_fields
      in if missing \<noteq> [] then Inl (LeaseField missing)
         else case lease_kind_of (pyget d ''kind'') of None \<Rightarrow> Inl (LeaseField [''kind''])
         | Some k \<Rightarrow> (case scope_kind_of (pyget d ''scope_kind'') of None \<Rightarrow> Inl (LeaseField [''scope_kind''])
         | Some sk \<Rightarrow> (case mk_scope sk (py_str (pyget d ''scope_name'')) of Inl e \<Rightarrow> Inl e
         | Inr sc \<Rightarrow> (case provider_class_of (pyget d ''provider_class'') of
                         None \<Rightarrow> Inl (LeaseField [''provider_class''])
         | Some pc \<Rightarrow> (case float_of (pyget d ''amount'') of None \<Rightarrow> Inl (LeaseField [''amount''])
         | Some am \<Rightarrow> (case float_of (pyget d ''hard_cap'') of None \<Rightarrow> Inl (LeaseField [''hard_cap''])
         | Some hc \<Rightarrow> (case float_of (pyget d ''expires_at'') of None \<Rightarrow> Inl (LeaseField [''expires_at''])
         | Some ex \<Rightarrow> (case float_of (pyget d ''granted_at'') of None \<Rightarrow> Inl (LeaseField [''granted_at''])
         | Some gr \<Rightarrow> (case lease_cost_source_of (pyget d ''cost_source'') of
                         None \<Rightarrow> Inl (LeaseField [''cost_source''])
         | Some cs \<Rightarrow> (case (if truthy (pyget d ''metadata'') then py_dict (pyget d ''metadata'') else Some []) of
                         None \<Rightarrow> Inl (LeaseField [''metadata''])
         | Some md \<Rightarrow> Inr
             \<lparr>lease_id = py_str (pyget d ''lease_id''), lease_kind = k, lease_scope = sc,
              lease_provider_class = pc, lease_amount = am, lease_unit = py_str (pyget d ''unit''),
              lease_hard_cap = hc, lease_expires_at = ex, lease_granted_at = gr,
              lease_run_id = py_str (pyget d ''run_id''), lease_cost_source = cs,
              lease_metadata = md\<rparr>))))))))))"

section \<open>Provider classes\<close>

definition provider_class_for_provider :: "string \<Rightarrow> lease_error + provider_class" where
  "provider_class_for_provider provider =
     (if py_strip provider = [] then Inl (LeaseField [''provider''])
      else of_option (LeaseField [''provider''])
             (map_of PROVIDER_CLASSES (py_lower (py_strip provider))))"

definition provider_class_for_model :: "string \<Rightarrow> lease_error + provider_class" where
  "provider_class_for_model model =
     (if CHR ''/'' \<notin> set model then Inl (LeaseField [''model''])
      else provider_class_for_provider (before_char (CHR ''/'') model))"

section \<open>The admission record\<close>

text \<open>
  \<open>AdmissionRecord\<close>: the numeric fields are \<open>float | None\<close> and checked for their type by
  \<open>validate\<close>, so they hold dynamic values.
\<close>

record admission_record =
  rec_run_id :: string
  rec_lease_ids :: "string list"
  rec_reserved_cost_usd :: pyval
  rec_hard_cap_usd :: pyval
  rec_cost_source :: "cost_source option"
  rec_provider :: string
  rec_model :: string
  rec_expires_at :: pyval
  rec_worktree_identity :: string
  rec_result_namespace :: string

definition rec_provider_class :: "admission_record \<Rightarrow> lease_error + provider_class" where
  "rec_provider_class r = provider_class_for_provider (rec_provider r)"

text \<open>\<open>(v or 0)\<close> as a float, used only where \<open>v\<close> is a number or \<open>None\<close>.\<close>

definition num_or_zero :: "pyval \<Rightarrow> pyfloat" where
  "num_or_zero v = (case as_number v of None \<Rightarrow> Fin 0 | Some x \<Rightarrow> x)"

definition record_problems :: "admission_record \<Rightarrow> string list" where
  "record_problems r =
     map fst (filter (\<lambda>(n, v). py_strip v = [])
        [(''run_id'', rec_run_id r), (''provider'', rec_provider r), (''model'', rec_model r),
         (''worktree_identity'', rec_worktree_identity r),
         (''result_namespace'', rec_result_namespace r)])
     @ (if rec_lease_ids r = [] \<or> (\<exists>lid \<in> set (rec_lease_ids r). py_strip lid = [])
        then [''lease_ids''] else [])
     @ (if \<not> is_real_number (rec_expires_at r) then [''expires_at''] else [])
     @ (if \<not> is_real_number (rec_reserved_cost_usd r)
           \<or> flt (num_or_zero (rec_reserved_cost_usd r)) (Fin 0)
        then [''reserved_cost_usd''] else [])
     @ (if rec_cost_source r = None then [''cost_source''] else [])"

definition record_validate :: "admission_record \<Rightarrow> lease_error + unit" where
  "record_validate r =
     (if record_problems r \<noteq> [] then Inl (LeaseField (record_problems r))
      else case rec_provider_class r of
        Inl e \<Rightarrow> Inl e
      | Inr PER_TOKEN \<Rightarrow>
          if rec_cost_source r = Some UNKNOWN then Inl (LeaseDenied UnknownCost)
          else if \<not> is_real_number (rec_hard_cap_usd r) \<or> fle (num_or_zero (rec_hard_cap_usd r)) (Fin 0)
            then Inl (LeaseField [''hard_cap_usd''])
          else if fle (num_or_zero (rec_reserved_cost_usd r)) (Fin 0)
            then Inl (LeaseField [''reserved_cost_usd''])
          else if flt (num_or_zero (rec_hard_cap_usd r)) (num_or_zero (rec_reserved_cost_usd r))
            then Inl (LeaseDenied CapExceeded)
          else Inr ()
      | Inr SUBSCRIPTION \<Rightarrow>
          if rec_hard_cap_usd r \<noteq> PNone then Inl (LeaseDenied ClassBoundary)
          else if flt (Fin 0) (num_or_zero (rec_reserved_cost_usd r)) then Inl (LeaseDenied ClassBoundary)
          else Inr ())"

section \<open>The Redis placement\<close>

definition LOOPBACK_HOSTS :: "string list" where
  "LOOPBACK_HOSTS = [''127.0.0.1'', ''localhost'', ''::1'', ''0.0.0.0'']"

definition assert_not_sandbox :: "string \<Rightarrow> int \<Rightarrow> lease_error + unit" where
  "assert_not_sandbox host port =
     (let normalized = py_lower (py_strip host) in
      if normalized = ''finops-redis'' then Inl LeaseUnavailable
      else if normalized \<in> set LOOPBACK_HOSTS \<and> port = 6379 then Inl LeaseUnavailable
      else Inr ())"

section \<open>Concurrency sizing\<close>

definition BETA_TOKENS :: real where
  "BETA_TOKENS = 8016211763059362 / 10000000000000000"

definition per_worker_efficiency :: "int \<Rightarrow> real \<Rightarrow> lease_error + real" where
  "per_worker_efficiency n beta =
     (if n < 1 then Inl (LeaseField [''n'']) else Inr (of_int n powr (- beta)))"

definition fleet_throughput :: "int \<Rightarrow> real \<Rightarrow> lease_error + real" where
  "fleet_throughput n beta =
     (case per_worker_efficiency n beta of Inl e \<Rightarrow> Inl e | Inr x \<Rightarrow> Inr (of_int n * x))"

definition marginal_throughput_gain :: "int \<Rightarrow> real \<Rightarrow> lease_error + real" where
  "marginal_throughput_gain n beta =
     (case fleet_throughput (n + 1) beta of Inl e \<Rightarrow> Inl e
      | Inr a \<Rightarrow> (case fleet_throughput n beta of Inl e \<Rightarrow> Inl e | Inr b \<Rightarrow> Inr (a - b)))"

text \<open>The loop \<open>while n < ceiling and marginal_throughput_gain(n, beta) >= min_marginal_gain\<close>.\<close>

function widen :: "real \<Rightarrow> real \<Rightarrow> int \<Rightarrow> int \<Rightarrow> lease_error + int" where
  "widen beta gain ceil n =
     (if n < ceil then
        (case marginal_throughput_gain n beta of
           Inl e \<Rightarrow> Inl e
         | Inr g \<Rightarrow> if gain \<le> g then widen beta gain ceil (n + 1) else Inr n)
      else Inr n)"
  by pat_completeness auto
termination
  by (relation "measure (\<lambda>(beta, gain, ceiling, n). nat (ceiling - n))") auto

declare widen.simps [simp del]

definition recommended_concurrency :: "real \<Rightarrow> real \<Rightarrow> int \<Rightarrow> lease_error + int" where
  "recommended_concurrency beta min_marginal_gain ceil =
     (if \<not> (0 \<le> beta \<and> beta < 1) then Inl (LeaseField [''beta''])
      else if min_marginal_gain \<le> 0 then Inl (LeaseField [''min_marginal_gain''])
      else widen beta min_marginal_gain ceil 1)"

section \<open>Lemmas\<close>

lemma find_all: "m \<in> set ms \<Longrightarrow> inj_on value (set ms) \<Longrightarrow> List.find (\<lambda>x. value x = value m) ms = Some m"
  by (induction ms) (auto simp: inj_on_def)

lemma enum_of_value:
  "m \<in> set ms \<Longrightarrow> inj_on value (set ms) \<Longrightarrow> enum_of value ms (PStr (value m)) = Some m"
  by (simp add: enum_of_def find_all)

lemma lease_kind_of_value [simp]: "lease_kind_of (PStr (lease_kind_value k)) = Some k"
  unfolding lease_kind_of_def by (rule enum_of_value) (cases k; auto simp: inj_on_def)+

lemma scope_kind_of_value [simp]: "scope_kind_of (PStr (scope_kind_value k)) = Some k"
  unfolding scope_kind_of_def by (rule enum_of_value) (cases k; auto simp: inj_on_def)+

lemma provider_class_of_value [simp]: "provider_class_of (PStr (provider_class_value k)) = Some k"
  unfolding provider_class_of_def by (rule enum_of_value) (cases k; auto simp: inj_on_def)+

lemma cost_source_of_val_value [simp]: "cost_source_of_val (PStr (cost_source_value k)) = Some k"
  unfolding cost_source_of_val_def by (rule enum_of_value) (cases k; auto simp: inj_on_def)+

lemma cost_source_value_nonempty [simp]: "cost_source_value c \<noteq> []"
  by (cases c) simp_all

lemma lease_cost_source_of_opt [simp]:
  "lease_cost_source_of (opt_str (map_option cost_source_value cs)) = Some cs"
  by (cases cs) (simp_all add: lease_cost_source_of_def opt_str_def)

lemma mk_scope_ok: "scope_ok s \<Longrightarrow> mk_scope (scope_kind s) (scope_name s) = Inr s"
  by (simp add: mk_scope_def scope_ok_def)

lemma mk_scope_sound: "mk_scope k n = Inr s \<Longrightarrow> scope_ok s \<and> scope_kind s = k \<and> scope_name s = n"
  by (auto simp: mk_scope_def scope_ok_def split: if_splits)

lemma scope_token_inj: "scope_token s = scope_token t \<longleftrightarrow> s = t"
  by (cases "scope_kind s"; cases "scope_kind t"; auto simp: scope_token_def)

lemma lease_from_dict_sound: "lease_from_dict d = Inr l \<Longrightarrow> scope_ok (lease_scope l)"
  by (auto simp: lease_from_dict_def Let_def dest: mk_scope_sound
      split: if_splits option.splits sum.splits)

lemma pyget_hit [simp]: "pyget ((k, v) # d) k = v"
  by (simp add: pyget_def)

lemma pyget_miss [simp]: "k \<noteq> k' \<Longrightarrow> pyget ((k, v) # d) k' = pyget d k'"
  by (simp add: pyget_def)

end
