(* ===== verification/Redis_Client.thy ===== *)
theory Redis_Client
  imports Lease_Types "HOL-Library.AList"
begin

text \<open>
  The outside world of the lease registry. The Redis server, its client library, the clock and
  the id generator are not code of the repository: they are the parameter \<open>client\<close> of every
  registry operation, a record of the calls that \<open>LeaseRegistry\<close> makes. The locale
  \<open>redis_server\<close> states the documented behaviour the registry relies on when no other client
  writes between two of its calls (\<open>Lease_Concurrency\<close> treats several clients): reads report
  the stored hashes, \<open>EXEC\<close> applies the queued commands, a call that raises has written nothing,
  and a generated id is not in use. It is interpreted on a reference server that also runs a
  script of failures; the witnesses evaluate on it.
\<close>

section \<open>Values, commands and calls\<close>

text \<open>A stored value is a text, or the JSON text of a document.\<close>

datatype rval = Text string | Doc pyval

datatype redis_error = WatchError | ClientError

datatype cmd =
    HSet string string rval
  | HDel string "string list"
  | Expire string int

record 'w client =
  c_now :: "'w \<Rightarrow> rat \<times> 'w"
  c_id :: "'w \<Rightarrow> string \<times> 'w"
  c_get :: "string \<Rightarrow> 'w \<Rightarrow> (redis_error + rval option) \<times> 'w"
  c_set :: "string \<Rightarrow> rval \<Rightarrow> 'w \<Rightarrow> (redis_error + unit) \<times> 'w"
  c_hgetall :: "string \<Rightarrow> 'w \<Rightarrow> (redis_error + (string \<times> rval) list) \<times> 'w"
  c_hget :: "string \<Rightarrow> string \<Rightarrow> 'w \<Rightarrow> (redis_error + rval option) \<times> 'w"
  c_watch :: "string list \<Rightarrow> 'w \<Rightarrow> (redis_error + unit) \<times> 'w"
  c_unwatch :: "'w \<Rightarrow> (redis_error + unit) \<times> 'w"
  c_exec :: "cmd list \<Rightarrow> 'w \<Rightarrow> (redis_error + unit) \<times> 'w"

text \<open>\<open>json.dumps(v, sort_keys=True, separators=(",", ":"))\<close> on the values that JSON has.\<close>

fun comma_join :: "string list \<Rightarrow> string" where
  "comma_join [] = []"
| "comma_join [x] = x"
| "comma_join (x # y # xs) = x @ '','' @ comma_join (y # xs)"

fun doc_dumps :: "pyval \<Rightarrow> string" where
  "doc_dumps PNone = ''null''"
| "doc_dumps (PBool b) = (if b then ''true'' else ''false'')"
| "doc_dumps (PInt i) = show_int i"
| "doc_dumps (PFloat x) = repr_float x"
| "doc_dumps (PStr s) = [CHR 0x22] @ concat (map (escape_char (CHR 0x22)) s) @ [CHR 0x22]"
| "doc_dumps (PList xs) = ''['' @ comma_join (map doc_dumps xs) @ '']''"
| "doc_dumps (PDict d) = ''{'' @ comma_join (map (\<lambda>(k, v).
     doc_dumps (PStr k) @ '':'' @ doc_dumps v) d) @ ''}''"

text \<open>\<open>_decode(value)\<close>, and \<open>json.loads\<close> of a stored value (\<open>None\<close>: not valid JSON).\<close>

fun decode_text :: "rval \<Rightarrow> string" where
  "decode_text (Text s) = s"
| "decode_text (Doc v) = doc_dumps v"

fun doc_loads :: "rval \<Rightarrow> pyval option" where
  "doc_loads (Text s) = None"
| "doc_loads (Doc v) = Some v"

section \<open>Documented semantics of the write commands\<close>

type_synonym hashes = "string \<Rightarrow> string \<Rightarrow> rval option"

text \<open>\<open>EXPIRE\<close> leaves the contents in place; it sets a deadline, which is not part of
  this state; \<open>Lease_Concurrency\<close> models it.\<close>

fun apply_cmd :: "cmd \<Rightarrow> hashes \<Rightarrow> hashes" where
  "apply_cmd (HSet k f v) h = h(k := (h k)(f \<mapsto> v))"
| "apply_cmd (HDel k fs) h = h(k := (\<lambda>f. if f \<in> set fs then None else h k f))"
| "apply_cmd (Expire k t) h = h"

fun apply_cmds :: "cmd list \<Rightarrow> hashes \<Rightarrow> hashes" where
  "apply_cmds [] h = h"
| "apply_cmds (c # cs) h = apply_cmds cs (apply_cmd c h)"

lemma apply_cmds_append: "apply_cmds (cs @ ds) h = apply_cmds ds (apply_cmds cs h)"
  by (induction cs arbitrary: h) auto

section \<open>The contract of the client\<close>

text \<open>Nothing stored has changed, and time has not gone back.\<close>

definition same_db ::
    "('w \<Rightarrow> hashes) \<Rightarrow> ('w \<Rightarrow> string \<Rightarrow> rval option) \<Rightarrow> ('w \<Rightarrow> rat) \<Rightarrow> 'w \<Rightarrow> 'w \<Rightarrow> bool" where
  "same_db hs ss cl w w' \<longleftrightarrow> hs w' = hs w \<and> ss w' = ss w \<and> cl w \<le> cl w'"

locale redis_server =
  fixes C :: "'w client"
    and hashes :: "'w \<Rightarrow> hashes"
    and strings :: "'w \<Rightarrow> string \<Rightarrow> rval option"
    and clock :: "'w \<Rightarrow> rat"
  assumes now_frame: "c_now C w = (t, w') \<Longrightarrow> same_db hashes strings clock w w'"
    and now_value: "c_now C w = (t, w') \<Longrightarrow> t = clock w"
    and id_frame: "c_id C w = (i, w') \<Longrightarrow> same_db hashes strings clock w w'"
    and id_fresh: "c_id C w = (i, w') \<Longrightarrow> hashes w k (p @ i) = None"
    and get_frame: "c_get C k w = (rg, w') \<Longrightarrow> same_db hashes strings clock w w'"
    and get_value: "c_get C k w = (Inr v, w') \<Longrightarrow> v = strings w k"
    and set_frame: "c_set C k x w = (rs, w') \<Longrightarrow> hashes w' = hashes w \<and> clock w \<le> clock w'"
    and set_value: "c_set C k x w = (Inr u, w') \<Longrightarrow> strings w' = (strings w)(k \<mapsto> x)"
    and set_error: "c_set C k x w = (Inl e, w') \<Longrightarrow> strings w' = strings w"
    and hgetall_frame: "c_hgetall C k w = (rh, w') \<Longrightarrow> same_db hashes strings clock w w'"
    and hgetall_value: "c_hgetall C k w = (Inr xs, w') \<Longrightarrow>
      map_of xs = hashes w k \<and> distinct (map fst xs)"
    and hget_frame: "c_hget C k f w = (rg, w') \<Longrightarrow> same_db hashes strings clock w w'"
    and hget_value: "c_hget C k f w = (Inr v, w') \<Longrightarrow> v = hashes w k f"
    and watch_frame: "c_watch C ks w = (ru, w') \<Longrightarrow> same_db hashes strings clock w w'"
    and unwatch_frame: "c_unwatch C w = (ru, w') \<Longrightarrow> same_db hashes strings clock w w'"
    and exec_frame: "c_exec C cs w = (ru, w') \<Longrightarrow> strings w' = strings w \<and> clock w \<le> clock w'"
    and exec_commit: "c_exec C cs w = (Inr u, w') \<Longrightarrow> hashes w' = apply_cmds cs (hashes w)"
    and exec_error: "c_exec C cs w = (Inl e, w') \<Longrightarrow> hashes w' = hashes w"

section \<open>A reference server\<close>

text \<open>
  Hashes and strings are association lists, the clock moves on by \<open>\<bar>rw_tick\<bar>\<close> at each reading,
  and \<open>rw_script\<close> says which of the next Redis calls raise (none once the script is used up).
\<close>

record ref_world =
  rw_hashes :: "(string \<times> (string \<times> rval) list) list"
  rw_strings :: "(string \<times> rval) list"
  rw_clock :: rat
  rw_tick :: rat
  rw_script :: "redis_error option list"

definition rw_hash :: "ref_world \<Rightarrow> string \<Rightarrow> (string \<times> rval) list" where
  "rw_hash w k = (case map_of (rw_hashes w) k of None \<Rightarrow> [] | Some h \<Rightarrow> h)"

definition rw_pop :: "ref_world \<Rightarrow> redis_error option \<times> ref_world" where
  "rw_pop w = (case rw_script w of [] \<Rightarrow> (None, w) | e # es \<Rightarrow> (e, w\<lparr>rw_script := es\<rparr>))"

definition rw_call :: "(ref_world \<Rightarrow> 'a \<times> ref_world) \<Rightarrow> ref_world \<Rightarrow> (redis_error + 'a) \<times> ref_world" where
  "rw_call f w = (case rw_pop w of
      (Some e, w') \<Rightarrow> (Inl e, w')
    | (None, w') \<Rightarrow> (case f w' of (x, w'') \<Rightarrow> (Inr x, w'')))"

definition rw_set_hash :: "string \<Rightarrow> (string \<times> rval) list \<Rightarrow> ref_world \<Rightarrow> ref_world" where
  "rw_set_hash k h w = w\<lparr>rw_hashes := AList.update k h (rw_hashes w)\<rparr>"

fun rw_cmd :: "cmd \<Rightarrow> ref_world \<Rightarrow> ref_world" where
  "rw_cmd (HSet k f v) w = rw_set_hash k (AList.update f v (rw_hash w k)) w"
| "rw_cmd (HDel k fs) w = rw_set_hash k (filter (\<lambda>(f, v). f \<notin> set fs) (rw_hash w k)) w"
| "rw_cmd (Expire k t) w = w"

text \<open>An id longer than every field in use.\<close>

definition rw_fresh :: "ref_world \<Rightarrow> string" where
  "rw_fresh w = replicate (Suc (sum_list (map (\<lambda>(k, h). sum_list (map (length \<circ> fst) h)) (rw_hashes w))))
     (CHR ''x'')"

definition ref_client :: "ref_world client" where
  "ref_client =
     \<lparr>c_now = (\<lambda>w. (rw_clock w, w\<lparr>rw_clock := rw_clock w + \<bar>rw_tick w\<bar>\<rparr>)),
      c_id = (\<lambda>w. (rw_fresh w, w)),
      c_get = (\<lambda>k. rw_call (\<lambda>w. (map_of (rw_strings w) k, w))),
      c_set = (\<lambda>k v. rw_call (\<lambda>w. ((), w\<lparr>rw_strings := AList.update k v (rw_strings w)\<rparr>))),
      c_hgetall = (\<lambda>k. rw_call (\<lambda>w. (AList.clearjunk (rw_hash w k), w))),
      c_hget = (\<lambda>k f. rw_call (\<lambda>w. (map_of (rw_hash w k) f, w))),
      c_watch = (\<lambda>ks. rw_call (\<lambda>w. ((), w))),
      c_unwatch = rw_call (\<lambda>w. ((), w)),
      c_exec = (\<lambda>cs. rw_call (\<lambda>w. ((), fold rw_cmd cs w)))\<rparr>"

definition ref_hashes :: "ref_world \<Rightarrow> hashes" where
  "ref_hashes w k = map_of (rw_hash w k)"

definition ref_strings :: "ref_world \<Rightarrow> string \<Rightarrow> rval option" where
  "ref_strings w = map_of (rw_strings w)"

definition ref_same :: "ref_world \<Rightarrow> ref_world \<Rightarrow> bool" where
  "ref_same w w' \<longleftrightarrow> same_db ref_hashes ref_strings rw_clock w w'"

lemma ref_same_refl [simp]: "ref_same w w"
  by (simp add: ref_same_def same_db_def)

lemma ref_pop: "rw_pop w = (e, w') \<Longrightarrow> ref_same w w'"
  by (auto simp: rw_pop_def ref_same_def same_db_def ref_hashes_def rw_hash_def ref_strings_def
      fun_eq_iff split: list.splits)

lemma rw_call_error: "rw_call f w = (Inl e, w') \<Longrightarrow> ref_same w w'"
  by (auto simp: rw_call_def dest: ref_pop split: prod.splits option.splits)

lemma rw_call_ok: "rw_call f w = (Inr x, w') \<Longrightarrow> \<exists>v. f v = (x, w') \<and> ref_same w v"
  by (auto simp: rw_call_def split: prod.splits option.splits) (metis ref_pop)

lemma rw_call_read: "rw_call (\<lambda>w. (g w, w)) w = (r, w') \<Longrightarrow> ref_same w w'"
  by (cases r) (auto dest: rw_call_error rw_call_ok)

lemma rw_call_write:
  assumes "rw_call (\<lambda>w. ((), f w)) w = (r, w')" and "\<And>v. rw_clock (f v) = rw_clock v"
  shows "rw_clock w \<le> rw_clock w'"
  using assms by (cases r) (auto simp: ref_same_def same_db_def dest: rw_call_error rw_call_ok)

lemma ref_hashes_set_hash: "ref_hashes (rw_set_hash k h w) = (ref_hashes w)(k := map_of h)"
  by (auto simp: ref_hashes_def rw_set_hash_def rw_hash_def update_conv' fun_eq_iff)

lemma map_of_filter_keys: "map_of (filter (\<lambda>(f, v). f \<notin> F) h) = (\<lambda>f. if f \<in> F then None else map_of h f)"
  by (induction h) (auto simp: fun_eq_iff)

lemma ref_cmd: "ref_hashes (rw_cmd c w) = apply_cmd c (ref_hashes w)"
  by (cases c) (auto simp: ref_hashes_set_hash update_conv' map_of_filter_keys ref_hashes_def fun_eq_iff)

lemma ref_cmds: "ref_hashes (fold rw_cmd cs w) = apply_cmds cs (ref_hashes w)"
  by (induction cs arbitrary: w) (auto simp: ref_cmd)

lemma ref_cmd_frame: "ref_strings (rw_cmd c w) = ref_strings w" "rw_clock (rw_cmd c w) = rw_clock w"
  by (cases c; simp add: ref_strings_def rw_set_hash_def)+

lemma ref_cmds_frame:
  "ref_strings (fold rw_cmd cs w) = ref_strings w" "rw_clock (fold rw_cmd cs w) = rw_clock w"
  by (induction cs arbitrary: w) (auto simp: ref_cmd_frame)

lemma field_length:
  assumes "map_of (rw_hash w k) f = Some v"
  shows "length f < length (rw_fresh w)"
proof -
  let ?g = "\<lambda>(k :: string, h :: (string \<times> rval) list). sum_list (map (length \<circ> fst) h)"
  from assms obtain h where h: "map_of (rw_hashes w) k = Some h" "(f, v) \<in> set h"
    by (auto simp: rw_hash_def dest: map_of_SomeD split: option.splits)
  then have "(k, h) \<in> set (rw_hashes w)" by (auto dest: map_of_SomeD)
  then have "?g (k, h) \<le> sum_list (map ?g (rw_hashes w))"
    by - (rule member_le_sum_list; force)
  moreover from h(2) have "(length \<circ> fst) (f, v) \<le> sum_list (map (length \<circ> fst) h)"
    by - (rule member_le_sum_list; force)
  ultimately show ?thesis by (simp add: rw_fresh_def)
qed

lemma ref_fresh: "ref_hashes w k (p @ rw_fresh w) = None"
proof (cases "ref_hashes w k (p @ rw_fresh w)")
  case (Some v)
  then have "length (p @ rw_fresh w) < length (rw_fresh w)"
    unfolding ref_hashes_def by (rule field_length)
  then show ?thesis by simp
qed

lemma ref_same_reads: "ref_same w w' \<Longrightarrow> ref_hashes w' = ref_hashes w"
  "ref_same w w' \<Longrightarrow> ref_strings w' = ref_strings w" "ref_same w w' \<Longrightarrow> rw_clock w \<le> rw_clock w'"
  by (auto simp: ref_same_def same_db_def)

lemma rw_call_get: "rw_call (\<lambda>w. (g w, w)) w = (Inr x, w') \<Longrightarrow> x = g w' \<and> ref_same w w'"
  by (auto dest: rw_call_ok)

lemma rw_call_do: "rw_call (\<lambda>w. ((), f w)) w = (Inr u, w') \<Longrightarrow> \<exists>v. w' = f v \<and> ref_same w v"
  by (auto dest: rw_call_ok)

lemma ref_reads:
  "c_get ref_client k w = (Inr v, w') \<Longrightarrow> v = ref_strings w k"
  "c_hget ref_client k f w = (Inr v, w') \<Longrightarrow> v = ref_hashes w k f"
  "c_hgetall ref_client k w = (Inr xs, w') \<Longrightarrow> map_of xs = ref_hashes w k \<and> distinct (map fst xs)"
proof -
  assume "c_get ref_client k w = (Inr v, w')"
  then have "v = ref_strings w' k \<and> ref_same w w'"
    by (auto simp: ref_client_def ref_strings_def dest!: rw_call_get)
  then show "v = ref_strings w k" by (metis ref_same_reads(2))
next
  assume "c_hget ref_client k f w = (Inr v, w')"
  then have "v = ref_hashes w' k f \<and> ref_same w w'"
    by (auto simp: ref_client_def ref_hashes_def dest!: rw_call_get)
  then show "v = ref_hashes w k f" by (metis ref_same_reads(1))
next
  assume "c_hgetall ref_client k w = (Inr xs, w')"
  then have "map_of xs = ref_hashes w' k \<and> distinct (map fst xs) \<and> ref_same w w'"
    by (auto simp: ref_client_def ref_hashes_def map_of_clearjunk distinct_clearjunk dest!: rw_call_get)
  then show "map_of xs = ref_hashes w k \<and> distinct (map fst xs)" by (metis ref_same_reads(1))
qed

lemma ref_frames:
  "c_get ref_client k w = (rg, w') \<Longrightarrow> ref_same w w'"
  "c_hgetall ref_client k w = (rh, w') \<Longrightarrow> ref_same w w'"
  "c_hget ref_client k f w = (rg, w') \<Longrightarrow> ref_same w w'"
  "c_watch ref_client ks w = (ru, w') \<Longrightarrow> ref_same w w'"
  "c_unwatch ref_client w = (ru, w') \<Longrightarrow> ref_same w w'"
  by (auto simp: ref_client_def dest: rw_call_read)

lemma ref_now: "c_now ref_client w = (t, w') \<Longrightarrow> t = rw_clock w \<and> ref_same w w'"
  by (auto simp: ref_client_def ref_same_def same_db_def ref_hashes_def rw_hash_def ref_strings_def)

lemma ref_id: "c_id ref_client w = (i, w') \<Longrightarrow> i = rw_fresh w \<and> w' = w"
  by (auto simp: ref_client_def)

lemma ref_set_effect:
  "ref_hashes (w\<lparr>rw_strings := s\<rparr>) = ref_hashes w" "ref_strings (w\<lparr>rw_strings := s\<rparr>) = map_of s"
  by (auto simp: ref_hashes_def rw_hash_def ref_strings_def fun_eq_iff)

lemma ref_set_commit:
  assumes "c_set ref_client k x w = (Inr u, w')"
  shows "ref_hashes w' = ref_hashes w \<and> rw_clock w \<le> rw_clock w' \<and> ref_strings w' = (ref_strings w)(k \<mapsto> x)"
proof -
  from assms obtain v where v: "w' = v\<lparr>rw_strings := AList.update k x (rw_strings v)\<rparr>" "ref_same w v"
    by (auto simp: ref_client_def dest!: rw_call_do)
  have "ref_strings w' = (ref_strings v)(k \<mapsto> x)"
    by (simp add: v(1) ref_set_effect update_conv' ref_strings_def)
  with v show ?thesis by (simp add: ref_set_effect ref_same_reads)
qed

lemma ref_exec_commit:
  assumes "c_exec ref_client cs w = (Inr u, w')"
  shows "ref_hashes w' = apply_cmds cs (ref_hashes w) \<and> rw_clock w \<le> rw_clock w' \<and> ref_strings w' = ref_strings w"
proof -
  from assms obtain v where "w' = fold rw_cmd cs v" "ref_same w v"
    by (auto simp: ref_client_def dest!: rw_call_do)
  then show ?thesis by (simp add: ref_cmds ref_cmds_frame ref_same_reads)
qed

lemma ref_errors:
  "c_set ref_client k x w = (Inl e, w') \<Longrightarrow> ref_same w w'"
  "c_exec ref_client cs w = (Inl e, w') \<Longrightarrow> ref_same w w'"
  by (auto simp: ref_client_def dest: rw_call_error)

interpretation ref: redis_server ref_client ref_hashes ref_strings rw_clock
proof (unfold_locales, goal_cases)
  case (4 w i w' k p)
  then show ?case by (auto simp: ref_fresh dest: ref_id)
next
  case (7 k x w rs w')
  then show ?case by (cases rs) (auto dest: ref_errors ref_set_commit simp: ref_same_reads)
next
  case (16 cs w ru w')
  then show ?case by (cases ru) (auto dest: ref_errors ref_exec_commit simp: ref_same_reads)
next
  case (17 cs w u w')
  then show ?case by (blast dest: ref_exec_commit)
next
  case (8 k x w u w')
  then show ?case by (blast dest: ref_set_commit)
qed (auto simp: ref_same_def [symmetric] ref_same_reads dest: ref_frames ref_reads ref_now ref_id ref_errors)

end
