(* ===== verification/Lease_Registry.thy ===== *)
theory Lease_Registry
  imports Redis_Client
begin

text \<open>
  \<open>class LeaseRegistry\<close> of \<open>control/lease_registry.py\<close>. Every method is a function of the
  registry's configuration, of the client (\<open>Redis_Client\<close>) and of the world, and returns a
  result with the world after it; the optimistic-lock loops recurse on the number of attempts
  left. \<open>Lease_Registry_Facts\<close> shows that what is stored stays readable and indexed (\<open>reg_inv\<close>), that a
  refused reservation writes nothing, that a granted one fits under the cap together with
  every live lease of its scope, and what \<open>release\<close> and the sweep remove.
\<close>

section \<open>Configuration and keys\<close>

record reg_cfg =
  reg_ns :: string
  reg_max_retries :: nat

text \<open>\<open>namespace.rstrip(":")\<close> and \<open>max(1, int(max_retries))\<close>; \<open>None\<close> for a missing client.\<close>

definition rstrip_colon :: "string \<Rightarrow> string" where
  "rstrip_colon s = rev (dropWhile (\<lambda>c. c = CHR '':'') (rev s))"

definition mk_registry :: "'w client option \<Rightarrow> string \<Rightarrow> int \<Rightarrow> lease_error + (reg_cfg \<times> 'w client)" where
  "mk_registry cl namespace max_retries =
     (case cl of None \<Rightarrow> Inl LeaseUnavailable
      | Some C \<Rightarrow> Inr (\<lparr>reg_ns = rstrip_colon namespace, reg_max_retries = nat (max 1 max_retries)\<rparr>, C))"

definition scope_key :: "reg_cfg \<Rightarrow> lease_kind \<Rightarrow> lease_scope \<Rightarrow> string" where
  "scope_key cfg k sc = reg_ns cfg @ '':'' @ lease_kind_value k @ '':'' @ scope_token sc"

definition index_key :: "reg_cfg \<Rightarrow> string" where
  "index_key cfg = reg_ns cfg @ '':index''"

definition cap_key :: "reg_cfg \<Rightarrow> lease_kind \<Rightarrow> lease_scope \<Rightarrow> string" where
  "cap_key cfg k sc = reg_ns cfg @ '':cap:'' @ lease_kind_value k @ '':'' @ scope_token sc"

section \<open>Amounts and caps\<close>

definition require_amount :: "string \<Rightarrow> pyval \<Rightarrow> lease_error + pyfloat" where
  "require_amount name v =
     (case as_number v of
        None \<Rightarrow> Inl (LeaseField [name])
      | Some x \<Rightarrow> if \<not> is_finite x then Inl (LeaseField [name])
                  else if fle x (Fin 0) then Inl (LeaseField [name]) else Inr x)"

definition set_cap :: "'w client \<Rightarrow> reg_cfg \<Rightarrow> lease_kind \<Rightarrow> lease_scope \<Rightarrow> pyval \<Rightarrow> 'w \<Rightarrow>
    (lease_error + pyfloat) \<times> 'w" where
  "set_cap C cfg k sc cap w =
     (case require_amount ''cap'' cap of
        Inl e \<Rightarrow> (Inl e, w)
      | Inr v \<Rightarrow> (case c_set C (cap_key cfg k sc) (Text (repr_float v)) w of
            (Inl _, w') \<Rightarrow> (Inl LeaseUnavailable, w')
          | (Inr _, w') \<Rightarrow> (Inr v, w')))"

definition get_cap :: "'w client \<Rightarrow> reg_cfg \<Rightarrow> lease_kind \<Rightarrow> lease_scope \<Rightarrow> 'w \<Rightarrow>
    (lease_error + pyfloat option) \<times> 'w" where
  "get_cap C cfg k sc w =
     (case c_get C (cap_key cfg k sc) w of
        (Inl _, w') \<Rightarrow> (Inl LeaseUnavailable, w')
      | (Inr None, w') \<Rightarrow> (Inr None, w')
      | (Inr (Some raw), w') \<Rightarrow> (case py_float (decode_text raw) of
            None \<Rightarrow> (Inl (LeaseField [''cap'']), w')
          | Some x \<Rightarrow> (Inr (Some x), w')))"

definition resolve_cap :: "'w client \<Rightarrow> reg_cfg \<Rightarrow> lease_kind \<Rightarrow> lease_scope \<Rightarrow> pyval \<Rightarrow> 'w \<Rightarrow>
    (lease_error + pyfloat) \<times> 'w" where
  "resolve_cap C cfg k sc explicit w =
     (if explicit \<noteq> PNone then (require_amount ''hard_cap'' explicit, w)
      else case get_cap C cfg k sc w of
             (Inl e, w') \<Rightarrow> (Inl e, w')
           | (Inr None, w') \<Rightarrow> (Inl (LeaseField [''hard_cap'']), w')
           | (Inr (Some x), w') \<Rightarrow> (require_amount ''hard_cap'' (PFloat x), w'))"

section \<open>Reading a scope\<close>

text \<open>
  \<open>_partition\<close>: the live leases in the order of the hash, and the expired payloads. An
  unreadable entry stops the whole reading.
\<close>

definition parse_lease :: "rval \<Rightarrow> lease_error + (pyval \<times> lease)" where
  "parse_lease raw =
     (case doc_loads raw of
        None \<Rightarrow> Inl (LeaseField [''json''])
      | Some (PDict d) \<Rightarrow> (case lease_from_dict d of Inl e \<Rightarrow> Inl e | Inr l \<Rightarrow> Inr (PDict d, l))
      | Some _ \<Rightarrow> Inl OtherError)"

fun partition_at :: "rat \<Rightarrow> (string \<times> rval) list \<Rightarrow>
    lease_error + (lease list \<times> (string \<times> pyval) list)" where
  "partition_at now [] = Inr ([], [])"
| "partition_at now ((i, raw) # rest) =
     (case parse_lease raw of
        Inl e \<Rightarrow> Inl e
      | Inr (payload, l) \<Rightarrow>
          (case partition_at now rest of
             Inl e \<Rightarrow> Inl e
           | Inr (live, expired) \<Rightarrow>
               if is_expired l now then Inr (live, (i, payload) # expired)
               else Inr (l # live, expired)))"

definition partition_now :: "'w client \<Rightarrow> (string \<times> rval) list \<Rightarrow> 'w \<Rightarrow>
    (lease_error + (lease list \<times> (string \<times> pyval) list)) \<times> 'w" where
  "partition_now C raw w = (case c_now C w of (now, w') \<Rightarrow> (partition_at now raw, w'))"

section \<open>Reservations\<close>

record reservation =
  rq_kind :: lease_kind
  rq_scope :: lease_scope
  rq_class :: provider_class
  rq_amount :: pyfloat
  rq_unit :: string
  rq_cap :: pyfloat
  rq_run_id :: string
  rq_cost_source :: "cost_source option"
  rq_ttl :: int
  rq_metadata :: pydict

text \<open>The decision: \<open>outstanding + amount > hard_cap + _EPSILON\<close> denies.\<close>

definition over_cap :: "reservation \<Rightarrow> lease list \<Rightarrow> bool" where
  "over_cap q live \<longleftrightarrow>
     flt (fadd (rq_cap q) (Fin EPSILON)) (fadd (fsum (map lease_amount live)) (rq_amount q))"

definition grant_lease :: "reservation \<Rightarrow> rat \<Rightarrow> string \<Rightarrow> lease" where
  "grant_lease q now i =
     \<lparr>lease_id = take 3 (lease_kind_value (rq_kind q)) @ ''_'' @ i,
      lease_kind = rq_kind q, lease_scope = rq_scope q, lease_provider_class = rq_class q,
      lease_amount = rq_amount q, lease_unit = rq_unit q, lease_hard_cap = rq_cap q,
      lease_expires_at = Fin (now + of_int (rq_ttl q)), lease_granted_at = Fin now,
      lease_run_id = rq_run_id q, lease_cost_source = rq_cost_source q,
      lease_metadata = rq_metadata q\<rparr>"

text \<open>The queued transaction: prune what has expired, record the lease, refresh the key TTLs.\<close>

definition prune_cmds :: "string \<Rightarrow> string \<Rightarrow> (string \<times> pyval) list \<Rightarrow> cmd list" where
  "prune_cmds sk ik expired =
     (if expired = [] then [] else [HDel sk (map fst expired), HDel ik (map fst expired)])"

definition grant_cmds :: "string \<Rightarrow> string \<Rightarrow> (string \<times> pyval) list \<Rightarrow> lease \<Rightarrow> cmd list" where
  "grant_cmds sk ik expired l =
     prune_cmds sk ik expired @
     [HSet sk (lease_id l) (Doc (PDict (lease_to_dict l))), HSet ik (lease_id l) (Text sk),
      Expire sk KEY_TTL_SECONDS, Expire ik KEY_TTL_SECONDS]"

text \<open>
  One pass of the loop body ends in a value, in an exception that leaves the loop, or in a
  WatchError, on which the loop goes on. \<open>leave\<close> is the \<open>except\<close> clause: admission errors
  pass, every other exception becomes \<open>LeaseUnavailable\<close>.
\<close>

datatype 'a outcome = Done 'a | Raised lease_error | Retry

fun leave :: "lease_error \<Rightarrow> lease_error" where
  "leave OtherError = LeaseUnavailable"
| "leave e = e"

fun client_failed :: "redis_error \<Rightarrow> 'a outcome" where
  "client_failed WatchError = Retry"
| "client_failed ClientError = Raised LeaseUnavailable"

definition reserve_attempt :: "'w client \<Rightarrow> reg_cfg \<Rightarrow> reservation \<Rightarrow> 'w \<Rightarrow> lease outcome \<times> 'w" where
  "reserve_attempt C cfg q w =
     (let sk = scope_key cfg (rq_kind q) (rq_scope q); ik = index_key cfg in
      case c_watch C [sk, ik] w of
        (Inl e, w1) \<Rightarrow> (client_failed e, w1)
      | (Inr _, w1) \<Rightarrow>
      (case c_hgetall C sk w1 of
        (Inl e, w2) \<Rightarrow> (client_failed e, w2)
      | (Inr raw, w2) \<Rightarrow>
      (case partition_now C raw w2 of
        (Inl e, w3) \<Rightarrow> (Raised (leave e), w3)
      | (Inr (live, expired), w3) \<Rightarrow>
      (case c_now C w3 of (now, w4) \<Rightarrow>
        if over_cap q live then (Raised (LeaseDenied CapExceeded), w4)
        else (case c_id C w4 of (i, w5) \<Rightarrow>
          let l = grant_lease q now i in
          (case c_exec C (grant_cmds sk ik expired l) w5 of
             (Inl e, w6) \<Rightarrow> (client_failed e, w6)
           | (Inr _, w6) \<Rightarrow> (Done l, w6)))))))"

text \<open>\<open>for _attempt in range(self._max_retries)\<close>, then the refusal for contention.\<close>

fun retry_loop :: "nat \<Rightarrow> ('w \<Rightarrow> 'a outcome \<times> 'w) \<Rightarrow> 'w \<Rightarrow> (lease_error + 'a) \<times> 'w" where
  "retry_loop 0 body w = (Inl (LeaseDenied Contention), w)"
| "retry_loop (Suc n) body w =
     (case body w of
        (Done x, w') \<Rightarrow> (Inr x, w')
      | (Raised e, w') \<Rightarrow> (Inl e, w')
      | (Retry, w') \<Rightarrow> retry_loop n body w')"

definition reserve :: "'w client \<Rightarrow> reg_cfg \<Rightarrow> reservation \<Rightarrow> 'w \<Rightarrow> (lease_error + lease) \<times> 'w" where
  "reserve C cfg q w =
     (if py_strip (rq_run_id q) = [] then (Inl (LeaseField [''run_id'']), w)
      else if rq_ttl q \<le> 0 then (Inl (LeaseField [''ttl_seconds'']), w)
      else retry_loop (reg_max_retries cfg) (reserve_attempt C cfg q) w)"

text \<open>The provider-class boundary of \<open>reserve_budget\<close>.\<close>

definition class_boundary :: "provider_class \<Rightarrow> pyfloat \<Rightarrow> pyfloat \<Rightarrow> cost_source option \<Rightarrow> lease_error + unit" where
  "class_boundary pc amount cap cs =
     (case pc of
        PER_TOKEN \<Rightarrow>
          (case cs of None \<Rightarrow> Inl (LeaseField [''cost_source''])
           | Some c \<Rightarrow> if c = UNKNOWN then Inl (LeaseDenied UnknownCost) else Inr ())
      | SUBSCRIPTION \<Rightarrow>
          if flt WINDOW_PERCENT_MAX cap then Inl (LeaseDenied ClassBoundary)
          else if flt WINDOW_PERCENT_MAX amount then Inl (LeaseDenied ClassBoundary)
          else Inr ())"

definition reserve_budget :: "'w client \<Rightarrow> reg_cfg \<Rightarrow> provider_class \<Rightarrow> lease_scope \<Rightarrow> pyval \<Rightarrow>
    string \<Rightarrow> cost_source option \<Rightarrow> pyval \<Rightarrow> int \<Rightarrow> pydict \<Rightarrow> 'w \<Rightarrow> (lease_error + lease) \<times> 'w" where
  "reserve_budget C cfg pc sc amount run_id cs hard_cap ttl md w =
     (case require_amount ''amount'' amount of
        Inl e \<Rightarrow> (Inl e, w)
      | Inr am \<Rightarrow>
      (case resolve_cap C cfg BUDGET sc hard_cap w of
        (Inl e, w') \<Rightarrow> (Inl e, w')
      | (Inr cap, w') \<Rightarrow>
      (case class_boundary pc am cap cs of
        Inl e \<Rightarrow> (Inl e, w')
      | Inr _ \<Rightarrow> reserve C cfg
          \<lparr>rq_kind = BUDGET, rq_scope = sc, rq_class = pc, rq_amount = am,
           rq_unit = BUDGET_UNIT_BY_CLASS pc, rq_cap = cap, rq_run_id = run_id,
           rq_cost_source = cs, rq_ttl = ttl, rq_metadata = md\<rparr> w')))"

definition reserve_concurrency :: "'w client \<Rightarrow> reg_cfg \<Rightarrow> lease_scope \<Rightarrow> pyval \<Rightarrow>
    string \<Rightarrow> pyval \<Rightarrow> int \<Rightarrow> pydict \<Rightarrow> 'w \<Rightarrow> (lease_error + lease) \<times> 'w" where
  "reserve_concurrency C cfg sc count run_id hard_cap ttl md w =
     (case count of
        PInt n \<Rightarrow>
          (case require_amount ''count'' (PInt n) of
             Inl e \<Rightarrow> (Inl e, w)
           | Inr slots \<Rightarrow>
           (case resolve_cap C cfg CONCURRENCY sc hard_cap w of
             (Inl e, w') \<Rightarrow> (Inl e, w')
           | (Inr cap, w') \<Rightarrow> reserve C cfg
               \<lparr>rq_kind = CONCURRENCY, rq_scope = sc, rq_class = SUBSCRIPTION, rq_amount = slots,
                rq_unit = UNIT_SLOTS, rq_cap = cap, rq_run_id = run_id,
                rq_cost_source = None, rq_ttl = ttl, rq_metadata = md\<rparr> w'))
      | _ \<Rightarrow> (Inl (LeaseField [''count'']), w))"

section \<open>Release and expiry\<close>

text \<open>The record is parsed after the delete, so an error here follows a committed release.\<close>

definition released :: "rval option \<Rightarrow> lease option outcome" where
  "released raw =
     (case raw of None \<Rightarrow> Done None
      | Some r \<Rightarrow> if r = Text [] then Done None else (case doc_loads r of
            None \<Rightarrow> Raised LeaseUnavailable
          | Some (PDict d) \<Rightarrow> (case lease_from_dict d of Inl e \<Rightarrow> Raised (leave e) | Inr l \<Rightarrow> Done (Some l))
          | Some _ \<Rightarrow> Raised LeaseUnavailable))"

definition release_attempt :: "'w client \<Rightarrow> reg_cfg \<Rightarrow> string \<Rightarrow> 'w \<Rightarrow> lease option outcome \<times> 'w" where
  "release_attempt C cfg lid w =
     (let ik = index_key cfg in
      case c_watch C [ik] w of
        (Inl e, w1) \<Rightarrow> (client_failed e, w1)
      | (Inr _, w1) \<Rightarrow>
      (case c_hget C ik lid w1 of
        (Inl e, w2) \<Rightarrow> (client_failed e, w2)
      | (Inr None, w2) \<Rightarrow>
          (case c_unwatch C w2 of (Inl e, w3) \<Rightarrow> (client_failed e, w3) | (Inr _, w3) \<Rightarrow> (Done None, w3))
      | (Inr (Some raw_key), w2) \<Rightarrow>
      (let sk = decode_text raw_key in
      case c_watch C [sk] w2 of
        (Inl e, w3) \<Rightarrow> (client_failed e, w3)
      | (Inr _, w3) \<Rightarrow>
      (case c_hget C sk lid w3 of
        (Inl e, w4) \<Rightarrow> (client_failed e, w4)
      | (Inr raw, w4) \<Rightarrow>
      (case c_exec C [HDel sk [lid], HDel ik [lid]] w4 of
        (Inl e, w5) \<Rightarrow> (client_failed e, w5)
      | (Inr _, w5) \<Rightarrow> (released raw, w5))))))"

definition release :: "'w client \<Rightarrow> reg_cfg \<Rightarrow> string \<Rightarrow> 'w \<Rightarrow> (lease_error + lease option) \<times> 'w" where
  "release C cfg lid w =
     (if py_strip lid = [] then (Inl (LeaseField [''lease_id'']), w)
      else retry_loop (reg_max_retries cfg) (release_attempt C cfg lid) w)"

text \<open>\<open>[Lease.from_dict(payload) for payload in expired.values()]\<close>.\<close>

fun reclaim :: "(string \<times> pyval) list \<Rightarrow> lease_error + lease list" where
  "reclaim [] = Inr []"
| "reclaim ((i, PDict d) # rest) =
     (case lease_from_dict d of Inl e \<Rightarrow> Inl e
      | Inr l \<Rightarrow> (case reclaim rest of Inl e \<Rightarrow> Inl e | Inr ls \<Rightarrow> Inr (l # ls)))"
| "reclaim ((i, _) # rest) = Inl OtherError"

definition expire_attempt :: "'w client \<Rightarrow> reg_cfg \<Rightarrow> string \<Rightarrow> 'w \<Rightarrow> lease list outcome \<times> 'w" where
  "expire_attempt C cfg sk w =
     (let ik = index_key cfg in
      case c_watch C [sk, ik] w of
        (Inl e, w1) \<Rightarrow> (client_failed e, w1)
      | (Inr _, w1) \<Rightarrow>
      (case c_hgetall C sk w1 of
        (Inl e, w2) \<Rightarrow> (client_failed e, w2)
      | (Inr raw, w2) \<Rightarrow>
      (case partition_now C raw w2 of
        (Inl e, w3) \<Rightarrow> (Raised (leave e), w3)
      | (Inr (live, expired), w3) \<Rightarrow>
        if expired = [] then
          (case c_unwatch C w3 of (Inl e, w4) \<Rightarrow> (client_failed e, w4) | (Inr _, w4) \<Rightarrow> (Done [], w4))
        else (case reclaim expired of
          Inl e \<Rightarrow> (Raised (leave e), w3)
        | Inr ls \<Rightarrow>
          (case c_exec C (prune_cmds sk ik expired) w3 of
             (Inl e, w4) \<Rightarrow> (client_failed e, w4)
           | (Inr _, w4) \<Rightarrow> (Done ls, w4))))))"

definition expire_scope :: "'w client \<Rightarrow> reg_cfg \<Rightarrow> string \<Rightarrow> 'w \<Rightarrow> (lease_error + lease list) \<times> 'w" where
  "expire_scope C cfg sk w = retry_loop (reg_max_retries cfg) (expire_attempt C cfg sk) w"

fun expire_each :: "'w client \<Rightarrow> reg_cfg \<Rightarrow> string list \<Rightarrow> 'w \<Rightarrow> (lease_error + lease list) \<times> 'w" where
  "expire_each C cfg [] w = (Inr [], w)"
| "expire_each C cfg (sk # sks) w =
     (case expire_scope C cfg sk w of
        (Inl e, w') \<Rightarrow> (Inl e, w')
      | (Inr ls, w') \<Rightarrow> (case expire_each C cfg sks w' of
            (Inl e, w'') \<Rightarrow> (Inl e, w'')
          | (Inr ms, w'') \<Rightarrow> (Inr (ls @ ms), w'')))"

text \<open>\<open>sorted\<close> by a float key: a stable insertion sort.\<close>

fun insert_by :: "('a \<Rightarrow> 'a \<Rightarrow> bool) \<Rightarrow> 'a \<Rightarrow> 'a list \<Rightarrow> 'a list" where
  "insert_by lt x [] = [x]"
| "insert_by lt x (y # ys) = (if lt y x then y # insert_by lt x ys else x # y # ys)"

definition sorted_by :: "('a \<Rightarrow> 'a \<Rightarrow> bool) \<Rightarrow> 'a list \<Rightarrow> 'a list" where
  "sorted_by lt xs = foldr (insert_by lt) xs []"

lemma set_insert_by [simp]: "set (insert_by lt x xs) = insert x (set xs)"
  by (induction xs) auto

lemma set_sorted_by [simp]: "set (sorted_by lt xs) = set xs"
  by (induction xs) (auto simp: sorted_by_def)

definition expire_leases :: "'w client \<Rightarrow> reg_cfg \<Rightarrow> (lease_kind \<times> lease_scope) list option \<Rightarrow> 'w \<Rightarrow>
    (lease_error + lease list) \<times> 'w" where
  "expire_leases C cfg scopes w =
     (case (case scopes of
              Some ks \<Rightarrow> (Inr (map (\<lambda>(k, s). scope_key cfg k s) ks), w)
            | None \<Rightarrow> (case c_hgetall C (index_key cfg) w of
                  (Inl _, w') \<Rightarrow> (Inl LeaseUnavailable, w')
                | (Inr xs, w') \<Rightarrow> (Inr (map (decode_text \<circ> snd) xs), w'))) of
        (Inl e, w') \<Rightarrow> (Inl e, w')
      | (Inr keys, w') \<Rightarrow>
        (case expire_each C cfg (sort (remdups keys)) w' of
           (Inl e, w'') \<Rightarrow> (Inl e, w'')
         | (Inr ls, w'') \<Rightarrow>
             (Inr (sorted_by (\<lambda>a b. flt (lease_expires_at a) (lease_expires_at b)) ls), w'')))"

section \<open>Reads\<close>

text \<open>\<open>sorted(live, key=lambda lease: (lease.granted_at, lease.lease_id))\<close>.\<close>

definition grant_before :: "lease \<Rightarrow> lease \<Rightarrow> bool" where
  "grant_before a b \<longleftrightarrow> flt (lease_granted_at a) (lease_granted_at b)
     \<or> (feq (lease_granted_at a) (lease_granted_at b) \<and> lease_id a < lease_id b)"

definition leases :: "'w client \<Rightarrow> reg_cfg \<Rightarrow> lease_kind \<Rightarrow> lease_scope \<Rightarrow> 'w \<Rightarrow>
    (lease_error + lease list) \<times> 'w" where
  "leases C cfg k sc w =
     (case c_hgetall C (scope_key cfg k sc) w of
        (Inl _, w1) \<Rightarrow> (Inl LeaseUnavailable, w1)
      | (Inr raw, w1) \<Rightarrow>
        (case partition_now C raw w1 of
           (Inl e, w2) \<Rightarrow> (Inl e, w2)
         | (Inr (live, expired), w2) \<Rightarrow> (Inr (sorted_by grant_before live), w2)))"

definition outstanding :: "'w client \<Rightarrow> reg_cfg \<Rightarrow> lease_kind \<Rightarrow> lease_scope \<Rightarrow> 'w \<Rightarrow>
    (lease_error + pyfloat) \<times> 'w" where
  "outstanding C cfg k sc w =
     (case leases C cfg k sc w of
        (Inl e, w') \<Rightarrow> (Inl e, w')
      | (Inr ls, w') \<Rightarrow> (Inr (fsum (map lease_amount ls)), w'))"

definition headroom :: "'w client \<Rightarrow> reg_cfg \<Rightarrow> lease_kind \<Rightarrow> lease_scope \<Rightarrow> pyval \<Rightarrow> 'w \<Rightarrow>
    (lease_error + pyfloat) \<times> 'w" where
  "headroom C cfg k sc hard_cap w =
     (case resolve_cap C cfg k sc hard_cap w of
        (Inl e, w') \<Rightarrow> (Inl e, w')
      | (Inr cap, w') \<Rightarrow> (case outstanding C cfg k sc w' of
            (Inl e, w'') \<Rightarrow> (Inl e, w'')
          | (Inr x, w'') \<Rightarrow> (Inr (fmax (Fin 0) (fsub cap x)), w'')))"

end
