(* ===== verification/Lease_Registry_Facts.thy ===== *)
theory Lease_Registry_Facts
  imports Lease_Registry "HOL-Library.Multiset"
begin

text \<open>
  The lemmas about \<open>Lease_Registry\<close>: the keys are distinct, a lease read back from what was
  stored is the lease that was granted, the running total of a scope is a finite sum that only
  falls as time passes, and in the context of a Redis server (\<open>redis_server\<close>) the effect of
  every operation on the stored hashes.
\<close>

section \<open>Keys\<close>

lemma lease_kind_value_inj [simp]: "lease_kind_value k = lease_kind_value k' \<longleftrightarrow> k = k'"
  by (cases k; cases k'; simp)

lemma scope_key_inj [simp]: "scope_key cfg k s = scope_key cfg k' s' \<longleftrightarrow> k = k' \<and> s = s'"
  by (cases k; cases k'; auto simp: scope_key_def scope_token_inj)

lemma scope_key_not_index [simp]: "scope_key cfg k s \<noteq> index_key cfg" "index_key cfg \<noteq> scope_key cfg k s"
  by (cases k; simp add: scope_key_def index_key_def)+

section \<open>The stored form\<close>

lemma lease_parse_stored:
  "lease_from_dict (lease_to_dict l) = Inr l \<longleftrightarrow> scope_ok (lease_scope l)"
proof
  assume "lease_from_dict (lease_to_dict l) = Inr l"
  then show "scope_ok (lease_scope l)" by (rule lease_from_dict_sound)
next
  assume ok: "scope_ok (lease_scope l)"
  have "filter (\<lambda>k. pyget (lease_to_dict l) k = PNone) lease_required_fields = []"
    by (simp add: lease_required_fields_def lease_to_dict_def)
  with mk_scope_ok [OF ok] show "lease_from_dict (lease_to_dict l) = Inr l"
    by (simp add: lease_from_dict_def lease_to_dict_def)
qed

section \<open>The live total of a scope\<close>

text \<open>
  One hash read as leases: \<open>lease_in\<close> is the lease stored under an id, \<open>live_dom\<close> the ids that
  have not expired at an instant and \<open>live_sum\<close> the amount they claim together.
\<close>

definition lease_of :: "rval \<Rightarrow> lease option" where
  "lease_of v = (case parse_lease v of Inl _ \<Rightarrow> None | Inr (_, l) \<Rightarrow> Some l)"

definition lease_in :: "(string \<Rightarrow> rval option) \<Rightarrow> string \<Rightarrow> lease option" where
  "lease_in m i = Option.bind (m i) lease_of"

definition live_dom :: "rat \<Rightarrow> (string \<Rightarrow> rval option) \<Rightarrow> string set" where
  "live_dom now m = {i. \<exists>l. lease_in m i = Some l \<and> \<not> is_expired l now}"

definition amount_in :: "(string \<Rightarrow> rval option) \<Rightarrow> string \<Rightarrow> rat" where
  "amount_in m i = (case lease_in m i of None \<Rightarrow> 0 | Some l \<Rightarrow> the_fin (lease_amount l))"

definition live_sum :: "rat \<Rightarrow> (string \<Rightarrow> rval option) \<Rightarrow> rat" where
  "live_sum now m = (\<Sum>i \<in> live_dom now m. amount_in m i)"

text \<open>What the registry keeps of every lease it stores.\<close>

definition lease_ok :: "string \<Rightarrow> lease \<Rightarrow> bool" where
  "lease_ok i l \<longleftrightarrow> lease_id l = i \<and> (\<exists>a > 0. lease_amount l = Fin a) \<and> (\<exists>e. lease_expires_at l = Fin e)"

definition hash_ok :: "(string \<Rightarrow> rval option) \<Rightarrow> bool" where
  "hash_ok m \<longleftrightarrow> finite (dom m) \<and> (\<forall>i v. m i = Some v \<longrightarrow> (\<exists>l. lease_of v = Some l \<and> lease_ok i l))"

definition reg_inv :: "reg_cfg \<Rightarrow> hashes \<Rightarrow> bool" where
  "reg_inv cfg h \<longleftrightarrow>
     (\<forall>k sc. scope_ok sc \<longrightarrow> hash_ok (h (scope_key cfg k sc)))
     \<and> (\<forall>k sc i. scope_ok sc \<longrightarrow> h (scope_key cfg k sc) i \<noteq> None \<longrightarrow>
          h (index_key cfg) i = Some (Text (scope_key cfg k sc)))
     \<and> (\<forall>i v. h (index_key cfg) i = Some v \<longrightarrow>
          (\<exists>k sc. scope_ok sc \<and> v = Text (scope_key cfg k sc)))"

lemma lease_of_Doc [simp]: "scope_ok (lease_scope l) \<Longrightarrow> lease_of (Doc (PDict (lease_to_dict l))) = Some l"
  by (simp add: lease_of_def parse_lease_def lease_parse_stored [THEN iffD2])

lemma lease_in_upd: "lease_in (m(i \<mapsto> v)) j = (if j = i then lease_of v else lease_in m j)"
  by (simp add: lease_in_def)

lemma live_dom_subset: "live_dom now m \<subseteq> dom m"
  by (auto simp: live_dom_def lease_in_def bind_eq_Some_conv)

lemma finite_live_dom: "hash_ok m \<Longrightarrow> finite (live_dom now m)"
  using live_dom_subset finite_subset by (fastforce simp: hash_ok_def)

lemma amount_in_nonneg: "hash_ok m \<Longrightarrow> 0 \<le> amount_in m i"
  by (auto simp: amount_in_def lease_in_def hash_ok_def lease_ok_def bind_eq_Some_conv
      split: option.splits) fastforce

lemma live_dom_later: "now \<le> now' \<Longrightarrow> hash_ok m \<Longrightarrow> live_dom now' m \<subseteq> live_dom now m"
  by (auto simp: live_dom_def is_expired_def hash_ok_def lease_ok_def lease_in_def bind_eq_Some_conv)
    fastforce

lemma live_sum_later: "now \<le> now' \<Longrightarrow> hash_ok m \<Longrightarrow> live_sum now' m \<le> live_sum now m"
  unfolding live_sum_def
  by (rule sum_mono2) (auto simp: finite_live_dom amount_in_nonneg dest: live_dom_later)

lemma lease_in_sub: "m' \<subseteq>\<^sub>m m \<Longrightarrow> lease_in m' i = Some l \<Longrightarrow> lease_in m i = Some l"
  by (auto simp: lease_in_def map_le_def bind_eq_Some_conv dom_def)

lemma live_dom_sub: "m' \<subseteq>\<^sub>m m \<Longrightarrow> live_dom now m' \<subseteq> live_dom now m"
  by (auto simp: live_dom_def dest: lease_in_sub)

lemma live_sum_sub: "m' \<subseteq>\<^sub>m m \<Longrightarrow> hash_ok m \<Longrightarrow> live_sum now m' \<le> live_sum now m"
proof -
  assume sub: "m' \<subseteq>\<^sub>m m" and ok: "hash_ok m"
  have "live_sum now m' = (\<Sum>i \<in> live_dom now m'. amount_in m i)"
    unfolding live_sum_def using sub
    by (intro sum.cong) (auto simp: live_dom_def amount_in_def dest: lease_in_sub)
  also have "\<dots> \<le> live_sum now m"
    unfolding live_sum_def using live_dom_sub [OF sub, of now]
    by (intro sum_mono2) (auto simp: finite_live_dom amount_in_nonneg ok)
  finally show ?thesis .
qed

lemma live_sum_upd:
  assumes ok: "hash_ok m" and l: "lease_of v = Some l" "lease_amount l = Fin a" "0 \<le> a"
  shows "live_sum now (m(i \<mapsto> v)) \<le> live_sum now m + a"
proof -
  let ?m = "m(i \<mapsto> v)"
  have amt: "amount_in ?m j = (if j = i then a else amount_in m j)" for j
    using l by (simp add: amount_in_def lease_in_upd)
  have dom: "live_dom now ?m \<subseteq> insert i (live_dom now m - {i})"
    by (auto simp: live_dom_def lease_in_upd split: if_splits)
  have "live_sum now ?m = (\<Sum>j \<in> live_dom now ?m. if j = i then a else amount_in m j)"
    unfolding live_sum_def by (simp add: amt)
  also have "\<dots> \<le> (\<Sum>j \<in> insert i (live_dom now m - {i}). if j = i then a else amount_in m j)"
    using dom by (intro sum_mono2) (auto simp: finite_live_dom ok amount_in_nonneg l(3))
  also have "\<dots> = a + (\<Sum>j \<in> live_dom now m - {i}. amount_in m j)"
    by (simp add: finite_live_dom ok sum.insert_remove)
  also have "\<dots> \<le> a + live_sum now m"
    unfolding live_sum_def
    by (intro add_left_mono sum_mono2) (auto simp: finite_live_dom ok amount_in_nonneg)
  finally show ?thesis by simp
qed

text \<open>\<open>_partition\<close> reports the live total and the expired ids.\<close>

lemma live_dom_Cons:
  "i \<notin> fst ` set raw \<Longrightarrow> lease_of v = Some l \<Longrightarrow>
   live_dom now (map_of ((i, v) # raw)) =
     (if is_expired l now then live_dom now (map_of raw) else insert i (live_dom now (map_of raw)))"
  by (auto simp: live_dom_def lease_in_def map_of_eq_None_iff [symmetric] split: if_splits)

lemma live_sum_Cons:
  assumes "i \<notin> fst ` set raw" "lease_of v = Some l" "lease_amount l = Fin a"
  shows "live_sum now (map_of ((i, v) # raw)) = (if is_expired l now then 0 else a) + live_sum now (map_of raw)"
proof -
  have out: "i \<notin> live_dom now (map_of raw)"
    using assms(1) live_dom_subset [of now "map_of raw"] by (auto simp: dom_map_of_conv_image_fst)
  have fin: "finite (live_dom now (map_of raw))"
    by (rule finite_subset [OF live_dom_subset]) (simp add: finite_dom_map_of)
  have amt: "amount_in (map_of ((i, v) # raw)) j = (if j = i then a else amount_in (map_of raw) j)" for j
    using assms by (simp add: amount_in_def lease_in_def)
  have "(\<Sum>j \<in> live_dom now (map_of raw). amount_in (map_of ((i, v) # raw)) j) = live_sum now (map_of raw)"
    unfolding live_sum_def amt using out by (intro sum.cong) auto
  then show ?thesis
    using out fin amt [of i] unfolding live_sum_def
    by (simp add: live_dom_Cons [OF assms(1,2)] live_sum_def del: map_of.simps)
qed

lemma partition_sum:
  assumes "partition_at now raw = Inr (live, expired)" and "distinct (map fst raw)"
    and "\<forall>(i, v) \<in> set raw. \<exists>l. lease_of v = Some l \<and> lease_ok i l"
  shows "\<exists>xs. map lease_amount live = map Fin xs \<and> sum_list xs = live_sum now (map_of raw)"
  using assms
proof (induction now raw arbitrary: live expired rule: partition_at.induct)
  case (1 now)
  then show ?case by (simp add: live_sum_def live_dom_def lease_in_def)
next
  case (2 now i v raw)
  from "2.prems"(1) obtain p l live' expired' where
    parse: "parse_lease v = Inr (p, l)" and rest: "partition_at now raw = Inr (live', expired')" and
    live: "live = (if is_expired l now then live' else l # live')"
    by (auto split: sum.splits prod.splits if_splits)
  from parse have l: "lease_of v = Some l" by (simp add: lease_of_def)
  with "2.prems"(3) obtain a where a: "lease_amount l = Fin a" by (auto simp: lease_ok_def)
  obtain xs where xs: "map lease_amount live' = map Fin xs" "sum_list xs = live_sum now (map_of raw)"
    using "2.IH" [OF parse _ rest] "2.prems" by auto
  have i: "i \<notin> fst ` set raw" using "2.prems"(2) by simp
  show ?case
    using xs live live_sum_Cons [OF i l a, of now] a
    by (cases "is_expired l now") (auto intro: exI [of _ "a # xs"] simp del: map_of.simps)
qed

lemma partition_expired:
  assumes "partition_at now raw = Inr (live, expired)" and "distinct (map fst raw)"
  shows "set (map fst expired) = {i. \<exists>l. lease_in (map_of raw) i = Some l \<and> is_expired l now}"
  using assms
proof (induction now raw arbitrary: live expired rule: partition_at.induct)
  case (1 now)
  then show ?case by (simp add: lease_in_def)
next
  case (2 now i v raw)
  from "2.prems"(1) obtain p l live' expired' where
    parse: "parse_lease v = Inr (p, l)" and rest: "partition_at now raw = Inr (live', expired')" and
    ex: "expired = (if is_expired l now then (i, p) # expired' else expired')"
    by (auto split: sum.splits prod.splits if_splits)
  have IH: "set (map fst expired') = {i. \<exists>l. lease_in (map_of raw) i = Some l \<and> is_expired l now}"
    using "2.IH" [OF parse _ rest] "2.prems" by auto
  from parse have l: "lease_of v = Some l" by (simp add: lease_of_def)
  have "lease_in (map_of raw) i = None"
    using "2.prems"(2) by (auto simp: lease_in_def map_of_eq_None_iff [symmetric])
  with IH ex l show ?case by (auto simp: lease_in_def split: if_splits)
qed

section \<open>One committed grant\<close>

text \<open>
  What the loop body of \<open>_reserve\<close> has done when its \<open>EXEC\<close> succeeds: it has read the hash
  \<open>snap\<close> of the scope at the instant \<open>t\<close>, found the request within the cap, and applied the
  queued commands to the hashes \<open>h\<close> under a fresh id at the instant \<open>now\<close>.
\<close>

definition grant_step ::
    "reg_cfg \<Rightarrow> reservation \<Rightarrow> (string \<Rightarrow> rval option) \<Rightarrow> rat \<Rightarrow> rat \<Rightarrow> hashes \<Rightarrow> lease \<Rightarrow> hashes \<Rightarrow> bool" where
  "grant_step cfg q snap t now h l h' \<longleftrightarrow>
     (\<exists>raw live expired i.
        map_of raw = snap \<and> distinct (map fst raw)
        \<and> partition_at t raw = Inr (live, expired) \<and> \<not> over_cap q live
        \<and> l = grant_lease q now i \<and> (\<forall>k p. h k (p @ i) = None)
        \<and> h' = apply_cmds (grant_cmds (scope_key cfg (rq_kind q) (rq_scope q)) (index_key cfg) expired l) h)"

lemma grant_stepI:
  "map_of raw = snap \<Longrightarrow> distinct (map fst raw) \<Longrightarrow> partition_at t raw = Inr (live, expired) \<Longrightarrow>
   \<not> over_cap q live \<Longrightarrow> \<forall>k p. h k (p @ i) = None \<Longrightarrow>
   grant_step cfg q snap t now h (grant_lease q now i)
     (apply_cmds (grant_cmds (scope_key cfg (rq_kind q) (rq_scope q)) (index_key cfg) expired
        (grant_lease q now i)) h)"
  unfolding grant_step_def by blast

text \<open>A reservation that has passed the checks in front of \<open>_reserve\<close>.\<close>

definition rq_ok :: "reservation \<Rightarrow> bool" where
  "rq_ok q \<longleftrightarrow> scope_ok (rq_scope q) \<and> (\<exists>a > 0. rq_amount q = Fin a)"

abbreviation rq_key :: "reg_cfg \<Rightarrow> reservation \<Rightarrow> string" where
  "rq_key cfg q \<equiv> scope_key cfg (rq_kind q) (rq_scope q)"

lemma grant_lease_simps [simp]:
  "lease_scope (grant_lease q now i) = rq_scope q" "lease_amount (grant_lease q now i) = rq_amount q"
  "lease_expires_at (grant_lease q now i) = Fin (now + of_int (rq_ttl q))"
  "lease_run_id (grant_lease q now i) = rq_run_id q" "lease_kind (grant_lease q now i) = rq_kind q"
  "lease_hard_cap (grant_lease q now i) = rq_cap q" "lease_granted_at (grant_lease q now i) = Fin now"
  "lease_cost_source (grant_lease q now i) = rq_cost_source q"
  "lease_provider_class (grant_lease q now i) = rq_class q" "lease_unit (grant_lease q now i) = rq_unit q"
  "lease_metadata (grant_lease q now i) = rq_metadata q"
  by (simp_all add: grant_lease_def)

definition without :: "string set \<Rightarrow> (string \<Rightarrow> rval option) \<Rightarrow> string \<Rightarrow> rval option" where
  "without F m = (\<lambda>f. if f \<in> F then None else m f)"

lemma without_sub: "without F m \<subseteq>\<^sub>m m"
  by (auto simp: without_def map_le_def dom_def)

lemma without_empty [simp]: "without {} m = m"
  by (simp add: without_def)

lemma without_Some [simp]: "without F m i = Some v \<longleftrightarrow> i \<notin> F \<and> m i = Some v"
  by (simp add: without_def)

lemma hash_ok_without: "hash_ok m \<Longrightarrow> hash_ok (without F m)"
  unfolding hash_ok_def by (auto elim: finite_subset [rotated])

lemma hash_ok_upd: "hash_ok m \<Longrightarrow> lease_of v = Some l \<Longrightarrow> lease_ok i l \<Longrightarrow> hash_ok (m(i \<mapsto> v))"
  by (auto simp: hash_ok_def)

lemma apply_prune:
  "sk \<noteq> ik \<Longrightarrow> apply_cmds (prune_cmds sk ik ex) h =
     h(sk := without (fst ` set ex) (h sk), ik := without (fst ` set ex) (h ik))"
  by (auto simp: prune_cmds_def without_def fun_eq_iff)

lemma apply_grant:
  "sk \<noteq> ik \<Longrightarrow> apply_cmds (grant_cmds sk ik ex l) h =
     h(sk := (without (fst ` set ex) (h sk))(lease_id l \<mapsto> Doc (PDict (lease_to_dict l))),
       ik := (without (fst ` set ex) (h ik))(lease_id l \<mapsto> Text sk))"
  by (simp add: grant_cmds_def apply_cmds_append apply_prune fun_eq_iff)

lemma grant_lease_ok: "rq_ok q \<Longrightarrow> lease_ok (lease_id (grant_lease q now i)) (grant_lease q now i)"
  by (auto simp: rq_ok_def lease_ok_def)

lemma reg_inv_scope: "reg_inv cfg h \<Longrightarrow> scope_ok sc \<Longrightarrow> hash_ok (h (scope_key cfg k sc))"
  by (simp add: reg_inv_def)

lemma reg_inv_index:
  "reg_inv cfg h \<Longrightarrow> scope_ok sc \<Longrightarrow> h (scope_key cfg k sc) i = Some v \<Longrightarrow>
     h (index_key cfg) i = Some (Text (scope_key cfg k sc))"
  by (auto simp: reg_inv_def)

text \<open>Removing a set of ids from one scope and from the index keeps the registry consistent,
  when every one of them belongs to that scope.\<close>

lemma reg_inv_without:
  assumes inv: "reg_inv cfg h" and sc: "scope_ok sc"
    and own: "\<And>i v. i \<in> F \<Longrightarrow> h (index_key cfg) i = Some v \<Longrightarrow> v = Text (scope_key cfg k sc)"
  shows "reg_inv cfg (h(scope_key cfg k sc := without F (h (scope_key cfg k sc)),
                        index_key cfg := without F (h (index_key cfg))))" (is "reg_inv cfg ?h")
proof -
  have "hash_ok (?h (scope_key cfg k' sc'))" if "scope_ok sc'" for k' sc'
    using inv that by (auto simp: reg_inv_def hash_ok_without)
  moreover have "?h (index_key cfg) i = Some (Text (scope_key cfg k' sc'))"
    if ok': "scope_ok sc'" and st: "?h (scope_key cfg k' sc') i \<noteq> None" for k' sc' i
  proof -
    have stored: "h (scope_key cfg k' sc') i \<noteq> None"
      using st by (auto simp: without_def split: if_splits)
    then have idx: "h (index_key cfg) i = Some (Text (scope_key cfg k' sc'))"
      using inv ok' by (simp add: reg_inv_def)
    have "i \<notin> F"
    proof
      assume F: "i \<in> F"
      with own [OF F idx] have "k' = k \<and> sc' = sc" by simp
      with F st show False by (simp add: without_def)
    qed
    with idx show ?thesis by (simp add: without_def)
  qed
  moreover have "\<exists>k sc. scope_ok sc \<and> v = Text (scope_key cfg k sc)"
    if "?h (index_key cfg) i = Some v" for i v
    using inv that by (auto simp: reg_inv_def)
  ultimately show ?thesis unfolding reg_inv_def by blast
qed

lemma reg_inv_insert:
  assumes inv: "reg_inv cfg h" and sc: "scope_ok sc" and fresh: "\<forall>k. h k i = None"
    and v: "lease_of v = Some l" "lease_ok i l"
  shows "reg_inv cfg (h(scope_key cfg k sc := (h (scope_key cfg k sc))(i \<mapsto> v),
                        index_key cfg := (h (index_key cfg))(i \<mapsto> Text (scope_key cfg k sc))))"
    (is "reg_inv cfg ?h")
proof -
  have "hash_ok (?h (scope_key cfg k' sc'))" if "scope_ok sc'" for k' sc'
    using inv that v by (auto simp: reg_inv_def intro: hash_ok_upd)
  moreover have "?h (index_key cfg) j = Some (Text (scope_key cfg k' sc'))"
    if "scope_ok sc'" "?h (scope_key cfg k' sc') j \<noteq> None" for k' sc' j
    using inv that fresh by (auto simp: reg_inv_def split: if_splits)
  moreover have "\<exists>k sc. scope_ok sc \<and> w = Text (scope_key cfg k sc)"
    if "?h (index_key cfg) j = Some w" for j w
    using inv that sc by (auto simp: reg_inv_def split: if_splits)
  ultimately show ?thesis unfolding reg_inv_def by blast
qed

lemma expired_own:
  assumes inv: "reg_inv cfg h" and sc: "scope_ok sc" and raw: "map_of raw = h (scope_key cfg k sc)"
    and part: "partition_at t raw = Inr (live, expired)" "distinct (map fst raw)"
    and i: "i \<in> fst ` set expired"
  shows "h (index_key cfg) i = Some (Text (scope_key cfg k sc))"
proof -
  have "\<exists>l. lease_in (h (scope_key cfg k sc)) i = Some l"
    using partition_expired [OF part] i raw by auto
  then obtain v where "h (scope_key cfg k sc) i = Some v"
    by (auto simp: lease_in_def bind_eq_Some_conv)
  then show ?thesis using inv sc by (blast intro: reg_inv_index)
qed

lemma grant_step_inv:
  assumes inv: "reg_inv cfg h" and q: "rq_ok q" and g: "grant_step cfg q (h (rq_key cfg q)) t now h l h'"
  shows "reg_inv cfg h'"
proof -
  let ?sk = "rq_key cfg q" and ?ik = "index_key cfg"
  from g obtain raw live expired i where
    raw: "map_of raw = h ?sk" "distinct (map fst raw)" and
    part: "partition_at t raw = Inr (live, expired)" and
    l: "l = grant_lease q now i" and fresh: "\<forall>k p. h k (p @ i) = None" and
    h': "h' = apply_cmds (grant_cmds ?sk ?ik expired l) h"
    unfolding grant_step_def by blast
  from q have sc: "scope_ok (rq_scope q)" by (simp add: rq_ok_def)
  define h1 where "h1 = h(?sk := without (fst ` set expired) (h ?sk), ?ik := without (fst ` set expired) (h ?ik))"
  have inv1: "reg_inv cfg h1"
    unfolding h1_def using inv sc expired_own [OF inv sc raw(1) part raw(2)]
    by (intro reg_inv_without) auto
  have fresh1: "\<forall>k. h1 k (lease_id l) = None"
  proof
    fix k
    have "h k ((take 3 (lease_kind_value (rq_kind q)) @ ''_'') @ i) = None"
      using fresh by blast
    then show "h1 k (lease_id l) = None"
      by (auto simp: h1_def without_def l grant_lease_def)
  qed
  have "h' = h1(?sk := (h1 ?sk)(lease_id l \<mapsto> Doc (PDict (lease_to_dict l))),
      ?ik := (h1 ?ik)(lease_id l \<mapsto> Text ?sk))"
    unfolding h' by (simp add: apply_grant h1_def)
  with reg_inv_insert [OF inv1 sc fresh1, of "Doc (PDict (lease_to_dict l))" l "rq_kind q"]
  show ?thesis using q sc l by (simp add: grant_lease_ok)
qed

text \<open>The cap: after a grant, the live leases of the scope claim no more than the cap and the
  float slack, at every later instant.\<close>

lemma grant_step_cap:
  assumes ok: "hash_ok (h (rq_key cfg q))" and q: "rq_ok q" "rq_cap q = Fin c"
    and g: "grant_step cfg q (h (rq_key cfg q)) t now h l h'" and later: "t \<le> u"
  shows "live_sum u (h' (rq_key cfg q)) \<le> c + EPSILON"
proof -
  let ?sk = "rq_key cfg q" and ?ik = "index_key cfg"
  from g obtain raw live expired i where
    raw: "map_of raw = h ?sk" "distinct (map fst raw)" and
    part: "partition_at t raw = Inr (live, expired)" and under: "\<not> over_cap q live" and
    l: "l = grant_lease q now i" and h': "h' = apply_cmds (grant_cmds ?sk ?ik expired l) h"
    unfolding grant_step_def by blast
  from q obtain a where a: "rq_amount q = Fin a" "0 < a" and sc: "scope_ok (rq_scope q)"
    by (auto simp: rq_ok_def)
  have "\<forall>(i, v) \<in> set raw. \<exists>l. lease_of v = Some l \<and> lease_ok i l"
    using ok raw by (auto simp: hash_ok_def) (metis raw(1) map_of_is_SomeI)
  from partition_sum [OF part raw(2) this] obtain xs where
    "map lease_amount live = map Fin xs" "sum_list xs = live_sum t (h ?sk)"
    using raw(1) by auto
  with under q(2) a have fits: "live_sum t (h ?sk) + a \<le> c + EPSILON"
    by (simp add: over_cap_def)
  have "h' ?sk = (without (fst ` set expired) (h ?sk))(lease_id l \<mapsto> Doc (PDict (lease_to_dict l)))"
    unfolding h' by (simp add: apply_grant)
  then have "live_sum u (h' ?sk) \<le> live_sum u (without (fst ` set expired) (h ?sk)) + a"
    using live_sum_upd [OF hash_ok_without [OF ok], of _ l a] a sc l by simp
  also have "\<dots> \<le> live_sum u (h ?sk) + a"
    using live_sum_sub [OF without_sub ok] by simp
  also have "\<dots> \<le> live_sum t (h ?sk) + a"
    using live_sum_later [OF later ok] by simp
  finally show ?thesis using fits by simp
qed

section \<open>The leases held\<close>

text \<open>
  The abstract state of a registry: the lease held under each id, found as \<open>release\<close> finds it,
  through the index. A grant adds one entry, \<open>release\<close> and the sweep take entries away.
\<close>

definition held :: "reg_cfg \<Rightarrow> hashes \<Rightarrow> string \<Rightarrow> lease option" where
  "held cfg h i =
     (case h (index_key cfg) i of
        None \<Rightarrow> None
      | Some v \<Rightarrow> lease_in (h (decode_text v)) i)"

lemma lease_in_without [simp]: "lease_in (without F m) i = (if i \<in> F then None else lease_in m i)"
  by (simp add: lease_in_def without_def)

lemma reg_inv_indexE:
  assumes "reg_inv cfg h" and "h (index_key cfg) i = Some v"
  obtains k sc where "scope_ok sc" "v = Text (scope_key cfg k sc)"
  using assms unfolding reg_inv_def by blast

lemma held_scope:
  assumes "reg_inv cfg h" and "scope_ok sc" and "lease_in (h (scope_key cfg k sc)) i = Some l"
  shows "held cfg h i = Some l"
proof -
  from assms(3) obtain v where "h (scope_key cfg k sc) i = Some v"
    by (auto simp: lease_in_def bind_eq_Some_conv)
  with reg_inv_index [OF assms(1,2)] assms(3) show ?thesis by (simp add: held_def)
qed

lemma held_where:
  assumes "reg_inv cfg h" and "held cfg h i = Some l"
  obtains k sc where "scope_ok sc" "h (index_key cfg) i = Some (Text (scope_key cfg k sc))"
    "lease_in (h (scope_key cfg k sc)) i = Some l"
  using assms by (auto simp: held_def elim: reg_inv_indexE split: option.splits)

lemma held_ok:
  assumes inv: "reg_inv cfg h" and l: "held cfg h i = Some l"
  shows "lease_ok i l"
proof -
  from inv l obtain k sc where "scope_ok sc" "lease_in (h (scope_key cfg k sc)) i = Some l"
    by (rule held_where)
  with reg_inv_scope [OF inv, of sc k] show ?thesis
    by (fastforce simp: lease_in_def bind_eq_Some_conv hash_ok_def)
qed

text \<open>Taking ids that belong to one scope out of that scope and the index forgets exactly them.\<close>

lemma held_without:
  assumes inv: "reg_inv cfg h" and sc: "scope_ok sc"
    and own: "\<And>i. i \<in> F \<Longrightarrow> h (index_key cfg) i = Some (Text (scope_key cfg k sc))"
  shows "held cfg (h(scope_key cfg k sc := without F (h (scope_key cfg k sc)),
                     index_key cfg := without F (h (index_key cfg)))) i
         = (if i \<in> F then None else held cfg h i)"
proof (cases "h (index_key cfg) i")
  case None
  then show ?thesis using own by (auto simp: held_def without_def)
next
  case (Some v)
  then obtain k' sc' where "v = Text (scope_key cfg k' sc')" by (rule reg_inv_indexE [OF inv])
  with Some show ?thesis using lease_in_without [of F "h (scope_key cfg k sc)" i]
    by (auto simp: held_def split: option.splits) (auto simp: without_def)
qed

lemma held_insert:
  assumes inv: "reg_inv cfg h" and v: "lease_of v = Some l"
  shows "held cfg (h(scope_key cfg k sc := (h (scope_key cfg k sc))(j \<mapsto> v),
                     index_key cfg := (h (index_key cfg))(j \<mapsto> Text (scope_key cfg k sc)))) i
         = (if i = j then Some l else held cfg h i)"
proof (cases "i = j")
  case True
  then show ?thesis using v by (simp add: held_def lease_in_def)
next
  case False
  show ?thesis
  proof (cases "h (index_key cfg) i")
    case None
    with False show ?thesis by (simp add: held_def)
  next
    case (Some w)
    then obtain k' sc' where "w = Text (scope_key cfg k' sc')" by (rule reg_inv_indexE [OF inv])
    with Some False show ?thesis by (simp add: held_def lease_in_def)
  qed
qed

section \<open>The operations against a Redis server\<close>

lemma retry_loop_induct:
  assumes "retry_loop n body w = (r, w')" and "I w"
    and retry: "\<And>v v'. I v \<Longrightarrow> body v = (Retry, v') \<Longrightarrow> I v'"
    and raised: "\<And>v v' e. I v \<Longrightarrow> body v = (Raised e, v') \<Longrightarrow> Q (Inl e) v'"
    and finished: "\<And>v v' x. I v \<Longrightarrow> body v = (Done x, v') \<Longrightarrow> Q (Inr x) v'"
    and gave_up: "\<And>v. I v \<Longrightarrow> Q (Inl (LeaseDenied Contention)) v"
  shows "Q r w'"
  using assms(1,2)
proof (induction n arbitrary: w)
  case 0
  then show ?case using gave_up by simp
next
  case (Suc n)
  then show ?case
    using retry raised finished by (auto split: prod.splits outcome.splits)
qed

lemma require_amount_ok: "require_amount n v = Inr x \<Longrightarrow> \<exists>a > 0. x = Fin a"
  by (auto simp: require_amount_def is_finite_conv split: option.splits if_splits)

text \<open>A grant as the caller sees it: the reservation behind it, from the store it started with.\<close>

definition granted :: "('w \<Rightarrow> hashes) \<Rightarrow> ('w \<Rightarrow> rat) \<Rightarrow> reg_cfg \<Rightarrow> lease_kind \<Rightarrow> lease_scope \<Rightarrow>
    'w \<Rightarrow> lease \<Rightarrow> 'w \<Rightarrow> reservation \<Rightarrow> bool" where
  "granted hs cl cfg k sc w l w' q \<longleftrightarrow>
     rq_ok q \<and> rq_kind q = k \<and> rq_scope q = sc \<and> 0 < rq_ttl q \<and> (\<exists>c > 0. rq_cap q = Fin c)
     \<and> (\<exists>t now. cl w \<le> t \<and> t \<le> now \<and> now \<le> cl w'
          \<and> grant_step cfg q (hs w (scope_key cfg k sc)) t now (hs w) l (hs w'))"

context redis_server
begin

abbreviation same :: "'w \<Rightarrow> 'w \<Rightarrow> bool" where
  "same \<equiv> same_db hashes strings clock"

lemma same_refl: "same w w"
  by (simp add: same_db_def)

lemma same_trans: "same w v \<Longrightarrow> same v u \<Longrightarrow> same w u"
  by (auto simp: same_db_def)

lemma nowD: "c_now C w = (t, w') \<Longrightarrow> same w w' \<and> t = clock w"
  using now_frame now_value by blast

lemma idD: "c_id C w = (i, w') \<Longrightarrow> same w w' \<and> (\<forall>k p. hashes w k (p @ i) = None)"
  using id_frame id_fresh by blast

lemma hgetallD: "c_hgetall C k w = (Inr xs, w') \<Longrightarrow>
    same w w' \<and> map_of xs = hashes w k \<and> distinct (map fst xs)"
  using hgetall_frame hgetall_value by blast

lemma hgetD: "c_hget C k f w = (Inr v, w') \<Longrightarrow> same w w' \<and> v = hashes w k f"
  using hget_frame hget_value by blast

lemma exec_okD: "c_exec C cs w = (Inr u, w') \<Longrightarrow>
    hashes w' = apply_cmds cs (hashes w) \<and> strings w' = strings w \<and> clock w \<le> clock w'"
  using exec_frame exec_commit by blast

lemma exec_errD: "c_exec C cs w = (Inl e, w') \<Longrightarrow> same w w'"
  using exec_frame exec_error by (auto simp: same_db_def)

lemma client_failed_not_Done [simp]: "client_failed e \<noteq> Done x"
  by (cases e) auto

lemma hgetall_errD: "c_hgetall C k w = (Inl e, w') \<Longrightarrow> same w w'"
  using hgetall_frame by blast

text \<open>One pass of the loop of \<open>_reserve\<close> either grants or leaves the store as it was.\<close>

lemma reserve_attempt_frame:
  "reserve_attempt C cfg q w = (r, w') \<Longrightarrow> \<nexists>x. r = Done x \<Longrightarrow> same w w'"
  by (auto simp: reserve_attempt_def partition_now_def Let_def same_db_def
      dest!: watch_frame hgetallD hgetall_errD nowD idD exec_errD
      split: prod.splits sum.splits if_splits)

lemma reserve_attempt_grant:
  "reserve_attempt C cfg q w = (Done l, w') \<Longrightarrow>
     \<exists>t now. clock w \<le> t \<and> t \<le> now \<and> now \<le> clock w' \<and> strings w' = strings w
       \<and> grant_step cfg q (hashes w (rq_key cfg q)) t now (hashes w) l (hashes w')"
  apply (clarsimp simp: reserve_attempt_def partition_now_def Let_def
      split: prod.splits sum.splits if_splits)
  apply (drule watch_frame hgetallD nowD idD exec_okD)+
  apply (clarsimp simp: same_db_def)
  subgoal for w1 w2 raw w3 live expired w4 i w5
    using grant_stepI [of raw "hashes w (rq_key cfg q)" "clock w2" live expired q "hashes w" i cfg "clock w3"]
    by (intro exI [of _ "clock w2"] exI [of _ "clock w3"]) auto
  done

lemma reserve_frame: "reserve C cfg q w = (Inl e, w') \<Longrightarrow> same w w'"
proof (cases "py_strip (rq_run_id q) = [] \<or> rq_ttl q \<le> 0")
  case True
  then show "reserve C cfg q w = (Inl e, w') \<Longrightarrow> same w w'" by (auto simp: reserve_def same_refl split: if_splits)
next
  case False
  assume "reserve C cfg q w = (Inl e, w')"
  with False have loop: "retry_loop (reg_max_retries cfg) (reserve_attempt C cfg q) w = (Inl e, w')"
    by (auto simp: reserve_def)
  have "is_ok (Inl e :: lease_error + lease) \<or> same w w'"
    by (rule retry_loop_induct [OF loop, where I = "same w" and Q = "\<lambda>r v. is_ok r \<or> same w v"])
      (auto simp: same_refl dest: reserve_attempt_frame intro: same_trans)
  then show ?thesis by simp
qed

lemma reserve_grant:
  assumes "reserve C cfg q w = (Inr l, w')"
  shows "\<exists>t now. clock w \<le> t \<and> t \<le> now \<and> now \<le> clock w' \<and> strings w' = strings w
       \<and> 0 < rq_ttl q \<and> py_strip (rq_run_id q) \<noteq> []
       \<and> grant_step cfg q (hashes w (rq_key cfg q)) t now (hashes w) l (hashes w')" (is "?G l w'")
proof -
  from assms have pre: "py_strip (rq_run_id q) \<noteq> []" "0 < rq_ttl q"
    and loop: "retry_loop (reg_max_retries cfg) (reserve_attempt C cfg q) w = (Inr l, w')"
    by (auto simp: reserve_def split: if_splits)
  have "\<forall>l'. Inr l = (Inr l' :: lease_error + lease) \<longrightarrow> ?G l' w'"
  proof (rule retry_loop_induct [OF loop, where I = "same w" and
        Q = "\<lambda>r v. \<forall>l'. r = (Inr l' :: lease_error + lease) \<longrightarrow> ?G l' v"])
    fix v v' x assume "same w v" "reserve_attempt C cfg q v = (Done x, v')"
    then show "\<forall>l'. Inr x = (Inr l' :: lease_error + lease) \<longrightarrow> ?G l' v'"
      using pre by (auto dest!: reserve_attempt_grant simp: same_db_def) (meson order_trans)
  qed (auto simp: same_refl dest: reserve_attempt_frame intro: same_trans)
  then show ?thesis by simp
qed

lemma resolve_cap_frame: "resolve_cap C cfg k sc c w = (r, w') \<Longrightarrow> same w w'"
  by (auto simp: resolve_cap_def get_cap_def same_refl dest: get_frame
      split: if_splits sum.splits option.splits prod.splits)

lemma resolve_cap_ok: "resolve_cap C cfg k sc c w = (Inr x, w') \<Longrightarrow> \<exists>a > 0. x = Fin a"
  by (auto simp: resolve_cap_def dest: require_amount_ok
      split: if_splits sum.splits option.splits prod.splits)

lemma reserve_budget_frame:
  "reserve_budget C cfg pc sc am r cs c ttl md w = (Inl e, w') \<Longrightarrow> same w w'"
  by (auto simp: reserve_budget_def same_refl dest!: resolve_cap_frame reserve_frame
      intro: same_trans split: sum.splits prod.splits)

lemma reserve_concurrency_frame:
  "reserve_concurrency C cfg sc n r c ttl md w = (Inl e, w') \<Longrightarrow> same w w'"
  by (auto simp: reserve_concurrency_def same_refl dest!: resolve_cap_frame reserve_frame
      intro: same_trans split: sum.splits prod.splits pyval.splits)

lemma grantedI:
  assumes "reserve C cfg q v = (Inr l, w')" and "same w v" and "scope_ok (rq_scope q)"
    and "rq_amount q = Fin a" "0 < a" and "rq_cap q = Fin c" "0 < c"
  shows "granted hashes clock cfg (rq_kind q) (rq_scope q) w l w' q"
proof -
  from reserve_grant [OF assms(1)] obtain t now where
    "clock v \<le> t" "t \<le> now" "now \<le> clock w'" "0 < rq_ttl q"
    "grant_step cfg q (hashes v (rq_key cfg q)) t now (hashes v) l (hashes w')" by blast
  with assms have "clock w \<le> t" "grant_step cfg q (hashes w (rq_key cfg q)) t now (hashes w) l (hashes w')"
    by (auto simp: same_db_def)
  moreover from assms have "rq_ok q" "\<exists>c > 0. rq_cap q = Fin c" by (auto simp: rq_ok_def)
  ultimately show ?thesis
    using \<open>t \<le> now\<close> \<open>now \<le> clock w'\<close> \<open>0 < rq_ttl q\<close> unfolding granted_def by blast
qed

lemma reserve_budget_grant:
  assumes "reserve_budget C cfg pc sc am r cs c ttl md w = (Inr l, w')" and "scope_ok sc"
  shows "\<exists>q. granted hashes clock cfg BUDGET sc w l w' q \<and> rq_run_id q = r \<and> rq_class q = pc \<and> rq_cost_source q = cs
    \<and> rq_unit q = BUDGET_UNIT_BY_CLASS pc \<and> rq_ttl q = ttl \<and> class_boundary pc (rq_amount q) (rq_cap q) cs = Inr ()"
proof -
  from assms(1) obtain a cap v where
    a: "require_amount ''amount'' am = Inr a" and
    cap: "resolve_cap C cfg BUDGET sc c w = (Inr cap, v)" and
    cb: "class_boundary pc a cap cs = Inr ()" and
    res: "reserve C cfg \<lparr>rq_kind = BUDGET, rq_scope = sc, rq_class = pc, rq_amount = a,
           rq_unit = BUDGET_UNIT_BY_CLASS pc, rq_cap = cap, rq_run_id = r,
           rq_cost_source = cs, rq_ttl = ttl, rq_metadata = md\<rparr> v = (Inr l, w')" (is "reserve C cfg ?q v = _")
    by (auto simp: reserve_budget_def split: sum.splits prod.splits)
  obtain x y where "a = Fin x" "0 < x" "cap = Fin y" "0 < y"
    using require_amount_ok [OF a] resolve_cap_ok [OF cap] by blast
  with grantedI [OF res resolve_cap_frame [OF cap], of x y] assms(2) have "granted hashes clock cfg BUDGET sc w l w' ?q"
    by simp
  with cb show ?thesis by (intro exI [of _ ?q]) simp
qed

lemma reserve_concurrency_grant:
  assumes "reserve_concurrency C cfg sc n r c ttl md w = (Inr l, w')" and "scope_ok sc"
  shows "\<exists>q. granted hashes clock cfg CONCURRENCY sc w l w' q \<and> rq_run_id q = r \<and> rq_ttl q = ttl"
proof -
  from assms(1) obtain m a cap v where
    a: "require_amount ''count'' (PInt m) = Inr a" and
    cap: "resolve_cap C cfg CONCURRENCY sc c w = (Inr cap, v)" and
    res: "reserve C cfg \<lparr>rq_kind = CONCURRENCY, rq_scope = sc, rq_class = SUBSCRIPTION, rq_amount = a,
                rq_unit = UNIT_SLOTS, rq_cap = cap, rq_run_id = r,
                rq_cost_source = None, rq_ttl = ttl, rq_metadata = md\<rparr> v = (Inr l, w')" (is "reserve C cfg ?q v = _")
    by (auto simp: reserve_concurrency_def split: sum.splits prod.splits pyval.splits)
  obtain x y where "a = Fin x" "0 < x" "cap = Fin y" "0 < y"
    using require_amount_ok [OF a] resolve_cap_ok [OF cap] by blast
  with grantedI [OF res resolve_cap_frame [OF cap], of x y] assms(2) show ?thesis
    by (intro exI [of _ ?q]) simp
qed

lemma granted_inv: "granted hashes clock cfg k sc w l w' q \<Longrightarrow> reg_inv cfg (hashes w) \<Longrightarrow> reg_inv cfg (hashes w')"
  unfolding granted_def using grant_step_inv by blast

lemma granted_cap:
  assumes "granted hashes clock cfg k sc w l w' q" and "reg_inv cfg (hashes w)" and "clock w' \<le> u"
  shows "\<exists>c. rq_cap q = Fin c \<and> live_sum u (hashes w' (scope_key cfg k sc)) \<le> c + EPSILON"
proof -
  from assms(1) obtain c t now where q: "rq_ok q" "rq_kind q = k" "rq_scope q = sc" "rq_cap q = Fin c"
    and t: "t \<le> now" "now \<le> clock w'"
    and g: "grant_step cfg q (hashes w (scope_key cfg k sc)) t now (hashes w) l (hashes w')"
    unfolding granted_def by blast
  have "hash_ok (hashes w (rq_key cfg q))"
    using assms(2) q(1) by (auto simp: rq_ok_def intro: reg_inv_scope)
  from grant_step_cap [where h = "hashes w" and cfg = cfg, OF this q(1,4)] g q t assms(3) show ?thesis by auto
qed

end

section \<open>Release and the sweep against a Redis server\<close>

text \<open>Taking the ids \<open>F\<close> out of one scope and out of the index.\<close>

definition drop_from :: "reg_cfg \<Rightarrow> string \<Rightarrow> string set \<Rightarrow> hashes \<Rightarrow> hashes" where
  "drop_from cfg sk F h =
     h(sk := without F (h sk), index_key cfg := without F (h (index_key cfg)))"

lemma reg_inv_drop:
  assumes "reg_inv cfg h" "scope_ok sc"
    and "\<And>i. i \<in> F \<Longrightarrow> h (index_key cfg) i = Some (Text (scope_key cfg k sc))"
  shows "reg_inv cfg (drop_from cfg (scope_key cfg k sc) F h)"
  unfolding drop_from_def using assms by (intro reg_inv_without) auto

lemma held_drop:
  assumes "reg_inv cfg h" "scope_ok sc"
    and "\<And>i. i \<in> F \<Longrightarrow> h (index_key cfg) i = Some (Text (scope_key cfg k sc))"
  shows "held cfg (drop_from cfg (scope_key cfg k sc) F h) i = (if i \<in> F then None else held cfg h i)"
  unfolding drop_from_def by (rule held_without [OF assms])

lemma drop_one: "sk \<noteq> index_key cfg \<Longrightarrow>
    apply_cmds [HDel sk [i], HDel (index_key cfg) [i]] h = drop_from cfg sk {i} h"
  by (auto simp: drop_from_def without_def fun_eq_iff)

lemma drop_pruned: "sk \<noteq> index_key cfg \<Longrightarrow>
    apply_cmds (prune_cmds sk (index_key cfg) ex) h = drop_from cfg sk (fst ` set ex) h"
  by (simp add: apply_prune drop_from_def)

lemma released_ok: "lease_of v = Some l \<Longrightarrow> released (Some v) = Done (Some l)"
  by (cases v) (auto simp: lease_of_def parse_lease_def released_def
      split: sum.splits prod.splits pyval.splits)

text \<open>A write that loses exactly the ids \<open>F\<close>.\<close>

definition forgets :: "reg_cfg \<Rightarrow> string set \<Rightarrow> hashes \<Rightarrow> hashes \<Rightarrow> bool" where
  "forgets cfg F h h' \<longleftrightarrow>
     reg_inv cfg h' \<and> (\<forall>j. held cfg h' j = (if j \<in> F then None else held cfg h j))
     \<and> (\<forall>k. h' k \<subseteq>\<^sub>m h k)"

lemma forgets_drop:
  assumes "reg_inv cfg h" "scope_ok sc"
    and "\<And>i. i \<in> F \<Longrightarrow> h (index_key cfg) i = Some (Text (scope_key cfg k sc))"
  shows "forgets cfg F h (drop_from cfg (scope_key cfg k sc) F h)"
  unfolding forgets_def
  using reg_inv_drop [OF assms] held_drop [OF assms] by (simp add: drop_from_def without_sub)

lemma forgets_none: "reg_inv cfg h \<Longrightarrow> \<forall>j \<in> F. held cfg h j = None \<Longrightarrow> forgets cfg F h h"
  by (simp add: forgets_def)

lemma forgets_union: "forgets cfg F h h' \<Longrightarrow> forgets cfg G h' h'' \<Longrightarrow> forgets cfg (F \<union> G) h h''"
  by (auto simp: forgets_def intro: map_le_trans)

context redis_server
begin

lemma released_outcome:
  assumes "hash_ok m" shows "released (m i) = Done (lease_in m i)"
proof (cases "m i")
  case None
  then show ?thesis by (simp add: released_def lease_in_def)
next
  case (Some v)
  with assms obtain l where "lease_of v = Some l" by (auto simp: hash_ok_def)
  with Some released_ok show ?thesis by (simp add: lease_in_def)
qed

lemma release_attempt_cases:
  assumes r: "release_attempt C cfg lid w = (r, w')" and inv: "reg_inv cfg (hashes w)"
  shows "(\<nexists>x. r = Done x) \<and> same w w'
    \<or> r = Done (held cfg (hashes w) lid) \<and> strings w' = strings w \<and> clock w \<le> clock w'
        \<and> forgets cfg {lid} (hashes w) (hashes w')"
proof (cases "hashes w (index_key cfg) lid")
  case None
  then have gone: "held cfg (hashes w) lid = None" by (simp add: held_def)
  from r None have "((\<nexists>x. r = Done x) \<or> r = Done None) \<and> same w w'"
    by (auto simp: release_attempt_def Let_def same_db_def
        dest!: watch_frame hgetD unwatch_frame
        dest: hget_frame split: prod.splits sum.splits option.splits)
  then show ?thesis using gone inv by (auto simp: same_db_def intro: forgets_none)
next
  case (Some v)
  with inv obtain k sc where sc: "scope_ok sc" "v = Text (scope_key cfg k sc)" by (rule reg_inv_indexE)
  let ?sk = "scope_key cfg k sc"
  have own: "\<And>i. i \<in> {lid} \<Longrightarrow> hashes w (index_key cfg) i = Some (Text (scope_key cfg k sc))"
    using Some sc by simp
  have found: "held cfg (hashes w) lid = lease_in (hashes w ?sk) lid"
    using Some sc by (simp add: held_def)
  have rel: "released (hashes w ?sk lid) = Done (held cfg (hashes w) lid)"
    unfolding found by (rule released_outcome) (rule reg_inv_scope [OF inv sc(1)])
  have "(\<nexists>x. r = Done x) \<and> same w w' \<or> r = released (hashes w ?sk lid) \<and> strings w' = strings w
      \<and> clock w \<le> clock w' \<and> hashes w' = apply_cmds [HDel ?sk [lid], HDel (index_key cfg) [lid]] (hashes w)"
    using r Some sc
    by (auto simp: release_attempt_def Let_def same_db_def simp del: apply_cmds.simps
        dest!: watch_frame hgetD exec_okD exec_errD
        dest: hget_frame split: prod.splits sum.splits option.splits)
  moreover have "forgets cfg {lid} (hashes w) (drop_from cfg ?sk {lid} (hashes w))"
    by (rule forgets_drop [OF inv sc(1) own])
  ultimately show ?thesis using rel drop_one [of ?sk cfg lid "hashes w"] by (auto simp del: apply_cmds.simps)
qed

lemma release_cases:
  assumes r: "release C cfg lid w = (r, w')" and inv: "reg_inv cfg (hashes w)"
  shows "(\<exists>e. r = Inl e) \<and> same w w'
    \<or> r = Inr (held cfg (hashes w) lid) \<and> strings w' = strings w \<and> clock w \<le> clock w'
        \<and> forgets cfg {lid} (hashes w) (hashes w')" (is "?Q r w'")
proof (cases "py_strip lid = []")
  case True
  with r show ?thesis by (auto simp: release_def same_refl)
next
  case False
  with r have loop: "retry_loop (reg_max_retries cfg) (release_attempt C cfg lid) w = (r, w')"
    by (simp add: release_def)
  show ?thesis
  proof (rule retry_loop_induct [OF loop, where I = "same w" and Q = ?Q])
    fix v v' x assume v: "same w v" "release_attempt C cfg lid v = (Done x, v')"
    then have "reg_inv cfg (hashes v)" using inv by (simp add: same_db_def)
    with release_attempt_cases [OF v(2)] v(1) show "?Q (Inr x) v'"
      by (auto simp: same_db_def)
  next
    fix v v' assume v: "same w v" "release_attempt C cfg lid v = (Retry, v')"
    then have "reg_inv cfg (hashes v)" using inv by (simp add: same_db_def)
    with release_attempt_cases [OF v(2)] v(1) show "same w v'" by (auto intro: same_trans)
  next
    fix v v' e assume v: "same w v" "release_attempt C cfg lid v = (Raised e, v')"
    then have "reg_inv cfg (hashes v)" using inv by (simp add: same_db_def)
    with release_attempt_cases [OF v(2)] v(1) show "?Q (Inl e) v'" by (auto intro: same_trans)
  qed (auto simp: same_refl)
qed

end

text \<open>The sweep of one scope: the ids that have expired at the instant of the reading.\<close>

lemma hash_entries:
  assumes "hash_ok m" and "map_of raw = m" and "distinct (map fst raw)"
  shows "\<forall>(i, v) \<in> set raw. \<exists>l. lease_of v = Some l \<and> lease_ok i l"
  using assms(1) assms(3) unfolding assms(2) [symmetric] hash_ok_def by auto

lemma reclaim_ids:
  "partition_at t raw = Inr (live, expired) \<Longrightarrow> \<forall>(i, v) \<in> set raw. \<exists>l. lease_of v = Some l \<and> lease_ok i l \<Longrightarrow>
     \<exists>ls. reclaim expired = Inr ls \<and> map lease_id ls = map fst expired
       \<and> (\<forall>l \<in> set ls. is_expired l t \<and> (\<exists>v. (lease_id l, v) \<in> set raw \<and> lease_of v = Some l))"
proof (induction t raw arbitrary: live expired rule: partition_at.induct)
  case (1 now)
  then show ?case by simp
next
  case (2 now i v raw)
  from "2.prems"(1) obtain p l live' expired' where
    parse: "parse_lease v = Inr (p, l)" and rest: "partition_at now raw = Inr (live', expired')" and
    ex: "expired = (if is_expired l now then (i, p) # expired' else expired')"
    by (auto split: sum.splits prod.splits if_splits)
  from parse obtain d where d: "p = PDict d" "lease_from_dict d = Inr l" "lease_of v = Some l"
    by (auto simp: parse_lease_def lease_of_def split: option.splits pyval.splits sum.splits)
  with "2.prems"(2) have i: "lease_id l = i" by (auto simp: lease_ok_def)
  obtain ls where ls: "reclaim expired' = Inr ls" "map lease_id ls = map fst expired'"
    "\<forall>l \<in> set ls. is_expired l now \<and> (\<exists>v. (lease_id l, v) \<in> set raw \<and> lease_of v = Some l)"
    using "2.IH" [OF parse _ rest] "2.prems"(2) by auto
  show ?case
  proof (cases "is_expired l now")
    case True
    with ls d i ex show ?thesis by (intro exI [of _ "l # ls"]) auto
  next
    case False
    with ls ex show ?thesis by (intro exI [of _ ls]) auto
  qed
qed


text \<open>The leases \<open>ls\<close> taken out of one scope are those expired at \<open>t\<close>.\<close>

definition swept :: "reg_cfg \<Rightarrow> string \<Rightarrow> rat \<Rightarrow> hashes \<Rightarrow> lease list \<Rightarrow> hashes \<Rightarrow> bool" where
  "swept cfg sk t h ls h' \<longleftrightarrow>
     forgets cfg (lease_id ` set ls) h h'
     \<and> lease_id ` set ls = {i. \<exists>l. lease_in (h sk) i = Some l \<and> is_expired l t}
     \<and> (\<forall>l \<in> set ls. held cfg h (lease_id l) = Some l)"

lemma sweptI:
  assumes inv: "reg_inv cfg h" and sc: "scope_ok sc" and raw: "map_of raw = h (scope_key cfg k sc)"
    and d: "distinct (map fst raw)" and part: "partition_at t raw = Inr (live, expired)"
  shows "\<exists>ls. reclaim expired = Inr ls
    \<and> swept cfg (scope_key cfg k sc) t h ls (drop_from cfg (scope_key cfg k sc) (fst ` set expired) h)"
proof -
  let ?sk = "scope_key cfg k sc"
  note all = hash_entries [OF reg_inv_scope [OF inv sc, of k] raw d]
  from reclaim_ids [OF part all] obtain ls where ls: "reclaim expired = Inr ls" "map lease_id ls = map fst expired"
    and src: "\<forall>l \<in> set ls. is_expired l t \<and> (\<exists>v. (lease_id l, v) \<in> set raw \<and> lease_of v = Some l)" by blast
  have ids: "lease_id ` set ls = fst ` set expired" using ls(2) by (metis list.set_map)
  have "forgets cfg (fst ` set expired) h (drop_from cfg ?sk (fst ` set expired) h)"
    using expired_own [OF inv sc raw part d] by (intro forgets_drop inv sc) auto
  moreover have "fst ` set expired = {i. \<exists>l. lease_in (h ?sk) i = Some l \<and> is_expired l t}"
    using partition_expired [OF part d] raw by simp
  moreover have "held cfg h (lease_id l) = Some l" if "l \<in> set ls" for l
  proof (rule held_scope [OF inv sc])
    from src that obtain v where "map_of raw (lease_id l) = Some v" "lease_of v = Some l"
      using d by auto
    then show "lease_in (h ?sk) (lease_id l) = Some l" by (simp add: lease_in_def raw)
  qed
  ultimately show ?thesis using ls(1) ids by (auto simp: swept_def)
qed

context redis_server
begin

lemma expire_attempt_cases:
  assumes r: "expire_attempt C cfg (scope_key cfg k sc) w = (r, w')"
    and inv: "reg_inv cfg (hashes w)" and sc: "scope_ok sc"
  shows "(\<nexists>x. r = Done x) \<and> same w w'
    \<or> (\<exists>ls t. r = Done ls \<and> clock w \<le> t \<and> t \<le> clock w' \<and> strings w' = strings w
        \<and> swept cfg (scope_key cfg k sc) t (hashes w) ls (hashes w'))"
proof (cases "\<exists>x. r = Done x")
  case False
  then show ?thesis using r
    by (auto simp: expire_attempt_def partition_now_def Let_def same_db_def
        dest!: watch_frame hgetallD hgetall_errD nowD exec_errD unwatch_frame
        split: prod.splits sum.splits if_splits)
next
  case True
  let ?sk = "scope_key cfg k sc"
  from True r obtain ls where ls: "r = Done ls" by blast
  with r obtain w1 raw w2 t w3 live expired u where
    w: "c_watch C [?sk, index_key cfg] w = (u, w1)" "c_hgetall C ?sk w1 = (Inr raw, w2)"
      "c_now C w2 = (t, w3)" "partition_at t raw = Inr (live, expired)"
    and fin: "if expired = [] then ls = [] \<and> (\<exists>x. c_unwatch C w3 = (x, w'))
      else reclaim expired = Inr ls \<and> (\<exists>x. c_exec C (prune_cmds ?sk (index_key cfg) expired) w3 = (Inr x, w'))"
    by (auto simp: expire_attempt_def partition_now_def Let_def split: prod.splits sum.splits if_splits)
  have s1: "same w w2" "t = clock w2" "same w w3" "map_of raw = hashes w ?sk" "distinct (map fst raw)"
    using w(1-3) by (auto simp: same_db_def dest!: watch_frame hgetallD nowD)
  from sweptI [OF inv sc s1(4,5) w(4)] obtain ls' where
    ls': "reclaim expired = Inr ls'" "swept cfg ?sk t (hashes w) ls' (drop_from cfg ?sk (fst ` set expired) (hashes w))"
    by blast
  have "ls = ls' \<and> clock w3 \<le> clock w' \<and> strings w' = strings w
      \<and> hashes w' = drop_from cfg ?sk (fst ` set expired) (hashes w)"
    using fin ls'(1) s1
    by (auto simp: same_db_def drop_from_def apply_prune split: if_splits dest!: unwatch_frame exec_okD)
  moreover have "clock w \<le> t \<and> t \<le> clock w3"
    using s1 w(3) by (auto simp: same_db_def dest!: nowD)
  ultimately show ?thesis using ls ls'(2) by auto
qed

end

text \<open>A sweep of several scopes between the instants \<open>t\<close> and \<open>u\<close> takes out the leases \<open>ls\<close>:
  all were held and had expired by \<open>u\<close>, and none of those expired at \<open>t\<close> in the scopes \<open>sks\<close> is left.\<close>

definition sweeps :: "reg_cfg \<Rightarrow> string set \<Rightarrow> rat \<Rightarrow> rat \<Rightarrow> hashes \<Rightarrow> lease list \<Rightarrow> hashes \<Rightarrow> bool" where
  "sweeps cfg sks t u h ls h' \<longleftrightarrow>
     forgets cfg (lease_id ` set ls) h h'
     \<and> (\<forall>l \<in> set ls. held cfg h (lease_id l) = Some l \<and> is_expired l u)
     \<and> (\<forall>sk \<in> sks. \<forall>i l. lease_in (h sk) i = Some l \<longrightarrow> is_expired l t \<longrightarrow> l \<in> set ls)"

lemma is_expired_later: "is_expired l t \<Longrightarrow> t \<le> u \<Longrightarrow> is_expired l u"
  by (cases "lease_expires_at l") (auto simp: is_expired_def, auto simp: fle_def feq_def)

lemma held_mono: "reg_inv cfg h \<Longrightarrow> held cfg h i = Some l \<Longrightarrow> lease_id l = i"
  by (drule (1) held_ok) (simp add: lease_ok_def)

lemma sweeps_none: "reg_inv cfg h \<Longrightarrow> sweeps cfg {} t u h [] h"
  by (simp add: sweeps_def forgets_none)

lemma sweeps_one:
  assumes "swept cfg (scope_key cfg k sc) v h ls h'" "t \<le> v" "v \<le> u" and inv: "reg_inv cfg h" and sc: "scope_ok sc"
  shows "sweeps cfg {scope_key cfg k sc} t u h ls h'"
proof -
  have ids: "lease_id ` set ls = {i. \<exists>l. lease_in (h (scope_key cfg k sc)) i = Some l \<and> is_expired l v}"
    and own: "\<forall>l \<in> set ls. held cfg h (lease_id l) = Some l"
    using assms(1) by (auto simp: swept_def)
  have "is_expired l u" if "l \<in> set ls" for l
  proof -
    from that have "lease_id l \<in> lease_id ` set ls" by simp
    then obtain l' where "lease_in (h (scope_key cfg k sc)) (lease_id l) = Some l'" "is_expired l' v"
      unfolding ids by blast
    with held_scope [OF inv sc] own that have "is_expired l v" by fastforce
    then show ?thesis using assms(3) by (rule is_expired_later)
  qed
  moreover have "l \<in> set ls" if l: "lease_in (h (scope_key cfg k sc)) i = Some l" "is_expired l t" for i l
  proof -
    from l is_expired_later [OF l(2) assms(2)] have "i \<in> lease_id ` set ls" unfolding ids by blast
    with own held_scope [OF inv sc l(1)] show ?thesis by auto
  qed
  ultimately show ?thesis using assms(1) own unfolding sweeps_def swept_def by blast
qed

lemma sweeps_trans:
  assumes a: "sweeps cfg A t u h ls h1" and b: "sweeps cfg B u' v h1 ms h'" and ts: "t \<le> u'" "u \<le> v"
    and inv: "reg_inv cfg h" and keys: "\<forall>sk \<in> B. \<exists>k sc. scope_ok sc \<and> sk = scope_key cfg k sc"
  shows "sweeps cfg (A \<union> B) t v h (ls @ ms) h'"
proof -
  have fa: "forgets cfg (lease_id ` set ls) h h1" and fb: "forgets cfg (lease_id ` set ms) h1 h'"
    using a b by (auto simp: sweeps_def)
  have inv1: "reg_inv cfg h1" using fa by (simp add: forgets_def)
  have from1: "held cfg h i = Some l" if "held cfg h1 i = Some l" for i l
    using fa that by (auto simp: forgets_def split: if_splits)
  have "l \<in> set ls \<union> set ms"
    if l: "sk \<in> B" "lease_in (h sk) i = Some l" "is_expired l t" for sk i l
  proof -
    obtain k sc where sk: "scope_ok sc" "sk = scope_key cfg k sc" using keys l(1) by blast
    have hl: "held cfg h i = Some l" using held_scope [OF inv sk(1)] l(2) sk(2) by blast
    show ?thesis
    proof (cases "i \<in> lease_id ` set ls")
      case True
      with a hl show ?thesis by (auto simp: sweeps_def)
    next
      case False
      with fa hl have "held cfg h1 i = Some l" by (simp add: forgets_def)
      then obtain k' sc' where w: "scope_ok sc'" "h1 (index_key cfg) i = Some (Text (scope_key cfg k' sc'))"
        "lease_in (h1 (scope_key cfg k' sc')) i = Some l" by (rule held_where [OF inv1])
      have "h (index_key cfg) i = Some (Text (scope_key cfg k' sc'))"
        using fa w(2) by (auto simp: forgets_def map_le_def dom_def)
      moreover have "h (index_key cfg) i = Some (Text sk)"
        using reg_inv_index [OF inv sk(1)] l(2) sk(2) by (auto simp: lease_in_def bind_eq_Some_conv)
      ultimately have "lease_in (h1 sk) i = Some l" using w(3) by simp
      with b l(1) is_expired_later [OF l(3) ts(1)] show ?thesis by (auto simp: sweeps_def)
    qed
  qed
  with a b show ?thesis
    using forgets_union [OF fa fb] from1 is_expired_later [OF _ ts(2)]
    by (auto simp: sweeps_def image_Un)
qed

context redis_server
begin

lemma expire_scope_cases:
  assumes r: "expire_scope C cfg (scope_key cfg k sc) w = (r, w')"
    and inv: "reg_inv cfg (hashes w)" and sc: "scope_ok sc"
  shows "(\<exists>e. r = Inl e) \<and> same w w'
    \<or> (\<exists>ls. r = Inr ls \<and> clock w \<le> clock w' \<and> strings w' = strings w
        \<and> sweeps cfg {scope_key cfg k sc} (clock w) (clock w') (hashes w) ls (hashes w'))" (is "?Q r w'")
proof -
  from r have loop: "retry_loop (reg_max_retries cfg) (expire_attempt C cfg (scope_key cfg k sc)) w = (r, w')"
    by (simp add: expire_scope_def)
  have inv': "reg_inv cfg (hashes v)" if "same w v" for v using that inv by (simp add: same_db_def)
  show ?thesis
  proof (rule retry_loop_induct [OF loop, where I = "same w" and Q = ?Q])
    fix v v' x assume v: "same w v" "expire_attempt C cfg (scope_key cfg k sc) v = (Done x, v')"
    from expire_attempt_cases [OF v(2) inv' [OF v(1)] sc] obtain t where
      t: "clock v \<le> t" "t \<le> clock v'" "strings v' = strings v"
      "swept cfg (scope_key cfg k sc) t (hashes v) x (hashes v')" by auto
    from v(1) t(1) have t': "clock w \<le> t" "clock w \<le> clock v'" "hashes v = hashes w" "strings v = strings w"
      using t(2) by (auto simp: same_db_def)
    have "sweeps cfg {scope_key cfg k sc} (clock w) (clock v') (hashes w) x (hashes v')"
      using t(2,4) t' by (intro sweeps_one [OF _ t'(1) _ inv sc]) auto
    with t t' show "?Q (Inr x) v'" by simp
  next
    fix v v' assume v: "same w v" "expire_attempt C cfg (scope_key cfg k sc) v = (Retry, v')"
    with expire_attempt_cases [OF v(2) inv' sc] show "same w v'" by (auto intro: same_trans)
  next
    fix v v' e assume v: "same w v" "expire_attempt C cfg (scope_key cfg k sc) v = (Raised e, v')"
    with expire_attempt_cases [OF v(2) inv' sc] show "?Q (Inl e) v'" by (auto intro: same_trans)
  qed (auto simp: same_refl)
qed

lemma expire_each_cases:
  assumes "expire_each C cfg sks w = (r, w')" and "reg_inv cfg (hashes w)"
    and "\<forall>sk \<in> set sks. \<exists>k sc. scope_ok sc \<and> sk = scope_key cfg k sc"
  shows "clock w \<le> clock w' \<and> strings w' = strings w
    \<and> (case r of Inr ls \<Rightarrow> sweeps cfg (set sks) (clock w) (clock w') (hashes w) ls (hashes w')
       | Inl e \<Rightarrow> \<exists>ls. sweeps cfg {} (clock w) (clock w') (hashes w) ls (hashes w'))"
  using assms
proof (induction sks arbitrary: w r)
  case Nil
  then show ?case by (auto simp: sweeps_none)
next
  case (Cons sk sks)
  from Cons.prems(3) obtain k sc where sc: "scope_ok sc" "sk = scope_key cfg k sc" by auto
  obtain q v where q: "expire_scope C cfg sk w = (q, v)" by fastforce
  from expire_scope_cases [of cfg k sc w q v] q sc Cons.prems(2) consider
      (err) e where "q = Inl e" "same w v"
    | (ok) ls where "q = Inr ls" "clock w \<le> clock v" "strings v = strings w"
      "sweeps cfg {sk} (clock w) (clock v) (hashes w) ls (hashes v)" by blast
  then show ?case
  proof cases
    case err
    with Cons.prems q show ?thesis by (auto simp: same_db_def intro!: exI sweeps_none)
  next
    case ok
    obtain p where p: "expire_each C cfg sks v = (p, w')"
      using Cons.prems(1) q ok(1) by (fastforce split: sum.splits prod.splits)
    from ok(4) have inv: "reg_inv cfg (hashes v)" by (simp add: sweeps_def forgets_def)
    have keys: "\<forall>sk \<in> set sks. \<exists>k sc. scope_ok sc \<and> sk = scope_key cfg k sc"
      using Cons.prems(3) by simp
    note IH = Cons.IH [OF p inv keys]
    show ?thesis
    proof (cases p)
      case (Inl e)
      with IH obtain ms where ms: "sweeps cfg {} (clock v) (clock w') (hashes v) ms (hashes w')" by auto
      have "sweeps cfg {} (clock w) (clock w') (hashes w) (ls @ ms) (hashes w')"
        using sweeps_trans [OF ok(4) ms] ok(2) IH Cons.prems(2) by (auto simp: sweeps_def)
      with Inl Cons.prems(1) q ok p IH show ?thesis by auto
    next
      case (Inr ms)
      with IH have ms: "sweeps cfg (set sks) (clock v) (clock w') (hashes v) ms (hashes w')" by simp
      have "sweeps cfg (set (sk # sks)) (clock w) (clock w') (hashes w) (ls @ ms) (hashes w')"
        using sweeps_trans [OF ok(4) ms] ok(2) IH Cons.prems(2) keys by simp
      with Inr Cons.prems(1) q ok p IH show ?thesis by auto
    qed
  qed
qed

end

section \<open>Whole operations\<close>

lemma mset_insert_by [simp]: "mset (insert_by lt x xs) = add_mset x (mset xs)"
  by (induction xs) auto

lemma mset_sorted_by [simp]: "mset (sorted_by lt xs) = mset xs"
  by (induction xs) (auto simp: sorted_by_def)

lemma fsum_perm:
  assumes "map lease_amount xs = map Fin as" and "mset ys = mset xs"
  shows "fsum (map lease_amount ys) = Fin (sum_list as)"
proof -
  have fin: "lease_amount l = Fin (the_fin (lease_amount l))" if "l \<in> set ys" for l
  proof -
    have "l \<in> set xs" using that assms(2) by (metis set_mset_mset)
    then have "lease_amount l \<in> set (map Fin as)" using assms(1) by (metis image_eqI list.set_map)
    then show ?thesis by auto
  qed
  then have "map lease_amount ys = map Fin (map (the_fin \<circ> lease_amount) ys)" by simp
  then have "fsum (map lease_amount ys) = Fin (sum_list (map (the_fin \<circ> lease_amount) ys))"
    by (simp only: fsum_Fin)
  also have "sum_list (map (the_fin \<circ> lease_amount) ys) = sum_mset (image_mset (the_fin \<circ> lease_amount) (mset ys))"
    by (metis mset_map sum_mset_sum_list)
  also have "\<dots> = sum_list (map (the_fin \<circ> lease_amount) xs)"
    by (metis assms(2) mset_map sum_mset_sum_list)
  also have "map (the_fin \<circ> lease_amount) xs = map the_fin (map lease_amount xs)" by simp
  also have "\<dots> = as" unfolding assms(1) by (simp add: comp_def)
  finally show ?thesis .
qed

text \<open>What a grant does to the leases held.\<close>

lemma grant_step_held:
  assumes inv: "reg_inv cfg h" and q: "rq_ok q" and g: "grant_step cfg q (h (rq_key cfg q)) t now h l h'"
  shows "held cfg h (lease_id l) = None \<and> held cfg h' (lease_id l) = Some l
    \<and> (\<forall>i. i \<noteq> lease_id l \<longrightarrow> held cfg h' i = held cfg h i
         \<or> held cfg h' i = None \<and> (\<exists>x. held cfg h i = Some x \<and> is_expired x t))"
proof -
  let ?sk = "rq_key cfg q" and ?ik = "index_key cfg"
  from g obtain raw live expired i where
    raw: "map_of raw = h ?sk" "distinct (map fst raw)" and
    part: "partition_at t raw = Inr (live, expired)" and
    l: "l = grant_lease q now i" and fresh: "\<forall>k p. h k (p @ i) = None" and
    h': "h' = apply_cmds (grant_cmds ?sk ?ik expired l) h"
    unfolding grant_step_def by blast
  from q have sc: "scope_ok (rq_scope q)" by (simp add: rq_ok_def)
  note own = expired_own [OF inv sc raw(1) part raw(2)]
  define h1 where "h1 = drop_from cfg ?sk (fst ` set expired) h"
  have f1: "forgets cfg (fst ` set expired) h h1"
    unfolding h1_def by (rule forgets_drop [OF inv sc own])
  then have inv1: "reg_inv cfg h1" by (simp add: forgets_def)
  have h'1: "h' = h1(?sk := (h1 ?sk)(lease_id l \<mapsto> Doc (PDict (lease_to_dict l))),
      ?ik := (h1 ?ik)(lease_id l \<mapsto> Text ?sk))"
    unfolding h' by (simp add: apply_grant h1_def drop_from_def)
  have new: "held cfg h' j = (if j = lease_id l then Some l else held cfg h1 j)" for j
    unfolding h'1 using sc l by (intro held_insert [OF inv1]) simp
  have "h ?ik (lease_id l) = None"
    using fresh [rule_format, of ?ik "take 3 (lease_kind_value (rq_kind q)) @ ''_''"]
    by (simp add: l grant_lease_def)
  then have none: "held cfg h (lease_id l) = None" by (simp add: held_def)
  have "\<exists>x. held cfg h j = Some x \<and> is_expired x t" if j: "j \<in> fst ` set expired" for j
  proof -
    from j partition_expired [OF part raw(2)] raw(1) obtain x where
      "lease_in (h ?sk) j = Some x" "is_expired x t" by auto
    with held_scope [OF inv sc] show ?thesis by blast
  qed
  with f1 new none show ?thesis by (auto simp: forgets_def)
qed

context redis_server
begin

lemma expire_leases_cases:
  assumes r: "expire_leases C cfg None w = (r, w')" and inv: "reg_inv cfg (hashes w)"
  shows "clock w \<le> clock w' \<and> strings w' = strings w
    \<and> (case r of
         Inr ls \<Rightarrow> forgets cfg (lease_id ` set ls) (hashes w) (hashes w')
           \<and> (\<forall>l \<in> set ls. held cfg (hashes w) (lease_id l) = Some l \<and> is_expired l (clock w'))
           \<and> (\<forall>i l. held cfg (hashes w) i = Some l \<longrightarrow> is_expired l (clock w) \<longrightarrow> l \<in> set ls)
       | Inl e \<Rightarrow> \<exists>ls. sweeps cfg {} (clock w) (clock w') (hashes w) ls (hashes w'))"
proof -
  obtain q v where q: "c_hgetall C (index_key cfg) w = (q, v)" by fastforce
  have v: "same w v" using hgetall_frame [OF q] .
  show ?thesis
  proof (cases q)
    case (Inl e)
    with r q have "w' = v" "\<exists>e. r = Inl e" by (auto simp: expire_leases_def)
    with v inv show ?thesis by (auto simp: same_db_def intro!: exI sweeps_none)
  next
    case (Inr xs)
    let ?keys = "sort (remdups (map (decode_text \<circ> snd) xs))"
    have xs: "map_of xs = hashes w (index_key cfg)" "distinct (map fst xs)"
      using q Inr hgetallD by blast+
    have key: "\<exists>k sc. scope_ok sc \<and> decode_text x = scope_key cfg k sc" if "(i, x) \<in> set xs" for i x
    proof -
      from that xs have "hashes w (index_key cfg) i = Some x" by (metis map_of_is_SomeI)
      with inv show ?thesis by (auto elim: reg_inv_indexE)
    qed
    then have keys: "\<forall>sk \<in> set ?keys. \<exists>k sc. scope_ok sc \<and> sk = scope_key cfg k sc" by auto
    obtain p u where p: "expire_each C cfg ?keys v = (p, u)" by fastforce
    have inv': "reg_inv cfg (hashes v)" using v inv by (simp add: same_db_def)
    note E = expire_each_cases [OF p inv' keys]
    have u: "u = w'" using r q Inr p by (auto simp: expire_leases_def comp_def split: sum.splits)
    show ?thesis
    proof (cases p)
      case err: (Inl e)
      with r q Inr p have "\<exists>e. r = Inl e" by (auto simp: expire_leases_def comp_def)
      with E err u v show ?thesis by (auto simp: same_db_def sweeps_def)
    next
      case ok: (Inr ls)
      with r q Inr p have r': "\<exists>ms. r = Inr ms \<and> set ms = set ls"
        by (auto simp: expire_leases_def comp_def)
      have "l \<in> set ls" if l: "held cfg (hashes w) i = Some l" "is_expired l (clock w)" for i l
      proof -
        from l(1) obtain k sc where sc: "scope_ok sc"
          "hashes w (index_key cfg) i = Some (Text (scope_key cfg k sc))"
          "lease_in (hashes w (scope_key cfg k sc)) i = Some l" by (rule held_where [OF inv])
        from sc(2) have "(i, Text (scope_key cfg k sc)) \<in> set xs" by (metis xs(1) map_of_SomeD)
        then have "scope_key cfg k sc \<in> set ?keys" by force
        with E ok sc(3) l(2) v show ?thesis
          by (auto simp: sweeps_def same_db_def dest: is_expired_later)
      qed
      with E ok u v r' show ?thesis by (auto simp: sweeps_def same_db_def)
    qed
  qed
qed

lemma leases_ok:
  assumes r: "leases C cfg k sc w = (Inr ls, w')" and inv: "reg_inv cfg (hashes w)" and sc: "scope_ok sc"
  shows "\<exists>t. clock w \<le> t \<and> t \<le> clock w' \<and> same w w'
    \<and> fsum (map lease_amount ls) = Fin (live_sum t (hashes w (scope_key cfg k sc)))"
proof -
  let ?m = "hashes w (scope_key cfg k sc)"
  from r obtain raw w1 live expired where
    w: "c_hgetall C (scope_key cfg k sc) w = (Inr raw, w1)" "partition_now C raw w1 = (Inr (live, expired), w')"
      "ls = sorted_by grant_before live"
    by (auto simp: leases_def split: sum.splits prod.splits)
  from w(2) obtain t where t: "c_now C w1 = (t, w')" "partition_at t raw = Inr (live, expired)"
    by (auto simp: partition_now_def split: prod.splits)
  from w(1) t(1) have raw: "map_of raw = ?m" "distinct (map fst raw)" "same w w1" "same w1 w'" "t = clock w1"
    by (auto dest: hgetallD nowD)
  from partition_sum [OF t(2) raw(2) hash_entries [OF reg_inv_scope [OF inv sc] raw(1,2)]] obtain as where
    "map lease_amount live = map Fin as" "sum_list as = live_sum t ?m" using raw(1) by auto
  then have "fsum (map lease_amount ls) = Fin (live_sum t ?m)"
    using fsum_perm [of live as ls] w(3) by simp
  with raw show ?thesis by (auto simp: same_db_def intro!: exI [of _ t])
qed

end

end
