(* ===== verification/Float_Text.thy ===== *)
theory Float_Text
  imports Agd_Prelude
begin

text \<open>
  A float printed by \<open>repr\<close> and read back by \<open>float\<close> is the same float, when its decimal
  expansion has at most 20 places. The caps in Redis, the environment of a leased process and
  the request fields all pass floats as text in this way.
\<close>

section \<open>Digits\<close>

lemma digit_char: "d < 10 \<Longrightarrow> is_digit (char_of (d + 48)) \<and> digit_val (char_of (d + 48)) = d"
proof -
  assume "d < 10"
  then have "d \<in> set [0..<10]" by simp
  moreover have "list_all (\<lambda>d. is_digit (char_of (d + 48)) \<and> digit_val (char_of (d + 48)) = d) [0..<10]"
    by code_simp
  ultimately show ?thesis by (auto simp: list_all_iff)
qed

lemma is_digit_facts:
  assumes "is_digit c"
  shows "\<not> py_space c" "lower_char c = c" "c \<noteq> CHR ''_''" "c \<noteq> CHR ''.''" "c \<noteq> CHR ''-''"
    "c \<noteq> CHR ''+''" "c \<noteq> CHR ''i''" "c \<noteq> CHR ''n''" "is_digit_us c"
proof -
  have "list_all (\<lambda>c. \<not> py_space c \<and> lower_char c = c \<and> c \<noteq> CHR ''_'' \<and> c \<noteq> CHR ''.'' \<and> c \<noteq> CHR ''-''
    \<and> c \<noteq> CHR ''+'' \<and> c \<noteq> CHR ''i'' \<and> c \<noteq> CHR ''n'' \<and> is_digit_us c) ''0123456789''"
    by code_simp
  moreover from assms have "c \<in> set ''0123456789''" by (simp only: is_digit_def)
  ultimately show "\<not> py_space c" "lower_char c = c" "c \<noteq> CHR ''_''" "c \<noteq> CHR ''.''" "c \<noteq> CHR ''-''"
    "c \<noteq> CHR ''+''" "c \<noteq> CHR ''i''" "c \<noteq> CHR ''n''" "is_digit_us c"
    unfolding list_all_iff by blast+
qed

lemma nat_of_digits_snoc: "nat_of_digits (ds @ [c]) = 10 * nat_of_digits ds + digit_val c"
  by (simp add: nat_of_digits_def)

lemma nat_of_digits_append:
  "nat_of_digits (xs @ ys) = nat_of_digits xs * 10 ^ length ys + nat_of_digits ys"
proof (induction ys rule: rev_induct)
  case Nil
  then show ?case by (simp add: nat_of_digits_def)
next
  case (snoc y ys)
  then show ?case
    using nat_of_digits_snoc [of "xs @ ys" y] nat_of_digits_snoc [of ys y] by (simp add: algebra_simps)
qed

lemma show_nat_digits: "show_nat n \<noteq> [] \<and> list_all is_digit (show_nat n) \<and> nat_of_digits (show_nat n) = n"
proof (induction n rule: show_nat.induct)
  case (1 n)
  show ?case
  proof (cases "n < 10")
    case True
    then show ?thesis using digit_char [OF True]
      by (subst (1 2 3) show_nat.simps) (simp add: nat_of_digits_def)
  next
    case False
    have "n mod 10 < 10" by simp
    from digit_char [OF this] 1 [OF False] False show ?thesis
      by (subst (1 2 3) show_nat.simps) (simp add: nat_of_digits_snoc)
  qed
qed

lemma show_padded_digits:
  "n < 10 ^ k \<Longrightarrow> length (show_padded k n) = k \<and> list_all is_digit (show_padded k n)
     \<and> nat_of_digits (show_padded k n) = n"
proof (induction k arbitrary: n)
  case 0
  then show ?case by (simp add: nat_of_digits_def)
next
  case (Suc k)
  have "n div 10 < 10 ^ k" using Suc.prems by (auto simp: div_less_iff_less_mult mult.commute)
  moreover have "n mod 10 < 10" by simp
  ultimately show ?case using Suc.IH digit_char by (simp add: nat_of_digits_snoc)
qed

lemma underscores_ok_digits: "list_all is_digit s \<Longrightarrow> b \<or> s \<noteq> [] \<Longrightarrow> underscores_ok b s"
  by (induction s arbitrary: b) (auto dest: is_digit_facts)

lemma digits_part_digits: "list_all is_digit s \<Longrightarrow> digits_part s = Some s"
  by (auto simp: digits_part_def underscores_ok_digits list_all_iff intro: filter_True)

lemma takeWhile_digits:
  assumes "list_all is_digit s" and "r = [] \<or> \<not> is_digit_us (hd r)"
  shows "takeWhile is_digit_us (s @ r) = s \<and> dropWhile is_digit_us (s @ r) = r"
  using assms by (induction s) (auto simp: is_digit_facts(9) takeWhile_eq_Nil_iff dropWhile_eq_self_iff)

section \<open>Decimals\<close>

lemma parse_decimal_digits:
  assumes i: "list_all is_digit i" "i \<noteq> []" and f: "list_all is_digit f"
  shows "parse_decimal (i @ CHR ''.'' # f)
    = Some (of_nat (nat_of_digits i * 10 ^ length f + nat_of_digits f) / 10 ^ length f)"
proof -
  have "\<not> is_digit_us (CHR ''.'')" by code_simp
  then have ip: "takeWhile is_digit_us (i @ CHR ''.'' # f) = i"
    and rest: "dropWhile is_digit_us (i @ CHR ''.'' # f) = CHR ''.'' # f"
    using takeWhile_digits [OF i(1), of "CHR ''.'' # f"] by simp_all
  have fp: "takeWhile is_digit_us f = f" and nil: "dropWhile is_digit_us f = []"
    using takeWhile_digits [OF f, of "[]"] by simp_all
  have "parse_decimal (i @ CHR ''.'' # f)
    = Some (scale10 (of_nat (nat_of_digits (i @ f))) (0 - int (length f)))"
    by (simp add: parse_decimal_def ip rest fp nil i f digits_part_digits parse_exponent_def)
  then show ?thesis by (simp add: scale10_def nat_of_digits_append)
qed

lemma frac_digits_exact:
  assumes "is_decimal k q" "1 \<le> k" "k \<le> 20"
  shows "is_decimal (frac_digits q) q"
proof -
  from assms have "List.find (\<lambda>k. is_decimal k q) [1..<21] \<noteq> None"
    by (auto simp: find_None_iff intro!: exI [of _ k])
  then show ?thesis by (auto simp: frac_digits_def dest: find_SomeD)
qed

lemma take_sign_digit: "is_digit c \<Longrightarrow> take_sign (c # s) = (1, c # s)"
  by (auto simp: take_sign_def dest: is_digit_facts)

lemma py_float_body:
  assumes i: "list_all is_digit i" "i \<noteq> []" and f: "list_all is_digit f" "f \<noteq> []"
  shows "py_float (i @ CHR ''.'' # f) = map_option Fin (parse_decimal (i @ CHR ''.'' # f))"
    and "py_float (CHR ''-'' # i @ CHR ''.'' # f) = map_option (Fin \<circ> uminus) (parse_decimal (i @ CHR ''.'' # f))"
proof -
  let ?b = "i @ CHR ''.'' # f"
  obtain c i' where c: "i = c # i'" "is_digit c" using i by (cases i) auto
  have "is_digit (last f)" using f by (auto simp: list_all_iff)
  then have strip: "py_strip ?b = ?b" "py_strip (CHR ''-'' # ?b) = CHR ''-'' # ?b"
    using c f(2) by (auto intro!: strip_by_clean simp: is_digit_facts) (simp add: py_space_def)
  have low: "map lower_char s = s" if "list_all is_digit s" for s
    using that by (induction s) (auto simp: is_digit_facts)
  have "lower_char (CHR ''.'') = CHR ''.''" "lower_char (CHR ''-'') = CHR ''-''" by code_simp+
  then have lower: "py_lower ?b = ?b" "py_lower (CHR ''-'' # ?b) = CHR ''-'' # ?b"
    using low [OF i(1)] low [OF f(1)] by (simp_all add: py_lower_def)
  have word: "?b \<noteq> ''inf'' \<and> ?b \<noteq> ''infinity'' \<and> ?b \<noteq> ''nan''"
    using c is_digit_facts(7,8) [OF c(2)] by auto
  have sign: "take_sign ?b = (1, ?b)" "take_sign (CHR ''-'' # ?b) = (- 1, ?b)"
    using take_sign_digit [OF c(2)] c(1) by (simp_all add: take_sign_def)
  show "py_float ?b = map_option Fin (parse_decimal ?b)"
    using word by (simp add: py_float_def strip lower sign)
  show "py_float (CHR ''-'' # ?b) = map_option (Fin \<circ> uminus) (parse_decimal ?b)"
    using word by (simp add: py_float_def strip lower sign comp_def)
qed

theorem py_float_repr:
  assumes "is_decimal k \<bar>q\<bar>" "1 \<le> k" "k \<le> 20"
  shows "py_float (repr_float (Fin q)) = Some (Fin q)"
proof -
  define d where "d = frac_digits \<bar>q\<bar>"
  define n where "n = nat \<lfloor>\<bar>q\<bar> * 10 ^ d\<rfloor>"
  have d0: "0 < d"
    by (auto simp: d_def frac_digits_def split: option.splits dest!: find_SomeD)
  have "is_decimal d \<bar>q\<bar>" unfolding d_def by (rule frac_digits_exact [OF assms])
  moreover have "0 \<le> \<lfloor>\<bar>q\<bar> * 10 ^ d\<rfloor>" by simp
  ultimately have n: "of_nat n = \<bar>q\<bar> * 10 ^ d"
    unfolding n_def is_decimal_def by (metis of_int_of_nat_eq int_nat_eq)
  have mod: "n mod 10 ^ d < 10 ^ d" by simp
  let ?i = "show_nat (n div 10 ^ d)" and ?f = "show_padded d (n mod 10 ^ d)"
  have i: "list_all is_digit ?i" "?i \<noteq> []" "nat_of_digits ?i = n div 10 ^ d"
    using show_nat_digits by blast+
  have f: "list_all is_digit ?f" "length ?f = d" "nat_of_digits ?f = n mod 10 ^ d"
    using show_padded_digits [OF mod] by blast+
  have f0: "?f \<noteq> []" using f(2) d0 by (metis length_0_conv less_not_refl)
  have "nat_of_digits ?i * 10 ^ length ?f + nat_of_digits ?f = n"
    unfolding i f by (rule div_mult_mod_eq)
  with parse_decimal_digits [OF i(1,2) f(1)] have "parse_decimal (?i @ CHR ''.'' # ?f) = Some (of_nat n / 10 ^ d)"
    by (simp only: f(2))
  then have p: "parse_decimal (?i @ CHR ''.'' # ?f) = Some \<bar>q\<bar>" by (simp add: n)
  have r: "repr_float (Fin q) = (if q < 0 then ''-'' else []) @ ?i @ CHR ''.'' # ?f"
    by (simp add: Let_def d_def n_def)
  show ?thesis
    unfolding r using p py_float_body [OF i(1,2) f(1) f0] by (cases "q < 0") auto
qed

lemma py_float_special: "py_float (repr_float PosInf) = Some PosInf" "py_float (repr_float NegInf) = Some NegInf"
  "py_float (repr_float NaN) = Some NaN"
  by code_simp+

text \<open>The floats that survive the trip through text.\<close>

definition printable :: "pyfloat \<Rightarrow> bool" where
  "printable x \<longleftrightarrow> (case x of Fin q \<Rightarrow> list_ex (\<lambda>k. is_decimal k \<bar>q\<bar>) [1..<21] | _ \<Rightarrow> True)"

lemma py_float_printable: "printable x \<Longrightarrow> py_float (repr_float x) = Some x"
  using py_float_repr py_float_special
  by (cases x) (auto simp: printable_def list_ex_iff simp del: repr_float.simps)

end
