(* ===== verification/Lease_Guarantees.thy ===== *)
theory Lease_Guarantees
  imports Lease_Registry_Facts Float_Text
begin

text \<open>
  What \<open>control/lease_registry.py\<close> guarantees to one caller at a time, over any client that
  behaves as a Redis server (\<open>redis_server\<close>): the cap holds after every grant, a refusal
  writes nothing, the stored leases stay readable and indexed, a release or a sweep removes
  exactly what it says, and the reads report the live total. \<open>Lease_Concurrency\<close> proves the
  cap for any interleaving of callers. The witnesses run the operations on the reference server.
\<close>

section \<open>A sample store\<close>

definition sample_cfg :: reg_cfg where
  "sample_cfg = \<lparr>reg_ns = ''leases'', reg_max_retries = 3\<rparr>"

definition empty_world :: ref_world where
  "empty_world = \<lparr>rw_hashes = [], rw_strings = [], rw_clock = 0, rw_tick = 1, rw_script = []\<rparr>"

definition sample_scope :: lease_scope where
  "sample_scope = \<lparr>scope_kind = RUN, scope_name = ''r''\<rparr>"

definition sample_lease :: lease where
  "sample_lease =
     \<lparr>lease_id = ''bud_x'', lease_kind = BUDGET, lease_scope = sample_scope,
      lease_provider_class = PER_TOKEN, lease_amount = Fin 2, lease_unit = UNIT_USD,
      lease_hard_cap = Fin 5, lease_expires_at = Fin 61, lease_granted_at = Fin 1,
      lease_run_id = ''run-1'', lease_cost_source = Some METERED, lease_metadata = []\<rparr>"

definition sample_world :: ref_world where
  "sample_world =
     \<lparr>rw_hashes = [(''leases:budget:run:r'', [(''bud_x'', Doc (PDict (lease_to_dict sample_lease)))]),
                   (''leases:index'', [(''bud_x'', Text ''leases:budget:run:r'')])],
      rw_strings = [], rw_clock = 2, rw_tick = 1, rw_script = []\<rparr>"

definition sample_slot :: lease where
  "sample_slot =
     \<lparr>lease_id = ''con_x'', lease_kind = CONCURRENCY, lease_scope = sample_scope,
      lease_provider_class = SUBSCRIPTION, lease_amount = Fin 1, lease_unit = UNIT_SLOTS,
      lease_hard_cap = Fin 1, lease_expires_at = Fin 61, lease_granted_at = Fin 1,
      lease_run_id = ''run-1'', lease_cost_source = None, lease_metadata = []\<rparr>"

definition slot_world :: ref_world where
  "slot_world =
     \<lparr>rw_hashes = [(''leases:concurrency:run:r'', [(''con_x'', Doc (PDict (lease_to_dict sample_slot)))]),
                   (''leases:index'', [(''con_x'', Text ''leases:concurrency:run:r'')])],
      rw_strings = [], rw_clock = 2, rw_tick = 1, rw_script = []\<rparr>"

lemma sample_grant:
  "reserve_budget ref_client sample_cfg PER_TOKEN sample_scope (PInt 2) ''run-1'' (Some METERED)
     (PInt 5) 60 [] empty_world = (Inr sample_lease, sample_world)"
  by code_simp

lemma sample_slot_grant:
  "reserve_concurrency ref_client sample_cfg sample_scope (PInt 1) ''run-1'' (PInt 1) 60 [] empty_world
     = (Inr sample_slot, slot_world)"
  by code_simp

lemma reg_inv_empty: "reg_inv cfg (\<lambda>k i. None)"
  by (simp add: reg_inv_def hash_ok_def)

lemma empty_world_inv: "reg_inv cfg (ref_hashes empty_world)"
proof -
  have "ref_hashes empty_world = (\<lambda>k i. None)"
    by (simp add: ref_hashes_def rw_hash_def empty_world_def fun_eq_iff)
  then show ?thesis by (simp add: reg_inv_empty)
qed

lemma sample_scope_ok: "scope_ok sample_scope"
  by code_simp

lemma sample_world_inv: "reg_inv sample_cfg (ref_hashes sample_world)"
  using ref.granted_inv ref.reserve_budget_grant [OF sample_grant sample_scope_ok] empty_world_inv by blast

section \<open>Grants\<close>

lemma granted_lease:
  assumes "granted hs cl cfg k sc w l w' q"
  shows "\<exists>now i. l = grant_lease q now i \<and> cl w \<le> now \<and> now \<le> cl w'"
proof -
  from assms obtain t now where "cl w \<le> t" "t \<le> now" "now \<le> cl w'"
    "grant_step cfg q (hs w (scope_key cfg k sc)) t now (hs w) l (hs w')" unfolding granted_def by blast
  moreover from this(4) obtain i where "l = grant_lease q now i" unfolding grant_step_def by blast
  ultimately show ?thesis by (intro exI [of _ now] exI [of _ i]) auto
qed

lemma granted_held:
  assumes "granted hs cl cfg k sc w l w' q" and inv: "reg_inv cfg (hs w)"
  shows "held cfg (hs w) (lease_id l) = None \<and> held cfg (hs w') (lease_id l) = Some l
    \<and> (\<forall>i x. i \<noteq> lease_id l \<longrightarrow> held cfg (hs w) i = Some x \<longrightarrow> \<not> is_expired x (cl w') \<longrightarrow> held cfg (hs w') i = Some x)
    \<and> (\<forall>i x. i \<noteq> lease_id l \<longrightarrow> held cfg (hs w') i = Some x \<longrightarrow> held cfg (hs w) i = Some x)"
proof -
  from assms(1) obtain t now where q: "rq_ok q" "rq_kind q = k" "rq_scope q = sc" and t: "t \<le> now" "now \<le> cl w'"
    and g: "grant_step cfg q (hs w (scope_key cfg k sc)) t now (hs w) l (hs w')"
    unfolding granted_def by blast
  note H = grant_step_held [where h = "hs w" and q = q, OF inv q(1), of t now l "hs w'"]
  have "t \<le> cl w'" using t by simp
  with H g q(2,3) is_expired_later show ?thesis by fastforce
qed



text \<open>A concurrency lease is granted only when its slots fit: from the commit on, the live slots
  of the scope never exceed the slot cap of the grant (plus the comparison slack).\<close>

theorem concurrency_grant_within_cap:
  assumes "redis_server C hs ss cl" and "reg_inv cfg (hs w)" and "scope_ok sc"
    and "reserve_concurrency C cfg sc n run cap ttl md w = (Inr l, w')" and "cl w' \<le> u"
  shows "\<exists>c. lease_hard_cap l = Fin c \<and> live_sum u (hs w' (scope_key cfg CONCURRENCY sc)) \<le> c + EPSILON"
proof -
  obtain q where g: "granted hs cl cfg CONCURRENCY sc w l w' q"
    using redis_server.reserve_concurrency_grant [OF assms(1,4,3)] by blast
  show ?thesis
    using granted_lease [OF g] redis_server.granted_cap [OF assms(1) g assms(2,5)] by auto
qed

theorem concurrency_grant_within_cap_witness:
  "\<exists>c. lease_hard_cap sample_slot = Fin c
     \<and> live_sum 10 (ref_hashes slot_world (scope_key sample_cfg CONCURRENCY sample_scope)) \<le> c + EPSILON"
  by (rule concurrency_grant_within_cap
      [OF ref.redis_server_axioms empty_world_inv sample_scope_ok sample_slot_grant])
    (simp add: slot_world_def)

text \<open>A refused reservation writes nothing: whatever the error (denial, missing field, Redis
  failure, exhausted retries), the stored hashes and caps are those before the call.\<close>

theorem refusal_writes_nothing:
  assumes "redis_server C hs ss cl"
  shows "(reserve_budget C cfg pc sc amount run cs cap ttl md w = (Inl e, w') \<longrightarrow> hs w' = hs w \<and> ss w' = ss w)
    \<and> (reserve_concurrency C cfg sc n run cap ttl md w = (Inl e, w') \<longrightarrow> hs w' = hs w \<and> ss w' = ss w)"
  by (auto simp: same_db_def dest: redis_server.reserve_budget_frame [OF assms]
      redis_server.reserve_concurrency_frame [OF assms])

lemma sample_denied:
  "reserve_budget ref_client sample_cfg PER_TOKEN sample_scope (PInt 4) ''run-2'' (Some METERED)
     (PInt 5) 60 [] sample_world = (Inl (LeaseDenied CapExceeded), sample_world\<lparr>rw_clock := 4\<rparr>)"
  by code_simp

theorem refusal_writes_nothing_witness:
  "ref_hashes (sample_world\<lparr>rw_clock := 4\<rparr>) = ref_hashes sample_world"
  using refusal_writes_nothing [OF ref.redis_server_axioms] sample_denied by blast

text \<open>A grant is one new lease: its id was not in use, it is held afterwards with the owner, scope,
  kind and time to live that were asked for, no lease still alive is lost, and nothing else appears.\<close>

theorem budget_grant_adds_one_lease:
  assumes "redis_server C hs ss cl" and "reg_inv cfg (hs w)" and "scope_ok sc"
    and "reserve_budget C cfg pc sc amount run cs cap ttl md w = (Inr l, w')"
  shows "held cfg (hs w) (lease_id l) = None \<and> held cfg (hs w') (lease_id l) = Some l
    \<and> (\<forall>i x. i \<noteq> lease_id l \<longrightarrow> held cfg (hs w) i = Some x \<longrightarrow> \<not> is_expired x (cl w') \<longrightarrow> held cfg (hs w') i = Some x)
    \<and> (\<forall>i x. i \<noteq> lease_id l \<longrightarrow> held cfg (hs w') i = Some x \<longrightarrow> held cfg (hs w) i = Some x)
    \<and> lease_kind l = BUDGET \<and> lease_scope l = sc \<and> lease_run_id l = run \<and> lease_provider_class l = pc
    \<and> (\<exists>now. cl w \<le> now \<and> now \<le> cl w' \<and> lease_granted_at l = Fin now
         \<and> lease_expires_at l = Fin (now + of_int ttl) \<and> 0 < ttl)"
proof -
  obtain q where g: "granted hs cl cfg BUDGET sc w l w' q"
    and q: "rq_run_id q = run" "rq_class q = pc" "rq_ttl q = ttl"
    using redis_server.reserve_budget_grant [OF assms(1,4,3)] by blast
  have k: "rq_kind q = BUDGET" "rq_scope q = sc" "0 < rq_ttl q" using g by (auto simp: granted_def)
  obtain now i where l: "l = grant_lease q now i" "cl w \<le> now" "now \<le> cl w'"
    using granted_lease [OF g] by blast
  then have "lease_kind l = BUDGET \<and> lease_scope l = sc \<and> lease_run_id l = run \<and> lease_provider_class l = pc
    \<and> (\<exists>now. cl w \<le> now \<and> now \<le> cl w' \<and> lease_granted_at l = Fin now
         \<and> lease_expires_at l = Fin (now + of_int ttl) \<and> 0 < ttl)"
    using q k by auto
  with granted_held [OF g assms(2)] show ?thesis by blast
qed

theorem budget_grant_adds_one_lease_witness:
  "held sample_cfg (ref_hashes empty_world) ''bud_x'' = None
     \<and> held sample_cfg (ref_hashes sample_world) ''bud_x'' = Some sample_lease"
  using budget_grant_adds_one_lease [OF ref.redis_server_axioms empty_world_inv sample_scope_ok sample_grant]
  by (simp add: sample_lease_def)

text \<open>The provider-class boundary: a per-token lease is granted only with a stated cost source that
  is not UNKNOWN, and a subscription lease only with an amount and a cap of at most 100 percent.\<close>

theorem budget_class_boundary:
  assumes "redis_server C hs ss cl" and "scope_ok sc"
    and "reserve_budget C cfg pc sc amount run cs cap ttl md w = (Inr l, w')"
  shows "(pc = PER_TOKEN \<longrightarrow> lease_unit l = UNIT_USD \<and> (\<exists>c. lease_cost_source l = Some c \<and> c \<noteq> UNKNOWN))
    \<and> (pc = SUBSCRIPTION \<longrightarrow> lease_unit l = UNIT_WINDOW_PERCENT \<and> \<not> flt WINDOW_PERCENT_MAX (lease_amount l)
         \<and> \<not> flt WINDOW_PERCENT_MAX (lease_hard_cap l))"
proof -
  obtain q where g: "granted hs cl cfg BUDGET sc w l w' q" and u: "rq_unit q = BUDGET_UNIT_BY_CLASS pc"
    and q: "rq_cost_source q = cs" "class_boundary pc (rq_amount q) (rq_cap q) cs = Inr ()"
    using redis_server.reserve_budget_grant [OF assms(1,3,2)] by blast
  from granted_lease [OF g] obtain now i where "l = grant_lease q now i" by blast
  with q u show ?thesis
    by (auto simp: class_boundary_def split: provider_class.splits option.splits if_splits)
qed

theorem budget_class_boundary_witness:
  "lease_unit sample_lease = UNIT_USD \<and> (\<exists>c. lease_cost_source sample_lease = Some c \<and> c \<noteq> UNKNOWN)"
  using budget_class_boundary [OF ref.redis_server_axioms sample_scope_ok sample_grant] by blast

section \<open>Release, sweep and reads\<close>

text \<open>\<open>release\<close> forgets exactly the lease it names and returns it: on success the answer is the lease
  that was held under the id (\<open>None\<close> when there was none), every other lease is held as before and the
  store stays consistent; on an error nothing is changed.\<close>

theorem release_forgets_one:
  assumes "redis_server C hs ss cl" and "reg_inv cfg (hs w)" and "release C cfg lid w = (r, w')"
  shows "ss w' = ss w \<and> reg_inv cfg (hs w')
    \<and> (case r of Inl e \<Rightarrow> hs w' = hs w
       | Inr x \<Rightarrow> x = held cfg (hs w) lid
           \<and> (\<forall>i. held cfg (hs w') i = (if i = lid then None else held cfg (hs w) i)))"
  using redis_server.release_cases [OF assms(1,3,2)] assms(2)
  by (auto simp: same_db_def forgets_def)

lemma sample_release:
  "release ref_client sample_cfg ''bud_x'' sample_world =
     (Inr (Some sample_lease), sample_world\<lparr>rw_hashes := [(''leases:budget:run:r'', []), (''leases:index'', [])]\<rparr>)"
  by code_simp

theorem release_forgets_one_witness:
  "held sample_cfg (ref_hashes sample_world) ''bud_x'' = Some sample_lease
    \<and> held sample_cfg (ref_hashes (sample_world\<lparr>rw_hashes := [(''leases:budget:run:r'', []), (''leases:index'', [])]\<rparr>)) ''bud_x'' = None"
  using release_forgets_one [OF ref.redis_server_axioms sample_world_inv sample_release] by simp

text \<open>The sweep over the whole index removes expired leases only, and all of them: what it returns
  was held and had expired when the sweep ended, every lease that had expired when it began is
  returned and no longer held, and every other lease is held as before.\<close>

theorem sweep_removes_expired:
  assumes "redis_server C hs ss cl" and "reg_inv cfg (hs w)" and "expire_leases C cfg None w = (Inr ls, w')"
  shows "reg_inv cfg (hs w')
    \<and> (\<forall>l \<in> set ls. held cfg (hs w) (lease_id l) = Some l \<and> is_expired l (cl w') \<and> held cfg (hs w') (lease_id l) = None)
    \<and> (\<forall>i l. held cfg (hs w) i = Some l \<longrightarrow> is_expired l (cl w) \<longrightarrow> l \<in> set ls)
    \<and> (\<forall>i. i \<notin> lease_id ` set ls \<longrightarrow> held cfg (hs w') i = held cfg (hs w) i)"
  using redis_server.expire_leases_cases [OF assms(1,3,2)] by (auto simp: forgets_def)

definition late_world :: ref_world where
  "late_world = sample_world\<lparr>rw_clock := 100\<rparr>"

lemma sample_sweep:
  "expire_leases ref_client sample_cfg None late_world =
     (Inr [sample_lease], late_world\<lparr>rw_clock := 101, rw_hashes := [(''leases:budget:run:r'', []), (''leases:index'', [])]\<rparr>)"
  by code_simp

lemma late_world_inv: "reg_inv sample_cfg (ref_hashes late_world)"
proof -
  have "ref_hashes late_world = ref_hashes sample_world"
    by (simp add: ref_hashes_def rw_hash_def late_world_def fun_eq_iff)
  then show ?thesis using sample_world_inv by simp
qed

theorem sweep_removes_expired_witness:
  "held sample_cfg (ref_hashes late_world) ''bud_x'' = Some sample_lease
    \<and> held sample_cfg (ref_hashes (late_world\<lparr>rw_clock := 101, rw_hashes := [(''leases:budget:run:r'', []), (''leases:index'', [])]\<rparr>)) ''bud_x'' = None"
  using sweep_removes_expired [OF ref.redis_server_axioms late_world_inv sample_sweep]
  by (simp add: sample_lease_def)

text \<open>\<open>outstanding\<close> reports the exact total of the leases alive at an instant of the call, and
  \<open>headroom\<close> the hard cap less that total, never below zero; neither changes the store.\<close>

theorem headroom_exact:
  assumes "redis_server C hs ss cl" and "reg_inv cfg (hs w)" and "scope_ok sc"
    and "headroom C cfg k sc cap w = (Inr h, w')"
  shows "hs w' = hs w \<and> ss w' = ss w
    \<and> (\<exists>c t. 0 < c \<and> cl w \<le> t \<and> t \<le> cl w' \<and> h = Fin (max 0 (c - live_sum t (hs w (scope_key cfg k sc)))))"
proof -
  from assms(4) obtain cp v ls where
    cap: "resolve_cap C cfg k sc cap w = (Inr cp, v)" and
    ls: "leases C cfg k sc v = (Inr ls, w')" and
    h: "h = fmax (Fin 0) (fsub cp (fsum (map lease_amount ls)))"
    by (auto simp: headroom_def outstanding_def split: sum.splits prod.splits)
  obtain c where c: "0 < c" "cp = Fin c" using redis_server.resolve_cap_ok [OF assms(1) cap] by blast
  have v: "hs v = hs w" "ss v = ss w" "cl w \<le> cl v"
    using redis_server.resolve_cap_frame [OF assms(1) cap] by (auto simp: same_db_def)
  with assms(2) have "reg_inv cfg (hs v)" by simp
  from redis_server.leases_ok [OF assms(1) ls this assms(3)] obtain t where
    t: "cl v \<le> t" "t \<le> cl w'" "hs w' = hs v" "ss w' = ss v"
    "fsum (map lease_amount ls) = Fin (live_sum t (hs v (scope_key cfg k sc)))" by (auto simp: same_db_def)
  have "h = Fin (max 0 (c - live_sum t (hs w (scope_key cfg k sc))))"
    unfolding h t(5) c(2) v(1) by (simp add: fmax_def max_def)
  moreover have "cl w \<le> t" using v(3) t(1) by simp
  ultimately show ?thesis using c(1) t(2-4) v(1,2) by auto
qed

lemma sample_headroom:
  "headroom ref_client sample_cfg BUDGET sample_scope (PInt 5) sample_world =
     (Inr (Fin 3), sample_world\<lparr>rw_clock := 3\<rparr>)"
  by code_simp

theorem headroom_exact_witness:
  "\<exists>c t. 0 < c \<and> 2 \<le> t \<and> t \<le> 3
     \<and> Fin 3 = Fin (max 0 (c - live_sum t (ref_hashes sample_world (scope_key sample_cfg BUDGET sample_scope))))"
  using headroom_exact [OF ref.redis_server_axioms sample_world_inv sample_scope_ok sample_headroom]
  by (simp add: sample_world_def)

section \<open>Caps and keys\<close>

text \<open>A cap that was set is the cap that is read back, digit for digit, and setting it touches no
  lease and no other cap; the next reading can only fail because Redis does.\<close>

theorem cap_roundtrip:
  assumes "redis_server C hs ss cl" and "set_cap C cfg k sc v w = (Inr x, w1)" and "printable x"
    and "get_cap C cfg k sc w1 = (r, w2)"
  shows "(r = Inr (Some x) \<or> r = Inl LeaseUnavailable)
    \<and> hs w1 = hs w \<and> (\<forall>key. key \<noteq> cap_key cfg k sc \<longrightarrow> ss w1 key = ss w key)"
proof -
  from assms(2) obtain u where s: "c_set C (cap_key cfg k sc) (Text (repr_float x)) w = (Inr u, w1)"
    by (auto simp: set_cap_def split: sum.splits prod.splits)
  have w1: "hs w1 = hs w" "ss w1 = (ss w)(cap_key cfg k sc \<mapsto> Text (repr_float x))"
    using redis_server.set_frame [OF assms(1) s] redis_server.set_value [OF assms(1) s] by auto
  obtain q w' where g: "c_get C (cap_key cfg k sc) w1 = (q, w')" by fastforce
  have "r = Inr (Some x) \<or> r = Inl LeaseUnavailable"
  proof (cases q)
    case (Inl e)
    with assms(4) g show ?thesis by (simp add: get_cap_def)
  next
    case (Inr y)
    with redis_server.get_value [OF assms(1), of _ _ y] g w1(2) have "y = Some (Text (repr_float x))" by fastforce
    with assms(4) g Inr py_float_printable [OF assms(3)] show ?thesis
      by (simp add: get_cap_def del: repr_float.simps)
  qed
  with w1 show ?thesis by simp
qed

lemma sample_set_cap:
  "set_cap ref_client sample_cfg BUDGET sample_scope (PFloat (Fin (5 / 2))) empty_world =
     (Inr (Fin (5 / 2)), empty_world\<lparr>rw_strings := [(''leases:cap:budget:run:r'', Text ''2.5'')]\<rparr>)"
  "get_cap ref_client sample_cfg BUDGET sample_scope (empty_world\<lparr>rw_strings := [(''leases:cap:budget:run:r'', Text ''2.5'')]\<rparr>)
     = (Inr (Some (Fin (5 / 2))), empty_world\<lparr>rw_strings := [(''leases:cap:budget:run:r'', Text ''2.5'')]\<rparr>)"
  by code_simp+

theorem cap_roundtrip_witness:
  "ref_hashes (empty_world\<lparr>rw_strings := [(''leases:cap:budget:run:r'', Text ''2.5'')]\<rparr>) = ref_hashes empty_world"
proof -
  have "printable (Fin (5 / 2))" by code_simp
  from cap_roundtrip [OF ref.redis_server_axioms sample_set_cap(1) this sample_set_cap(2)] show ?thesis by blast
qed

text \<open>A scope without a cap admits nothing: with no explicit cap and none stored, no reservation is
  granted, whatever is asked.\<close>

theorem uncapped_scope_admits_nothing:
  assumes "redis_server C hs ss cl"
    and "ss w (cap_key cfg BUDGET sc) = None" and "ss w (cap_key cfg CONCURRENCY sc) = None"
  shows "\<not> is_ok (fst (reserve_budget C cfg pc sc amount run cs PNone ttl md w))
    \<and> \<not> is_ok (fst (reserve_concurrency C cfg sc n run PNone ttl md w))"
proof -
  have no: "\<exists>e w'. resolve_cap C cfg k sc PNone w = (Inl e, w')" if "ss w (cap_key cfg k sc) = None" for k
    using that redis_server.get_value [OF assms(1)]
    by (fastforce simp: resolve_cap_def get_cap_def split: sum.splits option.splits prod.splits)
  from no [OF assms(2)] no [OF assms(3)] show ?thesis
    by (auto simp: reserve_budget_def reserve_concurrency_def split: sum.splits pyval.splits)
qed

theorem uncapped_scope_admits_nothing_witness:
  "\<not> is_ok (fst (reserve_budget ref_client sample_cfg PER_TOKEN sample_scope (PInt 1) ''run-1''
     (Some METERED) PNone 60 [] empty_world))"
  using uncapped_scope_admits_nothing [OF ref.redis_server_axioms, of empty_world]
  by (simp add: ref_strings_def empty_world_def)

lemma watch_always_fails:
  "\<forall>ks w. \<exists>w'. c_watch C ks w = (Inl WatchError, w') \<Longrightarrow>
     \<exists>w'. retry_loop n (reserve_attempt C cfg q) w = (Inl (LeaseDenied Contention), w')"
  "\<forall>ks w. \<exists>w'. c_watch C ks w = (Inl WatchError, w') \<Longrightarrow>
     \<exists>w'. retry_loop n (release_attempt C cfg lid) w = (Inl (LeaseDenied Contention), w')"
proof -
  assume a: "\<forall>ks w. \<exists>w'. c_watch C ks w = (Inl WatchError, w')"
  have step: "\<exists>w'. reserve_attempt C cfg q w = (Retry, w')" "\<exists>w'. release_attempt C cfg lid w = (Retry, w')" for w
  proof -
    obtain v where "c_watch C [scope_key cfg (rq_kind q) (rq_scope q), index_key cfg] w = (Inl WatchError, v)"
      using a by blast
    then show "\<exists>w'. reserve_attempt C cfg q w = (Retry, w')" by (simp add: reserve_attempt_def)
  next
    obtain v where "c_watch C [index_key cfg] w = (Inl WatchError, v)" using a by blast
    then show "\<exists>w'. release_attempt C cfg lid w = (Retry, w')" by (simp add: release_attempt_def)
  qed
  show "\<exists>w'. retry_loop n (reserve_attempt C cfg q) w = (Inl (LeaseDenied Contention), w')"
  proof (induction n arbitrary: w)
    case (Suc n)
    from step(1) [of w] Suc show ?case by auto
  qed simp
  show "\<exists>w'. retry_loop n (release_attempt C cfg lid) w = (Inl (LeaseDenied Contention), w')"
  proof (induction n arbitrary: w)
    case (Suc n)
    from step(2) [of w] Suc show ?case by auto
  qed simp
qed

text \<open>Contention ends in a refusal: if every \<open>WATCH\<close> raises a WatchError, a reservation that passes
  the checks in front of the loop is denied for contention after its bounded number of attempts, and so is a
  release.\<close>

theorem contention_is_refused:
  assumes "\<forall>ks w. \<exists>w'. c_watch C ks w = (Inl WatchError, w')"
    and "py_strip (rq_run_id q) \<noteq> []" and "0 < rq_ttl q" and "py_strip lid \<noteq> []"
  shows "fst (reserve C cfg q w) = Inl (LeaseDenied Contention)
    \<and> fst (release C cfg lid w) = Inl (LeaseDenied Contention)"
  using watch_always_fails [OF assms(1), of "reg_max_retries cfg"] assms(2-4)
  by (auto simp: reserve_def release_def) (metis fst_conv)+

definition busy_client :: "ref_world client" where
  "busy_client = ref_client\<lparr>c_watch := (\<lambda>ks w. (Inl WatchError, w))\<rparr>"

theorem contention_is_refused_witness:
  "fst (release busy_client sample_cfg ''bud_x'' sample_world) = Inl (LeaseDenied Contention)"
proof -
  have "py_strip ''bud_x'' \<noteq> []" "py_strip ''run-1'' \<noteq> []" by code_simp+
  with contention_is_refused [of busy_client
      "\<lparr>rq_kind = BUDGET, rq_scope = sample_scope, rq_class = PER_TOKEN, rq_amount = Fin 1, rq_unit = UNIT_USD,
        rq_cap = Fin 1, rq_run_id = ''run-1'', rq_cost_source = None, rq_ttl = 1, rq_metadata = []\<rparr>" "''bud_x''"]
  show ?thesis by (simp add: busy_client_def)
qed

text \<open>The Redis keys never collide: scope keys and cap keys are injective in the kind and the scope,
  and no scope key, cap key or index key of one registry is another of them.\<close>

theorem keys_never_collide:
  "(scope_key cfg k sc = scope_key cfg k' sc' \<longleftrightarrow> k = k' \<and> sc = sc')
   \<and> (cap_key cfg k sc = cap_key cfg k' sc' \<longleftrightarrow> k = k' \<and> sc = sc')
   \<and> scope_key cfg k sc \<noteq> cap_key cfg k' sc' \<and> scope_key cfg k sc \<noteq> index_key cfg \<and> cap_key cfg k sc \<noteq> index_key cfg"
  by (cases k; cases k'; auto simp: scope_key_def cap_key_def index_key_def scope_token_inj)

text \<open>The stored form of a lease reads back as the lease that was granted, exactly when its scope
  name is one that \<open>LeaseScope\<close> accepts; a stored document that reads as a lease has an acceptable scope.\<close>

theorem lease_roundtrip:
  "(lease_from_dict (lease_to_dict l) = Inr l \<longleftrightarrow> scope_ok (lease_scope l))
   \<and> (lease_from_dict d = Inr l' \<longrightarrow> scope_ok (lease_scope l'))"
  using lease_parse_stored lease_from_dict_sound by blast

theorem lease_roundtrip_witness:
  "scope_ok (lease_scope sample_lease)"
proof -
  have "lease_from_dict (lease_to_dict sample_lease) = Inr sample_lease" by code_simp
  then show ?thesis using lease_roundtrip by blast
qed

end
