(* ===== verification/Lease_Concurrency.thy ===== *)
theory Lease_Concurrency
  imports Lease_Guarantees
begin

text \<open>
  Several processes share one registry. A state of the database has the hashes, the time and
  the deadlines of the keys; a step of the system is the committed transaction of one caller
  (a grant, a release, a sweep), the passing of time, or Redis dropping a key past its deadline.
  The grant rule is what a successful \<open>EXEC\<close> of \<open>_reserve\<close> does; the locale \<open>redis_shared\<close> states
  the optimistic lock of Redis (\<open>WATCH\<close>/\<open>EXEC\<close>), and its lemmas show that every call of the
  registry, with any number of steps of other callers between its own Redis calls, is a
  sequence of steps of this system. The main theorem: in every reachable state, the leases
  that were granted and neither released nor expired stay within the cap of their scope. It needs
  the time to live of a lease not to exceed that of its key, which the code does not enforce;
  a run that breaks the cap shows that the bound is needed.
\<close>

section \<open>The shared database\<close>

record db =
  db_hashes :: hashes
  db_clock :: rat
  db_deadline :: "string \<Rightarrow> rat option"

text \<open>A key gets its deadline from \<open>EXPIRE\<close>, relative to the time of the transaction.\<close>

fun deadlines :: "cmd list \<Rightarrow> rat \<Rightarrow> (string \<Rightarrow> rat option) \<Rightarrow> string \<Rightarrow> rat option" where
  "deadlines [] now dl = dl"
| "deadlines (Expire k t # cs) now dl = deadlines cs now (dl(k \<mapsto> now + of_int t))"
| "deadlines (HSet k f v # cs) now dl = deadlines cs now dl"
| "deadlines (HDel k fs # cs) now dl = deadlines cs now dl"

definition exec_db :: "cmd list \<Rightarrow> db \<Rightarrow> db" where
  "exec_db cs d = d\<lparr>db_hashes := apply_cmds cs (db_hashes d),
                    db_deadline := deadlines cs (db_clock d) (db_deadline d)\<rparr>"

datatype event = Granted lease | Released string | Quiet

inductive reg_step ::
    "reg_cfg \<Rightarrow> (lease_kind \<Rightarrow> lease_scope \<Rightarrow> rat) \<Rightarrow> int \<Rightarrow> db \<Rightarrow> event \<Rightarrow> db \<Rightarrow> bool"
  for cfg :: reg_cfg and cap :: "lease_kind \<Rightarrow> lease_scope \<Rightarrow> rat" and max_ttl :: int where
  tick: "0 \<le> x \<Longrightarrow> reg_step cfg cap max_ttl d Quiet (d\<lparr>db_clock := db_clock d + x\<rparr>)"
| evict: "db_deadline d k = Some x \<Longrightarrow> x \<le> db_clock d \<Longrightarrow>
    reg_step cfg cap max_ttl d Quiet
      (d\<lparr>db_hashes := (db_hashes d)(k := (\<lambda>f. None)), db_deadline := (db_deadline d)(k := None)\<rparr>)"
| grant: "rq_ok q \<Longrightarrow> rq_cap q = Fin (cap (rq_kind q) (rq_scope q)) \<Longrightarrow> 0 < rq_ttl q \<Longrightarrow> rq_ttl q \<le> max_ttl \<Longrightarrow>
    map_of raw = db_hashes d (rq_key cfg q) \<Longrightarrow> distinct (map fst raw) \<Longrightarrow>
    partition_at t raw = Inr (live, expired) \<Longrightarrow> \<not> over_cap q live \<Longrightarrow> t \<le> now \<Longrightarrow> now \<le> db_clock d \<Longrightarrow>
    \<forall>k p. db_hashes d k (p @ i) = None \<Longrightarrow> l = grant_lease q now i \<Longrightarrow>
    reg_step cfg cap max_ttl d (Granted l) (exec_db (grant_cmds (rq_key cfg q) (index_key cfg) expired l) d)"
| release: "db_hashes d (index_key cfg) lid = Some v \<Longrightarrow>
    reg_step cfg cap max_ttl d (Released lid)
      (exec_db [HDel (decode_text v) [lid], HDel (index_key cfg) [lid]] d)"
| sweep: "map_of raw = db_hashes d sk \<Longrightarrow> distinct (map fst raw) \<Longrightarrow>
    partition_at t raw = Inr (live, expired) \<Longrightarrow> t \<le> db_clock d \<Longrightarrow>
    reg_step cfg cap max_ttl d Quiet (exec_db (prune_cmds sk (index_key cfg) expired) d)"

text \<open>The leases that callers hold: granted and not given back, whatever Redis still stores.\<close>

fun note_event :: "event \<Rightarrow> (string \<Rightarrow> lease option) \<Rightarrow> string \<Rightarrow> lease option" where
  "note_event (Granted l) out = out(lease_id l \<mapsto> l)"
| "note_event (Released i) out = out(i := None)"
| "note_event Quiet out = out"

inductive reachable ::
    "reg_cfg \<Rightarrow> (lease_kind \<Rightarrow> lease_scope \<Rightarrow> rat) \<Rightarrow> int \<Rightarrow> db \<Rightarrow> (string \<Rightarrow> lease option) \<Rightarrow> bool"
  for cfg :: reg_cfg and cap :: "lease_kind \<Rightarrow> lease_scope \<Rightarrow> rat" and max_ttl :: int where
  start: "reachable cfg cap max_ttl \<lparr>db_hashes = (\<lambda>k f. None), db_clock = 0, db_deadline = (\<lambda>k. None)\<rparr> (\<lambda>i. None)"
| step: "reachable cfg cap max_ttl d out \<Longrightarrow> reg_step cfg cap max_ttl d e d' \<Longrightarrow>
    reachable cfg cap max_ttl d' (note_event e out)"

text \<open>The ids of one scope that are held and have not expired, and what they claim.\<close>

definition held_live :: "lease_kind \<Rightarrow> lease_scope \<Rightarrow> rat \<Rightarrow> (string \<Rightarrow> lease option) \<Rightarrow> string set" where
  "held_live k sc now out =
     {i. \<exists>l. out i = Some l \<and> lease_kind l = k \<and> lease_scope l = sc \<and> \<not> is_expired l now}"

definition held_sum :: "lease_kind \<Rightarrow> lease_scope \<Rightarrow> rat \<Rightarrow> (string \<Rightarrow> lease option) \<Rightarrow> rat" where
  "held_sum k sc now out = (\<Sum>i \<in> held_live k sc now out. the_fin (lease_amount (the (out i))))"

section \<open>The invariant\<close>

text \<open>
  For every scope: the stored leases are readable and within the cap, none outlives the deadline
  of its key, no deadline is further away than the time to live of a key, and every held lease
  that has not expired is stored.
\<close>

definition scope_inv :: "rat \<Rightarrow> rat \<Rightarrow> rat option \<Rightarrow> (string \<Rightarrow> rval option) \<Rightarrow> bool" where
  "scope_inv c now dl m \<longleftrightarrow>
     hash_ok m \<and> live_sum now m \<le> c + EPSILON
     \<and> (\<forall>x. dl = Some x \<longrightarrow> x \<le> now + of_int KEY_TTL_SECONDS)
     \<and> (\<forall>i l. lease_in m i = Some l \<longrightarrow> (\<exists>x. dl = Some x \<and> fle (lease_expires_at l) (Fin x)))"

definition out_inv :: "reg_cfg \<Rightarrow> db \<Rightarrow> (string \<Rightarrow> lease option) \<Rightarrow> bool" where
  "out_inv cfg d out \<longleftrightarrow>
     (\<forall>i l. out i = Some l \<longrightarrow> \<not> is_expired l (db_clock d) \<longrightarrow>
        scope_ok (lease_scope l) \<and> lease_in (db_hashes d (scope_key cfg (lease_kind l) (lease_scope l))) i = Some l)"

definition sys_inv ::
    "reg_cfg \<Rightarrow> (lease_kind \<Rightarrow> lease_scope \<Rightarrow> rat) \<Rightarrow> db \<Rightarrow> (string \<Rightarrow> lease option) \<Rightarrow> bool" where
  "sys_inv cfg cap d out \<longleftrightarrow> out_inv cfg d out \<and>
     (\<forall>k sc. scope_ok sc \<longrightarrow>
        scope_inv (cap k sc) (db_clock d) (db_deadline d (scope_key cfg k sc)) (db_hashes d (scope_key cfg k sc)))"

lemma scope_inv_later: "scope_inv c now dl m \<Longrightarrow> now \<le> now' \<Longrightarrow> scope_inv c now' dl m"
  using live_sum_later [of now now' m] by (fastforce simp: scope_inv_def)

lemma scope_inv_sub: "scope_inv c now dl m \<Longrightarrow> m' \<subseteq>\<^sub>m m \<Longrightarrow> hash_ok m' \<Longrightarrow> scope_inv c now dl m'"
  using live_sum_sub [of m' m now] by (fastforce simp: scope_inv_def dest: lease_in_sub)

lemma hash_ok_empty: "hash_ok (\<lambda>f. None)"
  by (simp add: hash_ok_def)

lemma live_sum_empty: "live_sum now (\<lambda>f. None) = 0"
  by (simp add: live_sum_def live_dom_def lease_in_def)

lemma scope_inv_empty: "0 \<le> c \<Longrightarrow> dl = None \<Longrightarrow> scope_inv c now dl (\<lambda>f. None)"
  by (simp add: scope_inv_def hash_ok_empty live_sum_empty lease_in_def EPSILON_def)

lemma deadlines_append: "deadlines (cs @ ds) now dl = deadlines ds now (deadlines cs now dl)"
proof (induction cs arbitrary: dl)
  case (Cons c cs)
  then show ?case by (cases c) (simp_all add: fun_upd_def)
qed simp

lemma deadlines_prune [simp]: "deadlines (prune_cmds sk ik ex) now dl = dl"
  by (simp add: prune_cmds_def)

lemma deadlines_grant [simp]: "deadlines (grant_cmds sk ik ex l) now dl =
    dl(sk \<mapsto> now + of_int KEY_TTL_SECONDS, ik \<mapsto> now + of_int KEY_TTL_SECONDS)"
  by (simp add: grant_cmds_def deadlines_append)

text \<open>Taking fields out of hashes, with the deadlines as they were.\<close>

lemma sys_inv_without:
  assumes inv: "sys_inv cfg cap d out"
    and h': "\<And>k sc. scope_ok sc \<Longrightarrow> \<exists>F. h' (scope_key cfg k sc) = without F (db_hashes d (scope_key cfg k sc))
      \<and> (\<forall>i \<in> F. \<forall>l. out' i = Some l \<longrightarrow> lease_in (db_hashes d (scope_key cfg k sc)) i = Some l \<longrightarrow> is_expired l (db_clock d))"
    and out': "out' \<subseteq>\<^sub>m out"
  shows "sys_inv cfg cap (d\<lparr>db_hashes := h'\<rparr>) out'"
proof -
  have "scope_inv (cap k sc) (db_clock d) (db_deadline d (scope_key cfg k sc)) (h' (scope_key cfg k sc))"
    if sc: "scope_ok sc" for k sc
  proof -
    obtain F where F: "h' (scope_key cfg k sc) = without F (db_hashes d (scope_key cfg k sc))"
      using h' [OF sc] by blast
    have "scope_inv (cap k sc) (db_clock d) (db_deadline d (scope_key cfg k sc)) (db_hashes d (scope_key cfg k sc))"
      using inv sc by (simp add: sys_inv_def)
    then show ?thesis unfolding F
      by (rule scope_inv_sub) (use inv sc in \<open>auto simp: without_sub sys_inv_def scope_inv_def intro: hash_ok_without\<close>)
  qed
  moreover have "lease_in (h' (scope_key cfg (lease_kind l) (lease_scope l))) i = Some l \<and> scope_ok (lease_scope l)"
    if l: "out' i = Some l" "\<not> is_expired l (db_clock d)" for i l
  proof -
    have "out i = Some l" using out' l(1) by (auto simp: map_le_def dom_def)
    with inv l have st: "scope_ok (lease_scope l)"
      "lease_in (db_hashes d (scope_key cfg (lease_kind l) (lease_scope l))) i = Some l"
      by (auto simp: sys_inv_def out_inv_def)
    with h' [OF st(1), of "lease_kind l"] l show ?thesis by auto
  qed
  ultimately show ?thesis by (auto simp: sys_inv_def out_inv_def)
qed


lemma step_tick:
  assumes "sys_inv cfg cap d out" "0 \<le> x" shows "sys_inv cfg cap (d\<lparr>db_clock := db_clock d + x\<rparr>) out"
proof -
  have le: "db_clock d \<le> db_clock d + x" using assms(2) by simp
  show ?thesis
    using assms(1) is_expired_later [OF _ le] scope_inv_later [OF _ le]
    unfolding sys_inv_def out_inv_def by simp blast
qed

lemma step_evict:
  assumes inv: "sys_inv cfg cap d out" and dl: "db_deadline d key = Some x" "x \<le> db_clock d"
    and cap: "\<forall>k sc. 0 \<le> cap k sc"
  shows "sys_inv cfg cap (d\<lparr>db_hashes := (db_hashes d)(key := (\<lambda>f. None)), db_deadline := (db_deadline d)(key := None)\<rparr>) out"
    (is "sys_inv cfg cap ?d out")
proof -
  have old: "scope_inv (cap k sc) (db_clock d) (db_deadline d (scope_key cfg k sc)) (db_hashes d (scope_key cfg k sc))"
    if "scope_ok sc" for k sc using inv that by (simp add: sys_inv_def)
  have "scope_inv (cap k sc) (db_clock ?d) (db_deadline ?d (scope_key cfg k sc)) (db_hashes ?d (scope_key cfg k sc))"
    if sc: "scope_ok sc" for k sc
    using old [OF sc, of k] scope_inv_empty [of "cap k sc" None "db_clock d"] cap by auto
  moreover have "scope_ok (lease_scope l)
      \<and> lease_in (db_hashes ?d (scope_key cfg (lease_kind l) (lease_scope l))) i = Some l"
    if l: "out i = Some l" "\<not> is_expired l (db_clock d)" for i l
  proof -
    let ?sk = "scope_key cfg (lease_kind l) (lease_scope l)"
    from inv l have st: "scope_ok (lease_scope l)" "lease_in (db_hashes d ?sk) i = Some l"
      by (auto simp: sys_inv_def out_inv_def)
    have "?sk \<noteq> key"
    proof
      assume "?sk = key"
      with old [OF st(1), of "lease_kind l"] st(2) dl(1) have "fle (lease_expires_at l) (Fin x)"
        by (auto simp: scope_inv_def)
      then have "is_expired l (db_clock d)" using dl(2) is_expired_later by (auto simp: is_expired_def)
      with l(2) show False by simp
    qed
    with st show ?thesis by simp
  qed
  ultimately show ?thesis by (auto simp: sys_inv_def out_inv_def)
qed

lemma step_drop:
  assumes inv: "sys_inv cfg cap d out" and out': "out' \<subseteq>\<^sub>m out"
    and cs: "deadlines cs (db_clock d) (db_deadline d) = db_deadline d"
      "apply_cmds cs (db_hashes d) = (db_hashes d)(sk := without F (db_hashes d sk), index_key cfg := X)"
    and gone: "\<forall>i \<in> F. \<forall>l. out' i = Some l \<longrightarrow> lease_in (db_hashes d sk) i = Some l \<longrightarrow> is_expired l (db_clock d)"
  shows "sys_inv cfg cap (exec_db cs d) out'"
proof -
  let ?h = "(db_hashes d)(sk := without F (db_hashes d sk), index_key cfg := X)"
  have "\<exists>F. ?h (scope_key cfg k sc) = without F (db_hashes d (scope_key cfg k sc))
      \<and> (\<forall>i \<in> F. \<forall>l. out' i = Some l \<longrightarrow> lease_in (db_hashes d (scope_key cfg k sc)) i = Some l \<longrightarrow> is_expired l (db_clock d))"
    for k sc
  proof (cases "scope_key cfg k sc = sk")
    case True
    with gone show ?thesis by (intro exI [of _ F]) auto
  next
    case False
    then show ?thesis by (intro exI [of _ "{}"]) simp
  qed
  from sys_inv_without [where h' = ?h, OF inv this out'] have "sys_inv cfg cap (d\<lparr>db_hashes := ?h\<rparr>) out'" by simp
  moreover have "exec_db cs d = d\<lparr>db_hashes := ?h\<rparr>" by (simp add: exec_db_def cs)
  ultimately show ?thesis by simp
qed

lemma apply_release: "apply_cmds [HDel sk [i], HDel ik [i]] h =
    h(sk := without {i} (h sk), ik := without {i} (if ik = sk then without {i} (h sk) else h ik))"
  by (auto simp: without_def fun_eq_iff)

lemma apply_prune_any: "\<exists>X. apply_cmds (prune_cmds sk ik ex) h = h(sk := without (fst ` set ex) (h sk), ik := X)"
proof (cases "ex = []")
  case True
  then show ?thesis by (auto simp: prune_cmds_def intro!: exI [of _ "h ik"])
next
  case False
  then show ?thesis
    by (intro exI [of _ "without (fst ` set ex) (if ik = sk then without (fst ` set ex) (h sk) else h ik)"])
      (auto simp: prune_cmds_def without_def fun_eq_iff)
qed

lemma step_release:
  assumes "sys_inv cfg cap d out"
  shows "sys_inv cfg cap (exec_db [HDel sk [lid], HDel (index_key cfg) [lid]] d) (out(lid := None))"
  using assms by (rule step_drop [where F = "{lid}" and sk = sk])
    (auto simp: map_le_def apply_release simp del: apply_cmds.simps)

lemma step_sweep:
  assumes inv: "sys_inv cfg cap d out" and raw: "map_of raw = db_hashes d sk" "distinct (map fst raw)"
    and part: "partition_at t raw = Inr (live, expired)" and t: "t \<le> db_clock d"
  shows "sys_inv cfg cap (exec_db (prune_cmds sk (index_key cfg) expired) d) out"
proof -
  obtain X where X: "apply_cmds (prune_cmds sk (index_key cfg) expired) (db_hashes d)
      = (db_hashes d)(sk := without (fst ` set expired) (db_hashes d sk), index_key cfg := X)"
    using apply_prune_any by blast
  have "is_expired l (db_clock d)" if "i \<in> fst ` set expired" "lease_in (db_hashes d sk) i = Some l" for i l
  proof -
    from that partition_expired [OF part raw(2)] raw(1) have "is_expired l t" by auto
    then show ?thesis using t by (rule is_expired_later)
  qed
  with inv X show ?thesis by (intro step_drop [where F = "fst ` set expired" and sk = sk and X = X]) auto
qed

lemma grant_scope:
  assumes si: "scope_inv c now' dl m" and m: "m = h (rq_key cfg q)"
    and q: "rq_ok q" "rq_cap q = Fin c" "rq_ttl q \<le> KEY_TTL_SECONDS"
    and raw: "map_of raw = m" "distinct (map fst raw)"
    and part: "partition_at t raw = Inr (live, expired)" "\<not> over_cap q live" and t: "t \<le> now" "now \<le> now'"
    and fresh: "\<forall>k p. h k (p @ i) = None" and l: "l = grant_lease q now i"
  shows "scope_inv c now' (Some (now' + of_int KEY_TTL_SECONDS))
    ((without (fst ` set expired) m)(lease_id l \<mapsto> Doc (PDict (lease_to_dict l))))" (is "scope_inv c now' ?dl ?m")
proof -
  from q(1) have sc: "scope_ok (rq_scope q)" by (simp add: rq_ok_def)
  have ok: "hash_ok m" using si by (simp add: scope_inv_def)
  have new: "lease_of (Doc (PDict (lease_to_dict l))) = Some l" using sc l by simp
  have g: "grant_step cfg q (h (rq_key cfg q)) t now h l
      (apply_cmds (grant_cmds (rq_key cfg q) (index_key cfg) expired l) h)"
    unfolding l using m raw part fresh by (intro grant_stepI) auto
  have "?m = apply_cmds (grant_cmds (rq_key cfg q) (index_key cfg) expired l) h (rq_key cfg q)"
    by (simp add: apply_grant m)
  then have "live_sum now' ?m \<le> c + EPSILON"
    using grant_step_cap [OF _ q(1,2) g, of now'] ok m t by simp
  moreover have "hash_ok ?m"
    using new grant_lease_ok [OF q(1), of now i] l by (intro hash_ok_upd [OF hash_ok_without [OF ok]]) auto
  moreover have "fle (lease_expires_at x) (Fin (now' + of_int KEY_TTL_SECONDS))" if x: "lease_in ?m j = Some x" for j x
  proof (cases "j = lease_id l")
    case True
    with x new have "x = l" by (simp add: lease_in_upd)
    have "now + rat_of_int (rq_ttl q) \<le> now' + rat_of_int KEY_TTL_SECONDS"
      using q(3) t(2) by (intro add_mono) simp_all
    then show ?thesis using \<open>x = l\<close> l by simp
  next
    case False
    with x have "lease_in m j = Some x" by (simp add: lease_in_upd split: if_splits)
    with si obtain y where "dl = Some y" "fle (lease_expires_at x) (Fin y)" "y \<le> now' + of_int KEY_TTL_SECONDS"
      unfolding scope_inv_def by blast
    then show ?thesis using is_expired_later [of x y] by (simp add: is_expired_def)
  qed
  ultimately show ?thesis by (simp add: scope_inv_def)
qed

lemma step_grant:
  assumes inv: "sys_inv cfg cap d out"
    and q: "rq_ok q" "rq_cap q = Fin (cap (rq_kind q) (rq_scope q))" "rq_ttl q \<le> KEY_TTL_SECONDS"
    and raw: "map_of raw = db_hashes d (rq_key cfg q)" "distinct (map fst raw)"
    and part: "partition_at t raw = Inr (live, expired)" "\<not> over_cap q live" and t: "t \<le> now" "now \<le> db_clock d"
    and fresh: "\<forall>k p. db_hashes d k (p @ i) = None" and l: "l = grant_lease q now i"
  shows "sys_inv cfg cap (exec_db (grant_cmds (rq_key cfg q) (index_key cfg) expired l) d) (out(lease_id l \<mapsto> l))"
    (is "sys_inv cfg cap ?d ?out")
proof -
  let ?sk = "rq_key cfg q" and ?F = "fst ` set expired"
  from q(1) have sc: "scope_ok (rq_scope q)" by (simp add: rq_ok_def)
  have clock: "db_clock ?d = db_clock d" by (simp add: exec_db_def)
  have own: "db_hashes ?d ?sk = (without ?F (db_hashes d ?sk))(lease_id l \<mapsto> Doc (PDict (lease_to_dict l)))"
    "db_deadline ?d ?sk = Some (db_clock d + of_int KEY_TTL_SECONDS)"
    by (simp_all add: exec_db_def apply_grant)
  have other: "db_hashes ?d (scope_key cfg k s) = db_hashes d (scope_key cfg k s)"
    "db_deadline ?d (scope_key cfg k s) = db_deadline d (scope_key cfg k s)"
    if "scope_key cfg k s \<noteq> ?sk" for k s
    using that by (auto simp: exec_db_def apply_grant)
  have si: "scope_inv (cap k s) (db_clock d) (db_deadline d (scope_key cfg k s)) (db_hashes d (scope_key cfg k s))"
    if "scope_ok s" for k s using inv that by (simp add: sys_inv_def)
  have "scope_inv (cap k s) (db_clock ?d) (db_deadline ?d (scope_key cfg k s)) (db_hashes ?d (scope_key cfg k s))"
    if s: "scope_ok s" for k s
  proof (cases "scope_key cfg k s = ?sk")
    case True
    then have ks: "k = rq_kind q" "s = rq_scope q" by auto
    from grant_scope [OF si [OF sc] refl q raw part t fresh l] show ?thesis
      unfolding ks clock own .
  next
    case False
    with si [OF s] show ?thesis by (simp add: clock other)
  qed
  moreover have "scope_ok (lease_scope x)
      \<and> lease_in (db_hashes ?d (scope_key cfg (lease_kind x) (lease_scope x))) j = Some x"
    if x: "?out j = Some x" "\<not> is_expired x (db_clock d)" for j x
  proof (cases "j = lease_id l")
    case True
    with x have "x = l" by simp
    then show ?thesis using sc l own(1) True by (simp add: lease_in_upd)
  next
    case False
    let ?xk = "scope_key cfg (lease_kind x) (lease_scope x)"
    from False x inv have st: "scope_ok (lease_scope x)" "lease_in (db_hashes d ?xk) j = Some x"
      by (auto simp: sys_inv_def out_inv_def)
    show ?thesis
    proof (cases "?xk = ?sk")
      case True
      have "j \<notin> ?F"
      proof
        assume "j \<in> ?F"
        with partition_expired [OF part(1) raw(2)] raw(1) st(2) True have "is_expired x t" by auto
        with x(2) t is_expired_later [of x t "db_clock d"] show False by simp
      qed
      with st False own(1) True show ?thesis by (simp add: lease_in_upd del: scope_key_inj)
    next
      case False
      with st show ?thesis by (simp add: other del: scope_key_inj)
    qed
  qed
  ultimately show ?thesis by (auto simp: sys_inv_def out_inv_def clock)
qed

lemma sys_inv_step:
  assumes "reg_step cfg cap max_ttl d e d'" and "sys_inv cfg cap d out"
    and "max_ttl \<le> KEY_TTL_SECONDS" and "\<forall>k sc. 0 \<le> cap k sc"
  shows "sys_inv cfg cap d' (note_event e out)"
  using assms
proof (cases rule: reg_step.cases)
  case (grant q raw t live expired now i l)
  then show ?thesis using step_grant [OF assms(2), of q raw t live expired now i l] assms(3) by simp
qed (auto simp del: apply_cmds.simps intro: step_tick step_evict step_release step_sweep)

lemma sys_inv_reachable:
  assumes "reachable cfg cap max_ttl d out" and "max_ttl \<le> KEY_TTL_SECONDS" and "\<forall>k sc. 0 \<le> cap k sc"
  shows "sys_inv cfg cap d out"
  using assms(1)
proof induction
  case start
  then show ?case using assms(3) by (auto simp: sys_inv_def out_inv_def intro: scope_inv_empty)
next
  case (step d out e d')
  then show ?case using sys_inv_step assms(2,3) by blast
qed

lemma held_sum_bound:
  assumes inv: "sys_inv cfg cap d out" and sc: "scope_ok sc"
  shows "held_sum k sc (db_clock d) out \<le> live_sum (db_clock d) (db_hashes d (scope_key cfg k sc))"
proof -
  let ?m = "db_hashes d (scope_key cfg k sc)"
  have ok: "hash_ok ?m" using inv sc by (simp add: sys_inv_def scope_inv_def)
  have stored: "lease_in ?m i = out i \<and> i \<in> live_dom (db_clock d) ?m" if "i \<in> held_live k sc (db_clock d) out" for i
    using that inv by (auto simp: held_live_def live_dom_def sys_inv_def out_inv_def)
  have "held_sum k sc (db_clock d) out = (\<Sum>i \<in> held_live k sc (db_clock d) out. amount_in ?m i)"
    unfolding held_sum_def using stored
    by (intro sum.cong) (auto simp: amount_in_def held_live_def)
  also have "\<dots> \<le> live_sum (db_clock d) ?m"
    unfolding live_sum_def using stored
    by (intro sum_mono2) (auto simp: finite_live_dom ok amount_in_nonneg)
  finally show ?thesis .
qed

text \<open>C3: no interleaving of callers exceeds a cap: in every state reachable by grants, releases, sweeps,
  the passing of time and the expiry of Redis keys, the leases of a scope that are held and have not
  expired claim no more than its cap (plus the comparison slack), provided every lease asks for at
  most the time to live of a key.\<close>

theorem held_leases_within_cap:
  assumes "reachable cfg cap max_ttl d out" and "max_ttl \<le> KEY_TTL_SECONDS" and "\<forall>k sc. 0 \<le> cap k sc"
    and "scope_ok sc"
  shows "held_sum k sc (db_clock d) out \<le> cap k sc + EPSILON"
proof -
  note inv = sys_inv_reachable [OF assms(1-3)]
  have "live_sum (db_clock d) (db_hashes d (scope_key cfg k sc)) \<le> cap k sc + EPSILON"
    using inv assms(4) by (simp add: sys_inv_def scope_inv_def)
  with held_sum_bound [OF inv assms(4), of k] show ?thesis by simp
qed

text \<open>Two grants of one scope, for the witness and for the run that breaks the cap.\<close>

definition start_db :: db where
  "start_db = \<lparr>db_hashes = (\<lambda>k f. None), db_clock = 0, db_deadline = (\<lambda>k. None)\<rparr>"

definition long_request :: "int \<Rightarrow> reservation" where
  "long_request ttl =
     \<lparr>rq_kind = BUDGET, rq_scope = sample_scope, rq_class = PER_TOKEN, rq_amount = Fin 1, rq_unit = UNIT_USD,
      rq_cap = Fin 1, rq_run_id = ''run-1'', rq_cost_source = Some METERED, rq_ttl = ttl, rq_metadata = []\<rparr>"

definition granted_db :: "int \<Rightarrow> string \<Rightarrow> db \<Rightarrow> db" where
  "granted_db ttl i d = exec_db (grant_cmds (scope_key sample_cfg BUDGET sample_scope) (index_key sample_cfg) []
     (grant_lease (long_request ttl) (db_clock d) i)) d"

lemma sample_grant_step:
  assumes "db_hashes d (scope_key sample_cfg BUDGET sample_scope) = (\<lambda>f. None)"
    and "\<forall>k p. db_hashes d k (p @ i) = None" and "0 < ttl" "ttl \<le> max_ttl"
  shows "reg_step sample_cfg (\<lambda>k sc. 1) max_ttl d
    (Granted (grant_lease (long_request ttl) (db_clock d) i)) (granted_db ttl i d)"
proof -
  have "\<not> over_cap (long_request ttl) []"
    by (simp add: over_cap_def long_request_def fsum_def EPSILON_def)
  moreover have "rq_ok (long_request ttl)"
    using sample_scope_ok by (simp add: rq_ok_def long_request_def)
  ultimately show ?thesis
    using reg_step.grant [of "long_request ttl" "\<lambda>k sc. 1" max_ttl "[]" d sample_cfg "db_clock d" "[]" "[]"
        "db_clock d" i] assms
    by (simp add: granted_db_def long_request_def fun_eq_iff)
qed

lemma grant_lease_id: "lease_id (grant_lease (long_request ttl) now i) = ''bud_'' @ i"
  by (simp add: grant_lease_def long_request_def)

text \<open>The key of the scope runs out under a lease that was granted for longer.\<close>

definition evicted_db :: db where
  "evicted_db = (let d = (granted_db (2 * KEY_TTL_SECONDS) ''x'' start_db)\<lparr>db_clock := of_int KEY_TTL_SECONDS\<rparr>;
      k = scope_key sample_cfg BUDGET sample_scope
    in d\<lparr>db_hashes := (db_hashes d)(k := (\<lambda>f. None)), db_deadline := (db_deadline d)(k := None)\<rparr>)"

lemma evicted_reachable:
  "reachable sample_cfg (\<lambda>k sc. 1) (2 * KEY_TTL_SECONDS) evicted_db
     [''bud_x'' \<mapsto> grant_lease (long_request (2 * KEY_TTL_SECONDS)) 0 ''x'']"
proof -
  let ?R = "reachable sample_cfg (\<lambda>k sc. 1) (2 * KEY_TTL_SECONDS)"
  let ?d = "granted_db (2 * KEY_TTL_SECONDS) ''x'' start_db" and ?k = "scope_key sample_cfg BUDGET sample_scope"
  let ?out = "[''bud_x'' \<mapsto> grant_lease (long_request (2 * KEY_TTL_SECONDS)) 0 ''x'']"
  have "?R start_db (\<lambda>i. None)" unfolding start_db_def by (rule reachable.start)
  from reachable.step [OF this sample_grant_step [of start_db "''x''" "2 * KEY_TTL_SECONDS"]]
  have d: "?R ?d ?out"
    by (simp add: start_db_def grant_lease_id KEY_TTL_SECONDS_def)
  have "0 \<le> rat_of_int KEY_TTL_SECONDS" by (simp add: KEY_TTL_SECONDS_def)
  from reachable.step [OF d reg_step.tick [OF this]]
  have t: "?R (?d\<lparr>db_clock := of_int KEY_TTL_SECONDS\<rparr>) ?out"
    by (simp add: granted_db_def exec_db_def start_db_def)
  have "db_deadline ?d ?k = Some (of_int KEY_TTL_SECONDS)"
    by (simp add: granted_db_def exec_db_def start_db_def)
  then have "reg_step sample_cfg (\<lambda>k sc. 1) (2 * KEY_TTL_SECONDS) (?d\<lparr>db_clock := of_int KEY_TTL_SECONDS\<rparr>) Quiet evicted_db"
    unfolding evicted_db_def Let_def by (intro reg_step.evict [where x = "of_int KEY_TTL_SECONDS"]) simp_all
  from reachable.step [OF t this] show ?thesis by simp
qed

text \<open>The bound on the time to live is needed, and nothing in \<open>reserve_budget\<close> enforces it: with a lease
  granted for twice the time to live of its key, Redis drops the key under the live lease, the next
  reservation sees an empty scope, and the held leases exceed the cap.\<close>

theorem long_lease_breaks_cap:
  "\<exists>d out. reachable sample_cfg (\<lambda>k sc. 1) (2 * KEY_TTL_SECONDS) d out
     \<and> 1 + EPSILON < held_sum BUDGET sample_scope (db_clock d) out"
proof -
  let ?l = "grant_lease (long_request (2 * KEY_TTL_SECONDS)) 0 ''x''"
  let ?m = "grant_lease (long_request (2 * KEY_TTL_SECONDS)) (of_int KEY_TTL_SECONDS) ''y''"
  let ?d = "granted_db (2 * KEY_TTL_SECONDS) ''y'' evicted_db" and ?out = "[''bud_x'' \<mapsto> ?l, ''bud_y'' \<mapsto> ?m]"
  have e: "db_clock evicted_db = of_int KEY_TTL_SECONDS"
    "db_hashes evicted_db (scope_key sample_cfg BUDGET sample_scope) = (\<lambda>f. None)"
    by (simp_all add: evicted_db_def Let_def)
  have "db_hashes evicted_db k (p @ ''y'') = None" for k p
    by (cases p rule: rev_cases)
      (auto simp: evicted_db_def Let_def granted_db_def exec_db_def start_db_def apply_grant grant_lease_id without_def
        append_eq_append_conv2 append_eq_Cons_conv Cons_eq_append_conv)
  with sample_grant_step [OF e(2), of "''y''" "2 * KEY_TTL_SECONDS" "2 * KEY_TTL_SECONDS"]
  have "reg_step sample_cfg (\<lambda>k sc. 1) (2 * KEY_TTL_SECONDS) evicted_db (Granted ?m) ?d"
    by (simp add: e(1) KEY_TTL_SECONDS_def)
  from reachable.step [OF evicted_reachable this]
  have r: "reachable sample_cfg (\<lambda>k sc. 1) (2 * KEY_TTL_SECONDS) ?d ?out" by (simp add: grant_lease_id)
  have c: "db_clock ?d = of_int KEY_TTL_SECONDS" by (simp add: granted_db_def exec_db_def e(1))
  have "held_live BUDGET sample_scope (of_int KEY_TTL_SECONDS) ?out = {''bud_x'', ''bud_y''}"
    by (auto simp: held_live_def long_request_def is_expired_def KEY_TTL_SECONDS_def split: if_splits)
  then have "held_sum BUDGET sample_scope (db_clock ?d) ?out = 2"
    by (simp add: held_sum_def c long_request_def)
  then have "1 + EPSILON < held_sum BUDGET sample_scope (db_clock ?d) ?out" by (simp add: EPSILON_def)
  with r show ?thesis by blast
qed

theorem held_leases_within_cap_witness:
  "held_sum BUDGET sample_scope 0 [''bud_x'' \<mapsto> grant_lease (long_request 60) 0 ''x''] \<le> 1 + EPSILON"
proof -
  have "reachable sample_cfg (\<lambda>k sc. 1) 60 start_db (\<lambda>i. None)" unfolding start_db_def by (rule reachable.start)
  from reachable.step [OF this sample_grant_step [of start_db "''x''" 60 60]]
  have "reachable sample_cfg (\<lambda>k sc. 1) 60 (granted_db 60 ''x'' start_db) [''bud_x'' \<mapsto> grant_lease (long_request 60) 0 ''x'']"
    by (simp add: start_db_def grant_lease_id)
  from held_leases_within_cap [OF this _ _ sample_scope_ok, of BUDGET] show ?thesis
    by (simp add: KEY_TTL_SECONDS_def granted_db_def exec_db_def start_db_def)
qed

end
