(* ===== verification/Lease_Shared.thy ===== *)
theory Lease_Shared
  imports Lease_Concurrency
begin

text \<open>
  The registry's own calls under interference. Between any two calls of a registry operation the
  other processes may take any number of steps (\<open>rely\<close>); Redis promises that an \<open>EXEC\<close> goes through
  only if no watched key was written since it was watched. From this optimistic lock alone, every
  completed \<open>reserve\<close>, \<open>release\<close> and sweep is a sequence of steps of \<open>Lease_Concurrency\<close>, so its
  theorem about the caps covers the code run by many processes at once. The contract is interpreted
  on a server whose script says what the other processes do before each call.
\<close>

section \<open>The optimistic lock\<close>

locale redis_shared =
  fixes C :: "'w client"
    and st :: "'w \<Rightarrow> db"
    and watched :: "'w \<Rightarrow> string set"
    and clean :: "'w \<Rightarrow> bool"
    and issued :: "'w \<Rightarrow> string set"
    and rely :: "db \<Rightarrow> db \<Rightarrow> bool"
  assumes rely_refl: "rely d d"
    and rely_trans: "rely d d' \<Longrightarrow> rely d' d'' \<Longrightarrow> rely d d''"
    and rely_clock: "rely d d' \<Longrightarrow> db_clock d \<le> db_clock d'"
    and now_rely: "c_now C w = (t, w') \<Longrightarrow> rely (st w) (st w')"
    and now_lock: "c_now C w = (t, w') \<Longrightarrow> watched w \<subseteq> watched w' \<and> issued w \<subseteq> issued w' \<and>
      (clean w' \<longrightarrow> clean w \<and> (\<forall>k \<in> watched w. db_hashes (st w') k = db_hashes (st w) k))"
    and now_value: "c_now C w = (t, w') \<Longrightarrow> db_clock (st w) \<le> t \<and> t \<le> db_clock (st w')"
    and id_rely: "c_id C w = (i, w') \<Longrightarrow> rely (st w) (st w')"
    and id_lock: "c_id C w = (i, w') \<Longrightarrow> i \<in> issued w' \<and> watched w \<subseteq> watched w' \<and> issued w \<subseteq> issued w' \<and>
      (clean w' \<longrightarrow> clean w \<and> (\<forall>k \<in> watched w. db_hashes (st w') k = db_hashes (st w) k))"
    and hgetall_rely: "c_hgetall C k w = (rh, w') \<Longrightarrow> rely (st w) (st w')"
    and hgetall_lock: "c_hgetall C k w = (rh, w') \<Longrightarrow> watched w \<subseteq> watched w' \<and> issued w \<subseteq> issued w' \<and>
      (clean w' \<longrightarrow> clean w \<and> (\<forall>k \<in> watched w. db_hashes (st w') k = db_hashes (st w) k))"
    and hgetall_value: "c_hgetall C k w = (Inr xs, w') \<Longrightarrow>
      map_of xs = db_hashes (st w') k \<and> distinct (map fst xs)"
    and hget_rely: "c_hget C k f w = (rg, w') \<Longrightarrow> rely (st w) (st w')"
    and hget_lock: "c_hget C k f w = (rg, w') \<Longrightarrow> watched w \<subseteq> watched w' \<and> issued w \<subseteq> issued w' \<and>
      (clean w' \<longrightarrow> clean w \<and> (\<forall>k \<in> watched w. db_hashes (st w') k = db_hashes (st w) k))"
    and hget_value: "c_hget C k f w = (Inr v, w') \<Longrightarrow> v = db_hashes (st w') k f"
    and watch_rely: "c_watch C ks w = (ru, w') \<Longrightarrow> rely (st w) (st w')"
    and watch_lock: "c_watch C ks w = (Inr u, w') \<Longrightarrow> set ks \<subseteq> watched w' \<and> watched w \<subseteq> watched w' \<and> issued w \<subseteq> issued w' \<and>
      (clean w' \<longrightarrow> clean w \<and> (\<forall>k \<in> watched w. db_hashes (st w') k = db_hashes (st w) k))"
    and unwatch_rely: "c_unwatch C w = (ru, w') \<Longrightarrow> rely (st w) (st w')"
    and exec_error: "c_exec C cs w = (Inl e, w') \<Longrightarrow> rely (st w) (st w')"
    and exec_commit: "c_exec C cs w = (Inr u, w') \<Longrightarrow> clean w \<and>
      (\<exists>d. rely (st w) d \<and> (\<forall>k \<in> watched w. db_hashes d k = db_hashes (st w) k)
        \<and> (\<forall>i \<in> issued w. \<forall>k p. db_hashes d k (p @ i) = None) \<and> st w' = exec_db cs d)"
begin

text \<open>A chain of calls without a commit, as seen by a final successful \<open>EXEC\<close>.\<close>

definition holds :: "'w \<Rightarrow> 'w \<Rightarrow> bool" where
  "holds w w' \<longleftrightarrow> rely (st w) (st w') \<and> watched w \<subseteq> watched w' \<and> issued w \<subseteq> issued w' \<and>
     (clean w' \<longrightarrow> clean w \<and> (\<forall>k \<in> watched w. db_hashes (st w') k = db_hashes (st w) k))"

lemma holds_trans: "holds w v \<Longrightarrow> holds v u \<Longrightarrow> holds w u"
  unfolding holds_def by (auto intro: rely_trans)

lemma holds_now: "c_now C w = (t, w') \<Longrightarrow> holds w w'"
  using now_rely now_lock by (auto simp: holds_def)

lemma holds_id: "c_id C w = (i, w') \<Longrightarrow> holds w w'"
  using id_rely id_lock by (auto simp: holds_def)

lemma holds_hgetall: "c_hgetall C k w = (r, w') \<Longrightarrow> holds w w'"
  using hgetall_rely hgetall_lock by (auto simp: holds_def)

lemma holds_hget: "c_hget C k f w = (r, w') \<Longrightarrow> holds w w'"
  using hget_rely hget_lock by (auto simp: holds_def)

lemma holds_watch: "c_watch C ks w = (Inr u, w') \<Longrightarrow> holds w w'"
  using watch_rely watch_lock by (auto simp: holds_def)

lemma holds_rely: "holds w v \<Longrightarrow> rely (st w) (st v)"
  by (simp add: holds_def)

text \<open>What was read of a watched key is what the commit writes over.\<close>

lemma commit_over:
  assumes "c_exec C cs v = (Inr u, w')" and "holds w v"
  shows "\<exists>d. rely (st w) d \<and> rely (st v) d \<and> (\<forall>k \<in> watched w. db_hashes d k = db_hashes (st w) k)
    \<and> (\<forall>i \<in> issued v. \<forall>k p. db_hashes d k (p @ i) = None) \<and> st w' = exec_db cs d"
proof -
  from exec_commit [OF assms(1)] obtain d where d: "clean v" "rely (st v) d"
    "\<forall>k \<in> watched v. db_hashes d k = db_hashes (st v) k"
    "\<forall>i \<in> issued v. \<forall>k p. db_hashes d k (p @ i) = None" "st w' = exec_db cs d" by blast
  have "db_hashes d k = db_hashes (st w) k" if "k \<in> watched w" for k
    using that assms(2) d by (auto simp: holds_def)
  with d assms(2) show ?thesis by (auto simp: holds_def intro: rely_trans)
qed

lemma reserve_attempt_step:
  assumes r: "reserve_attempt C cfg q w = (Done l, w')"
    and q: "rq_ok q" "rq_cap q = Fin (cap (rq_kind q) (rq_scope q))" "0 < rq_ttl q" "rq_ttl q \<le> max_ttl"
  shows "\<exists>d. rely (st w) d \<and> reg_step cfg cap max_ttl d (Granted l) (st w')"
proof -
  let ?sk = "rq_key cfg q" and ?ik = "index_key cfg"
  from r obtain w1 raw w2 t w3 live expired now w4 i w5 u u' where
    calls: "c_watch C [?sk, ?ik] w = (Inr u, w1)" "c_hgetall C ?sk w1 = (Inr raw, w2)" "c_now C w2 = (t, w3)"
      "c_now C w3 = (now, w4)" "c_id C w4 = (i, w5)"
      "c_exec C (grant_cmds ?sk ?ik expired (grant_lease q now i)) w5 = (Inr u', w')" and
    part: "partition_at t raw = Inr (live, expired)" "\<not> over_cap q live" and l: "l = grant_lease q now i"
    by (auto simp: reserve_attempt_def partition_now_def Let_def split: prod.splits sum.splits if_splits)
  have h25: "holds w2 w5" "holds w4 w5"
    using holds_now [OF calls(3)] holds_now [OF calls(4)] holds_id [OF calls(5)] by (auto intro: holds_trans)
  have w02: "holds w w2" by (rule holds_trans [OF holds_watch [OF calls(1)] holds_hgetall [OF calls(2)]])
  have sk: "?sk \<in> watched w2"
    using watch_lock [OF calls(1)] hgetall_lock [OF calls(2)] by auto
  from commit_over [OF calls(6) h25(1)] obtain d where d: "rely (st w2) d" "rely (st w5) d"
    "\<forall>k \<in> watched w2. db_hashes d k = db_hashes (st w2) k"
    "\<forall>i \<in> issued w5. \<forall>k p. db_hashes d k (p @ i) = None"
    "st w' = exec_db (grant_cmds ?sk ?ik expired (grant_lease q now i)) d" by blast
  have raw: "map_of raw = db_hashes d ?sk" "distinct (map fst raw)"
    using hgetall_value [OF calls(2)] d(3) sk by auto
  have "t \<le> now" using now_value [OF calls(3)] now_value [OF calls(4)] by simp
  moreover have "now \<le> db_clock d"
    using now_value [OF calls(4)] rely_clock [OF holds_rely [OF h25(2)]] rely_clock [OF d(2)] by simp
  moreover have "\<forall>k p. db_hashes d k (p @ i) = None" using d(4) id_lock [OF calls(5)] by blast
  ultimately have "reg_step cfg cap max_ttl d (Granted l) (st w')"
    unfolding d(5) l using q raw part by (intro reg_step.grant [where q = q and raw = raw and t = t and live = live and now = now and i = i]) auto
  with d(1) holds_rely [OF w02] show ?thesis by (blast intro: rely_trans)
qed

lemma now_rely': "partition_now C raw w = (r, w') \<Longrightarrow> rely (st w) (st w')"
  by (auto simp: partition_now_def dest: now_rely split: prod.splits)

lemma reserve_attempt_none:
  assumes "reserve_attempt C cfg q w = (r, w')" and "\<nexists>x. r = Done x"
  shows "rely (st w) (st w')"
  using assms
  by (auto simp: reserve_attempt_def Let_def split: prod.splits sum.splits if_splits
      dest!: watch_rely hgetall_rely now_rely now_rely' id_rely exec_error) (meson rely_trans)+

text \<open>A release and a sweep: their commit is one step, everything before it is interference.\<close>

lemma release_attempt_step:
  assumes "release_attempt C cfg lid w = (r, w')"
  shows "rely (st w) (st w') \<or> (\<exists>d. rely (st w) d \<and> reg_step cfg cap max_ttl d (Released lid) (st w'))"
proof (cases "\<exists>w1 v w2 w3 x w4 u u' y. c_watch C [index_key cfg] w = (Inr u, w1)
    \<and> c_hget C (index_key cfg) lid w1 = (Inr (Some v), w2) \<and> c_watch C [decode_text v] w2 = (Inr u', w3)
    \<and> c_hget C (decode_text v) lid w3 = (Inr x, w4)
    \<and> c_exec C [HDel (decode_text v) [lid], HDel (index_key cfg) [lid]] w4 = (Inr y, w')")
  case True
  then obtain w1 v w2 w3 x w4 u u' y where
    calls: "c_watch C [index_key cfg] w = (Inr u, w1)" "c_hget C (index_key cfg) lid w1 = (Inr (Some v), w2)"
      "c_watch C [decode_text v] w2 = (Inr u', w3)" "c_hget C (decode_text v) lid w3 = (Inr x, w4)"
      "c_exec C [HDel (decode_text v) [lid], HDel (index_key cfg) [lid]] w4 = (Inr y, w')" by blast
  have h: "holds w2 w4" by (rule holds_trans [OF holds_watch [OF calls(3)] holds_hget [OF calls(4)]])
  have h0: "holds w w2" by (rule holds_trans [OF holds_watch [OF calls(1)] holds_hget [OF calls(2)]])
  have ik: "index_key cfg \<in> watched w2"
    using watch_lock [OF calls(1)] hget_lock [OF calls(2)] by auto
  from commit_over [OF calls(5) h] obtain d where d: "rely (st w2) d"
    "\<forall>k \<in> watched w2. db_hashes d k = db_hashes (st w2) k"
    "st w' = exec_db [HDel (decode_text v) [lid], HDel (index_key cfg) [lid]] d" by blast
  have "db_hashes d (index_key cfg) lid = Some v"
    using hget_value [OF calls(2)] d(2) ik by simp
  then have "reg_step cfg cap max_ttl d (Released lid) (st w')" unfolding d(3) by (rule reg_step.release)
  with d(1) holds_rely [OF h0] show ?thesis by (blast intro: rely_trans)
next
  case False
  have "rely (st w) (st w')"
    using assms False
    by (auto simp: release_attempt_def Let_def split: prod.splits sum.splits option.splits
        dest!: watch_rely hget_rely unwatch_rely exec_error) (meson rely_trans)+
  then show ?thesis by blast
qed

lemma expire_attempt_step:
  assumes "expire_attempt C cfg sk w = (r, w')"
  shows "rely (st w) (st w') \<or> (\<exists>d. rely (st w) d \<and> reg_step cfg cap max_ttl d Quiet (st w'))"
proof (cases "\<exists>w1 raw w2 t w3 live expired u y. c_watch C [sk, index_key cfg] w = (Inr u, w1)
    \<and> c_hgetall C sk w1 = (Inr raw, w2) \<and> c_now C w2 = (t, w3) \<and> partition_at t raw = Inr (live, expired)
    \<and> c_exec C (prune_cmds sk (index_key cfg) expired) w3 = (Inr y, w')")
  case True
  then obtain w1 raw w2 t w3 live expired u y where
    calls: "c_watch C [sk, index_key cfg] w = (Inr u, w1)" "c_hgetall C sk w1 = (Inr raw, w2)"
      "c_now C w2 = (t, w3)" "c_exec C (prune_cmds sk (index_key cfg) expired) w3 = (Inr y, w')" and
    part: "partition_at t raw = Inr (live, expired)" by blast
  have h0: "holds w w2" by (rule holds_trans [OF holds_watch [OF calls(1)] holds_hgetall [OF calls(2)]])
  have sk: "sk \<in> watched w2"
    using watch_lock [OF calls(1)] hgetall_lock [OF calls(2)] by auto
  from commit_over [OF calls(4) holds_now [OF calls(3)]] obtain d where d: "rely (st w2) d" "rely (st w3) d"
    "\<forall>k \<in> watched w2. db_hashes d k = db_hashes (st w2) k"
    "st w' = exec_db (prune_cmds sk (index_key cfg) expired) d" by blast
  have raw: "map_of raw = db_hashes d sk" "distinct (map fst raw)"
    using hgetall_value [OF calls(2)] d(3) sk by auto
  have "t \<le> db_clock d" using now_value [OF calls(3)] rely_clock [OF d(2)] by simp
  then have "reg_step cfg cap max_ttl d Quiet (st w')"
    unfolding d(4) by (rule reg_step.sweep [OF raw part])
  with d(1) holds_rely [OF h0] show ?thesis by (blast intro: rely_trans)
next
  case False
  have "rely (st w) (st w')"
    using assms False
    by (auto simp: expire_attempt_def partition_now_def Let_def split: prod.splits sum.splits if_splits
        dest!: watch_rely hgetall_rely now_rely unwatch_rely exec_error) (meson rely_trans)+
  then show ?thesis by blast
qed

end

section \<open>A fleet of registry callers\<close>

inductive trace ::
    "reg_cfg \<Rightarrow> (lease_kind \<Rightarrow> lease_scope \<Rightarrow> rat) \<Rightarrow> int \<Rightarrow> db \<Rightarrow> event list \<Rightarrow> db \<Rightarrow> bool"
  for cfg :: reg_cfg and cap :: "lease_kind \<Rightarrow> lease_scope \<Rightarrow> rat" and max_ttl :: int where
  no_step: "trace cfg cap max_ttl d [] d"
| one_more: "trace cfg cap max_ttl d es d' \<Longrightarrow> reg_step cfg cap max_ttl d' e d'' \<Longrightarrow>
    trace cfg cap max_ttl d (es @ [e]) d''"

lemma trace_append:
  "trace cfg cap max_ttl d' fs d'' \<Longrightarrow> trace cfg cap max_ttl d es d' \<Longrightarrow> trace cfg cap max_ttl d (es @ fs) d''"
proof (induction rule: trace.induct)
  case (one_more d' fs d'' e d3)
  then show ?case using trace.one_more [of cfg cap max_ttl d "es @ fs" d'' e d3] by simp
qed simp

lemma trace_reachable:
  "trace cfg cap max_ttl d es d' \<Longrightarrow> reachable cfg cap max_ttl d out \<Longrightarrow>
     reachable cfg cap max_ttl d' (fold note_event es out)"
  by (induction rule: trace.induct) (auto intro: reachable.step)

text \<open>The other processes are callers of the same registry, under the same caps.\<close>

locale registry_fleet = redis_shared C st watched clean issued rely
  for C :: "'w client" and st watched clean issued rely +
  fixes cfg :: reg_cfg and cap :: "lease_kind \<Rightarrow> lease_scope \<Rightarrow> rat" and max_ttl :: int
  assumes rely_trace: "rely d d' \<Longrightarrow> \<exists>es. trace cfg cap max_ttl d es d'"
begin

abbreviation leads_to :: "db \<Rightarrow> db \<Rightarrow> bool" where
  "leads_to d d' \<equiv> \<exists>es. trace cfg cap max_ttl d es d'"

lemma leads_to_refl: "leads_to d d"
  by (rule exI) (rule no_step)

lemma leads_to_trans: "leads_to d d' \<Longrightarrow> leads_to d' d'' \<Longrightarrow> leads_to d d''"
  using trace_append by blast

lemma leads_to_step: "rely d d' \<Longrightarrow> reg_step cfg cap max_ttl d' e d'' \<Longrightarrow> \<exists>es. trace cfg cap max_ttl d (es @ [e]) d''"
  using rely_trace one_more by blast

lemma reserve_trace:
  assumes r: "reserve C cfg q w = (r, w')"
    and q: "rq_ok q" "rq_cap q = Fin (cap (rq_kind q) (rq_scope q))" "rq_ttl q \<le> max_ttl"
  shows "case r of Inr l \<Rightarrow> \<exists>es. trace cfg cap max_ttl (st w) (es @ [Granted l]) (st w')
    | Inl e \<Rightarrow> leads_to (st w) (st w')" (is "?Q r w'")
proof (cases "py_strip (rq_run_id q) = [] \<or> rq_ttl q \<le> 0")
  case True
  with r have "\<exists>e. r = Inl e" "w' = w" by (auto simp: reserve_def split: if_splits)
  then show ?thesis by (auto intro: leads_to_refl)
next
  case False
  with r have loop: "retry_loop (reg_max_retries cfg) (reserve_attempt C cfg q) w = (r, w')" and ttl: "0 < rq_ttl q"
    by (auto simp: reserve_def)
  show ?thesis
  proof (rule retry_loop_induct [OF loop, where I = "\<lambda>v. leads_to (st w) (st v)" and Q = ?Q])
    fix v v' l assume v: "leads_to (st w) (st v)" "reserve_attempt C cfg q v = (Done l, v')"
    from reserve_attempt_step [where cap = cap and max_ttl = max_ttl, OF v(2) q(1,2) ttl q(3)] obtain d where
      "rely (st v) d" "reg_step cfg cap max_ttl d (Granted l) (st v')" by blast
    with leads_to_step obtain fs where "trace cfg cap max_ttl (st v) (fs @ [Granted l]) (st v')" by blast
    with v(1) trace_append show "?Q (Inr l) v'" by (metis append_assoc old.sum.simps(6))
  next
    fix v v' assume "leads_to (st w) (st v)" "reserve_attempt C cfg q v = (Retry, v')"
    then show "leads_to (st w) (st v')"
      using reserve_attempt_none rely_trace leads_to_trans by blast
  next
    fix v v' e assume "leads_to (st w) (st v)" "reserve_attempt C cfg q v = (Raised e, v')"
    then show "?Q (Inl e) v'"
      using reserve_attempt_none rely_trace leads_to_trans by (metis old.sum.simps(5) outcome.distinct(1))
  qed (auto intro: leads_to_refl)
qed

lemma attempts_lead:
  assumes "retry_loop n body w = (r, w')" and "\<And>v x v'. body v = (x, v') \<Longrightarrow> leads_to (st v) (st v')"
  shows "leads_to (st w) (st w')"
  by (rule retry_loop_induct [OF assms(1), where I = "\<lambda>v. leads_to (st w) (st v)"
        and Q = "\<lambda>r v. leads_to (st w) (st v)"])
    (use assms(2) leads_to_trans leads_to_refl in blast)+

lemma step_leads: "rely d d' \<or> (\<exists>d1. rely d d1 \<and> reg_step cfg cap max_ttl d1 e d') \<Longrightarrow> leads_to d d'"
  using rely_trace leads_to_step by blast

lemma release_trace: "release C cfg lid w = (r, w') \<Longrightarrow> leads_to (st w) (st w')"
  unfolding release_def
  by (auto intro: leads_to_refl split: if_splits
      elim!: attempts_lead [OF _ step_leads [OF release_attempt_step]])

lemma expire_scope_trace: "expire_scope C cfg sk w = (r, w') \<Longrightarrow> leads_to (st w) (st w')"
  unfolding expire_scope_def by (rule attempts_lead [OF _ step_leads [OF expire_attempt_step]])

lemma expire_each_trace: "expire_each C cfg sks w = (r, w') \<Longrightarrow> leads_to (st w) (st w')"
proof (induction sks arbitrary: w r)
  case Nil
  then show ?case by (auto intro: leads_to_refl)
next
  case (Cons sk sks)
  obtain x v where x: "expire_scope C cfg sk w = (x, v)" by fastforce
  from expire_scope_trace [OF x] have wv: "leads_to (st w) (st v)" .
  show ?case
  proof (cases x)
    case (Inl e)
    with Cons.prems x wv show ?thesis by simp
  next
    case (Inr ls)
    obtain y u where y: "expire_each C cfg sks v = (y, u)" by fastforce
    from Cons.prems x Inr y have "u = w'" by (auto split: sum.splits)
    with Cons.IH [of v y] y leads_to_trans [OF wv] show ?thesis by simp
  qed
qed

lemma expire_leases_trace: "expire_leases C cfg ks w = (r, w') \<Longrightarrow> leads_to (st w) (st w')"
  unfolding expire_leases_def
  by (auto split: option.splits sum.splits prod.splits
      dest!: expire_each_trace hgetall_rely rely_trace) (use leads_to_trans in blast)+

end

end
