(* ===== verification/Fleet_Server.thy ===== *)
theory Fleet_Server
  imports Lease_Shared
begin

text \<open>
  The contract of \<open>Lease_Shared\<close> holds of a server on which other registry callers act between our
  calls. The last theorems run the registry's own operations against any such server.
\<close>

section \<open>A server with other callers\<close>

text \<open>
  Before each call of ours the next action of the script happens: time passes, another process gives
  back a lease, or another process asks for one and is granted it if it fits. A commit is refused when a
  watched key was written, or when an id of ours is already in use.
\<close>

datatype other = Elapse rat | Other_Release string | Other_Grant reservation

record fleet_world =
  fw_base :: ref_world
  fw_deadlines :: "(string \<times> rat) list"
  fw_script :: "other list"
  fw_watched :: "string list"
  fw_clean :: bool
  fw_issued :: "string list"

definition fw_st :: "fleet_world \<Rightarrow> db" where
  "fw_st w = \<lparr>db_hashes = ref_hashes (fw_base w), db_clock = rw_clock (fw_base w),
              db_deadline = map_of (fw_deadlines w)\<rparr>"

fun new_deadlines :: "cmd list \<Rightarrow> rat \<Rightarrow> (string \<times> rat) list \<Rightarrow> (string \<times> rat) list" where
  "new_deadlines [] now dl = dl"
| "new_deadlines (Expire k t # cs) now dl = new_deadlines cs now ((k, now + of_int t) # dl)"
| "new_deadlines (HSet k f v # cs) now dl = new_deadlines cs now dl"
| "new_deadlines (HDel k fs # cs) now dl = new_deadlines cs now dl"

definition fw_exec :: "cmd list \<Rightarrow> fleet_world \<Rightarrow> fleet_world" where
  "fw_exec cs w = w\<lparr>fw_base := fold rw_cmd cs (fw_base w),
     fw_deadlines := new_deadlines cs (rw_clock (fw_base w)) (fw_deadlines w)\<rparr>"

definition fw_touch :: "string list \<Rightarrow> fleet_world \<Rightarrow> fleet_world" where
  "fw_touch ks w = w\<lparr>fw_clean := (fw_clean w \<and> (\<forall>k \<in> set ks. k \<notin> set (fw_watched w)))\<rparr>"

definition rq_ready :: "(lease_kind \<Rightarrow> lease_scope \<Rightarrow> rat) \<Rightarrow> int \<Rightarrow> reservation \<Rightarrow> bool" where
  "rq_ready cap max_ttl q \<longleftrightarrow> scope_ok (rq_scope q)
     \<and> (case rq_amount q of Fin a \<Rightarrow> 0 < a | _ \<Rightarrow> False)
     \<and> rq_cap q = Fin (cap (rq_kind q) (rq_scope q)) \<and> 0 < rq_ttl q \<and> rq_ttl q \<le> max_ttl"

fun other_act :: "reg_cfg \<Rightarrow> (lease_kind \<Rightarrow> lease_scope \<Rightarrow> rat) \<Rightarrow> int \<Rightarrow> other \<Rightarrow> fleet_world \<Rightarrow> fleet_world" where
  "other_act cfg cap max_ttl (Elapse x) w = w\<lparr>fw_base := (fw_base w)\<lparr>rw_clock := rw_clock (fw_base w) + \<bar>x\<bar>\<rparr>\<rparr>"
| "other_act cfg cap max_ttl (Other_Release lid) w =
     (case map_of (rw_hash (fw_base w) (index_key cfg)) lid of
        None \<Rightarrow> w
      | Some v \<Rightarrow> fw_touch [decode_text v, index_key cfg]
          (fw_exec [HDel (decode_text v) [lid], HDel (index_key cfg) [lid]] w))"
| "other_act cfg cap max_ttl (Other_Grant q) w =
     (let sk = rq_key cfg q; now = rw_clock (fw_base w) in
      if \<not> rq_ready cap max_ttl q then w
      else case partition_at now (AList.clearjunk (rw_hash (fw_base w) sk)) of
             Inl e \<Rightarrow> w
           | Inr (live, expired) \<Rightarrow>
               if over_cap q live then w
               else fw_touch [sk, index_key cfg]
                 (fw_exec (grant_cmds sk (index_key cfg) expired (grant_lease q now (rw_fresh (fw_base w)))) w))"

definition fw_pre :: "reg_cfg \<Rightarrow> (lease_kind \<Rightarrow> lease_scope \<Rightarrow> rat) \<Rightarrow> int \<Rightarrow> fleet_world \<Rightarrow> fleet_world" where
  "fw_pre cfg cap max_ttl w =
     (case fw_script w of [] \<Rightarrow> w | a # as \<Rightarrow> other_act cfg cap max_ttl a (w\<lparr>fw_script := as\<rparr>))"

definition fw_collision :: "fleet_world \<Rightarrow> bool" where
  "fw_collision w \<longleftrightarrow> (\<exists>i \<in> set (fw_issued w). \<exists>(k, h) \<in> set (rw_hashes (fw_base w)). \<exists>(f, v) \<in> set h. ends_with f i)"

definition fleet_client :: "reg_cfg \<Rightarrow> (lease_kind \<Rightarrow> lease_scope \<Rightarrow> rat) \<Rightarrow> int \<Rightarrow> fleet_world client" where
  "fleet_client cfg cap max_ttl = (let pre = fw_pre cfg cap max_ttl in
     \<lparr>c_now = (\<lambda>w. let v = pre w in (rw_clock (fw_base v), v)),
      c_id = (\<lambda>w. let v = pre w; i = rw_fresh (fw_base v) in (i, v\<lparr>fw_issued := i # fw_issued v\<rparr>)),
      c_get = (\<lambda>k w. let v = pre w in (Inr (map_of (rw_strings (fw_base v)) k), v)),
      c_set = (\<lambda>k x w. let v = pre w in
        (Inr (), v\<lparr>fw_base := (fw_base v)\<lparr>rw_strings := AList.update k x (rw_strings (fw_base v))\<rparr>\<rparr>)),
      c_hgetall = (\<lambda>k w. let v = pre w in (Inr (AList.clearjunk (rw_hash (fw_base v) k)), v)),
      c_hget = (\<lambda>k f w. let v = pre w in (Inr (map_of (rw_hash (fw_base v) k) f), v)),
      c_watch = (\<lambda>ks w. let v = pre w in (Inr (), v\<lparr>fw_watched := ks @ fw_watched v\<rparr>)),
      c_unwatch = (\<lambda>w. let v = pre w in (Inr (), v\<lparr>fw_watched := [], fw_clean := True\<rparr>)),
      c_exec = (\<lambda>cs w. let v = pre w in
        if fw_clean v \<and> \<not> fw_collision v
        then (Inr (), (fw_exec cs v)\<lparr>fw_watched := [], fw_clean := True, fw_issued := []\<rparr>)
        else (Inl WatchError, v\<lparr>fw_watched := [], fw_clean := True\<rparr>))\<rparr>)"

lemma deadlines_list: "map_of (new_deadlines cs now dl) = deadlines cs now (map_of dl)"
proof (induction cs arbitrary: dl)
  case (Cons c cs)
  then show ?case by (cases c) (simp_all add: fun_upd_def)
qed simp

lemma ref_hashes_clock: "ref_hashes (w\<lparr>rw_clock := t\<rparr>) = ref_hashes w"
  "ref_hashes (w\<lparr>rw_strings := s\<rparr>) = ref_hashes w"
  by (simp_all add: ref_hashes_def rw_hash_def fun_eq_iff)

lemma fw_st_exec: "fw_st (fw_exec cs w) = exec_db cs (fw_st w)"
  by (simp add: fw_st_def fw_exec_def exec_db_def ref_cmds ref_cmds_frame deadlines_list)

lemma fw_st_frame [simp]: "fw_st (fw_touch ks w) = fw_st w" "fw_st (w\<lparr>fw_script := s\<rparr>) = fw_st w"
  "fw_st (w\<lparr>fw_watched := ks'\<rparr>) = fw_st w" "fw_st (w\<lparr>fw_clean := b\<rparr>) = fw_st w" "fw_st (w\<lparr>fw_issued := is\<rparr>) = fw_st w"
  by (simp_all add: fw_st_def fw_touch_def)

lemma rq_ready_iff: "rq_ready cap max_ttl q \<longleftrightarrow>
    rq_ok q \<and> rq_cap q = Fin (cap (rq_kind q) (rq_scope q)) \<and> 0 < rq_ttl q \<and> rq_ttl q \<le> max_ttl"
  by (auto simp: rq_ready_def rq_ok_def split: pyfloat.splits)

text \<open>An action of another process is a step, and leaves the lock clean only if it wrote no watched key.\<close>

lemma other_act_step:
  "fw_st (other_act cfg cap max_ttl a w) = fw_st w \<or> (\<exists>e. reg_step cfg cap max_ttl (fw_st w) e (fw_st (other_act cfg cap max_ttl a w)))"
proof (cases a)
  case (Elapse x)
  then show ?thesis
    using reg_step.tick [of "\<bar>x\<bar>" cfg cap max_ttl "fw_st w"]
    by (auto simp: fw_st_def ref_hashes_clock)
next
  case (Other_Release lid)
  then show ?thesis
  proof (cases "map_of (rw_hash (fw_base w) (index_key cfg)) lid")
    case (Some v)
    then have "db_hashes (fw_st w) (index_key cfg) lid = Some v" by (simp add: fw_st_def ref_hashes_def)
    from reg_step.release [OF this, of cap max_ttl] Some Other_Release show ?thesis by (auto simp: fw_st_exec)
  qed simp
next
  case (Other_Grant q)
  let ?sk = "rq_key cfg q" and ?now = "rw_clock (fw_base w)" and ?i = "rw_fresh (fw_base w)"
  let ?raw = "AList.clearjunk (rw_hash (fw_base w) ?sk)"
  show ?thesis
  proof (cases "rq_ready cap max_ttl q \<and> (\<exists>live expired. partition_at ?now ?raw = Inr (live, expired) \<and> \<not> over_cap q live)")
    case True
    then obtain live expired where p: "partition_at ?now ?raw = Inr (live, expired)" "\<not> over_cap q live" by blast
    have "reg_step cfg cap max_ttl (fw_st w) (Granted (grant_lease q ?now ?i))
        (exec_db (grant_cmds ?sk (index_key cfg) expired (grant_lease q ?now ?i)) (fw_st w))"
      using p True
      by (intro reg_step.grant [where q = q and raw = ?raw and t = ?now and live = live and now = ?now and i = ?i])
        (auto simp: rq_ready_iff fw_st_def ref_hashes_def map_of_clearjunk distinct_clearjunk
          intro: ref_fresh [unfolded ref_hashes_def])
    with p True Other_Grant show ?thesis by (auto simp: fw_st_exec Let_def)
  next
    case False
    with Other_Grant show ?thesis by (auto simp: Let_def split: sum.splits)
  qed
qed

lemma apply_cmds_other:
  "k \<noteq> sk \<Longrightarrow> k \<noteq> ik \<Longrightarrow> apply_cmds (grant_cmds sk ik ex l) h k = h k"
  "k \<noteq> sk \<Longrightarrow> k \<noteq> ik \<Longrightarrow> apply_cmds [HDel sk [i], HDel ik [i]] h k = h k"
  by (simp_all add: grant_cmds_def prune_cmds_def)

text \<open>\<open>w'\<close> keeps what \<open>w\<close> watches, or is not clean.\<close>

definition fw_keeps :: "fleet_world \<Rightarrow> fleet_world \<Rightarrow> bool" where
  "fw_keeps w v \<longleftrightarrow> fw_watched v = fw_watched w \<and> fw_issued v = fw_issued w \<and>
    (fw_clean v \<longrightarrow> fw_clean w \<and> (\<forall>k \<in> set (fw_watched w). db_hashes (fw_st v) k = db_hashes (fw_st w) k))"

lemma fw_keeps_refl [simp]: "fw_keeps w w"
  by (simp add: fw_keeps_def)

lemma fw_keeps_touch:
  "(\<And>k h. k \<notin> set ks \<Longrightarrow> apply_cmds cs h k = h k) \<Longrightarrow> fw_keeps w (fw_touch ks (fw_exec cs w))"
  by (auto simp: fw_keeps_def fw_st_exec exec_db_def) (auto simp: fw_touch_def fw_exec_def)

lemma other_act_keeps: "fw_keeps w (other_act cfg cap max_ttl a w)"
proof (cases a)
  case (Elapse x)
  then show ?thesis by (simp add: fw_keeps_def fw_st_def ref_hashes_clock)
next
  case (Other_Release lid)
  then show ?thesis
    by (auto simp: apply_cmds_other simp del: apply_cmds.simps split: option.splits intro!: fw_keeps_touch)
next
  case (Other_Grant q)
  then show ?thesis
    by (auto simp: Let_def apply_cmds_other split: sum.splits intro!: fw_keeps_touch)
qed

definition fw_rely :: "reg_cfg \<Rightarrow> (lease_kind \<Rightarrow> lease_scope \<Rightarrow> rat) \<Rightarrow> int \<Rightarrow> db \<Rightarrow> db \<Rightarrow> bool" where
  "fw_rely cfg cap max_ttl d d' \<longleftrightarrow> (\<exists>es. trace cfg cap max_ttl d es d')"

lemma fw_rely_refl: "fw_rely cfg cap max_ttl d d"
  by (auto simp: fw_rely_def intro: no_step)

lemma pre_effect:
  assumes "v = fw_pre cfg cap max_ttl w"
  shows "fw_rely cfg cap max_ttl (fw_st w) (fw_st v) \<and> fw_keeps w v"
proof (cases "fw_script w")
  case Nil
  then show ?thesis using assms by (simp add: fw_pre_def fw_rely_refl)
next
  case (Cons a as)
  let ?w = "w\<lparr>fw_script := as\<rparr>"
  have v: "v = other_act cfg cap max_ttl a ?w" using assms Cons by (simp add: fw_pre_def)
  have "fw_rely cfg cap max_ttl (fw_st ?w) (fw_st v)"
    using other_act_step [of cfg cap max_ttl a ?w] fw_rely_refl one_more [OF no_step]
    unfolding v fw_rely_def by metis
  moreover have "fw_keeps ?w v" unfolding v by (rule other_act_keeps)
  ultimately show ?thesis by (simp add: fw_keeps_def)
qed

lemma reg_step_clock: "reg_step cfg cap max_ttl d e d' \<Longrightarrow> db_clock d \<le> db_clock d'"
  by (induction rule: reg_step.induct) (auto simp: exec_db_def)

lemma trace_clock: "trace cfg cap max_ttl d es d' \<Longrightarrow> db_clock d \<le> db_clock d'"
  by (induction rule: trace.induct) (auto dest: reg_step_clock)

lemma collision_free:
  assumes "\<not> fw_collision w" and "i \<in> set (fw_issued w)"
  shows "db_hashes (fw_st w) k (p @ i) = None"
proof (cases "db_hashes (fw_st w) k (p @ i)")
  case (Some v)
  then obtain h where "map_of (rw_hashes (fw_base w)) k = Some h" "map_of h (p @ i) = Some v"
    by (auto simp: fw_st_def ref_hashes_def rw_hash_def split: option.splits)
  then have "(k, h) \<in> set (rw_hashes (fw_base w))" "(p @ i, v) \<in> set h" by (auto dest: map_of_SomeD)
  moreover have "ends_with (p @ i) i" by (simp add: ends_with_def starts_with_def)
  ultimately show ?thesis using assms by (fastforce simp: fw_collision_def)
qed

lemma fleet_client_contract:
  "registry_fleet (fleet_client cfg cap max_ttl) fw_st (\<lambda>w. set (fw_watched w)) fw_clean
     (\<lambda>w. set (fw_issued w)) (fw_rely cfg cap max_ttl) cfg cap max_ttl"
proof -
  let ?pre = "fw_pre cfg cap max_ttl"
  note pre = pre_effect [OF refl, where cfg = cfg and cap = cap and max_ttl = max_ttl]
  have locks: "set (fw_watched w) = set (fw_watched (?pre w))" "set (fw_issued w) = set (fw_issued (?pre w))"
    "fw_clean (?pre w) \<Longrightarrow> fw_clean w \<and> (\<forall>k \<in> set (fw_watched (?pre w)). db_hashes (fw_st (?pre w)) k = db_hashes (fw_st w) k)"
    "fw_rely cfg cap max_ttl (fw_st w) (fw_st (?pre w))"
    "rw_clock (fw_base w) \<le> rw_clock (fw_base (?pre w))" for w
    using pre [of w] trace_clock by (auto simp: fw_keeps_def fw_rely_def fw_st_def dest!: trace_clock)
  show ?thesis
  proof (unfold_locales, goal_cases)
    case (2 d d' d'')
    then show ?case unfolding fw_rely_def using trace_append by blast
  next
    case (19 cs w u w')
    then have ok: "fw_clean (?pre w)" "\<not> fw_collision (?pre w)"
      and w': "fw_st w' = exec_db cs (fw_st (?pre w))"
      by (auto simp: fleet_client_def Let_def fw_st_exec split: if_splits)
    have "\<forall>i \<in> set (fw_issued w). \<forall>k p. db_hashes (fw_st (?pre w)) k (p @ i) = None"
      using collision_free [OF ok(2)] locks(2) by simp
    with w' locks(3) [OF ok(1)] locks(1,4) show ?case by metis
  next
    case (3 d d')
    then show ?case unfolding fw_rely_def by (blast dest: trace_clock)
  next
    case (6 w t w')
    then show ?case using locks(5) [of w] by (auto simp: fleet_client_def Let_def fw_st_def)
  next
    case (11 k w xs w')
    then show ?case
      by (auto simp: fleet_client_def Let_def fw_st_def ref_hashes_def map_of_clearjunk distinct_clearjunk)
  next
    case (14 k f w v w')
    then show ?case by (auto simp: fleet_client_def Let_def fw_st_def ref_hashes_def)
  next
    case (20 d d')
    then show ?case by (simp add: fw_rely_def)
  qed (use locks in \<open>auto simp: fw_rely_refl fleet_client_def Let_def split: if_splits\<close>)
qed

section \<open>The registry among other callers\<close>

interpretation fleet: registry_fleet "fleet_client sample_cfg (\<lambda>k sc. 1) 60" fw_st "\<lambda>w. set (fw_watched w)"
    fw_clean "\<lambda>w. set (fw_issued w)" "fw_rely sample_cfg (\<lambda>k sc. 1) 60" sample_cfg "\<lambda>k sc. 1" 60
  by (rule fleet_client_contract)

definition half_request :: reservation where
  "half_request = (long_request 60)\<lparr>rq_amount := Fin (1 / 2)\<rparr>"

definition busy_fleet :: fleet_world where
  "busy_fleet =
     \<lparr>fw_base = empty_world, fw_deadlines = [],
      fw_script = [Other_Grant half_request, Elapse 1, Elapse 0, Elapse 2],
      fw_watched = [], fw_clean = True, fw_issued = []\<rparr>"

lemma busy_fleet_start: "reachable cfg cap max_ttl (fw_st busy_fleet) (\<lambda>i. None)"
proof -
  have "ref_hashes empty_world = (\<lambda>k f. None)"
    by (simp add: ref_hashes_def rw_hash_def empty_world_def fun_eq_iff)
  then have "fw_st busy_fleet = \<lparr>db_hashes = (\<lambda>k f. None), db_clock = 0, db_deadline = (\<lambda>k. None)\<rparr>"
    by (simp add: fw_st_def busy_fleet_def empty_world_def fun_eq_iff)
  then show ?thesis by (simp add: reachable.start)
qed

text \<open>C2: the code's own reservation, run among any number of other callers that grant, release, sweep
  and let time pass between its Redis calls, ends in a reachable state in which its lease is held and
  every scope is within its cap: the optimistic lock is enough.\<close>

theorem fleet_reserve_within_cap:
  assumes fl: "registry_fleet C st watched clean issued rely cfg cap max_ttl"
    and start: "reachable cfg cap max_ttl (st w) out"
    and ttl: "max_ttl \<le> KEY_TTL_SECONDS" "ttl \<le> max_ttl" and cap: "\<forall>k sc. 0 \<le> cap k sc" and sc: "scope_ok sc"
    and r: "reserve_budget C cfg pc sc amount run cs (PFloat (Fin (cap BUDGET sc))) ttl md w = (Inr l, w')"
  shows "\<exists>out'. reachable cfg cap max_ttl (st w') out' \<and> out' (lease_id l) = Some l
    \<and> (\<forall>k s. scope_ok s \<longrightarrow> held_sum k s (db_clock (st w')) out' \<le> cap k s + EPSILON)"
proof -
  from r obtain a c where
    a: "require_amount ''amount'' amount = Inr a" and
    c: "require_amount ''hard_cap'' (PFloat (Fin (cap BUDGET sc))) = Inr c" and
    res: "reserve C cfg \<lparr>rq_kind = BUDGET, rq_scope = sc, rq_class = pc, rq_amount = a,
           rq_unit = BUDGET_UNIT_BY_CLASS pc, rq_cap = c, rq_run_id = run,
           rq_cost_source = cs, rq_ttl = ttl, rq_metadata = md\<rparr> w = (Inr l, w')" (is "reserve C cfg ?q w = _")
    by (auto simp: reserve_budget_def resolve_cap_def split: sum.splits)
  have "c = Fin (cap BUDGET sc)" using c by (simp add: require_amount_def split: if_splits)
  moreover obtain x where "a = Fin x" "0 < x" using require_amount_ok [OF a] by blast
  ultimately have q: "rq_ok ?q" "rq_cap ?q = Fin (cap (rq_kind ?q) (rq_scope ?q))" "rq_ttl ?q \<le> max_ttl"
    using sc ttl(2) by (auto simp: rq_ok_def)
  from registry_fleet.reserve_trace [OF fl res q] obtain es where
    "trace cfg cap max_ttl (st w) (es @ [Granted l]) (st w')" by auto
  from trace_reachable [OF this start]
  have "reachable cfg cap max_ttl (st w') ((fold note_event es out)(lease_id l \<mapsto> l))" by simp
  with held_leases_within_cap [OF this ttl(1) cap] show ?thesis
    by (intro exI [of _ "(fold note_event es out)(lease_id l \<mapsto> l)"]) simp
qed

lemma busy_fleet_grant:
  "\<exists>l w'. reserve_budget (fleet_client sample_cfg (\<lambda>k sc. 1) 60) sample_cfg PER_TOKEN sample_scope
     (PFloat (Fin (1 / 2))) ''run-2'' (Some METERED) (PFloat (Fin 1)) 60 [] busy_fleet = (Inr l, w')"
proof -
  have "is_ok (fst (reserve_budget (fleet_client sample_cfg (\<lambda>k sc. 1) 60) sample_cfg PER_TOKEN sample_scope
     (PFloat (Fin (1 / 2))) ''run-2'' (Some METERED) (PFloat (Fin 1)) 60 [] busy_fleet))"
    by code_simp
  then show ?thesis by (rule is_ok_fstD)
qed

theorem fleet_reserve_within_cap_witness:
  "\<exists>l w' out'. reserve_budget (fleet_client sample_cfg (\<lambda>k sc. 1) 60) sample_cfg PER_TOKEN sample_scope
     (PFloat (Fin (1 / 2))) ''run-2'' (Some METERED) (PFloat (Fin 1)) 60 [] busy_fleet = (Inr l, w')
     \<and> held_sum BUDGET sample_scope (db_clock (fw_st w')) out' \<le> 1 + EPSILON \<and> out' (lease_id l) = Some l"
proof -
  obtain l w' where r: "reserve_budget (fleet_client sample_cfg (\<lambda>k sc. 1) 60) sample_cfg PER_TOKEN sample_scope
     (PFloat (Fin (1 / 2))) ''run-2'' (Some METERED) (PFloat (Fin 1)) 60 [] busy_fleet = (Inr l, w')"
    using busy_fleet_grant by blast
  from fleet_reserve_within_cap [OF fleet.registry_fleet_axioms busy_fleet_start _ _ _ sample_scope_ok r]
  show ?thesis using r sample_scope_ok by (fastforce simp: KEY_TTL_SECONDS_def)
qed

text \<open>Release and the sweep are safe among other callers as well: whatever they return, the state they
  leave is reachable, so every scope stays within its cap.\<close>

theorem fleet_release_sweep_within_cap:
  assumes fl: "registry_fleet C st watched clean issued rely cfg cap max_ttl"
    and start: "reachable cfg cap max_ttl (st w) out"
    and ttl: "max_ttl \<le> KEY_TTL_SECONDS" and cap: "\<forall>k sc. 0 \<le> cap k sc"
    and r: "release C cfg lid w = (r, w') \<or> expire_leases C cfg ks w = (s, w')"
  shows "\<exists>out'. reachable cfg cap max_ttl (st w') out'
    \<and> (\<forall>k sc. scope_ok sc \<longrightarrow> held_sum k sc (db_clock (st w')) out' \<le> cap k sc + EPSILON)"
proof -
  obtain es where "trace cfg cap max_ttl (st w) es (st w')"
    using r registry_fleet.release_trace [OF fl] registry_fleet.expire_leases_trace [OF fl] by metis
  from trace_reachable [OF this start] have "reachable cfg cap max_ttl (st w') (fold note_event es out)" .
  with held_leases_within_cap [OF this ttl cap] show ?thesis by blast
qed

theorem fleet_release_sweep_within_cap_witness:
  "\<exists>r w' out'. release (fleet_client sample_cfg (\<lambda>k sc. 1) 60) sample_cfg ''bud_x'' busy_fleet = (r, w')
     \<and> held_sum BUDGET sample_scope (db_clock (fw_st w')) out' \<le> 1 + EPSILON"
proof -
  obtain r w' where r: "release (fleet_client sample_cfg (\<lambda>k sc. 1) 60) sample_cfg ''bud_x'' busy_fleet = (r, w')"
    by fastforce
  from fleet_release_sweep_within_cap [OF fleet.registry_fleet_axioms busy_fleet_start _ _ disjI1 [OF r]]
  show ?thesis using r sample_scope_ok by (fastforce simp: KEY_TTL_SECONDS_def)
qed

end
