(* ===== verification/Admission_Context.thy ===== *)
theory Admission_Context
  imports Cost_Provenance Float_Text
begin

text \<open>
  \<open>core/admission_context.py\<close>: the proof of an admission that crosses a process boundary. An
  environment and a request are maps from names to values; the in-process carrier and the
  process environment are the two fields of a state that \<open>bind_context\<close> sets and restores.
  An error carries the reason and the names involved, not the message text. The lemmas show
  that a context survives the trip through an environment, that \<open>bind_context\<close> restores both
  carriers whatever its body does, and exactly when the guard refuses.
\<close>

section \<open>Vocabulary\<close>

definition ADMISSION_REQUIRED_ENV :: string where "ADMISSION_REQUIRED_ENV = ''FINOPS_ADMISSION_REQUIRED''"
definition RUN_ID_ENV :: string where "RUN_ID_ENV = ''FINOPS_ADMISSION_RUN_ID''"
definition MODEL_ENV :: string where "MODEL_ENV = ''FINOPS_ADMISSION_MODEL''"
definition BUDGET_LEASE_ENV :: string where "BUDGET_LEASE_ENV = ''FINOPS_BUDGET_LEASE_ID''"
definition CONCURRENCY_LEASE_ENV :: string where "CONCURRENCY_LEASE_ENV = ''FINOPS_CONCURRENCY_LEASE_IDS''"
definition RESERVED_USD_ENV :: string where "RESERVED_USD_ENV = ''FINOPS_ADMISSION_RESERVED_USD''"
definition HARD_CAP_USD_ENV :: string where "HARD_CAP_USD_ENV = ''FINOPS_ADMISSION_HARD_CAP_USD''"
definition EXPIRES_AT_ENV :: string where "EXPIRES_AT_ENV = ''FINOPS_ADMISSION_EXPIRES_AT''"
definition COST_SOURCE_ENV :: string where "COST_SOURCE_ENV = ''FINOPS_ADMISSION_COST_SOURCE''"

definition ADMISSION_ENV_KEYS :: "string list" where
  "ADMISSION_ENV_KEYS =
     [RUN_ID_ENV, MODEL_ENV, BUDGET_LEASE_ENV, CONCURRENCY_LEASE_ENV, RESERVED_USD_ENV,
      HARD_CAP_USD_ENV, EXPIRES_AT_ENV, COST_SOURCE_ENV]"

definition LEASE_REQUEST_FIELDS :: "string list" where
  "LEASE_REQUEST_FIELDS =
     [''reserved_cost_usd'', ''hard_cap_usd'', ''budget_lease_id'', ''concurrency_lease_id'', ''expires_at'']"

definition TRUTHY :: "string list" where
  "TRUTHY = [''1'', ''true'', ''True'', ''yes'', ''on'']"

lemmas env_names = RUN_ID_ENV_def MODEL_ENV_def BUDGET_LEASE_ENV_def CONCURRENCY_LEASE_ENV_def
  RESERVED_USD_ENV_def HARD_CAP_USD_ENV_def EXPIRES_AT_ENV_def COST_SOURCE_ENV_def

text \<open>What is wrong with the lease block of a request, in the order the validator reports it.\<close>

datatype field_problem =
    BlockMissing
  | BlockPartial "string list"
  | BadBudgetLeaseId
  | BadConcurrencyLeaseId
  | BadReserved
  | DollarsWithoutCap
  | BadHardCap
  | ReservedOverCap
  | BadExpiresAt

text \<open>\<open>AdmissionContextError\<close>, by the place that raises it.\<close>

datatype context_error =
    HalfWritten "string list"
  | Incomplete
  | NonNumericAmount
  | InvalidBlock "field_problem list"
  | BadRequestValue
  | Bypassed
  | ContextExpired
  | WrongModel
  | UnpricedPerToken

type_synonym environ = "string \<Rightarrow> string option"

section \<open>The context\<close>

record lease_context =
  ctx_run_id :: string
  ctx_model :: string
  ctx_budget_lease_id :: string
  ctx_concurrency_lease_ids :: "string list"
  ctx_reserved_cost_usd :: pyfloat
  ctx_hard_cap_usd :: "pyfloat option"
  ctx_expires_at :: pyfloat
  ctx_cost_source :: "cost_source option"

definition cost_is_trusted :: "lease_context \<Rightarrow> bool" where
  "cost_is_trusted c \<longleftrightarrow> (case ctx_cost_source c of None \<Rightarrow> False | Some s \<Rightarrow> s \<in> set TRUSTED_COST_SOURCES)"

definition ctx_is_expired :: "lease_context \<Rightarrow> rat \<Rightarrow> bool" where
  "ctx_is_expired c now \<longleftrightarrow> fle (ctx_expires_at c) (Fin now)"

definition to_env :: "lease_context \<Rightarrow> (string \<times> string) list" where
  "to_env c =
     [(RUN_ID_ENV, ctx_run_id c),
      (MODEL_ENV, ctx_model c),
      (BUDGET_LEASE_ENV, ctx_budget_lease_id c),
      (CONCURRENCY_LEASE_ENV, join_with (CHR '','') (ctx_concurrency_lease_ids c)),
      (RESERVED_USD_ENV, repr_float (ctx_reserved_cost_usd c)),
      (HARD_CAP_USD_ENV, case ctx_hard_cap_usd c of None \<Rightarrow> [] | Some x \<Rightarrow> repr_float x),
      (EXPIRES_AT_ENV, repr_float (ctx_expires_at c)),
      (COST_SOURCE_ENV, case ctx_cost_source c of None \<Rightarrow> [] | Some s \<Rightarrow> cost_source_value s)]"

text \<open>\<open>(source.get(key) or "").strip()\<close>, and the same with a default for a blank value.\<close>

definition env_text :: "environ \<Rightarrow> string \<Rightarrow> string" where
  "env_text env k = py_strip (case env k of None \<Rightarrow> [] | Some s \<Rightarrow> s)"

definition env_amount :: "environ \<Rightarrow> string \<Rightarrow> pyfloat option" where
  "env_amount env k = py_float (if env_text env k = [] then ''0'' else env_text env k)"

definition split_ids :: "string \<Rightarrow> string list" where
  "split_ids s = filter (\<lambda>p. p \<noteq> []) (map py_strip (split_on (CHR '','') s))"

definition from_env :: "environ \<Rightarrow> context_error + lease_context option" where
  "from_env env =
     (let run_id = env_text env RUN_ID_ENV; budget_id = env_text env BUDGET_LEASE_ENV in
      if run_id = [] \<and> budget_id = [] then
        (let stated = filter (\<lambda>k. env_text env k \<noteq> []) ADMISSION_ENV_KEYS
         in if stated = [] then Inr None else Inl (HalfWritten (sort stated)))
      else if run_id = [] \<or> budget_id = [] then Inl Incomplete
      else
        (let raw_cap = env_text env HARD_CAP_USD_ENV in
         case (env_amount env RESERVED_USD_ENV,
               if raw_cap = [] then Some None else map_option Some (py_float raw_cap),
               env_amount env EXPIRES_AT_ENV) of
           (Some reserved, Some hard_cap, Some expires_at) \<Rightarrow>
             Inr (Some
               \<lparr>ctx_run_id = run_id, ctx_model = env_text env MODEL_ENV,
                ctx_budget_lease_id = budget_id,
                ctx_concurrency_lease_ids =
                  split_ids (case env CONCURRENCY_LEASE_ENV of None \<Rightarrow> [] | Some s \<Rightarrow> s),
                ctx_reserved_cost_usd = reserved, ctx_hard_cap_usd = hard_cap,
                ctx_expires_at = expires_at,
                ctx_cost_source = coerce_cost_source
                  (Inr (case env COST_SOURCE_ENV of None \<Rightarrow> PNone | Some s \<Rightarrow> PStr s))\<rparr>)
         | _ \<Rightarrow> Inl NonNumericAmount))"

definition to_request_fields :: "lease_context \<Rightarrow> pydict" where
  "to_request_fields c =
     [(''reserved_cost_usd'', PFloat (ctx_reserved_cost_usd c)),
      (''hard_cap_usd'', opt_float (ctx_hard_cap_usd c)),
      (''budget_lease_id'', PStr (ctx_budget_lease_id c)),
      (''concurrency_lease_id'', PStr (join_with (CHR '','') (ctx_concurrency_lease_ids c))),
      (''expires_at'', PFloat (ctx_expires_at c))]"

definition ctx_to_dict :: "lease_context \<Rightarrow> pydict" where
  "ctx_to_dict c =
     [(''run_id'', PStr (ctx_run_id c)),
      (''model'', PStr (ctx_model c)),
      (''budget_lease_id'', PStr (ctx_budget_lease_id c)),
      (''concurrency_lease_ids'', PList (map PStr (ctx_concurrency_lease_ids c))),
      (''reserved_cost_usd'', PFloat (ctx_reserved_cost_usd c)),
      (''hard_cap_usd'', opt_float (ctx_hard_cap_usd c)),
      (''expires_at'', PFloat (ctx_expires_at c))]"

section \<open>The structural validator\<close>

definition is_real_amount :: "pyval \<Rightarrow> bool" where
  "is_real_amount v = (case as_number v of None \<Rightarrow> False | Some x \<Rightarrow> is_finite x)"

definition has_field :: "pydict \<Rightarrow> string \<Rightarrow> bool" where
  "has_field d k \<longleftrightarrow> map_of d k \<noteq> None"

definition amount_of :: "pyval \<Rightarrow> pyfloat" where
  "amount_of v = (case as_number v of None \<Rightarrow> NaN | Some x \<Rightarrow> x)"

definition validate_lease_fields :: "pydict \<Rightarrow> bool \<Rightarrow> field_problem list" where
  "validate_lease_fields request required =
     (let present = filter (has_field request) LEASE_REQUEST_FIELDS;
          missing = filter (\<lambda>f. \<not> has_field request f) LEASE_REQUEST_FIELDS
      in if present = [] then (if required then [BlockMissing] else [])
         else if missing \<noteq> [] then [BlockPartial missing]
         else
           (let budget = pyget request ''budget_lease_id''; conc = pyget request ''concurrency_lease_id'';
                reserved = pyget request ''reserved_cost_usd''; cap = pyget request ''hard_cap_usd'';
                bad_reserved = (\<not> is_real_amount reserved \<or> flt (amount_of reserved) (Fin 0))
            in (case budget of PStr s \<Rightarrow> if py_strip s = [] then [BadBudgetLeaseId] else [] | _ \<Rightarrow> [BadBudgetLeaseId])
             @ (case conc of PStr s \<Rightarrow> [] | _ \<Rightarrow> [BadConcurrencyLeaseId])
             @ (if bad_reserved then [BadReserved] else [])
             @ (if cap = PNone then
                  (if \<not> bad_reserved \<and> flt (Fin 0) (amount_of reserved) then [DollarsWithoutCap] else [])
                else if \<not> is_real_amount cap \<or> fle (amount_of cap) (Fin 0) then [BadHardCap]
                else if \<not> bad_reserved \<and> flt (amount_of cap) (amount_of reserved) then [ReservedOverCap]
                else [])
             @ (if is_real_amount (pyget request ''expires_at'') then [] else [BadExpiresAt])))"

text \<open>\<open>str(raw or "")\<close>, and the last conversions of \<open>from_request_fields\<close>, which cannot raise after
  a clean validation.\<close>

definition text_or_empty :: "pyval \<Rightarrow> string" where
  "text_or_empty v = (if truthy v then py_str v else [])"

definition from_request_fields :: "pydict \<Rightarrow> string \<Rightarrow> string \<Rightarrow> context_error + lease_context" where
  "from_request_fields request run_id model =
     (let errors = validate_lease_fields request True in
      if errors \<noteq> [] then Inl (InvalidBlock errors)
      else case (float_of (pyget request ''reserved_cost_usd''),
                 if pyget request ''hard_cap_usd'' = PNone then Some None
                 else map_option Some (float_of (pyget request ''hard_cap_usd'')),
                 float_of (pyget request ''expires_at'')) of
             (Some reserved, Some cap, Some expires_at) \<Rightarrow>
               Inr \<lparr>ctx_run_id = (if run_id \<noteq> [] then run_id else text_or_empty (pyget request ''run_id'')),
                    ctx_model = (if model \<noteq> [] then model else text_or_empty (pyget request ''model'')),
                    ctx_budget_lease_id = py_str (pyget request ''budget_lease_id''),
                    ctx_concurrency_lease_ids = split_ids (text_or_empty (pyget request ''concurrency_lease_id'')),
                    ctx_reserved_cost_usd = reserved, ctx_hard_cap_usd = cap,
                    ctx_expires_at = expires_at, ctx_cost_source = None\<rparr>
           | _ \<Rightarrow> Inl BadRequestValue)"

section \<open>The carriers and the guard\<close>

record carrier =
  in_process :: "lease_context option"
  process_env :: environ

definition current_context :: "carrier \<Rightarrow> context_error + lease_context option" where
  "current_context s = (case in_process s of Some c \<Rightarrow> Inr (Some c) | None \<Rightarrow> from_env (process_env s))"

text \<open>The two halves of \<open>bind_context\<close>: entering returns what is needed to restore.\<close>

definition bind_enter :: "lease_context \<Rightarrow> carrier \<Rightarrow> (lease_context option \<times> (string \<times> string option) list) \<times> carrier" where
  "bind_enter c s =
     ((in_process s, map (\<lambda>k. (k, process_env s k)) ADMISSION_ENV_KEYS),
      s\<lparr>in_process := Some c,
        process_env := foldl (\<lambda>env (k, v). env(k \<mapsto> v)) (process_env s) (to_env c)\<rparr>)"

definition bind_exit :: "lease_context option \<times> (string \<times> string option) list \<Rightarrow> carrier \<Rightarrow> carrier" where
  "bind_exit saved s =
     s\<lparr>in_process := fst saved,
       process_env := foldl (\<lambda>env (k, v). env(k := v)) (process_env s) (snd saved)\<rparr>"

definition bind_context :: "lease_context \<Rightarrow> (carrier \<Rightarrow> 'r \<times> carrier) \<Rightarrow> carrier \<Rightarrow> 'r \<times> carrier" where
  "bind_context c body s =
     (case bind_enter c s of (saved, s1) \<Rightarrow>
      (case body s1 of (r, s2) \<Rightarrow> (r, bind_exit saved s2)))"

definition admission_required :: "environ \<Rightarrow> bool" where
  "admission_required env \<longleftrightarrow> env_text env ADMISSION_REQUIRED_ENV \<in> set TRUTHY"

definition require_admission :: "string \<Rightarrow> carrier \<Rightarrow> rat \<Rightarrow> context_error + lease_context option" where
  "require_admission model s now =
     (case current_context s of
        Inl e \<Rightarrow> Inl e
      | Inr ctx \<Rightarrow>
          if \<not> admission_required (process_env s) then Inr ctx
          else (case ctx of
              None \<Rightarrow> Inl Bypassed
            | Some c \<Rightarrow>
                if ctx_is_expired c now then Inl ContextExpired
                else if model \<noteq> [] \<and> ctx_model c \<noteq> [] \<and> model \<noteq> ctx_model c then Inl WrongModel
                else if is_per_token_model (if model \<noteq> [] then model else ctx_model c) \<and> \<not> cost_is_trusted c
                  then Inl UnpricedPerToken
                else Inr (Some c)))"

section \<open>The environment\<close>

lemma env_keys_distinct: "distinct ADMISSION_ENV_KEYS"
  by code_simp

lemma to_env_keys: "map fst (to_env c) = ADMISSION_ENV_KEYS"
  by (simp add: to_env_def ADMISSION_ENV_KEYS_def)

lemma update_env: "distinct (map fst kvs) \<Longrightarrow>
    foldl (\<lambda>env (k, v). env(k \<mapsto> v)) env kvs k = (case map_of kvs k of None \<Rightarrow> env k | Some v \<Rightarrow> Some v)"
proof (induction kvs arbitrary: env)
  case (Cons kv kvs)
  obtain a b where kv: "kv = (a, b)" by fastforce
  with Cons.prems have "map_of kvs a = None" by (simp add: map_of_eq_None_iff)
  with Cons kv show ?case by simp
qed simp

lemma restore_env: "distinct (map fst kvs) \<Longrightarrow>
    foldl (\<lambda>env (k, v). env(k := v)) env kvs k = (case map_of kvs k of None \<Rightarrow> env k | Some v \<Rightarrow> v)"
proof (induction kvs arbitrary: env)
  case (Cons kv kvs)
  obtain a b where kv: "kv = (a, b)" by fastforce
  with Cons.prems have "map_of kvs a = None" by (simp add: map_of_eq_None_iff)
  with Cons kv show ?case by simp
qed simp

text \<open>The environment a child inherits, key by key.\<close>

definition stamped :: "lease_context \<Rightarrow> environ \<Rightarrow> environ" where
  "stamped c env = foldl (\<lambda>env (k, v). env(k \<mapsto> v)) env (to_env c)"

lemma stamped_lookup: "stamped c env k = (case map_of (to_env c) k of None \<Rightarrow> env k | Some v \<Rightarrow> Some v)"
  unfolding stamped_def by (rule update_env) (simp add: to_env_keys env_keys_distinct)

lemma env_text_stamped:
  "env_text (stamped c env) RUN_ID_ENV = py_strip (ctx_run_id c)"
  "env_text (stamped c env) MODEL_ENV = py_strip (ctx_model c)"
  "env_text (stamped c env) BUDGET_LEASE_ENV = py_strip (ctx_budget_lease_id c)"
  "stamped c env CONCURRENCY_LEASE_ENV = Some (join_with (CHR '','') (ctx_concurrency_lease_ids c))"
  "env_text (stamped c env) RESERVED_USD_ENV = py_strip (repr_float (ctx_reserved_cost_usd c))"
  "env_text (stamped c env) HARD_CAP_USD_ENV = py_strip (case ctx_hard_cap_usd c of None \<Rightarrow> [] | Some x \<Rightarrow> repr_float x)"
  "env_text (stamped c env) EXPIRES_AT_ENV = py_strip (repr_float (ctx_expires_at c))"
  "stamped c env COST_SOURCE_ENV = Some (case ctx_cost_source c of None \<Rightarrow> [] | Some s \<Rightarrow> cost_source_value s)"
  by (simp_all add: env_text_def stamped_lookup to_env_def env_names)

lemma py_float_strip: "py_float (py_strip s) = py_float s"
  by (simp add: py_float_def)

lemma py_float_blank: "py_strip s = [] \<Longrightarrow> py_float s = None"
proof -
  assume "py_strip s = []"
  then have "py_float s = py_float []" by (metis py_float_strip)
  also have "\<dots> = None" by code_simp
  finally show ?thesis .
qed

lemma repr_not_blank: "printable x \<Longrightarrow> py_strip (repr_float x) \<noteq> [] \<and> py_float (py_strip (repr_float x)) = Some x"
  using py_float_printable [of x] py_float_blank [of "repr_float x"] by (auto simp: py_float_strip)

lemma coerce_stored: "coerce_cost_source (Inr (PStr (case x of None \<Rightarrow> [] | Some s \<Rightarrow> cost_source_value s))) = x"
proof (cases x)
  case None
  then show ?thesis by (simp add: coerce_cost_source_def)
next
  case (Some s)
  then show ?thesis by (cases s) (simp; code_simp)+
qed

text \<open>A context as the controller makes it: ids without blanks at the ends or commas, and floats whose
  decimal expansion has at most 20 places.\<close>

definition ctx_ok :: "lease_context \<Rightarrow> bool" where
  "ctx_ok c \<longleftrightarrow>
     ctx_run_id c \<noteq> [] \<and> py_strip (ctx_run_id c) = ctx_run_id c \<and>
     ctx_budget_lease_id c \<noteq> [] \<and> py_strip (ctx_budget_lease_id c) = ctx_budget_lease_id c \<and>
     py_strip (ctx_model c) = ctx_model c \<and>
     list_all (\<lambda>i. i \<noteq> [] \<and> py_strip i = i \<and> CHR '','' \<notin> set i) (ctx_concurrency_lease_ids c) \<and>
     printable (ctx_reserved_cost_usd c) \<and> printable (ctx_expires_at c) \<and>
     (case ctx_hard_cap_usd c of None \<Rightarrow> True | Some x \<Rightarrow> printable x)"

lemma split_ids_join:
  assumes "list_all (\<lambda>i. i \<noteq> [] \<and> py_strip i = i \<and> CHR '','' \<notin> set i) is"
  shows "split_ids (join_with (CHR '','') is) = is"
proof (cases "is = []")
  case True
  then show ?thesis by (simp add: split_ids_def)
next
  case False
  then have "split_on (CHR '','') (join_with (CHR '','') is) = is"
    using assms by (intro split_on_join) (auto simp: list_all_iff)
  moreover have "map py_strip is = is" using assms by (auto simp: list_all_iff intro: map_idI)
  moreover have "filter (\<lambda>p. p \<noteq> []) is = is" using assms by (auto simp: list_all_iff intro: filter_True)
  ultimately show ?thesis by (simp add: split_ids_def)
qed

lemma from_env_stamped:
  assumes "ctx_ok c"
  shows "from_env (stamped c env) = Inr (Some c)"
proof -
  have r: "env_amount (stamped c env) RESERVED_USD_ENV = Some (ctx_reserved_cost_usd c)"
    and e: "env_amount (stamped c env) EXPIRES_AT_ENV = Some (ctx_expires_at c)"
    using assms repr_not_blank by (simp_all add: env_amount_def env_text_stamped ctx_ok_def)
  have h: "(if env_text (stamped c env) HARD_CAP_USD_ENV = [] then Some None
      else map_option Some (py_float (env_text (stamped c env) HARD_CAP_USD_ENV))) = Some (ctx_hard_cap_usd c)"
    using assms repr_not_blank by (auto simp: env_text_stamped ctx_ok_def split: option.splits)
  have "from_env (stamped c env) = Inr (Some
      \<lparr>ctx_run_id = ctx_run_id c, ctx_model = ctx_model c, ctx_budget_lease_id = ctx_budget_lease_id c,
       ctx_concurrency_lease_ids = ctx_concurrency_lease_ids c,
       ctx_reserved_cost_usd = ctx_reserved_cost_usd c, ctx_hard_cap_usd = ctx_hard_cap_usd c,
       ctx_expires_at = ctx_expires_at c, ctx_cost_source = ctx_cost_source c\<rparr>)"
    unfolding from_env_def Let_def h r e
    using assms by (simp add: env_text_stamped coerce_stored split_ids_join ctx_ok_def)
  then show ?thesis by simp
qed

definition sample_context :: lease_context where
  "sample_context =
     \<lparr>ctx_run_id = ''run-1'', ctx_model = ''deepseek/v4'', ctx_budget_lease_id = ''bud_1'',
      ctx_concurrency_lease_ids = [''con_1'', ''con_2''], ctx_reserved_cost_usd = Fin (5 / 2),
      ctx_hard_cap_usd = Some (Fin 10), ctx_expires_at = Fin 100, ctx_cost_source = Some METERED\<rparr>"

lemma sample_context_ok: "ctx_ok sample_context"
  by code_simp

text \<open>A context survives the environment of a child process: whatever the environment was before,
  writing \<open>to_env\<close> into it and reading it with \<open>from_env\<close> gives the same context, the cost source
  and every concurrency lease included.\<close>

theorem env_roundtrip:
  assumes "ctx_ok c"
  shows "from_env (process_env (snd (bind_enter c s))) = Inr (Some c)
    \<and> (\<forall>k. k \<notin> set ADMISSION_ENV_KEYS \<longrightarrow> process_env (snd (bind_enter c s)) k = process_env s k)"
proof -
  have "process_env (snd (bind_enter c s)) = stamped c (process_env s)"
    by (simp add: bind_enter_def stamped_def)
  moreover have "map_of (to_env c) k = None" if "k \<notin> set ADMISSION_ENV_KEYS" for k
    using that to_env_keys [of c] by (metis map_of_eq_None_iff list.set_map)
  ultimately show ?thesis using from_env_stamped [OF assms] by (simp add: stamped_lookup)
qed

theorem env_roundtrip_witness:
  "from_env (process_env (snd (bind_enter sample_context \<lparr>in_process = None, process_env = (\<lambda>k. None)\<rparr>)))
     = Inr (Some sample_context)"
  using env_roundtrip [OF sample_context_ok] by blast

lemma bind_exit_restores:
  "in_process (bind_exit (fst (bind_enter c s)) s2) = in_process s
   \<and> (\<forall>k. process_env (bind_exit (fst (bind_enter c s)) s2) k
        = (if k \<in> set ADMISSION_ENV_KEYS then process_env s k else process_env s2 k))"
proof -
  let ?saved = "map (\<lambda>k. (k, process_env s k)) ADMISSION_ENV_KEYS"
  have "distinct (map fst ?saved)" using env_keys_distinct by (simp add: comp_def)
  from restore_env [OF this, of "process_env s2"] show ?thesis
    by (simp add: bind_exit_def bind_enter_def map_of_map_restrict restrict_map_def)
qed

text \<open>\<open>bind_context\<close> is scoped: inside, the bound context is the one in force; on the way out, however
  the body ends, the in-process carrier and every admission key of the environment are what they were,
  absent keys absent again, and the other keys are what the body left.\<close>

theorem bind_context_restores:
  assumes "body (snd (bind_enter c s)) = (r, s2)" and "bind_context c body s = (r', s')"
  shows "r' = r \<and> current_context (snd (bind_enter c s)) = Inr (Some c)
    \<and> in_process s' = in_process s
    \<and> (\<forall>k. process_env s' k = (if k \<in> set ADMISSION_ENV_KEYS then process_env s k else process_env s2 k))"
proof -
  have "r' = r" "s' = bind_exit (fst (bind_enter c s)) s2"
    using assms by (auto simp: bind_context_def split: prod.splits)
  with bind_exit_restores [of c s s2] show ?thesis
    by (simp add: bind_enter_def current_context_def)
qed

theorem bind_context_restores_witness:
  "process_env (snd (bind_context sample_context (\<lambda>s. ((), s\<lparr>process_env := (process_env s)(''A'' \<mapsto> ''b'')\<rparr>))
      \<lparr>in_process = None, process_env = (\<lambda>k. None)\<rparr>)) RUN_ID_ENV = None"
proof -
  let ?s = "\<lparr>in_process = None, process_env = (\<lambda>k. None)\<rparr>"
  let ?body = "\<lambda>s. ((), s\<lparr>process_env := (process_env s)(''A'' \<mapsto> ''b'')\<rparr>)"
  obtain r' s' where r: "bind_context sample_context ?body ?s = (r', s')" by (rule prod.exhaust)
  from bind_context_restores [OF refl r] show ?thesis by (simp add: r ADMISSION_ENV_KEYS_def)
qed

section \<open>The guard\<close>

text \<open>With the gate armed, an invocation goes through exactly when a context is in force that has not
  expired, names no other model, and states a trusted cost source if the model is billed per token (a
  model of an unclassified provider counts as one); with the gate disarmed the context is only read.\<close>

theorem require_admission_iff:
  "(admission_required (process_env s) \<longrightarrow>
     (require_admission model s now = Inr r \<longleftrightarrow>
       (\<exists>c. r = Some c \<and> current_context s = Inr (Some c) \<and> \<not> fle (ctx_expires_at c) (Fin now)
          \<and> (model = [] \<or> ctx_model c = [] \<or> model = ctx_model c)
          \<and> (is_per_token_model (if model \<noteq> [] then model else ctx_model c) \<longrightarrow>
               (\<exists>x. ctx_cost_source c = Some x \<and> x \<noteq> UNKNOWN)))))
   \<and> (\<not> admission_required (process_env s) \<longrightarrow> require_admission model s now = current_context s)"
  by (auto simp: require_admission_def ctx_is_expired_def cost_is_trusted_def split: sum.splits option.splits if_splits)

theorem require_admission_iff_witness:
  "require_admission ''deepseek/v4'' \<lparr>in_process = Some sample_context,
      process_env = [ADMISSION_REQUIRED_ENV \<mapsto> ''1'']\<rparr> 50 = Inr (Some sample_context)"
proof -
  let ?s = "\<lparr>in_process = Some sample_context, process_env = [ADMISSION_REQUIRED_ENV \<mapsto> ''1'']\<rparr>"
  have "admission_required (process_env ?s)" by code_simp
  with require_admission_iff [of ?s "''deepseek/v4''" 50 "Some sample_context"] show ?thesis
    by (simp add: current_context_def sample_context_def)
qed

text \<open>An environment whose expiry reads as NaN gives a context that never expires: \<open>from_env\<close> accepts the
  text \<open>nan\<close>, and \<open>is_expired\<close> compares with it at no instant.\<close>

theorem nan_expiry_never_expires:
  assumes "env_text env EXPIRES_AT_ENV = ''nan''" and "from_env env = Inr (Some c)"
  shows "ctx_expires_at c = NaN \<and> \<not> ctx_is_expired c now"
proof -
  have "py_float ''nan'' = Some NaN" by code_simp
  with assms show ?thesis
    by (auto simp: from_env_def Let_def env_amount_def ctx_is_expired_def split: if_splits option.splits)
qed

theorem nan_expiry_never_expires_witness:
  "\<exists>c. from_env [RUN_ID_ENV \<mapsto> ''r'', BUDGET_LEASE_ENV \<mapsto> ''b'', EXPIRES_AT_ENV \<mapsto> ''nan''] = Inr (Some c)
     \<and> \<not> ctx_is_expired c 1000000"
proof -
  let ?env = "[RUN_ID_ENV \<mapsto> ''r'', BUDGET_LEASE_ENV \<mapsto> ''b'', EXPIRES_AT_ENV \<mapsto> ''nan'']"
  let ?c = "\<lparr>ctx_run_id = ''r'', ctx_model = [], ctx_budget_lease_id = ''b'', ctx_concurrency_lease_ids = [],
     ctx_reserved_cost_usd = Fin 0, ctx_hard_cap_usd = None, ctx_expires_at = NaN, ctx_cost_source = None\<rparr>"
  have c: "from_env ?env = Inr (Some ?c)" by code_simp
  have "env_text ?env EXPIRES_AT_ENV = ''nan''" by code_simp
  from nan_expiry_never_expires [OF this c] c show ?thesis by blast
qed

section \<open>Requests\<close>

lemma is_real_amount_iff: "is_real_amount v \<longleftrightarrow> (\<exists>q. as_number v = Some (Fin q))"
  by (auto simp: is_real_amount_def is_finite_conv split: option.splits)

lemma amount_of_Fin: "as_number v = Some (Fin q) \<Longrightarrow> amount_of v = Fin q"
  by (simp add: amount_of_def)

text \<open>A well-formed lease block: both ids are texts, the budget lease is named, the reservation is a finite
  amount that is not negative, and a cap is a positive finite amount that covers it; without a cap
  nothing is reserved.\<close>

definition block_ok :: "pydict \<Rightarrow> bool" where
  "block_ok d \<longleftrightarrow> (\<forall>f \<in> set LEASE_REQUEST_FIELDS. has_field d f)
     \<and> (\<exists>b. pyget d ''budget_lease_id'' = PStr b \<and> py_strip b \<noteq> [])
     \<and> (\<exists>s. pyget d ''concurrency_lease_id'' = PStr s)
     \<and> (\<exists>r \<ge> 0. as_number (pyget d ''reserved_cost_usd'') = Some (Fin r)
          \<and> (pyget d ''hard_cap_usd'' = PNone \<and> r = 0
             \<or> (\<exists>c > 0. as_number (pyget d ''hard_cap_usd'') = Some (Fin c) \<and> r \<le> c)))
     \<and> (\<exists>e. as_number (pyget d ''expires_at'') = Some (Fin e))"

lemma reserved_check:
  "(\<not> is_real_amount v \<or> flt (amount_of v) (Fin 0)) \<longleftrightarrow> \<not> (\<exists>r \<ge> 0. as_number v = Some (Fin r))"
  by (auto simp: is_real_amount_iff amount_of_def not_less)

lemma text_checks:
  "(case v of PStr s \<Rightarrow> if py_strip s = [] then [p] else [] | _ \<Rightarrow> [p]) = [] \<longleftrightarrow> (\<exists>b. v = PStr b \<and> py_strip b \<noteq> [])"
  "(case v of PStr s \<Rightarrow> [] | _ \<Rightarrow> [p]) = [] \<longleftrightarrow> (\<exists>s. v = PStr s)"
  by (cases v; simp)+

lemma cap_check:
  assumes r: "as_number v = Some (Fin r)" "0 \<le> r"
  shows "(if cap = PNone then (if flt (Fin 0) (amount_of v) then [DollarsWithoutCap] else [])
     else if \<not> is_real_amount cap \<or> fle (amount_of cap) (Fin 0) then [BadHardCap]
     else if flt (amount_of cap) (amount_of v) then [ReservedOverCap] else []) = []
   \<longleftrightarrow> cap = PNone \<and> r = 0 \<or> (\<exists>c > 0. as_number cap = Some (Fin c) \<and> r \<le> c)"
  using r by (auto simp: is_real_amount_iff amount_of_Fin not_le)

lemma validate_lease_fields_ok:
  "validate_lease_fields d required = [] \<longleftrightarrow>
     block_ok d \<or> \<not> required \<and> (\<forall>f \<in> set LEASE_REQUEST_FIELDS. \<not> has_field d f)"
proof -
  have ne: "LEASE_REQUEST_FIELDS \<noteq> []" by (simp add: LEASE_REQUEST_FIELDS_def)
  consider (none) "\<forall>f \<in> set LEASE_REQUEST_FIELDS. \<not> has_field d f"
    | (some) "\<exists>f \<in> set LEASE_REQUEST_FIELDS. has_field d f" "\<exists>f \<in> set LEASE_REQUEST_FIELDS. \<not> has_field d f"
    | (all) "\<forall>f \<in> set LEASE_REQUEST_FIELDS. has_field d f" by blast
  then show ?thesis
  proof cases
    case none
    then have "filter (has_field d) LEASE_REQUEST_FIELDS = []" by (simp add: filter_empty_conv)
    moreover have "\<not> block_ok d" using none ne by (auto simp: block_ok_def)
    ultimately show ?thesis using none by (simp add: validate_lease_fields_def)
  next
    case some
    then have "filter (has_field d) LEASE_REQUEST_FIELDS \<noteq> []" "filter (\<lambda>f. \<not> has_field d f) LEASE_REQUEST_FIELDS \<noteq> []"
      by (simp_all add: filter_empty_conv)
    with some show ?thesis by (auto simp: validate_lease_fields_def block_ok_def)
  next
    case all
    then have p: "filter (has_field d) LEASE_REQUEST_FIELDS = LEASE_REQUEST_FIELDS"
      "filter (\<lambda>f. \<not> has_field d f) LEASE_REQUEST_FIELDS = []"
      by (simp_all add: filter_empty_conv)
    have "\<not> (\<forall>f \<in> set LEASE_REQUEST_FIELDS. \<not> has_field d f)" using all ne by (metis list.set_sel(1))
    moreover have "validate_lease_fields d required = [] \<longleftrightarrow> block_ok d"
    proof (cases "\<exists>r \<ge> 0. as_number (pyget d ''reserved_cost_usd'') = Some (Fin r)")
      case False
      then have bad: "(\<not> is_real_amount (pyget d ''reserved_cost_usd'')
          \<or> flt (amount_of (pyget d ''reserved_cost_usd'')) (Fin 0)) = True"
        by (simp only: reserved_check) simp
      have "validate_lease_fields d required \<noteq> []"
        unfolding validate_lease_fields_def Let_def p bad using ne by (simp only: if_True append_is_Nil_conv) simp
      with False show ?thesis by (auto simp: block_ok_def)
    next
      case True
      then obtain r where r: "0 \<le> r" "as_number (pyget d ''reserved_cost_usd'') = Some (Fin r)" by blast
      let ?v = "pyget d ''reserved_cost_usd''" and ?cap = "pyget d ''hard_cap_usd''"
      let ?A = "case pyget d ''budget_lease_id'' of PStr s \<Rightarrow> if py_strip s = [] then [BadBudgetLeaseId] else []
        | _ \<Rightarrow> [BadBudgetLeaseId]"
      let ?B = "case pyget d ''concurrency_lease_id'' of PStr s \<Rightarrow> [] | _ \<Rightarrow> [BadConcurrencyLeaseId]"
      let ?C = "if ?cap = PNone then (if flt (Fin 0) (amount_of ?v) then [DollarsWithoutCap] else [])
        else if \<not> is_real_amount ?cap \<or> fle (amount_of ?cap) (Fin 0) then [BadHardCap]
        else if flt (amount_of ?cap) (amount_of ?v) then [ReservedOverCap] else []"
      let ?E = "if is_real_amount (pyget d ''expires_at'') then [] else [BadExpiresAt]"
      have good: "(\<not> is_real_amount ?v \<or> flt (amount_of ?v) (Fin 0)) = False"
        using True by (simp only: reserved_check) simp
      have v: "validate_lease_fields d required = ?A @ ?B @ ?C @ ?E"
        unfolding validate_lease_fields_def Let_def p good using ne by simp
      have "?C = [] \<longleftrightarrow> ?cap = PNone \<and> r = 0 \<or> (\<exists>c > 0. as_number ?cap = Some (Fin c) \<and> r \<le> c)"
        by (rule cap_check [OF r(2,1)])
      moreover have "?E = [] \<longleftrightarrow> (\<exists>e. as_number (pyget d ''expires_at'') = Some (Fin e))"
        by (simp add: is_real_amount_iff)
      ultimately have "validate_lease_fields d required = [] \<longleftrightarrow>
          (\<exists>b. pyget d ''budget_lease_id'' = PStr b \<and> py_strip b \<noteq> [])
          \<and> (\<exists>s. pyget d ''concurrency_lease_id'' = PStr s)
          \<and> (?cap = PNone \<and> r = 0 \<or> (\<exists>c > 0. as_number ?cap = Some (Fin c) \<and> r \<le> c))
          \<and> (\<exists>e. as_number (pyget d ''expires_at'') = Some (Fin e))"
        unfolding v append_is_Nil_conv text_checks by simp
      moreover have "(\<exists>x \<ge> 0. as_number ?v = Some (Fin x)
            \<and> (?cap = PNone \<and> x = 0 \<or> (\<exists>c > 0. as_number ?cap = Some (Fin c) \<and> x \<le> c)))
          \<longleftrightarrow> (?cap = PNone \<and> r = 0 \<or> (\<exists>c > 0. as_number ?cap = Some (Fin c) \<and> r \<le> c))"
        using r by auto
      ultimately show ?thesis using all unfolding block_ok_def by simp
    qed
    ultimately show ?thesis by blast
  qed
qed

text \<open>\<open>validate_lease_fields\<close> accepts exactly the well-formed lease blocks, and, where none is required,
  the requests with no lease field at all.\<close>

theorem validate_lease_fields_iff:
  "validate_lease_fields d required = [] \<longleftrightarrow>
     block_ok d \<or> \<not> required \<and> (\<forall>f \<in> set LEASE_REQUEST_FIELDS. \<not> has_field d f)"
  by (rule validate_lease_fields_ok)

lemma sample_block_ok: "block_ok (to_request_fields sample_context)"
proof -
  have "list_all (has_field (to_request_fields sample_context)) LEASE_REQUEST_FIELDS" by code_simp
  moreover have "py_strip ''bud_1'' \<noteq> []" by code_simp
  moreover have "as_number (pyget (to_request_fields sample_context) ''reserved_cost_usd'') = Some (Fin (5 / 2))"
    "as_number (pyget (to_request_fields sample_context) ''hard_cap_usd'') = Some (Fin 10)"
    "as_number (pyget (to_request_fields sample_context) ''expires_at'') = Some (Fin 100)"
    "pyget (to_request_fields sample_context) ''budget_lease_id'' = PStr ''bud_1''"
    "pyget (to_request_fields sample_context) ''concurrency_lease_id'' = PStr ''con_1,con_2''"
    by code_simp+
  ultimately show ?thesis unfolding block_ok_def list_all_iff
    by (auto intro!: exI [of _ "5 / 2"])
qed

theorem validate_lease_fields_iff_witness:
  "validate_lease_fields (to_request_fields sample_context) True = []"
  using validate_lease_fields_iff sample_block_ok by blast

text \<open>The request fields are not a faithful copy of a context: a context that goes through
  \<open>to_request_fields\<close> and \<open>from_request_fields\<close> keeps everything but its cost source, so the rebuilt
  context of a model billed per token is refused by the armed guard, whatever its cost source was.\<close>

theorem request_trip_drops_cost_source:
  assumes "ctx_ok c" and "block_ok (to_request_fields c)" and "ctx_model c \<noteq> []"
  shows "from_request_fields (to_request_fields c) (ctx_run_id c) (ctx_model c) = Inr (c\<lparr>ctx_cost_source := None\<rparr>)
    \<and> (is_per_token_model (ctx_model c) \<longrightarrow> admission_required (process_env s) \<longrightarrow>
         in_process s = Some (c\<lparr>ctx_cost_source := None\<rparr>) \<longrightarrow>
         \<not> is_ok (require_admission (ctx_model c) s now))"
proof -
  have "validate_lease_fields (to_request_fields c) True = []"
    using assms(2) validate_lease_fields_ok by blast
  moreover have "pyget (to_request_fields c) ''hard_cap_usd'' = opt_float (ctx_hard_cap_usd c)"
    by (simp add: to_request_fields_def pyget_def)
  moreover have "split_ids (text_or_empty (PStr (join_with (CHR '','') (ctx_concurrency_lease_ids c)))) = ctx_concurrency_lease_ids c"
    using split_ids_join [of "ctx_concurrency_lease_ids c"] assms(1)
    by (cases "join_with (CHR '','') (ctx_concurrency_lease_ids c)")
      (auto simp: ctx_ok_def text_or_empty_def py_str_def)
  ultimately have "from_request_fields (to_request_fields c) (ctx_run_id c) (ctx_model c) = Inr (c\<lparr>ctx_cost_source := None\<rparr>)"
    using assms(1,3)
    by (cases "ctx_hard_cap_usd c")
      (auto simp: from_request_fields_def Let_def to_request_fields_def pyget_def opt_float_def ctx_ok_def py_str_def)
  then show ?thesis
    by (auto simp: require_admission_def current_context_def cost_is_trusted_def)
qed

theorem request_trip_drops_cost_source_witness:
  "from_request_fields (to_request_fields sample_context) ''run-1'' ''deepseek/v4''
     = Inr (sample_context\<lparr>ctx_cost_source := None\<rparr>)"
  using request_trip_drops_cost_source [OF sample_context_ok sample_block_ok]
  by (simp add: sample_context_def)

end
