(* ===== verification/Settlement.thy ===== *)
theory Settlement
  imports Cost_Provenance Redis_Client
begin

text \<open>
  \<open>control/settlement.py\<close>: the comparison of what a run reserved with what the provider's meter
  charged. \<open>settle\<close> is a function of the loaded usage ledger (a value of unknown shape) and of the
  clock; \<open>settle_run\<close> adds the two file operations, on a small file system that holds the usage
  snapshot and the settlement lines. An iteration over a value that is not iterable raises TypeError,
  the only error these functions have. The lemmas give the classification in terms of rationals, the
  meaning of every field of a settlement, and what a run leaves in the history.
\<close>

section \<open>Vocabulary\<close>

datatype settlement_status = MATCHED | OVERSPENT | UNDERSPENT | UNSETTLED

fun settlement_status_value :: "settlement_status \<Rightarrow> string" where
  "settlement_status_value MATCHED = ''matched''"
| "settlement_status_value OVERSPENT = ''overspent''"
| "settlement_status_value UNDERSPENT = ''underspent''"
| "settlement_status_value UNSETTLED = ''unsettled''"

datatype settle_error = TypeError

definition DEFAULT_ABS_TOLERANCE_USD :: pyfloat where
  "DEFAULT_ABS_TOLERANCE_USD = Fin (1 / 100)"

definition DEFAULT_REL_TOLERANCE :: pyfloat where
  "DEFAULT_REL_TOLERANCE = Fin (1 / 10)"

definition DEFAULT_ABS_TOLERANCE_PERCENT :: pyfloat where
  "DEFAULT_ABS_TOLERANCE_PERCENT = Fin 1"

record settlement =
  st_run_id :: string
  st_provider :: string
  st_model :: string
  st_reserved_amount :: pyfloat
  st_observed_amount :: "pyfloat option"
  st_variance :: "pyfloat option"
  st_status :: settlement_status
  st_cost_source :: cost_source
  st_estimation_method :: "string option"
  st_unit :: string
  st_detail :: string
  st_settled_at :: string

definition st_is_reconciled :: "settlement \<Rightarrow> bool" where
  "st_is_reconciled st \<longleftrightarrow> st_status st = MATCHED"

definition settled_cost_usd :: "settlement \<Rightarrow> pyfloat option" where
  "settled_cost_usd st = (if st_unit st \<noteq> ''usd'' then None else st_observed_amount st)"

definition settlement_to_dict :: "settlement \<Rightarrow> pydict" where
  "settlement_to_dict st =
     [(''run_id'', PStr (st_run_id st)),
      (''provider'', PStr (st_provider st)),
      (''model'', PStr (st_model st)),
      (''reserved_amount'', PFloat (st_reserved_amount st)),
      (''observed_amount'', opt_float (st_observed_amount st)),
      (''variance'', opt_float (st_variance st)),
      (''status'', PStr (settlement_status_value (st_status st))),
      (''cost_source'', PStr (cost_source_value (st_cost_source st))),
      (''estimation_method'', opt_str (st_estimation_method st)),
      (''unit'', PStr (st_unit st)),
      (''detail'', PStr (st_detail st)),
      (''settled_at'', PStr (st_settled_at st)),
      (''settled_cost_usd'', opt_float (settled_cost_usd st)),
      (''settlement_status'', PStr (settlement_status_value (st_status st)))]"

definition apply_to :: "settlement \<Rightarrow> cost_observation \<Rightarrow> cost_observation" where
  "apply_to st ob =
     (if \<not> st_is_reconciled st \<or> settled_cost_usd st = None then ob
      else \<lparr>obs_cost_usd = settled_cost_usd st, obs_source = RECONCILED,
            obs_estimation_method = st_estimation_method st,
            obs_reported_cost_usd = obs_reported_cost_usd ob\<rparr>)"

section \<open>Reading the meters\<close>

text \<open>\<open>for x in (v or [])\<close>: the elements of a list, the keys of a dict, the characters of a string.\<close>

fun py_iter :: "pyval \<Rightarrow> settle_error + pyval list" where
  "py_iter (PList xs) = Inr xs"
| "py_iter (PDict d) = Inr (map (PStr \<circ> fst) d)"
| "py_iter (PStr s) = Inr (map (\<lambda>c. PStr [c]) s)"
| "py_iter _ = Inl TypeError"

definition iter_or_empty :: "pyval \<Rightarrow> settle_error + pyval list" where
  "iter_or_empty v = (if truthy v then py_iter v else Inr [])"

fun day_bucket :: "pyval list \<Rightarrow> string \<Rightarrow> pyfloat option" where
  "day_bucket [] date = None"
| "day_bucket (PDict day # rest) date =
     (if pyget day ''date'' = PStr date then as_number (pyget day ''estimated_cost_usd'')
      else day_bucket rest date)"
| "day_bucket (_ # rest) date = day_bucket rest date"

definition platform_day_cost_usd :: "pyval \<Rightarrow> string \<Rightarrow> settle_error + pyfloat option" where
  "platform_day_cost_usd ledger date =
     (case ledger of
        PDict l \<Rightarrow>
          (case pyget l ''deepseek_platform'' of
             PDict block \<Rightarrow>
               if \<not> truthy (pyget block ''ok'') then Inr None
               else (case iter_or_empty (pyget block ''days'') of
                   Inl e \<Rightarrow> Inl e
                 | Inr days \<Rightarrow> Inr (day_bucket days date))
           | _ \<Rightarrow> Inr None)
      | _ \<Rightarrow> Inr None)"

fun window_values :: "string \<Rightarrow> pyval list \<Rightarrow> pyfloat list" where
  "window_values window [] = []"
| "window_values window (PDict entry # rest) =
     (if window \<noteq> [] \<and> pyget entry ''name'' \<noteq> PStr window then window_values window rest
      else case as_number (pyget entry ''used_percent'') of
             Some x \<Rightarrow> x # window_values window rest
           | None \<Rightarrow> window_values window rest)"
| "window_values window (_ # rest) = window_values window rest"

definition window_used_percent :: "pyval \<Rightarrow> string \<Rightarrow> string \<Rightarrow> settle_error + pyfloat option" where
  "window_used_percent ledger provider window =
     (case ledger of
        PDict l \<Rightarrow>
          (case pyget l ''providers'' of
             PDict providers \<Rightarrow>
               (case pyget providers provider of
                  PDict block \<Rightarrow>
                    if \<not> truthy (pyget block ''ok'') then Inr None
                    else (case iter_or_empty (pyget block ''windows'') of
                        Inl e \<Rightarrow> Inl e
                      | Inr entries \<Rightarrow>
                          (case window_values window entries of
                             [] \<Rightarrow> Inr None
                           | x # xs \<Rightarrow> Inr (Some (fmax_list x xs))))
                | _ \<Rightarrow> Inr None)
           | _ \<Rightarrow> Inr None)
      | _ \<Rightarrow> Inr None)"

section \<open>The comparison\<close>

definition classify_variance :: "pyfloat \<Rightarrow> pyfloat \<Rightarrow> pyfloat \<Rightarrow> pyfloat \<Rightarrow> settlement_status" where
  "classify_variance reserved observed abs_tolerance rel_tolerance =
     (let band = fmax (fabs abs_tolerance) (fmul (fabs rel_tolerance) (fabs reserved));
          delta = fsub observed reserved
      in if fle (fabs delta) band then MATCHED
         else if flt (Fin 0) delta then OVERSPENT else UNDERSPENT)"

text \<open>
  The moment of a settlement, as the two texts that the code takes from it: \<open>isoformat()\<close> and the
  calendar day.
\<close>

record moment =
  isoformat :: string
  utc_day :: string

text \<open>The inner function \<open>unsettled\<close> and the record of an answered comparison.\<close>

definition unsettled :: "string \<Rightarrow> string \<Rightarrow> pyfloat \<Rightarrow> string \<Rightarrow> string \<Rightarrow> string \<Rightarrow> settlement" where
  "unsettled run_id model reserved_amount settled_at unit detail =
     \<lparr>st_run_id = run_id, st_provider = provider_of_model model, st_model = model,
      st_reserved_amount = reserved_amount, st_observed_amount = None, st_variance = None,
      st_status = UNSETTLED, st_cost_source = UNKNOWN, st_estimation_method = None,
      st_unit = unit, st_detail = detail, st_settled_at = settled_at\<rparr>"

definition answered :: "string \<Rightarrow> string \<Rightarrow> pyfloat \<Rightarrow> string \<Rightarrow> pyfloat \<Rightarrow> settlement_status \<Rightarrow> string
    \<Rightarrow> string \<Rightarrow> string \<Rightarrow> settlement" where
  "answered run_id model reserved_amount settled_at observed status meth unit detail =
     \<lparr>st_run_id = run_id, st_provider = provider_of_model model, st_model = model,
      st_reserved_amount = reserved_amount, st_observed_amount = Some observed,
      st_variance = Some (fsub observed reserved_amount), st_status = status,
      st_cost_source = (if status = MATCHED then RECONCILED else METERED),
      st_estimation_method = Some meth, st_unit = unit, st_detail = detail,
      st_settled_at = settled_at\<rparr>"

definition settle ::
    "string \<Rightarrow> string \<Rightarrow> pyfloat \<Rightarrow> pyval \<Rightarrow> string \<Rightarrow> moment \<Rightarrow> pyfloat \<Rightarrow> pyfloat \<Rightarrow> pyfloat
      \<Rightarrow> settle_error + settlement" where
  "settle run_id model reserved_amount ledger date now abs_usd abs_percent rel =
     (let settled_at = isoformat now;
          day = (if date = [] then utc_day now else date);
          provider = provider_of_model model
      in case provider_class_or_none provider of
           Some SUBSCRIPTION \<Rightarrow>
             (case window_used_percent ledger provider [] of
                Inl e \<Rightarrow> Inl e
              | Inr None \<Rightarrow> Inr (unsettled run_id model reserved_amount settled_at ''window_percent''
                  (''no usage window reported for subscription provider '' @ repr_str provider))
              | Inr (Some observed) \<Rightarrow> Inr (answered run_id model reserved_amount settled_at observed
                  (classify_variance reserved_amount observed abs_percent rel)
                  METHOD_WINDOW_USAGE ''window_percent''
                  (''max window utilisation for '' @ provider @ '' at '' @ settled_at)))
         | Some PER_TOKEN \<Rightarrow>
             (case platform_day_cost_usd ledger day of
                Inl e \<Rightarrow> Inl e
              | Inr None \<Rightarrow> Inr (unsettled run_id model reserved_amount settled_at ''usd''
                  (''platform meter has no bucket for '' @ day @ '' (or the block is unhealthy)''))
              | Inr (Some observed) \<Rightarrow> Inr (answered run_id model reserved_amount settled_at observed
                  (classify_variance reserved_amount observed abs_usd rel)
                  METHOD_PLATFORM_METER_DAILY ''usd''
                  (''deepseek platform meter day bucket '' @ day)))
         | None \<Rightarrow> Inr (unsettled run_id model reserved_amount settled_at ''usd''
             (''provider '' @ repr_str provider @ '' has no declared cost class or meter'')))"

section \<open>The files\<close>

text \<open>
  The usage snapshot (\<open>None\<close>: absent or unreadable), the lines of the settlement history, oldest
  first, and whether that file can be opened and written.
\<close>

record settle_fs =
  fs_usage :: "rval option"
  fs_settlements :: "pydict list"
  fs_writable :: bool

definition load_usage_ledger :: "settle_fs \<Rightarrow> pyval" where
  "load_usage_ledger fs =
     (case fs_usage fs of None \<Rightarrow> PNone
      | Some raw \<Rightarrow> (case doc_loads raw of None \<Rightarrow> PNone | Some v \<Rightarrow> v))"

definition record_settlement :: "settlement \<Rightarrow> settle_fs \<Rightarrow> bool \<times> settle_fs" where
  "record_settlement st fs =
     (if fs_writable fs then (True, fs\<lparr>fs_settlements := fs_settlements fs @ [settlement_to_dict st]\<rparr>)
      else (False, fs))"

definition settle_run ::
    "string \<Rightarrow> string \<Rightarrow> pyfloat \<Rightarrow> string \<Rightarrow> bool \<Rightarrow> moment \<Rightarrow> settle_fs
      \<Rightarrow> (settle_error + settlement) \<times> settle_fs" where
  "settle_run run_id model reserved_amount date persist now fs =
     (case settle run_id model reserved_amount (load_usage_ledger fs) date now
             DEFAULT_ABS_TOLERANCE_USD DEFAULT_ABS_TOLERANCE_PERCENT DEFAULT_REL_TOLERANCE of
        Inl e \<Rightarrow> (Inl e, fs)
      | Inr st \<Rightarrow> (Inr st, if persist then snd (record_settlement st fs) else fs))"

text \<open>\<open>(source.get(SETTLEMENT_ENABLED_ENV) or "").strip().lower() in {...}\<close>.\<close>

definition settlement_enabled :: "(string \<Rightarrow> string option) \<Rightarrow> bool" where
  "settlement_enabled env =
     (let v = (case env ''FINOPS_SETTLEMENT_ENABLED'' of None \<Rightarrow> [] | Some s \<Rightarrow> s)
      in py_lower (py_strip v) \<in> set [''1'', ''true'', ''yes'', ''on''])"

section \<open>Lemmas\<close>

lemma fabs_Fin_fsub: "fabs (fsub (Fin a) (Fin b)) = Fin \<bar>a - b\<bar>"
  by simp

text \<open>The classification of finite figures: a closed band around the reservation.\<close>

lemma classify_Fin:
  fixes r x t p :: rat
  defines "band \<equiv> max \<bar>t\<bar> (\<bar>p\<bar> * \<bar>r\<bar>)"
  shows "classify_variance (Fin r) (Fin x) (Fin t) (Fin p) =
    (if x > r + band then OVERSPENT else if x < r - band then UNDERSPENT else MATCHED)"
proof -
  have "0 \<le> band" by (simp add: band_def)
  then show ?thesis
    by (auto simp: classify_variance_def Let_def abs_le_iff simp flip: band_def)
qed

lemma classify_answers: "classify_variance r x t p \<noteq> UNSETTLED"
  by (simp add: classify_variance_def Let_def)

lemma fmax_list_Fin: "\<exists>m. fmax_list (Fin a) (map Fin xs) = Fin m \<and> m \<in> set (a # xs) \<and> (\<forall>x \<in> set (a # xs). x \<le> m)"
proof (induction xs arbitrary: a)
  case (Cons x xs)
  from Cons.IH [of "max a x"] obtain m where
    m: "fmax_list (Fin (max a x)) (map Fin xs) = Fin m" "m \<in> set (max a x # xs)" "\<forall>y \<in> set (max a x # xs). y \<le> m"
    by blast
  then have "m \<in> set (a # x # xs)" by (auto simp: max_def split: if_splits)
  moreover have "\<forall>y \<in> set (a # x # xs). y \<le> m" using m(3) by auto
  ultimately show ?case using m(1) by (intro exI [of _ m]) simp
qed simp

text \<open>The meter that answers for a model.\<close>

definition meter_reading :: "string \<Rightarrow> pyval \<Rightarrow> string \<Rightarrow> settle_error + pyfloat option" where
  "meter_reading model ledger day =
     (case provider_class_or_none (provider_of_model model) of
        Some SUBSCRIPTION \<Rightarrow> window_used_percent ledger (provider_of_model model) []
      | Some PER_TOKEN \<Rightarrow> platform_day_cost_usd ledger day
      | None \<Rightarrow> Inr None)"

lemma settle_cases:
  assumes "settle run model r ledger date now t p q = res"
    and "day = (if date = [] then utc_day now else date)"
  obtains (error) "meter_reading model ledger day = Inl TypeError" "res = Inl TypeError"
    | (silent) unit detail where "meter_reading model ledger day = Inr None"
        "res = Inr (unsettled run model r (isoformat now) unit detail)"
    | (window) x detail where "meter_reading model ledger day = Inr (Some x)"
        "provider_class_or_none (provider_of_model model) = Some SUBSCRIPTION"
        "res = Inr (answered run model r (isoformat now) x (classify_variance r x p q) METHOD_WINDOW_USAGE
           ''window_percent'' detail)"
    | (dollars) x detail where "meter_reading model ledger day = Inr (Some x)"
        "provider_class_or_none (provider_of_model model) = Some PER_TOKEN"
        "res = Inr (answered run model r (isoformat now) x (classify_variance r x t q)
           METHOD_PLATFORM_METER_DAILY ''usd'' detail)"
proof -
  have e: "(e :: settle_error) = TypeError" for e by (cases e) simp
  show ?thesis
    using assms that e unfolding settle_def meter_reading_def Let_def
    by (auto split: option.splits provider_class.splits sum.splits)
qed

lemma unsettled_fields [simp]:
  "st_status (unsettled a b c d e f) = UNSETTLED" "st_observed_amount (unsettled a b c d e f) = None"
  "st_cost_source (unsettled a b c d e f) = UNKNOWN" "st_variance (unsettled a b c d e f) = None"
  "st_run_id (unsettled a b c d e f) = a" "st_reserved_amount (unsettled a b c d e f) = c"
  "st_unit (unsettled a b c d e f) = e"
  by (simp_all add: unsettled_def)

lemma answered_fields [simp]:
  "st_status (answered a b c d e f g h i) = f" "st_observed_amount (answered a b c d e f g h i) = Some e"
  "st_cost_source (answered a b c d e f g h i) = (if f = MATCHED then RECONCILED else METERED)"
  "st_variance (answered a b c d e f g h i) = Some (fsub e c)"
  "st_run_id (answered a b c d e f g h i) = a" "st_reserved_amount (answered a b c d e f g h i) = c"
  "st_unit (answered a b c d e f g h i) = h"
  "st_estimation_method (answered a b c d e f g h i) = Some g"
  by (simp_all add: answered_def)

section \<open>Properties\<close>


definition sample_ledger :: pyval where
  "sample_ledger = PDict [(''deepseek_platform'', PDict [(''ok'', PBool True), (''days'', PList
      [PDict [(''date'', PStr ''2026-07-01''), (''estimated_cost_usd'', PFloat (Fin (21 / 10)))]])]),
     (''providers'', PDict [(''anthropic'', PDict [(''ok'', PBool True), (''windows'', PList
      [PDict [(''name'', PStr ''5h''), (''used_percent'', PInt 40)],
       PDict [(''name'', PStr ''7d''), (''used_percent'', PFloat (Fin (25 / 2)))]])])])]"

definition sample_moment :: moment where
  "sample_moment = \<lparr>isoformat = ''2026-07-01T10:00:00+00:00'', utc_day = ''2026-07-01''\<rparr>"

lemma sample_settle:
  "settle ''r'' ''deepseek/v4'' (Fin 2) sample_ledger [] sample_moment (Fin (1 / 100)) (Fin 1) (Fin (1 / 10))
     = Inr (answered ''r'' ''deepseek/v4'' (Fin 2) ''2026-07-01T10:00:00+00:00'' (Fin (21 / 10)) MATCHED
         METHOD_PLATFORM_METER_DAILY ''usd'' ''deepseek platform meter day bucket 2026-07-01'')"
  by code_simp


text \<open>On finite figures the comparison is a closed two-sided band: with \<open>b\<close> the larger of the absolute
  tolerance and of the relative tolerance times the reservation, a run is OVERSPENT exactly when the meter
  read more than the reservation plus \<open>b\<close>, UNDERSPENT exactly when it read less than the reservation minus
  \<open>b\<close>, and MATCHED otherwise; a NaN on either side is never matched and always reported as UNDERSPENT.\<close>

theorem settlement_band:
  fixes r x t q :: rat
  defines "b \<equiv> max \<bar>t\<bar> (\<bar>q\<bar> * \<bar>r\<bar>)"
  shows "(classify_variance (Fin r) (Fin x) (Fin t) (Fin q) = OVERSPENT \<longleftrightarrow> r + b < x)
    \<and> (classify_variance (Fin r) (Fin x) (Fin t) (Fin q) = UNDERSPENT \<longleftrightarrow> x < r - b)
    \<and> (classify_variance (Fin r) (Fin x) (Fin t) (Fin q) = MATCHED \<longleftrightarrow> r - b \<le> x \<and> x \<le> r + b)
    \<and> classify_variance NaN (Fin x) (Fin t) (Fin q) = UNDERSPENT
    \<and> classify_variance (Fin r) NaN (Fin t) (Fin q) = UNDERSPENT"
proof -
  have "0 \<le> b" by (simp add: b_def)
  moreover have "classify_variance NaN (Fin x) (Fin t) (Fin q) = UNDERSPENT"
    "classify_variance (Fin r) NaN (Fin t) (Fin q) = UNDERSPENT"
    by (simp_all add: classify_variance_def Let_def fsub_def)
  ultimately show ?thesis unfolding classify_Fin b_def [symmetric] by auto
qed

text \<open>The reading of a subscription window is the tightest one: when every window of a healthy
  provider reports a number, the figure a run is settled against is one of them and no other is higher.\<close>

theorem window_reading_is_max:
  assumes "ledger = PDict l" and "pyget l ''providers'' = PDict ps"
    and "pyget ps provider = PDict block" and "truthy (pyget block ''ok'')"
    and "pyget block ''windows'' = PList (map PDict entries)" and "entries \<noteq> []"
    and "map (\<lambda>e. as_number (pyget e ''used_percent'')) entries = map (Some \<circ> Fin) us"
  shows "\<exists>m. window_used_percent ledger provider [] = Inr (Some (Fin m)) \<and> m \<in> set us \<and> (\<forall>u \<in> set us. u \<le> m)"
proof -
  have "window_values [] (map PDict es) = map Fin vs"
    if "map (\<lambda>e. as_number (pyget e ''used_percent'')) es = map (Some \<circ> Fin) vs" for es vs
    using that by (induction es arbitrary: vs) (auto simp: Cons_eq_map_conv)
  note vals = this [OF assms(7)]
  obtain v vs where us: "us = v # vs" using assms(6,7) by (cases us) auto
  obtain m where "fmax_list (Fin v) (map Fin vs) = Fin m" "m \<in> set us" "\<forall>u \<in> set us. u \<le> m"
    using fmax_list_Fin [of v vs] us by auto
  with us vals assms(1-6) show ?thesis
    by (auto simp: window_used_percent_def iter_or_empty_def)
qed

theorem window_reading_is_max_witness:
  "\<exists>m. window_used_percent sample_ledger ''anthropic'' [] = Inr (Some (Fin m))
     \<and> m \<in> set [40, 25 / 2] \<and> (\<forall>u \<in> set [40, 25 / 2]. u \<le> m)"
proof -
  let ?es = "[[(''name'', PStr ''5h''), (''used_percent'', PInt 40)],
     [(''name'', PStr ''7d''), (''used_percent'', PFloat (Fin (25 / 2)))]]"
  let ?block = "[(''ok'', PBool True), (''windows'', PList (map PDict ?es))]"
  let ?ps = "[(''anthropic'', PDict ?block)]"
  have "sample_ledger = PDict [(''deepseek_platform'', PDict [(''ok'', PBool True), (''days'', PList
      [PDict [(''date'', PStr ''2026-07-01''), (''estimated_cost_usd'', PFloat (Fin (21 / 10)))]])]),
     (''providers'', PDict ?ps)]"
    by (simp add: sample_ledger_def)
  then show ?thesis
    by (rule window_reading_is_max [where ps = ?ps and block = ?block and entries = ?es])
      (simp_all add: pyget_def)
qed

text \<open>A run's settlement leaves exactly one line in the history when it is persisted and the file can
  be written, and otherwise changes nothing; it never touches the usage snapshot. Applied to the run's own
  observation it replaces the figure only for a matched dollar settlement, by the meter's, with provenance
  RECONCILED and the reported figure kept.\<close>

theorem settle_run_history:
  assumes "settle_run run model r date persist now fs = (Inr st, fs')"
  shows "fs' = (if persist \<and> fs_writable fs
      then fs\<lparr>fs_settlements := fs_settlements fs @ [settlement_to_dict st]\<rparr> else fs)
    \<and> pyget (settlement_to_dict st) ''run_id'' = PStr run
    \<and> (apply_to st ob \<noteq> ob \<longrightarrow>
         provider_class_or_none (provider_of_model model) = Some PER_TOKEN \<and> st_status st = MATCHED
         \<and> obs_cost_usd (apply_to st ob) = st_observed_amount st \<and> st_observed_amount st \<noteq> None
         \<and> obs_source (apply_to st ob) = RECONCILED
         \<and> obs_reported_cost_usd (apply_to st ob) = obs_reported_cost_usd ob)"
proof -
  let ?l = "load_usage_ledger fs"
  have s: "settle run model r ?l date now DEFAULT_ABS_TOLERANCE_USD DEFAULT_ABS_TOLERANCE_PERCENT
      DEFAULT_REL_TOLERANCE = Inr st"
    and fs: "fs' = (if persist then snd (record_settlement st fs) else fs)"
    using assms by (auto simp: settle_run_def split: sum.splits)
  from s show ?thesis
    by (rule settle_cases [OF _ refl])
      (auto simp: fs record_settlement_def apply_to_def st_is_reconciled_def settled_cost_usd_def
        settlement_to_dict_def pyget_def)
qed

definition sample_fs :: settle_fs where
  "sample_fs = \<lparr>fs_usage = Some (Doc sample_ledger), fs_settlements = [], fs_writable = True\<rparr>"

lemma sample_settle_run:
  "settle_run ''r'' ''deepseek/v4'' (Fin 2) [] True sample_moment sample_fs
     = (Inr (answered ''r'' ''deepseek/v4'' (Fin 2) ''2026-07-01T10:00:00+00:00'' (Fin (21 / 10)) MATCHED
         METHOD_PLATFORM_METER_DAILY ''usd'' ''deepseek platform meter day bucket 2026-07-01''),
        sample_fs\<lparr>fs_settlements := [settlement_to_dict (answered ''r'' ''deepseek/v4'' (Fin 2)
         ''2026-07-01T10:00:00+00:00'' (Fin (21 / 10)) MATCHED METHOD_PLATFORM_METER_DAILY ''usd''
         ''deepseek platform meter day bucket 2026-07-01'')]\<rparr>)"
  by code_simp

theorem settle_run_history_witness:
  "obs_source (apply_to (answered ''r'' ''deepseek/v4'' (Fin 2) ''2026-07-01T10:00:00+00:00'' (Fin (21 / 10))
      MATCHED METHOD_PLATFORM_METER_DAILY ''usd'' ''deepseek platform meter day bucket 2026-07-01'')
      \<lparr>obs_cost_usd = None, obs_source = UNKNOWN, obs_estimation_method = None, obs_reported_cost_usd = None\<rparr>)
    = RECONCILED"
proof -
  let ?ob = "\<lparr>obs_cost_usd = None, obs_source = UNKNOWN, obs_estimation_method = None, obs_reported_cost_usd = None\<rparr>"
  have "apply_to (answered ''r'' ''deepseek/v4'' (Fin 2) ''2026-07-01T10:00:00+00:00'' (Fin (21 / 10))
      MATCHED METHOD_PLATFORM_METER_DAILY ''usd'' ''deepseek platform meter day bucket 2026-07-01'') ?ob \<noteq> ?ob"
    by (simp add: apply_to_def st_is_reconciled_def settled_cost_usd_def)
  with settle_run_history [OF sample_settle_run, of ?ob] show ?thesis by blast
qed

end
