(* ===== verification/Admission.thy ===== *)
theory Admission
  imports Lease_Types Admission_Context Settlement
begin

text \<open>
  \<open>control/admission.py\<close> and \<open>control/model_policy.py\<close>: how much a run reserves, the decision
  \<open>AdmissionController.admit\<close>, and the scoped helpers \<open>admitted\<close> and \<open>concurrency_admitted\<close>. The
  controller works over a registry, a record of the operations it calls; the locale
  \<open>lease_provider\<close> states what it needs of them, and \<open>Admission_Registry\<close> interprets it on the
  registry of \<open>Lease_Registry\<close>. The lemmas show that a denied admission leaves nothing behind
  and that a granted one holds every lease its record names.
\<close>

section \<open>The model policy\<close>

definition PRO_MODEL :: string where "PRO_MODEL = ''deepseek/deepseek-v4-pro''"

definition DENIED_MODELS :: "string list" where
  "DENIED_MODELS = [PRO_MODEL, ''openai/gpt-5.6-terra'', ''openai/gpt-5.6-sol'']"

definition ALLOW_PRO_ENV :: string where "ALLOW_PRO_ENV = ''FINOPS_ALLOW_PRO''"

definition is_pro_per_token :: "string \<Rightarrow> bool" where
  "is_pro_per_token model \<longleftrightarrow> model = PRO_MODEL \<or> ends_with model ''/deepseek-v4-pro''"

definition is_denied_by_default :: "string \<Rightarrow> bool" where
  "is_denied_by_default model \<longleftrightarrow> is_pro_per_token model \<or> model \<in> set DENIED_MODELS"

text \<open>\<open>None\<close> is ModelPolicyError.\<close>

definition ensure_model_allowed :: "environ \<Rightarrow> string \<Rightarrow> unit option" where
  "ensure_model_allowed env model =
     (if is_denied_by_default model \<and> (env ALLOW_PRO_ENV = None \<or> env ALLOW_PRO_ENV = Some [])
      then None else Some ())"

section \<open>Requests and refusals\<close>

definition RESERVE_USD_ENV :: string where "RESERVE_USD_ENV = ''FINOPS_RESERVE_USD''"
definition CAP_USD_ENV :: string where "CAP_USD_ENV = ''FINOPS_HARD_CAP_USD''"
definition WINDOW_RESERVE_PERCENT_ENV :: string where
  "WINDOW_RESERVE_PERCENT_ENV = ''FINOPS_WINDOW_RESERVE_PERCENT''"
definition DEFAULT_WINDOW_RESERVE_PERCENT :: pyfloat where "DEFAULT_WINDOW_RESERVE_PERCENT = Fin 1"
definition FLEET_SCOPE_ENV :: string where "FLEET_SCOPE_ENV = ''FINOPS_FLEET_SCOPE''"
definition DEFAULT_FLEET_SCOPE :: string where "DEFAULT_FLEET_SCOPE = ''default''"

text \<open>\<open>AdmissionDenied\<close> by the place that raises it, with the cause it carries and the leases whose
  release failed during the unwinding; \<open>Escaped\<close> is an exception that is no AdmissionError.\<close>

type_synonym unwind = "(string \<times> lease_error) list"

datatype refusal =
    PolicyRefused
  | UnclassifiedModel lease_error
  | BadEnvAmount string
  | UnpricedReservation
  | BudgetFailed lease_error
  | ConcurrencyFailed lease_error unwind
  | RecordInvalid lease_error unwind
  | StaleContext
  | RegistryUnreadable
  | NotOutstanding "string list"
  | Escaped lease_error
  | SettleRaised settle_error

record admission_request =
  arq_run_id :: string
  arq_model :: string
  arq_worktree :: string
  arq_namespace :: string
  arq_amount :: "pyfloat option"
  arq_cost_source :: "cost_source option"
  arq_hard_cap_usd :: "pyfloat option"
  arq_budget_scope :: "lease_scope option"
  arq_budget_cap :: "pyfloat option"
  arq_concurrency_scopes :: "lease_scope list"
  arq_enforce_concurrency :: bool
  arq_slots :: int
  arq_concurrency_caps :: "(lease_scope \<times> pyfloat) list"
  arq_ttl :: int
  arq_metadata :: pydict

definition arq_provider :: "admission_request \<Rightarrow> string" where
  "arq_provider q =
     (if CHR ''/'' \<in> set (arq_model q) then before_char (CHR ''/'') (arq_model q) else arq_model q)"

definition resolved_budget_scope :: "admission_request \<Rightarrow> lease_error + lease_scope" where
  "resolved_budget_scope q =
     (case arq_budget_scope q of Some s \<Rightarrow> Inr s | None \<Rightarrow> mk_scope PROVIDER (arq_provider q))"

definition resolved_concurrency_scopes :: "environ \<Rightarrow> admission_request \<Rightarrow> lease_error + lease_scope list" where
  "resolved_concurrency_scopes env q =
     (if \<not> arq_enforce_concurrency q then Inr []
      else if arq_concurrency_scopes q \<noteq> [] then Inr (arq_concurrency_scopes q)
      else
        (let fleet = env_text env FLEET_SCOPE_ENV in
         case mk_scope FLEET (if fleet = [] then DEFAULT_FLEET_SCOPE else fleet) of
           Inl e \<Rightarrow> Inl e | Inr s \<Rightarrow> Inr [s]))"

section \<open>How much is reserved\<close>

definition or_source :: "cost_source option \<Rightarrow> cost_source \<Rightarrow> cost_source" where
  "or_source c d = (case c of Some x \<Rightarrow> x | None \<Rightarrow> d)"

definition resolve_reservation ::
    "environ \<Rightarrow> string \<Rightarrow> pyfloat option \<Rightarrow> cost_source option \<Rightarrow> refusal + (pyfloat \<times> cost_source)" where
  "resolve_reservation env model amount cs =
     (case provider_class_for_model model of
        Inl e \<Rightarrow> Inl (UnclassifiedModel e)
      | Inr SUBSCRIPTION \<Rightarrow>
          (case amount of
             Some a \<Rightarrow> Inr (a, or_source cs ESTIMATED)
           | None \<Rightarrow>
               (let raw = env_text env WINDOW_RESERVE_PERCENT_ENV in
                if raw = [] then Inr (DEFAULT_WINDOW_RESERVE_PERCENT, or_source cs ESTIMATED)
                else (case py_float raw of None \<Rightarrow> Inl (BadEnvAmount WINDOW_RESERVE_PERCENT_ENV)
                      | Some a \<Rightarrow> Inr (a, or_source cs ESTIMATED))))
      | Inr PER_TOKEN \<Rightarrow>
          (case amount of
             Some a \<Rightarrow> Inr (a, or_source cs ESTIMATED)
           | None \<Rightarrow>
               (let raw = env_text env RESERVE_USD_ENV in
                if raw = [] then Inr (Fin 0, or_source cs UNKNOWN)
                else (case py_float raw of None \<Rightarrow> Inl (BadEnvAmount RESERVE_USD_ENV)
                      | Some a \<Rightarrow> Inr (a, or_source cs ESTIMATED)))))"

definition resolve_hard_cap_usd :: "environ \<Rightarrow> string \<Rightarrow> pyfloat option \<Rightarrow> refusal + pyfloat option" where
  "resolve_hard_cap_usd env model cap =
     (case provider_class_for_model model of
        Inl e \<Rightarrow> Inl (UnclassifiedModel e)
      | Inr SUBSCRIPTION \<Rightarrow> Inr None
      | Inr PER_TOKEN \<Rightarrow>
          (case cap of
             Some c \<Rightarrow> Inr (Some c)
           | None \<Rightarrow>
               (let raw = env_text env CAP_USD_ENV in
                if raw = [] then Inr None
                else (case py_float raw of None \<Rightarrow> Inl (BadEnvAmount CAP_USD_ENV) | Some c \<Rightarrow> Inr (Some c)))))"

section \<open>The registry the controller works over\<close>

record 'w registry =
  rg_reserve_budget :: "provider_class \<Rightarrow> lease_scope \<Rightarrow> pyval \<Rightarrow> string \<Rightarrow> cost_source option \<Rightarrow> pyval \<Rightarrow>
    int \<Rightarrow> pydict \<Rightarrow> 'w \<Rightarrow> (lease_error + lease) \<times> 'w"
  rg_reserve_concurrency :: "lease_scope \<Rightarrow> pyval \<Rightarrow> string \<Rightarrow> pyval \<Rightarrow> int \<Rightarrow> pydict \<Rightarrow> 'w \<Rightarrow>
    (lease_error + lease) \<times> 'w"
  rg_release :: "string \<Rightarrow> 'w \<Rightarrow> (lease_error + lease option) \<times> 'w"

record admission =
  adm_record :: admission_record
  adm_budget_lease :: lease
  adm_concurrency_leases :: "lease list"

definition adm_lease_ids :: "admission \<Rightarrow> string list" where
  "adm_lease_ids a = lease_id (adm_budget_lease a) # map lease_id (adm_concurrency_leases a)"

definition earliest_expiry :: "lease \<Rightarrow> lease list \<Rightarrow> pyfloat" where
  "earliest_expiry l ls = fmin_list (lease_expires_at l) (map lease_expires_at ls)"

definition adm_expires_at :: "admission \<Rightarrow> pyfloat" where
  "adm_expires_at a = earliest_expiry (adm_budget_lease a) (adm_concurrency_leases a)"

definition float_or_zero :: "pyval \<Rightarrow> pyfloat" where
  "float_or_zero v = (if truthy v then (case float_of v of None \<Rightarrow> Fin 0 | Some x \<Rightarrow> x) else Fin 0)"

definition opt_number :: "pyval \<Rightarrow> pyfloat option" where
  "opt_number v = (if v = PNone then None else as_number v)"

definition adm_context :: "admission \<Rightarrow> lease_context" where
  "adm_context a =
     \<lparr>ctx_run_id = rec_run_id (adm_record a), ctx_model = rec_model (adm_record a),
      ctx_budget_lease_id = lease_id (adm_budget_lease a),
      ctx_concurrency_lease_ids = map lease_id (adm_concurrency_leases a),
      ctx_reserved_cost_usd = float_or_zero (rec_reserved_cost_usd (adm_record a)),
      ctx_hard_cap_usd = opt_number (rec_hard_cap_usd (adm_record a)),
      ctx_expires_at = adm_expires_at a,
      ctx_cost_source = rec_cost_source (adm_record a)\<rparr>"

definition adm_env :: "admission \<Rightarrow> (string \<times> string) list" where
  "adm_env a = to_env (adm_context a)"

text \<open>\<open>{**request.metadata, **identity_metadata, "model": ..., "kind": ...}\<close>.\<close>

definition lease_metadata_for :: "admission_request \<Rightarrow> string \<Rightarrow> pydict" where
  "lease_metadata_for q kind =
     dict_merge (arq_metadata q)
       [(''worktree_identity'', PStr (arq_worktree q)), (''result_namespace'', PStr (arq_namespace q)),
        (''model'', PStr (arq_model q)), (''kind'', PStr kind)]"

text \<open>The loop over the concurrency scopes: the leases taken so far, and the error that stopped it.\<close>

fun take_slots :: "'w registry \<Rightarrow> admission_request \<Rightarrow> lease_scope list \<Rightarrow> 'w \<Rightarrow>
    lease list \<times> lease_error option \<times> 'w" where
  "take_slots R q [] w = ([], None, w)"
| "take_slots R q (sc # scs) w =
     (case rg_reserve_concurrency R sc (PInt (arq_slots q)) (arq_run_id q)
             (opt_float (map_of (arq_concurrency_caps q) sc)) (arq_ttl q) (lease_metadata_for q ''concurrency'') w of
        (Inl e, w') \<Rightarrow> ([], Some e, w')
      | (Inr l, w') \<Rightarrow> (case take_slots R q scs w' of (ls, e, w'') \<Rightarrow> (l # ls, e, w'')))"

text \<open>\<open>_release_all\<close>: the releases that failed; an exception outside the family stops it (\<open>Inl\<close>).\<close>

fun release_all :: "'w registry \<Rightarrow> lease list \<Rightarrow> 'w \<Rightarrow> (lease_error + unwind) \<times> 'w" where
  "release_all R [] w = (Inr [], w)"
| "release_all R (l # ls) w =
     (case rg_release R (lease_id l) w of
        (Inl e, w') \<Rightarrow>
          if is_admission_error e then
            (case release_all R ls w' of
               (Inl x, w'') \<Rightarrow> (Inl x, w'')
             | (Inr ps, w'') \<Rightarrow> (Inr ((lease_id l, e) # ps), w''))
          else (Inl e, w')
      | (Inr _, w') \<Rightarrow> release_all R ls w')"

text \<open>The refusal after an unwinding.\<close>

definition unwound :: "'w registry \<Rightarrow> lease list \<Rightarrow> (unwind \<Rightarrow> refusal) \<Rightarrow> 'w \<Rightarrow> refusal \<times> 'w" where
  "unwound R taken why w =
     (case release_all R taken w of (Inl x, w') \<Rightarrow> (Escaped x, w') | (Inr ps, w') \<Rightarrow> (why ps, w'))"

definition build_record :: "admission_request \<Rightarrow> provider_class \<Rightarrow> pyfloat \<Rightarrow> cost_source \<Rightarrow> pyfloat option \<Rightarrow>
    lease \<Rightarrow> lease list \<Rightarrow> admission_record" where
  "build_record q pc amount cs cap bl cls =
     \<lparr>rec_run_id = arq_run_id q, rec_lease_ids = lease_id bl # map lease_id cls,
      rec_reserved_cost_usd = PFloat (if pc = PER_TOKEN then amount else Fin 0),
      rec_hard_cap_usd = opt_float cap, rec_cost_source = Some cs,
      rec_provider = arq_provider q, rec_model = arq_model q,
      rec_expires_at = PFloat (earliest_expiry bl cls),
      rec_worktree_identity = arq_worktree q, rec_result_namespace = arq_namespace q\<rparr>"

definition admit_leases :: "'w registry \<Rightarrow> environ \<Rightarrow> admission_request \<Rightarrow> provider_class \<Rightarrow> pyfloat \<Rightarrow>
    cost_source \<Rightarrow> pyfloat option \<Rightarrow> 'w \<Rightarrow> (refusal + admission) \<times> 'w" where
  "admit_leases R env q pc amount cs cap w =
     (case (case resolved_budget_scope q of
              Inl e \<Rightarrow> (Inl e, w)
            | Inr sc \<Rightarrow> rg_reserve_budget R pc sc (PFloat amount) (arq_run_id q) (Some cs)
                (opt_float (arq_budget_cap q)) (arq_ttl q) (lease_metadata_for q ''budget'') w) of
        (Inl e, w1) \<Rightarrow> (Inl (if is_admission_error e then BudgetFailed e else Escaped e), w1)
      | (Inr bl, w1) \<Rightarrow>
          (case (case resolved_concurrency_scopes env q of
                   Inl e \<Rightarrow> ([], Some e, w1)
                 | Inr scs \<Rightarrow> take_slots R q scs w1) of
             (cls, Some e, w2) \<Rightarrow>
               if is_admission_error e then
                 (case unwound R (bl # cls) (ConcurrencyFailed e) w2 of (d, w3) \<Rightarrow> (Inl d, w3))
               else (Inl (Escaped e), w2)
           | (cls, None, w2) \<Rightarrow>
               (let rec = build_record q pc amount cs cap bl cls in
                case record_validate rec of
                  Inl e \<Rightarrow> (case unwound R (bl # cls) (RecordInvalid e) w2 of (d, w3) \<Rightarrow> (Inl d, w3))
                | Inr _ \<Rightarrow>
                    (Inr \<lparr>adm_record = rec, adm_budget_lease = bl, adm_concurrency_leases = cls\<rparr>, w2))))"

definition admit :: "'w registry \<Rightarrow> environ \<Rightarrow> admission_request \<Rightarrow> 'w \<Rightarrow> (refusal + admission) \<times> 'w" where
  "admit R env q w =
     (case ensure_model_allowed env (arq_model q) of
        None \<Rightarrow> (Inl PolicyRefused, w)
      | Some _ \<Rightarrow>
      (case provider_class_for_model (arq_model q) of
        Inl e \<Rightarrow> (Inl (UnclassifiedModel e), w)
      | Inr pc \<Rightarrow>
      (case resolve_reservation env (arq_model q) (arq_amount q) (arq_cost_source q) of
        Inl d \<Rightarrow> (Inl d, w)
      | Inr (amount, cs) \<Rightarrow>
      (case resolve_hard_cap_usd env (arq_model q) (arq_hard_cap_usd q) of
        Inl d \<Rightarrow> (Inl d, w)
      | Inr cap \<Rightarrow>
          if pc = PER_TOKEN \<and> cs = UNKNOWN then (Inl UnpricedReservation, w)
          else admit_leases R env q pc amount cs cap w))))"

section \<open>Release and the scoped helpers\<close>

fun release_ids :: "'w registry \<Rightarrow> string list \<Rightarrow> 'w \<Rightarrow> (lease_error + lease list) \<times> 'w" where
  "release_ids R [] w = (Inr [], w)"
| "release_ids R (i # is) w =
     (case rg_release R i w of
        (Inl e, w') \<Rightarrow> (Inl e, w')
      | (Inr x, w') \<Rightarrow>
          (case release_ids R is w' of
             (Inl e, w'') \<Rightarrow> (Inl e, w'')
           | (Inr ls, w'') \<Rightarrow> (Inr (case x of None \<Rightarrow> ls | Some l \<Rightarrow> l # ls), w'')))"

definition release_admission :: "'w registry \<Rightarrow> admission \<Rightarrow> 'w \<Rightarrow> (lease_error + lease list) \<times> 'w" where
  "release_admission R a w = release_ids R (adm_lease_ids a) w"

text \<open>\<open>with suppress(AdmissionError)\<close>: only an exception outside the family replaces the result.\<close>

definition suppressed :: "lease_error + 'a \<Rightarrow> refusal + 'r \<Rightarrow> refusal + 'r" where
  "suppressed rel r = (case rel of Inl e \<Rightarrow> if is_admission_error e then r else Inl (Escaped e) | Inr _ \<Rightarrow> r)"

text \<open>
  \<open>admitted\<close>: the body runs on the carriers and the world and returns its result or exception;
  \<open>armed\<close> and \<open>settling\<close> are \<open>settlement_enabled\<close> and \<open>settle_run\<close> on the world's files
  (\<open>Admission_Settlement\<close> supplies them). An exception of the settlement leaves the \<open>finally\<close>
  clause before the release.
\<close>

definition admitted :: "'w registry \<Rightarrow> (environ \<Rightarrow> bool) \<Rightarrow>
    (admission \<Rightarrow> admission_request \<Rightarrow> 'w \<Rightarrow> (settle_error + settlement) \<times> 'w) \<Rightarrow>
    admission_request \<Rightarrow> (admission \<Rightarrow> carrier \<times> 'w \<Rightarrow> 'r \<times> carrier \<times> 'w) \<Rightarrow> carrier \<times> 'w \<Rightarrow>
    (refusal + 'r) \<times> carrier \<times> 'w" where
  "admitted R armed settling q body sw =
     (case sw of (s, w) \<Rightarrow>
      (case admit R (process_env s) q w of
         (Inl d, w1) \<Rightarrow> (Inl d, s, w1)
       | (Inr adm, w1) \<Rightarrow>
           (case bind_enter (adm_context adm) s of (saved, s1) \<Rightarrow>
            (case body adm (s1, w1) of (r, s2, w2) \<Rightarrow>
              (let s3 = bind_exit saved s2 in
               case (if armed (process_env s3)
                     then (case settling adm q w2 of (Inl e, w3) \<Rightarrow> (Some e, w3) | (Inr _, w3) \<Rightarrow> (None, w3))
                     else (None, w2)) of
                 (Some e, w3) \<Rightarrow> (Inl (SettleRaised e), s3, w3)
               | (None, w3) \<Rightarrow>
                   (case release_admission R adm w3 of
                      (rel, w4) \<Rightarrow> (suppressed rel (Inr r), s3, w4)))))))"

definition concurrency_admitted :: "'w registry \<Rightarrow> lease_scope \<Rightarrow> int \<Rightarrow> string \<Rightarrow> int \<Rightarrow> pydict \<Rightarrow>
    (lease option \<Rightarrow> carrier \<times> 'w \<Rightarrow> 'r \<times> carrier \<times> 'w) \<Rightarrow> carrier \<times> 'w \<Rightarrow> (refusal + 'r) \<times> carrier \<times> 'w" where
  "concurrency_admitted R sc count run_id ttl md body sw =
     (case sw of (s, w) \<Rightarrow>
      if \<not> admission_required (process_env s) then
        (case body None (s, w) of (r, s', w') \<Rightarrow> (Inr r, s', w'))
      else
        (case rg_reserve_concurrency R sc (PInt count) run_id PNone ttl md w of
           (Inl e, w1) \<Rightarrow> (Inl (if is_admission_error e then ConcurrencyFailed e [] else Escaped e), s, w1)
         | (Inr l, w1) \<Rightarrow>
             (case body (Some l) (s, w1) of (r, s2, w2) \<Rightarrow>
                (case rg_release R (lease_id l) w2 of
                   (rel, w3) \<Rightarrow> (suppressed rel (Inr r), s2, w3)))))"

text \<open>\<open>make_phase_admission\<close>: the request a phase makes against the campaign's scope.\<close>

definition phase_request :: "string \<Rightarrow> string \<Rightarrow> string \<Rightarrow> lease_scope \<Rightarrow> int \<Rightarrow> string \<Rightarrow> string \<Rightarrow> string \<Rightarrow>
    admission_request" where
  "phase_request spec_name worktree namespace scope ttl phase_name model uid =
     \<lparr>arq_run_id = spec_name @ '':'' @ phase_name @ '':'' @ uid, arq_model = model,
      arq_worktree = worktree, arq_namespace = namespace, arq_amount = None, arq_cost_source = None,
      arq_hard_cap_usd = None, arq_budget_scope = Some scope, arq_budget_cap = None,
      arq_concurrency_scopes = [scope], arq_enforce_concurrency = True, arq_slots = 1,
      arq_concurrency_caps = [], arq_ttl = ttl,
      arq_metadata = [(''spec'', PStr spec_name), (''phase'', PStr phase_name)]\<rparr>"

definition phase_scope :: "string \<Rightarrow> lease_scope option \<Rightarrow> lease_error + lease_scope" where
  "phase_scope spec_name campaign =
     (case campaign of Some s \<Rightarrow> Inr s | None \<Rightarrow> mk_scope CAMPAIGN spec_name)"

definition phase_admission :: "'w registry \<Rightarrow> (environ \<Rightarrow> bool) \<Rightarrow>
    (admission \<Rightarrow> admission_request \<Rightarrow> 'w \<Rightarrow> (settle_error + settlement) \<times> 'w) \<Rightarrow>
    string \<Rightarrow> string \<Rightarrow> string \<Rightarrow> lease_scope \<Rightarrow> int \<Rightarrow> string \<Rightarrow> string \<Rightarrow> string \<Rightarrow>
    (admission option \<Rightarrow> carrier \<times> 'w \<Rightarrow> 'r \<times> carrier \<times> 'w) \<Rightarrow> carrier \<times> 'w \<Rightarrow> (refusal + 'r) \<times> carrier \<times> 'w" where
  "phase_admission R armed settling spec_name worktree namespace scope ttl phase_name model uid body sw =
     (if \<not> admission_required (process_env (fst sw)) then
        (case body None sw of (r, s', w') \<Rightarrow> (Inr r, s', w'))
      else admitted R armed settling
             (phase_request spec_name worktree namespace scope ttl phase_name model uid)
             (\<lambda>adm. body (Some adm)) sw)"

section \<open>What the controller needs of a registry\<close>

text \<open>
  \<open>leases_of\<close> is the lease held under each id, \<open>ok\<close> what the registry keeps of its store, \<open>clock\<close> its
  time. A reservation that succeeds adds exactly the lease it returns and loses no lease that is
  alive; one that fails changes nothing; a release forgets exactly the id it is given.
\<close>

definition only_drops_expired :: "(string \<Rightarrow> lease option) \<Rightarrow> rat \<Rightarrow> (string \<Rightarrow> lease option) \<Rightarrow> bool" where
  "only_drops_expired h t h' \<longleftrightarrow> (\<forall>i x. h i = Some x \<longrightarrow> h' i = Some x \<or> is_expired x t)"

definition adds_lease :: "(string \<Rightarrow> lease option) \<Rightarrow> rat \<Rightarrow> lease \<Rightarrow> (string \<Rightarrow> lease option) \<Rightarrow> bool" where
  "adds_lease h t l h' \<longleftrightarrow> h (lease_id l) = None \<and> h' (lease_id l) = Some l
     \<and> only_drops_expired h t h' \<and> h'(lease_id l := None) \<subseteq>\<^sub>m h"

locale lease_provider =
  fixes R :: "'w registry"
    and leases_of :: "'w \<Rightarrow> string \<Rightarrow> lease option"
    and ok :: "'w \<Rightarrow> bool"
    and clock :: "'w \<Rightarrow> rat"
  assumes budget_grant: "ok w \<Longrightarrow> scope_ok sc \<Longrightarrow>
      rg_reserve_budget R pc sc am run cs cap ttl md w = (Inr l, w') \<Longrightarrow>
      ok w' \<and> clock w \<le> clock w' \<and> adds_lease (leases_of w) (clock w') l (leases_of w')"
    and budget_refusal: "ok w \<Longrightarrow> rg_reserve_budget R pc sc am run cs cap ttl md w = (Inl e, w') \<Longrightarrow>
      ok w' \<and> clock w \<le> clock w' \<and> leases_of w' = leases_of w"
    and slot_grant: "ok w \<Longrightarrow> scope_ok sc \<Longrightarrow>
      rg_reserve_concurrency R sc n run cap ttl md w = (Inr l, w') \<Longrightarrow>
      ok w' \<and> clock w \<le> clock w' \<and> adds_lease (leases_of w) (clock w') l (leases_of w')"
    and slot_refusal: "ok w \<Longrightarrow> rg_reserve_concurrency R sc n run cap ttl md w = (Inl e, w') \<Longrightarrow>
      ok w' \<and> clock w \<le> clock w' \<and> leases_of w' = leases_of w"
    and give_back: "ok w \<Longrightarrow> rg_release R i w = (Inr x, w') \<Longrightarrow>
      ok w' \<and> clock w \<le> clock w' \<and> leases_of w' = (leases_of w)(i := None)"
    and give_back_error: "ok w \<Longrightarrow> rg_release R i w = (Inl e, w') \<Longrightarrow>
      ok w' \<and> clock w \<le> clock w' \<and> leases_of w' = leases_of w"
    and budget_error: "ok w \<Longrightarrow> rg_reserve_budget R pc sc am run cs cap ttl md w = (Inl e, w') \<Longrightarrow> is_admission_error e"
    and slot_error: "ok w \<Longrightarrow> rg_reserve_concurrency R sc n run cap ttl md w = (Inl e, w') \<Longrightarrow> is_admission_error e"
    and release_error: "ok w \<Longrightarrow> rg_release R i w = (Inl e, w') \<Longrightarrow> is_admission_error e"

text \<open>The scopes of a request are ones that \<open>LeaseScope\<close> accepts.\<close>

definition request_ok :: "admission_request \<Rightarrow> bool" where
  "request_ok q \<longleftrightarrow> list_all scope_ok (arq_concurrency_scopes q)
     \<and> (case arq_budget_scope q of None \<Rightarrow> True | Some s \<Rightarrow> scope_ok s)"

lemma resolved_scopes_ok:
  "request_ok q \<Longrightarrow> resolved_budget_scope q = Inr sc \<Longrightarrow> scope_ok sc"
  "request_ok q \<Longrightarrow> resolved_concurrency_scopes env q = Inr scs \<Longrightarrow> list_all scope_ok scs"
  by (auto simp: request_ok_def resolved_budget_scope_def resolved_concurrency_scopes_def Let_def
      dest!: mk_scope_sound split: option.splits if_splits sum.splits)

lemma resolved_scopes_error:
  "resolved_budget_scope q = Inl e \<Longrightarrow> is_admission_error e"
  "resolved_concurrency_scopes env q = Inl e \<Longrightarrow> is_admission_error e"
  by (auto simp: resolved_budget_scope_def resolved_concurrency_scopes_def Let_def mk_scope_def
      split: option.splits if_splits sum.splits)

text \<open>From \<open>h\<close> to \<open>h'\<close> the leases \<open>ls\<close> were added and nothing else, and only expired ones were lost.\<close>

definition added :: "(string \<Rightarrow> lease option) \<Rightarrow> rat \<Rightarrow> lease list \<Rightarrow> (string \<Rightarrow> lease option) \<Rightarrow> bool" where
  "added h t ls h' \<longleftrightarrow> (\<forall>l \<in> set ls. h' (lease_id l) = Some l \<or> is_expired l t)
     \<and> (\<forall>i x. h' i = Some x \<longrightarrow> h i = Some x \<or> x \<in> set ls \<and> i = lease_id x)
     \<and> only_drops_expired h t h'
     \<and> (\<forall>i x. h i = Some x \<longrightarrow> i \<in> lease_id ` set ls \<longrightarrow> is_expired x t)"

lemma expired_mono: "is_expired l t \<Longrightarrow> t \<le> u \<Longrightarrow> is_expired l u"
  by (cases "lease_expires_at l") (auto simp: is_expired_def, auto simp: fle_def feq_def)

lemma added_none: "added h t [] h"
  by (simp add: added_def only_drops_expired_def)

lemma added_later: "added h t ls h' \<Longrightarrow> t \<le> u \<Longrightarrow> added h u ls h'"
  unfolding added_def only_drops_expired_def using expired_mono by blast

lemma map_le_upd_None: "h'(i := None) \<subseteq>\<^sub>m h \<longleftrightarrow> (\<forall>j x. j \<noteq> i \<longrightarrow> h' j = Some x \<longrightarrow> h j = Some x)"
  by (auto simp: map_le_def dom_def)

lemma added_one:
  assumes "adds_lease h t l h'" shows "added h t [l] h'"
proof -
  from assms have a: "h (lease_id l) = None" "h' (lease_id l) = Some l" "only_drops_expired h t h'"
    "\<forall>j x. j \<noteq> lease_id l \<longrightarrow> h' j = Some x \<longrightarrow> h j = Some x"
    by (simp_all add: adds_lease_def map_le_upd_None)
  have "h i = Some x \<or> x = l \<and> i = lease_id x" if "h' i = Some x" for i x
    using a that by (cases "i = lease_id l") auto
  with a show ?thesis by (simp add: added_def)
qed

lemma added_append:
  assumes a: "added h t ls h1" and b: "added h1 t ms h'"
  shows "added h t (ls @ ms) h'"
proof -
  have "h' (lease_id l) = Some l \<or> is_expired l t" if "l \<in> set (ls @ ms)" for l
    using that a b unfolding added_def only_drops_expired_def by (metis set_append UnE)
  moreover have "h i = Some x \<or> x \<in> set (ls @ ms) \<and> i = lease_id x" if "h' i = Some x" for i x
    using that a b unfolding added_def by (metis set_append UnI1 UnI2)
  moreover have "only_drops_expired h t h'"
    using a b unfolding added_def only_drops_expired_def by metis
  moreover have "is_expired x t" if "h i = Some x" "i \<in> lease_id ` set (ls @ ms)" for i x
  proof (cases "i \<in> lease_id ` set ls")
    case True
    with that(1) a show ?thesis by (simp add: added_def)
  next
    case False
    with that have "i \<in> lease_id ` set ms" by (simp add: image_Un)
    with that(1) a b show ?thesis unfolding added_def only_drops_expired_def by metis
  qed
  ultimately show ?thesis by (simp add: added_def)
qed

lemma added_Cons:
  assumes "adds_lease h t l h1" and "added h1 u ls h'" and "t \<le> u"
  shows "added h u (l # ls) h'"
  using added_append [OF added_later [OF added_one [OF assms(1)] assms(3)] assms(2)] by simp

text \<open>The state after an unwinding: what is held is what was held before, or a lease whose id is in \<open>P\<close>,
  and what was lost had expired.\<close>

definition back_to :: "(string \<Rightarrow> lease option) \<Rightarrow> rat \<Rightarrow> string set \<Rightarrow> (string \<Rightarrow> lease option) \<Rightarrow> bool" where
  "back_to h t P h' \<longleftrightarrow> (\<forall>i x. h' i = Some x \<longrightarrow> h i = Some x \<or> i \<in> P) \<and> only_drops_expired h t h'"

lemma back_to_refl: "back_to h t P h"
  by (simp add: back_to_def only_drops_expired_def)

text \<open>Giving back the ids of \<open>ls\<close>, all but those in \<open>P\<close>.\<close>

definition gives_back :: "(string \<Rightarrow> lease option) \<Rightarrow> lease list \<Rightarrow> string set \<Rightarrow> (string \<Rightarrow> lease option) \<Rightarrow> bool" where
  "gives_back h ls P h' \<longleftrightarrow> (\<forall>i. i \<notin> lease_id ` set ls \<longrightarrow> h' i = h i) \<and>
     (\<forall>i x. h' i = Some x \<longrightarrow> h i = Some x) \<and> (\<forall>i \<in> lease_id ` set ls. i \<notin> P \<longrightarrow> h' i = None)"

lemma gives_backI:
  assumes "\<And>i. i \<notin> lease_id ` set ls \<Longrightarrow> h' i = h i" and "\<And>i x. h' i = Some x \<Longrightarrow> h i = Some x"
    and "\<And>i. i \<in> lease_id ` set ls \<Longrightarrow> i \<notin> P \<Longrightarrow> h' i = None"
  shows "gives_back h ls P h'"
  unfolding gives_back_def by (intro conjI allI ballI impI) (fact assms)+

lemma gives_backD:
  "gives_back h ls P h' \<Longrightarrow> \<forall>i. i \<notin> lease_id ` set ls \<longrightarrow> h' i = h i"
  "gives_back h ls P h' \<Longrightarrow> \<forall>i x. h' i = Some x \<longrightarrow> h i = Some x"
  "gives_back h ls P h' \<Longrightarrow> \<forall>i \<in> lease_id ` set ls. i \<notin> P \<longrightarrow> h' i = None"
  unfolding gives_back_def by (elim conjE, assumption)+

lemma gives_back_Cons:
  assumes g: "gives_back (h(lease_id l := None)) ls P h'"
  shows "gives_back h (l # ls) P h'"
proof -
  have none: "h' (lease_id l) = None"
    using gives_backD(2) [OF g, rule_format, of "lease_id l"] by (cases "h' (lease_id l)") auto
  show ?thesis
  proof (rule gives_backI)
    fix i assume "i \<notin> lease_id ` set (l # ls)"
    then have "i \<noteq> lease_id l" "i \<notin> lease_id ` set ls" by auto
    then show "h' i = h i" using gives_backD(1) [OF g, rule_format, of i] by simp
  next
    fix i x assume "h' i = Some x"
    from gives_backD(2) [OF g, rule_format, OF this] show "h i = Some x" by (simp split: if_splits)
  next
    fix i assume "i \<in> lease_id ` set (l # ls)" "i \<notin> P"
    then show "h' i = None" using none gives_backD(3) [OF g, rule_format, of i] by auto
  qed
qed

lemma gives_back_keep:
  assumes g: "gives_back h ls P h'"
  shows "gives_back h (l # ls) (insert (lease_id l) P) h'"
proof (rule gives_backI)
  fix i assume "i \<notin> lease_id ` set (l # ls)"
  then show "h' i = h i" using gives_backD(1) [OF g, rule_format, of i] by simp
next
  fix i x assume "h' i = Some x"
  then show "h i = Some x" by (rule gives_backD(2) [OF g, rule_format])
next
  fix i assume "i \<in> lease_id ` set (l # ls)" "i \<notin> insert (lease_id l) P"
  then show "h' i = None" using gives_backD(3) [OF g, rule_format, of i] by auto
qed

lemma back_to_unwound:
  assumes a: "added h t ls h1" and g: "gives_back h1 ls P h'"
  shows "back_to h t P h'"
proof -
  have "h i = Some x \<or> i \<in> P" if "h' i = Some x" for i x
    using that a g unfolding added_def gives_back_def by (metis image_eqI option.distinct(1))
  moreover have "h' i = Some x \<or> is_expired x t" if "h i = Some x" for i x
    using that a g unfolding added_def gives_back_def only_drops_expired_def by metis
  ultimately show ?thesis by (simp add: back_to_def only_drops_expired_def)
qed

context lease_provider
begin

lemma take_slots_added:
  assumes "take_slots R q scs w = (ls, e, w')" and "ok w" and "list_all scope_ok scs"
  shows "ok w' \<and> clock w \<le> clock w' \<and> (\<forall>x. e = Some x \<longrightarrow> is_admission_error x)
    \<and> added (leases_of w) (clock w') ls (leases_of w')"
  using assms
proof (induction scs arbitrary: w ls)
  case (Cons sc scs)
  obtain r v where r: "rg_reserve_concurrency R sc (PInt (arq_slots q)) (arq_run_id q)
      (opt_float (map_of (arq_concurrency_caps q) sc)) (arq_ttl q) (lease_metadata_for q ''concurrency'') w = (r, v)"
    by fastforce
  show ?case
  proof (cases r)
    case (Inl x)
    with Cons.prems(1) r have "ls = []" "e = Some x" "w' = v" by auto
    with r Inl slot_refusal [OF Cons.prems(2)] slot_error [OF Cons.prems(2)] show ?thesis
      by (fastforce simp: added_none)
  next
    case (Inr l)
    obtain ls' where t: "take_slots R q scs v = (ls', e, w')" "ls = l # ls'"
      using Cons.prems(1) r Inr by (auto split: prod.splits)
    have v: "ok v" "clock w \<le> clock v" "adds_lease (leases_of w) (clock v) l (leases_of v)"
      using slot_grant [OF Cons.prems(2)] Cons.prems(3) r Inr by auto
    with Cons.IH [OF t(1) v(1)] Cons.prems(3) t(2) show ?thesis by (auto intro: added_Cons)
  qed
qed (simp add: added_none)

lemma release_all_unwinds:
  assumes "release_all R ls w = (r, w')" and "ok w"
  shows "\<exists>ps. r = Inr ps \<and> ok w' \<and> clock w \<le> clock w' \<and> gives_back (leases_of w) ls (fst ` set ps) (leases_of w')"
  using assms
proof (induction ls arbitrary: w r)
  case Nil
  then show ?case by (auto simp: gives_back_def)
next
  case (Cons l ls)
  obtain x v where x: "rg_release R (lease_id l) w = (x, v)" by fastforce
  show ?case
  proof (cases x)
    case (Inl e)
    have v: "ok v" "clock w \<le> clock v" "leases_of v = leases_of w" "is_admission_error e"
      using give_back_error [OF Cons.prems(2)] release_error [OF Cons.prems(2)] x Inl by auto
    obtain y where y: "release_all R ls v = (y, w')"
      using Cons.prems(1) x Inl v(4) by (fastforce split: prod.splits sum.splits)
    from Cons.IH [OF y v(1)] obtain ps where ps: "y = Inr ps" "ok w'" "clock v \<le> clock w'"
      "gives_back (leases_of v) ls (fst ` set ps) (leases_of w')" by blast
    have "gives_back (leases_of w) (l # ls) (fst ` set ((lease_id l, e) # ps)) (leases_of w')"
      using gives_back_keep [OF ps(4), of l] v(3) by simp
    with Cons.prems(1) x Inl v y ps(1-3) show ?thesis by auto
  next
    case (Inr z)
    have v: "ok v" "clock w \<le> clock v" "leases_of v = (leases_of w)(lease_id l := None)"
      using give_back [OF Cons.prems(2)] x Inr by auto
    from Cons.prems(1) x Inr have "release_all R ls v = (r, w')" by simp
    from Cons.IH [OF this v(1)] obtain ps where ps: "r = Inr ps" "ok w'" "clock v \<le> clock w'"
      "gives_back (leases_of v) ls (fst ` set ps) (leases_of w')" by blast
    have "gives_back (leases_of w) (l # ls) (fst ` set ps) (leases_of w')"
      by (rule gives_back_Cons) (use ps(4) v(3) in simp)
    with ps v show ?thesis by auto
  qed
qed

lemma unwound_effect:
  assumes "unwound R ls why w = (d, w')" and "ok w"
  shows "\<exists>ps. d = why ps \<and> ok w' \<and> clock w \<le> clock w' \<and> gives_back (leases_of w) ls (fst ` set ps) (leases_of w')"
proof -
  obtain r v where r: "release_all R ls w = (r, v)" by fastforce
  from release_all_unwinds [OF this assms(2)] obtain ps where ps: "r = Inr ps" "ok v" "clock w \<le> clock v"
    "gives_back (leases_of w) ls (fst ` set ps) (leases_of v)" by blast
  then have "d = why ps" "w' = v" using assms(1) r by (simp_all add: unwound_def)
  with ps show ?thesis by blast
qed

end

text \<open>The ids whose release failed while a refusal was unwinding.\<close>

fun unwind_ids :: "refusal \<Rightarrow> string set" where
  "unwind_ids (ConcurrencyFailed e ps) = fst ` set ps"
| "unwind_ids (RecordInvalid e ps) = fst ` set ps"
| "unwind_ids _ = {}"

definition adm_leases :: "admission \<Rightarrow> lease list" where
  "adm_leases a = adm_budget_lease a # adm_concurrency_leases a"

context lease_provider
begin

text \<open>The two reservations in turn: the leases taken when all went well, or those to give back.\<close>

lemma admit_leases_cases:
  assumes a: "admit_leases R env q pc amount cs cap w = (r, w')" and ok: "ok w" and q: "request_ok q"
  shows "ok w' \<and> clock w \<le> clock w' \<and>
    (case r of
       Inl d \<Rightarrow> back_to (leases_of w) (clock w') (unwind_ids d) (leases_of w') \<and> (\<nexists>e. d = Escaped e)
     | Inr adm \<Rightarrow> added (leases_of w) (clock w') (adm_leases adm) (leases_of w')
         \<and> record_validate (adm_record adm) = Inr ()
         \<and> adm_record adm = build_record q pc amount cs cap (adm_budget_lease adm) (adm_concurrency_leases adm))"
proof -
  let ?B = "case resolved_budget_scope q of Inl e \<Rightarrow> (Inl e, w)
    | Inr sc \<Rightarrow> rg_reserve_budget R pc sc (PFloat amount) (arq_run_id q) (Some cs)
        (opt_float (arq_budget_cap q)) (arq_ttl q) (lease_metadata_for q ''budget'') w"
  obtain b w1 where b: "?B = (b, w1)" by fastforce
  show ?thesis
  proof (cases b)
    case (Inl e)
    have w1: "ok w1 \<and> clock w \<le> clock w1 \<and> leases_of w1 = leases_of w \<and> is_admission_error e"
      using b Inl ok resolved_scopes_error(1) [of q] budget_refusal [OF ok] budget_error [OF ok]
      by (auto split: sum.splits)
    have "w' = w1" "r = Inl (BudgetFailed e)" using a b Inl w1 by (auto simp: admit_leases_def)
    with w1 show ?thesis by (simp add: back_to_refl)
  next
    case (Inr bl)
    obtain sc where sc: "resolved_budget_scope q = Inr sc" using b Inr by (auto split: sum.splits)
    have w1: "ok w1 \<and> clock w \<le> clock w1 \<and> adds_lease (leases_of w) (clock w1) bl (leases_of w1)"
      using b Inr sc budget_grant [OF ok resolved_scopes_ok(1) [OF q sc]] by auto
    let ?S = "case resolved_concurrency_scopes env q of Inl e \<Rightarrow> ([], Some e, w1) | Inr scs \<Rightarrow> take_slots R q scs w1"
    obtain cls e w2 where s: "?S = (cls, e, w2)" by (cases ?S) auto
    have w2: "ok w2 \<and> clock w1 \<le> clock w2 \<and> (\<forall>x. e = Some x \<longrightarrow> is_admission_error x)
        \<and> added (leases_of w1) (clock w2) cls (leases_of w2)"
    proof (cases "resolved_concurrency_scopes env q")
      case (Inl x)
      with s w1 resolved_scopes_error(2) [OF Inl] show ?thesis by (auto simp: added_none)
    next
      case (Inr scs)
      with s have "take_slots R q scs w1 = (cls, e, w2)" by simp
      from take_slots_added [OF this _ resolved_scopes_ok(2) [OF q Inr]] w1 show ?thesis by simp
    qed
    have all: "added (leases_of w) (clock w2) (bl # cls) (leases_of w2)"
      using w1 w2 by (blast intro: added_Cons)
    show ?thesis
    proof (cases e)
      case (Some x)
      obtain d w3 where u: "unwound R (bl # cls) (ConcurrencyFailed x) w2 = (d, w3)" by fastforce
      have r: "r = Inl d" "w' = w3" using a b Inr s Some w2 u by (auto simp: admit_leases_def)
      from unwound_effect [OF u] w2 obtain ps where ps: "d = ConcurrencyFailed x ps" "ok w3" "clock w2 \<le> clock w3"
        "gives_back (leases_of w2) (bl # cls) (fst ` set ps) (leases_of w3)" by blast
      from back_to_unwound [OF added_later [OF all ps(3)] ps(4)] show ?thesis using r ps w1 w2 by auto
    next
      case None
      let ?rec = "build_record q pc amount cs cap bl cls"
      show ?thesis
      proof (cases "record_validate ?rec")
        case (Inl x)
        obtain d w3 where u: "unwound R (bl # cls) (RecordInvalid x) w2 = (d, w3)" by fastforce
        have r: "r = Inl d" "w' = w3" using a b Inr s None u Inl by (auto simp: admit_leases_def Let_def)
        from unwound_effect [OF u] w2 obtain ps where ps: "d = RecordInvalid x ps" "ok w3" "clock w2 \<le> clock w3"
          "gives_back (leases_of w2) (bl # cls) (fst ` set ps) (leases_of w3)" by blast
        from back_to_unwound [OF added_later [OF all ps(3)] ps(4)] show ?thesis using r ps w1 w2 by auto
      next
        case ok: (Inr u)
        have r: "r = Inr \<lparr>adm_record = ?rec, adm_budget_lease = bl, adm_concurrency_leases = cls\<rparr>" "w' = w2"
          using a b Inr s None ok by (auto simp: admit_leases_def Let_def)
        with all w1 w2 ok show ?thesis by (auto simp: adm_leases_def)
      qed
    qed
  qed
qed

end

lemma resolve_reservation_not_escaped: "resolve_reservation env m a cs = Inl d \<Longrightarrow> unwind_ids d = {} \<and> (\<nexists>e. d = Escaped e)"
  by (auto simp: resolve_reservation_def Let_def split: sum.splits provider_class.splits option.splits if_splits)

lemma resolve_hard_cap_not_escaped: "resolve_hard_cap_usd env m c = Inl d \<Longrightarrow> unwind_ids d = {} \<and> (\<nexists>e. d = Escaped e)"
  by (auto simp: resolve_hard_cap_usd_def Let_def split: sum.splits provider_class.splits option.splits if_splits)

text \<open>Either refused in front of the registry, or the reservations were tried with a resolved price.\<close>

lemma admit_front:
  assumes "admit R env q w = (r, w')"
  shows "(\<exists>d. r = Inl d \<and> w' = w \<and> unwind_ids d = {} \<and> (\<nexists>e. d = Escaped e)) \<or>
    (\<exists>pc amount cs cap. ensure_model_allowed env (arq_model q) = Some ()
       \<and> provider_class_for_model (arq_model q) = Inr pc
       \<and> resolve_reservation env (arq_model q) (arq_amount q) (arq_cost_source q) = Inr (amount, cs)
       \<and> resolve_hard_cap_usd env (arq_model q) (arq_hard_cap_usd q) = Inr cap
       \<and> \<not> (pc = PER_TOKEN \<and> cs = UNKNOWN)
       \<and> admit_leases R env q pc amount cs cap w = (r, w'))"
proof (cases "ensure_model_allowed env (arq_model q)")
  case None
  with assms show ?thesis by (auto simp: admit_def)
next
  case (Some u)
  show ?thesis
  proof (cases "provider_class_for_model (arq_model q)")
    case (Inl e)
    with assms Some show ?thesis by (auto simp: admit_def)
  next
    case pc: (Inr pc)
    show ?thesis
    proof (cases "resolve_reservation env (arq_model q) (arq_amount q) (arq_cost_source q)")
      case (Inl d)
      with assms Some pc resolve_reservation_not_escaped [OF Inl] show ?thesis by (auto simp: admit_def)
    next
      case rv: (Inr x)
      obtain amount cs where x: "x = (amount, cs)" by fastforce
      show ?thesis
      proof (cases "resolve_hard_cap_usd env (arq_model q) (arq_hard_cap_usd q)")
        case (Inl d)
        with assms Some pc rv x resolve_hard_cap_not_escaped [OF Inl] show ?thesis by (auto simp: admit_def)
      next
        case (Inr cap)
        with assms Some pc rv x show ?thesis by (auto simp: admit_def split: if_splits)
      qed
    qed
  qed
qed

context lease_provider
begin

lemma admit_cases:
  assumes "admit R env q w = (r, w')" and "ok w" and "request_ok q"
  shows "ok w' \<and>
    (case r of
       Inl d \<Rightarrow> back_to (leases_of w) (clock w') (unwind_ids d) (leases_of w') \<and> (\<nexists>e. d = Escaped e)
     | Inr adm \<Rightarrow> added (leases_of w) (clock w') (adm_leases adm) (leases_of w')
         \<and> record_validate (adm_record adm) = Inr ())"
  using admit_front [OF assms(1)]
proof (elim disjE exE conjE)
  fix d assume "r = Inl d" "w' = w" "\<nexists>e. d = Escaped e"
  then show ?thesis using assms(2) by (simp add: back_to_refl)
next
  fix pc amount cs cap assume "admit_leases R env q pc amount cs cap w = (r, w')"
  from admit_leases_cases [OF this assms(2,3)] show ?thesis by (cases r) auto
qed

lemma release_ids_gives_back:
  assumes "release_ids R is w = (r, w')" and "ok w"
  shows "ok w' \<and> clock w \<le> clock w' \<and>
    (case r of Inr ls \<Rightarrow> leases_of w' = (\<lambda>i. if i \<in> set is then None else leases_of w i)
     | Inl e \<Rightarrow> is_admission_error e)"
  using assms
proof (induction "is" arbitrary: w r)
  case (Cons i "is")
  obtain x v where x: "rg_release R i w = (x, v)" by fastforce
  show ?case
  proof (cases x)
    case (Inl e)
    with Cons.prems x give_back_error [OF Cons.prems(2)] release_error [OF Cons.prems(2)] show ?thesis by auto
  next
    case (Inr z)
    have v: "ok v" "clock w \<le> clock v" "leases_of v = (leases_of w)(i := None)"
      using give_back [OF Cons.prems(2)] x Inr by auto
    obtain y u where y: "release_ids R is v = (y, u)" by fastforce
    have "u = w'" using Cons.prems(1) x Inr y by (auto split: sum.splits)
    with Cons.IH [OF _ v(1), of y] y have IH: "ok w' \<and> clock v \<le> clock w' \<and>
      (case y of Inr ls \<Rightarrow> leases_of w' = (\<lambda>i. if i \<in> set is then None else leases_of v i)
       | Inl e \<Rightarrow> is_admission_error e)" by simp
    show ?thesis
    proof (cases y)
      case (Inl e)
      with IH Cons.prems(1) x Inr y v show ?thesis by auto
    next
      case ls: (Inr ls)
      with IH Cons.prems(1) x Inr y v show ?thesis by (auto simp: fun_eq_iff)
    qed
  qed
qed auto

end

end
