(* ===== verification/Admission_Registry.thy ===== *)
theory Admission_Registry
  imports Admission Lease_Guarantees
begin

text \<open>
  The controller on the lease registry: \<open>registry_of\<close> packs the operations of \<open>Lease_Registry\<close>, and
  the interpretation of \<open>lease_provider\<close> discharges what the controller needs of them. Also the
  operations of \<open>control/admission.py\<close> that read the registry directly: \<open>verify\<close> with
  \<open>_live_lease_ids\<close>, and \<open>admission_board\<close>. The theorems state admission end to end.
\<close>

section \<open>The registry as a provider of leases\<close>

definition registry_of :: "'w client \<Rightarrow> reg_cfg \<Rightarrow> 'w registry" where
  "registry_of C cfg =
     \<lparr>rg_reserve_budget = reserve_budget C cfg, rg_reserve_concurrency = reserve_concurrency C cfg,
      rg_release = release C cfg\<rparr>"

lemma leave_admission [simp]: "is_admission_error (leave e)"
  by (cases e) simp_all

lemma client_failed_admission: "client_failed x = Raised e \<Longrightarrow> is_admission_error e"
  by (cases x) auto

lemma retry_loop_admission:
  fixes body :: "'a \<Rightarrow> 'b outcome \<times> 'a"
  assumes r: "retry_loop n body w = (Inl e, w')" and b: "\<And>v v' x. body v = (Raised x, v') \<Longrightarrow> is_admission_error x"
  shows "is_admission_error e"
proof -
  let ?Q = "\<lambda>r v. \<forall>x. r = Inl x \<longrightarrow> is_admission_error x"
  have "?Q (Inl e :: lease_error + 'b) w'"
    by (rule retry_loop_induct [OF r, where I = "\<lambda>v. True" and Q = ?Q]) (auto dest: b)
  then show ?thesis by simp
qed

lemma reserve_attempt_admission: "reserve_attempt C cfg q v = (Raised x, v') \<Longrightarrow> is_admission_error x"
  by (auto simp: reserve_attempt_def Let_def dest: client_failed_admission
      split: prod.splits sum.splits if_splits)

lemma released_admission: "released v = Raised e \<Longrightarrow> is_admission_error e"
  by (auto simp: released_def split: option.splits if_splits pyval.splits sum.splits)

lemma release_attempt_admission: "release_attempt C cfg lid v = (Raised x, v') \<Longrightarrow> is_admission_error x"
  by (auto simp: release_attempt_def Let_def dest: client_failed_admission released_admission
      split: prod.splits sum.splits option.splits)

lemma reserve_admission: "reserve C cfg q w = (Inl e, w') \<Longrightarrow> is_admission_error e"
  by (auto simp: reserve_def split: if_splits dest: retry_loop_admission [OF _ reserve_attempt_admission])

lemma release_admission_error: "release C cfg lid w = (Inl e, w') \<Longrightarrow> is_admission_error e"
  by (auto simp: release_def split: if_splits dest: retry_loop_admission [OF _ release_attempt_admission])

lemma require_amount_admission: "require_amount n v = Inl e \<Longrightarrow> is_admission_error e"
  by (auto simp: require_amount_def split: option.splits if_splits)

lemma resolve_cap_admission: "resolve_cap C cfg k sc c w = (Inl e, w') \<Longrightarrow> is_admission_error e"
  by (auto simp: resolve_cap_def get_cap_def dest: require_amount_admission
      split: if_splits sum.splits option.splits prod.splits)

lemma class_boundary_admission: "class_boundary pc a c cs = Inl e \<Longrightarrow> is_admission_error e"
  by (auto simp: class_boundary_def split: provider_class.splits option.splits if_splits)

lemma reserve_budget_admission: "reserve_budget C cfg pc sc am r cs c ttl md w = (Inl e, w') \<Longrightarrow> is_admission_error e"
  by (auto simp: reserve_budget_def dest: require_amount_admission resolve_cap_admission
      class_boundary_admission reserve_admission split: sum.splits prod.splits)

lemma reserve_concurrency_admission: "reserve_concurrency C cfg sc n r c ttl md w = (Inl e, w') \<Longrightarrow> is_admission_error e"
  by (auto simp: reserve_concurrency_def dest: require_amount_admission resolve_cap_admission
      reserve_admission split: sum.splits prod.splits pyval.splits)

lemma granted_adds:
  assumes "granted hs cl cfg k sc w l w' q" and inv: "reg_inv cfg (hs w)"
  shows "adds_lease (held cfg (hs w)) (cl w') l (held cfg (hs w'))"
  using granted_held [OF assms]
  unfolding adds_lease_def only_drops_expired_def map_le_upd_None by (metis option.distinct(1))

lemma registry_provides:
  assumes "redis_server C hs ss cl"
  shows "lease_provider (registry_of C cfg) (\<lambda>w. held cfg (hs w)) (\<lambda>w. reg_inv cfg (hs w)) cl"
proof (unfold_locales, goal_cases)
  case (1 w sc pc am run cs cap ttl md l w')
  then have r: "reserve_budget C cfg pc sc am run cs cap ttl md w = (Inr l, w')" by (simp add: registry_of_def)
  obtain q where g: "granted hs cl cfg BUDGET sc w l w' q"
    using redis_server.reserve_budget_grant [OF assms r 1(2)] by blast
  with granted_adds [OF g 1(1)] redis_server.granted_inv [OF assms g 1(1)] granted_lease [OF g] show ?case
    by auto
next
  case (2 w pc sc am run cs cap ttl md e w')
  then have "reserve_budget C cfg pc sc am run cs cap ttl md w = (Inl e, w')" by (simp add: registry_of_def)
  from redis_server.reserve_budget_frame [OF assms this] 2(1) show ?case by (simp add: same_db_def)
next
  case (3 w sc n run cap ttl md l w')
  then have r: "reserve_concurrency C cfg sc n run cap ttl md w = (Inr l, w')" by (simp add: registry_of_def)
  obtain q where g: "granted hs cl cfg CONCURRENCY sc w l w' q"
    using redis_server.reserve_concurrency_grant [OF assms r 3(2)] by blast
  with granted_adds [OF g 3(1)] redis_server.granted_inv [OF assms g 3(1)] granted_lease [OF g] show ?case
    by auto
next
  case (4 w sc n run cap ttl md e w')
  then have "reserve_concurrency C cfg sc n run cap ttl md w = (Inl e, w')" by (simp add: registry_of_def)
  from redis_server.reserve_concurrency_frame [OF assms this] 4(1) show ?case by (simp add: same_db_def)
next
  case (5 w i x w')
  then have "release C cfg i w = (Inr x, w')" by (simp add: registry_of_def)
  from redis_server.release_cases [OF assms this 5(1)] show ?case by (auto simp: forgets_def fun_eq_iff)
next
  case (6 w i e w')
  then have "release C cfg i w = (Inl e, w')" by (simp add: registry_of_def)
  from redis_server.release_cases [OF assms this 6(1)] 6(1) show ?case by (auto simp: same_db_def)
qed (auto simp: registry_of_def
    dest: reserve_budget_admission reserve_concurrency_admission release_admission_error)

interpretation lp: lease_provider "registry_of ref_client sample_cfg" "\<lambda>w. held sample_cfg (ref_hashes w)"
    "\<lambda>w. reg_inv sample_cfg (ref_hashes w)" rw_clock
  by (rule registry_provides) (rule ref.redis_server_axioms)

section \<open>Operations that read the registry\<close>

text \<open>\<open>{str(value) for value in index.values()}\<close> and the live ids of the scopes it names.\<close>

fun live_ids_in :: "'w client \<Rightarrow> string list \<Rightarrow> 'w \<Rightarrow> (refusal + string list) \<times> 'w" where
  "live_ids_in C [] w = (Inr [], w)"
| "live_ids_in C (k # ks) w =
     (case c_hgetall C k w of
        (Inl _, w1) \<Rightarrow> (Inl RegistryUnreadable, w1)
      | (Inr raw, w1) \<Rightarrow>
          (case partition_now C raw w1 of
             (Inl e, w2) \<Rightarrow> (Inl (Escaped e), w2)
           | (Inr (live, expired), w2) \<Rightarrow>
               (case live_ids_in C ks w2 of
                  (Inl e, w3) \<Rightarrow> (Inl e, w3)
                | (Inr ids, w3) \<Rightarrow> (Inr (map lease_id live @ ids), w3))))"

definition live_lease_ids :: "'w client \<Rightarrow> reg_cfg \<Rightarrow> 'w \<Rightarrow> (refusal + string list) \<times> 'w" where
  "live_lease_ids C cfg w =
     (case c_hgetall C (index_key cfg) w of
        (Inl _, w1) \<Rightarrow> (Inl RegistryUnreadable, w1)
      | (Inr index, w1) \<Rightarrow> live_ids_in C (remdups (map (decode_text \<circ> snd) index)) w1)"

definition verify :: "'w client \<Rightarrow> reg_cfg \<Rightarrow> lease_context \<Rightarrow> rat \<Rightarrow> 'w \<Rightarrow> (refusal + unit) \<times> 'w" where
  "verify C cfg c now w =
     (if ctx_is_expired c now then (Inl StaleContext, w)
      else case live_lease_ids C cfg w of
             (Inl e, w1) \<Rightarrow> (Inl e, w1)
           | (Inr live, w1) \<Rightarrow>
               (let missing = sort (remdups (filter (\<lambda>i. i \<noteq> [] \<and> i \<notin> set live)
                  (ctx_budget_lease_id c # ctx_concurrency_lease_ids c)))
                in if missing \<noteq> [] then (Inl (NotOutstanding missing), w1) else (Inr (), w1)))"

datatype board_row =
    BoardError lease_kind lease_scope lease_error
  | BoardRow lease_kind lease_scope "pyfloat option" pyfloat "pyfloat option" "string option" nat "lease list"

definition board_row_of :: "lease_kind \<Rightarrow> lease_scope \<Rightarrow> pyfloat option \<Rightarrow> lease list \<Rightarrow> board_row" where
  "board_row_of k sc cap ls =
     (let out = fsum (map lease_amount ls) in
      BoardRow k sc cap out
        (case cap of None \<Rightarrow> None | Some c \<Rightarrow> Some (fmax (Fin 0) (fsub c out)))
        (case ls of [] \<Rightarrow> None | l # _ \<Rightarrow> Some (lease_unit l)) (length ls) ls)"

text \<open>An AdmissionError of one scope is a row of the board; any other exception stops it.\<close>

fun admission_board :: "'w client \<Rightarrow> reg_cfg \<Rightarrow> (lease_kind \<times> lease_scope) list \<Rightarrow> 'w \<Rightarrow>
    (lease_error + board_row list) \<times> 'w" where
  "admission_board C cfg [] w = (Inr [], w)"
| "admission_board C cfg ((k, sc) # rest) w =
     (case (case leases C cfg k sc w of
              (Inl e, w1) \<Rightarrow> (if is_admission_error e then Inr (BoardError k sc e) else Inl e, w1)
            | (Inr ls, w1) \<Rightarrow>
                (case get_cap C cfg k sc w1 of
                   (Inl e, w2) \<Rightarrow> (if is_admission_error e then Inr (BoardError k sc e) else Inl e, w2)
                 | (Inr cap, w2) \<Rightarrow> (Inr (board_row_of k sc cap ls), w2))) of
        (Inl e, w') \<Rightarrow> (Inl e, w')
      | (Inr row, w') \<Rightarrow>
          (case admission_board C cfg rest w' of
             (Inl e, w'') \<Rightarrow> (Inl e, w'')
           | (Inr rows, w'') \<Rightarrow> (Inr (row # rows), w'')))"

section \<open>Sample admissions\<close>

definition sample_request :: admission_request where
  "sample_request =
     \<lparr>arq_run_id = ''run-1'', arq_model = ''deepseek/v4'', arq_worktree = ''wt'', arq_namespace = ''ns'',
      arq_amount = Some (Fin 2), arq_cost_source = Some METERED, arq_hard_cap_usd = Some (Fin 5),
      arq_budget_scope = None, arq_budget_cap = Some (Fin 5), arq_concurrency_scopes = [sample_scope],
      arq_enforce_concurrency = True, arq_slots = 1, arq_concurrency_caps = [(sample_scope, Fin 1)],
      arq_ttl = 60, arq_metadata = []\<rparr>"

definition greedy_request :: admission_request where
  "greedy_request = sample_request\<lparr>arq_slots := 2\<rparr>"

lemma sample_request_ok: "request_ok sample_request" "request_ok greedy_request"
  by code_simp+

definition no_env :: environ where
  "no_env = (\<lambda>k. None)"

lemma sample_admit: "is_ok (fst (admit (registry_of ref_client sample_cfg) no_env sample_request empty_world))"
  by code_simp

lemma greedy_admit: "\<not> is_ok (fst (admit (registry_of ref_client sample_cfg) no_env greedy_request empty_world))"
  by code_simp

section \<open>Admission end to end\<close>



lemma validated_record:
  assumes "record_validate r = Inr ()"
  shows "rec_cost_source r \<noteq> None \<and>
    (rec_provider_class r = Inr PER_TOKEN \<longrightarrow> rec_cost_source r \<noteq> Some UNKNOWN
      \<and> (\<exists>x c. as_number (rec_reserved_cost_usd r) = Some (Fin x) \<and> as_number (rec_hard_cap_usd r) = Some (Fin c)
           \<and> 0 < x \<and> x \<le> c))
    \<and> (rec_provider_class r = Inr SUBSCRIPTION \<longrightarrow> rec_hard_cap_usd r = PNone
      \<and> as_number (rec_reserved_cost_usd r) = Some (Fin 0))"
proof -
  have p: "record_problems r = []" using assms by (auto simp: record_validate_def split: if_splits)
  then have "is_real_number (rec_reserved_cost_usd r)" "\<not> flt (num_or_zero (rec_reserved_cost_usd r)) (Fin 0)"
    and cs: "rec_cost_source r \<noteq> None"
    by (auto simp: record_problems_def split: if_splits)
  then obtain x where x: "as_number (rec_reserved_cost_usd r) = Some (Fin x)" "0 \<le> x"
    by (auto simp: is_real_number_def is_finite_conv num_or_zero_def split: option.splits)
  show ?thesis
  proof (intro conjI impI)
    assume pc: "rec_provider_class r = Inr PER_TOKEN"
    have v: "rec_cost_source r \<noteq> Some UNKNOWN" "is_real_number (rec_hard_cap_usd r)"
      "\<not> fle (num_or_zero (rec_hard_cap_usd r)) (Fin 0)" "\<not> fle (num_or_zero (rec_reserved_cost_usd r)) (Fin 0)"
      "\<not> flt (num_or_zero (rec_hard_cap_usd r)) (num_or_zero (rec_reserved_cost_usd r))"
      using assms pc p by (auto simp: record_validate_def split: if_splits)
    then show "rec_cost_source r \<noteq> Some UNKNOWN" by simp
    from v(2) obtain c where "as_number (rec_hard_cap_usd r) = Some (Fin c)"
      by (auto simp: is_real_number_def is_finite_conv split: option.splits)
    with v x show "\<exists>x c. as_number (rec_reserved_cost_usd r) = Some (Fin x)
        \<and> as_number (rec_hard_cap_usd r) = Some (Fin c) \<and> 0 < x \<and> x \<le> c"
      by (auto simp: num_or_zero_def)
  next
    assume pc: "rec_provider_class r = Inr SUBSCRIPTION"
    have "rec_hard_cap_usd r = PNone" "\<not> flt (Fin 0) (num_or_zero (rec_reserved_cost_usd r))"
      using assms pc p by (auto simp: record_validate_def split: if_splits)
    with x show "rec_hard_cap_usd r = PNone" "as_number (rec_reserved_cost_usd r) = Some (Fin 0)"
      by (auto simp: num_or_zero_def)
  qed (rule cs)
qed

lemma admitted_record:
  assumes "admit R env q w = (Inr a, w')"
  shows "\<exists>pc amount cs cap. provider_class_for_model (arq_model q) = Inr pc
    \<and> adm_record a = build_record q pc amount cs cap (adm_budget_lease a) (adm_concurrency_leases a)
    \<and> record_validate (adm_record a) = Inr ()"
  using admit_front [OF assms]
  by (fastforce simp: admit_leases_def unwound_def Let_def split: sum.splits prod.splits option.splits if_splits)

text \<open>C5: a granted admission holds what its record says: every lease of it is held (or has already
  expired), the record names exactly these leases in order, nothing else was added, and the record passed
  its own validation, so a per-token run has a known cost source, a positive finite reservation and a
  cap that covers it, and a subscription run has no dollar cap and reserves no dollars.\<close>

theorem granted_admission_is_backed:
  assumes "redis_server C hs ss cl" and "reg_inv cfg (hs w)" and "request_ok q"
    and "admit (registry_of C cfg) env q w = (Inr a, w')"
  shows "reg_inv cfg (hs w')
    \<and> (\<forall>l \<in> set (adm_leases a). held cfg (hs w') (lease_id l) = Some l \<or> is_expired l (cl w'))
    \<and> (\<forall>i x. held cfg (hs w') i = Some x \<longrightarrow> held cfg (hs w) i = Some x \<or> x \<in> set (adm_leases a) \<and> i = lease_id x)
    \<and> rec_lease_ids (adm_record a) = map lease_id (adm_leases a)
    \<and> (provider_class_for_model (arq_model q) = Inr PER_TOKEN \<longrightarrow>
         (\<exists>cs x c. rec_cost_source (adm_record a) = Some cs \<and> cs \<noteq> UNKNOWN
            \<and> rec_reserved_cost_usd (adm_record a) = PFloat (Fin x)
            \<and> rec_hard_cap_usd (adm_record a) = PFloat (Fin c) \<and> 0 < x \<and> x \<le> c))
    \<and> (provider_class_for_model (arq_model q) = Inr SUBSCRIPTION \<longrightarrow> rec_hard_cap_usd (adm_record a) = PNone
         \<and> rec_reserved_cost_usd (adm_record a) = PFloat (Fin 0))"
proof -
  from lease_provider.admit_cases [OF registry_provides [OF assms(1)] assms(4,2,3)]
  have a: "reg_inv cfg (hs w')" "added (held cfg (hs w)) (cl w') (adm_leases a) (held cfg (hs w'))"
    "record_validate (adm_record a) = Inr ()" by auto
  obtain pc amount cs cap where pc: "provider_class_for_model (arq_model q) = Inr pc" and
    rec: "adm_record a = build_record q pc amount cs cap (adm_budget_lease a) (adm_concurrency_leases a)"
    using admitted_record [OF assms(4)] by blast
  have "CHR ''/'' \<in> set (arq_model q)" using pc by (auto simp: provider_class_for_model_def split: if_splits)
  then have rc: "rec_provider_class (adm_record a) = Inr pc"
    using pc by (simp add: rec rec_provider_class_def build_record_def arq_provider_def provider_class_for_model_def)
  note v = validated_record [OF a(3)]
  have "pc = PER_TOKEN \<longrightarrow> (\<exists>cs x c. rec_cost_source (adm_record a) = Some cs \<and> cs \<noteq> UNKNOWN
            \<and> rec_reserved_cost_usd (adm_record a) = PFloat (Fin x)
            \<and> rec_hard_cap_usd (adm_record a) = PFloat (Fin c) \<and> 0 < x \<and> x \<le> c)"
    using v rc by (auto simp: rec build_record_def opt_float_def split: option.splits)
  moreover have "pc = SUBSCRIPTION \<longrightarrow> rec_hard_cap_usd (adm_record a) = PNone
         \<and> rec_reserved_cost_usd (adm_record a) = PFloat (Fin 0)"
    using v rc by (auto simp: rec build_record_def)
  moreover have "rec_lease_ids (adm_record a) = map lease_id (adm_leases a)"
    by (simp add: rec build_record_def adm_leases_def)
  moreover have "\<forall>l \<in> set (adm_leases a). held cfg (hs w') (lease_id l) = Some l \<or> is_expired l (cl w')"
    "\<forall>i x. held cfg (hs w') i = Some x \<longrightarrow> held cfg (hs w) i = Some x \<or> x \<in> set (adm_leases a) \<and> i = lease_id x"
    using a(2) unfolding added_def by blast+
  ultimately show ?thesis using a(1) pc by simp
qed

theorem granted_admission_is_backed_witness:
  "\<exists>a w'. admit (registry_of ref_client sample_cfg) no_env sample_request empty_world = (Inr a, w')
     \<and> rec_lease_ids (adm_record a) = map lease_id (adm_leases a)"
proof -
  obtain a w' where r: "admit (registry_of ref_client sample_cfg) no_env sample_request empty_world = (Inr a, w')"
    using is_ok_fstD [OF sample_admit] by blast
  from granted_admission_is_backed [OF ref.redis_server_axioms empty_world_inv sample_request_ok(1) r] r
  show ?thesis by blast
qed

text \<open>The pro tier is refused before anything is reserved: without the opt-in, a request for a denied model
  is refused by the policy whatever the registry is, and the world is untouched; with any non-empty
  opt-in the policy refuses no model.\<close>

theorem pro_tier_needs_opt_in:
  "(is_denied_by_default (arq_model q) \<longrightarrow> env ALLOW_PRO_ENV = None \<longrightarrow> admit R env q w = (Inl PolicyRefused, w))
   \<and> is_denied_by_default (p @ ''/deepseek-v4-pro'')
   \<and> (\<forall>v. env ALLOW_PRO_ENV = Some v \<and> v \<noteq> [] \<longrightarrow> ensure_model_allowed env m = Some ())"
  by (auto simp: admit_def ensure_model_allowed_def is_denied_by_default_def is_pro_per_token_def
      ends_with_def starts_with_def)

theorem pro_tier_needs_opt_in_witness:
  "admit (registry_of ref_client sample_cfg) no_env (sample_request\<lparr>arq_model := PRO_MODEL\<rparr>) empty_world
     = (Inl PolicyRefused, empty_world)"
proof -
  have "is_denied_by_default (arq_model (sample_request\<lparr>arq_model := PRO_MODEL\<rparr>))" by code_simp
  moreover have "no_env ALLOW_PRO_ENV = None" by (simp add: no_env_def)
  ultimately show ?thesis
    by (rule pro_tier_needs_opt_in [THEN conjunct1, rule_format])
qed

text \<open>C6: an admission is accepted by the guard at the invocation: with the admission's context bound, the
  armed guard lets the admitted model through until the earliest of its leases expires, whatever the
  provider class, and refuses it from then on.\<close>

theorem admission_passes_guard:
  assumes "admit R env q w = (Inr a, w')" and "in_process s = Some (adm_context a)"
    and "admission_required (process_env s)"
  shows "require_admission (arq_model q) s now =
    (if fle (adm_expires_at a) (Fin now) then Inl ContextExpired else Inr (Some (adm_context a)))"
proof -
  obtain pc amount cs cap where pc: "provider_class_for_model (arq_model q) = Inr pc" and
    rec: "adm_record a = build_record q pc amount cs cap (adm_budget_lease a) (adm_concurrency_leases a)"
      "record_validate (adm_record a) = Inr ()"
    using admitted_record [OF assms(1)] by blast
  have slash: "CHR ''/'' \<in> set (arq_model q)"
    and cls: "provider_class_for_provider (before_char (CHR ''/'') (arq_model q)) = Inr pc"
    using pc by (auto simp: provider_class_for_model_def split: if_splits)
  then have rc: "rec_provider_class (adm_record a) = Inr pc"
    by (simp add: rec(1) rec_provider_class_def build_record_def arq_provider_def)
  have "cost_is_trusted (adm_context a)" if "is_per_token_model (arq_model q)"
  proof (cases pc)
    case PER_TOKEN
    with validated_record [OF rec(2)] rc show ?thesis
      by (auto simp: cost_is_trusted_def adm_context_def)
  next
    case SUBSCRIPTION
    then have "provider_class_or_none (provider_of_model (arq_model q)) = Some SUBSCRIPTION"
      using cls slash
      by (auto simp: provider_class_for_provider_def provider_class_or_none_def provider_of_model_def
          of_option_def split: if_splits option.splits)
    moreover have "py_strip (arq_model q) \<noteq> []"
    proof -
      have "\<not> py_space (CHR ''/'')" by code_simp
      with slash show ?thesis by (auto simp: strip_by_empty)
    qed
    ultimately show ?thesis using that by (simp add: is_per_token_model_def)
  qed
  moreover have "ctx_model (adm_context a) = arq_model q" "ctx_expires_at (adm_context a) = adm_expires_at a"
    by (simp_all add: adm_context_def rec(1) build_record_def)
  moreover have "arq_model q \<noteq> []" using slash by auto
  ultimately show ?thesis
    using assms(2,3) by (auto simp: require_admission_def current_context_def ctx_is_expired_def)
qed

theorem admission_passes_guard_witness:
  "\<exists>a w'. admit (registry_of ref_client sample_cfg) no_env sample_request empty_world = (Inr a, w')
     \<and> require_admission ''deepseek/v4'' \<lparr>in_process = Some (adm_context a), process_env = [ADMISSION_REQUIRED_ENV \<mapsto> ''1'']\<rparr> 0
       = (if fle (adm_expires_at a) (Fin 0) then Inl ContextExpired else Inr (Some (adm_context a)))"
proof -
  obtain a w' where r: "admit (registry_of ref_client sample_cfg) no_env sample_request empty_world = (Inr a, w')"
    using is_ok_fstD [OF sample_admit] by blast
  let ?s = "\<lparr>in_process = Some (adm_context a), process_env = [ADMISSION_REQUIRED_ENV \<mapsto> ''1'']\<rparr>"
  have "env_text [ADMISSION_REQUIRED_ENV \<mapsto> ''1''] ADMISSION_REQUIRED_ENV \<in> set TRUTHY" by code_simp
  then have "admission_required (process_env ?s)" by (simp add: admission_required_def)
  from admission_passes_guard [OF r _ this] r show ?thesis by (auto simp: sample_request_def)
qed

text \<open>The scope of an admission is closed: after \<open>admitted\<close>, whatever the body did to the carriers, the
  in-process carrier and the admission keys of the environment are restored; the body's result comes out
  unless the settlement raised; and if the settlement did not raise and the release went through, none of
  the admission's leases is held any more, while a settlement that raised leaves the store as it left it,
  with no release at all. (The body and the settlement may use the registry as they like, as long as they
  keep its store consistent.)\<close>

theorem admitted_scope_is_closed:
  assumes "redis_server C hs ss cl" and "reg_inv cfg (hs w)" and "request_ok q"
    and "admit (registry_of C cfg) (process_env s) q w = (Inr a, w1)"
    and "body a (snd (bind_enter (adm_context a) s), w1) = (r, s2, w2)" and "reg_inv cfg (hs w2)"
    and "\<forall>v. reg_inv cfg (hs v) \<longrightarrow> reg_inv cfg (hs (snd (settling a q v)))"
    and "admitted (registry_of C cfg) armed settling q body (s, w) = (res, s', w')"
  shows "in_process s' = in_process s \<and> reg_inv cfg (hs w')
    \<and> (\<forall>k. process_env s' k = (if k \<in> set ADMISSION_ENV_KEYS then process_env s k else process_env s2 k))
    \<and> (if armed (process_env s') \<and> \<not> is_ok (fst (settling a q w2))
        then w' = snd (settling a q w2) \<and> \<not> is_ok res
        else res = Inr r \<and>
          (is_ok (fst (release_admission (registry_of C cfg) a
              (if armed (process_env s') then snd (settling a q w2) else w2))) \<longrightarrow>
           (\<forall>l \<in> set (adm_leases a). held cfg (hs w') (lease_id l) = None)))"
proof -
  let ?R = "registry_of C cfg"
  obtain saved s1 where e: "bind_enter (adm_context a) s = (saved, s1)" by fastforce
  let ?s3 = "bind_exit saved s2"
  let ?w3 = "if armed (process_env ?s3) then snd (settling a q w2) else w2"
  obtain x w3 where x: "settling a q w2 = (x, w3)" by fastforce
  obtain rel w4 where rel: "release_admission ?R a ?w3 = (rel, w4)" by fastforce
  have b: "body a (s1, w1) = (r, s2, w2)" using assms(5) e by simp
  have out: "s' = ?s3 \<and> (if armed (process_env ?s3) \<and> \<not> is_ok x then w' = w3 \<and> \<not> is_ok res
      else res = suppressed rel (Inr r) \<and> w' = w4)"
    using assms(8) assms(4) e b rel x by (cases x) (auto simp: admitted_def Let_def split: if_splits)
  have inv: "reg_inv cfg (hs ?w3)" using assms(6,7) by simp
  have rel': "release_ids ?R (adm_lease_ids a) ?w3 = (rel, w4)" using rel by (simp add: release_admission_def)
  have g: "reg_inv cfg (hs w4) \<and> (case rel of Inr ls \<Rightarrow>
      held cfg (hs w4) = (\<lambda>i. if i \<in> set (adm_lease_ids a) then None else held cfg (hs ?w3) i)
    | Inl e \<Rightarrow> is_admission_error e)"
    using lease_provider.release_ids_gives_back [OF registry_provides [OF assms(1)] rel' inv]
    by (cases rel) auto
  have ok: "suppressed rel (Inr r) = Inr r" using g by (cases rel) (auto simp: suppressed_def)
  have gone: "held cfg (hs w4) (lease_id l) = None" if "is_ok rel" "l \<in> set (adm_leases a)" for l
    using g that by (cases rel) (auto simp: adm_leases_def adm_lease_ids_def)
  have car: "in_process s' = in_process s
      \<and> (\<forall>k. process_env s' k = (if k \<in> set ADMISSION_ENV_KEYS then process_env s k else process_env s2 k))"
    using bind_exit_restores [of "adm_context a" s s2] e out by simp
  show ?thesis
  proof (cases "armed (process_env ?s3) \<and> \<not> is_ok x")
    case True
    with out inv x car show ?thesis by simp
  next
    case False
    with out have "res = Inr r" "w' = w4" "s' = ?s3" using ok by auto
    with False x car g gone rel show ?thesis by auto
  qed
qed

theorem admitted_scope_is_closed_witness:
  "\<exists>s' w'. admitted (registry_of ref_client sample_cfg) (\<lambda>env. False) (\<lambda>a q w. (Inl TypeError, w)) sample_request
       (\<lambda>a x. ((), x)) (\<lparr>in_process = None, process_env = no_env\<rparr>, empty_world) = (Inr (), s', w')
     \<and> in_process s' = None \<and> process_env s' RUN_ID_ENV = None"
proof -
  let ?s = "\<lparr>in_process = None, process_env = no_env\<rparr>" and ?R = "registry_of ref_client sample_cfg"
  obtain a w1 where a: "admit ?R (process_env ?s) sample_request empty_world = (Inr a, w1)"
    using is_ok_fstD [OF sample_admit] by auto
  have inv: "reg_inv sample_cfg (ref_hashes w1)"
    using lp.admit_cases [OF a empty_world_inv sample_request_ok(1)] by simp
  obtain res s' w' where r: "admitted ?R (\<lambda>env. False) (\<lambda>a q w. (Inl TypeError, w)) sample_request (\<lambda>a x. ((), x)) (?s, empty_world) = (res, s', w')"
    by (rule prod_cases3)
  have b: "(\<lambda>a x. ((), x)) a (snd (bind_enter (adm_context a) ?s), w1) = ((), snd (bind_enter (adm_context a) ?s), w1)"
    by simp
  from admitted_scope_is_closed [OF ref.redis_server_axioms empty_world_inv sample_request_ok(1) a b inv _ r] r
  show ?thesis by (simp add: ADMISSION_ENV_KEYS_def no_env_def)
qed

section \<open>Verification\<close>

lemma partition_live:
  assumes "partition_at now raw = Inr (live, expired)" and "distinct (map fst raw)"
    and "\<forall>(i, v) \<in> set raw. \<exists>l. lease_of v = Some l \<and> lease_ok i l"
  shows "lease_id ` set live = live_dom now (map_of raw)"
  using assms
proof (induction now raw arbitrary: live expired rule: partition_at.induct)
  case (1 now)
  then show ?case by (simp add: live_dom_def lease_in_def)
next
  case (2 now i v raw)
  from "2.prems"(1) obtain p l live' expired' where
    parse: "parse_lease v = Inr (p, l)" and rest: "partition_at now raw = Inr (live', expired')" and
    live: "live = (if is_expired l now then live' else l # live')"
    by (auto split: sum.splits prod.splits if_splits)
  from parse have l: "lease_of v = Some l" by (simp add: lease_of_def)
  with "2.prems"(3) have i: "lease_id l = i" by (auto simp: lease_ok_def)
  have IH: "lease_id ` set live' = live_dom now (map_of raw)"
    using "2.IH" [OF parse _ rest] "2.prems" by auto
  have "i \<notin> fst ` set raw" using "2.prems"(2) by simp
  from live_dom_Cons [OF this l, of now] IH live i show ?case
    by (simp del: map_of.simps)
qed

lemma live_ids_in_sound:
  assumes "redis_server C hs ss cl" and "live_ids_in C ks w = (Inr ids, w')" and "reg_inv cfg (hs w)"
    and "\<forall>k \<in> set ks. \<exists>kd sc. scope_ok sc \<and> k = scope_key cfg kd sc"
  shows "same_db hs ss cl w w' \<and> (\<forall>i \<in> set ids. \<exists>x. held cfg (hs w) i = Some x \<and> \<not> is_expired x (cl w))
    \<and> (\<forall>k \<in> set ks. \<forall>i x. lease_in (hs w k) i = Some x \<longrightarrow> \<not> is_expired x (cl w') \<longrightarrow> i \<in> set ids)"
  using assms(2-)
proof (induction ks arbitrary: w ids)
  case Nil
  then show ?case by (simp add: same_db_def)
next
  case (Cons k ks)
  from Cons.prems(1) obtain raw w1 live expired w2 ids' where
    c: "c_hgetall C k w = (Inr raw, w1)" "partition_now C raw w1 = (Inr (live, expired), w2)"
      "live_ids_in C ks w2 = (Inr ids', w')" "ids = map lease_id live @ ids'"
    by (auto split: prod.splits sum.splits)
  from c(2) obtain t where t: "c_now C w1 = (t, w2)" "partition_at t raw = Inr (live, expired)"
    by (auto simp: partition_now_def split: prod.splits)
  have raw: "same_db hs ss cl w w1" "map_of raw = hs w k" "distinct (map fst raw)"
    using redis_server.hgetallD [OF assms(1) c(1)] by auto
  have now: "same_db hs ss cl w1 w2" "t = cl w1" using redis_server.nowD [OF assms(1) t(1)] by auto
  have w2: "hs w2 = hs w" "cl w \<le> t" "t \<le> cl w2" "ss w2 = ss w"
    using raw(1) now by (auto simp: same_db_def)
  obtain kd sc where k: "scope_ok sc" "k = scope_key cfg kd sc" using Cons.prems(3) by auto
  have ok: "hash_ok (hs w k)" using reg_inv_scope [OF Cons.prems(2) k(1), of kd] k(2) by simp
  have live: "lease_id ` set live = live_dom t (hs w k)"
    using partition_live [OF t(2) raw(3) hash_entries [OF ok raw(2,3)]] raw(2) by simp
  have IH: "same_db hs ss cl w2 w' \<and> (\<forall>i \<in> set ids'. \<exists>x. held cfg (hs w2) i = Some x \<and> \<not> is_expired x (cl w2))
    \<and> (\<forall>k \<in> set ks. \<forall>i x. lease_in (hs w2 k) i = Some x \<longrightarrow> \<not> is_expired x (cl w') \<longrightarrow> i \<in> set ids')"
    using Cons.IH [OF c(3)] Cons.prems(2,3) w2(1) by simp
  have le: "cl w \<le> cl w2" using w2 by simp
  have "\<exists>x. held cfg (hs w) i = Some x \<and> \<not> is_expired x (cl w)" if "i \<in> lease_id ` set live" for i
  proof -
    from that live obtain x where "lease_in (hs w k) i = Some x" "\<not> is_expired x t"
      by (auto simp: live_dom_def)
    with held_scope [OF Cons.prems(2) k(1)] k(2) is_expired_later [OF _ w2(2)] show ?thesis by blast
  qed
  moreover have "\<exists>x. held cfg (hs w) i = Some x \<and> \<not> is_expired x (cl w)" if "i \<in> set ids'" for i
    using IH that w2(1) is_expired_later [OF _ le] by metis
  moreover have "i \<in> lease_id ` set live" if "lease_in (hs w k) i = Some x" "\<not> is_expired x (cl w')" for i x
  proof -
    have "t \<le> cl w'" using IH w2(3) by (auto simp: same_db_def)
    with that is_expired_later have "\<not> is_expired x t" by blast
    with that(1) live show ?thesis by (auto simp: live_dom_def)
  qed
  ultimately show ?case using IH w2 c(4) by (auto simp: same_db_def)
qed

lemma index_keys:
  assumes inv: "reg_inv cfg h" and x: "map_of index = h (index_key cfg)" "distinct (map fst index)"
  shows "\<forall>k \<in> set (remdups (map (decode_text \<circ> snd) index)). \<exists>kd sc. scope_ok sc \<and> k = scope_key cfg kd sc"
proof
  fix k assume "k \<in> set (remdups (map (decode_text \<circ> snd) index))"
  then obtain i v where v: "(i, v) \<in> set index" "k = decode_text v" by auto
  then have "h (index_key cfg) i = Some v" using x by (metis map_of_is_SomeI)
  with inv obtain kd sc where "scope_ok sc" "v = Text (scope_key cfg kd sc)" by (rule reg_inv_indexE)
  with v(2) show "\<exists>kd sc. scope_ok sc \<and> k = scope_key cfg kd sc" by auto
qed

lemma live_lease_ids_sound:
  assumes C: "redis_server C hs ss cl" and r: "live_lease_ids C cfg w = (Inr ids, w')" and inv: "reg_inv cfg (hs w)"
  shows "same_db hs ss cl w w' \<and> (\<forall>i \<in> set ids. \<exists>x. held cfg (hs w) i = Some x \<and> \<not> is_expired x (cl w))
    \<and> (\<forall>i x. held cfg (hs w) i = Some x \<longrightarrow> \<not> is_expired x (cl w') \<longrightarrow> i \<in> set ids)"
proof -
  from r obtain index w1 where c: "c_hgetall C (index_key cfg) w = (Inr index, w1)"
    "live_ids_in C (remdups (map (decode_text \<circ> snd) index)) w1 = (Inr ids, w')"
    by (auto simp: live_lease_ids_def split: prod.splits sum.splits)
  have x: "same_db hs ss cl w w1" "map_of index = hs w (index_key cfg)" "distinct (map fst index)"
    using redis_server.hgetallD [OF C c(1)] by auto
  then have w1: "hs w1 = hs w" "cl w \<le> cl w1" by (auto simp: same_db_def)
  have inv1: "reg_inv cfg (hs w1)" using inv w1 by simp
  have "map_of index = hs w1 (index_key cfg)" using x(2) w1 by simp
  note L = live_ids_in_sound [OF C c(2) inv1 index_keys [OF inv1 this x(3)]]
  have "i \<in> set ids" if i: "held cfg (hs w) i = Some l" "\<not> is_expired l (cl w')" for i l
  proof -
    from inv i(1) obtain kd sc where k: "hs w (index_key cfg) i = Some (Text (scope_key cfg kd sc))"
      "lease_in (hs w (scope_key cfg kd sc)) i = Some l" by (rule held_where)
    from k(1) x(2) have "(i, Text (scope_key cfg kd sc)) \<in> set index" by (metis map_of_SomeD)
    then have "scope_key cfg kd sc \<in> set (remdups (map (decode_text \<circ> snd) index))" by force
    with L k(2) i(2) w1(1) show ?thesis by auto
  qed
  moreover have "\<exists>x. held cfg (hs w) i = Some x \<and> \<not> is_expired x (cl w)" if "i \<in> set ids" for i
    using L that w1 is_expired_later [OF _ w1(2)] by metis
  ultimately show ?thesis using L x(1) by (auto simp: same_db_def)
qed

lemma sort_remdups_Nil: "sort (remdups xs) = [] \<longleftrightarrow> xs = []"
  by (metis remdups_eq_nil_iff set_empty set_sort)

text \<open>\<open>verify\<close> tells a live admission from a stale or forged one: if it accepts, the context has not
  expired and every lease it names was held and alive when the check began; if it reports leases that are
  not outstanding, each of them is a lease the context names and none is held and alive when the check
  ends. The registry is only read.\<close>

theorem verify_checks_leases:
  assumes "redis_server C hs ss cl" and "reg_inv cfg (hs w)" and "verify C cfg c now w = (r, w')"
  shows "(r = Inr () \<longrightarrow> hs w' = hs w \<and> \<not> ctx_is_expired c now
       \<and> (\<forall>i \<in> set (ctx_budget_lease_id c # ctx_concurrency_lease_ids c). i \<noteq> [] \<longrightarrow>
            (\<exists>x. held cfg (hs w) i = Some x \<and> \<not> is_expired x (cl w))))
    \<and> (\<forall>ms. r = Inl (NotOutstanding ms) \<longrightarrow> hs w' = hs w \<and> ms \<noteq> [] \<and>
         (\<forall>i \<in> set ms. i \<in> set (ctx_budget_lease_id c # ctx_concurrency_lease_ids c)
            \<and> \<not> (\<exists>x. held cfg (hs w) i = Some x \<and> \<not> is_expired x (cl w'))))"
proof (cases "ctx_is_expired c now")
  case True
  with assms(3) show ?thesis by (auto simp: verify_def)
next
  case False
  obtain q v where q: "live_lease_ids C cfg w = (q, v)" by fastforce
  show ?thesis
  proof (cases q)
    case (Inl e)
    have "e = RegistryUnreadable \<or> (\<exists>x. e = Escaped x)"
    proof -
      have ks: "live_ids_in C ks u = (Inl e, u') \<Longrightarrow> e = RegistryUnreadable \<or> (\<exists>x. e = Escaped x)" for ks u u'
        by (induction ks arbitrary: u) (auto split: prod.splits sum.splits)
      from q Inl show ?thesis by (auto simp: live_lease_ids_def split: prod.splits sum.splits dest: ks)
    qed
    with assms(3) q Inl False show ?thesis by (auto simp: verify_def)
  next
    case (Inr ids)
    let ?named = "ctx_budget_lease_id c # ctx_concurrency_lease_ids c"
    let ?missing = "filter (\<lambda>i. i \<noteq> [] \<and> i \<notin> set ids) ?named"
    have s: "same_db hs ss cl w v \<and> (\<forall>i \<in> set ids. \<exists>x. held cfg (hs w) i = Some x \<and> \<not> is_expired x (cl w))
      \<and> (\<forall>i x. held cfg (hs w) i = Some x \<longrightarrow> \<not> is_expired x (cl v) \<longrightarrow> i \<in> set ids)"
      using live_lease_ids_sound [OF assms(1) _ assms(2)] q Inr by blast
    have r: "r = (if ?missing = [] then Inr () else Inl (NotOutstanding (sort (remdups ?missing))))" "w' = v"
      using assms(3) q Inr False sort_remdups_Nil [of ?missing]
      by (auto simp: verify_def Let_def simp del: filter.simps split: if_splits)
    have sorted: "sort (remdups ?missing) \<noteq> []" if "?missing \<noteq> []"
      using that by (simp only: sort_remdups_Nil simp_thms)
    have none: "i \<in> set ?named \<and> i \<notin> set ids" if "i \<in> set (sort (remdups ?missing))" for i
      using that by (simp only: set_sort set_remdups set_filter) blast
    have all: "\<forall>i \<in> set ?named. i \<noteq> [] \<longrightarrow> i \<in> set ids" if "?missing = []"
      using that unfolding filter_empty_conv by blast
    show ?thesis
    proof (cases "?missing = []")
      case True
      with r s False all [OF True] show ?thesis
        unfolding same_db_def by (simp del: filter.simps)
    next
      case missing: False
      define ms where "ms = sort (remdups ?missing)"
      have rr: "r = Inl (NotOutstanding ms)" using r(1) missing unfolding ms_def by (simp only: if_False)
      have "ms \<noteq> []" unfolding ms_def by (rule sorted [OF missing])
      moreover have "i \<in> set ?named \<and> \<not> (\<exists>x. held cfg (hs w) i = Some x \<and> \<not> is_expired x (cl w'))"
        if "i \<in> set ms" for i
        using none [OF that [unfolded ms_def]] s r(2) by blast
      moreover have "hs w' = hs w" using s r(2) by (simp add: same_db_def)
      ultimately show ?thesis unfolding rr by blast
    qed
  qed
qed

definition stale_context :: lease_context where
  "stale_context = sample_context\<lparr>ctx_expires_at := Fin 61, ctx_budget_lease_id := ''bud_x'',
     ctx_concurrency_lease_ids := [''con_9'']\<rparr>"

lemma sample_verify:
  "verify ref_client sample_cfg stale_context 3 sample_world
     = (Inl (NotOutstanding [''con_9'']), sample_world\<lparr>rw_clock := 3\<rparr>)"
  by code_simp

theorem verify_checks_leases_witness:
  "\<not> (\<exists>x. held sample_cfg (ref_hashes sample_world) ''con_9'' = Some x \<and> \<not> is_expired x 3)"
  using verify_checks_leases [OF ref.redis_server_axioms sample_world_inv sample_verify] by simp

end
