(* ===== verification/Admission_Settlement.thy ===== *)
theory Admission_Settlement
  imports Admission_Registry
begin

text \<open>
  The scoped admission with its settlement: \<open>admitted\<close> of \<open>control/admission.py\<close> on a world that is
  the registry's world together with the files of \<open>Settlement\<close>, with \<open>settlement_enabled\<close> and
  \<open>settle_run\<close> as its two settlement hooks. The theorems show what a settled run leaves in the
  history, and that a malformed usage ledger keeps the leases of a finished run outstanding.
\<close>

section \<open>The composition\<close>

definition with_files :: "'w registry \<Rightarrow> ('w \<times> settle_fs) registry" where
  "with_files R =
     \<lparr>rg_reserve_budget = (\<lambda>pc sc am run cs cap ttl md (w, fs).
        case rg_reserve_budget R pc sc am run cs cap ttl md w of (r, w') \<Rightarrow> (r, (w', fs))),
      rg_reserve_concurrency = (\<lambda>sc n run cap ttl md (w, fs).
        case rg_reserve_concurrency R sc n run cap ttl md w of (r, w') \<Rightarrow> (r, (w', fs))),
      rg_release = (\<lambda>i (w, fs). case rg_release R i w of (r, w') \<Rightarrow> (r, (w', fs)))\<rparr>"

text \<open>The call in the \<open>finally\<close> clause: the run id of the record, the model of the request and the
  amount of the budget lease.\<close>

definition settle_admission :: "moment \<Rightarrow> admission \<Rightarrow> admission_request \<Rightarrow> 'w \<times> settle_fs \<Rightarrow>
    (settle_error + settlement) \<times> ('w \<times> settle_fs)" where
  "settle_admission now a q = (\<lambda>(w, fs).
     case settle_run (rec_run_id (adm_record a)) (arq_model q) (lease_amount (adm_budget_lease a)) [] True now fs of
       (r, fs') \<Rightarrow> (r, (w, fs')))"

definition admitted_settling :: "'w registry \<Rightarrow> moment \<Rightarrow> admission_request \<Rightarrow>
    (admission \<Rightarrow> carrier \<times> ('w \<times> settle_fs) \<Rightarrow> 'r \<times> carrier \<times> ('w \<times> settle_fs)) \<Rightarrow>
    carrier \<times> ('w \<times> settle_fs) \<Rightarrow> (refusal + 'r) \<times> carrier \<times> ('w \<times> settle_fs)" where
  "admitted_settling R now q body sw =
     admitted (with_files R) settlement_enabled (settle_admission now) q body sw"

lemma release_ids_with_files:
  "release_ids (with_files R) ids (w, fs) = (case release_ids R ids w of (r, w') \<Rightarrow> (r, (w', fs)))"
  by (induction ids arbitrary: w) (auto simp: with_files_def split: prod.splits sum.splits)

section \<open>A settled run\<close>


text \<open>A run that does nothing, with settlement armed, on an empty registry.\<close>

definition armed_carrier :: carrier where
  "armed_carrier = \<lparr>in_process = None, process_env = [''FINOPS_SETTLEMENT_ENABLED'' \<mapsto> ''1'']\<rparr>"

definition idle_run :: "settle_fs \<Rightarrow> (refusal + unit) \<times> carrier \<times> (ref_world \<times> settle_fs)" where
  "idle_run fs = admitted_settling (registry_of ref_client sample_cfg) sample_moment sample_request
     (\<lambda>a x. ((), x)) (armed_carrier, (empty_world, fs))"

lemma idle_run_ok: "fst (idle_run sample_fs) = Inr () \<and> settlement_enabled (process_env (fst (snd (idle_run sample_fs))))"
  by code_simp

lemma idle_admit: "is_ok (fst (admit (with_files (registry_of ref_client sample_cfg)) (process_env armed_carrier)
    sample_request (empty_world, sample_fs))) \<and>
   snd (snd (admit (with_files (registry_of ref_client sample_cfg)) (process_env armed_carrier)
    sample_request (empty_world, sample_fs))) = sample_fs"
  by code_simp


section \<open>A malformed ledger\<close>

text \<open>A snapshot in which \<open>days\<close> is a number.\<close>

definition broken_fs :: settle_fs where
  "broken_fs = \<lparr>fs_usage = Some (Doc (PDict [(''deepseek_platform'', PDict [(''ok'', PBool True), (''days'', PInt 5)])])),
     fs_settlements = [], fs_writable = True\<rparr>"

text \<open>A usage ledger of the wrong shape breaks the promise that settlement never raises: with \<open>days\<close> a
  number, \<open>settle_run\<close> raises, the exception replaces the result of a run that had succeeded, and the
  release behind it is skipped, so the budget lease and the slot of the finished run stay held; with a well
  formed ledger, or with settlement off, the same run ends with nothing held.\<close>

theorem malformed_ledger_keeps_leases:
  "fst (idle_run broken_fs) = Inl (SettleRaised TypeError)
     \<and> length (rw_hash (fst (snd (snd (idle_run broken_fs)))) (index_key sample_cfg)) = 2
     \<and> fst (idle_run sample_fs) = Inr ()
     \<and> rw_hash (fst (snd (snd (idle_run sample_fs)))) (index_key sample_cfg) = []"
  by code_simp

end
