(* ===== verification/Py_Format.thy ===== *)
theory Py_Format
  imports Agd_Prelude
begin

text \<open>
  The parts of Python's number formatting and of \<open>datetime\<close> that the modelled modules print with:
  rounding to the even neighbour, the formats \<open>.0f\<close> and \<open>g\<close>, and
  \<open>datetime.fromtimestamp(t, tz=timezone.utc).isoformat()\<close> with the exceptions it raises. Also
  \<open>Path(p).name\<close>.
\<close>

section \<open>Rounding and number formats\<close>

definition round_even :: "rat \<Rightarrow> int" where
  "round_even q =
     (let n = \<lfloor>q\<rfloor>; d = q - of_int n in
      if d < 1 / 2 then n else if d > 1 / 2 then n + 1 else if even n then n else n + 1)"

fun fmt_0f :: "pyfloat \<Rightarrow> string" where
  "fmt_0f (Fin q) = (if q < 0 then ''-'' else []) @ show_nat (nat (round_even \<bar>q\<bar>))"
| "fmt_0f PosInf = ''inf''"
| "fmt_0f NegInf = ''-inf''"
| "fmt_0f NaN = ''nan''"

text \<open>An integer padded to \<open>k\<close> digits, the number of digits of a positive integer, and the decimal
  exponent of a positive rational.\<close>

fun pad :: "nat \<Rightarrow> int \<Rightarrow> string" where
  "pad 0 n = []"
| "pad (Suc k) n = pad k (n div 10) @ [char_of (nat (n mod 10) + 48)]"

function num_digits :: "int \<Rightarrow> int" where
  "num_digits n = (if n < 10 then 1 else 1 + num_digits (n div 10))"
  by auto
termination
  by (relation "measure nat") auto

declare num_digits.simps [simp del]

definition exponent10 :: "rat \<Rightarrow> int" where
  "exponent10 q =
     (if 1 \<le> q then num_digits \<lfloor>q\<rfloor> - 1
      else if \<lceil>1 / q\<rceil> \<le> 1 then 0 else - num_digits (\<lceil>1 / q\<rceil> - 1))"

definition strip_zeros :: "string \<Rightarrow> string" where
  "strip_zeros s = rev (dropWhile (\<lambda>c. c = CHR ''0'') (rev s))"

definition with_point :: "string \<Rightarrow> string \<Rightarrow> string" where
  "with_point i f = (if strip_zeros f = [] then i else i @ ''.'' @ strip_zeros f)"

text \<open>Six significant digits of a positive rational, with the exponent of the first.\<close>

definition six_digits :: "rat \<Rightarrow> int \<times> int" where
  "six_digits q =
     (let e = exponent10 q; m = round_even (scale10 q (5 - e))
      in if m = 1000000 then (100000, e + 1) else (m, e))"

definition fmt_g_pos :: "rat \<Rightarrow> string" where
  "fmt_g_pos q =
     (case six_digits q of (m, e) \<Rightarrow>
        (let ds = pad 6 m in
         if 0 \<le> e \<and> e < 6 then with_point (take (nat e + 1) ds) (drop (nat e + 1) ds)
         else if - 4 \<le> e \<and> e < 0 then with_point ''0'' (replicate (nat (- e - 1)) (CHR ''0'') @ ds)
         else with_point (take 1 ds) (drop 1 ds) @ ''e'' @ (if e < 0 then ''-'' else ''+'')
              @ (if \<bar>e\<bar> < 10 then ''0'' else []) @ show_nat (nat \<bar>e\<bar>)))"

fun fmt_g :: "pyfloat \<Rightarrow> string" where
  "fmt_g (Fin q) = (if q = 0 then ''0'' else (if q < 0 then ''-'' else []) @ fmt_g_pos \<bar>q\<bar>)"
| "fmt_g PosInf = ''inf''"
| "fmt_g NegInf = ''-inf''"
| "fmt_g NaN = ''nan''"

section \<open>Time stamps\<close>

text \<open>The proleptic Gregorian date of a day counted from 1970-01-01: year, month and day.\<close>

definition civil_of_month :: "int \<Rightarrow> int \<Rightarrow> int \<Rightarrow> int \<times> int \<times> int" where
  "civil_of_month y doy mp =
     (if mp < 10 then (y, mp + 3, doy - (153 * mp + 2) div 5 + 1)
      else (y + 1, mp - 9, doy - (153 * mp + 2) div 5 + 1))"

definition civil_of_year :: "int \<Rightarrow> int \<Rightarrow> int \<times> int \<times> int" where
  "civil_of_year y doy = civil_of_month y doy ((5 * doy + 2) div 153)"

definition civil_of_era :: "int \<Rightarrow> int \<Rightarrow> int \<Rightarrow> int \<times> int \<times> int" where
  "civil_of_era era doe yoe = civil_of_year (yoe + era * 400) (doe - (365 * yoe + yoe div 4 - yoe div 100))"

definition civil_of_doe :: "int \<Rightarrow> int \<Rightarrow> int \<times> int \<times> int" where
  "civil_of_doe era doe = civil_of_era era doe ((doe - doe div 1460 + doe div 36524 - doe div 146096) div 365)"

definition civil_from_days :: "int \<Rightarrow> int \<times> int \<times> int" where
  "civil_from_days days = civil_of_doe ((days + 719468) div 146097) ((days + 719468) mod 146097)"

lemmas civil_defs = civil_from_days_def civil_of_doe_def civil_of_era_def civil_of_year_def civil_of_month_def

text \<open>ValueError for NaN and for a year outside 1 to 9999, OverflowError for an infinity.\<close>

datatype time_error = TimeValueError | TimeOverflowError

definition iso_text :: "int \<times> int \<times> int \<Rightarrow> int \<Rightarrow> int \<Rightarrow> time_error + string" where
  "iso_text ymd s us =
     (case ymd of (y, m, d) \<Rightarrow>
        if y < 1 \<or> 9999 < y then Inl TimeValueError
        else Inr (pad 4 y @ ''-'' @ pad 2 m @ ''-'' @ pad 2 d @ ''T'' @ pad 2 (s div 3600) @ '':''
               @ pad 2 (s mod 3600 div 60) @ '':'' @ pad 2 (s mod 60)
               @ (if us = 0 then [] else ''.'' @ pad 6 us) @ ''+00:00''))"

definition iso_of_micros :: "int \<Rightarrow> time_error + string" where
  "iso_of_micros us = iso_text (civil_from_days (us div 1000000 div 86400)) (us div 1000000 mod 86400) (us mod 1000000)"

fun iso_utc :: "pyfloat \<Rightarrow> time_error + string" where
  "iso_utc (Fin q) = iso_of_micros (round_even (q * 1000000))"
| "iso_utc NaN = Inl TimeValueError"
| "iso_utc _ = Inl TimeOverflowError"

text \<open>\<open>s.replace("+00:00", "Z")\<close> on such a stamp, where the offset stands at the end only.\<close>

definition zulu :: "string \<Rightarrow> string" where
  "zulu s = take (length s - 6) s @ ''Z''"

definition iso_z :: "pyfloat \<Rightarrow> time_error + string" where
  "iso_z t = (case iso_utc t of Inl e \<Rightarrow> Inl e | Inr s \<Rightarrow> Inr (zulu s))"

section \<open>Paths\<close>

definition path_name :: "string \<Rightarrow> string" where
  "path_name p =
     (case rev (filter (\<lambda>c. c \<noteq> [] \<and> c \<noteq> ''.'') (split_on (CHR ''/'') p)) of [] \<Rightarrow> [] | c # _ \<Rightarrow> c)"

section \<open>Checks\<close>

lemma civil_check: "civil_from_days 0 = (1970, 1, 1)" "civil_from_days 20514 = (2026, 3, 2)"
  "civil_from_days (- 1) = (1969, 12, 31)" "civil_from_days 11016 = (2000, 2, 29)"
  by (simp_all add: civil_defs)

lemma iso_check: "iso_utc (Fin 1000000000) = Inr ''2001-09-09T01:46:40+00:00''"
  "iso_z (Fin (1 / 2)) = Inr ''1970-01-01T00:00:00.500000Z''"
  by code_simp+

lemma fmt_check: "fmt_g (Fin (5 / 2)) = ''2.5''" "fmt_g (Fin 1234567) = ''1.23457e+06''" "fmt_g (Fin (1 / 8000)) = ''0.000125''"
  by code_simp+

lemma round_even_bounds: "\<bar>of_int (round_even q) - q\<bar> \<le> 1 / 2"
proof -
  have "of_int \<lfloor>q\<rfloor> \<le> q" "q < of_int \<lfloor>q\<rfloor> + 1" by linarith+
  then show ?thesis by (auto simp: round_even_def Let_def abs_le_iff)
qed

end
