(* ===== verification/Quarantine.thy ===== *)
theory Quarantine
  imports Lease_Registry Py_Format
begin

text \<open>
  \<open>control/quarantine.py\<close>: the contamination ledger. The durable JSONL file is part of the state
  (missing, unreadable, or its lines); the Redis mirror is a client parameter whose calls may fail. An
  opening and a lift append a record, and what is contaminated now is the replay of the file, widened
  by what only Redis knows. The lemmas relate the operations to the abstract set of marked
  identities and show that a ledger that cannot be read is never taken for an empty one.
\<close>

section \<open>Vocabulary and errors\<close>

datatype quarantine_kind = WORKTREE | RESULT_NAMESPACE | LADDER_RUNG

fun quarantine_kind_value :: "quarantine_kind \<Rightarrow> string" where
  "quarantine_kind_value WORKTREE = ''worktree''"
| "quarantine_kind_value RESULT_NAMESPACE = ''result_namespace''"
| "quarantine_kind_value LADDER_RUNG = ''ladder_rung''"

datatype quarantine_reason =
  BUDGET_LEASE_EXPIRED | CONCURRENCY_LEASE_EXPIRED | UNKNOWN_COST | ADMISSION_BYPASS | MANUAL

fun quarantine_reason_value :: "quarantine_reason \<Rightarrow> string" where
  "quarantine_reason_value BUDGET_LEASE_EXPIRED = ''budget_lease_expired''"
| "quarantine_reason_value CONCURRENCY_LEASE_EXPIRED = ''concurrency_lease_expired''"
| "quarantine_reason_value UNKNOWN_COST = ''unknown_cost''"
| "quarantine_reason_value ADMISSION_BYPASS = ''admission_bypass''"
| "quarantine_reason_value MANUAL = ''manual''"

definition quarantine_kind_of :: "pyval \<Rightarrow> quarantine_kind option" where
  "quarantine_kind_of = enum_of quarantine_kind_value [WORKTREE, RESULT_NAMESPACE, LADDER_RUNG]"

definition quarantine_reason_of :: "pyval \<Rightarrow> quarantine_reason option" where
  "quarantine_reason_of = enum_of quarantine_reason_value
     [BUDGET_LEASE_EXPIRED, CONCURRENCY_LEASE_EXPIRED, UNKNOWN_COST, ADMISSION_BYPASS, MANUAL]"

text \<open>
  \<open>QLedger\<close> and \<open>QField\<close> are the two subclasses of \<open>QuarantineError\<close>; the others leave the
  registry as they are: AttributeError for a payload that is no mapping, an OSError of a write, and the
  ValueError or OverflowError of a time stamp that cannot be rendered.
\<close>

datatype quarantine_error =
    QLedger nat
  | QField "string list"
  | QAttribute
  | QOSError
  | QTime time_error

fun is_quarantine_error :: "quarantine_error \<Rightarrow> bool" where
  "is_quarantine_error (QLedger _) = True"
| "is_quarantine_error (QField _) = True"
| "is_quarantine_error _ = False"

section \<open>Records\<close>

record quarantine_record =
  qr_entry_id :: string
  qr_kind :: quarantine_kind
  qr_identity :: string
  qr_reason :: quarantine_reason
  qr_why :: string
  qr_detected_at :: pyfloat
  qr_source :: string
  qr_run_id :: string
  qr_lease_ids :: "string list"
  qr_cost_source :: "string option"
  qr_metadata :: pydict
  qr_lifted :: bool
  qr_lifted_at :: "pyfloat option"
  qr_lifted_by :: string
  qr_lift_reason :: string

definition qr_to_dict :: "quarantine_record \<Rightarrow> quarantine_error + pydict" where
  "qr_to_dict r =
     (case iso_utc (qr_detected_at r) of
        Inl e \<Rightarrow> Inl (QTime e)
      | Inr stamp \<Rightarrow> Inr
         [(''entry_id'', PStr (qr_entry_id r)),
          (''kind'', PStr (quarantine_kind_value (qr_kind r))),
          (''identity'', PStr (qr_identity r)),
          (''reason'', PStr (quarantine_reason_value (qr_reason r))),
          (''why'', PStr (qr_why r)),
          (''detected_at'', PFloat (qr_detected_at r)),
          (''detected_at_iso'', PStr stamp),
          (''source'', PStr (qr_source r)),
          (''run_id'', PStr (qr_run_id r)),
          (''lease_ids'', PList (map PStr (qr_lease_ids r))),
          (''cost_source'', opt_str (qr_cost_source r)),
          (''metadata'', PDict (qr_metadata r)),
          (''lifted'', PBool (qr_lifted r)),
          (''lifted_at'', opt_float (qr_lifted_at r)),
          (''lifted_by'', PStr (qr_lifted_by r)),
          (''lift_reason'', PStr (qr_lift_reason r))])"

definition qr_required :: "string list" where
  "qr_required = [''entry_id'', ''kind'', ''identity'', ''reason'', ''detected_at'', ''source'']"

text \<open>\<open>str(v or "")\<close>, \<open>tuple(str(x) for x in (v or ()))\<close> and \<open>dict(v or {})\<close>.\<close>

definition str_or_empty :: "pyval \<Rightarrow> string" where
  "str_or_empty v = (if truthy v then py_str v else [])"

definition str_items :: "pyval \<Rightarrow> string list option" where
  "str_items v =
     (if \<not> truthy v then Some []
      else case v of
          PList xs \<Rightarrow> Some (map py_str xs)
        | PDict d \<Rightarrow> Some (map fst d)
        | PStr s \<Rightarrow> Some (map (\<lambda>c. [c]) s)
        | _ \<Rightarrow> None)"

definition dict_or_empty :: "pyval \<Rightarrow> pydict option" where
  "dict_or_empty v = (if truthy v then py_dict v else Some [])"

definition qr_from_dict :: "pydict \<Rightarrow> quarantine_error + quarantine_record" where
  "qr_from_dict d =
     (let missing = filter (\<lambda>k. pyget d k = PNone) qr_required in
      if missing \<noteq> [] then Inl (QField missing)
      else case quarantine_kind_of (pyget d ''kind'') of None \<Rightarrow> Inl (QField [''kind''])
      | Some k \<Rightarrow> (case quarantine_reason_of (pyget d ''reason'') of None \<Rightarrow> Inl (QField [''reason''])
      | Some re \<Rightarrow> (case float_of (pyget d ''detected_at'') of None \<Rightarrow> Inl (QField [''detected_at''])
      | Some det \<Rightarrow> (case str_items (pyget d ''lease_ids'') of None \<Rightarrow> Inl (QField [''lease_ids''])
      | Some lids \<Rightarrow> (case dict_or_empty (pyget d ''metadata'') of None \<Rightarrow> Inl (QField [''metadata''])
      | Some md \<Rightarrow>
          (case (if pyget d ''lifted_at'' = PNone then Some None
                 else map_option Some (float_of (pyget d ''lifted_at''))) of
             None \<Rightarrow> Inl (QField [''lifted_at''])
           | Some lat \<Rightarrow> Inr
               \<lparr>qr_entry_id = py_str (pyget d ''entry_id''), qr_kind = k,
                qr_identity = py_str (pyget d ''identity''), qr_reason = re,
                qr_why = str_or_empty (pyget d ''why''), qr_detected_at = det,
                qr_source = py_str (pyget d ''source''), qr_run_id = str_or_empty (pyget d ''run_id''),
                qr_lease_ids = lids,
                qr_cost_source = (if truthy (pyget d ''cost_source'') then Some (py_str (pyget d ''cost_source'')) else None),
                qr_metadata = md, qr_lifted = truthy (pyget d ''lifted''), qr_lifted_at = lat,
                qr_lifted_by = str_or_empty (pyget d ''lifted_by''),
                qr_lift_reason = str_or_empty (pyget d ''lift_reason'')\<rparr>))))))"

definition qr_problems :: "quarantine_record \<Rightarrow> string list" where
  "qr_problems r =
     (if py_strip (qr_identity r) = [] then [''identity''] else [])
     @ (if py_strip (qr_source r) = [] then [''source''] else [])
     @ (if py_strip (qr_why r) = [] then [''why''] else [])
     @ (if qr_lifted r \<and> py_strip (qr_lifted_by r) = [] then [''lifted_by''] else [])
     @ (if qr_lifted r \<and> qr_lifted_at r = None then [''lifted_at''] else [])"

definition qr_validate :: "quarantine_record \<Rightarrow> quarantine_error + unit" where
  "qr_validate r = (if qr_problems r \<noteq> [] then Inl (QField (qr_problems r)) else Inr ())"

definition entry_id_for :: "quarantine_kind \<Rightarrow> string \<Rightarrow> string" where
  "entry_id_for k identity = quarantine_kind_value k @ ''/'' @ identity"

section \<open>The registry and its two surfaces\<close>

text \<open>The lines of the file are read as JSON texts (\<open>Doc\<close>) or as other texts.\<close>

datatype ledger_file = Missing | Unreadable | Lines "rval list"

record 'r quarantine_state =
  qs_file :: ledger_file
  qs_writable :: bool
  qs_redis :: 'r

text \<open>The Redis client: \<open>None\<close> or \<open>False\<close> for a call that raises.\<close>

record 'r quarantine_redis =
  q_hgetall :: "string \<Rightarrow> 'r \<Rightarrow> (string \<times> rval) list option \<times> 'r"
  q_hset :: "string \<Rightarrow> string \<Rightarrow> rval \<Rightarrow> 'r \<Rightarrow> bool \<times> 'r"
  q_hdel :: "string \<Rightarrow> string \<Rightarrow> 'r \<Rightarrow> bool \<times> 'r"
  q_lpush :: "string \<Rightarrow> rval \<Rightarrow> 'r \<Rightarrow> bool \<times> 'r"
  q_ltrim :: "string \<Rightarrow> int \<Rightarrow> int \<Rightarrow> 'r \<Rightarrow> bool \<times> 'r"

definition QUARANTINE_KEY :: string where
  "QUARANTINE_KEY = ''finops:quarantine:active''"

definition QUARANTINE_EVENTS_KEY :: string where
  "QUARANTINE_EVENTS_KEY = ''quarantine_events''"

definition QUARANTINE_EVENTS_MAX :: int where
  "QUARANTINE_EVENTS_MAX = 200"

section \<open>Reads\<close>

fun parse_lines :: "nat \<Rightarrow> rval list \<Rightarrow> quarantine_error + quarantine_record list" where
  "parse_lines n [] = Inr []"
| "parse_lines n (line # rest) =
     (if (case line of Text s \<Rightarrow> py_strip s = [] | Doc _ \<Rightarrow> False) then parse_lines (Suc n) rest
      else case doc_loads line of
          None \<Rightarrow> Inl (QLedger n)
        | Some (PDict d) \<Rightarrow>
            (case qr_from_dict d of
               Inl e \<Rightarrow> Inl e
             | Inr r \<Rightarrow> (case parse_lines (Suc n) rest of Inl e \<Rightarrow> Inl e | Inr rs \<Rightarrow> Inr (r # rs)))
        | Some _ \<Rightarrow> Inl QAttribute)"

definition entries :: "ledger_file \<Rightarrow> quarantine_error + quarantine_record list" where
  "entries f = (case f of Missing \<Rightarrow> Inr [] | Unreadable \<Rightarrow> Inl (QLedger 0) | Lines ls \<Rightarrow> parse_lines 1 ls)"

text \<open>\<open>_redis_entries\<close>: a field that is not JSON or whose record is malformed is skipped; a field that
  holds JSON of another type raises AttributeError.\<close>

fun redis_records :: "(string \<times> rval) list \<Rightarrow> quarantine_error + quarantine_record list" where
  "redis_records [] = Inr []"
| "redis_records ((f, v) # rest) =
     (case doc_loads v of
        None \<Rightarrow> redis_records rest
      | Some (PDict d) \<Rightarrow>
          (case redis_records rest of
             Inl e \<Rightarrow> Inl e
           | Inr rs \<Rightarrow> (case qr_from_dict d of Inl _ \<Rightarrow> Inr rs | Inr r \<Rightarrow> Inr (r # rs)))
      | Some _ \<Rightarrow> Inl QAttribute)"

definition redis_entries :: "'r quarantine_redis option \<Rightarrow> 'r \<Rightarrow> (quarantine_error + quarantine_record list) \<times> 'r" where
  "redis_entries cl r =
     (case cl of
        None \<Rightarrow> (Inr [], r)
      | Some c \<Rightarrow>
          (case q_hgetall c QUARANTINE_KEY r of
             (None, r') \<Rightarrow> (Inr [], r')
           | (Some raw, r') \<Rightarrow> (redis_records raw, r')))"

text \<open>The dict \<open>latest\<close>: later file records win, a Redis record only fills an absent key.\<close>

definition replay :: "quarantine_record list \<Rightarrow> (string \<times> quarantine_record) list" where
  "replay rs = foldl (\<lambda>d r. AList.update (qr_entry_id r) r d) [] rs"

definition widen_with :: "(string \<times> quarantine_record) list \<Rightarrow> quarantine_record list \<Rightarrow> (string \<times> quarantine_record) list" where
  "widen_with d rs = foldl (\<lambda>d r. if map_of d (qr_entry_id r) = None then d @ [(qr_entry_id r, r)] else d) d rs"

definition record_before :: "quarantine_record \<Rightarrow> quarantine_record \<Rightarrow> bool" where
  "record_before a b \<longleftrightarrow> flt (qr_detected_at a) (qr_detected_at b)
     \<or> (feq (qr_detected_at a) (qr_detected_at b) \<and> qr_entry_id a < qr_entry_id b)"

definition active_of :: "quarantine_record list \<Rightarrow> quarantine_record list \<Rightarrow> quarantine_kind option \<Rightarrow> quarantine_record list" where
  "active_of file redis k =
     sorted_by record_before
       (filter (\<lambda>r. (case k of None \<Rightarrow> True | Some k \<Rightarrow> qr_kind r = k))
         (filter (\<lambda>r. \<not> qr_lifted r) (map snd (widen_with (replay file) redis))))"

definition active :: "'r quarantine_redis option \<Rightarrow> quarantine_kind option \<Rightarrow> 'r quarantine_state \<Rightarrow>
    (quarantine_error + quarantine_record list) \<times> 'r quarantine_state" where
  "active cl k s =
     (case entries (qs_file s) of
        Inl e \<Rightarrow> (Inl e, s)
      | Inr file \<Rightarrow>
          (case redis_entries cl (qs_redis s) of
             (Inl e, r) \<Rightarrow> (Inl e, s\<lparr>qs_redis := r\<rparr>)
           | (Inr redis, r) \<Rightarrow> (Inr (active_of file redis k), s\<lparr>qs_redis := r\<rparr>)))"

definition is_quarantined :: "'r quarantine_redis option \<Rightarrow> quarantine_kind \<Rightarrow> string \<Rightarrow> 'r quarantine_state \<Rightarrow>
    (quarantine_error + bool) \<times> 'r quarantine_state" where
  "is_quarantined cl k identity s =
     (case active cl (Some k) s of
        (Inl e, s') \<Rightarrow> (Inl e, s')
      | (Inr rs, s') \<Rightarrow> (Inr (list_ex (\<lambda>r. qr_entry_id r = entry_id_for k identity) rs), s'))"

definition active_identities :: "'r quarantine_redis option \<Rightarrow> quarantine_kind \<Rightarrow> 'r quarantine_state \<Rightarrow>
    (quarantine_error + string list) \<times> 'r quarantine_state" where
  "active_identities cl k s =
     (case active cl (Some k) s of
        (Inl e, s') \<Rightarrow> (Inl e, s')
      | (Inr rs, s') \<Rightarrow> (Inr (remdups (map qr_identity rs)), s'))"

section \<open>Writes\<close>

definition file_lines :: "ledger_file \<Rightarrow> rval list" where
  "file_lines f = (case f of Lines ls \<Rightarrow> ls | _ \<Rightarrow> [])"

definition append_record :: "quarantine_record \<Rightarrow> 'r quarantine_state \<Rightarrow>
    (quarantine_error + unit) \<times> 'r quarantine_state" where
  "append_record r s =
     (case qr_to_dict r of
        Inl e \<Rightarrow> (Inl e, s)
      | Inr d \<Rightarrow>
          if qs_writable s then (Inr (), s\<lparr>qs_file := Lines (file_lines (qs_file s) @ [Doc (PDict d)])\<rparr>)
          else (Inl QOSError, s))"

text \<open>Both mirrors run after the durable write; whatever they raise is dropped.\<close>

definition push_event :: "'r quarantine_redis \<Rightarrow> rval \<Rightarrow> 'r \<Rightarrow> 'r" where
  "push_event c payload r =
     (case q_lpush c QUARANTINE_EVENTS_KEY payload r of
        (False, r') \<Rightarrow> r'
      | (True, r') \<Rightarrow> snd (q_ltrim c QUARANTINE_EVENTS_KEY 0 (QUARANTINE_EVENTS_MAX - 1) r'))"

definition mirror_active :: "'r quarantine_redis option \<Rightarrow> quarantine_record \<Rightarrow> 'r \<Rightarrow> 'r" where
  "mirror_active cl rec r =
     (case (cl, qr_to_dict rec) of
        (Some c, Inr d) \<Rightarrow>
          (case q_hset c QUARANTINE_KEY (qr_entry_id rec) (Doc (PDict d)) r of
             (False, r') \<Rightarrow> r'
           | (True, r') \<Rightarrow> push_event c (Doc (PDict d)) r')
      | _ \<Rightarrow> r)"

definition mirror_lift :: "'r quarantine_redis option \<Rightarrow> quarantine_record \<Rightarrow> 'r \<Rightarrow> 'r" where
  "mirror_lift cl rec r =
     (case (cl, qr_to_dict rec) of
        (Some c, Inr d) \<Rightarrow>
          (case q_hdel c QUARANTINE_KEY (qr_entry_id rec) r of
             (False, r') \<Rightarrow> r'
           | (True, r') \<Rightarrow> push_event c (Doc (PDict d)) r')
      | _ \<Rightarrow> r)"

record quarantine_request =
  qq_kind :: quarantine_kind
  qq_identity :: string
  qq_reason :: quarantine_reason
  qq_why :: string
  qq_source :: string
  qq_run_id :: string
  qq_lease_ids :: "string list"
  qq_cost_source :: "string option"
  qq_metadata :: pydict

definition opening_record :: "quarantine_request \<Rightarrow> pyfloat \<Rightarrow> quarantine_record" where
  "opening_record q now =
     \<lparr>qr_entry_id = entry_id_for (qq_kind q) (qq_identity q), qr_kind = qq_kind q,
      qr_identity = qq_identity q, qr_reason = qq_reason q, qr_why = qq_why q, qr_detected_at = now,
      qr_source = qq_source q, qr_run_id = qq_run_id q, qr_lease_ids = qq_lease_ids q,
      qr_cost_source = qq_cost_source q, qr_metadata = qq_metadata q, qr_lifted = False,
      qr_lifted_at = None, qr_lifted_by = [], qr_lift_reason = []\<rparr>"

definition quarantine :: "'r quarantine_redis option \<Rightarrow> quarantine_request \<Rightarrow> pyfloat \<Rightarrow> 'r quarantine_state \<Rightarrow>
    (quarantine_error + quarantine_record option) \<times> 'r quarantine_state" where
  "quarantine cl q now s =
     (let rec = opening_record q now in
      case qr_validate rec of
        Inl e \<Rightarrow> (Inl e, s)
      | Inr _ \<Rightarrow>
          (case is_quarantined cl (qq_kind q) (qq_identity q) s of
             (Inl e, s1) \<Rightarrow> (Inl e, s1)
           | (Inr True, s1) \<Rightarrow> (Inr None, s1)
           | (Inr False, s1) \<Rightarrow>
               (case append_record rec s1 of
                  (Inl e, s2) \<Rightarrow> (Inl e, s2)
                | (Inr _, s2) \<Rightarrow> (Inr (Some rec), s2\<lparr>qs_redis := mirror_active cl rec (qs_redis s2)\<rparr>))))"

definition lift_record :: "quarantine_record \<Rightarrow> pyfloat \<Rightarrow> string \<Rightarrow> string \<Rightarrow> quarantine_record" where
  "lift_record r now by why =
     r\<lparr>qr_metadata := dict_put ''lifted_from'' (PStr (qr_entry_id r)) (qr_metadata r),
       qr_lifted := True, qr_lifted_at := Some now, qr_lifted_by := by, qr_lift_reason := why\<rparr>"

definition lift :: "'r quarantine_redis option \<Rightarrow> quarantine_kind \<Rightarrow> string \<Rightarrow> string \<Rightarrow> string \<Rightarrow> pyfloat \<Rightarrow>
    'r quarantine_state \<Rightarrow> (quarantine_error + quarantine_record option) \<times> 'r quarantine_state" where
  "lift cl k identity by why now s =
     (case active cl (Some k) s of
        (Inl e, s1) \<Rightarrow> (Inl e, s1)
      | (Inr rs, s1) \<Rightarrow>
          (case List.find (\<lambda>r. qr_identity r = identity) rs of
             None \<Rightarrow> (Inr None, s1)
           | Some existing \<Rightarrow>
               (let rec = lift_record existing now by why in
                case qr_validate rec of
                  Inl e \<Rightarrow> (Inl e, s1)
                | Inr _ \<Rightarrow>
                    (case append_record rec s1 of
                       (Inl e, s2) \<Rightarrow> (Inl e, s2)
                     | (Inr _, s2) \<Rightarrow> (Inr (Some rec), s2\<lparr>qs_redis := mirror_lift cl rec (qs_redis s2)\<rparr>)))))"

section \<open>The consult layer\<close>

datatype on_error = RaiseError | EmptyOnError

definition quarantined_identities :: "'r quarantine_redis option \<Rightarrow> quarantine_kind \<Rightarrow> on_error \<Rightarrow> 'r quarantine_state \<Rightarrow>
    (quarantine_error + string list) \<times> 'r quarantine_state" where
  "quarantined_identities cl k policy s =
     (case active_identities cl k s of
        (Inl e, s') \<Rightarrow> (if is_quarantine_error e \<and> policy = EmptyOnError then Inr [] else Inl e, s')
      | (Inr ids, s') \<Rightarrow> (Inr ids, s'))"

definition is_worktree_quarantined :: "'r quarantine_redis option \<Rightarrow> string \<Rightarrow> 'r quarantine_state \<Rightarrow>
    (quarantine_error + bool) \<times> 'r quarantine_state" where
  "is_worktree_quarantined cl name s = is_quarantined cl WORKTREE name s"

fun split_paths :: "string list \<Rightarrow> string list \<Rightarrow> string list \<times> string list" where
  "split_paths names [] = ([], [])"
| "split_paths names (p # ps) =
     (case split_paths names ps of (kept, excluded) \<Rightarrow>
        if path_name p \<in> set names then (kept, p # excluded) else (p # kept, excluded))"

definition filter_quarantined_paths :: "'r quarantine_redis option \<Rightarrow> string list \<Rightarrow> on_error \<Rightarrow> 'r quarantine_state \<Rightarrow>
    (quarantine_error + string list \<times> string list) \<times> 'r quarantine_state" where
  "filter_quarantined_paths cl paths policy s =
     (case quarantined_identities cl WORKTREE policy s of
        (Inl e, s') \<Rightarrow> (Inl e, s')
      | (Inr names, s') \<Rightarrow> (Inr (split_paths names paths), s'))"

text \<open>The board: an error of the registry is a row of its own; the rows of one kind hold the dicts of its
  active records.\<close>

fun dicts_of :: "quarantine_record list \<Rightarrow> quarantine_error + pydict list" where
  "dicts_of [] = Inr []"
| "dicts_of (r # rs) =
     (case qr_to_dict r of Inl e \<Rightarrow> Inl e
      | Inr d \<Rightarrow> (case dicts_of rs of Inl e \<Rightarrow> Inl e | Inr ds \<Rightarrow> Inr (d # ds)))"

datatype quarantine_board = BoardUnreadable quarantine_error | QuarantineBoard "(quarantine_kind \<times> pydict list) list" nat

definition board_rows :: "quarantine_record list \<Rightarrow> quarantine_kind \<Rightarrow> quarantine_error + pydict list" where
  "board_rows rs k = dicts_of (filter (\<lambda>r. qr_kind r = k) rs)"

definition quarantine_board :: "'r quarantine_redis option \<Rightarrow> 'r quarantine_state \<Rightarrow>
    (quarantine_error + quarantine_board) \<times> 'r quarantine_state" where
  "quarantine_board cl s =
     (case active cl None s of
        (Inl e, s') \<Rightarrow> (if is_quarantine_error e then Inr (BoardUnreadable e) else Inl e, s')
      | (Inr rs, s') \<Rightarrow>
          (case dicts_of rs of
             Inl e \<Rightarrow> (Inl e, s')
           | Inr _ \<Rightarrow> (Inr (QuarantineBoard
               (map (\<lambda>k. (k, case board_rows rs k of Inr ds \<Rightarrow> ds | Inl _ \<Rightarrow> []))
                  [WORKTREE, RESULT_NAMESPACE, LADDER_RUNG]) (length rs)), s')))"

end
