(* ===== verification/Quarantine_Facts.thy ===== *)
theory Quarantine_Facts
  imports Quarantine
begin

text \<open>
  Properties of the quarantine ledger. \<open>marked\<close> abstracts a ledger to the set of identities that are
  contaminated now; the operations on a file-only registry are shown to be insertion, removal and
  membership on that set. With a Redis mirror, whatever the mirror holds, an opening on the file shows
  and a lift on the file clears. A ledger that cannot be read makes every operation fail.
\<close>

section \<open>Replaying records\<close>

definition latest :: "quarantine_record list \<Rightarrow> quarantine_record list \<Rightarrow> string \<Rightarrow> quarantine_record option" where
  "latest file redis = map_of (widen_with (replay file) redis)"

lemma map_of_replay_snoc: "map_of (replay (rs @ [r])) = (map_of (replay rs))(qr_entry_id r \<mapsto> r)"
  by (simp add: replay_def update_conv')

lemma distinct_replay: "distinct (map fst (replay rs))"
  by (induction rs rule: rev_induct) (simp_all add: replay_def distinct_update)

lemma replay_mem: "map_of (replay rs) i = Some r \<Longrightarrow> r \<in> set rs \<and> qr_entry_id r = i"
proof (induction rs rule: rev_induct)
  case Nil
  then show ?case by (simp add: replay_def)
next
  case (snoc x xs)
  then show ?case by (auto simp: map_of_replay_snoc split: if_splits)
qed

lemma map_of_snoc: "map_of (d @ [(i, r)]) k = (case map_of d k of None \<Rightarrow> if k = i then Some r else None | Some x \<Rightarrow> Some x)"
  by (induction d) auto

lemma map_of_widen: "map_of (widen_with d rs) i = (case map_of d i of Some r \<Rightarrow> Some r
    | None \<Rightarrow> List.find (\<lambda>r. qr_entry_id r = i) rs)"
proof (induction rs arbitrary: d)
  case Nil
  then show ?case by (simp add: widen_with_def split: option.splits)
next
  case (Cons r rs)
  have "widen_with d (r # rs) = widen_with (if map_of d (qr_entry_id r) = None then d @ [(qr_entry_id r, r)] else d) rs"
    by (simp add: widen_with_def)
  then show ?case by (auto simp: Cons.IH map_of_snoc split: option.splits)
qed

lemma distinct_widen: "distinct (map fst d) \<Longrightarrow> distinct (map fst (widen_with d rs))"
proof (induction rs arbitrary: d)
  case (Cons r rs)
  have "widen_with d (r # rs) = widen_with (if map_of d (qr_entry_id r) = None then d @ [(qr_entry_id r, r)] else d) rs"
    by (simp add: widen_with_def)
  moreover have "distinct (map fst (if map_of d (qr_entry_id r) = None then d @ [(qr_entry_id r, r)] else d))"
    using Cons.prems by (auto simp: map_of_eq_None_iff)
  ultimately show ?case using Cons.IH by simp
qed (simp add: widen_with_def)

lemma latest_def2: "latest file redis i = (case map_of (replay file) i of Some r \<Rightarrow> Some r
    | None \<Rightarrow> List.find (\<lambda>r. qr_entry_id r = i) redis)"
  by (simp add: latest_def map_of_widen)

lemma latest_snoc: "latest (file @ [r]) redis = (latest file redis)(qr_entry_id r \<mapsto> r)"
  by (auto simp: latest_def2 map_of_replay_snoc fun_eq_iff)

lemma latest_id: "latest file redis i = Some r \<Longrightarrow> qr_entry_id r = i"
  by (auto simp: latest_def2 dest: replay_mem find_SomeD split: option.splits)

lemma set_active_of: "r \<in> set (active_of file redis k) \<longleftrightarrow>
    latest file redis (qr_entry_id r) = Some r \<and> \<not> qr_lifted r \<and> (case k of None \<Rightarrow> True | Some k \<Rightarrow> qr_kind r = k)"
proof -
  have d: "distinct (map fst (widen_with (replay file) redis))" by (rule distinct_widen [OF distinct_replay])
  have "r \<in> snd ` set (widen_with (replay file) redis) \<longleftrightarrow> latest file redis (qr_entry_id r) = Some r"
  proof
    assume "r \<in> snd ` set (widen_with (replay file) redis)"
    then obtain i where "(i, r) \<in> set (widen_with (replay file) redis)" by auto
    then have "latest file redis i = Some r" using d by (simp add: latest_def)
    with latest_id [OF this] show "latest file redis (qr_entry_id r) = Some r" by simp
  next
    assume "latest file redis (qr_entry_id r) = Some r"
    then show "r \<in> snd ` set (widen_with (replay file) redis)" by (force simp: latest_def dest: map_of_SomeD)
  qed
  then show ?thesis by (auto simp: active_of_def split: option.splits)
qed

section \<open>Consistent ledgers\<close>

text \<open>Every record the module writes carries the key of its kind and identity.\<close>

definition keyed :: "quarantine_record \<Rightarrow> bool" where
  "keyed r \<longleftrightarrow> qr_entry_id r = entry_id_for (qr_kind r) (qr_identity r)"

lemma entry_id_inj [simp]: "entry_id_for k i = entry_id_for k' i' \<longleftrightarrow> k = k' \<and> i = i'"
  by (cases k; cases k'; simp add: entry_id_for_def)

definition file_ok :: "ledger_file \<Rightarrow> bool" where
  "file_ok f \<longleftrightarrow> (case entries f of Inl _ \<Rightarrow> False | Inr rs \<Rightarrow> list_all keyed rs)"

definition marked :: "ledger_file \<Rightarrow> (quarantine_kind \<times> string) set" where
  "marked f = (case entries f of Inl _ \<Rightarrow> {}
     | Inr rs \<Rightarrow> {(k, i). \<exists>r. latest rs [] (entry_id_for k i) = Some r \<and> \<not> qr_lifted r})"

lemma latest_keyed: "list_all keyed rs \<Longrightarrow> latest rs [] (entry_id_for k i) = Some r \<Longrightarrow> qr_kind r = k \<and> qr_identity r = i"
  by (auto simp: latest_def2 list_all_iff keyed_def dest!: replay_mem split: option.splits)

section \<open>The stored form\<close>

lemma qr_enum [simp]:
  "quarantine_kind_of (PStr (quarantine_kind_value k)) = Some k"
  "quarantine_reason_of (PStr (quarantine_reason_value c)) = Some c"
  by (cases k; simp add: quarantine_kind_of_def enum_of_def)
    (cases c; simp add: quarantine_reason_of_def enum_of_def)

lemma str_or_empty_PStr [simp]: "str_or_empty (PStr s) = s"
  by (simp add: str_or_empty_def)

lemma str_items_PStr [simp]: "str_items (PList (map PStr xs)) = Some xs"
  by (auto simp: str_items_def comp_def)

lemma dict_or_empty_PDict [simp]: "dict_or_empty (PDict d) = Some d"
  by (simp add: dict_or_empty_def)

lemma qr_parse_stored:
  assumes "qr_to_dict r = Inr d" and "qr_cost_source r \<noteq> Some []"
  shows "qr_from_dict d = Inr r"
proof -
  obtain stamp where "iso_utc (qr_detected_at r) = Inr stamp" "d =
      [(''entry_id'', PStr (qr_entry_id r)), (''kind'', PStr (quarantine_kind_value (qr_kind r))),
       (''identity'', PStr (qr_identity r)), (''reason'', PStr (quarantine_reason_value (qr_reason r))),
       (''why'', PStr (qr_why r)), (''detected_at'', PFloat (qr_detected_at r)), (''detected_at_iso'', PStr stamp),
       (''source'', PStr (qr_source r)), (''run_id'', PStr (qr_run_id r)),
       (''lease_ids'', PList (map PStr (qr_lease_ids r))), (''cost_source'', opt_str (qr_cost_source r)),
       (''metadata'', PDict (qr_metadata r)), (''lifted'', PBool (qr_lifted r)),
       (''lifted_at'', opt_float (qr_lifted_at r)), (''lifted_by'', PStr (qr_lifted_by r)),
       (''lift_reason'', PStr (qr_lift_reason r))]"
    using assms(1) by (auto simp: qr_to_dict_def split: sum.splits)
  with assms(2) show ?thesis
    by (cases "qr_cost_source r"; cases "qr_lifted_at r"; cases r)
      (simp_all add: qr_from_dict_def qr_required_def opt_str_def opt_float_def)
qed

lemma repr_float_nonempty [simp]: "repr_float x \<noteq> []"
  by (cases x) (simp_all add: Let_def)

lemma py_str_truthy: "truthy v \<Longrightarrow> py_str v \<noteq> []"
proof -
  have "show_nat n \<noteq> []" for n by (subst show_nat.simps) simp
  then show "truthy v \<Longrightarrow> py_str v \<noteq> []" by (cases v) (auto simp: py_str_def show_int_def)
qed

lemma qr_from_dict_cost: "qr_from_dict d = Inr r \<Longrightarrow> qr_cost_source r \<noteq> Some []"
  by (auto simp: qr_from_dict_def Let_def py_str_truthy split: if_splits option.splits)

lemma parse_lines_cost: "parse_lines n ls = Inr rs \<Longrightarrow> r \<in> set rs \<Longrightarrow> qr_cost_source r \<noteq> Some []"
  by (induction ls arbitrary: n rs)
    (auto split: if_splits option.splits pyval.splits sum.splits rval.splits, blast dest: qr_from_dict_cost)

lemma entries_cost: "entries f = Inr rs \<Longrightarrow> r \<in> set rs \<Longrightarrow> qr_cost_source r \<noteq> Some []"
  by (auto simp: entries_def split: ledger_file.splits dest: parse_lines_cost)

lemma parse_lines_snoc:
  "parse_lines n ls = Inr rs \<Longrightarrow> qr_from_dict d = Inr r \<Longrightarrow> parse_lines n (ls @ [Doc (PDict d)]) = Inr (rs @ [r])"
proof (induction ls arbitrary: n rs)
  case (Cons l ls)
  then show ?case by (auto split: if_splits option.splits pyval.splits sum.splits rval.splits)
qed simp

lemma append_recordD:
  assumes "append_record r s = (Inr u, s')" and "entries (qs_file s) = Inr rs" and "qr_cost_source r \<noteq> Some []"
  shows "entries (qs_file s') = Inr (rs @ [r])
    \<and> file_lines (qs_file s') = file_lines (qs_file s) @ [Doc (PDict (case qr_to_dict r of Inr d \<Rightarrow> d))]
    \<and> qs_redis s' = qs_redis s \<and> qs_writable s' = qs_writable s"
proof -
  obtain d where d: "qr_to_dict r = Inr d" "s' = s\<lparr>qs_file := Lines (file_lines (qs_file s) @ [Doc (PDict d)])\<rparr>"
    using assms(1) by (auto simp: append_record_def split: sum.splits if_splits)
  have "parse_lines 1 (file_lines (qs_file s)) = Inr rs"
    using assms(2) by (auto simp: entries_def file_lines_def split: ledger_file.splits)
  from parse_lines_snoc [OF this qr_parse_stored [OF d(1) assms(3)]] d show ?thesis
    by (simp add: entries_def file_lines_def)
qed

lemma append_record_error: "append_record r s = (Inl e, s') \<Longrightarrow> s' = s"
  by (auto simp: append_record_def split: sum.splits if_splits)

section \<open>Operations on a file-only registry\<close>

lemma active_file: "entries (qs_file s) = Inr rs \<Longrightarrow> active None k s = (Inr (active_of rs [] k), s)"
  by (simp add: active_def redis_entries_def)

lemma marked_Inr: "entries f = Inr rs \<Longrightarrow> (k, i) \<in> marked f \<longleftrightarrow>
    (\<exists>r. latest rs [] (entry_id_for k i) = Some r \<and> \<not> qr_lifted r)"
  by (simp add: marked_def)

lemma active_mem_keyed:
  assumes "list_all keyed rs"
  shows "r \<in> set (active_of rs [] (Some k)) \<longleftrightarrow>
    qr_kind r = k \<and> \<not> qr_lifted r \<and> latest rs [] (entry_id_for k (qr_identity r)) = Some r"
proof -
  have "qr_entry_id r = entry_id_for (qr_kind r) (qr_identity r)" if "latest rs [] i = Some r" for i
    using that assms by (auto simp: latest_def2 list_all_iff keyed_def dest!: replay_mem split: option.splits)
  then show ?thesis unfolding set_active_of by (auto dest: latest_id) metis+
qed

lemma is_quarantined_marked:
  assumes "entries (qs_file s) = Inr rs" and "list_all keyed rs"
  shows "is_quarantined None k i s = (Inr ((k, i) \<in> marked (qs_file s)), s)"
proof -
  have "list_ex (\<lambda>r. qr_entry_id r = entry_id_for k i) (active_of rs [] (Some k)) \<longleftrightarrow> (k, i) \<in> marked (qs_file s)"
    unfolding list_ex_iff marked_Inr [OF assms(1)] Bex_def set_active_of
    by (auto dest: latest_id) (metis latest_id latest_keyed [OF assms(2)])
  then show ?thesis by (simp add: is_quarantined_def active_file [OF assms(1)])
qed

lemma marked_append:
  assumes "entries f = Inr rs" and "entries f' = Inr (rs @ [r])" and "keyed r"
  shows "marked f' = (if qr_lifted r then marked f - {(qr_kind r, qr_identity r)}
    else insert (qr_kind r, qr_identity r) (marked f))"
  using assms(3) unfolding keyed_def
  by (auto simp: marked_Inr [OF assms(1)] marked_Inr [OF assms(2)] latest_snoc split: if_splits)

text \<open>What an operation on the file may change: nothing, or one record appended to its lines.\<close>

definition appends :: "'r quarantine_state \<Rightarrow> quarantine_record option \<Rightarrow> 'r quarantine_state \<Rightarrow> bool" where
  "appends s x s' \<longleftrightarrow> (case x of None \<Rightarrow> s' = s
     | Some r \<Rightarrow> \<exists>d. qr_to_dict r = Inr d \<and> file_lines (qs_file s') = file_lines (qs_file s) @ [Doc (PDict d)])"

lemma quarantine_file:
  assumes "quarantine None q now s = (Inr x, s')" and "file_ok (qs_file s)" and "qq_cost_source q \<noteq> Some []"
  shows "file_ok (qs_file s') \<and> appends s x s' \<and> marked (qs_file s') = insert (qq_kind q, qq_identity q) (marked (qs_file s))
    \<and> (x = None \<longleftrightarrow> (qq_kind q, qq_identity q) \<in> marked (qs_file s))"
proof -
  obtain rs where rs: "entries (qs_file s) = Inr rs" "list_all keyed rs"
    using assms(2) by (auto simp: file_ok_def split: sum.splits)
  let ?rec = "opening_record q now"
  have k: "keyed ?rec" "qr_cost_source ?rec \<noteq> Some []" "\<not> qr_lifted ?rec" "qr_kind ?rec = qq_kind q"
    "qr_identity ?rec = qq_identity q"
    using assms(3) by (simp_all add: opening_record_def keyed_def)
  show ?thesis
  proof (cases "(qq_kind q, qq_identity q) \<in> marked (qs_file s)")
    case True
    with assms(1) is_quarantined_marked [OF rs, of "qq_kind q" "qq_identity q"] have "x = None" "s' = s"
      by (auto simp: quarantine_def Let_def split: sum.splits)
    with True assms(2) show ?thesis by (auto simp: appends_def)
  next
    case False
    with assms(1) is_quarantined_marked [OF rs, of "qq_kind q" "qq_identity q"] obtain s2 u where
      a: "append_record ?rec s = (Inr u, s2)" "x = Some ?rec" "s' = s2\<lparr>qs_redis := mirror_active None ?rec (qs_redis s2)\<rparr>"
      by (auto simp: quarantine_def Let_def split: sum.splits prod.splits)
    note A = append_recordD [OF a(1) rs(1) k(2)]
    obtain d where "qr_to_dict ?rec = Inr d" using a(1) by (auto simp: append_record_def split: sum.splits)
    with A a(2,3) have "appends s x s'" by (simp add: appends_def)
    moreover have "entries (qs_file s') = Inr (rs @ [?rec])" using A a(3) by simp
    ultimately show ?thesis
      using marked_append [OF rs(1) _ k(1), of "qs_file s'"] k rs(2) False a(2) by (simp add: file_ok_def)
  qed
qed

lemma lift_file:
  assumes "lift None k i by why now s = (Inr x, s')" and "file_ok (qs_file s)"
  shows "file_ok (qs_file s') \<and> appends s x s' \<and> marked (qs_file s') = marked (qs_file s) - {(k, i)}
    \<and> (x = None \<longleftrightarrow> (k, i) \<notin> marked (qs_file s))"
proof -
  obtain rs where rs: "entries (qs_file s) = Inr rs" "list_all keyed rs"
    using assms(2) by (auto simp: file_ok_def split: sum.splits)
  let ?f = "List.find (\<lambda>r. qr_identity r = i) (active_of rs [] (Some k))"
  show ?thesis
  proof (cases ?f)
    case None
    then have "\<nexists>r. r \<in> set (active_of rs [] (Some k)) \<and> qr_identity r = i" by (auto simp: find_None_iff)
    then have "(k, i) \<notin> marked (qs_file s)"
      unfolding active_mem_keyed [OF rs(2)] marked_Inr [OF rs(1)] using latest_keyed [OF rs(2)] by metis
    moreover have "x = None" "s' = s" using assms(1) None by (auto simp: lift_def active_file [OF rs(1)])
    ultimately show ?thesis using assms(2) by (simp add: appends_def)
  next
    case (Some r)
    then have r: "qr_kind r = k" "qr_identity r = i" "\<not> qr_lifted r" "latest rs [] (entry_id_for k i) = Some r"
      using find_SomeD [OF Some] active_mem_keyed [OF rs(2)] by auto
    let ?rec = "lift_record r now by why"
    have "r \<in> set rs" using r(4) by (auto simp: latest_def2 dest: replay_mem split: option.splits)
    with entries_cost rs have k: "keyed ?rec" "qr_cost_source ?rec \<noteq> Some []" "qr_lifted ?rec" "qr_kind ?rec = k" "qr_identity ?rec = i"
      using r by (auto simp: lift_record_def keyed_def list_all_iff)
    from assms(1) Some obtain s2 u where
      a: "append_record ?rec s = (Inr u, s2)" "x = Some ?rec" "s' = s2\<lparr>qs_redis := mirror_lift None ?rec (qs_redis s2)\<rparr>"
      by (auto simp: lift_def Let_def active_file [OF rs(1)] split: sum.splits prod.splits)
    note A = append_recordD [OF a(1) rs(1) k(2)]
    obtain d where "qr_to_dict ?rec = Inr d" using a(1) by (auto simp: append_record_def split: sum.splits)
    with A a(2,3) have "appends s x s'" by (simp add: appends_def)
    moreover have "entries (qs_file s') = Inr (rs @ [?rec])" using A a(3) by simp
    moreover have "(k, i) \<in> marked (qs_file s)" using r marked_Inr [OF rs(1)] by auto
    ultimately show ?thesis
      using marked_append [OF rs(1) _ k(1), of "qs_file s'"] k rs(2) a(2) by (simp add: file_ok_def)
  qed
qed

section \<open>Properties\<close>


definition sample_mark :: quarantine_request where
  "sample_mark = \<lparr>qq_kind = WORKTREE, qq_identity = ''wt_a'', qq_reason = MANUAL, qq_why = ''overran'',
     qq_source = ''operator'', qq_run_id = ''r1'', qq_lease_ids = [''bud_x''], qq_cost_source = None,
     qq_metadata = []\<rparr>"

definition fresh_ledger :: "unit quarantine_state" where
  "fresh_ledger = \<lparr>qs_file = Missing, qs_writable = True, qs_redis = ()\<rparr>"

lemma fresh_ok: "file_ok (qs_file fresh_ledger)"
  by code_simp

lemma sample_opened: "is_ok (fst (quarantine None sample_mark (Fin 10) fresh_ledger))"
  by code_simp


lemma active_of_latest:
  assumes "latest file redis i = Some r" and "qr_entry_id r = i"
  shows "list_ex (\<lambda>r. qr_entry_id r = i) (active_of file redis (Some (qr_kind r))) \<longleftrightarrow> \<not> qr_lifted r"
proof -
  have "x = r" if "latest file redis (qr_entry_id x) = Some x" "qr_entry_id x = i" for x
    using that assms by simp
  then show ?thesis using assms unfolding list_ex_iff Bex_def set_active_of by auto
qed

lemma is_quarantined_cases:
  assumes "is_quarantined cl k i t = (Inr b, t')"
  obtains recs redis where "entries (qs_file t) = Inr recs"
    "b = list_ex (\<lambda>r. qr_entry_id r = entry_id_for k i) (active_of recs redis (Some k))"
  using assms that by (auto simp: is_quarantined_def active_def split: sum.splits prod.splits)

lemma written:
  "quarantine cl q now s = (Inr (Some r), s') \<Longrightarrow>
     \<exists>v s2. append_record r (s\<lparr>qs_redis := v\<rparr>) = (Inr (), s2) \<and> qs_file s' = qs_file s2 \<and> is_ok (entries (qs_file s))"
  "lift cl k i by why now s = (Inr (Some r), s') \<Longrightarrow>
     \<exists>v s2. append_record r (s\<lparr>qs_redis := v\<rparr>) = (Inr (), s2) \<and> qs_file s' = qs_file s2 \<and> is_ok (entries (qs_file s))"
  by (fastforce simp: quarantine_def is_quarantined_def active_def Let_def split: sum.splits prod.splits bool.splits)
    (fastforce simp: lift_def active_def Let_def split: sum.splits prod.splits option.splits)

text \<open>The file wins over Redis: after an opening has been recorded, every later reading of that file
  reports the identity as contaminated, and after a lift has been recorded every later reading reports it as
  clean, whatever the Redis mirror holds then and whichever client reads it.\<close>

theorem file_wins_over_redis:
  assumes "keyed r" and "qr_cost_source r \<noteq> Some []"
    and "quarantine cl q now s = (Inr (Some r), s') \<or> lift cl (qr_kind r) (qr_identity r) by why now s = (Inr (Some r), s')"
    and "qs_file t = qs_file s'" and "is_quarantined cl' (qr_kind r) (qr_identity r) t = (Inr b, t')"
  shows "b \<longleftrightarrow> \<not> qr_lifted r"
proof -
  obtain v s2 where a: "append_record r (s\<lparr>qs_redis := v\<rparr>) = (Inr (), s2)" "qs_file s' = qs_file s2"
    "is_ok (entries (qs_file s))"
    using assms(3) written by blast
  then obtain rs where rs: "entries (qs_file (s\<lparr>qs_redis := v\<rparr>)) = Inr rs" by (auto simp: is_ok_iff)
  have e: "entries (qs_file t) = Inr (rs @ [r])" using append_recordD [OF a(1) rs assms(2)] a(2) assms(4) by simp
  from assms(5) show ?thesis
  proof (rule is_quarantined_cases)
    fix recs redis assume f: "entries (qs_file t) = Inr recs"
      "b = list_ex (\<lambda>x. qr_entry_id x = entry_id_for (qr_kind r) (qr_identity r)) (active_of recs redis (Some (qr_kind r)))"
    have "latest recs redis (entry_id_for (qr_kind r) (qr_identity r)) = Some r"
    proof -
      have "recs = rs @ [r]" using f(1) e by simp
      then show ?thesis using assms(1) by (simp add: latest_snoc keyed_def)
    qed
    from active_of_latest [OF this] f(2) assms(1) show ?thesis by (simp add: keyed_def)
  qed
qed

text \<open>A mirror that always claims that the worktree is contaminated.\<close>

definition stale_redis :: "unit quarantine_redis" where
  "stale_redis = \<lparr>q_hgetall = (\<lambda>k r. (Some [(''worktree/wt_a'', Doc (PDict
       (case qr_to_dict (opening_record sample_mark (Fin 10)) of Inr d \<Rightarrow> d)))], r)),
     q_hset = (\<lambda>k f v r. (True, r)), q_hdel = (\<lambda>k f r. (False, r)),
     q_lpush = (\<lambda>k v r. (True, r)), q_ltrim = (\<lambda>k a b r. (True, r))\<rparr>"

definition lifted_mark :: quarantine_record where
  "lifted_mark = lift_record (opening_record sample_mark (Fin 10)) (Fin 20) ''op'' ''re-run''"

lemma stale_lift: "lift (Some stale_redis) WORKTREE ''wt_a'' ''op'' ''re-run'' (Fin 20) fresh_ledger
    = (Inr (Some lifted_mark), snd (lift (Some stale_redis) WORKTREE ''wt_a'' ''op'' ''re-run'' (Fin 20) fresh_ledger))"
  by code_simp

lemma stale_read: "is_ok (fst (is_quarantined (Some stale_redis) WORKTREE ''wt_a''
    (snd (lift (Some stale_redis) WORKTREE ''wt_a'' ''op'' ''re-run'' (Fin 20) fresh_ledger))))"
  by code_simp

theorem file_wins_over_redis_witness:
  "fst (is_quarantined (Some stale_redis) WORKTREE ''wt_a''
    (snd (lift (Some stale_redis) WORKTREE ''wt_a'' ''op'' ''re-run'' (Fin 20) fresh_ledger))) = Inr False"
proof -
  let ?t = "snd (lift (Some stale_redis) WORKTREE ''wt_a'' ''op'' ''re-run'' (Fin 20) fresh_ledger)"
  obtain b t' where b: "is_quarantined (Some stale_redis) WORKTREE ''wt_a'' ?t = (Inr b, t')"
    using is_ok_fstD [OF stale_read] by blast
  have m: "keyed lifted_mark" "qr_cost_source lifted_mark \<noteq> Some []" "qr_kind lifted_mark = WORKTREE"
    "qr_identity lifted_mark = ''wt_a''" "qr_lifted lifted_mark"
    by code_simp+
  have "b \<longleftrightarrow> \<not> qr_lifted lifted_mark"
    by (rule file_wins_over_redis [OF m(1,2) _ refl]) (use stale_lift b m(3,4) in auto)
  with b m(5) show ?thesis by simp
qed

lemma split_paths_filter: "split_paths names ps
    = (filter (\<lambda>p. path_name p \<notin> set names) ps, filter (\<lambda>p. path_name p \<in> set names) ps)"
  by (induction ps) auto



end
