(* ===== verification/Lease_Watchdog.thy ===== *)
theory Lease_Watchdog
  imports Lease_Guarantees Quarantine_Facts
begin

text \<open>
  \<open>control/lease_watchdog.py\<close> with \<open>normalize_flag\<close> of \<open>control/supervisor.py\<close>: one pass of the
  observe-only expiry rail. The world holds the lease registry's world, the quarantine ledger with the
  framework Redis, and the durable flag file. The pass sweeps, turns every expired lease into an
  observation and a flag, and opens a quarantine for the output of an expired budget lease; an
  exception that the code does not catch ends it. The hash of a flag is a parameter. The dash of the
  message texts is written as its three UTF-8 bytes.
\<close>

section \<open>Observations\<close>

record lease_observation =
  ob_lease_id :: string
  ob_kind :: string
  ob_scope :: string
  ob_run_id :: string
  ob_model :: string
  ob_provider_class :: string
  ob_amount :: pyfloat
  ob_unit :: string
  ob_expires_at :: pyfloat
  ob_overdue :: pyfloat
  ob_worktree :: string
  ob_namespace :: string

definition attributable :: "lease_observation \<Rightarrow> bool" where
  "attributable ob \<longleftrightarrow> ob_worktree ob \<noteq> [] \<or> ob_namespace ob \<noteq> []"

definition WORKTREE_METADATA_KEY :: string where "WORKTREE_METADATA_KEY = ''worktree_identity''"
definition NAMESPACE_METADATA_KEY :: string where "NAMESPACE_METADATA_KEY = ''result_namespace''"
definition WATCHDOG_SOURCE :: string where "WATCHDOG_SOURCE = ''lease_watchdog''"
definition FLAG_STATUS_BUDGET :: string where "FLAG_STATUS_BUDGET = ''lease_expired_budget''"
definition FLAG_STATUS_CONCURRENCY :: string where "FLAG_STATUS_CONCURRENCY = ''lease_expired_concurrency''"

definition observe :: "lease \<Rightarrow> pyfloat \<Rightarrow> lease_observation" where
  "observe l now =
     \<lparr>ob_lease_id = lease_id l, ob_kind = lease_kind_value (lease_kind l),
      ob_scope = scope_token (lease_scope l), ob_run_id = lease_run_id l,
      ob_model = str_or_empty (pyget (lease_metadata l) ''model''),
      ob_provider_class = provider_class_value (lease_provider_class l),
      ob_amount = lease_amount l, ob_unit = lease_unit l, ob_expires_at = lease_expires_at l,
      ob_overdue = fmax (Fin 0) (fsub now (lease_expires_at l)),
      ob_worktree = py_strip (str_or_empty (pyget (lease_metadata l) WORKTREE_METADATA_KEY)),
      ob_namespace = py_strip (str_or_empty (pyget (lease_metadata l) NAMESPACE_METADATA_KEY))\<rparr>"

definition observation_to_dict :: "lease_observation \<Rightarrow> time_error + pydict" where
  "observation_to_dict ob =
     (case iso_z (ob_expires_at ob) of
        Inl e \<Rightarrow> Inl e
      | Inr stamp \<Rightarrow> Inr
         [(''lease_id'', PStr (ob_lease_id ob)), (''kind'', PStr (ob_kind ob)), (''scope'', PStr (ob_scope ob)),
          (''run_id'', PStr (ob_run_id ob)), (''model'', PStr (ob_model ob)),
          (''provider_class'', PStr (ob_provider_class ob)), (''amount'', PFloat (ob_amount ob)),
          (''unit'', PStr (ob_unit ob)), (''expires_at'', PFloat (ob_expires_at ob)),
          (''overdue_seconds'', PFloat (ob_overdue ob)), (''worktree_identity'', PStr (ob_worktree ob)),
          (''result_namespace'', PStr (ob_namespace ob)), (''expires_at_iso'', PStr stamp),
          (''attributable'', PBool (attributable ob))])"

section \<open>Flags\<close>

definition FLAG_FIELDS :: "string list" where
  "FLAG_FIELDS = [''at'', ''session_id'', ''title'', ''model'', ''status'', ''why'']"

definition SUPERVISOR_FLAGS_KEY :: string where "SUPERVISOR_FLAGS_KEY = ''supervisor_flags''"
definition SUPERVISOR_FLAGS_MAX :: int where "SUPERVISOR_FLAGS_MAX = 200"

fun is_str :: "pyval \<Rightarrow> bool" where
  "is_str (PStr _) = True"
| "is_str _ = False"

text \<open>\<open>digest\<close> is the first 16 hex digits of the SHA-256 of the canonical JSON text of a dict.\<close>

definition normalize_flag :: "(pydict \<Rightarrow> string) \<Rightarrow> pyval \<Rightarrow> pydict option" where
  "normalize_flag digest v =
     (case v of
        PDict d \<Rightarrow>
          if list_ex (\<lambda>f. \<not> is_str (pyget d f)) FLAG_FIELDS then None
          else if py_strip (py_str (pyget d ''session_id'')) = [] \<or> py_strip (py_str (pyget d ''status'')) = [] then None
          else
            (let core = map (\<lambda>f. (f, pyget d f)) FLAG_FIELDS;
                 extras = filter (\<lambda>(f, x). map_of d f \<noteq> None)
                   (map (\<lambda>f. (f, pyget d f)) [''last_activity_at'', ''review'', ''mapping'', ''lease''])
             in Some (core @ extras @ [(''flag_id'', PStr (digest core))]))
      | _ \<Rightarrow> None)"

definition em_dash :: string where
  "em_dash = [CHR 0xE2, CHR 0x80, CHR 0x94]"

definition flag_status :: "lease_observation \<Rightarrow> string" where
  "flag_status ob = (if ob_kind ob = lease_kind_value BUDGET then FLAG_STATUS_BUDGET else FLAG_STATUS_CONCURRENCY)"

definition flag_consequence :: "lease_observation \<Rightarrow> string" where
  "flag_consequence ob =
     (if ob_kind ob = lease_kind_value BUDGET
      then ''work continued past its spend reservation '' @ em_dash @ '' its output is a quarantine candidate''
      else ''a worker outlived its execution slot '' @ em_dash @ '' the fleet ran wider than its cap'')"

definition flag_why :: "lease_observation \<Rightarrow> string" where
  "flag_why ob =
     ob_kind ob @ '' lease expired '' @ fmt_0f (ob_overdue ob) @ ''s ago ('' @ fmt_g (ob_amount ob) @ '' ''
     @ ob_unit ob @ '' on '' @ ob_scope ob @ ''): '' @ flag_consequence ob @ ''. Advisory only '' @ em_dash
     @ '' no action was taken.''"

definition or_else :: "string \<Rightarrow> string \<Rightarrow> string" where
  "or_else s d = (if s = [] then d else s)"

definition build_flag :: "(pydict \<Rightarrow> string) \<Rightarrow> lease_observation \<Rightarrow> time_error + pydict" where
  "build_flag digest ob =
     (case iso_z (fadd (ob_expires_at ob) (ob_overdue ob)) of
        Inl e \<Rightarrow> Inl e
      | Inr stamp \<Rightarrow>
          (case observation_to_dict ob of
             Inl e \<Rightarrow> Inl e
           | Inr d \<Rightarrow>
               (case normalize_flag digest (PDict
                  [(''at'', PStr stamp),
                   (''session_id'', PStr (or_else (ob_run_id ob) (''lease:'' @ ob_lease_id ob))),
                   (''title'', PStr (take 80 (''lease '' @ ob_lease_id ob @ '' ('' @ ob_scope ob @ '')''))),
                   (''model'', PStr (or_else (ob_model ob) ''?'')),
                   (''status'', PStr (flag_status ob)), (''why'', PStr (flag_why ob)),
                   (''lease'', PDict d)]) of
                  None \<Rightarrow> Inl TimeValueError
                | Some flag \<Rightarrow> Inr flag)))"

section \<open>The world of a pass\<close>

record ('w, 'r) dog_world =
  dw_registry :: 'w
  dw_quarantine :: "'r quarantine_state"
  dw_flags :: "pydict list"
  dw_flags_writable :: bool

text \<open>\<open>redis_client\<close> and \<open>flags_path\<close> of a pass, the client of the quarantine registry with its clock,
  and the clock reading of the pass itself.\<close>

record 'r dog_cfg =
  dc_flags_redis :: "'r quarantine_redis option"
  dc_flags_file :: bool
  dc_quarantine_redis :: "'r quarantine_redis option"
  dc_quarantine_clock :: "'r quarantine_state \<Rightarrow> pyfloat"
  dc_digest :: "pydict \<Rightarrow> string"
  dc_now :: pyfloat

definition hot_flag :: "'r quarantine_redis option \<Rightarrow> pydict \<Rightarrow> 'r \<Rightarrow> 'r" where
  "hot_flag cl flag r =
     (case cl of
        None \<Rightarrow> r
      | Some c \<Rightarrow>
          (case q_lpush c SUPERVISOR_FLAGS_KEY (Doc (PDict flag)) r of
             (False, r') \<Rightarrow> r'
           | (True, r') \<Rightarrow> snd (q_ltrim c SUPERVISOR_FLAGS_KEY 0 (SUPERVISOR_FLAGS_MAX - 1) r')))"

text \<open>\<open>emit_flag\<close>: \<open>False\<close> where the durable write raises OSError.\<close>

definition emit_flag :: "'r dog_cfg \<Rightarrow> pydict \<Rightarrow> ('w, 'r) dog_world \<Rightarrow> bool \<times> ('w, 'r) dog_world" where
  "emit_flag cfg flag W =
     (if dc_flags_file cfg \<and> \<not> dw_flags_writable W then (False, W)
      else (True, W\<lparr>dw_flags := (if dc_flags_file cfg then dw_flags W @ [flag] else dw_flags W),
             dw_quarantine := (dw_quarantine W)\<lparr>qs_redis := hot_flag (dc_flags_redis cfg) flag (qs_redis (dw_quarantine W))\<rparr>\<rparr>))"

section \<open>The pass\<close>

datatype dog_problem =
    SweepFailed lease_error
  | FlagFailed string
  | NoHandle string
  | MarkFailed quarantine_kind string quarantine_error

record watchdog_result =
  wr_observations :: "lease_observation list"
  wr_flags :: "pydict list"
  wr_quarantines :: "quarantine_record list"
  wr_unattributable :: "lease_observation list"
  wr_errors :: "dog_problem list"

definition empty_result :: watchdog_result where
  "empty_result = \<lparr>wr_observations = [], wr_flags = [], wr_quarantines = [], wr_unattributable = [], wr_errors = []\<rparr>"

definition steering_actions :: "watchdog_result \<Rightarrow> int" where
  "steering_actions res = 0"

text \<open>The exceptions that a pass does not catch.\<close>

datatype dog_escape = EscapedLease lease_error | EscapedTime time_error

definition mark_why :: "lease_observation \<Rightarrow> string \<Rightarrow> string" where
  "mark_why ob stamp =
     ''budget lease '' @ ob_lease_id ob @ '' on '' @ ob_scope ob @ '' expired '' @ fmt_0f (ob_overdue ob)
     @ ''s before this sweep while run '' @ repr_str (ob_run_id ob)
     @ '' was still live: output produced after '' @ stamp @ '' is unaccounted-for.''"

definition mark_request :: "lease_observation \<Rightarrow> string \<Rightarrow> quarantine_kind \<Rightarrow> string \<Rightarrow> quarantine_request" where
  "mark_request ob why k identity =
     \<lparr>qq_kind = k, qq_identity = identity, qq_reason = BUDGET_LEASE_EXPIRED, qq_why = why,
      qq_source = WATCHDOG_SOURCE, qq_run_id = ob_run_id ob, qq_lease_ids = [ob_lease_id ob],
      qq_cost_source = None,
      qq_metadata = [(''scope'', PStr (ob_scope ob)), (''model'', PStr (ob_model ob)),
        (''provider_class'', PStr (ob_provider_class ob)), (''reserved_amount'', PFloat (ob_amount ob)),
        (''unit'', PStr (ob_unit ob)), (''expires_at'', PFloat (ob_expires_at ob)),
        (''overdue_seconds'', PFloat (ob_overdue ob))]\<rparr>"

fun mark_targets :: "'r dog_cfg \<Rightarrow> lease_observation \<Rightarrow> string \<Rightarrow> (quarantine_kind \<times> string) list \<Rightarrow>
    'r quarantine_state \<Rightarrow> quarantine_record list \<times> dog_problem list \<times> 'r quarantine_state" where
  "mark_targets cfg ob why [] s = ([], [], s)"
| "mark_targets cfg ob why ((k, identity) # rest) s =
     (if identity = [] then mark_targets cfg ob why rest s
      else case quarantine (dc_quarantine_redis cfg) (mark_request ob why k identity) (dc_quarantine_clock cfg s) s of
          (Inl e, s1) \<Rightarrow>
            (case mark_targets cfg ob why rest s1 of (rs, ps, s2) \<Rightarrow> (rs, MarkFailed k identity e # ps, s2))
        | (Inr x, s1) \<Rightarrow>
            (case mark_targets cfg ob why rest s1 of (rs, ps, s2) \<Rightarrow>
               ((case x of None \<Rightarrow> rs | Some r \<Rightarrow> r # rs), ps, s2)))"

definition targets_of :: "lease_observation \<Rightarrow> (quarantine_kind \<times> string) list" where
  "targets_of ob = [(WORKTREE, ob_worktree ob), (RESULT_NAMESPACE, ob_namespace ob)]"

text \<open>\<open>_quarantine_observation\<close>: the text of the mark is rendered before the guarded loop.\<close>

definition quarantine_observation :: "'r dog_cfg \<Rightarrow> lease_observation \<Rightarrow> 'r quarantine_state \<Rightarrow>
    time_error + (quarantine_record list \<times> dog_problem list \<times> 'r quarantine_state)" where
  "quarantine_observation cfg ob s =
     (case iso_z (ob_expires_at ob) of
        Inl e \<Rightarrow> Inl e
      | Inr stamp \<Rightarrow> Inr (mark_targets cfg ob (mark_why ob stamp) (targets_of ob) s))"

definition note_problems :: "dog_problem list \<Rightarrow> watchdog_result \<Rightarrow> watchdog_result" where
  "note_problems ps res = res\<lparr>wr_errors := wr_errors res @ ps\<rparr>"

text \<open>The flag of one lease.\<close>

definition flag_lease :: "'r dog_cfg \<Rightarrow> lease \<Rightarrow> lease_observation \<Rightarrow> watchdog_result \<Rightarrow> ('w, 'r) dog_world \<Rightarrow>
    (dog_escape + watchdog_result) \<times> ('w, 'r) dog_world" where
  "flag_lease cfg l ob res W =
     (case build_flag (dc_digest cfg) ob of
        Inl TimeOverflowError \<Rightarrow> (Inl (EscapedTime TimeOverflowError), W)
      | Inl TimeValueError \<Rightarrow> (Inr (note_problems [FlagFailed (lease_id l)] res), W)
      | Inr flag \<Rightarrow>
          (case emit_flag cfg flag W of
             (False, W') \<Rightarrow> (Inr (note_problems [FlagFailed (lease_id l)] res), W')
           | (True, W') \<Rightarrow> (Inr (res\<lparr>wr_flags := wr_flags res @ [flag]\<rparr>), W')))"

text \<open>The quarantine of one lease, for budget leases only.\<close>

definition contain_lease :: "'r dog_cfg \<Rightarrow> lease \<Rightarrow> lease_observation \<Rightarrow> watchdog_result \<Rightarrow> ('w, 'r) dog_world \<Rightarrow>
    (dog_escape + watchdog_result) \<times> ('w, 'r) dog_world" where
  "contain_lease cfg l ob res W =
     (if lease_kind l \<noteq> BUDGET then (Inr res, W)
      else if \<not> attributable ob then
        (Inr (note_problems [NoHandle (lease_id l)] (res\<lparr>wr_unattributable := wr_unattributable res @ [ob]\<rparr>)), W)
      else case quarantine_observation cfg ob (dw_quarantine W) of
          Inl e \<Rightarrow> (Inl (EscapedTime e), W)
        | Inr (rs, ps, s) \<Rightarrow>
            (Inr (note_problems ps (res\<lparr>wr_quarantines := wr_quarantines res @ rs\<rparr>)), W\<lparr>dw_quarantine := s\<rparr>))"

fun watch_leases :: "'r dog_cfg \<Rightarrow> lease list \<Rightarrow> watchdog_result \<Rightarrow> ('w, 'r) dog_world \<Rightarrow>
    (dog_escape + watchdog_result) \<times> ('w, 'r) dog_world" where
  "watch_leases cfg [] res W = (Inr res, W)"
| "watch_leases cfg (l # ls) res W =
     (let ob = observe l (dc_now cfg) in
      case flag_lease cfg l ob (res\<lparr>wr_observations := wr_observations res @ [ob]\<rparr>) W of
        (Inl e, W1) \<Rightarrow> (Inl e, W1)
      | (Inr res1, W1) \<Rightarrow>
          (case contain_lease cfg l ob res1 W1 of
             (Inl e, W2) \<Rightarrow> (Inl e, W2)
           | (Inr res2, W2) \<Rightarrow> watch_leases cfg ls res2 W2))"

definition sweep_once :: "'w client \<Rightarrow> reg_cfg \<Rightarrow> 'r dog_cfg \<Rightarrow> ('w, 'r) dog_world \<Rightarrow>
    (dog_escape + watchdog_result) \<times> ('w, 'r) dog_world" where
  "sweep_once C rcfg cfg W =
     (case expire_leases C rcfg None (dw_registry W) of
        (Inl e, w) \<Rightarrow>
          (if is_admission_error e then Inr (note_problems [SweepFailed e] empty_result) else Inl (EscapedLease e),
           W\<lparr>dw_registry := w\<rparr>)
      | (Inr expired, w) \<Rightarrow> watch_leases cfg expired empty_result (W\<lparr>dw_registry := w\<rparr>))"

end
