(* ===== verification/Fact_Schema.thy ===== *)
theory Fact_Schema
  imports Agd_Prelude
begin

text \<open>
  The fact schema of the control plane (control/facts.py, with the \<open>Authority\<close> ranking of
  knowledge/knowledge.py and the reducer declarations of control/reducers/): what a canonical fact
  is, the registry \<open>FACT_PREDICATES\<close> of declared predicates, the registry \<open>REDUCERS\<close> of declared
  reducers, the epistemic mapping, the check of a fact's derivation chain and its state at read
  time. SHA-256 is a parameter, written \<open>sha\<close>: the digest of a text as hexadecimal text.
\<close>

section \<open>Authority and epistemic status\<close>

datatype authority = ADVISORY | DERIVED | MEASURED | SOURCE | POLICY

fun authority_rank :: "authority \<Rightarrow> nat" where
  "authority_rank ADVISORY = 1"
| "authority_rank DERIVED = 2"
| "authority_rank MEASURED = 3"
| "authority_rank SOURCE = 4"
| "authority_rank POLICY = 5"

instantiation authority :: linorder
begin

definition less_eq_authority :: "authority \<Rightarrow> authority \<Rightarrow> bool" where
  "less_eq_authority a b \<longleftrightarrow> authority_rank a \<le> authority_rank b"

definition less_authority :: "authority \<Rightarrow> authority \<Rightarrow> bool" where
  "less_authority a b \<longleftrightarrow> authority_rank a < authority_rank b"

instance
proof
  fix x y z :: authority
  show "x < y \<longleftrightarrow> x \<le> y \<and> \<not> y \<le> x" by (auto simp: less_eq_authority_def less_authority_def)
  show "x \<le> x" by (simp add: less_eq_authority_def)
  show "x \<le> y \<Longrightarrow> y \<le> z \<Longrightarrow> x \<le> z" by (simp add: less_eq_authority_def)
  show "x \<le> y \<Longrightarrow> y \<le> x \<Longrightarrow> x = y" by (cases x; cases y) (simp_all add: less_eq_authority_def)
  show "x \<le> y \<or> y \<le> x" by (auto simp: less_eq_authority_def)
qed

end

lemmas authority_order = less_eq_authority_def less_authority_def

fun authority_name :: "authority \<Rightarrow> string" where
  "authority_name ADVISORY = ''ADVISORY''"
| "authority_name DERIVED = ''DERIVED''"
| "authority_name MEASURED = ''MEASURED''"
| "authority_name SOURCE = ''SOURCE''"
| "authority_name POLICY = ''POLICY''"

text \<open>\<open>Authority[name]\<close>, \<open>None\<close> for the KeyError.\<close>

definition authority_of_name :: "string \<Rightarrow> authority option" where
  "authority_of_name s = List.find (\<lambda>a. authority_name a = s) [ADVISORY, DERIVED, MEASURED, SOURCE, POLICY]"

lemma authority_of_name_name [simp]: "authority_of_name (authority_name a) = Some a"
  by (cases a) (simp_all add: authority_of_name_def)

definition EPISTEMIC_MAP :: "(string \<times> authority \<times> string) list" where
  "EPISTEMIC_MAP =
    [(''observed'', MEASURED, ''[M]''),
     (''verified'', MEASURED, ''[M]''),
     (''derived'', DERIVED, ''[C]''),
     (''declared'', POLICY, ''[P]''),
     (''advisory'', ADVISORY, ''[H]'')]"

lemma epistemic_authority:
  "map_of EPISTEMIC_MAP s = Some (a, c) \<Longrightarrow> (a = ADVISORY \<longleftrightarrow> s = ''advisory'')"
  by (auto simp: EPISTEMIC_MAP_def split: if_splits)

section \<open>Facts\<close>

record canonical_fact =
  cf_entity_id :: string
  cf_fact_id :: string
  cf_subject_type :: string
  cf_subject_id :: string
  cf_predicate :: string
  cf_value :: string
  cf_value_type :: string
  cf_unit :: string
  cf_scope_type :: string
  cf_scope_id :: string
  cf_scope_path :: string
  cf_level :: string
  cf_epistemic_status :: string
  cf_authority :: authority
  cf_evidence_class :: string
  cf_observed_at :: string
  cf_valid_from :: string
  cf_valid_to :: "string option"
  cf_expires_at :: "string option"
  cf_reducer :: string
  cf_reducer_version :: string
  cf_evidence_ids :: "string list"
  cf_inputs_digest :: string
  cf_supersedes :: "string option"
  cf_source_revision :: string
  cf_repository_id :: string
  cf_lifecycle :: string

definition is_canonical :: "canonical_fact \<Rightarrow> bool" where
  "is_canonical f \<longleftrightarrow>
     cf_epistemic_status f \<noteq> ''advisory'' \<and> DERIVED \<le> cf_authority f \<and> cf_lifecycle f = ''current''"

definition fact_source_uri :: "string \<Rightarrow> string \<Rightarrow> string \<Rightarrow> string" where
  "fact_source_uri st sid p = ''fact://'' @ st @ ''/'' @ sid @ ''/'' @ p"

definition fact_logical_locator :: "string \<Rightarrow> string \<Rightarrow> string \<Rightarrow> string" where
  "fact_logical_locator st sid p = st @ '':'' @ sid @ ''#'' @ p"

text \<open>The stable slot of a fact: \<open>knowledge.compute_entity_id\<close> of the two.\<close>

definition compute_fact_entity_id ::
  "(string \<Rightarrow> string) \<Rightarrow> string \<Rightarrow> string \<Rightarrow> string \<Rightarrow> string \<Rightarrow> string \<Rightarrow> string \<Rightarrow> string" where
  "compute_fact_entity_id sha repo scope_t scope_i pred subj_t subj_i =
     sha (join_with (CHR ''|'')
       [repo, fact_source_uri scope_t scope_i pred, fact_logical_locator subj_t subj_i pred])"

section \<open>The registry of predicates\<close>

record predicate_spec =
  ps_name :: string
  ps_value_type :: string
  ps_unit :: string
  ps_subject_type :: string
  ps_scope_type :: string
  ps_level :: string
  ps_produced_by :: "string list"
  ps_default_ttl :: "int option"
  ps_volatile :: bool
  ps_inheritable :: bool
  ps_aggregates_from :: string

definition SPEC_PREDICATES :: "predicate_spec list" where
  "SPEC_PREDICATES =
    [\<lparr>ps_name = ''spec_status'', ps_value_type = ''enum'', ps_unit = '''', ps_subject_type = ''spec'',
      ps_scope_type = ''workload'', ps_level = ''fact'', ps_produced_by = [''spec_status/v1''],
      ps_default_ttl = None, ps_volatile = False, ps_inheritable = True, ps_aggregates_from = ''''\<rparr>,
     \<lparr>ps_name = ''spec_superseded_by'', ps_value_type = ''str'', ps_unit = '''', ps_subject_type = ''spec'',
      ps_scope_type = ''workload'', ps_level = ''fact'', ps_produced_by = [''spec_status/v1''],
      ps_default_ttl = None, ps_volatile = False, ps_inheritable = True, ps_aggregates_from = ''''\<rparr>,
     \<lparr>ps_name = ''spec_supersedes'', ps_value_type = ''enum-list'', ps_unit = '''', ps_subject_type = ''spec'',
      ps_scope_type = ''workload'', ps_level = ''fact'', ps_produced_by = [''spec_status/v1''],
      ps_default_ttl = None, ps_volatile = False, ps_inheritable = True, ps_aggregates_from = ''''\<rparr>,
     \<lparr>ps_name = ''spec_last_run_at'', ps_value_type = ''timestamp'', ps_unit = '''', ps_subject_type = ''spec'',
      ps_scope_type = ''workload'', ps_level = ''fact'', ps_produced_by = [''spec_status/v1''],
      ps_default_ttl = None, ps_volatile = False, ps_inheritable = True, ps_aggregates_from = ''''\<rparr>,
     \<lparr>ps_name = ''spec_latest_ok'', ps_value_type = ''bool'', ps_unit = '''', ps_subject_type = ''spec'',
      ps_scope_type = ''workload'', ps_level = ''fact'', ps_produced_by = [''spec_status/v1''],
      ps_default_ttl = None, ps_volatile = False, ps_inheritable = True, ps_aggregates_from = ''''\<rparr>,
     \<lparr>ps_name = ''spec_latest_model'', ps_value_type = ''str'', ps_unit = '''', ps_subject_type = ''spec'',
      ps_scope_type = ''workload'', ps_level = ''fact'', ps_produced_by = [''spec_status/v1''],
      ps_default_ttl = None, ps_volatile = False, ps_inheritable = True, ps_aggregates_from = ''''\<rparr>,
     \<lparr>ps_name = ''spec_latest_cost_usd'', ps_value_type = ''usd'', ps_unit = ''usd'', ps_subject_type = ''spec'',
      ps_scope_type = ''workload'', ps_level = ''fact'', ps_produced_by = [''spec_status/v1''],
      ps_default_ttl = None, ps_volatile = False, ps_inheritable = True, ps_aggregates_from = ''''\<rparr>,
     \<lparr>ps_name = ''spec_n_runs'', ps_value_type = ''int'', ps_unit = '''', ps_subject_type = ''spec'',
      ps_scope_type = ''workload'', ps_level = ''fact'', ps_produced_by = [''spec_status/v1''],
      ps_default_ttl = None, ps_volatile = False, ps_inheritable = True, ps_aggregates_from = ''''\<rparr>]"

definition CURRENT_COMMIT_PREDICATE :: "predicate_spec list" where
  "CURRENT_COMMIT_PREDICATE =
    [\<lparr>ps_name = ''current_commit'', ps_value_type = ''str'', ps_unit = '''', ps_subject_type = ''job'',
      ps_scope_type = ''job'', ps_level = ''job'', ps_produced_by = [''job_facts/v1''],
      ps_default_ttl = None, ps_volatile = False, ps_inheritable = False, ps_aggregates_from = ''''\<rparr>]"

definition ATTEMPT_PREDICATES :: "predicate_spec list" where
  "ATTEMPT_PREDICATES =
    [\<lparr>ps_name = ''phase_status'', ps_value_type = ''enum'', ps_unit = '''', ps_subject_type = ''attempt'',
      ps_scope_type = ''attempt'', ps_level = ''fact'', ps_produced_by = [''attempt_facts/v1'', ''story_facts/v1''],
      ps_default_ttl = None, ps_volatile = False, ps_inheritable = False, ps_aggregates_from = ''''\<rparr>,
     \<lparr>ps_name = ''phase_test_verified'', ps_value_type = ''bool'', ps_unit = '''', ps_subject_type = ''attempt'',
      ps_scope_type = ''attempt'', ps_level = ''fact'', ps_produced_by = [''attempt_facts/v1'', ''story_facts/v1''],
      ps_default_ttl = None, ps_volatile = False, ps_inheritable = False, ps_aggregates_from = ''''\<rparr>,
     \<lparr>ps_name = ''attempt_cost_usd'', ps_value_type = ''usd'', ps_unit = ''usd'', ps_subject_type = ''attempt'',
      ps_scope_type = ''attempt'', ps_level = ''fact'', ps_produced_by = [''attempt_facts/v1'', ''story_facts/v1''],
      ps_default_ttl = None, ps_volatile = False, ps_inheritable = False, ps_aggregates_from = ''''\<rparr>,
     \<lparr>ps_name = ''attempt_tokens_out'', ps_value_type = ''tokens'', ps_unit = ''tokens'', ps_subject_type = ''attempt'',
      ps_scope_type = ''attempt'', ps_level = ''fact'', ps_produced_by = [''attempt_facts/v1'', ''story_facts/v1''],
      ps_default_ttl = None, ps_volatile = False, ps_inheritable = False, ps_aggregates_from = ''''\<rparr>,
     \<lparr>ps_name = ''attempt_tokens_in'', ps_value_type = ''tokens'', ps_unit = ''tokens'', ps_subject_type = ''attempt'',
      ps_scope_type = ''attempt'', ps_level = ''fact'', ps_produced_by = [''attempt_facts/v1'', ''story_facts/v1''],
      ps_default_ttl = None, ps_volatile = False, ps_inheritable = False, ps_aggregates_from = ''''\<rparr>,
     \<lparr>ps_name = ''attempt_model'', ps_value_type = ''str'', ps_unit = '''', ps_subject_type = ''attempt'',
      ps_scope_type = ''attempt'', ps_level = ''fact'', ps_produced_by = [''attempt_facts/v1'', ''story_facts/v1''],
      ps_default_ttl = None, ps_volatile = False, ps_inheritable = False, ps_aggregates_from = ''''\<rparr>,
     \<lparr>ps_name = ''phase_commit'', ps_value_type = ''str'', ps_unit = '''', ps_subject_type = ''attempt'',
      ps_scope_type = ''attempt'', ps_level = ''fact'', ps_produced_by = [''attempt_facts/v1'', ''story_facts/v1''],
      ps_default_ttl = None, ps_volatile = False, ps_inheritable = False, ps_aggregates_from = ''''\<rparr>,
     \<lparr>ps_name = ''attempt_cache_hit_rate'', ps_value_type = ''float'', ps_unit = '''', ps_subject_type = ''attempt'',
      ps_scope_type = ''attempt'', ps_level = ''fact'', ps_produced_by = [''attempt_facts/v1''],
      ps_default_ttl = None, ps_volatile = False, ps_inheritable = False, ps_aggregates_from = ''''\<rparr>,
     \<lparr>ps_name = ''attempt_confidence'', ps_value_type = ''float'', ps_unit = '''', ps_subject_type = ''attempt'',
      ps_scope_type = ''attempt'', ps_level = ''fact'', ps_produced_by = [''attempt_facts/v1'', ''story_facts/v1''],
      ps_default_ttl = None, ps_volatile = False, ps_inheritable = False, ps_aggregates_from = ''''\<rparr>]"

definition JOB_PREDICATES :: "predicate_spec list" where
  "JOB_PREDICATES =
    [\<lparr>ps_name = ''job_accumulated_cost_usd'', ps_value_type = ''usd'', ps_unit = ''usd'', ps_subject_type = ''job'',
      ps_scope_type = ''job'', ps_level = ''job'', ps_produced_by = [''job_facts/v1''],
      ps_default_ttl = None, ps_volatile = False, ps_inheritable = False, ps_aggregates_from = ''''\<rparr>,
     \<lparr>ps_name = ''job_status'', ps_value_type = ''enum'', ps_unit = '''', ps_subject_type = ''job'',
      ps_scope_type = ''job'', ps_level = ''job'', ps_produced_by = [''job_facts/v1''],
      ps_default_ttl = None, ps_volatile = False, ps_inheritable = False, ps_aggregates_from = ''''\<rparr>,
     \<lparr>ps_name = ''job_n_phases'', ps_value_type = ''int'', ps_unit = '''', ps_subject_type = ''job'',
      ps_scope_type = ''job'', ps_level = ''job'', ps_produced_by = [''job_facts/v1''],
      ps_default_ttl = None, ps_volatile = False, ps_inheritable = False, ps_aggregates_from = ''''\<rparr>]"

definition WORKFLOW_PREDICATES :: "predicate_spec list" where
  "WORKFLOW_PREDICATES =
    [\<lparr>ps_name = ''workflow_phases_completed'', ps_value_type = ''int'', ps_unit = '''', ps_subject_type = ''workflow'',
      ps_scope_type = ''workflow'', ps_level = ''workflow'', ps_produced_by = [''workflow_facts/v1''],
      ps_default_ttl = None, ps_volatile = False, ps_inheritable = False, ps_aggregates_from = ''phase_status''\<rparr>,
     \<lparr>ps_name = ''workflow_phases_remaining'', ps_value_type = ''int'', ps_unit = '''', ps_subject_type = ''workflow'',
      ps_scope_type = ''workflow'', ps_level = ''workflow'', ps_produced_by = [''workflow_facts/v1''],
      ps_default_ttl = None, ps_volatile = False, ps_inheritable = False, ps_aggregates_from = ''phase_status''\<rparr>,
     \<lparr>ps_name = ''workflow_status'', ps_value_type = ''enum'', ps_unit = '''', ps_subject_type = ''workflow'',
      ps_scope_type = ''workflow'', ps_level = ''workflow'', ps_produced_by = [''workflow_facts/v1''],
      ps_default_ttl = None, ps_volatile = False, ps_inheritable = False, ps_aggregates_from = ''job_status''\<rparr>,
     \<lparr>ps_name = ''workflow_health'', ps_value_type = ''enum'', ps_unit = '''', ps_subject_type = ''workflow'',
      ps_scope_type = ''workflow'', ps_level = ''workflow'', ps_produced_by = [''workflow_facts/v1''],
      ps_default_ttl = None, ps_volatile = False, ps_inheritable = False, ps_aggregates_from = ''job_status''\<rparr>,
     \<lparr>ps_name = ''projected_budget_overrun'', ps_value_type = ''usd'', ps_unit = ''usd'', ps_subject_type = ''workflow'',
      ps_scope_type = ''workflow'', ps_level = ''workflow'', ps_produced_by = [''workflow_facts/v1''],
      ps_default_ttl = None, ps_volatile = False, ps_inheritable = False, ps_aggregates_from = ''job_accumulated_cost_usd''\<rparr>]"

definition POLICY_PREDICATES :: "predicate_spec list" where
  "POLICY_PREDICATES =
    [\<lparr>ps_name = ''allowed_models'', ps_value_type = ''enum-list'', ps_unit = '''', ps_subject_type = ''policy'',
      ps_scope_type = ''workload'', ps_level = ''policy'', ps_produced_by = [''policy_facts/v1''],
      ps_default_ttl = None, ps_volatile = False, ps_inheritable = True, ps_aggregates_from = ''''\<rparr>,
     \<lparr>ps_name = ''max_spend_usd'', ps_value_type = ''usd'', ps_unit = ''usd'', ps_subject_type = ''policy'',
      ps_scope_type = ''workload'', ps_level = ''policy'', ps_produced_by = [''policy_facts/v1''],
      ps_default_ttl = None, ps_volatile = False, ps_inheritable = True, ps_aggregates_from = ''''\<rparr>,
     \<lparr>ps_name = ''max_attempts'', ps_value_type = ''int'', ps_unit = '''', ps_subject_type = ''policy'',
      ps_scope_type = ''workload'', ps_level = ''policy'', ps_produced_by = [''policy_facts/v1''],
      ps_default_ttl = None, ps_volatile = False, ps_inheritable = True, ps_aggregates_from = ''''\<rparr>]"

definition PROFILE_PREDICATES :: "predicate_spec list" where
  "PROFILE_PREDICATES =
    [\<lparr>ps_name = ''domain_profile_version'', ps_value_type = ''str'', ps_unit = '''', ps_subject_type = ''policy'',
      ps_scope_type = ''workload'', ps_level = ''policy'', ps_produced_by = [''profiles/v1''],
      ps_default_ttl = None, ps_volatile = False, ps_inheritable = True, ps_aggregates_from = ''''\<rparr>,
     \<lparr>ps_name = ''challenge_profile_version'', ps_value_type = ''str'', ps_unit = '''', ps_subject_type = ''policy'',
      ps_scope_type = ''workload'', ps_level = ''policy'', ps_produced_by = [''profiles/v1''],
      ps_default_ttl = None, ps_volatile = False, ps_inheritable = True, ps_aggregates_from = ''''\<rparr>]"

definition PATTERN_PREDICATE :: "predicate_spec list" where
  "PATTERN_PREDICATE =
    [\<lparr>ps_name = ''pattern'', ps_value_type = ''str'', ps_unit = '''', ps_subject_type = ''workload'',
      ps_scope_type = ''workload'', ps_level = ''workload'', ps_produced_by = [''pattern/v1''],
      ps_default_ttl = None, ps_volatile = False, ps_inheritable = True, ps_aggregates_from = ''''\<rparr>]"

definition CHECKPOINT_PREDICATES :: "predicate_spec list" where
  "CHECKPOINT_PREDICATES =
    [\<lparr>ps_name = ''session_checkpoint'', ps_value_type = ''str'', ps_unit = '''', ps_subject_type = ''job'',
      ps_scope_type = ''job'', ps_level = ''job'', ps_produced_by = [''checkpoint/v1''],
      ps_default_ttl = None, ps_volatile = False, ps_inheritable = False, ps_aggregates_from = ''''\<rparr>,
     \<lparr>ps_name = ''checkpoint_present'', ps_value_type = ''bool'', ps_unit = '''', ps_subject_type = ''job'',
      ps_scope_type = ''job'', ps_level = ''job'', ps_produced_by = [''checkpoint/v1''],
      ps_default_ttl = None, ps_volatile = False, ps_inheritable = False, ps_aggregates_from = ''''\<rparr>,
     \<lparr>ps_name = ''checkpoint_goal_unchanged'', ps_value_type = ''bool'', ps_unit = '''', ps_subject_type = ''job'',
      ps_scope_type = ''job'', ps_level = ''job'', ps_produced_by = [''checkpoint/v1''],
      ps_default_ttl = None, ps_volatile = False, ps_inheritable = False, ps_aggregates_from = ''''\<rparr>,
     \<lparr>ps_name = ''checkpoint_phase_unchanged'', ps_value_type = ''bool'', ps_unit = '''', ps_subject_type = ''job'',
      ps_scope_type = ''job'', ps_level = ''job'', ps_produced_by = [''checkpoint/v1''],
      ps_default_ttl = None, ps_volatile = False, ps_inheritable = False, ps_aggregates_from = ''''\<rparr>,
     \<lparr>ps_name = ''checkpoint_model_unchanged'', ps_value_type = ''bool'', ps_unit = '''', ps_subject_type = ''job'',
      ps_scope_type = ''job'', ps_level = ''job'', ps_produced_by = [''checkpoint/v1''],
      ps_default_ttl = None, ps_volatile = False, ps_inheritable = False, ps_aggregates_from = ''''\<rparr>,
     \<lparr>ps_name = ''model_change_required'', ps_value_type = ''bool'', ps_unit = '''', ps_subject_type = ''job'',
      ps_scope_type = ''job'', ps_level = ''job'', ps_produced_by = [''checkpoint/v1''],
      ps_default_ttl = None, ps_volatile = False, ps_inheritable = False, ps_aggregates_from = ''''\<rparr>,
     \<lparr>ps_name = ''checkpoint_snapshot_identity'', ps_value_type = ''bool'', ps_unit = '''', ps_subject_type = ''job'',
      ps_scope_type = ''job'', ps_level = ''job'', ps_produced_by = [''checkpoint/v1''],
      ps_default_ttl = None, ps_volatile = False, ps_inheritable = False, ps_aggregates_from = ''''\<rparr>]"

definition CODE_CHANGE_PREDICATE_ROWS :: "predicate_spec list" where
  "CODE_CHANGE_PREDICATE_ROWS =
    [\<lparr>ps_name = ''analysis_revision_matches'', ps_value_type = ''bool'', ps_unit = '''', ps_subject_type = ''job'',
      ps_scope_type = ''job'', ps_level = ''fact'', ps_produced_by = [''code_change_facts/v2''],
      ps_default_ttl = None, ps_volatile = False, ps_inheritable = False, ps_aggregates_from = ''''\<rparr>,
     \<lparr>ps_name = ''ast_parse_coverage'', ps_value_type = ''float'', ps_unit = '''', ps_subject_type = ''job'',
      ps_scope_type = ''job'', ps_level = ''fact'', ps_produced_by = [''code_change_facts/v2''],
      ps_default_ttl = None, ps_volatile = False, ps_inheritable = False, ps_aggregates_from = ''''\<rparr>,
     \<lparr>ps_name = ''lsp_analysis_status'', ps_value_type = ''enum'', ps_unit = '''', ps_subject_type = ''job'',
      ps_scope_type = ''job'', ps_level = ''fact'', ps_produced_by = [''code_change_facts/v2''],
      ps_default_ttl = None, ps_volatile = False, ps_inheritable = False, ps_aggregates_from = ''''\<rparr>,
     \<lparr>ps_name = ''sonar_analysis_status'', ps_value_type = ''enum'', ps_unit = '''', ps_subject_type = ''job'',
      ps_scope_type = ''job'', ps_level = ''fact'', ps_produced_by = [''code_change_facts/v2''],
      ps_default_ttl = None, ps_volatile = False, ps_inheritable = False, ps_aggregates_from = ''''\<rparr>,
     \<lparr>ps_name = ''changed_symbol_count'', ps_value_type = ''int'', ps_unit = '''', ps_subject_type = ''job'',
      ps_scope_type = ''job'', ps_level = ''fact'', ps_produced_by = [''code_change_facts/v2''],
      ps_default_ttl = None, ps_volatile = False, ps_inheritable = False, ps_aggregates_from = ''''\<rparr>,
     \<lparr>ps_name = ''impacted_symbol_count'', ps_value_type = ''int'', ps_unit = '''', ps_subject_type = ''job'',
      ps_scope_type = ''job'', ps_level = ''fact'', ps_produced_by = [''code_change_facts/v2''],
      ps_default_ttl = None, ps_volatile = False, ps_inheritable = False, ps_aggregates_from = ''''\<rparr>,
     \<lparr>ps_name = ''new_lsp_error_count'', ps_value_type = ''int'', ps_unit = '''', ps_subject_type = ''job'',
      ps_scope_type = ''job'', ps_level = ''fact'', ps_produced_by = [''code_change_facts/v2''],
      ps_default_ttl = None, ps_volatile = False, ps_inheritable = False, ps_aggregates_from = ''''\<rparr>,
     \<lparr>ps_name = ''new_sonar_critical_count'', ps_value_type = ''int'', ps_unit = '''', ps_subject_type = ''job'',
      ps_scope_type = ''job'', ps_level = ''fact'', ps_produced_by = [''code_change_facts/v2''],
      ps_default_ttl = None, ps_volatile = False, ps_inheritable = False, ps_aggregates_from = ''''\<rparr>,
     \<lparr>ps_name = ''changed_symbols_with_tests_ratio'', ps_value_type = ''float'', ps_unit = '''', ps_subject_type = ''job'',
      ps_scope_type = ''job'', ps_level = ''fact'', ps_produced_by = [''code_change_facts/v2''],
      ps_default_ttl = None, ps_volatile = False, ps_inheritable = False, ps_aggregates_from = ''''\<rparr>,
     \<lparr>ps_name = ''code_change_risk'', ps_value_type = ''float'', ps_unit = '''', ps_subject_type = ''job'',
      ps_scope_type = ''job'', ps_level = ''fact'', ps_produced_by = [''code_change_facts/v2''],
      ps_default_ttl = None, ps_volatile = False, ps_inheritable = False, ps_aggregates_from = ''''\<rparr>]"


text \<open>\<open>FACT_PREDICATES\<close>: every row stands under its own name.\<close>

definition FACT_PREDICATES :: "predicate_spec list" where
  "FACT_PREDICATES = SPEC_PREDICATES @ CURRENT_COMMIT_PREDICATE @ ATTEMPT_PREDICATES @ JOB_PREDICATES
     @ WORKFLOW_PREDICATES @ POLICY_PREDICATES @ PROFILE_PREDICATES @ PATTERN_PREDICATE
     @ CHECKPOINT_PREDICATES @ CODE_CHANGE_PREDICATE_ROWS"

definition predicate_of :: "string \<Rightarrow> predicate_spec option" where
  "predicate_of p = List.find (\<lambda>s. ps_name s = p) FACT_PREDICATES"

section \<open>The registry of reducers\<close>

record reducer_spec =
  rs_name :: string
  rs_version :: string
  rs_level :: string
  rs_scope_type :: string
  rs_consumes :: "string list"
  rs_produces :: "string list"
  rs_determinism :: string

definition SPEC_STATUS_V1 :: reducer_spec where
  "SPEC_STATUS_V1 = \<lparr>rs_name = ''spec_status'', rs_version = ''spec_status/v1'', rs_level = ''fact'', rs_scope_type = ''workload'',
     rs_consumes = [''spec''],
     rs_produces = [''spec_status'',
       ''spec_superseded_by'',
       ''spec_supersedes'',
       ''spec_last_run_at'',
       ''spec_latest_ok'',
       ''spec_latest_model'',
       ''spec_latest_cost_usd'',
       ''spec_n_runs''],
     rs_determinism = ''pure''\<rparr>"

definition ATTEMPT_FACTS_V1 :: reducer_spec where
  "ATTEMPT_FACTS_V1 = \<lparr>rs_name = ''attempt_facts'', rs_version = ''attempt_facts/v1'', rs_level = ''fact'', rs_scope_type = ''attempt'',
     rs_consumes = [''workflow_run''],
     rs_produces = [''phase_status'',
       ''attempt_model'',
       ''attempt_tokens_in'',
       ''attempt_tokens_out'',
       ''attempt_cost_usd'',
       ''attempt_cache_hit_rate'',
       ''phase_test_verified'',
       ''attempt_confidence'',
       ''phase_commit''],
     rs_determinism = ''pure''\<rparr>"

definition JOB_FACTS_V1 :: reducer_spec where
  "JOB_FACTS_V1 = \<lparr>rs_name = ''job_facts'', rs_version = ''job_facts/v1'', rs_level = ''job'', rs_scope_type = ''job'',
     rs_consumes = [''workflow_run''],
     rs_produces = [''current_commit'',
       ''job_accumulated_cost_usd'',
       ''job_status'',
       ''job_n_phases''],
     rs_determinism = ''pure''\<rparr>"

definition WORKFLOW_FACTS_V1 :: reducer_spec where
  "WORKFLOW_FACTS_V1 = \<lparr>rs_name = ''workflow_facts'', rs_version = ''workflow_facts/v1'', rs_level = ''workflow'', rs_scope_type = ''workflow'',
     rs_consumes = [''phase_status'', ''job_status'', ''job_n_phases'', ''job_accumulated_cost_usd'', ''current_commit'', ''max_spend_usd'', ''spec_status''],
     rs_produces = [''workflow_phases_completed'',
       ''workflow_phases_remaining'',
       ''workflow_status'',
       ''workflow_health'',
       ''projected_budget_overrun''],
     rs_determinism = ''pure''\<rparr>"

definition POLICY_FACTS_V1 :: reducer_spec where
  "POLICY_FACTS_V1 = \<lparr>rs_name = ''policy_facts'', rs_version = ''policy_facts/v1'', rs_level = ''policy'', rs_scope_type = ''workload'',
     rs_consumes = [''spec''],
     rs_produces = [''allowed_models'',
       ''max_spend_usd'',
       ''max_attempts''],
     rs_determinism = ''pure''\<rparr>"

definition STORY_FACTS_V1 :: reducer_spec where
  "STORY_FACTS_V1 = \<lparr>rs_name = ''story_facts'', rs_version = ''story_facts/v1'', rs_level = ''fact'', rs_scope_type = ''attempt'',
     rs_consumes = [''story''],
     rs_produces = [''phase_status'',
       ''phase_commit'',
       ''attempt_model'',
       ''attempt_tokens_in'',
       ''attempt_tokens_out'',
       ''attempt_cost_usd'',
       ''attempt_confidence'',
       ''phase_test_verified''],
     rs_determinism = ''pure''\<rparr>"

definition PATTERN_V1 :: reducer_spec where
  "PATTERN_V1 = \<lparr>rs_name = ''pattern'', rs_version = ''pattern/v1'', rs_level = ''workload'', rs_scope_type = ''workload'',
     rs_consumes = [''finding'', ''review'', ''analysis''],
     rs_produces = [''pattern''],
     rs_determinism = ''pure_with_injected_clock''\<rparr>"

definition CHECKPOINT_V1 :: reducer_spec where
  "CHECKPOINT_V1 = \<lparr>rs_name = ''checkpoint'', rs_version = ''checkpoint/v1'', rs_level = ''job'', rs_scope_type = ''job'',
     rs_consumes = [''workflow_run'', ''session_current''],
     rs_produces = [''session_checkpoint'',
       ''checkpoint_present'',
       ''checkpoint_goal_unchanged'',
       ''checkpoint_phase_unchanged'',
       ''checkpoint_model_unchanged'',
       ''model_change_required'',
       ''checkpoint_snapshot_identity''],
     rs_determinism = ''pure''\<rparr>"

definition CODE_CHANGE_FACTS_V2 :: reducer_spec where
  "CODE_CHANGE_FACTS_V2 = \<lparr>rs_name = ''code_change_facts'', rs_version = ''code_change_facts/v2'', rs_level = ''fact'', rs_scope_type = ''job'',
     rs_consumes = [''code_delta'', ''sonar_analysis'', ''lsp_analysis'', ''impacted_symbols''],
     rs_produces = [''analysis_revision_matches'',
       ''ast_parse_coverage'',
       ''lsp_analysis_status'',
       ''sonar_analysis_status'',
       ''changed_symbol_count'',
       ''impacted_symbol_count'',
       ''new_lsp_error_count'',
       ''new_sonar_critical_count'',
       ''changed_symbols_with_tests_ratio'',
       ''code_change_risk''],
     rs_determinism = ''pure''\<rparr>"

definition PROFILES_V1 :: reducer_spec where
  "PROFILES_V1 = \<lparr>rs_name = ''profiles'', rs_version = ''profiles/v1'', rs_level = ''policy'', rs_scope_type = ''workload'',
     rs_consumes = [''profile''],
     rs_produces = [''domain_profile_version'',
       ''challenge_profile_version''],
     rs_determinism = ''pure''\<rparr>"

definition REDUCERS :: "reducer_spec list" where
  "REDUCERS = [SPEC_STATUS_V1, ATTEMPT_FACTS_V1, JOB_FACTS_V1, WORKFLOW_FACTS_V1, POLICY_FACTS_V1,
     STORY_FACTS_V1, PROFILES_V1, PATTERN_V1, CHECKPOINT_V1, CODE_CHANGE_FACTS_V2]"

definition reducer_of :: "string \<Rightarrow> reducer_spec option" where
  "reducer_of v = List.find (\<lambda>s. rs_version s = v) REDUCERS"

lemmas predicate_rows = FACT_PREDICATES_def SPEC_PREDICATES_def CURRENT_COMMIT_PREDICATE_def
  ATTEMPT_PREDICATES_def JOB_PREDICATES_def WORKFLOW_PREDICATES_def POLICY_PREDICATES_def
  PROFILE_PREDICATES_def PATTERN_PREDICATE_def CHECKPOINT_PREDICATES_def CODE_CHANGE_PREDICATE_ROWS_def

lemmas reducer_rows = REDUCERS_def SPEC_STATUS_V1_def ATTEMPT_FACTS_V1_def JOB_FACTS_V1_def
  WORKFLOW_FACTS_V1_def POLICY_FACTS_V1_def STORY_FACTS_V1_def PROFILES_V1_def PATTERN_V1_def
  CHECKPOINT_V1_def CODE_CHANGE_FACTS_V2_def

section \<open>The derivation chain\<close>

definition recompute_inputs_digest :: "(string \<Rightarrow> string) \<Rightarrow> canonical_fact \<Rightarrow> string" where
  "recompute_inputs_digest sha f = sha (join_with (CHR ''|'') (sort (cf_evidence_ids f) @ [cf_reducer_version f]))"

text \<open>The refusals of \<open>verify_chain\<close>, as values that carry what the messages name.\<close>

datatype chain_error = UnregisteredReducer string
  | EvidenceUnresolved string
  | DigestMismatch
  | PredicateNotDeclared string
  | LevelMismatch string string
  | EpistemicContradiction string

definition evidence_errors :: "(string \<Rightarrow> pydict option) option \<Rightarrow> canonical_fact \<Rightarrow> chain_error list" where
  "evidence_errors resolve f =
     (case resolve of None \<Rightarrow> []
      | Some r \<Rightarrow> map EvidenceUnresolved (filter (\<lambda>e. r e = None) (cf_evidence_ids f)))"

definition declaration_errors :: "reducer_spec \<Rightarrow> canonical_fact \<Rightarrow> chain_error list" where
  "declaration_errors s f =
     (if cf_predicate f \<in> set (rs_produces s) then [] else [PredicateNotDeclared (cf_predicate f)])
     @ (if cf_level f = rs_level s then [] else [LevelMismatch (cf_level f) (rs_level s)])"

definition verify_chain ::
  "(string \<Rightarrow> string) \<Rightarrow> canonical_fact \<Rightarrow> (string \<Rightarrow> pydict option) option \<Rightarrow> chain_error list" where
  "verify_chain sha f resolve =
     (case reducer_of (cf_reducer_version f) of None \<Rightarrow> [UnregisteredReducer (cf_reducer_version f)] | Some _ \<Rightarrow> [])
     @ evidence_errors resolve f
     @ (if recompute_inputs_digest sha f = cf_inputs_digest f then [] else [DigestMismatch])
     @ (case reducer_of (cf_reducer_version f) of None \<Rightarrow> [] | Some s \<Rightarrow> declaration_errors s f)
     @ (if map_of EPISTEMIC_MAP (cf_epistemic_status f) = Some (cf_authority f, cf_evidence_class f) then []
        else [EpistemicContradiction (cf_epistemic_status f)])"

section \<open>The state of a fact at read time\<close>

text \<open>
  A registry row is a dictionary; the ids it carries are texts. \<open>r.get("knowledge_id") or
  r.get("fact_id")\<close> is the row's id. Time stamps are compared as texts, the way the code does.
\<close>

datatype fact_status = Current | Stale | Superseded | Tombstoned | Conflicted

definition row_state :: "pydict \<Rightarrow> pyval" where
  "row_state r = pyget r ''lifecycle_state''"

definition row_id :: "pydict \<Rightarrow> pyval" where
  "row_id r = (if truthy (pyget r ''knowledge_id'') then pyget r ''knowledge_id'' else pyget r ''fact_id'')"

definition current_ids :: "pydict list \<Rightarrow> pyval list" where
  "current_ids rows =
     remdups (map row_id (filter (\<lambda>r. row_state r \<in> {PNone, PStr ''current''}) rows))"

definition row_says :: "pydict option \<Rightarrow> string \<Rightarrow> bool" where
  "row_says r s = (case r of None \<Rightarrow> False | Some row \<Rightarrow> row_state row = PStr s)"

definition evidence_gone :: "(string \<Rightarrow> pydict option) \<Rightarrow> canonical_fact \<Rightarrow> bool" where
  "evidence_gone resolve f =
     list_ex (\<lambda>e. row_says (resolve e) ''superseded'' \<or> row_says (resolve e) ''tombstoned'') (cf_evidence_ids f)"

definition own_row :: "(string \<Rightarrow> pydict option) \<Rightarrow> canonical_fact \<Rightarrow> pydict option" where
  "own_row resolve f = (if cf_fact_id f = [] then None else resolve (cf_fact_id f))"

definition expired_text :: "string option \<Rightarrow> string \<Rightarrow> bool" where
  "expired_text e now = (case e of None \<Rightarrow> False | Some t \<Rightarrow> t \<noteq> [] \<and> t < now)"

definition conflicting :: "(string \<Rightarrow> pydict list option) option \<Rightarrow> canonical_fact \<Rightarrow> bool" where
  "conflicting versions f =
     (case versions of None \<Rightarrow> False
      | Some v \<Rightarrow> 1 < length (current_ids (case v (cf_entity_id f) of None \<Rightarrow> [] | Some rows \<Rightarrow> rows)))"

definition fact_state ::
  "canonical_fact \<Rightarrow> string \<Rightarrow> (string \<Rightarrow> pydict option) \<Rightarrow> (string \<Rightarrow> pydict list option) option \<Rightarrow> fact_status" where
  "fact_state f now resolve versions =
     (if row_says (own_row resolve f) ''tombstoned'' then Tombstoned
      else if cf_lifecycle f = ''tombstoned'' then Tombstoned
      else if row_says (own_row resolve f) ''superseded'' then Superseded
      else if cf_lifecycle f = ''superseded'' then Superseded
      else if conflicting versions f then Conflicted
      else if expired_text (cf_expires_at f) now then Stale
      else if evidence_gone resolve f then Stale
      else Current)"

section \<open>What the registries and the chain check guarantee\<close>

lemma verify_chain_ok:
  "verify_chain sha f resolve = [] \<longleftrightarrow>
     (\<exists>s. reducer_of (cf_reducer_version f) = Some s \<and> cf_predicate f \<in> set (rs_produces s) \<and> cf_level f = rs_level s)
     \<and> (\<forall>r. resolve = Some r \<longrightarrow> (\<forall>e \<in> set (cf_evidence_ids f). r e \<noteq> None))
     \<and> recompute_inputs_digest sha f = cf_inputs_digest f
     \<and> map_of EPISTEMIC_MAP (cf_epistemic_status f) = Some (cf_authority f, cf_evidence_class f)"
  by (auto simp: verify_chain_def evidence_errors_def declaration_errors_def filter_empty_conv split: option.splits)

lemma chain_not_advisory:
  assumes "verify_chain sha f resolve = []"
  shows "cf_epistemic_status f = ''advisory'' \<longleftrightarrow> cf_authority f = ADVISORY"
  using assms epistemic_authority by (auto simp: verify_chain_ok)

definition declared_by :: "predicate_spec \<Rightarrow> string \<Rightarrow> bool" where
  "declared_by p v =
     (case reducer_of v of None \<Rightarrow> False
      | Some s \<Rightarrow> ps_name p \<in> set (rs_produces s) \<and> ps_level p = rs_level s)"

definition produced_under :: "reducer_spec \<Rightarrow> string \<Rightarrow> bool" where
  "produced_under s n =
     (case predicate_of n of None \<Rightarrow> False | Some p \<Rightarrow> rs_version s \<in> set (ps_produced_by p))"

lemma predicates_declared: "list_all (\<lambda>p. ps_produced_by p \<noteq> [] \<and> list_all (declared_by p) (ps_produced_by p)) FACT_PREDICATES"
  by code_simp

lemma reducers_declared: "list_all (\<lambda>s. list_all (produced_under s) (rs_produces s)) REDUCERS"
  by code_simp

lemma predicate_of_some: "predicate_of n = Some p \<Longrightarrow> p \<in> set FACT_PREDICATES \<and> ps_name p = n"
  unfolding predicate_of_def by (auto dest: find_SomeD)

lemma reducer_of_some: "reducer_of v = Some s \<Longrightarrow> s \<in> set REDUCERS \<and> rs_version s = v"
  unfolding reducer_of_def by (auto dest: find_SomeD)

lemma produced_predicate:
  assumes "reducer_of v = Some s" "n \<in> set (rs_produces s)"
  shows "\<exists>p. predicate_of n = Some p \<and> v \<in> set (ps_produced_by p) \<and> ps_level p = rs_level s"
proof -
  have s: "s \<in> set REDUCERS" "rs_version s = v" using assms(1) reducer_of_some by auto
  then have "produced_under s n" using reducers_declared assms(2) by (auto simp: list_all_iff)
  then obtain p where p: "predicate_of n = Some p" "v \<in> set (ps_produced_by p)"
    using s by (auto simp: produced_under_def split: option.splits)
  then have "declared_by p v" using predicates_declared predicate_of_some by (auto simp: list_all_iff)
  with p assms(1) show ?thesis by (auto simp: declared_by_def)
qed

lemma registry_names: "distinct (map ps_name FACT_PREDICATES)" "distinct (map rs_version REDUCERS)"
  by code_simp+

end
