(* ===== verification/Fact_Scope.thy ===== *)
theory Fact_Scope
  imports Fact_Schema
begin

text \<open>
  Scope addressing and visibility (control/context_compiler.py, the section on scopes). A scope
  path is a chain of segments \<open>type:id\<close> joined by slashes, root first.
\<close>

section \<open>Paths\<close>

definition SCOPE_ORDER :: "string list" where
  "SCOPE_ORDER = [''organization'', ''program'', ''workload'', ''workflow'', ''job'', ''attempt'']"

type_synonym segment = "string \<times> string"

text \<open>A segment without a colon is dropped, and only the first colon separates.\<close>

definition parse_scope_path :: "string \<Rightarrow> segment list" where
  "parse_scope_path path =
     map (\<lambda>seg. (before_char (CHR '':'') seg, after_char (CHR '':'') seg))
       (filter (\<lambda>seg. CHR '':'' \<in> set seg) (split_on (CHR ''/'') path))"

definition segment_text :: "segment \<Rightarrow> string" where
  "segment_text s = fst s @ CHR '':'' # snd s"

definition scope_text :: "segment list \<Rightarrow> string" where
  "scope_text segs = join_with (CHR ''/'') (map segment_text segs)"

text \<open>One rung up: from an attempt to its job, from a job to the workflow view of the same cell.\<close>

definition parent_of_leaf :: "segment list \<Rightarrow> string option" where
  "parent_of_leaf segs =
     (let leaf = last segs in
      if fst leaf = ''attempt'' then Some (scope_text (butlast segs))
      else if fst leaf = ''job'' then Some (scope_text (butlast segs) @ ''/workflow:'' @ snd leaf)
      else if length segs \<le> 1 then None
      else Some (scope_text (butlast segs)))"

text \<open>
  \<open>segments[-1]\<close> raises IndexError when only a \<open>run\<close> segment was there; \<open>Inl ()\<close> is that error.
\<close>

definition parent_scope_path :: "segment list \<Rightarrow> unit + string option" where
  "parent_scope_path segs =
     (if segs = [] then Inr None
      else let segs' = (if fst (last segs) = ''run'' then butlast segs else segs) in
        if segs' = [] then Inl () else Inr (parent_of_leaf segs'))"

fun ancestor_prefix :: "string \<Rightarrow> segment list \<Rightarrow> segment list \<Rightarrow> string option" where
  "ancestor_prefix key seen [] = None"
| "ancestor_prefix key seen (s # rest) =
     (if fst s = key then Some (scope_text (seen @ [s])) else ancestor_prefix key (seen @ [s]) rest)"

definition resolve_requirement_scope :: "string \<Rightarrow> string \<Rightarrow> unit + string option" where
  "resolve_requirement_scope scope path =
     (if scope = ''self'' then Inr (Some path)
      else if scope = ''parent'' then parent_scope_path (parse_scope_path path)
      else Inr (ancestor_prefix scope [] (parse_scope_path path)))"

section \<open>Visibility\<close>

definition is_ancestor :: "string \<Rightarrow> string \<Rightarrow> bool" where
  "is_ancestor a path \<longleftrightarrow> path = a \<or> starts_with path (a @ ''/'')"

definition scope_visible :: "string \<Rightarrow> string \<Rightarrow> predicate_spec option \<Rightarrow> bool" where
  "scope_visible requested fact_path p =
     (if requested = [] \<or> fact_path = [] then False
      else if requested = fact_path then True
      else if is_ancestor fact_path requested then
        (case p of None \<Rightarrow> False | Some s \<Rightarrow> ps_inheritable s \<or> ps_level s = ''policy'')
      else False)"

section \<open>Facts\<close>

lemma starts_with_append [simp]: "starts_with (p @ s) p"
  by (simp add: starts_with_def)

lemma starts_withE: "starts_with s p \<Longrightarrow> \<exists>r. s = p @ r"
  by (metis append_take_drop_id starts_with_def)

lemma is_ancestor_iff: "is_ancestor a path \<longleftrightarrow> path = a \<or> (\<exists>r. path = a @ CHR ''/'' # r)"
  by (auto simp: is_ancestor_def dest!: starts_withE) (metis append.assoc append_Cons append_Nil starts_with_append)

lemma is_ancestor_refl [simp]: "is_ancestor a a"
  by (simp add: is_ancestor_def)

lemma is_ancestor_trans: "is_ancestor a b \<Longrightarrow> is_ancestor b c \<Longrightarrow> is_ancestor a c"
  by (auto simp: is_ancestor_iff)

lemma is_ancestor_antisym: "is_ancestor a b \<Longrightarrow> is_ancestor b a \<Longrightarrow> a = b"
  by (auto simp: is_ancestor_iff)

definition seg_clean :: "segment \<Rightarrow> bool" where
  "seg_clean s \<longleftrightarrow> CHR '':'' \<notin> set (fst s) \<and> CHR ''/'' \<notin> set (fst s) \<and> CHR ''/'' \<notin> set (snd s)"

lemma before_after_segment:
  assumes "seg_clean s"
  shows "before_char (CHR '':'') (segment_text s) = fst s" "after_char (CHR '':'') (segment_text s) = snd s"
  using assms by (auto simp: seg_clean_def before_char_def after_char_def segment_text_def takeWhile_append dropWhile_append)

lemma parse_scope_text:
  assumes "\<forall>s \<in> set segs. seg_clean s"
  shows "parse_scope_path (scope_text segs) = segs"
proof (cases "segs = []")
  case True
  then show ?thesis by (simp add: scope_text_def parse_scope_path_def)
next
  case False
  have "split_on (CHR ''/'') (scope_text segs) = map segment_text segs"
    unfolding scope_text_def using assms False
    by (intro split_on_join) (auto simp: seg_clean_def segment_text_def)
  moreover have "filter (\<lambda>seg. CHR '':'' \<in> set seg) (map segment_text segs) = map segment_text segs"
    by (auto simp: segment_text_def filter_id_conv)
  ultimately show ?thesis
    using assms by (simp add: parse_scope_path_def before_after_segment map_idI prod_eq_iff)
qed

lemma join_with_append:
  "xs \<noteq> [] \<Longrightarrow> ys \<noteq> [] \<Longrightarrow> join_with c (xs @ ys) = join_with c xs @ c # join_with c ys"
proof (induction c xs rule: join_with.induct)
  case (2 c x)
  then show ?case by (cases ys) auto
qed auto

lemma scope_text_prefix: "xs \<noteq> [] \<Longrightarrow> is_ancestor (scope_text xs) (scope_text (xs @ ys))"
  by (cases "ys = []") (auto simp: scope_text_def is_ancestor_iff join_with_append)

lemma ancestor_prefix_found:
  "ancestor_prefix k seen segs = Some t \<Longrightarrow>
     \<exists>pre s post. segs = pre @ s # post \<and> fst s = k \<and> t = scope_text (seen @ pre @ [s])"
proof (induction segs arbitrary: seen)
  case (Cons s rest)
  show ?case
  proof (cases "fst s = k")
    case True
    with Cons.prems show ?thesis by (intro exI [of _ "[]"]) auto
  next
    case False
    with Cons.prems have "ancestor_prefix k (seen @ [s]) rest = Some t" by simp
    from Cons.IH [OF this] obtain pre s' post
      where "rest = pre @ s' # post" "fst s' = k" "t = scope_text ((seen @ [s]) @ pre @ [s'])" by blast
    then show ?thesis by (intro exI [of _ "s # pre"]) auto
  qed
qed simp

text \<open>An explicit scope keyword resolves to an ancestor address of the decision's own path.\<close>

lemma resolved_ancestor:
  assumes "resolve_requirement_scope k (scope_text segs) = Inr (Some t)" "\<forall>s \<in> set segs. seg_clean s"
    "k \<noteq> ''self''" "k \<noteq> ''parent''"
  shows "is_ancestor t (scope_text segs)"
proof -
  have "ancestor_prefix k [] segs = Some t"
    using assms by (simp add: resolve_requirement_scope_def parse_scope_text)
  from ancestor_prefix_found [OF this] obtain pre s post
    where "segs = (pre @ [s]) @ post" "t = scope_text (pre @ [s])" by auto
  then show ?thesis using scope_text_prefix [of "pre @ [s]" post] by simp
qed

lemma scope_visible_cases:
  "scope_visible r f p \<Longrightarrow> is_ancestor f r \<and> (f = r \<or> (\<exists>s. p = Some s \<and> (ps_inheritable s \<or> ps_level s = ''policy'')))"
  by (auto simp: scope_visible_def split: if_splits option.splits)

lemma scope_check:
  "resolve_requirement_scope ''parent'' ''org:r/workload:w/job:c'' = Inr (Some ''org:r/workload:w/workflow:c'')"
  "resolve_requirement_scope ''workload'' ''org:r/workload:w/job:c'' = Inr (Some ''org:r/workload:w'')"
  "resolve_requirement_scope ''organization'' ''org:r/workload:w/job:c'' = Inr None"
  "resolve_requirement_scope ''parent'' ''org:r/workload:w/job:c/attempt:p/run:1'' = Inr (Some ''org:r/workload:w/job:c'')"
  by code_simp+

end
