(* ===== verification/Profile_Composition.thy ===== *)
theory Profile_Composition
  imports Fact_Scope
begin

text \<open>
  Fact requirements (core/contracts.py), the decision-type contract (control/context_compiler.py)
  and the composition of a challenge profile into a contract (control/profiles.py), with the
  reducer that declares profiles as policy facts.
\<close>

section \<open>Requirements and contracts\<close>

definition ON_MISSING :: "string list" where
  "ON_MISSING = [''halt'', ''escalate'', ''classify'', ''investigate'']"

definition ON_CONFLICT :: "string list" where
  "ON_CONFLICT = [''halt'', ''escalate'', ''prefer_higher_authority'', ''classify'']"

definition MIN_AUTHORITY_LEVELS :: "string list" where
  "MIN_AUTHORITY_LEVELS = [''DERIVED'', ''SOURCE'', ''MEASURED'', ''POLICY'']"

definition SCOPE_KEYWORDS :: "string list" where
  "SCOPE_KEYWORDS = [''self'', ''parent'', ''workload'', ''organization'', ''workflow'', ''job'', ''attempt'', ''resource'']"

record fact_requirement =
  fq_fact :: string
  fq_scope :: string
  fq_max_age :: "int option"
  fq_min_authority :: string
  fq_on_missing :: string
  fq_on_conflict :: string
  fq_value_type :: "string option"

text \<open>The defaults of the class, and the bare-name form of an entry.\<close>

definition named_requirement :: "string \<Rightarrow> fact_requirement" where
  "named_requirement p = \<lparr>fq_fact = p, fq_scope = ''self'', fq_max_age = None, fq_min_authority = ''DERIVED'',
     fq_on_missing = ''halt'', fq_on_conflict = ''halt'', fq_value_type = None\<rparr>"

record objective =
  ob_signal :: string
  ob_direction :: string
  ob_weight :: pyfloat

record contract_spec =
  ct_decision_type :: string
  ct_version :: string
  ct_scope :: string
  ct_allowed_actions :: "string list"
  ct_max_snapshot_age :: "int option"
  ct_invariants :: "fact_requirement list"
  ct_objectives :: "objective list"
  ct_requires :: "fact_requirement list"
  ct_excludes :: "string list"

section \<open>Profiles\<close>

record session_policy =
  sp_policy :: string
  sp_fork_when :: "string list"
  sp_max_fork_depth :: int
  sp_compress_threshold :: int
  sp_shadow_only :: bool

record domain_profile =
  dp_domain :: string
  dp_version :: string
  dp_canonical_sources :: "string list"
  dp_predicates :: "string list"
  dp_policies :: "string list"
  dp_patterns :: "string list"
  dp_verification :: "string list"

record challenge_profile =
  ch_challenge :: string
  ch_version :: string
  ch_requirements :: "fact_requirement list"
  ch_deliberation :: "string list"
  ch_session_policy :: session_policy
  ch_verification_policy :: "string list"

definition domain_profile_predicates_known :: "domain_profile \<Rightarrow> string list" where
  "domain_profile_predicates_known d = filter (\<lambda>p. predicate_of p = None) (dp_predicates d)"

text \<open>The refusals of \<open>ProfileCompositionError\<close>, by the check that raises them.\<close>

datatype composition_error = DifferentFacts string string
  | ScopeChanged string string
  | ValueTypeChanged string string
  | BadMinAuthority string
  | BadOnMissing string
  | BadOnConflict string
  | BadScope string
  | UndeclaredFact string
  | UnproducedFact string
  | ExcludedFact string

section \<open>Tightening\<close>

definition MIN_AUTHORITY_RANK :: "(string \<times> nat) list" where
  "MIN_AUTHORITY_RANK = [(''DERIVED'', 0), (''SOURCE'', 1), (''MEASURED'', 2), (''POLICY'', 3)]"

definition ON_MISSING_STRICTNESS :: "(string \<times> nat) list" where
  "ON_MISSING_STRICTNESS = [(''classify'', 0), (''investigate'', 0), (''escalate'', 1), (''halt'', 2)]"

definition ON_CONFLICT_STRICTNESS :: "(string \<times> nat) list" where
  "ON_CONFLICT_STRICTNESS =
     [(''classify'', 0), (''prefer_higher_authority'', 1), (''escalate'', 2), (''halt'', 2)]"

definition rank_in :: "(string \<times> nat) list \<Rightarrow> string \<Rightarrow> nat" where
  "rank_in t s = (case map_of t s of None \<Rightarrow> 0 | Some n \<Rightarrow> n)"

definition stricter :: "(string \<times> nat) list \<Rightarrow> string \<Rightarrow> string \<Rightarrow> string" where
  "stricter t a b = (if rank_in t a < rank_in t b then b else a)"

definition min_age :: "int option \<Rightarrow> int option \<Rightarrow> int option" where
  "min_age a b = (case b of None \<Rightarrow> a | Some y \<Rightarrow> (case a of None \<Rightarrow> Some y | Some x \<Rightarrow> Some (min x y)))"

text \<open>\<open>existing.value_type or addition.value_type\<close>: an empty text counts as absent.\<close>

definition type_or :: "string option \<Rightarrow> string option \<Rightarrow> string option" where
  "type_or a b = (case a of None \<Rightarrow> b | Some t \<Rightarrow> if t = [] then b else a)"

definition types_differ :: "string option \<Rightarrow> string option \<Rightarrow> bool" where
  "types_differ a b \<longleftrightarrow> a \<noteq> None \<and> b \<noteq> None \<and> a \<noteq> b"

definition tighten :: "fact_requirement \<Rightarrow> fact_requirement \<Rightarrow> composition_error + fact_requirement" where
  "tighten e a =
     (if fq_fact e \<noteq> fq_fact a then Inl (DifferentFacts (fq_fact e) (fq_fact a))
      else if fq_scope e \<noteq> fq_scope a then Inl (ScopeChanged (fq_scope e) (fq_scope a))
      else if types_differ (fq_value_type e) (fq_value_type a)
        then Inl (ValueTypeChanged (the (fq_value_type e)) (the (fq_value_type a)))
      else Inr (e\<lparr>fq_max_age := min_age (fq_max_age e) (fq_max_age a),
        fq_min_authority := stricter MIN_AUTHORITY_RANK (fq_min_authority e) (fq_min_authority a),
        fq_on_missing := stricter ON_MISSING_STRICTNESS (fq_on_missing e) (fq_on_missing a),
        fq_on_conflict := stricter ON_CONFLICT_STRICTNESS (fq_on_conflict e) (fq_on_conflict a),
        fq_value_type := type_or (fq_value_type e) (fq_value_type a)\<rparr>))"

section \<open>Composition\<close>

definition validate_context_requirement :: "fact_requirement \<Rightarrow> composition_error option" where
  "validate_context_requirement r =
     (if fq_min_authority r \<notin> set MIN_AUTHORITY_LEVELS then Some (BadMinAuthority (fq_min_authority r))
      else if fq_on_missing r \<notin> set ON_MISSING then Some (BadOnMissing (fq_on_missing r))
      else if fq_on_conflict r \<notin> set ON_CONFLICT then Some (BadOnConflict (fq_on_conflict r))
      else if fq_scope r \<notin> set SCOPE_KEYWORDS then Some (BadScope (fq_scope r))
      else case predicate_of (fq_fact r) of
             None \<Rightarrow> Some (UndeclaredFact (fq_fact r))
           | Some p \<Rightarrow> if ps_produced_by p = [] then Some (UnproducedFact (fq_fact r)) else None)"

text \<open>The dictionary keyed by fact, in insertion order: a later entry of the same fact takes the
  place of the earlier one.\<close>

fun put_req :: "fact_requirement \<Rightarrow> fact_requirement list \<Rightarrow> fact_requirement list" where
  "put_req r [] = [r]"
| "put_req r (x # xs) = (if fq_fact x = fq_fact r then r # xs else x # put_req r xs)"

definition keyed_by_fact :: "fact_requirement list \<Rightarrow> fact_requirement list" where
  "keyed_by_fact rs = foldl (\<lambda>m r. put_req r m) [] rs"

definition req_for :: "string \<Rightarrow> fact_requirement list \<Rightarrow> fact_requirement option" where
  "req_for p m = List.find (\<lambda>r. fq_fact r = p) m"

definition merge_one ::
  "string list \<Rightarrow> fact_requirement \<Rightarrow> fact_requirement list \<Rightarrow> composition_error + fact_requirement list" where
  "merge_one excluded r m =
     (if fq_fact r \<in> set excluded then Inl (ExcludedFact (fq_fact r))
      else case validate_context_requirement r of
        Some e \<Rightarrow> Inl e
      | None \<Rightarrow> (case req_for (fq_fact r) m of
          None \<Rightarrow> Inr (put_req r m)
        | Some e \<Rightarrow> (case tighten e r of Inl err \<Rightarrow> Inl err | Inr t \<Rightarrow> Inr (put_req t m))))"

fun merge_all ::
  "string list \<Rightarrow> fact_requirement list \<Rightarrow> fact_requirement list \<Rightarrow> composition_error + fact_requirement list" where
  "merge_all excluded [] m = Inr m"
| "merge_all excluded (r # rs) m =
     (case merge_one excluded r m of Inl e \<Rightarrow> Inl e | Inr m' \<Rightarrow> merge_all excluded rs m')"

definition compose_requirements ::
  "contract_spec \<Rightarrow> challenge_profile option \<Rightarrow> composition_error + fact_requirement list" where
  "compose_requirements c ch =
     (case ch of None \<Rightarrow> Inr (keyed_by_fact (ct_requires c))
      | Some p \<Rightarrow> merge_all (ct_excludes c) (ch_requirements p) (keyed_by_fact (ct_requires c)))"

end
