(* ===== verification/Iso_Time.thy ===== *)
theory Iso_Time
  imports Py_Format
begin

text \<open>
  \<open>datetime.fromisoformat\<close> and the difference of two time stamps, as the control plane uses them.
  Modelled is the extended format documented for every supported Python version,
  \<open>YYYY-MM-DD[*HH[:MM[:SS[.fff[fff]]]][+HH[:MM[:SS[.fff[fff]]]]]]\<close>; the further spellings that only
  later versions accept (basic and week dates, a final \<open>Z\<close>) count as unreadable here. A time stamp
  is the wall clock in microseconds since 1970-01-01 with the offset from UTC where it has one.
\<close>

section \<open>Dates\<close>

definition is_leap :: "int \<Rightarrow> bool" where
  "is_leap y \<longleftrightarrow> y mod 4 = 0 \<and> (y mod 100 \<noteq> 0 \<or> y mod 400 = 0)"

definition days_in_month :: "int \<Rightarrow> int \<Rightarrow> int" where
  "days_in_month y m =
     (if m = 2 then (if is_leap y then 29 else 28) else if m \<in> {4, 6, 9, 11} then 30 else 31)"

definition date_ok :: "int \<Rightarrow> int \<Rightarrow> int \<Rightarrow> bool" where
  "date_ok y m d \<longleftrightarrow> 1 \<le> y \<and> y \<le> 9999 \<and> 1 \<le> m \<and> m \<le> 12 \<and> 1 \<le> d \<and> d \<le> days_in_month y m"

text \<open>The day counted from 1970-01-01; a year is taken to begin in March.\<close>

definition march_year_days :: "int \<Rightarrow> int \<Rightarrow> int" where
  "march_year_days y doy =
     (y div 400) * 146097 + ((y mod 400) * 365 + (y mod 400) div 4 - (y mod 400) div 100 + doy) - 719468"

definition days_from_civil :: "int \<Rightarrow> int \<Rightarrow> int \<Rightarrow> int" where
  "days_from_civil y m d =
     march_year_days (if m \<le> 2 then y - 1 else y) ((153 * ((m + 9) mod 12) + 2) div 5 + d - 1)"

section \<open>Reading a time stamp\<close>

definition digits_n :: "nat \<Rightarrow> string \<Rightarrow> (int \<times> string) option" where
  "digits_n k s = (if k \<le> length s \<and> list_all is_digit (take k s)
     then Some (int (nat_of_digits (take k s)), drop k s) else None)"

definition after_sep :: "char \<Rightarrow> nat \<Rightarrow> string \<Rightarrow> (int \<times> string) option" where
  "after_sep c k s = (case s of [] \<Rightarrow> None | x # r \<Rightarrow> if x = c then digits_n k r else None)"

definition parse_date :: "string \<Rightarrow> (int \<times> int \<times> int \<times> string) option" where
  "parse_date s =
     (case digits_n 4 s of None \<Rightarrow> None | Some (y, r) \<Rightarrow>
      case after_sep (CHR ''-'') 2 r of None \<Rightarrow> None | Some (m, r') \<Rightarrow>
      case after_sep (CHR ''-'') 2 r' of None \<Rightarrow> None | Some (d, r'') \<Rightarrow>
        if date_ok y m d then Some (y, m, d, r'') else None)"

text \<open>A time of day in microseconds from its text; nothing may follow it.\<close>

definition clock_micros :: "int \<Rightarrow> int \<Rightarrow> int \<Rightarrow> int \<Rightarrow> int option" where
  "clock_micros h m s us = (if h < 24 \<and> m < 60 \<and> s < 60
     then Some (((h * 60 + m) * 60 + s) * 1000000 + us) else None)"

definition parse_fraction :: "string \<Rightarrow> int option" where
  "parse_fraction s =
     (if s = [] then Some 0
      else if hd s = CHR ''.'' \<and> list_all is_digit (tl s) \<and> length s = 4 then Some (int (nat_of_digits (tl s)) * 1000)
      else if hd s = CHR ''.'' \<and> list_all is_digit (tl s) \<and> length s = 7 then Some (int (nat_of_digits (tl s)))
      else None)"

definition parse_clock :: "string \<Rightarrow> int option" where
  "parse_clock t =
     (case digits_n 2 t of None \<Rightarrow> None | Some (h, r) \<Rightarrow>
      if r = [] then clock_micros h 0 0 0 else
      case after_sep (CHR '':'') 2 r of None \<Rightarrow> None | Some (m, r') \<Rightarrow>
      if r' = [] then clock_micros h m 0 0 else
      case after_sep (CHR '':'') 2 r' of None \<Rightarrow> None | Some (s, r'') \<Rightarrow>
      case parse_fraction r'' of None \<Rightarrow> None | Some us \<Rightarrow> clock_micros h m s us)"

definition is_sign :: "char \<Rightarrow> bool" where
  "is_sign c \<longleftrightarrow> c = CHR ''+'' \<or> c = CHR ''-''"

text \<open>The offset text is empty (a naive time stamp) or a sign and a time of day below 24 hours.\<close>

definition parse_offset :: "string \<Rightarrow> int option option" where
  "parse_offset t = (case t of [] \<Rightarrow> Some None
     | c # r \<Rightarrow> map_option (\<lambda>us. Some (if c = CHR ''-'' then - us else us)) (parse_clock r))"

record py_datetime =
  dt_local :: int
  dt_offset :: "int option"

definition parse_time :: "int \<Rightarrow> string \<Rightarrow> py_datetime option" where
  "parse_time day t =
     (case (parse_clock (takeWhile (\<lambda>c. \<not> is_sign c) t), parse_offset (dropWhile (\<lambda>c. \<not> is_sign c) t)) of
        (Some us, Some off) \<Rightarrow> Some \<lparr>dt_local = day * 86400000000 + us, dt_offset = off\<rparr>
      | _ \<Rightarrow> None)"

definition fromisoformat :: "string \<Rightarrow> py_datetime option" where
  "fromisoformat s =
     (case parse_date s of None \<Rightarrow> None | Some (y, m, d, r) \<Rightarrow>
        if r = [] then Some \<lparr>dt_local = days_from_civil y m d * 86400000000, dt_offset = None\<rparr>
        else parse_time (days_from_civil y m d) (tl r))"

text \<open>
  \<open>(a - b).total_seconds()\<close> in microseconds: \<open>None\<close> where Python raises TypeError because one of
  the stamps carries an offset and the other does not.
\<close>

definition dt_diff :: "py_datetime \<Rightarrow> py_datetime \<Rightarrow> int option" where
  "dt_diff a b =
     (case (dt_offset a, dt_offset b) of
        (None, None) \<Rightarrow> Some (dt_local a - dt_local b)
      | (Some x, Some y) \<Rightarrow> Some ((dt_local a - x) - (dt_local b - y))
      | _ \<Rightarrow> None)"

lemma dt_diff_self [simp]: "dt_diff a a = Some 0"
  by (simp add: dt_diff_def split: option.splits)

lemma dt_diff_None: "dt_diff a b = None \<longleftrightarrow> (dt_offset a = None) \<noteq> (dt_offset b = None)"
  by (auto simp: dt_diff_def split: option.splits)

section \<open>Checks\<close>

lemma fromisoformat_check:
  "fromisoformat ''2001-09-09T01:46:40+00:00'' = Some \<lparr>dt_local = 1000000000000000, dt_offset = Some 0\<rparr>"
  "fromisoformat ''1970-01-02'' = Some \<lparr>dt_local = 86400000000, dt_offset = None\<rparr>"
  "fromisoformat ''2026-03-02 00:00:00.500-01:30'' =
     Some \<lparr>dt_local = 20514 * 86400000000 + 500000, dt_offset = Some (- 5400000000)\<rparr>"
  "fromisoformat ''2025-02-29'' = None" "fromisoformat ''2026-03-02T'' = None" "fromisoformat ''nonsense'' = None"
  by code_simp+

end
