(* ===== verification/Py_Json.thy ===== *)
theory Py_Json
  imports Agd_Prelude
begin

text \<open>
  What the fact plane takes from the Python library beyond the prelude: \<open>json.dumps\<close> with sorted keys,
  \<open>int(v)\<close>, iteration over a dynamic value, \<open>str(v or default)\<close>, the character tests of cell names, and
  the exceptions these raise as values of \<open>py_error\<close>.
\<close>

section \<open>JSON text\<close>

text \<open>\<open>json.dumps\<close> of texts and of nested arrays of texts (ASCII output, the default separators).\<close>

definition json_char :: "char \<Rightarrow> string" where
  "json_char c = (let n = (of_char c :: nat) in
     if c = CHR 0x22 \<or> c = CHR 0x5C then [CHR 0x5C, c]
     else if n = 10 then [CHR 0x5C, CHR ''n'']
     else if n = 13 then [CHR 0x5C, CHR ''r'']
     else if n = 9 then [CHR 0x5C, CHR ''t'']
     else if n = 8 then [CHR 0x5C, CHR ''b'']
     else if n = 12 then [CHR 0x5C, CHR ''f'']
     else if n < 32 \<or> 126 < n then CHR 0x5C # ''u00'' @ [hex_digit (n div 16), hex_digit (n mod 16)]
     else [c])"

definition json_string :: "string \<Rightarrow> string" where
  "json_string s = CHR 0x22 # concat (map json_char s) @ [CHR 0x22]"

definition json_array :: "string list \<Rightarrow> string" where
  "json_array xs = ''['' @ comma_sep xs @ '']''"

definition json_strings :: "string list \<Rightarrow> string" where
  "json_strings xs = json_array (map json_string xs)"

text \<open>\<open>json.dumps(v, sort_keys=True)\<close>. Floats print with \<open>repr\<close>, except for the three special values.\<close>

definition json_float :: "pyfloat \<Rightarrow> string" where
  "json_float x = (case x of Fin _ \<Rightarrow> repr_float x | PosInf \<Rightarrow> ''Infinity'' | NegInf \<Rightarrow> ''-Infinity'' | NaN \<Rightarrow> ''NaN'')"

definition json_object :: "(string \<times> string) list \<Rightarrow> string" where
  "json_object items = ''{'' @ comma_sep (map (\<lambda>(k, t). json_string k @ '': '' @ t) (sort_key fst items)) @ ''}''"

fun json_dumps :: "pyval \<Rightarrow> string" where
  "json_dumps PNone = ''null''"
| "json_dumps (PBool b) = (if b then ''true'' else ''false'')"
| "json_dumps (PInt i) = show_int i"
| "json_dumps (PFloat x) = json_float x"
| "json_dumps (PStr s) = json_string s"
| "json_dumps (PList xs) = json_array (map json_dumps xs)"
| "json_dumps (PDict d) = json_object (map (\<lambda>(k, v). (k, json_dumps v)) d)"

section \<open>Exceptions and conversions\<close>

datatype py_error = ValueError | TypeError | OverflowError | AttributeError | KeyError

text \<open>\<open>int(v)\<close>: a float is truncated towards zero, a text is read as decimal digits with an optional sign.\<close>

definition truncate_rat :: "rat \<Rightarrow> int" where
  "truncate_rat q = (if 0 \<le> q then \<lfloor>q\<rfloor> else - \<lfloor>- q\<rfloor>)"

definition int_of_text :: "string \<Rightarrow> py_error + int" where
  "int_of_text s = (case take_sign (py_strip s) of (sg, ds) \<Rightarrow>
     if ds \<noteq> [] \<and> list_all is_digit_us ds \<and> underscores_ok False ds
     then Inr (sg * int (nat_of_digits (filter is_digit ds))) else Inl ValueError)"

fun py_int :: "pyval \<Rightarrow> py_error + int" where
  "py_int (PBool b) = Inr (if b then 1 else 0)"
| "py_int (PInt i) = Inr i"
| "py_int (PFloat (Fin q)) = Inr (truncate_rat q)"
| "py_int (PFloat NaN) = Inl ValueError"
| "py_int (PFloat _) = Inl OverflowError"
| "py_int (PStr s) = int_of_text s"
| "py_int _ = Inl TypeError"

text \<open>The elements a \<open>for\<close> loop sees: of a list, the keys of a dict, the characters of a text.\<close>

fun iterate :: "pyval \<Rightarrow> py_error + pyval list" where
  "iterate (PList xs) = Inr xs"
| "iterate (PDict d) = Inr (map (PStr \<circ> fst) d)"
| "iterate (PStr s) = Inr (map (\<lambda>c. PStr [c]) s)"
| "iterate _ = Inl TypeError"

definition iterate_or_empty :: "pyval \<Rightarrow> py_error + pyval list" where
  "iterate_or_empty v = (if truthy v then iterate v else Inr [])"

text \<open>\<open>str(v or d)\<close> for a text \<open>d\<close>, and the element itself where it is a dict.\<close>

definition or_text :: "pyval \<Rightarrow> string \<Rightarrow> string" where
  "or_text v d = (if truthy v then py_str v else d)"

fun as_pydict :: "pyval \<Rightarrow> pydict option" where
  "as_pydict (PDict d) = Some d"
| "as_pydict _ = None"

lemma or_text_PStr [simp]: "or_text (PStr s) d = (if s = [] then d else s)"
  by (simp add: or_text_def)

lemma or_text_PNone [simp]: "or_text PNone d = d"
  by (simp add: or_text_def)

section \<open>Character tests\<close>

text \<open>\<open>str.isalnum\<close> on the code points up to 255.\<close>

definition is_alnum :: "char \<Rightarrow> bool" where
  "is_alnum c = (let n = (of_char c :: nat) in
     (48 \<le> n \<and> n \<le> 57) \<or> (65 \<le> n \<and> n \<le> 90) \<or> (97 \<le> n \<and> n \<le> 122)
     \<or> n \<in> {0xAA, 0xB2, 0xB3, 0xB5, 0xB9, 0xBA, 0xBC, 0xBD, 0xBE}
     \<or> (0xC0 \<le> n \<and> n \<noteq> 0xD7 \<and> n \<noteq> 0xF7))"

definition underscore_slug :: "string \<Rightarrow> string" where
  "underscore_slug s = map (\<lambda>c. if is_alnum c then c else CHR ''_'') s"

section \<open>Choosing and replacing\<close>

text \<open>\<open>max(xs, key=k)\<close> of a list with head \<open>x\<close>: the first of the largest.\<close>

definition first_max :: "('a \<Rightarrow> 'k::linorder) \<Rightarrow> 'a \<Rightarrow> 'a list \<Rightarrow> 'a" where
  "first_max k x xs = foldl (\<lambda>m y. if k m < k y then y else m) x xs"

lemma first_max_in: "first_max k x xs \<in> set (x # xs)"
  by (induction xs arbitrary: x) (auto simp: first_max_def)

lemma first_max_ge: "y \<in> set (x # xs) \<Longrightarrow> k y \<le> k (first_max k x xs)"
proof (induction xs arbitrary: x y)
  case (Cons z zs)
  let ?m = "if k x < k z then z else x"
  have "k ?m \<le> k (first_max k ?m zs)" using Cons.IH [of ?m ?m] by simp
  moreover have "k x \<le> k ?m" "k z \<le> k ?m" by auto
  moreover have "w \<in> set zs \<Longrightarrow> k w \<le> k (first_max k ?m zs)" for w using Cons.IH [of w ?m] by simp
  moreover have "first_max k x (z # zs) = first_max k ?m zs" by (simp add: first_max_def)
  ultimately show ?case using Cons.prems by fastforce
qed (simp add: first_max_def)

text \<open>\<open>s.replace(a, b, 1)\<close> for a non-empty \<open>a\<close>.\<close>

fun replace_first :: "string \<Rightarrow> string \<Rightarrow> string \<Rightarrow> string" where
  "replace_first a b [] = []"
| "replace_first a b (c # s) =
     (if starts_with (c # s) a then b @ drop (length a) (c # s) else c # replace_first a b s)"

section \<open>Collecting results\<close>

text \<open>A loop that appends to a list and stops at the first exception.\<close>

fun append_all :: "('e + 'a list) list \<Rightarrow> 'e + 'a list" where
  "append_all [] = Inr []"
| "append_all (Inl e # xs) = Inl e"
| "append_all (Inr ys # xs) = (case append_all xs of Inl e \<Rightarrow> Inl e | Inr zs \<Rightarrow> Inr (ys @ zs))"

text \<open>\<open>if c: facts.append(mk(v))\<close>, where computing \<open>v\<close> may raise.\<close>

definition append_if :: "bool \<Rightarrow> ('v \<Rightarrow> 'a) \<Rightarrow> 'e + 'v \<Rightarrow> 'e + 'a list" where
  "append_if c mk v = (if c then (case v of Inl e \<Rightarrow> Inl e | Inr x \<Rightarrow> Inr [mk x]) else Inr [])"

lemma append_all_ok:
  "(\<exists>ys. append_all xs = Inr ys) \<longleftrightarrow> (\<forall>x \<in> set xs. \<exists>ys. x = Inr ys)"
  by (induction xs rule: append_all.induct) (auto split: sum.splits)

lemma append_all_append:
  "append_all (xs @ ys) =
     (case append_all xs of Inl e \<Rightarrow> Inl e
      | Inr a \<Rightarrow> (case append_all ys of Inl e \<Rightarrow> Inl e | Inr b \<Rightarrow> Inr (a @ b)))"
  by (induction xs rule: append_all.induct) (auto split: sum.splits)

text \<open>Every element of a successful result has the property.\<close>

definition yields :: "('a \<Rightarrow> bool) \<Rightarrow> 'e + 'a list \<Rightarrow> bool" where
  "yields P r \<longleftrightarrow> (case r of Inl _ \<Rightarrow> True | Inr xs \<Rightarrow> list_all P xs)"

lemma yields_simps [simp]: "yields P (Inl e)" "yields P (Inr xs) \<longleftrightarrow> list_all P xs"
  by (simp_all add: yields_def)

lemma yieldsD: "yields P r \<Longrightarrow> r = Inr xs \<Longrightarrow> x \<in> set xs \<Longrightarrow> P x"
  by (simp add: list_all_iff)

lemma yields_append_all [intro]: "list_all (yields P) rs \<Longrightarrow> yields P (append_all rs)"
  by (induction rs rule: append_all.induct) (auto split: sum.splits)

lemma yields_append_if [simp]: "(\<And>x. P (mk x)) \<Longrightarrow> yields P (append_if c mk v)"
  by (auto simp: append_if_def split: sum.splits)

lemma yields_mono: "yields P r \<Longrightarrow> (\<And>x. P x \<Longrightarrow> Q x) \<Longrightarrow> yields Q r"
  by (auto simp: yields_def list_all_iff split: sum.splits)

end
