(* ===== verification/Context_Compiler.thy ===== *)
theory Context_Compiler
  imports Profile_Composition Iso_Time Py_Json
begin

text \<open>
  The context compiler (control/context_compiler.py) with the snapshot value types of
  control/facts.py: the fact store seam, the in-memory store, the resolution of one requirement and
  \<open>compile_context\<close>. The contract is an argument, as read from its YAML file; SHA-256 is the
  parameter \<open>sha\<close>. An exception is a \<open>compile_error\<close>.
\<close>

section \<open>The values of a snapshot\<close>

record fact_ref =
  fr_fact_id :: string
  fr_predicate :: string
  fr_subject_id :: string
  fr_scope_path :: string
  fr_value :: string
  fr_value_type :: string
  fr_authority :: string
  fr_epistemic_status :: string
  fr_observed_at :: string
  fr_age :: int
  fr_reducer_version :: string
  fr_evidence_ids :: "string list"

record unknown_slot =
  un_predicate :: string
  un_scope :: string
  un_reason :: string
  un_handling :: string

record conflict_slot =
  co_predicate :: string
  co_scope :: string
  co_candidates :: "fact_ref list"
  co_handling :: string

record stale_slot =
  sl_fact :: fact_ref
  sl_scope :: string
  sl_reason :: string
  sl_handling :: string

record control_context =
  cx_snapshot_id :: string
  cx_decision_type :: string
  cx_contract_version :: string
  cx_scope_path :: string
  cx_compiled_at :: string
  cx_invariants :: "fact_ref list"
  cx_objectives :: "objective list"
  cx_workload :: "fact_ref list"
  cx_workflow :: "fact_ref list"
  cx_job :: "fact_ref list"
  cx_resource :: "fact_ref list"
  cx_unknowns :: "unknown_slot list"
  cx_conflicts :: "conflict_slot list"
  cx_stale :: "stale_slot list"
  cx_advisory :: "fact_ref list"
  cx_evidence_ids :: "string list"
  cx_admissible :: bool
  cx_refusal :: string

record context_request =
  cq_decision_type :: string
  cq_scope_type :: string
  cq_scope_id :: string
  cq_scope_path :: string
  cq_repository_id :: string

text \<open>ValueError of a request at the wrong scope, the refusal of a profile, TypeError for the
  difference of a naive and an aware time stamp, IndexError for the parent of a lone \<open>run\<close> segment.\<close>

datatype compile_error = ScopeTypeMismatch string string | ProfileRefused composition_error
  | MixedTimeZones | NoParentSegment

section \<open>The fact store\<close>

record fact_store =
  fs_current :: "string \<Rightarrow> canonical_fact list"
  fs_resolve :: "string \<Rightarrow> pydict option"
  fs_versions :: "string \<Rightarrow> pydict list option"

definition row_of_fact :: "canonical_fact \<Rightarrow> pydict" where
  "row_of_fact f = [(''knowledge_id'', PStr (cf_fact_id f)), (''lifecycle_state'', PStr (cf_lifecycle f))]"

definition memory_current :: "canonical_fact list \<Rightarrow> string \<Rightarrow> canonical_fact list" where
  "memory_current facts p = filter (\<lambda>f. cf_predicate f = p \<and> cf_lifecycle f = ''current'') facts"

definition memory_resolve :: "canonical_fact list \<Rightarrow> string \<Rightarrow> pydict option" where
  "memory_resolve facts fid = map_option row_of_fact (List.find (\<lambda>f. cf_fact_id f = fid) facts)"

definition memory_versions :: "canonical_fact list \<Rightarrow> string \<Rightarrow> pydict list option" where
  "memory_versions facts eid =
     (case map row_of_fact (filter (\<lambda>f. cf_entity_id f = eid) facts) of [] \<Rightarrow> None | rows \<Rightarrow> Some rows)"

definition in_memory_store :: "canonical_fact list \<Rightarrow> fact_store" where
  "in_memory_store facts =
     \<lparr>fs_current = memory_current facts, fs_resolve = memory_resolve facts, fs_versions = memory_versions facts\<rparr>"

section \<open>References\<close>

definition age_seconds :: "string \<Rightarrow> string \<Rightarrow> compile_error + int" where
  "age_seconds observed now =
     (case (fromisoformat observed, fromisoformat now) of
        (Some obs, Some cur) \<Rightarrow>
          (case dt_diff cur obs of None \<Rightarrow> Inl MixedTimeZones | Some us \<Rightarrow> Inr (max 0 (us div 1000000)))
      | _ \<Rightarrow> Inr 0)"

definition ref_with_age :: "canonical_fact \<Rightarrow> int \<Rightarrow> fact_ref" where
  "ref_with_age f age =
     \<lparr>fr_fact_id = cf_fact_id f, fr_predicate = cf_predicate f, fr_subject_id = cf_subject_id f,
      fr_scope_path = cf_scope_path f, fr_value = cf_value f, fr_value_type = cf_value_type f,
      fr_authority = authority_name (cf_authority f), fr_epistemic_status = cf_epistemic_status f,
      fr_observed_at = cf_observed_at f, fr_age = age, fr_reducer_version = cf_reducer_version f,
      fr_evidence_ids = cf_evidence_ids f\<rparr>"

definition to_fact_ref :: "canonical_fact \<Rightarrow> string \<Rightarrow> compile_error + fact_ref" where
  "to_fact_ref f now =
     (case age_seconds (cf_observed_at f) now of Inl e \<Rightarrow> Inl e | Inr age \<Rightarrow> Inr (ref_with_age f age))"

fun to_fact_refs :: "canonical_fact list \<Rightarrow> string \<Rightarrow> compile_error + fact_ref list" where
  "to_fact_refs [] now = Inr []"
| "to_fact_refs (f # fs) now =
     (case to_fact_ref f now of Inl e \<Rightarrow> Inl e
      | Inr r \<Rightarrow> (case to_fact_refs fs now of Inl e \<Rightarrow> Inl e | Inr rs \<Rightarrow> Inr (r # rs)))"

section \<open>Resolving one requirement\<close>

datatype resolution = Resolved fact_ref | UnknownFact unknown_slot
  | ConflictingFact conflict_slot | StaleValue stale_slot

definition unknown_res :: "fact_requirement \<Rightarrow> string \<Rightarrow> resolution" where
  "unknown_res q reason = UnknownFact \<lparr>un_predicate = fq_fact q, un_scope = fq_scope q, un_reason = reason,
     un_handling = fq_on_missing q\<rparr>"

definition stale_res :: "fact_requirement \<Rightarrow> fact_ref \<Rightarrow> string \<Rightarrow> resolution" where
  "stale_res q r reason = StaleValue \<lparr>sl_fact = r, sl_scope = fq_scope q, sl_reason = reason,
     sl_handling = fq_on_missing q\<rparr>"

text \<open>\<open>max(descendants, key=observed_at)\<close> keeps the first of the newest.\<close>

definition newest :: "canonical_fact \<Rightarrow> canonical_fact list \<Rightarrow> canonical_fact" where
  "newest f fs = foldl (\<lambda>m x. if cf_observed_at m < cf_observed_at x then x else m) f fs"

definition descendants_of :: "fact_store \<Rightarrow> string \<Rightarrow> string \<Rightarrow> canonical_fact list" where
  "descendants_of S p path = filter (\<lambda>f. starts_with (cf_scope_path f) (path @ ''/'')) (fs_current S p)"

definition visible_facts :: "fact_store \<Rightarrow> string \<Rightarrow> string \<Rightarrow> canonical_fact list" where
  "visible_facts S p target = filter (\<lambda>f. scope_visible target (cf_scope_path f) (predicate_of p)) (fs_current S p)"

definition candidates_for :: "fact_store \<Rightarrow> fact_requirement \<Rightarrow> string \<Rightarrow> string \<Rightarrow> canonical_fact list" where
  "candidates_for S q target path =
     (case visible_facts S (fq_fact q) target of
        [] \<Rightarrow> if fq_scope q = ''self'' then
                (case descendants_of S (fq_fact q) path of [] \<Rightarrow> [] | f # fs \<Rightarrow> [newest f fs])
              else []
      | fs \<Rightarrow> fs)"

text \<open>The candidates of the smallest entity id, by fact id.\<close>

definition slot_group :: "canonical_fact list \<Rightarrow> canonical_fact list" where
  "slot_group fs =
     (case sort (map cf_entity_id fs) of [] \<Rightarrow> []
      | e # _ \<Rightarrow> sort_key cf_fact_id (filter (\<lambda>f. cf_entity_id f = e) fs))"

definition min_authority_of :: "string \<Rightarrow> authority" where
  "min_authority_of s = (case authority_of_name s of None \<Rightarrow> DERIVED | Some a \<Rightarrow> a)"

definition too_old :: "int option \<Rightarrow> int \<Rightarrow> bool" where
  "too_old limit age = (case limit of None \<Rightarrow> False | Some m \<Rightarrow> m < age)"

definition admit_fact ::
  "(string \<Rightarrow> string) \<Rightarrow> fact_store \<Rightarrow> fact_requirement \<Rightarrow> canonical_fact \<Rightarrow> string \<Rightarrow> compile_error + resolution" where
  "admit_fact sha S q f now =
     (if verify_chain sha f (Some (fs_resolve S)) \<noteq> [] then Inr (unknown_res q ''broken_chain'')
      else if cf_authority f < min_authority_of (fq_min_authority q) then Inr (unknown_res q ''below_min_authority'')
      else case to_fact_ref f now of
        Inl e \<Rightarrow> Inl e
      | Inr r \<Rightarrow> Inr (if too_old (fq_max_age q) (fr_age r) then stale_res q r ''max_age_exceeded'' else Resolved r))"

definition resolve_group ::
  "(string \<Rightarrow> string) \<Rightarrow> fact_store \<Rightarrow> fact_requirement \<Rightarrow> canonical_fact list \<Rightarrow> string \<Rightarrow> compile_error + resolution" where
  "resolve_group sha S q grp now =
     (case grp of [] \<Rightarrow> Inr (unknown_res q ''no_fact'')
      | f # _ \<Rightarrow>
        (case fact_state f now (fs_resolve S) (Some (fs_versions S)) of
           Conflicted \<Rightarrow>
             (case to_fact_refs grp now of
                Inl e \<Rightarrow> Inl e
              | Inr rs \<Rightarrow> Inr (ConflictingFact \<lparr>co_predicate = fq_fact q, co_scope = fq_scope q,
                  co_candidates = rs, co_handling = fq_on_conflict q\<rparr>))
         | Tombstoned \<Rightarrow> Inr (unknown_res q ''no_fact'')
         | Superseded \<Rightarrow> Inr (unknown_res q ''no_fact'')
         | Stale \<Rightarrow> (case to_fact_ref f now of Inl e \<Rightarrow> Inl e | Inr r \<Rightarrow> Inr (stale_res q r ''cascade''))
         | Current \<Rightarrow> admit_fact sha S q f now))"

definition resolve_requirement ::
  "(string \<Rightarrow> string) \<Rightarrow> fact_store \<Rightarrow> string \<Rightarrow> string \<Rightarrow> fact_requirement \<Rightarrow> compile_error + resolution" where
  "resolve_requirement sha S path now q =
     (case resolve_requirement_scope (fq_scope q) path of
        Inl _ \<Rightarrow> Inl NoParentSegment
      | Inr None \<Rightarrow> Inr (unknown_res q ''out_of_scope'')
      | Inr (Some target) \<Rightarrow> resolve_group sha S q (slot_group (candidates_for S q target path)) now)"

section \<open>Compiling a snapshot\<close>

record compile_acc =
  ac_unknowns :: "unknown_slot list"
  ac_conflicts :: "conflict_slot list"
  ac_stale :: "stale_slot list"
  ac_evidence :: "string list"
  ac_admissible :: bool
  ac_refusals :: "string list"

definition empty_acc :: compile_acc where
  "empty_acc = \<lparr>ac_unknowns = [], ac_conflicts = [], ac_stale = [], ac_evidence = [], ac_admissible = True, ac_refusals = []\<rparr>"

definition blocks :: "string \<Rightarrow> bool" where
  "blocks handling \<longleftrightarrow> handling = ''halt'' \<or> handling = ''escalate''"

definition note_handling :: "fact_requirement \<Rightarrow> string \<Rightarrow> compile_acc \<Rightarrow> compile_acc" where
  "note_handling q handling acc =
     (if blocks handling then acc\<lparr>ac_admissible := False,
        ac_refusals := ac_refusals acc @ [fq_fact q @ '' ('' @ fq_scope q @ ''): '' @ handling]\<rparr> else acc)"

definition apply_resolution :: "resolution \<Rightarrow> fact_requirement \<Rightarrow> compile_acc \<Rightarrow> compile_acc \<times> fact_ref option" where
  "apply_resolution res q acc =
     (case res of
        Resolved r \<Rightarrow> (acc\<lparr>ac_evidence := ac_evidence acc @ fr_fact_id r # fr_evidence_ids r\<rparr>, Some r)
      | UnknownFact u \<Rightarrow> (note_handling q (fq_on_missing q) (acc\<lparr>ac_unknowns := ac_unknowns acc @ [u]\<rparr>), None)
      | StaleValue s \<Rightarrow> (note_handling q (fq_on_missing q) (acc\<lparr>ac_stale := ac_stale acc @ [s]\<rparr>), None)
      | ConflictingFact c \<Rightarrow> (note_handling q (fq_on_conflict q) (acc\<lparr>ac_conflicts := ac_conflicts acc @ [c]\<rparr>), None))"

text \<open>The two loops over requirements: the references found, each with its requirement.\<close>

fun resolve_all ::
  "(fact_requirement \<Rightarrow> compile_error + resolution) \<Rightarrow> fact_requirement list \<Rightarrow> compile_acc
     \<Rightarrow> compile_error + compile_acc \<times> (fact_requirement \<times> fact_ref) list" where
  "resolve_all R [] acc = Inr (acc, [])"
| "resolve_all R (q # qs) acc =
     (case R q of Inl e \<Rightarrow> Inl e
      | Inr res \<Rightarrow> (case apply_resolution res q acc of (acc', found) \<Rightarrow>
          (case resolve_all R qs acc' of Inl e \<Rightarrow> Inl e
           | Inr (acc'', rest) \<Rightarrow>
               Inr (acc'', (case found of None \<Rightarrow> rest | Some r \<Rightarrow> (q, r) # rest)))))"

definition bucket_of :: "fact_requirement \<Rightarrow> string" where
  "bucket_of q =
     (case predicate_of (fq_fact q) of None \<Rightarrow> ''job''
      | Some p \<Rightarrow> if ps_scope_type p \<in> {''workload'', ''workflow'', ''job'', ''resource''} then ps_scope_type p else ''job'')"

definition in_bucket :: "string \<Rightarrow> (fact_requirement \<times> fact_ref) list \<Rightarrow> fact_ref list" where
  "in_bucket b found = map snd (filter (\<lambda>(q, r). bucket_of q = b) found)"

definition advisory_facts :: "fact_store \<Rightarrow> fact_requirement \<Rightarrow> string \<Rightarrow> canonical_fact list" where
  "advisory_facts S q target =
     filter (\<lambda>f. cf_epistemic_status f = ''advisory'' \<and> scope_visible target (cf_scope_path f) (predicate_of (fq_fact q)))
       (fs_current S (fq_fact q))"

fun advisory_refs ::
  "fact_store \<Rightarrow> string \<Rightarrow> string \<Rightarrow> fact_requirement list \<Rightarrow> compile_error + fact_ref list" where
  "advisory_refs S path now [] = Inr []"
| "advisory_refs S path now (q # qs) =
     (case resolve_requirement_scope (fq_scope q) path of
        Inl _ \<Rightarrow> Inl NoParentSegment
      | Inr None \<Rightarrow> advisory_refs S path now qs
      | Inr (Some target) \<Rightarrow>
          (case to_fact_refs (advisory_facts S q target) now of Inl e \<Rightarrow> Inl e
           | Inr rs \<Rightarrow> (case advisory_refs S path now qs of Inl e \<Rightarrow> Inl e | Inr rs' \<Rightarrow> Inr (rs @ rs'))))"

section \<open>The snapshot id\<close>

definition unknowns_json :: "unknown_slot list \<Rightarrow> string" where
  "unknowns_json us = json_array (map (\<lambda>u. json_strings [un_predicate u, un_scope u, un_reason u, un_handling u]) us)"

definition conflicts_json :: "conflict_slot list \<Rightarrow> string" where
  "conflicts_json cs = json_array (map (\<lambda>c. json_array [json_string (co_predicate c), json_string (co_scope c),
     json_strings (sort (map fr_fact_id (co_candidates c)))]) cs)"

definition stale_json :: "stale_slot list \<Rightarrow> string" where
  "stale_json ss = json_array (map (\<lambda>s. json_strings [fr_fact_id (sl_fact s), sl_scope s, sl_reason s]) ss)"

definition compute_snapshot_id ::
  "(string \<Rightarrow> string) \<Rightarrow> string \<Rightarrow> string \<Rightarrow> string \<Rightarrow> string list \<Rightarrow> unknown_slot list \<Rightarrow> conflict_slot list
     \<Rightarrow> stale_slot list \<Rightarrow> string" where
  "compute_snapshot_id sha version dtype path ids us cs ss =
     sha (join_with (CHR ''|'') [version, dtype, path, join_with (CHR ''|'') (sort ids),
       unknowns_json us, conflicts_json cs, stale_json ss])"

section \<open>The compiler\<close>

fun join_text :: "string \<Rightarrow> string list \<Rightarrow> string" where
  "join_text sep [] = []"
| "join_text sep [x] = x"
| "join_text sep (x # y # xs) = x @ sep @ join_text sep (y # xs)"

definition snapshot_of ::
  "(string \<Rightarrow> string) \<Rightarrow> contract_spec \<Rightarrow> context_request \<Rightarrow> string \<Rightarrow> compile_acc
     \<Rightarrow> fact_ref list \<Rightarrow> (fact_requirement \<times> fact_ref) list \<Rightarrow> fact_ref list \<Rightarrow> control_context" where
  "snapshot_of sha c rq now acc invs found adv =
     \<lparr>cx_snapshot_id = compute_snapshot_id sha (ct_version c) (ct_decision_type c) (cq_scope_path rq)
        (remdups (ac_evidence acc)) (ac_unknowns acc) (ac_conflicts acc) (ac_stale acc),
      cx_decision_type = ct_decision_type c, cx_contract_version = ct_version c,
      cx_scope_path = cq_scope_path rq, cx_compiled_at = now, cx_invariants = invs,
      cx_objectives = ct_objectives c, cx_workload = in_bucket ''workload'' found,
      cx_workflow = in_bucket ''workflow'' found, cx_job = in_bucket ''job'' found,
      cx_resource = in_bucket ''resource'' found, cx_unknowns = ac_unknowns acc,
      cx_conflicts = ac_conflicts acc, cx_stale = ac_stale acc, cx_advisory = adv,
      cx_evidence_ids = sort (remdups (ac_evidence acc)), cx_admissible = ac_admissible acc,
      cx_refusal = join_text ''; '' (ac_refusals acc)\<rparr>"

definition compile_with ::
  "(string \<Rightarrow> string) \<Rightarrow> fact_store \<Rightarrow> contract_spec \<Rightarrow> fact_requirement list \<Rightarrow> context_request \<Rightarrow> string
     \<Rightarrow> compile_error + control_context" where
  "compile_with sha S c reqs rq now =
     (case resolve_all (resolve_requirement sha S (cq_scope_path rq) now) (ct_invariants c) empty_acc of
        Inl e \<Rightarrow> Inl e
      | Inr (acc, invs) \<Rightarrow>
     (case resolve_all (resolve_requirement sha S (cq_scope_path rq) now) reqs acc of
        Inl e \<Rightarrow> Inl e
      | Inr (acc', found) \<Rightarrow>
     (case advisory_refs S (cq_scope_path rq) now reqs of
        Inl e \<Rightarrow> Inl e
      | Inr adv \<Rightarrow> Inr (snapshot_of sha c rq now acc' (map snd invs) found adv))))"

definition compile_context ::
  "(string \<Rightarrow> string) \<Rightarrow> fact_store \<Rightarrow> contract_spec \<Rightarrow> challenge_profile option \<Rightarrow> context_request \<Rightarrow> string
     \<Rightarrow> compile_error + control_context" where
  "compile_context sha S c ch rq now =
     (if cq_scope_type rq \<noteq> ct_scope c then Inl (ScopeTypeMismatch (ct_scope c) (cq_scope_type rq))
      else case compose_requirements c ch of
        Inl e \<Rightarrow> Inl (ProfileRefused e)
      | Inr reqs \<Rightarrow> compile_with sha S c reqs rq now)"

end
