(* ===== verification/Decision_Validator.thy ===== *)
theory Decision_Validator
  imports Context_Compiler
begin

text \<open>
  The decision record (control/decisions.py) and the control validator (control/validator.py): the
  ten ordered checks C1 to C10 on a proposed decision, the snapshot it was made from, a fresh
  snapshot and the contract. The reason a check gives is a value that carries what the message
  names; a TypeError that escapes the validator is \<open>Inl ()\<close>.
\<close>

section \<open>Decisions\<close>

definition AUTOMATABLE_ACTIONS :: "string list" where
  "AUTOMATABLE_ACTIONS = [''continue'', ''route'']"

definition PROPOSABLE_ACTIONS :: "string list" where
  "PROPOSABLE_ACTIONS =
     [''continue'', ''route'', ''retry'', ''escalate'', ''stop'', ''fork'', ''compress_and_fork'']"

definition PRECONDITION_OPS :: "string list" where
  "PRECONDITION_OPS = [''eq'', ''ne'', ''lt'', ''lte'', ''gt'', ''gte'', ''in'', ''is_true'', ''is_false'']"

record precondition =
  pr_fact :: string
  pr_scope :: string
  pr_op :: string
  pr_value :: pyval
  pr_max_age :: int

record expected_effect =
  ee_predicate :: string
  ee_direction :: string
  ee_magnitude :: "pyfloat option"
  ee_horizon :: string

record control_decision =
  cd_decision_id :: string
  cd_snapshot_id :: string
  cd_decision_type :: string
  cd_contract_version :: string
  cd_action :: string
  cd_target_type :: string
  cd_target_id :: string
  cd_parameters :: pydict
  cd_facts_used :: "string list"
  cd_expected_effect :: "expected_effect list"
  cd_preconditions :: "precondition list"
  cd_proposed_by :: string
  cd_proposed_at :: string
  cd_rationale :: string

section \<open>Comparing a fresh value\<close>

text \<open>\<open>s in v\<close>: a substring, a member or a key; TypeError (\<open>None\<close>) on anything else.\<close>

fun py_in :: "string \<Rightarrow> pyval \<Rightarrow> bool option" where
  "py_in s (PStr t) = Some (contains_str t s)"
| "py_in s (PList xs) = Some (PStr s \<in> set xs)"
| "py_in s (PDict d) = Some (s \<in> fst ` set d)"
| "py_in s _ = None"

definition float_op :: "string \<Rightarrow> pyfloat \<Rightarrow> pyfloat \<Rightarrow> bool" where
  "float_op op a t =
     (if op = ''eq'' then feq a t
      else if op = ''ne'' then \<not> feq a t
      else if op = ''lt'' then flt a t
      else if op = ''lte'' then fle a t
      else if op = ''gt'' then flt t a
      else if op = ''gte'' then fle t a
      else False)"

text \<open>The comparison of the raw text where one side is not a number: an order against a value that
  is not a text raises TypeError.\<close>

definition raw_order :: "(string \<Rightarrow> string \<Rightarrow> bool) \<Rightarrow> string \<Rightarrow> pyval \<Rightarrow> bool option" where
  "raw_order R a t = (case t of PStr s \<Rightarrow> Some (R a s) | _ \<Rightarrow> None)"

definition raw_op :: "string \<Rightarrow> string \<Rightarrow> pyval \<Rightarrow> bool option" where
  "raw_op op a t =
     (if op = ''eq'' then Some (PStr a = t)
      else if op = ''ne'' then Some (PStr a \<noteq> t)
      else if op = ''lt'' then raw_order (<) a t
      else if op = ''lte'' then raw_order (\<le>) a t
      else if op = ''gt'' then raw_order (\<lambda>x y. y < x) a t
      else if op = ''gte'' then raw_order (\<lambda>x y. y \<le> x) a t
      else Some False)"

definition op_holds :: "string \<Rightarrow> string \<Rightarrow> pyval \<Rightarrow> bool option" where
  "op_holds actual op expected =
     (if op = ''is_true'' then Some (actual = ''true'')
      else if op = ''is_false'' then Some (actual = ''false'')
      else if op = ''in'' then py_in actual expected
      else case (py_float actual, float_of expected) of
        (Some a, Some t) \<Rightarrow> Some (float_op op a t)
      | _ \<Rightarrow> raw_op op actual expected)"

section \<open>The ten checks\<close>

datatype refusal_reason = SnapshotMismatch string string | TypeMismatch string string
  | SnapshotInadmissible string
  | ActionNotAllowed string
  | TargetOutOfScope string
  | CitesAdvisory string | CitesUnknown string | CitesNothing string
  | NotReResolved string | ChainBroken string chain_error
  | SnapshotTooOld rat int | NoFreshValue string | PreconditionFailed string
  | ModelNotAllowed pyval | SpendExceeded string string
  | NotAuthorized string string
  | NoDecisionId | NoSnapshotId | NoTarget

type_synonym check_result = "unit + refusal_reason option"

definition all_canonical_refs :: "control_context \<Rightarrow> fact_ref list" where
  "all_canonical_refs s = cx_invariants s @ cx_workload s @ cx_workflow s @ cx_job s @ cx_resource s"

definition c1_snapshot_binding :: "control_decision \<Rightarrow> control_context \<Rightarrow> refusal_reason option" where
  "c1_snapshot_binding d s =
     (if cd_snapshot_id d \<noteq> cx_snapshot_id s then Some (SnapshotMismatch (cd_snapshot_id d) (cx_snapshot_id s))
      else if cd_decision_type d \<noteq> cx_decision_type s then Some (TypeMismatch (cd_decision_type d) (cx_decision_type s))
      else None)"

definition c2_snapshot_admissibility :: "control_context \<Rightarrow> refusal_reason option" where
  "c2_snapshot_admissibility s = (if cx_admissible s then None else Some (SnapshotInadmissible (cx_refusal s)))"

definition c3_action_vocabulary :: "control_decision \<Rightarrow> contract_spec \<Rightarrow> refusal_reason option" where
  "c3_action_vocabulary d c =
     (if cd_action d \<in> set (ct_allowed_actions c) then None else Some (ActionNotAllowed (cd_action d)))"

definition c4_target_scope :: "control_decision \<Rightarrow> control_context \<Rightarrow> refusal_reason option" where
  "c4_target_scope d s =
     (if cd_target_id d \<in> snd ` set (parse_scope_path (cx_scope_path s)) then None
      else Some (TargetOutOfScope (cd_target_id d)))"

fun first_bad_citation :: "string list \<Rightarrow> string list \<Rightarrow> string list \<Rightarrow> refusal_reason option" where
  "first_bad_citation advisory canonical [] = None"
| "first_bad_citation advisory canonical (fid # rest) =
     (if fid \<in> set advisory then Some (CitesAdvisory fid)
      else if fid \<notin> set canonical then Some (CitesUnknown fid)
      else first_bad_citation advisory canonical rest)"

definition c5_facts_citation :: "control_decision \<Rightarrow> control_context \<Rightarrow> refusal_reason option" where
  "c5_facts_citation d s =
     (case first_bad_citation (map fr_fact_id (cx_advisory s)) (map fr_fact_id (all_canonical_refs s)) (cd_facts_used d) of
        Some e \<Rightarrow> Some e
      | None \<Rightarrow> if cd_action d \<noteq> ''continue'' \<and> cd_facts_used d = [] then Some (CitesNothing (cd_action d)) else None)"

text \<open>A dictionary built from a list keeps the last entry of a key.\<close>

definition last_with :: "('a \<Rightarrow> bool) \<Rightarrow> 'a list \<Rightarrow> 'a option" where
  "last_with p xs = List.find p (rev xs)"

definition chain_refusal :: "(string \<Rightarrow> string) \<Rightarrow> fact_store \<Rightarrow> string \<Rightarrow> fact_ref \<Rightarrow> refusal_reason option" where
  "chain_refusal sha S fid ref =
     (case List.find (\<lambda>f. cf_fact_id f = fid) (fs_current S (fr_predicate ref)) of
        None \<Rightarrow> Some (NotReResolved fid)
      | Some f \<Rightarrow> (case verify_chain sha f (Some (fs_resolve S)) of [] \<Rightarrow> None | e # _ \<Rightarrow> Some (ChainBroken fid e)))"

fun chain_refusals :: "(string \<Rightarrow> string) \<Rightarrow> fact_store \<Rightarrow> fact_ref list \<Rightarrow> string list \<Rightarrow> refusal_reason option" where
  "chain_refusals sha S refs [] = None"
| "chain_refusals sha S refs (fid # rest) =
     (case last_with (\<lambda>r. fr_fact_id r = fid) refs of
        None \<Rightarrow> chain_refusals sha S refs rest
      | Some ref \<Rightarrow> (case chain_refusal sha S fid ref of Some e \<Rightarrow> Some e | None \<Rightarrow> chain_refusals sha S refs rest))"

definition c6_derivation_chains ::
  "(string \<Rightarrow> string) \<Rightarrow> control_decision \<Rightarrow> control_context \<Rightarrow> fact_store option \<Rightarrow> refusal_reason option" where
  "c6_derivation_chains sha d s store =
     (case store of None \<Rightarrow> None | Some S \<Rightarrow> chain_refusals sha S (all_canonical_refs s) (cd_facts_used d))"

fun failed_precondition :: "fact_ref list \<Rightarrow> precondition list \<Rightarrow> check_result" where
  "failed_precondition refs [] = Inr None"
| "failed_precondition refs (p # ps) =
     (case last_with (\<lambda>r. fr_predicate r = pr_fact p) refs of
        None \<Rightarrow> Inr (Some (NoFreshValue (pr_fact p)))
      | Some r \<Rightarrow> (case op_holds (fr_value r) (pr_op p) (pr_value p) of
          None \<Rightarrow> Inl ()
        | Some False \<Rightarrow> Inr (Some (PreconditionFailed (pr_fact p)))
        | Some True \<Rightarrow> failed_precondition refs ps))"

definition snapshot_age :: "control_context \<Rightarrow> contract_spec \<Rightarrow> string \<Rightarrow> check_result" where
  "snapshot_age s c now =
     (case (fromisoformat (cx_compiled_at s), fromisoformat now, ct_max_snapshot_age c) of
        (Some compiled, Some cur, Some limit) \<Rightarrow>
          (case dt_diff cur compiled of
             None \<Rightarrow> Inl ()
           | Some us \<Rightarrow> Inr (if limit * 1000000 < us then Some (SnapshotTooOld (of_int us / 1000000) limit) else None))
      | _ \<Rightarrow> Inr None)"

definition c7_freshness_and_preconditions ::
  "control_decision \<Rightarrow> control_context \<Rightarrow> control_context \<Rightarrow> contract_spec \<Rightarrow> string \<Rightarrow> check_result" where
  "c7_freshness_and_preconditions d s fresh c now =
     (case snapshot_age s c now of
        Inr None \<Rightarrow> failed_precondition (all_canonical_refs fresh) (cd_preconditions d)
      | r \<Rightarrow> r)"

definition allowed_list :: "string \<Rightarrow> string list" where
  "allowed_list v = filter (\<lambda>m. m \<noteq> []) (split_on (CHR '','') v)"

definition model_refusal :: "control_decision \<Rightarrow> fact_ref list \<Rightarrow> refusal_reason option" where
  "model_refusal d invs =
     (case last_with (\<lambda>r. fr_predicate r = ''allowed_models'') invs of
        None \<Rightarrow> None
      | Some a \<Rightarrow>
          (if cd_action d = ''route'' \<and> pyget (cd_parameters d) ''model'' \<noteq> PNone \<and> allowed_list (fr_value a) \<noteq> []
              \<and> pyget (cd_parameters d) ''model'' \<notin> PStr ` set (allowed_list (fr_value a))
           then Some (ModelNotAllowed (pyget (cd_parameters d) ''model'')) else None))"

definition spend_refusal :: "control_context \<Rightarrow> refusal_reason option" where
  "spend_refusal s =
     (case (last_with (\<lambda>r. fr_predicate r = ''max_spend_usd'') (cx_invariants s),
            List.find (\<lambda>r. fr_predicate r = ''job_accumulated_cost_usd'') (cx_job s)) of
        (Some m, Some c) \<Rightarrow>
          (case (py_float (fr_value c), py_float (fr_value m)) of
             (Some x, Some y) \<Rightarrow> if flt y x then Some (SpendExceeded (fr_value c) (fr_value m)) else None
           | _ \<Rightarrow> None)
      | _ \<Rightarrow> None)"

definition c8_policy_invariants :: "control_decision \<Rightarrow> control_context \<Rightarrow> refusal_reason option" where
  "c8_policy_invariants d s =
     (case model_refusal d (cx_invariants s) of Some e \<Rightarrow> Some e | None \<Rightarrow> spend_refusal s)"

definition is_operator :: "control_decision \<Rightarrow> bool" where
  "is_operator d \<longleftrightarrow> starts_with (cd_proposed_by d) ''operator:''"

definition c9_actuation_authorization :: "control_decision \<Rightarrow> refusal_reason option" where
  "c9_actuation_authorization d =
     (if cd_action d \<notin> set AUTOMATABLE_ACTIONS \<and> \<not> is_operator d
      then Some (NotAuthorized (cd_action d) (cd_proposed_by d)) else None)"

definition c10_recordability :: "control_decision \<Rightarrow> refusal_reason option" where
  "c10_recordability d =
     (if cd_decision_id d = [] then Some NoDecisionId
      else if cd_snapshot_id d = [] then Some NoSnapshotId
      else if cd_target_type d = [] \<or> cd_target_id d = [] then Some NoTarget
      else None)"

section \<open>The validator\<close>

datatype check_code = C1 | C2 | C3 | C4 | C5 | C6 | C7 | C8 | C9 | C10

datatype validation_result = Admitted | RefusedAt check_code refusal_reason

text \<open>The checks in their order; a check counts only when the ones before it have passed.\<close>

fun run_checks :: "(check_code \<times> check_result) list \<Rightarrow> unit + validation_result" where
  "run_checks [] = Inr Admitted"
| "run_checks ((code, check) # rest) =
     (case check of
        Inl e \<Rightarrow> Inl e
      | Inr (Some reason) \<Rightarrow> Inr (RefusedAt code reason)
      | Inr None \<Rightarrow> run_checks rest)"

definition CHECKS ::
  "(string \<Rightarrow> string) \<Rightarrow> control_decision \<Rightarrow> control_context \<Rightarrow> control_context \<Rightarrow> contract_spec \<Rightarrow> string
     \<Rightarrow> fact_store option \<Rightarrow> (check_code \<times> check_result) list" where
  "CHECKS sha d s fresh c now store =
     [(C1, Inr (c1_snapshot_binding d s)),
      (C2, Inr (c2_snapshot_admissibility s)),
      (C3, Inr (c3_action_vocabulary d c)),
      (C4, Inr (c4_target_scope d s)),
      (C5, Inr (c5_facts_citation d s)),
      (C6, Inr (c6_derivation_chains sha d s store)),
      (C7, c7_freshness_and_preconditions d s fresh c now),
      (C8, Inr (c8_policy_invariants d s)),
      (C9, Inr (c9_actuation_authorization d)),
      (C10, Inr (c10_recordability d))]"

definition validate_decision ::
  "(string \<Rightarrow> string) \<Rightarrow> control_decision \<Rightarrow> control_context \<Rightarrow> control_context \<Rightarrow> contract_spec \<Rightarrow> string
     \<Rightarrow> fact_store option \<Rightarrow> unit + validation_result" where
  "validate_decision sha d s fresh c now store = run_checks (CHECKS sha d s fresh c now store)"

section \<open>Facts\<close>

lemma run_checks_admitted:
  "run_checks cs = Inr Admitted \<longleftrightarrow> (\<forall>c \<in> set cs. snd c = Inr None)"
proof (induction cs rule: run_checks.induct)
  case (2 code check rest)
  then show ?case by (cases "check") (auto split: option.splits)
qed simp

lemma run_checks_refused:
  "run_checks cs = Inr (RefusedAt k e) \<longleftrightarrow>
     (\<exists>pre ch post. cs = pre @ (k, ch) # post \<and> (\<forall>c \<in> set pre. snd c = Inr None) \<and> ch = Inr (Some e))"
proof (induction cs rule: run_checks.induct)
  case (2 code check rest)
  show ?case (is "_ \<longleftrightarrow> (\<exists>pre ch post. ?split pre ch post)")
  proof (cases "check = Inr None")
    case True
    have "(\<exists>pre ch post. ?split pre ch post) \<longleftrightarrow>
        (\<exists>pre ch post. rest = pre @ (k, ch) # post \<and> (\<forall>c \<in> set pre. snd c = Inr None) \<and> ch = Inr (Some e))"
    proof
      assume "\<exists>pre ch post. ?split pre ch post"
      then obtain pre ch post where s: "?split pre ch post" by blast
      with True have "pre \<noteq> []" by auto
      with s show "\<exists>pre ch post. rest = pre @ (k, ch) # post \<and> (\<forall>c \<in> set pre. snd c = Inr None) \<and> ch = Inr (Some e)"
        by (cases pre) auto
    next
      assume "\<exists>pre ch post. rest = pre @ (k, ch) # post \<and> (\<forall>c \<in> set pre. snd c = Inr None) \<and> ch = Inr (Some e)"
      then obtain pre ch post
        where "rest = pre @ (k, ch) # post" "\<forall>c \<in> set pre. snd c = Inr None" "ch = Inr (Some e)" by blast
      with True show "\<exists>pre ch post. ?split pre ch post" by (intro exI [of _ "(code, check) # pre"] exI) auto
    qed
    with True 2 show ?thesis by simp
  next
    case False
    then have "run_checks ((code, check) # rest) = Inr (RefusedAt k e) \<longleftrightarrow> check = Inr (Some e) \<and> code = k"
      by (cases "check") (auto split: option.splits)
    moreover have "(\<exists>pre ch post. ?split pre ch post) \<longleftrightarrow> check = Inr (Some e) \<and> code = k"
    proof
      assume "\<exists>pre ch post. ?split pre ch post"
      then obtain pre ch post where "?split pre ch post" by blast
      with False show "check = Inr (Some e) \<and> code = k" by (cases pre) auto
    next
      assume "check = Inr (Some e) \<and> code = k"
      then show "\<exists>pre ch post. ?split pre ch post"
        by (intro exI [of _ "[]"]) auto
    qed
    ultimately show ?thesis by simp
  qed
qed simp

lemma admitted_checks:
  "validate_decision sha d s fresh c now store = Inr Admitted \<longleftrightarrow>
     c1_snapshot_binding d s = None \<and> c2_snapshot_admissibility s = None \<and> c3_action_vocabulary d c = None
     \<and> c4_target_scope d s = None \<and> c5_facts_citation d s = None \<and> c6_derivation_chains sha d s store = None
     \<and> c7_freshness_and_preconditions d s fresh c now = Inr None \<and> c8_policy_invariants d s = None
     \<and> c9_actuation_authorization d = None \<and> c10_recordability d = None"
  by (simp del: run_checks.simps add: validate_decision_def run_checks_admitted CHECKS_def)

lemma citations_ok:
  "first_bad_citation adv can fids = None \<longleftrightarrow> set fids \<inter> set adv = {} \<and> set fids \<subseteq> set can"
  by (induction adv can fids rule: first_bad_citation.induct) auto

lemma last_withD: "last_with p xs = Some x \<Longrightarrow> x \<in> set xs \<and> p x"
  unfolding last_with_def by (auto dest: find_SomeD)

lemma last_with_None: "last_with p xs = None \<longleftrightarrow> (\<forall>x \<in> set xs. \<not> p x)"
  unfolding last_with_def by (auto simp: find_None_iff)

end
