(* ===== verification/Control_Rules.thy ===== *)
theory Control_Rules
  imports Decision_Validator
begin

text \<open>
  The control rules and their seams (control/rules.py): \<open>route_next_job_v1\<close>, \<open>session_routing_v1\<close>,
  the decision that the shadow router records and the applying router, the only function that can
  change what a phase runs with. The model that \<open>route_step\<close> chose is an argument. What the code
  reads between the steps (the clock, the contract file, the fact store) may change from one read to
  the next, so every read is an argument of its own. The verdict that the routers append to the
  rationale is left out: the rationale is documented as never load-bearing.
\<close>

definition find_ref :: "fact_ref list \<Rightarrow> string \<Rightarrow> fact_ref option" where
  "find_ref refs p = List.find (\<lambda>r. fr_predicate r = p) refs"

definition decision_id :: "(string \<Rightarrow> string) \<Rightarrow> string \<Rightarrow> string \<Rightarrow> string \<Rightarrow> string \<Rightarrow> string" where
  "decision_id sha snap action target at_time = take 16 (sha (join_with (CHR ''|'') [snap, action, target, at_time]))"

text \<open>The fields every proposal of a rule shares.\<close>

definition base_decision ::
  "(string \<Rightarrow> string) \<Rightarrow> control_context \<Rightarrow> string \<Rightarrow> string \<Rightarrow> string \<Rightarrow> string \<Rightarrow> string \<Rightarrow> control_decision" where
  "base_decision sha ctx action ttype target proposed by =
     \<lparr>cd_decision_id = decision_id sha (cx_snapshot_id ctx) action target proposed,
      cd_snapshot_id = cx_snapshot_id ctx, cd_decision_type = cx_decision_type ctx,
      cd_contract_version = cx_contract_version ctx, cd_action = action, cd_target_type = ttype,
      cd_target_id = target, cd_parameters = [], cd_facts_used = [], cd_expected_effect = [],
      cd_preconditions = [], cd_proposed_by = by, cd_proposed_at = proposed, cd_rationale = []\<rparr>"

definition ids_of :: "fact_ref option list \<Rightarrow> string list" where
  "ids_of rs = concat (map (\<lambda>r. case r of None \<Rightarrow> [] | Some f \<Rightarrow> [fr_fact_id f]) rs)"

section \<open>Routing the next job\<close>

definition route_effects :: "expected_effect list" where
  "route_effects =
     [\<lparr>ee_predicate = ''workflow_phases_remaining'', ee_direction = ''decrease'', ee_magnitude = Some (Fin 1),
       ee_horizon = ''next_phase''\<rparr>,
      \<lparr>ee_predicate = ''job_accumulated_cost_usd'', ee_direction = ''increase'', ee_magnitude = None,
       ee_horizon = ''next_phase''\<rparr>]"

definition route_preconditions :: "precondition list" where
  "route_preconditions =
     [\<lparr>pr_fact = ''workflow_phases_remaining'', pr_scope = ''parent'', pr_op = ''gt'', pr_value = PInt 0, pr_max_age = 600\<rparr>]"

text \<open>\<open>sorted(m for m in allowed.value.split(",") if m)\<close>\<close>

definition routable_models :: "fact_ref \<Rightarrow> string list" where
  "routable_models allowed = sort (allowed_list (fr_value allowed))"

definition route_to ::
  "(string \<Rightarrow> string) \<Rightarrow> control_context \<Rightarrow> string \<Rightarrow> string \<Rightarrow> string \<Rightarrow> string
     \<Rightarrow> fact_ref \<Rightarrow> fact_ref \<Rightarrow> string \<Rightarrow> control_decision" where
  "route_to sha ctx ttype target proposed by remaining allowed chosen =
     (base_decision sha ctx ''route'' ttype target proposed by)
       \<lparr>cd_parameters := [(''model'', PStr chosen)],
        cd_facts_used := ids_of [Some remaining, Some allowed, find_ref (cx_job ctx) ''job_accumulated_cost_usd''],
        cd_expected_effect := route_effects, cd_preconditions := route_preconditions,
        cd_rationale := fr_value remaining @ '' phase(s) remaining; routed to '' @ chosen
          @ '' (lexicographically first of '' @ py_repr (PList (map PStr (routable_models allowed))) @ '')''\<rparr>"

definition route_next_job_v1 ::
  "(string \<Rightarrow> string) \<Rightarrow> control_context \<Rightarrow> string \<Rightarrow> string \<Rightarrow> string \<Rightarrow> string \<Rightarrow> control_decision" where
  "route_next_job_v1 sha ctx ttype target proposed by =
     (if \<not> cx_admissible ctx then
        (base_decision sha ctx ''continue'' ttype target proposed by)
          \<lparr>cd_rationale := ''snapshot inadmissible: '' @ cx_refusal ctx\<rparr>
      else case (find_ref (cx_workflow ctx) ''workflow_phases_remaining'', find_ref (cx_invariants ctx) ''allowed_models'') of
        (Some remaining, Some allowed) \<Rightarrow>
          (if fr_value remaining = ''0'' then
             (base_decision sha ctx ''continue'' ttype target proposed by)
               \<lparr>cd_facts_used := [fr_fact_id remaining, fr_fact_id allowed], cd_rationale := ''no phases remaining''\<rparr>
           else case routable_models allowed of
             [] \<Rightarrow> (base_decision sha ctx ''continue'' ttype target proposed by)
                 \<lparr>cd_facts_used := [fr_fact_id remaining, fr_fact_id allowed],
                  cd_rationale := ''allowed_models invariant is empty''\<rparr>
           | chosen # _ \<Rightarrow> route_to sha ctx ttype target proposed by remaining allowed chosen)
      | (rem, all) \<Rightarrow>
          (base_decision sha ctx ''continue'' ttype target proposed by)
            \<lparr>cd_facts_used := ids_of [rem, all],
             cd_rationale := (if map_option fr_value rem = Some ''0'' then ''no phases remaining''
               else ''workflow_phases_remaining or allowed_models unresolved'')\<rparr>)"

section \<open>Session routing\<close>

definition marker_precondition :: "string \<Rightarrow> precondition" where
  "marker_precondition m = \<lparr>pr_fact = m, pr_scope = ''self'', pr_op = ''is_true'', pr_value = PStr ''true'', pr_max_age = 600\<rparr>"

definition unchanged_markers :: "string list" where
  "unchanged_markers = [''checkpoint_goal_unchanged'', ''checkpoint_phase_unchanged'', ''checkpoint_model_unchanged'']"

definition session_routing_v1 ::
  "(string \<Rightarrow> string) \<Rightarrow> control_context \<Rightarrow> string \<Rightarrow> string \<Rightarrow> string \<Rightarrow> string \<Rightarrow> control_decision" where
  "session_routing_v1 sha ctx ttype target proposed by =
     (if \<not> cx_admissible ctx then
        (base_decision sha ctx ''continue'' ttype target proposed by)
          \<lparr>cd_rationale := ''snapshot inadmissible: '' @ cx_refusal ctx\<rparr>
      else case find_ref (cx_job ctx) ''checkpoint_present'' of
        None \<Rightarrow> (base_decision sha ctx ''continue'' ttype target proposed by)
          \<lparr>cd_rationale := ''no checkpoint present''\<rparr>
      | Some present \<Rightarrow>
        (case (find_ref (cx_job ctx) ''checkpoint_goal_unchanged'', find_ref (cx_job ctx) ''checkpoint_phase_unchanged'',
               find_ref (cx_job ctx) ''checkpoint_model_unchanged'') of
           (Some goal, Some phase, Some model) \<Rightarrow>
             (base_decision sha ctx ''continue'' ttype target proposed by)
               \<lparr>cd_facts_used := map fr_fact_id [present, goal, phase, model],
                cd_preconditions := map marker_precondition unchanged_markers,
                cd_rationale := ''checkpoint present and goal/phase/model provably unchanged''\<rparr>
         | _ \<Rightarrow>
           (case find_ref (cx_job ctx) ''model_change_required'' of
              Some change \<Rightarrow>
                (base_decision sha ctx ''escalate'' ttype target proposed by)
                  \<lparr>cd_facts_used := map fr_fact_id [present, change],
                   cd_rationale := ''checkpoint present and a model change is evidenced''\<rparr>
            | None \<Rightarrow>
                (base_decision sha ctx ''fork'' ttype target proposed by)
                  \<lparr>cd_facts_used := [fr_fact_id present],
                   cd_rationale := ''checkpoint present but goal/phase/model did not all verify unchanged''\<rparr>)))"

section \<open>The recorded body\<close>

definition effect_payload :: "expected_effect \<Rightarrow> pyval" where
  "effect_payload e = PDict [(''predicate'', PStr (ee_predicate e)), (''direction'', PStr (ee_direction e)),
     (''magnitude'', case ee_magnitude e of None \<Rightarrow> PNone | Some m \<Rightarrow> PFloat m), (''horizon'', PStr (ee_horizon e))]"

definition precondition_payload :: "precondition \<Rightarrow> pyval" where
  "precondition_payload p = PDict [(''fact'', PStr (pr_fact p)), (''scope'', PStr (pr_scope p)), (''op'', PStr (pr_op p)),
     (''value'', pr_value p), (''max_age_seconds'', PInt (pr_max_age p))]"

definition decision_payload :: "control_decision \<Rightarrow> pydict" where
  "decision_payload d =
     [(''decision_id'', PStr (cd_decision_id d)), (''snapshot_id'', PStr (cd_snapshot_id d)),
      (''decision_type'', PStr (cd_decision_type d)), (''contract_version'', PStr (cd_contract_version d)),
      (''action'', PStr (cd_action d)), (''target_type'', PStr (cd_target_type d)),
      (''target_id'', PStr (cd_target_id d)), (''parameters'', PDict (cd_parameters d)),
      (''facts_used'', PList (map PStr (cd_facts_used d))),
      (''expected_effect'', PList (map effect_payload (cd_expected_effect d))),
      (''preconditions'', PList (map precondition_payload (cd_preconditions d))),
      (''proposed_by'', PStr (cd_proposed_by d)), (''proposed_at'', PStr (cd_proposed_at d)),
      (''rationale'', PStr (cd_rationale d))]"

section \<open>The routers\<close>

definition job_scope_path :: "string \<Rightarrow> string \<Rightarrow> string \<Rightarrow> string" where
  "job_scope_path repo workload cell = ''org:'' @ repo @ ''/workload:'' @ workload @ ''/job:'' @ cell"

definition route_request :: "string \<Rightarrow> string \<Rightarrow> string \<Rightarrow> context_request" where
  "route_request repo workload cell =
     \<lparr>cq_decision_type = ''route_next_job'', cq_scope_type = ''job'', cq_scope_id = cell,
      cq_scope_path = job_scope_path repo workload cell, cq_repository_id = repo\<rparr>"

text \<open>
  One read of the outside world: the clock, the contract as \<open>load_contract\<close> returns it (\<open>None\<close>
  where it raises) and the fact store.
\<close>

record reading =
  rd_now :: string
  rd_contract :: "contract_spec option"
  rd_store :: fact_store

definition compile_reading ::
  "(string \<Rightarrow> string) \<Rightarrow> string \<Rightarrow> string \<Rightarrow> string \<Rightarrow> reading \<Rightarrow> control_context option" where
  "compile_reading sha repo workload cell rd =
     (case rd_contract rd of None \<Rightarrow> None
      | Some c \<Rightarrow> (case compile_context sha (rd_store rd) c None (route_request repo workload cell) (rd_now rd) of
          Inl _ \<Rightarrow> None | Inr ctx \<Rightarrow> Some ctx))"

definition with_baseline :: "string \<Rightarrow> control_decision \<Rightarrow> control_decision" where
  "with_baseline model d = d\<lparr>cd_parameters := dict_merge (cd_parameters d)
     [(''baseline_action'', PStr ''route''), (''baseline_model'', PStr model)]\<rparr>"

text \<open>The recorder stamps a decision that carries no \<open>applied\<close> as not applied.\<close>

definition shadow_stamp :: "control_decision \<Rightarrow> control_decision" where
  "shadow_stamp d = (if ''applied'' \<in> fst ` set (cd_parameters d) then d
     else d\<lparr>cd_parameters := dict_put ''applied'' (PBool False) (cd_parameters d)\<rparr>)"

text \<open>
  The shadow router returns \<open>route_step\<close>'s model whatever happens; second is the decision it hands
  to the recorder with the verdict on it, if it gets that far. The contract was loaded when the
  router was built; the same clock reading serves the whole call.
\<close>

definition shadow_decision ::
  "(string \<Rightarrow> string) \<Rightarrow> contract_spec option \<Rightarrow> string \<Rightarrow> string \<Rightarrow> string \<Rightarrow> string \<Rightarrow> bool \<Rightarrow> reading
     \<Rightarrow> (control_decision \<times> validation_result) option" where
  "shadow_decision sha loaded repo workload cell model snapshot_recorded rd =
     (case compile_reading sha repo workload cell rd of None \<Rightarrow> None
      | Some ctx \<Rightarrow>
        (case loaded of None \<Rightarrow> None
         | Some c \<Rightarrow>
           if \<not> snapshot_recorded then None
           else let d = with_baseline model (route_next_job_v1 sha ctx ''job'' cell (rd_now rd) ''policy_rule:route_next_job'')
             in (case validate_decision sha d ctx ctx c (rd_now rd) (Some (rd_store rd)) of
                   Inl _ \<Rightarrow> None
                 | Inr v \<Rightarrow> Some (shadow_stamp d, v))))"

definition shadow_router ::
  "(string \<Rightarrow> string) \<Rightarrow> contract_spec option \<Rightarrow> string \<Rightarrow> string \<Rightarrow> string \<Rightarrow> bool \<Rightarrow> string \<Rightarrow> bool \<Rightarrow> reading
     \<Rightarrow> string \<times> (control_decision \<times> validation_result) option" where
  "shadow_router sha loaded repo workload cell rec model snapshot_recorded rd =
     (model, if rec then shadow_decision sha loaded repo workload cell model snapshot_recorded rd else None)"

text \<open>
  The applying router: the first compile, the clock of the proposal, the fresh compile and the
  reading at validation time. \<open>None\<close> is an exception of the plane, on which the baseline is used.
\<close>

definition proposed_route ::
  "(string \<Rightarrow> string) \<Rightarrow> string \<Rightarrow> string \<Rightarrow> string \<Rightarrow> reading \<Rightarrow> string
     \<Rightarrow> (control_context \<times> control_decision) option" where
  "proposed_route sha repo workload cell rd1 at_time =
     (case compile_reading sha repo workload cell rd1 of None \<Rightarrow> None
      | Some ctx \<Rightarrow> Some (ctx, route_next_job_v1 sha ctx ''job'' cell at_time ''policy_rule:route_next_job''))"

definition model_parameter :: "control_decision \<Rightarrow> string \<Rightarrow> pyval" where
  "model_parameter d baseline =
     (case map_of (cd_parameters d) ''model'' of None \<Rightarrow> PStr baseline | Some v \<Rightarrow> v)"

text \<open>The decision as the recorder is handed it (when recording is on and the snapshot was recorded):
  the baseline and whether the route was applied are stamped on it.\<close>

definition stamped_decision :: "control_decision \<Rightarrow> string \<Rightarrow> bool \<Rightarrow> control_decision" where
  "stamped_decision d baseline applied = d\<lparr>cd_parameters := dict_merge (cd_parameters d)
     [(''baseline_action'', PStr ''route''), (''baseline_model'', PStr baseline), (''applied'', PBool applied)]\<rparr>"

definition applied_route ::
  "(string \<Rightarrow> string) \<Rightarrow> contract_spec option \<Rightarrow> string \<Rightarrow> string \<Rightarrow> string \<Rightarrow> string
     \<Rightarrow> reading \<Rightarrow> string \<Rightarrow> reading \<Rightarrow> reading \<Rightarrow> (pyval \<times> control_decision) option" where
  "applied_route sha loaded repo workload cell baseline rd1 at_time rd2 rd3 =
     (case proposed_route sha repo workload cell rd1 at_time of None \<Rightarrow> None
      | Some (ctx, d) \<Rightarrow>
        (case loaded of None \<Rightarrow> Some (PStr baseline, stamped_decision d baseline False)
         | Some c \<Rightarrow>
           (case compile_reading sha repo workload cell rd2 of None \<Rightarrow> None
            | Some fresh \<Rightarrow>
              (case validate_decision sha d ctx fresh c (rd_now rd3) (Some (rd_store rd3)) of
                 Inl _ \<Rightarrow> None
               | Inr v \<Rightarrow>
                   if v = Admitted \<and> cd_action d \<in> set AUTOMATABLE_ACTIONS \<and> cd_action d = ''route''
                   then Some (model_parameter d baseline, stamped_decision d baseline True)
                   else Some (PStr baseline, stamped_decision d baseline False)))))"

definition applying_router ::
  "(string \<Rightarrow> string) \<Rightarrow> contract_spec option \<Rightarrow> string \<Rightarrow> string \<Rightarrow> string \<Rightarrow> string
     \<Rightarrow> reading \<Rightarrow> string \<Rightarrow> reading \<Rightarrow> reading \<Rightarrow> pyval \<times> control_decision option" where
  "applying_router sha loaded repo workload cell baseline rd1 at_time rd2 rd3 =
     (case applied_route sha loaded repo workload cell baseline rd1 at_time rd2 rd3 of
        None \<Rightarrow> (PStr baseline, None) | Some (m, d) \<Rightarrow> (m, Some d))"

end
