(* ===== verification/Context_Facts.thy ===== *)
theory Context_Facts
  imports Decision_Validator
begin

text \<open>
  What the context compiler guarantees: where a citable reference of a snapshot comes from, when a
  snapshot is admissible, and that composing a profile into a contract does not make a snapshot
  admissible that the contract alone would halt on, apart from one rank the code has wrong.
\<close>

section \<open>Composition\<close>

definition age_tightens :: "int option \<Rightarrow> int option \<Rightarrow> bool" where
  "age_tightens a b \<longleftrightarrow> (\<forall>x. a = Some x \<longrightarrow> (\<exists>y. b = Some y \<and> y \<le> x))"

text \<open>\<open>t\<close> asks at least what \<open>q\<close> asks, in the ranks of the code.\<close>

definition tightens :: "fact_requirement \<Rightarrow> fact_requirement \<Rightarrow> bool" where
  "tightens q t \<longleftrightarrow> fq_fact t = fq_fact q \<and> fq_scope t = fq_scope q \<and> age_tightens (fq_max_age q) (fq_max_age t)
     \<and> (fq_min_authority t = fq_min_authority q
        \<or> rank_in MIN_AUTHORITY_RANK (fq_min_authority q) < rank_in MIN_AUTHORITY_RANK (fq_min_authority t))
     \<and> rank_in ON_MISSING_STRICTNESS (fq_on_missing q) \<le> rank_in ON_MISSING_STRICTNESS (fq_on_missing t)
     \<and> rank_in ON_CONFLICT_STRICTNESS (fq_on_conflict q) \<le> rank_in ON_CONFLICT_STRICTNESS (fq_on_conflict t)"

lemma tightens_refl [simp]: "tightens q q"
  by (simp add: tightens_def age_tightens_def)

lemma tightens_self: "q \<in> S \<Longrightarrow> \<exists>t \<in> S. tightens q t"
  using tightens_refl by blast

lemma age_tightens_trans: "age_tightens a b \<Longrightarrow> age_tightens b c \<Longrightarrow> age_tightens a c"
  unfolding age_tightens_def by (metis order_trans)

lemma tightens_trans: "tightens a b \<Longrightarrow> tightens b c \<Longrightarrow> tightens a c"
  by (auto simp: tightens_def intro: age_tightens_trans)

lemma min_age_tightens: "age_tightens a (min_age a b)"
  by (auto simp: age_tightens_def min_age_def split: option.splits)

lemma rank_stricter: "rank_in T a \<le> rank_in T (stricter T a b)"
  by (simp add: stricter_def)

lemma tighten_tightens: "tighten e a = Inr t \<Longrightarrow> tightens e t"
  by (auto simp: tighten_def tightens_def min_age_tightens rank_stricter stricter_def split: if_splits)

lemma tighten_key: "tighten e a = Inr t \<Longrightarrow> fq_fact t = fq_fact e"
  by (auto simp: tighten_def split: if_splits)

definition keyed :: "fact_requirement list \<Rightarrow> bool" where
  "keyed m \<longleftrightarrow> distinct (map fq_fact m)"

lemma put_req_facts: "fq_fact ` set (put_req r m) = insert (fq_fact r) (fq_fact ` set m)"
  by (induction r m rule: put_req.induct) auto

lemma put_req_keyed: "keyed m \<Longrightarrow> keyed (put_req r m)"
proof (induction r m rule: put_req.induct)
  case (2 r x xs)
  then show ?case using put_req_facts [of r xs] by (auto simp: keyed_def)
qed (simp add: keyed_def)

lemma set_put_req: "keyed m \<Longrightarrow> set (put_req r m) = insert r {x \<in> set m. fq_fact x \<noteq> fq_fact r}"
proof (induction r m rule: put_req.induct)
  case (2 r x xs)
  then have k: "keyed xs" "fq_fact x \<notin> fq_fact ` set xs" by (auto simp: keyed_def)
  show ?case
  proof (cases "fq_fact x = fq_fact r")
    case True
    with k(2) have "{y \<in> set (x # xs). fq_fact y \<noteq> fq_fact r} = set xs" by (auto simp: image_iff)
    with True show ?thesis by simp
  next
    case False
    with 2 k show ?thesis by auto
  qed
qed simp

lemma put_req_new: "fq_fact r \<notin> fq_fact ` set m \<Longrightarrow> put_req r m = m @ [r]"
  by (induction r m rule: put_req.induct) auto

lemma keyed_by_fact_id: "distinct (map fq_fact rs) \<Longrightarrow> keyed_by_fact rs = rs"
proof (induction rs rule: rev_induct)
  case (snoc r rs)
  then show ?case by (simp add: keyed_by_fact_def put_req_new)
qed (simp add: keyed_by_fact_def)

lemma keyed_keyed_by_fact: "keyed (keyed_by_fact rs)"
  unfolding keyed_by_fact_def
  by (induction rs rule: rev_induct) (auto simp: put_req_keyed, simp add: keyed_def)

lemma req_forD: "req_for p m = Some e \<Longrightarrow> e \<in> set m \<and> fq_fact e = p"
  unfolding req_for_def by (auto dest: find_SomeD)

lemma req_for_None: "req_for p m = None \<longleftrightarrow> p \<notin> fq_fact ` set m"
  unfolding req_for_def by (auto simp: find_None_iff)

text \<open>What one merge does: every requirement that was there is still there, maybe tightened, and
  what is new is not excluded and uses the closed vocabularies.\<close>

lemma merge_one_ok:
  assumes "merge_one ex r m = Inr m'" "keyed m"
  shows "keyed m'" "\<forall>q \<in> set m. \<exists>t \<in> set m'. tightens q t"
    "\<forall>t \<in> set m'. t \<in> set m \<or> (fq_fact t \<notin> set ex \<and> (\<exists>e \<in> set m. tighten e r = Inr t) \<or> t = r)"
    "fq_fact r \<notin> set ex" "validate_context_requirement r = None"
proof -
  show ex: "fq_fact r \<notin> set ex" and v: "validate_context_requirement r = None"
    using assms(1) by (auto simp: merge_one_def split: if_splits option.splits)
  have *: "keyed m' \<and> (\<forall>q \<in> set m. \<exists>t \<in> set m'. tightens q t)
    \<and> (\<forall>t \<in> set m'. t \<in> set m \<or> (fq_fact t \<notin> set ex \<and> (\<exists>e \<in> set m. tighten e r = Inr t) \<or> t = r))"
  proof (cases "req_for (fq_fact r) m")
    case None
    then have "m' = m @ [r]" using assms ex v None by (simp add: merge_one_def put_req_new req_for_None)
    with None assms(2) show ?thesis by (auto simp: keyed_def req_for_None intro: tightens_self)
  next
    case (Some e)
    then obtain t where t: "tighten e r = Inr t" "m' = put_req t m"
      using assms ex v by (auto simp: merge_one_def split: sum.splits)
    have e: "e \<in> set m" "fq_fact e = fq_fact r" using Some req_forD by auto
    have tf: "fq_fact t = fq_fact r" using tighten_key t e by simp
    have uniq: "q = e" if "q \<in> set m" "fq_fact q = fq_fact t" for q
      using that e tf assms(2) by (metis keyed_def distinct_map inj_onD)
    have sm: "set m' = insert t {x \<in> set m. fq_fact x \<noteq> fq_fact t}" using t set_put_req assms(2) by simp
    have "\<exists>t' \<in> set m'. tightens q t'" if "q \<in> set m" for q
    proof (cases "fq_fact q = fq_fact t")
      case True
      then have "tightens q t" using uniq that tighten_tightens t by blast
      with sm show ?thesis by blast
    next
      case False
      with that sm have "q \<in> set m'" by blast
      then show ?thesis using tightens_refl by blast
    qed
    moreover have "keyed m'" using t assms(2) put_req_keyed by simp
    moreover have "\<forall>t' \<in> set m'. t' \<in> set m \<or> (fq_fact t' \<notin> set ex \<and> (\<exists>e \<in> set m. tighten e r = Inr t') \<or> t' = r)"
      using sm t e tf ex by auto
    ultimately show ?thesis by blast
  qed
  then show "keyed m'" "\<forall>q \<in> set m. \<exists>t \<in> set m'. tightens q t"
    "\<forall>t \<in> set m'. t \<in> set m \<or> (fq_fact t \<notin> set ex \<and> (\<exists>e \<in> set m. tighten e r = Inr t) \<or> t = r)" by auto
qed

lemma merge_all_tightens:
  "merge_all ex rs m = Inr m' \<Longrightarrow> keyed m \<Longrightarrow> \<forall>q \<in> set m. \<exists>t \<in> set m'. tightens q t"
proof (induction ex rs m rule: merge_all.induct)
  case (1 ex m)
  then show ?case by (auto intro: tightens_self)
next
  case (2 ex r rs m)
  then obtain m1 where m1: "merge_one ex r m = Inr m1" "merge_all ex rs m1 = Inr m'" by (auto split: sum.splits)
  note step = merge_one_ok [OF m1(1) 2(3)]
  from 2(1) [OF m1(1,2) step(1)] step(2) show ?case by (meson tightens_trans)
qed

definition advisory_free :: "fact_requirement \<Rightarrow> bool" where
  "advisory_free q \<longleftrightarrow> fq_min_authority q \<noteq> ''ADVISORY''"

lemma validated_advisory_free: "validate_context_requirement r = None \<Longrightarrow> advisory_free r"
  by (auto simp: validate_context_requirement_def advisory_free_def MIN_AUTHORITY_LEVELS_def split: if_splits)

lemma tighten_advisory_free: "tighten e a = Inr t \<Longrightarrow> advisory_free e \<Longrightarrow> advisory_free a \<Longrightarrow> advisory_free t"
  by (auto simp: tighten_def advisory_free_def stricter_def split: if_splits)

lemma merge_all_advisory_free:
  "merge_all ex rs m = Inr m' \<Longrightarrow> keyed m \<Longrightarrow> \<forall>q \<in> set m. advisory_free q \<Longrightarrow> \<forall>t \<in> set m'. advisory_free t"
proof (induction ex rs m rule: merge_all.induct)
  case (2 ex r rs m)
  then obtain m1 where m1: "merge_one ex r m = Inr m1" "merge_all ex rs m1 = Inr m'" by (auto split: sum.splits)
  note step = merge_one_ok [OF m1(1) 2(3)]
  have "\<forall>t \<in> set m1. advisory_free t"
    using step(3,5) 2(4) validated_advisory_free tighten_advisory_free by blast
  with 2(1) [OF m1(1,2) step(1)] show ?case by blast
qed simp

lemma put_req_subset: "set (put_req r m) \<subseteq> insert r (set m)"
  by (induction r m rule: put_req.induct) auto

lemma keyed_by_fact_subset: "set (keyed_by_fact rs) \<subseteq> set rs"
  unfolding keyed_by_fact_def
  by (induction rs rule: rev_induct) (use put_req_subset in fastforce)+

lemma composed_advisory_free:
  assumes "compose_requirements c ch = Inr reqs" "\<forall>q \<in> set (ct_requires c). advisory_free q"
  shows "\<forall>q \<in> set reqs. advisory_free q"
  using assms merge_all_advisory_free keyed_keyed_by_fact keyed_by_fact_subset
  by (fastforce simp: compose_requirements_def split: option.splits)

lemma composed_tightens:
  assumes "compose_requirements c ch = Inr reqs" "distinct (map fq_fact (ct_requires c))"
  shows "\<forall>q \<in> set (ct_requires c). \<exists>t \<in> set reqs. tightens q t"
proof (cases ch)
  case None
  with assms show ?thesis by (auto simp: compose_requirements_def keyed_by_fact_id intro: tightens_self)
next
  case (Some p)
  with assms show ?thesis
    by (intro merge_all_tightens [of "ct_excludes c" "ch_requirements p"])
       (auto simp: compose_requirements_def keyed_by_fact_id keyed_def)
qed

text \<open>The ranks against what they stand for.\<close>

lemma blocks_missing: "blocks h \<longleftrightarrow> 0 < rank_in ON_MISSING_STRICTNESS h"
  by (auto simp: blocks_def rank_in_def ON_MISSING_STRICTNESS_def)

lemma blocks_conflict: "blocks h \<longleftrightarrow> 2 \<le> rank_in ON_CONFLICT_STRICTNESS h"
  by (auto simp: blocks_def rank_in_def ON_CONFLICT_STRICTNESS_def)

lemma authority_of_name_cases:
  "authority_of_name s = (if s = ''ADVISORY'' then Some ADVISORY else if s = ''DERIVED'' then Some DERIVED
     else if s = ''MEASURED'' then Some MEASURED else if s = ''SOURCE'' then Some SOURCE
     else if s = ''POLICY'' then Some POLICY else None)"
  by (auto simp: authority_of_name_def)

lemma min_authority_tightens:
  assumes "tightens q t" "fq_min_authority q \<noteq> ''SOURCE''"
  shows "min_authority_of (fq_min_authority q) \<le> min_authority_of (fq_min_authority t)"
  using assms
  by (auto simp: tightens_def min_authority_of_def authority_of_name_cases rank_in_def MIN_AUTHORITY_RANK_def
      authority_order split: if_splits)

section \<open>Resolution\<close>

lemma newest_mem: "newest f fs \<in> set (f # fs)"
proof -
  have "foldl (\<lambda>m x. if cf_observed_at m < cf_observed_at x then x else m) f fs \<in> insert f (set fs)"
    by (induction fs rule: rev_induct) auto
  then show ?thesis by (simp add: newest_def)
qed

lemma candidates_current: "set (candidates_for S q target path) \<subseteq> set (fs_current S (fq_fact q))"
proof (cases "visible_facts S (fq_fact q) target = []")
  case True
  have sub: "set (descendants_of S (fq_fact q) path) \<subseteq> set (fs_current S (fq_fact q))" by (auto simp: descendants_of_def)
  show ?thesis
  proof (cases "descendants_of S (fq_fact q) path")
    case Nil
    with True have "candidates_for S q target path = []"
      by (simp only: candidates_for_def list.case if_cancel)
    then show ?thesis by simp
  next
    case (Cons f fs)
    then have new: "newest f fs \<in> set (fs_current S (fq_fact q))" using newest_mem [of f fs] sub by auto
    have "candidates_for S q target path = (if fq_scope q = ''self'' then [newest f fs] else [])"
      by (simp only: candidates_for_def list.case True Cons)
    with new show ?thesis by (cases "fq_scope q = ''self''") simp_all
  qed
next
  case False
  then have "candidates_for S q target path = visible_facts S (fq_fact q) target"
    by (simp add: candidates_for_def split: list.splits)
  then show ?thesis by (auto simp: visible_facts_def)
qed

lemma slot_group_subset: "set (slot_group fs) \<subseteq> set fs"
  by (auto simp: slot_group_def split: list.splits)

lemma to_fact_ref_ok: "to_fact_ref f now = Inr r \<Longrightarrow> r = ref_with_age f (fr_age r)"
  by (auto simp: to_fact_ref_def ref_with_age_def split: sum.splits)

lemma ref_with_age_simps [simp]:
  "fr_fact_id (ref_with_age f a) = cf_fact_id f" "fr_predicate (ref_with_age f a) = cf_predicate f"
  "fr_value (ref_with_age f a) = cf_value f" "fr_age (ref_with_age f a) = a"
  by (simp_all add: ref_with_age_def)

lemma admit_fact_resolved:
  "admit_fact sha S q f now = Inr (Resolved r) \<longleftrightarrow>
     verify_chain sha f (Some (fs_resolve S)) = [] \<and> min_authority_of (fq_min_authority q) \<le> cf_authority f
     \<and> to_fact_ref f now = Inr r \<and> \<not> too_old (fq_max_age q) (fr_age r)"
  by (auto simp: admit_fact_def unknown_res_def stale_res_def split: sum.splits if_splits)

lemma resolve_group_resolved:
  "resolve_group sha S q grp now = Inr (Resolved r) \<longleftrightarrow>
     (\<exists>f rest. grp = f # rest \<and> fact_state f now (fs_resolve S) (Some (fs_versions S)) = Current
        \<and> admit_fact sha S q f now = Inr (Resolved r))"
  by (cases grp) (auto simp: resolve_group_def unknown_res_def stale_res_def split: fact_status.splits sum.splits)

definition res_blocks :: "fact_requirement \<Rightarrow> resolution \<Rightarrow> bool" where
  "res_blocks q res =
     (case res of Resolved _ \<Rightarrow> False | ConflictingFact _ \<Rightarrow> blocks (fq_on_conflict q) | _ \<Rightarrow> blocks (fq_on_missing q))"

lemma apply_resolution_admissible:
  "ac_admissible (fst (apply_resolution res q acc)) \<longleftrightarrow> ac_admissible acc \<and> \<not> res_blocks q res"
  by (cases res) (auto simp: apply_resolution_def res_blocks_def note_handling_def)

lemma apply_resolution_found: "snd (apply_resolution res q acc) = (case res of Resolved r \<Rightarrow> Some r | _ \<Rightarrow> None)"
  by (cases res) (auto simp: apply_resolution_def)

lemma resolve_all_spec:
  "resolve_all R qs acc = Inr (acc', found) \<Longrightarrow>
     (\<forall>x \<in> set found. fst x \<in> set qs \<and> R (fst x) = Inr (Resolved (snd x)))
     \<and> (\<forall>q \<in> set qs. \<exists>res. R q = Inr res \<and> (\<forall>r. res = Resolved r \<longrightarrow> (q, r) \<in> set found))
     \<and> (ac_admissible acc' \<longleftrightarrow> ac_admissible acc \<and> (\<forall>q \<in> set qs. \<forall>res. R q = Inr res \<longrightarrow> \<not> res_blocks q res))"
proof (induction R qs acc arbitrary: acc' found rule: resolve_all.induct)
  case (2 R q qs acc)
  from 2(2) obtain res where res: "R q = Inr res" by (auto split: sum.splits)
  obtain acc1 f where ar: "apply_resolution res q acc = (acc1, f)" by (cases "apply_resolution res q acc")
  from 2(2) res ar obtain rest where rest: "resolve_all R qs acc1 = Inr (acc', rest)"
      "found = (case f of None \<Rightarrow> rest | Some r \<Rightarrow> (q, r) # rest)"
    by (auto split: sum.splits)
  have f: "f = (case res of Resolved r \<Rightarrow> Some r | _ \<Rightarrow> None)"
    using apply_resolution_found [of res q acc] ar by simp
  have a: "ac_admissible acc1 \<longleftrightarrow> ac_admissible acc \<and> \<not> res_blocks q res"
    using apply_resolution_admissible [of res q acc] ar by simp
  note ih = 2(1) [OF res ar [symmetric] rest(1)]
  show ?case
  proof (intro conjI)
    show "\<forall>x \<in> set found. fst x \<in> set (q # qs) \<and> R (fst x) = Inr (Resolved (snd x))"
      using ih rest(2) f res by (auto split: resolution.splits option.splits)
    show "\<forall>q' \<in> set (q # qs). \<exists>res. R q' = Inr res \<and> (\<forall>r. res = Resolved r \<longrightarrow> (q', r) \<in> set found)"
      using ih rest(2) f res by (cases res) auto
    show "ac_admissible acc' \<longleftrightarrow> ac_admissible acc \<and>
        (\<forall>q' \<in> set (q # qs). \<forall>res. R q' = Inr res \<longrightarrow> \<not> res_blocks q' res)"
      using ih a res by auto
  qed
qed simp

text \<open>Everything citable in a snapshot was resolved for one of the requirements.\<close>

lemma bucket_cases: "bucket_of q \<in> {''workload'', ''workflow'', ''job'', ''resource''}"
  by (auto simp: bucket_of_def split: option.splits)

lemma in_bucket_all:
  "set (in_bucket ''workload'' xs) \<union> set (in_bucket ''workflow'' xs) \<union> set (in_bucket ''job'' xs)
     \<union> set (in_bucket ''resource'' xs) = snd ` set xs" (is "?B = _")
proof
  show "?B \<subseteq> snd ` set xs" by (auto simp: in_bucket_def)
  show "snd ` set xs \<subseteq> ?B"
  proof
    fix r assume "r \<in> snd ` set xs"
    then obtain q where q: "(q, r) \<in> set xs" by auto
    have *: "r \<in> set (in_bucket (bucket_of q) xs)" using q by (force simp: in_bucket_def)
    from bucket_cases [of q] show "r \<in> ?B" by (elim insertE emptyE) (use * in simp_all)
  qed
qed

lemma compile_with_spec:
  assumes "compile_with sha S c reqs rq now = Inr ctx"
  defines "R \<equiv> resolve_requirement sha S (cq_scope_path rq) now"
  shows "\<forall>r \<in> set (all_canonical_refs ctx). \<exists>q \<in> set (ct_invariants c @ reqs). R q = Inr (Resolved r)"
    "\<forall>r \<in> set (cx_invariants ctx). \<exists>q \<in> set (ct_invariants c). R q = Inr (Resolved r)"
    "\<forall>q \<in> set (ct_invariants c). \<forall>r. R q = Inr (Resolved r) \<longrightarrow> r \<in> set (cx_invariants ctx)"
    "\<forall>q \<in> set (ct_invariants c @ reqs). \<exists>res. R q = Inr res"
    "cx_admissible ctx \<longleftrightarrow> (\<forall>q \<in> set (ct_invariants c @ reqs). \<forall>res. R q = Inr res \<longrightarrow> \<not> res_blocks q res)"
    "\<exists>adv. advisory_refs S (cq_scope_path rq) now reqs = Inr adv \<and> cx_advisory ctx = adv"
proof -
  obtain acc invs acc' found adv where
    a: "resolve_all R (ct_invariants c) empty_acc = Inr (acc, invs)"
      "resolve_all R reqs acc = Inr (acc', found)"
      "advisory_refs S (cq_scope_path rq) now reqs = Inr adv"
      "ctx = snapshot_of sha c rq now acc' (map snd invs) found adv"
    using assms by (auto simp: compile_with_def split: sum.splits)
  note s1 = resolve_all_spec [OF a(1)] and s2 = resolve_all_spec [OF a(2)]
  have inv: "set (cx_invariants ctx) = snd ` set invs" using a(4) by (simp add: snapshot_of_def)
  have all: "set (all_canonical_refs ctx) = snd ` set invs \<union> snd ` set found"
    using a(4) in_bucket_all [of found] by (simp add: all_canonical_refs_def snapshot_of_def) blast
  have from_found: "\<exists>q \<in> set qs. R q = Inr (Resolved r)"
    if "\<forall>x \<in> set xs. fst x \<in> set qs \<and> R (fst x) = Inr (Resolved (snd x))" "r \<in> snd ` set xs" for xs qs r
    using that by fastforce
  show "\<forall>r \<in> set (all_canonical_refs ctx). \<exists>q \<in> set (ct_invariants c @ reqs). R q = Inr (Resolved r)"
  proof
    fix r assume "r \<in> set (all_canonical_refs ctx)"
    then have "r \<in> snd ` set invs \<or> r \<in> snd ` set found" using all by blast
    then show "\<exists>q \<in> set (ct_invariants c @ reqs). R q = Inr (Resolved r)"
    proof
      assume "r \<in> snd ` set invs"
      from from_found [OF conjunct1 [OF s1] this] show ?thesis by auto
    next
      assume "r \<in> snd ` set found"
      from from_found [OF conjunct1 [OF s2] this] show ?thesis by auto
    qed
  qed
  show "\<forall>r \<in> set (cx_invariants ctx). \<exists>q \<in> set (ct_invariants c). R q = Inr (Resolved r)"
    using from_found [OF conjunct1 [OF s1]] inv by auto
  show "\<forall>q \<in> set (ct_invariants c). \<forall>r. R q = Inr (Resolved r) \<longrightarrow> r \<in> set (cx_invariants ctx)"
  proof (intro ballI allI impI)
    fix q r assume q: "q \<in> set (ct_invariants c)" "R q = Inr (Resolved r)"
    from conjunct1 [OF conjunct2 [OF s1]] q(1) obtain res
      where "R q = Inr res" "\<forall>r. res = Resolved r \<longrightarrow> (q, r) \<in> set invs" by blast
    with q(2) have "(q, r) \<in> set invs" by simp
    with inv show "r \<in> set (cx_invariants ctx)" by force
  qed
  show "\<forall>q \<in> set (ct_invariants c @ reqs). \<exists>res. R q = Inr res" using s1 s2 by auto
  show "cx_admissible ctx \<longleftrightarrow> (\<forall>q \<in> set (ct_invariants c @ reqs). \<forall>res. R q = Inr res \<longrightarrow> \<not> res_blocks q res)"
    using s1 s2 a(4) by (auto simp: snapshot_of_def empty_acc_def)
  show "\<exists>adv. advisory_refs S (cq_scope_path rq) now reqs = Inr adv \<and> cx_advisory ctx = adv"
    using a by (simp add: snapshot_of_def)
qed

text \<open>A tighter requirement that does not block implies that the looser one does not.\<close>

lemma too_old_tightens: "age_tightens a b \<Longrightarrow> too_old a n \<Longrightarrow> too_old b n"
  by (auto simp: age_tightens_def too_old_def split: option.splits)

lemma admit_fact_tightens:
  assumes "tightens q t" "fq_min_authority q \<noteq> ''SOURCE''"
    "admit_fact sha S q f now = Inr res" "admit_fact sha S t f now = Inr res'" "res_blocks q res"
  shows "res_blocks t res'"
proof -
  have m: "blocks (fq_on_missing q) \<Longrightarrow> blocks (fq_on_missing t)"
    using assms(1) by (auto simp: tightens_def blocks_missing)
  have *: "blocks (fq_on_missing q)" "\<And>r. res \<noteq> Resolved r"
    using assms(3,5) by (auto simp: admit_fact_def res_blocks_def unknown_res_def stale_res_def split: if_splits sum.splits)
  have "res' \<noteq> Resolved r" for r
  proof
    assume "res' = Resolved r"
    with assms(4) have ok: "verify_chain sha f (Some (fs_resolve S)) = []" "to_fact_ref f now = Inr r"
        "min_authority_of (fq_min_authority t) \<le> cf_authority f" "\<not> too_old (fq_max_age t) (fr_age r)"
      by (auto simp: admit_fact_resolved)
    have "min_authority_of (fq_min_authority q) \<le> cf_authority f"
      using min_authority_tightens [OF assms(1,2)] ok(3) by order
    moreover have "\<not> too_old (fq_max_age q) (fr_age r)"
      using too_old_tightens ok(4) assms(1) by (auto simp: tightens_def)
    ultimately have "admit_fact sha S q f now = Inr (Resolved r)" using ok by (simp add: admit_fact_resolved)
    with assms(3) have "res = Resolved r" by simp
    with *(2) show False by blast
  qed
  with assms(4) m [OF *(1)] show ?thesis
    by (auto simp: admit_fact_def res_blocks_def unknown_res_def stale_res_def split: if_splits sum.splits)
qed

lemma resolve_tightens:
  assumes "tightens q t" "fq_min_authority q \<noteq> ''SOURCE''"
    "resolve_requirement sha S path now q = Inr res" "resolve_requirement sha S path now t = Inr res'"
    "res_blocks q res"
  shows "res_blocks t res'"
proof -
  have same: "fq_fact t = fq_fact q" "fq_scope t = fq_scope q" using assms(1) by (auto simp: tightens_def)
  have m: "blocks (fq_on_missing q) \<Longrightarrow> blocks (fq_on_missing t)"
    using assms(1) by (simp add: tightens_def blocks_missing)
  have c: "blocks (fq_on_conflict q) \<Longrightarrow> blocks (fq_on_conflict t)"
    using assms(1) by (simp add: tightens_def blocks_conflict)
  have cand: "candidates_for S t target path = candidates_for S q target path" for target
    by (simp only: candidates_for_def same)
  have grp: "resolve_group sha S t grp now = Inr res' \<Longrightarrow> res_blocks t res'"
    if g: "resolve_group sha S q grp now = Inr res" for grp
  proof (cases grp)
    case Nil
    with g assms(5) m show "resolve_group sha S t grp now = Inr res' \<Longrightarrow> res_blocks t res'"
      by (auto simp: resolve_group_def res_blocks_def unknown_res_def)
  next
    case (Cons f rest)
    show "resolve_group sha S t grp now = Inr res' \<Longrightarrow> res_blocks t res'"
    proof (cases "fact_state f now (fs_resolve S) (Some (fs_versions S))")
      case Current
      with g Cons show "resolve_group sha S t grp now = Inr res' \<Longrightarrow> res_blocks t res'"
        using admit_fact_tightens [OF assms(1,2)] assms(5) by (simp add: resolve_group_def)
    qed (use g Cons assms(5) m c in
        \<open>auto simp: resolve_group_def res_blocks_def unknown_res_def stale_res_def split: sum.splits\<close>)
  qed
  from assms(3,4) show ?thesis
    by (cases "resolve_requirement_scope (fq_scope q) path")
      (use assms(5) m grp in \<open>auto simp: resolve_requirement_def same cand res_blocks_def unknown_res_def split: option.splits\<close>)
qed

section \<open>The store contract\<close>

text \<open>
  What the compiler relies on in a fact store: \<open>current_facts\<close> of a predicate gives facts of that
  predicate whose own state is current.
\<close>

locale fact_reader =
  fixes S :: fact_store
  assumes current_sound: "f \<in> set (fs_current S p) \<Longrightarrow> cf_predicate f = p \<and> cf_lifecycle f = ''current''"
begin

lemma resolved_fact:
  assumes "resolve_requirement sha S path now q = Inr (Resolved r)"
  obtains f where "f \<in> set (fs_current S (fq_fact q))" "r = ref_with_age f (fr_age r)" "fr_predicate r = fq_fact q"
    "verify_chain sha f (Some (fs_resolve S)) = []" "cf_lifecycle f = ''current''"
    "fact_state f now (fs_resolve S) (Some (fs_versions S)) = Current"
    "min_authority_of (fq_min_authority q) \<le> cf_authority f"
proof -
  obtain target where g: "resolve_group sha S q (slot_group (candidates_for S q target path)) now = Inr (Resolved r)"
    using assms by (auto simp: resolve_requirement_def unknown_res_def split: sum.splits option.splits)
  obtain f rest where f: "slot_group (candidates_for S q target path) = f # rest"
      "fact_state f now (fs_resolve S) (Some (fs_versions S)) = Current" "admit_fact sha S q f now = Inr (Resolved r)"
    using g by (auto simp: resolve_group_resolved)
  have mem: "f \<in> set (fs_current S (fq_fact q))"
    using f(1) slot_group_subset candidates_current by (metis list.set_intros(1) subsetD)
  have adm: "verify_chain sha f (Some (fs_resolve S)) = []" "min_authority_of (fq_min_authority q) \<le> cf_authority f"
      "to_fact_ref f now = Inr r"
    using f(3) by (auto simp: admit_fact_resolved)
  have "r = ref_with_age f (fr_age r)" using adm(3) to_fact_ref_ok by blast
  with that mem adm f(2) current_sound [OF mem] show ?thesis by (metis ref_with_age_simps(2))
qed

lemma canonical_refs:
  assumes "compile_with sha S c reqs rq now = Inr ctx" "r \<in> set (all_canonical_refs ctx)"
    "\<forall>q \<in> set (ct_invariants c @ reqs). advisory_free q"
  shows "\<exists>f \<in> set (fs_current S (fr_predicate r)). r = ref_with_age f (fr_age r) \<and> is_canonical f
    \<and> verify_chain sha f (Some (fs_resolve S)) = []
    \<and> fact_state f now (fs_resolve S) (Some (fs_versions S)) = Current"
proof -
  obtain q where q: "q \<in> set (ct_invariants c @ reqs)"
      "resolve_requirement sha S (cq_scope_path rq) now q = Inr (Resolved r)"
    using compile_with_spec(1) [OF assms(1)] assms(2) by blast
  from q(2) obtain f where f: "f \<in> set (fs_current S (fq_fact q))" "r = ref_with_age f (fr_age r)"
      "fr_predicate r = fq_fact q" "verify_chain sha f (Some (fs_resolve S)) = []" "cf_lifecycle f = ''current''"
      "fact_state f now (fs_resolve S) (Some (fs_versions S)) = Current"
      "min_authority_of (fq_min_authority q) \<le> cf_authority f"
    by (rule resolved_fact)
  have "DERIVED \<le> min_authority_of (fq_min_authority q)"
    using assms(3) q(1) by (auto simp: advisory_free_def min_authority_of_def authority_of_name_cases authority_order)
  then have "DERIVED \<le> cf_authority f" using f(7) by order
  moreover from this have "cf_authority f \<noteq> ADVISORY" by (auto simp: authority_order)
  ultimately have "is_canonical f" using f chain_not_advisory [OF f(4)] by (simp add: is_canonical_def)
  with f show ?thesis by metis
qed

end

interpretation memory: fact_reader "in_memory_store facts" for facts
  by unfold_locales (auto simp: in_memory_store_def memory_current_def)

lemma compile_context_with:
  "compile_context sha S c ch rq now = Inr ctx \<longleftrightarrow>
     cq_scope_type rq = ct_scope c \<and> (\<exists>reqs. compose_requirements c ch = Inr reqs \<and> compile_with sha S c reqs rq now = Inr ctx)"
  by (auto simp: compile_context_def split: sum.splits)

section \<open>A sample store\<close>

text \<open>Facts of the cell \<open>c\<close> of workload \<open>w\<close>; the digest of a text is the text behind a mark.\<close>

definition sample_digest :: "string \<Rightarrow> string" where "sample_digest s = CHR ''#'' # s"

definition sample_fact ::
  "string \<Rightarrow> string \<Rightarrow> string \<Rightarrow> string \<Rightarrow> string \<Rightarrow> string \<Rightarrow> authority \<Rightarrow> string \<Rightarrow> string \<Rightarrow> canonical_fact" where
  "sample_fact fid p v path level status a cls red =
     \<lparr>cf_entity_id = ''e-'' @ fid, cf_fact_id = fid, cf_subject_type = ''job'', cf_subject_id = ''c'',
      cf_predicate = p, cf_value = v, cf_value_type = ''str'', cf_unit = [], cf_scope_type = ''job'',
      cf_scope_id = ''c'', cf_scope_path = path, cf_level = level, cf_epistemic_status = status,
      cf_authority = a, cf_evidence_class = cls, cf_observed_at = ''2026-03-02T00:00:00+00:00'',
      cf_valid_from = ''2026-03-02T00:00:00+00:00'', cf_valid_to = None, cf_expires_at = None,
      cf_reducer = [], cf_reducer_version = red, cf_evidence_ids = [], cf_inputs_digest = sample_digest red,
      cf_supersedes = None, cf_source_revision = [], cf_repository_id = ''r'', cf_lifecycle = ''current''\<rparr>"

definition cost_fact :: "string \<Rightarrow> canonical_fact" where
  "cost_fact v = sample_fact ''f-cost'' ''job_accumulated_cost_usd'' v ''org:r/workload:w/job:c'' ''job'' ''observed'' MEASURED ''[M]'' ''job_facts/v1''"

definition spend_fact :: "string \<Rightarrow> canonical_fact" where
  "spend_fact v = sample_fact ''f-spend'' ''max_spend_usd'' v ''org:r/workload:w'' ''policy'' ''declared'' POLICY ''[P]'' ''policy_facts/v1''"

definition models_fact :: "string \<Rightarrow> canonical_fact" where
  "models_fact v = sample_fact ''f-models'' ''allowed_models'' v ''org:r/workload:w'' ''policy'' ''declared'' POLICY ''[P]'' ''policy_facts/v1''"

definition remaining_fact :: "string \<Rightarrow> canonical_fact" where
  "remaining_fact v = sample_fact ''f-rem'' ''workflow_phases_remaining'' v ''org:r/workload:w/workflow:c'' ''workflow'' ''derived'' DERIVED ''[C]'' ''workflow_facts/v1''"

definition sample_request :: context_request where
  "sample_request = \<lparr>cq_decision_type = ''route_next_job'', cq_scope_type = ''job'', cq_scope_id = ''c'',
     cq_scope_path = ''org:r/workload:w/job:c'', cq_repository_id = ''r''\<rparr>"

definition sample_now :: string where "sample_now = ''2026-03-02T00:01:00+00:00''"

definition need :: "string \<Rightarrow> string \<Rightarrow> string \<Rightarrow> string \<Rightarrow> fact_requirement" where
  "need p scope auth missing = (named_requirement p)\<lparr>fq_scope := scope, fq_min_authority := auth, fq_on_missing := missing\<rparr>"

text \<open>experiments/contexts/route_next_job.yaml, as the loader reads it.\<close>

definition route_contract :: contract_spec where
  "route_contract =
     \<lparr>ct_decision_type = ''route_next_job'', ct_version = ''route_next_job/v1'', ct_scope = ''job'',
      ct_allowed_actions = [''route'', ''continue''], ct_max_snapshot_age = Some 300,
      ct_invariants = [need ''allowed_models'' ''workload'' ''DERIVED'' ''halt'', need ''max_spend_usd'' ''workload'' ''DERIVED'' ''halt''],
      ct_objectives = [\<lparr>ob_signal = ''correctness'', ob_direction = ''maximize'', ob_weight = Fin 2\<rparr>,
        \<lparr>ob_signal = ''cost'', ob_direction = ''minimize'', ob_weight = Fin 1\<rparr>],
      ct_requires = [(need ''job_accumulated_cost_usd'' ''self'' ''MEASURED'' ''classify'')\<lparr>fq_max_age := Some 600\<rparr>,
        (need ''workflow_phases_remaining'' ''parent'' ''DERIVED'' ''halt'')\<lparr>fq_max_age := Some 600\<rparr>,
        (need ''phase_test_verified'' ''self'' ''MEASURED'' ''classify'')\<lparr>fq_max_age := Some 3600\<rparr>],
      ct_excludes = [''sibling_job_facts'', ''live_telemetry'', ''advisory_facts'']\<rparr>"

definition sample_store :: "string \<Rightarrow> string \<Rightarrow> string \<Rightarrow> fact_store" where
  "sample_store models spend rem = in_memory_store [cost_fact ''1.5'', spend_fact spend, models_fact models, remaining_fact rem]"

definition admissible_of :: "compile_error + control_context \<Rightarrow> bool option" where
  "admissible_of r = (case r of Inl _ \<Rightarrow> None | Inr ctx \<Rightarrow> Some (cx_admissible ctx))"

lemma sample_compiles:
  "admissible_of (compile_context sample_digest (sample_store ''m2,m1'' ''5'' ''3'') route_contract None sample_request sample_now) = Some True"
  by code_simp

section \<open>What a snapshot may contain\<close>

text \<open>A fact whose derivation chain the plane accepts is a declared one: its predicate has a row in
  FACT_PREDICATES that names the fact's reducer version among its producers and places it at the
  fact's own abstraction level, and its authority is ADVISORY exactly when its epistemic status is
  advisory. So the two registries agree row by row and no accepted fact escapes them.\<close>

theorem accepted_fact_is_declared:
  assumes "verify_chain sha f resolve = []"
  shows "(\<exists>p. predicate_of (cf_predicate f) = Some p \<and> cf_reducer_version f \<in> set (ps_produced_by p)
        \<and> ps_level p = cf_level f)
    \<and> (cf_authority f = ADVISORY \<longleftrightarrow> cf_epistemic_status f = ''advisory'')"
proof -
  obtain s where s: "reducer_of (cf_reducer_version f) = Some s" "cf_predicate f \<in> set (rs_produces s)" "cf_level f = rs_level s"
    using assms by (auto simp: verify_chain_ok)
  from produced_predicate [OF s(1,2)] s(3) chain_not_advisory [OF assms] show ?thesis by auto
qed

lemma cost_fact_chain: "verify_chain sample_digest (cost_fact ''1.5'') None = []"
  by code_simp

theorem accepted_fact_is_declared_witness:
  "\<exists>p. predicate_of ''job_accumulated_cost_usd'' = Some p \<and> ''job_facts/v1'' \<in> set (ps_produced_by p) \<and> ps_level p = ''job''"
  using accepted_fact_is_declared [OF cost_fact_chain] by (simp add: cost_fact_def sample_fact_def)

text \<open>C17: Nothing advisory is citable. For a contract that nowhere asks for ADVISORY authority, and
  whatever challenge profile is composed into it, every reference in the five citable parts of a
  compiled snapshot stands for a fact of the store that is canonical (not advisory, at least
  DERIVED, current), whose derivation chain verifies and whose state at compile time is current.
  The store is any that answers current_facts with current facts of the asked predicate.\<close>

theorem snapshot_facts_are_canonical:
  assumes "fact_reader S" "compile_context sha S c ch rq now = Inr ctx"
    "\<forall>q \<in> set (ct_invariants c) \<union> set (ct_requires c). fq_min_authority q \<noteq> ''ADVISORY''"
    "r \<in> set (all_canonical_refs ctx)"
  shows "\<exists>f \<in> set (fs_current S (fr_predicate r)). r = ref_with_age f (fr_age r) \<and> is_canonical f
    \<and> verify_chain sha f (Some (fs_resolve S)) = []
    \<and> fact_state f now (fs_resolve S) (Some (fs_versions S)) = Current"
proof -
  obtain reqs where reqs: "compose_requirements c ch = Inr reqs" "compile_with sha S c reqs rq now = Inr ctx"
    using assms(2) by (auto simp: compile_context_with)
  have "\<forall>q \<in> set (ct_invariants c @ reqs). advisory_free q"
    using composed_advisory_free [OF reqs(1)] assms(3) by (auto simp: advisory_free_def)
  then show ?thesis by (rule fact_reader.canonical_refs [OF assms(1) reqs(2) assms(4)])
qed

lemma sample_store_reader: "fact_reader (sample_store m s r)"
  unfolding sample_store_def by (rule memory.fact_reader_axioms)

definition refs_of_result :: "compile_error + control_context \<Rightarrow> fact_ref list" where
  "refs_of_result r = (case r of Inl _ \<Rightarrow> [] | Inr ctx \<Rightarrow> all_canonical_refs ctx)"

lemma sample_refs:
  "map fr_fact_id (refs_of_result (compile_context sample_digest (sample_store ''m2,m1'' ''5'' ''3'') route_contract None
     sample_request sample_now)) = [''f-models'', ''f-spend'', ''f-rem'', ''f-cost'']"
  by code_simp

lemma admissible_ofE: "admissible_of x = Some b \<Longrightarrow> \<exists>ctx. x = Inr ctx \<and> cx_admissible ctx = b"
  by (cases x) (auto simp: admissible_of_def)

theorem snapshot_facts_are_canonical_witness:
  "\<exists>ctx. compile_context sample_digest (sample_store ''m2,m1'' ''5'' ''3'') route_contract None sample_request sample_now = Inr ctx
     \<and> length (all_canonical_refs ctx) = 4
     \<and> (\<forall>r \<in> set (all_canonical_refs ctx).
          \<exists>f \<in> set (fs_current (sample_store ''m2,m1'' ''5'' ''3'') (fr_predicate r)). is_canonical f)"
proof -
  obtain ctx where ctx: "compile_context sample_digest (sample_store ''m2,m1'' ''5'' ''3'') route_contract None sample_request sample_now = Inr ctx"
    using admissible_ofE [OF sample_compiles] by blast
  have "length (map fr_fact_id (all_canonical_refs ctx)) = 4"
    using sample_refs by (simp add: ctx refs_of_result_def)
  moreover have "\<forall>q \<in> set (ct_invariants route_contract) \<union> set (ct_requires route_contract). fq_min_authority q \<noteq> ''ADVISORY''"
    by (simp add: route_contract_def need_def named_requirement_def)
  ultimately show ?thesis
    using snapshot_facts_are_canonical [OF sample_store_reader ctx] ctx by fastforce
qed

section \<open>Profiles never relax a contract, except for one rank\<close>

text \<open>C18: The contract stays the gate. If a contract names each required fact once and nowhere demands
  SOURCE authority, then a snapshot that is admissible with some challenge profile composed in is
  admissible under the contract alone: what the profile adds and tightens can only make the
  compiler halt in more cases. (On the same store, request and clock; both compilations return.)\<close>

theorem profile_never_relaxes:
  assumes "compile_context sha S c (Some p) rq now = Inr ctx'" "cx_admissible ctx'"
    "compile_context sha S c None rq now = Inr ctx"
    "distinct (map fq_fact (ct_requires c))" "\<forall>q \<in> set (ct_requires c). fq_min_authority q \<noteq> ''SOURCE''"
  shows "cx_admissible ctx"
proof -
  let ?R = "resolve_requirement sha S (cq_scope_path rq) now"
  obtain reqs where reqs: "compose_requirements c (Some p) = Inr reqs" "compile_with sha S c reqs rq now = Inr ctx'"
    using assms(1) by (auto simp: compile_context_with)
  have own: "compile_with sha S c (ct_requires c) rq now = Inr ctx"
    using assms(3,4) by (auto simp: compile_context_with compose_requirements_def keyed_by_fact_id)
  have ok: "\<not> res_blocks q res" if "q \<in> set (ct_invariants c @ reqs)" "?R q = Inr res" for q res
    using compile_with_spec(5) [OF reqs(2)] assms(2) that by blast
  have "\<not> res_blocks q res" if q: "q \<in> set (ct_invariants c @ ct_requires c)" "?R q = Inr res" for q res
  proof (cases "q \<in> set (ct_invariants c)")
    case True
    with ok q show ?thesis by simp
  next
    case False
    with q have "q \<in> set (ct_requires c)" by simp
    with composed_tightens [OF reqs(1) assms(4)] obtain t where t: "t \<in> set reqs" "tightens q t" by blast
    with compile_with_spec(4) [OF reqs(2)] obtain res' where res': "?R t = Inr res'" by fastforce
    show ?thesis
    proof
      assume "res_blocks q res"
      with resolve_tightens [OF t(2) _ q(2) res'] assms(5) \<open>q \<in> set (ct_requires c)\<close> have "res_blocks t res'" by blast
      with ok [of t] t(1) res' show False by simp
    qed
  qed
  then show ?thesis using compile_with_spec(5) [OF own] by blast
qed

definition sample_profile :: "fact_requirement list \<Rightarrow> challenge_profile" where
  "sample_profile reqs = \<lparr>ch_challenge = ''small_change'', ch_version = ''challenge/small_change/v1'',
     ch_requirements = reqs, ch_deliberation = [''locate'', ''edit'', ''lint_test'', ''finish''],
     ch_session_policy = \<lparr>sp_policy = ''continue_default'', sp_fork_when = [], sp_max_fork_depth = 1,
       sp_compress_threshold = 0, sp_shadow_only = True\<rparr>, ch_verification_policy = [''pytest'']\<rparr>"

lemma sample_tightened:
  "admissible_of (compile_context sample_digest (sample_store ''m2,m1'' ''5'' ''3'') route_contract
     (Some (sample_profile [need ''job_accumulated_cost_usd'' ''self'' ''DERIVED'' ''halt''])) sample_request sample_now) = Some True"
  by code_simp

theorem profile_never_relaxes_witness:
  "\<exists>ctx ctx'. compile_context sample_digest (sample_store ''m2,m1'' ''5'' ''3'') route_contract
        (Some (sample_profile [need ''job_accumulated_cost_usd'' ''self'' ''DERIVED'' ''halt''])) sample_request sample_now = Inr ctx'
     \<and> compile_context sample_digest (sample_store ''m2,m1'' ''5'' ''3'') route_contract None sample_request sample_now = Inr ctx
     \<and> cx_admissible ctx"
proof -
  obtain ctx' where ctx': "compile_context sample_digest (sample_store ''m2,m1'' ''5'' ''3'') route_contract
        (Some (sample_profile [need ''job_accumulated_cost_usd'' ''self'' ''DERIVED'' ''halt''])) sample_request sample_now = Inr ctx'"
      "cx_admissible ctx'"
    using admissible_ofE [OF sample_tightened] by auto
  obtain ctx where ctx: "compile_context sample_digest (sample_store ''m2,m1'' ''5'' ''3'') route_contract None sample_request sample_now = Inr ctx"
    using admissible_ofE [OF sample_compiles] by blast
  have "distinct (map fq_fact (ct_requires route_contract))" "\<forall>q \<in> set (ct_requires route_contract). fq_min_authority q \<noteq> ''SOURCE''"
    by (simp_all add: route_contract_def need_def named_requirement_def)
  from profile_never_relaxes [OF ctx' ctx this] ctx' ctx show ?thesis by blast
qed

text \<open>One rank is wrong: a profile can relax a contract. MEASURED is ranked above SOURCE when
  requirements are merged but below it when a fact's authority is compared. A contract that demands
  SOURCE authority for the cost halts on a MEASURED cost; with a profile that asks for MEASURED the
  merged requirement is MEASURED and the same snapshot is admissible.\<close>

theorem profile_relaxes_source:
  "tighten (need ''job_accumulated_cost_usd'' ''self'' ''SOURCE'' ''halt'') (need ''job_accumulated_cost_usd'' ''self'' ''MEASURED'' ''halt'')
     = Inr (need ''job_accumulated_cost_usd'' ''self'' ''MEASURED'' ''halt'')
   \<and> admissible_of (compile_context sample_digest (sample_store ''m2,m1'' ''5'' ''3'')
        (route_contract\<lparr>ct_requires := [need ''job_accumulated_cost_usd'' ''self'' ''SOURCE'' ''halt'']\<rparr>) None
        sample_request sample_now) = Some False
   \<and> admissible_of (compile_context sample_digest (sample_store ''m2,m1'' ''5'' ''3'')
        (route_contract\<lparr>ct_requires := [need ''job_accumulated_cost_usd'' ''self'' ''SOURCE'' ''halt'']\<rparr>)
        (Some (sample_profile [need ''job_accumulated_cost_usd'' ''self'' ''MEASURED'' ''halt''])) sample_request sample_now) = Some True"
  by code_simp

text \<open>A contract that requires one fact at two scopes loses the first requirement, with no profile
  involved: the merge is keyed by the fact's name. Here the contract halts unless the remaining
  phases are known at the decision's own scope (they are not), and only classifies them at the
  parent scope; compiled, it does not halt, while the first requirement alone does.\<close>

theorem second_requirement_replaces_first:
  "admissible_of (compile_context sample_digest (sample_store ''m2,m1'' ''5'' ''3'')
      (route_contract\<lparr>ct_requires := [need ''workflow_phases_remaining'' ''self'' ''DERIVED'' ''halt'']\<rparr>) None
      sample_request sample_now) = Some False
   \<and> admissible_of (compile_context sample_digest (sample_store ''m2,m1'' ''5'' ''3'')
      (route_contract\<lparr>ct_requires := [need ''workflow_phases_remaining'' ''self'' ''DERIVED'' ''halt'',
         need ''workflow_phases_remaining'' ''parent'' ''DERIVED'' ''classify'']\<rparr>) None
      sample_request sample_now) = Some True"
  by code_simp

end
