(* ===== verification/Decision_Facts.thy ===== *)
theory Decision_Facts
  imports Control_Rules Context_Facts
begin

text \<open>
  What the validator, the control rules and the routers guarantee, on snapshots of the context
  compiler; and where the validator is weaker than its description.
\<close>

section \<open>Admission\<close>

lemma preconditions_hold:
  "failed_precondition refs ps = Inr None \<Longrightarrow>
     \<forall>p \<in> set ps. \<exists>r \<in> set refs. fr_predicate r = pr_fact p \<and> op_holds (fr_value r) (pr_op p) (pr_value p) = Some True"
proof (induction refs ps rule: failed_precondition.induct)
  case (2 refs p ps)
  then obtain r where r: "last_with (\<lambda>r. fr_predicate r = pr_fact p) refs = Some r"
      "op_holds (fr_value r) (pr_op p) (pr_value p) = Some True" "failed_precondition refs ps = Inr None"
    by (auto split: option.splits bool.splits)
  from last_withD [OF r(1)] r(2) 2(1) [OF r(1,2) refl r(3)] show ?case by auto
qed simp

lemma admitted_preconditions:
  assumes "validate_decision sha d s fresh c now store = Inr Admitted"
  shows "\<forall>p \<in> set (cd_preconditions d). \<exists>r \<in> set (all_canonical_refs fresh).
         fr_predicate r = pr_fact p \<and> op_holds (fr_value r) (pr_op p) (pr_value p) = Some True"
  using assms by (intro preconditions_hold)
    (auto simp: admitted_checks c7_freshness_and_preconditions_def split: sum.splits option.splits)


section \<open>Route proposals\<close>

definition unique_fact_ids :: "fact_store \<Rightarrow> bool" where
  "unique_fact_ids S \<longleftrightarrow> (\<forall>p p' f g. f \<in> set (fs_current S p) \<longrightarrow> g \<in> set (fs_current S p')
     \<longrightarrow> cf_fact_id f = cf_fact_id g \<longrightarrow> f = g)"

lemma base_decision_fields [simp]:
  "cd_snapshot_id (base_decision sha ctx a tt t p by) = cx_snapshot_id ctx"
  "cd_decision_type (base_decision sha ctx a tt t p by) = cx_decision_type ctx"
  "cd_action (base_decision sha ctx a tt t p by) = a"
  "cd_target_type (base_decision sha ctx a tt t p by) = tt"
  "cd_target_id (base_decision sha ctx a tt t p by) = t"
  "cd_facts_used (base_decision sha ctx a tt t p by) = []"
  "cd_preconditions (base_decision sha ctx a tt t p by) = []"
  "cd_parameters (base_decision sha ctx a tt t p by) = []"
  "cd_proposed_by (base_decision sha ctx a tt t p by) = by"
  "cd_decision_id (base_decision sha ctx a tt t p by) = decision_id sha (cx_snapshot_id ctx) a t p"
  by (simp_all add: base_decision_def)

lemma find_refD: "find_ref refs p = Some r \<Longrightarrow> r \<in> set refs \<and> fr_predicate r = p"
  unfolding find_ref_def by (auto dest: find_SomeD)

lemma allowed_list_nonempty: "m \<in> set (allowed_list v) \<Longrightarrow> m \<noteq> []"
  by (simp add: allowed_list_def)

text \<open>The two shapes of a proposal: it continues, or it routes to an allowed model.\<close>

definition routed ::
  "control_context \<Rightarrow> control_decision \<Rightarrow> fact_ref \<Rightarrow> fact_ref \<Rightarrow> string \<Rightarrow> bool" where
  "routed ctx d remaining allowed m \<longleftrightarrow>
     cd_action d = ''route'' \<and> cx_admissible ctx
     \<and> find_ref (cx_workflow ctx) ''workflow_phases_remaining'' = Some remaining \<and> fr_value remaining \<noteq> ''0''
     \<and> find_ref (cx_invariants ctx) ''allowed_models'' = Some allowed
     \<and> m \<in> set (allowed_list (fr_value allowed)) \<and> (\<forall>m' \<in> set (allowed_list (fr_value allowed)). m \<le> m')
     \<and> cd_parameters d = [(''model'', PStr m)] \<and> cd_preconditions d = route_preconditions
     \<and> cd_facts_used d = ids_of [Some remaining, Some allowed, find_ref (cx_job ctx) ''job_accumulated_cost_usd'']"

definition continued :: "control_context \<Rightarrow> control_decision \<Rightarrow> bool" where
  "continued ctx d \<longleftrightarrow> cd_action d = ''continue'' \<and> cd_parameters d = [] \<and> cd_preconditions d = []
     \<and> set (cd_facts_used d) \<subseteq> fr_fact_id ` set (all_canonical_refs ctx)"

lemma ids_of_subset:
  "(\<And>r. Some r \<in> set rs \<Longrightarrow> r \<in> R) \<Longrightarrow> set (ids_of rs) \<subseteq> fr_fact_id ` R"
  by (force simp: ids_of_def split: option.splits)

lemma route_next_job_cases:
  fixes sha ctx tt t at_time by_whom
  defines "d \<equiv> route_next_job_v1 sha ctx tt t at_time by_whom"
  shows "cd_snapshot_id d = cx_snapshot_id ctx \<and> cd_decision_type d = cx_decision_type ctx
    \<and> cd_target_type d = tt \<and> cd_target_id d = t \<and> cd_proposed_by d = by_whom
    \<and> cd_decision_id d = decision_id sha (cx_snapshot_id ctx) (cd_action d) t at_time
    \<and> (continued ctx d \<or> (\<exists>remaining allowed m. routed ctx d remaining allowed m))"
proof (cases "cx_admissible ctx")
  case False
  then show ?thesis by (simp add: d_def route_next_job_v1_def continued_def)
next
  case True
  let ?rem = "find_ref (cx_workflow ctx) ''workflow_phases_remaining''"
  let ?all = "find_ref (cx_invariants ctx) ''allowed_models''"
  have ids: "set (ids_of [?rem, ?all]) \<subseteq> fr_fact_id ` set (all_canonical_refs ctx)"
    by (rule ids_of_subset) (auto simp: all_canonical_refs_def dest: find_refD [OF sym])
  show ?thesis
  proof (cases "\<exists>remaining allowed. ?rem = Some remaining \<and> ?all = Some allowed")
    case False
    then have "d = (base_decision sha ctx ''continue'' tt t at_time by_whom)
            \<lparr>cd_facts_used := ids_of [?rem, ?all],
             cd_rationale := (if map_option fr_value ?rem = Some ''0'' then ''no phases remaining''
               else ''workflow_phases_remaining or allowed_models unresolved'')\<rparr>"
      using True by (auto simp: d_def route_next_job_v1_def split: option.splits)
    with ids show ?thesis by (simp add: continued_def)
  next
    case both: True
    then obtain remaining allowed where ra: "?rem = Some remaining" "?all = Some allowed" by blast
    have two: "{fr_fact_id remaining, fr_fact_id allowed} \<subseteq> fr_fact_id ` set (all_canonical_refs ctx)"
      using ids ra by (simp add: ids_of_def)
    show ?thesis
    proof (cases "fr_value remaining = ''0'' \<or> routable_models allowed = []")
      case True
      then show ?thesis using ra two \<open>cx_admissible ctx\<close>
        by (auto simp: d_def route_next_job_v1_def continued_def)
    next
      case False
      then obtain m ms where m: "routable_models allowed = m # ms" by (cases "routable_models allowed") auto
      have d: "d = route_to sha ctx tt t at_time by_whom remaining allowed m"
        using False ra m \<open>cx_admissible ctx\<close> by (simp add: d_def route_next_job_v1_def)
      have sorted: "sorted (m # ms)" "set (m # ms) = set (allowed_list (fr_value allowed))"
        using m unfolding routable_models_def by (metis sorted_sort, metis set_sort)
      have "routed ctx d remaining allowed m"
        using d ra False \<open>cx_admissible ctx\<close> sorted by (auto simp: routed_def route_to_def)
      with d show ?thesis by (auto simp: route_to_def)
    qed
  qed
qed

lemma advisory_refs_sound:
  "advisory_refs S path now qs = Inr adv \<Longrightarrow> r \<in> set adv \<Longrightarrow>
     \<exists>p. \<exists>f \<in> set (fs_current S p). cf_epistemic_status f = ''advisory'' \<and> fr_fact_id r = cf_fact_id f"
proof (induction S path now qs arbitrary: adv rule: advisory_refs.induct)
  case (2 S path now q qs)
  have refs: "to_fact_refs fs now = Inr rs \<Longrightarrow> r \<in> set rs \<Longrightarrow> \<exists>f \<in> set fs. fr_fact_id r = cf_fact_id f" for fs rs
  proof (induction fs now arbitrary: rs rule: to_fact_refs.induct)
    case (2 f fs now)
    from 2(2) obtain r1 rs1 where s: "to_fact_ref f now = Inr r1" "to_fact_refs fs now = Inr rs1" "rs = r1 # rs1"
      by (auto split: sum.splits)
    have "fr_fact_id r1 = cf_fact_id f" using to_fact_ref_ok [OF s(1)] by (metis ref_with_age_simps(1))
    with 2(1) [OF s(1,2)] 2(3) s(3) show ?case by auto
  qed simp
  show ?case
  proof (cases "resolve_requirement_scope (fq_scope q) path")
    case (Inr tg)
    show ?thesis
    proof (cases tg)
      case None
      with 2 Inr show ?thesis by simp
    next
      case (Some target)
      with 2(3) Inr obtain rs rs' where rs: "to_fact_refs (advisory_facts S q target) now = Inr rs"
          "advisory_refs S path now qs = Inr rs'" "adv = rs @ rs'"
        by (auto split: sum.splits)
      show ?thesis
      proof (cases "r \<in> set rs")
        case True
        with refs rs(1) obtain f where "f \<in> set (advisory_facts S q target)" "fr_fact_id r = cf_fact_id f" by blast
        then show ?thesis by (auto simp: advisory_facts_def)
      next
        case False
        with 2(4) rs(3) have "r \<in> set rs'" by simp
        with 2(2) [OF Inr Some rs(1,2)] show ?thesis by blast
      qed
    qed
  qed (use 2 in simp)
qed simp

lemma chain_refusals_none:
  assumes "unique_fact_ids S"
    "\<forall>r \<in> set refs. \<exists>f \<in> set (fs_current S (fr_predicate r)). fr_fact_id r = cf_fact_id f \<and> verify_chain sha f (Some (fs_resolve S)) = []"
  shows "chain_refusals sha S refs fids = None"
proof -
  have "chain_refusal sha S fid r = None" if r: "r \<in> set refs" "fr_fact_id r = fid" for fid r
  proof -
    from assms(2) r obtain f where f: "f \<in> set (fs_current S (fr_predicate r))" "cf_fact_id f = fid"
        "verify_chain sha f (Some (fs_resolve S)) = []" by auto
    obtain g where g: "List.find (\<lambda>f. cf_fact_id f = fid) (fs_current S (fr_predicate r)) = Some g"
      using f by (cases "List.find (\<lambda>f. cf_fact_id f = fid) (fs_current S (fr_predicate r))") (auto simp: find_None_iff)
    with find_SomeD [OF g] f assms(1) have "g = f" unfolding unique_fact_ids_def by metis
    with g f show ?thesis by (simp add: chain_refusal_def)
  qed
  then show ?thesis by (induction fids) (auto split: option.splits dest: last_withD)
qed

lemma chain_refusals_each:
  assumes "chain_refusals sha S refs fids = None" "fid \<in> set fids"
  shows "(\<exists>r \<in> set refs. fr_fact_id r = fid) \<longrightarrow>
    (\<exists>p. \<exists>f \<in> set (fs_current S p). cf_fact_id f = fid \<and> verify_chain sha f (Some (fs_resolve S)) = [])"
  using assms
proof (induction fids)
  case (Cons x fids)
  show ?case
  proof (cases "last_with (\<lambda>r. fr_fact_id r = x) refs")
    case None
    with Cons show ?thesis by (auto simp: last_with_None)
  next
    case (Some ref)
    with Cons.prems have ok: "chain_refusal sha S x ref = None" "chain_refusals sha S refs fids = None"
      by (auto split: option.splits)
    show ?thesis
    proof (cases "fid = x")
      case True
      from ok(1) obtain f where f: "List.find (\<lambda>f. cf_fact_id f = x) (fs_current S (fr_predicate ref)) = Some f"
          "verify_chain sha f (Some (fs_resolve S)) = []"
        by (auto simp: chain_refusal_def split: option.splits list.splits)
      with find_SomeD [OF f(1)] True show ?thesis by blast
    next
      case False
      with Cons ok show ?thesis by auto
    qed
  qed
qed simp

text \<open>A route proposal can only be refused for what it does not control. Take a snapshot that the
  compiler made for a contract that allows route and continue and nowhere asks for ADVISORY
  authority, over a store whose fact ids are unique, and let route_next_job_v1 propose for a named
  target. Validated against the same store, the proposal is never refused for its binding (C1), its
  action (C3), its citations (C5), the derivation chains of what it cites (C6), its authorization
  (C9) or its recordability (C10), whatever the fresh snapshot and the clock say.\<close>

theorem route_proposal_checks:
  assumes "fact_reader S" "unique_fact_ids S" "compile_context sha S c ch rq now = Inr ctx"
    "\<forall>q \<in> set (ct_invariants c) \<union> set (ct_requires c). fq_min_authority q \<noteq> ''ADVISORY''"
    "{''route'', ''continue''} \<subseteq> set (ct_allowed_actions c)" "\<forall>x. sha x \<noteq> []" "tt \<noteq> []" "target \<noteq> []"
    "validate_decision sha (route_next_job_v1 sha ctx tt target at_time by_whom) ctx fresh c later (Some S) = Inr (RefusedAt k e)"
  shows "k \<in> {C2, C4, C7, C8}"
proof -
  let ?d = "route_next_job_v1 sha ctx tt target at_time by_whom"
  note d = route_next_job_cases [of sha ctx tt target at_time by_whom]
  obtain reqs where reqs: "compose_requirements c ch = Inr reqs" "compile_with sha S c reqs rq now = Inr ctx"
    using assms(3) by (auto simp: compile_context_with)
  have free: "\<forall>q \<in> set (ct_invariants c @ reqs). advisory_free q"
    using composed_advisory_free [OF reqs(1)] assms(4) by (auto simp: advisory_free_def)
  have canon: "\<forall>r \<in> set (all_canonical_refs ctx). \<exists>f \<in> set (fs_current S (fr_predicate r)).
      fr_fact_id r = cf_fact_id f \<and> is_canonical f \<and> verify_chain sha f (Some (fs_resolve S)) = []"
    using fact_reader.canonical_refs [OF assms(1) reqs(2) _ free] by (metis ref_with_age_simps(1))
  have kind: "cd_action ?d \<in> {''continue'', ''route''}"
    using d by (auto simp: continued_def routed_def)
  have used: "set (cd_facts_used ?d) \<subseteq> fr_fact_id ` set (all_canonical_refs ctx)"
    using d
  proof (elim conjE disjE exE)
    fix remaining allowed m assume r: "routed ctx ?d remaining allowed m"
    have "set (ids_of [Some remaining, Some allowed, find_ref (cx_job ctx) ''job_accumulated_cost_usd''])
        \<subseteq> fr_fact_id ` set (all_canonical_refs ctx)"
      using r by (intro ids_of_subset) (auto simp: routed_def all_canonical_refs_def dest: find_refD find_refD [OF sym])
    with r show ?thesis by (simp add: routed_def)
  qed (simp add: continued_def)
  have nonadv: "set (cd_facts_used ?d) \<inter> set (map fr_fact_id (cx_advisory ctx)) = {}"
  proof (rule ccontr)
    assume "set (cd_facts_used ?d) \<inter> set (map fr_fact_id (cx_advisory ctx)) \<noteq> {}"
    then obtain r a where ra: "r \<in> set (all_canonical_refs ctx)" "a \<in> set (cx_advisory ctx)" "fr_fact_id r = fr_fact_id a"
      using used by fastforce
    from canon ra(1) obtain f where f: "f \<in> set (fs_current S (fr_predicate r))" "cf_fact_id f = fr_fact_id r" "is_canonical f" by metis
    from compile_with_spec(6) [OF reqs(2)] advisory_refs_sound ra(2) obtain p g
      where g: "g \<in> set (fs_current S p)" "cf_epistemic_status g = ''advisory''" "fr_fact_id a = cf_fact_id g" by metis
    from f g ra(3) assms(2) have "f = g" unfolding unique_fact_ids_def by metis
    with f(3) g(2) show False by (simp add: is_canonical_def)
  qed
  have c1: "c1_snapshot_binding ?d ctx = None" using d by (simp add: c1_snapshot_binding_def)
  have c3: "c3_action_vocabulary ?d c = None" using kind assms(5) by (auto simp: c3_action_vocabulary_def)
  have "first_bad_citation (map fr_fact_id (cx_advisory ctx)) (map fr_fact_id (all_canonical_refs ctx)) (cd_facts_used ?d) = None"
    using used nonadv by (simp add: citations_ok)
  moreover have "cd_action ?d \<noteq> ''continue'' \<longrightarrow> cd_facts_used ?d \<noteq> []"
    using d by (auto simp: continued_def routed_def ids_of_def)
  ultimately have c5: "c5_facts_citation ?d ctx = None" by (auto simp: c5_facts_citation_def)
  have c6: "c6_derivation_chains sha ?d ctx (Some S) = None"
    using canon assms(2) by (auto simp: c6_derivation_chains_def intro!: chain_refusals_none)
  have c9: "c9_actuation_authorization ?d = None"
    using kind by (auto simp: c9_actuation_authorization_def AUTOMATABLE_ACTIONS_def)
  have snap: "cx_snapshot_id ctx \<noteq> []"
    using reqs(2) assms(6) by (auto simp: compile_with_def snapshot_of_def compute_snapshot_id_def split: sum.splits)
  have "cd_decision_id ?d \<noteq> []" using d assms(6) by (simp add: decision_id_def)
  with snap d assms(7,8) have c10: "c10_recordability ?d = None" by (simp add: c10_recordability_def)
  from assms(9) have "(k, Inr (Some e)) \<in> set (CHECKS sha ?d ctx fresh c later (Some S))"
    unfolding validate_decision_def run_checks_refused by auto
  with c1 c3 c5 c6 c9 c10 show ?thesis by (auto simp: CHECKS_def)
qed

text \<open>A whole pass on two stores: compile, propose, compile afresh, validate.\<close>

definition route_pass :: "fact_store \<Rightarrow> string \<Rightarrow> fact_store \<Rightarrow> string \<Rightarrow> unit + validation_result option" where
  "route_pass S target S' later =
     (case (compile_context sample_digest S route_contract None sample_request sample_now,
            compile_context sample_digest S' route_contract None sample_request later) of
        (Inr ctx, Inr fresh) \<Rightarrow>
          map_sum (\<lambda>u. u) Some (validate_decision sample_digest (route_next_job_v1 sample_digest ctx ''job'' target sample_now ''policy_rule:route_next_job'')
             ctx fresh route_contract later (Some S'))
      | _ \<Rightarrow> Inr None)"

lemma route_passE:
  assumes "route_pass S target S' later = Inr (Some v)"
  obtains ctx fresh where "compile_context sample_digest S route_contract None sample_request sample_now = Inr ctx"
    "compile_context sample_digest S' route_contract None sample_request later = Inr fresh"
    "validate_decision sample_digest (route_next_job_v1 sample_digest ctx ''job'' target sample_now ''policy_rule:route_next_job'')
             ctx fresh route_contract later (Some S') = Inr v"
  using assms by (cases "compile_context sample_digest S route_contract None sample_request sample_now";
      cases "compile_context sample_digest S' route_contract None sample_request later") (auto simp: route_pass_def map_sum_def split: sum.splits)

abbreviation "fine_store \<equiv> sample_store ''m2,m1'' ''5'' ''3''"

lemma fine_pass: "route_pass fine_store ''c'' fine_store ''2026-03-02T00:02:00+00:00'' = Inr (Some Admitted)"
  by code_simp

lemma stray_pass: "route_pass fine_store ''d'' fine_store ''2026-03-02T00:02:00+00:00'' = Inr (Some (RefusedAt C4 (TargetOutOfScope ''d'')))"
  by code_simp


lemma memory_unique: "distinct (map cf_fact_id facts) \<Longrightarrow> unique_fact_ids (in_memory_store facts)"
  unfolding unique_fact_ids_def in_memory_store_def memory_current_def distinct_map inj_on_def by auto

lemma fine_ids: "unique_fact_ids fine_store"
  unfolding sample_store_def by (rule memory_unique) code_simp

theorem route_proposal_checks_witness:
  "route_pass fine_store ''d'' fine_store ''2026-03-02T00:02:00+00:00'' = Inr (Some (RefusedAt C4 (TargetOutOfScope ''d'')))
   \<and> C4 \<in> {C2, C4, C7, C8}"
proof (rule route_passE [OF stray_pass])
  fix ctx fresh
  assume ctx: "compile_context sample_digest fine_store route_contract None sample_request sample_now = Inr ctx"
    and v: "validate_decision sample_digest (route_next_job_v1 sample_digest ctx ''job'' ''d'' sample_now ''policy_rule:route_next_job'')
             ctx fresh route_contract ''2026-03-02T00:02:00+00:00'' (Some fine_store) = Inr (RefusedAt C4 (TargetOutOfScope ''d''))"
  have "C4 \<in> {C2, C4, C7, C8}"
    by (rule route_proposal_checks [OF sample_store_reader fine_ids ctx _ _ _ _ _ v])
       (simp_all add: route_contract_def need_def named_requirement_def sample_digest_def)
  with stray_pass show ?thesis by simp
qed

section \<open>The applying router\<close>

lemma routed_model:
  "routed ctx d remaining allowed m \<Longrightarrow> model_parameter d baseline = PStr m"
  by (simp add: routed_def model_parameter_def)

text \<open>C15: The applying router runs a model of its own choice only under policy. If it answers anything
  but the baseline, then the snapshot was admissible, the answer is the least model of the
  allowed_models invariant that snapshot holds, a fact with that invariant's id is still current in
  the store read at validation time and its derivation chain verifies there, and the fresh snapshot
  still shows phases remaining.\<close>

theorem applied_model_is_allowed:
  assumes "applying_router sha loaded repo workload cell baseline rd1 at_time rd2 rd3 = (m, rec)" "m \<noteq> PStr baseline"
  shows "\<exists>ctx fresh a x. compile_reading sha repo workload cell rd1 = Some ctx \<and> cx_admissible ctx
    \<and> a \<in> set (cx_invariants ctx) \<and> fr_predicate a = ''allowed_models''
    \<and> m = PStr x \<and> x \<in> set (allowed_list (fr_value a)) \<and> (\<forall>y \<in> set (allowed_list (fr_value a)). x \<le> y)
    \<and> (\<exists>p. \<exists>f \<in> set (fs_current (rd_store rd3) p). cf_fact_id f = fr_fact_id a
         \<and> verify_chain sha f (Some (fs_resolve (rd_store rd3))) = [])
    \<and> compile_reading sha repo workload cell rd2 = Some fresh
    \<and> (\<exists>r \<in> set (all_canonical_refs fresh). fr_predicate r = ''workflow_phases_remaining''
         \<and> op_holds (fr_value r) ''gt'' (PInt 0) = Some True)"
proof -
  obtain ctx d where pd: "proposed_route sha repo workload cell rd1 at_time = Some (ctx, d)"
    using assms by (auto simp: applying_router_def applied_route_def split: option.splits prod.splits)
  then have ctx: "compile_reading sha repo workload cell rd1 = Some ctx"
    and d: "d = route_next_job_v1 sha ctx ''job'' cell at_time ''policy_rule:route_next_job''"
    by (auto simp: proposed_route_def split: option.splits)
  obtain c fresh where cf: "loaded = Some c" "compile_reading sha repo workload cell rd2 = Some fresh"
      "validate_decision sha d ctx fresh c (rd_now rd3) (Some (rd_store rd3)) = Inr Admitted"
      "cd_action d = ''route''" "m = model_parameter d baseline"
    using assms pd by (auto simp: applying_router_def applied_route_def split: option.splits sum.splits if_splits)
  obtain remaining a x where r: "routed ctx d remaining a x"
    using route_next_job_cases [of sha ctx "''job''" cell at_time "''policy_rule:route_next_job''"] cf(4)
    by (auto simp: d continued_def)
  have a: "a \<in> set (cx_invariants ctx)" "fr_predicate a = ''allowed_models''" "fr_fact_id a \<in> set (cd_facts_used d)"
    using r find_refD by (auto simp: routed_def ids_of_def)
  have "chain_refusals sha (rd_store rd3) (all_canonical_refs ctx) (cd_facts_used d) = None"
    using cf(3) by (simp add: admitted_checks c6_derivation_chains_def)
  from chain_refusals_each [OF this a(3)] a(1)
  have current: "\<exists>p. \<exists>f \<in> set (fs_current (rd_store rd3) p). cf_fact_id f = fr_fact_id a
         \<and> verify_chain sha f (Some (fs_resolve (rd_store rd3))) = []"
    by (auto simp: all_canonical_refs_def)
  have "\<forall>p \<in> set (cd_preconditions d). \<exists>r \<in> set (all_canonical_refs fresh).
         fr_predicate r = pr_fact p \<and> op_holds (fr_value r) (pr_op p) (pr_value p) = Some True"
    using admitted_preconditions [OF cf(3)] .
  then have rem: "\<exists>r \<in> set (all_canonical_refs fresh). fr_predicate r = ''workflow_phases_remaining''
         \<and> op_holds (fr_value r) ''gt'' (PInt 0) = Some True"
    using r by (simp add: routed_def route_preconditions_def)
  from ctx cf(2,5) r a current rem routed_model [OF r] show ?thesis
    by (intro exI [of _ ctx] exI [of _ fresh] exI [of _ a] exI [of _ x]) (simp add: routed_def)
qed

definition sample_reading :: "string \<Rightarrow> fact_store \<Rightarrow> reading" where
  "sample_reading now S = \<lparr>rd_now = now, rd_contract = Some route_contract, rd_store = S\<rparr>"

definition sample_apply :: "fact_store \<Rightarrow> fact_store \<Rightarrow> pyval \<times> control_decision option" where
  "sample_apply S S' = applying_router sample_digest (Some route_contract) ''r'' ''w'' ''c'' ''base''
     (sample_reading sample_now S) sample_now (sample_reading ''2026-03-02T00:02:00+00:00'' S')
     (sample_reading ''2026-03-02T00:02:01+00:00'' S')"

lemma fine_apply: "fst (sample_apply fine_store fine_store) = PStr ''m1''"
  by code_simp

theorem applied_model_is_allowed_witness:
  "\<exists>(ctx :: control_context) a x. cx_admissible ctx \<and> a \<in> set (cx_invariants ctx) \<and> x \<in> set (allowed_list (fr_value a))
     \<and> fst (sample_apply fine_store fine_store) = PStr x"
proof -
  obtain rec where "applying_router sample_digest (Some route_contract) ''r'' ''w'' ''c'' ''base''
     (sample_reading sample_now fine_store) sample_now (sample_reading ''2026-03-02T00:02:00+00:00'' fine_store)
     (sample_reading ''2026-03-02T00:02:01+00:00'' fine_store) = (PStr ''m1'', rec)"
    using fine_apply unfolding sample_apply_def by (metis prod.collapse)
  from applied_model_is_allowed [OF this] obtain ctx :: control_context and a x
    where "cx_admissible ctx" "a \<in> set (cx_invariants ctx)" "x \<in> set (allowed_list (fr_value a))" "PStr ''m1'' = PStr x"
    by auto
  then show ?thesis using fine_apply by auto
qed

lemma lowered_limit_applied: "fst (sample_apply fine_store (sample_store ''m2,m1'' ''1'' ''3'')) = PStr ''m1''"
  by code_simp

lemma lowered_limit_refused:
  "route_pass (sample_store ''m2,m1'' ''1'' ''3'') ''c'' (sample_store ''m2,m1'' ''1'' ''3'') ''2026-03-02T00:02:00+00:00''
       = Inr (Some (RefusedAt C8 (SpendExceeded ''1.5'' ''1'')))"
  by code_simp

abbreviation "unlimited_store \<equiv> in_memory_store [cost_fact ''1.5'', models_fact ''m2,m1'', remaining_fact ''3'']"

lemma missing_limit_applied: "fst (sample_apply fine_store unlimited_store) = PStr ''m1''"
  by code_simp

lemma missing_limit_inadmissible:
  "admissible_of (compile_context sample_digest unlimited_store
       route_contract None (route_request ''r'' ''w'' ''c'') ''2026-03-02T00:02:00+00:00'') = Some False"
  by code_simp

text \<open>The fresh compilation is not checked for admissibility or policy. Between the first compile
  and the fresh one the spending limit may fall below what the job has already spent, or disappear
  so that the fresh snapshot is inadmissible: the router still applies the model of the first
  snapshot, because C2 and C8 look at that one and the limit is not among the facts a route cites.\<close>

theorem fresh_policy_not_checked:
  "fst (sample_apply fine_store (sample_store ''m2,m1'' ''1'' ''3'')) = PStr ''m1''
   \<and> route_pass (sample_store ''m2,m1'' ''1'' ''3'') ''c'' (sample_store ''m2,m1'' ''1'' ''3'') ''2026-03-02T00:02:00+00:00''
       = Inr (Some (RefusedAt C8 (SpendExceeded ''1.5'' ''1'')))
   \<and> fst (sample_apply fine_store unlimited_store) = PStr ''m1''
   \<and> admissible_of (compile_context sample_digest unlimited_store
       route_contract None (route_request ''r'' ''w'' ''c'') ''2026-03-02T00:02:00+00:00'') = Some False"
  using lowered_limit_applied lowered_limit_refused missing_limit_applied missing_limit_inadmissible by blast

section \<open>Where the validator is partial\<close>

definition validate_at :: "string \<Rightarrow> (unit + validation_result) option" where
  "validate_at later =
     (case compile_context sample_digest fine_store route_contract None sample_request sample_now of
        Inl _ \<Rightarrow> None
      | Inr ctx \<Rightarrow> Some (validate_decision sample_digest
          (route_next_job_v1 sample_digest ctx ''job'' ''c'' sample_now ''policy_rule:route_next_job'')
          ctx ctx route_contract later (Some fine_store)))"

lemma word_count_raises: "route_pass fine_store ''c'' (sample_store ''m2,m1'' ''5'' ''three'') ''2026-03-02T00:02:00+00:00'' = Inl ()"
  by code_simp

lemma naive_clock_raises: "validate_at ''2026-03-02T00:02:00'' = Some (Inl ())"
  by code_simp

lemma aware_clock_admits: "validate_at ''2026-03-02T00:02:00+00:00'' = Some (Inr Admitted)"
  by code_simp

text \<open>The validator is not total, though its description says so. A clock without an offset
  against a snapshot compiled with one raises TypeError in C7; so does a fresh value that is not a
  number under an order precondition on a number, as in every route proposal.\<close>

theorem validator_may_raise:
  "route_pass fine_store ''c'' (sample_store ''m2,m1'' ''5'' ''three'') ''2026-03-02T00:02:00+00:00'' = Inl ()
   \<and> validate_at ''2026-03-02T00:02:00'' = Some (Inl ()) \<and> validate_at ''2026-03-02T00:02:00+00:00'' = Some (Inr Admitted)"
  using word_count_raises naive_clock_raises aware_clock_admits by blast

text \<open>A cost that is not a number never exceeds the limit.\<close>

lemma nan_cost_passes_limit:
  "route_pass (in_memory_store [cost_fact ''nan'', spend_fact ''5'', models_fact ''m1'', remaining_fact ''3'']) ''c''
     (in_memory_store [cost_fact ''nan'', spend_fact ''5'', models_fact ''m1'', remaining_fact ''3'']) ''2026-03-02T00:02:00+00:00''
   = Inr (Some Admitted)"
  by code_simp

section \<open>Session routing\<close>

text \<open>A session is only resumed or left alone automatically. An admitted proposal of
  session_routing_v1 that no operator made is continue, although the rule may propose escalate and
  fork; and if the snapshot holds a checkpoint, continue is proposed only when all three unchanged
  markers are in it, and is admitted only when all three are still true in the fresh snapshot.\<close>

theorem session_routing_is_shadowed:
  fixes sha ctx tt t at_time by_whom
  defines "d \<equiv> session_routing_v1 sha ctx tt t at_time by_whom"
  assumes "validate_decision sha d ctx fresh c now store = Inr Admitted" "\<not> starts_with by_whom ''operator:''"
  shows "cd_action d = ''continue''
    \<and> (find_ref (cx_job ctx) ''checkpoint_present'' \<noteq> None \<longrightarrow>
        (\<forall>m \<in> set unchanged_markers. find_ref (cx_job ctx) m \<noteq> None
           \<and> (\<exists>r \<in> set (all_canonical_refs fresh). fr_predicate r = m \<and> fr_value r = ''true'')))"
proof -
  have adm: "cx_admissible ctx"
    using assms(2) by (auto simp: admitted_checks c2_snapshot_admissibility_def split: if_splits)
  have "cd_proposed_by d = by_whom"
    by (simp add: d_def session_routing_v1_def split: option.splits)
  then have auto: "cd_action d \<in> set AUTOMATABLE_ACTIONS"
    using assms(2,3) by (auto simp: admitted_checks c9_actuation_authorization_def is_operator_def split: if_splits)
  have act: "cd_action d \<in> {''continue'', ''escalate'', ''fork''}"
    by (simp add: d_def session_routing_v1_def split: option.splits)
  have cont: "cd_action d = ''continue''"
    using auto act by (auto simp: AUTOMATABLE_ACTIONS_def)
  have "(\<forall>m \<in> set unchanged_markers. find_ref (cx_job ctx) m \<noteq> None) \<and> cd_preconditions d = map marker_precondition unchanged_markers"
    if "find_ref (cx_job ctx) ''checkpoint_present'' \<noteq> None"
    using that adm cont by (auto simp: d_def session_routing_v1_def unchanged_markers_def split: option.splits)
  moreover have "\<forall>p \<in> set (cd_preconditions d). \<exists>r \<in> set (all_canonical_refs fresh).
         fr_predicate r = pr_fact p \<and> op_holds (fr_value r) (pr_op p) (pr_value p) = Some True"
    by (rule admitted_preconditions [OF assms(2)])
  ultimately have "find_ref (cx_job ctx) ''checkpoint_present'' \<noteq> None \<longrightarrow>
        (\<forall>m \<in> set unchanged_markers. find_ref (cx_job ctx) m \<noteq> None
           \<and> (\<exists>r \<in> set (all_canonical_refs fresh). fr_predicate r = m \<and> fr_value r = ''true''))"
    by (auto simp: marker_precondition_def op_holds_def)
  with cont show ?thesis by blast
qed

text \<open>experiments/contexts/session_routing.yaml, and a session whose checkpoint is unchanged.\<close>

definition session_contract :: contract_spec where
  "session_contract = route_contract\<lparr>ct_decision_type := ''session_routing'', ct_version := ''session_routing/v1'',
     ct_allowed_actions := [''continue'', ''fork'', ''compress_and_fork'', ''escalate''], ct_invariants := [], ct_objectives := [],
     ct_requires := map (\<lambda>p. (need p ''self'' ''DERIVED'' ''classify'')\<lparr>fq_max_age := Some 600\<rparr>)
         [''session_checkpoint'', ''checkpoint_snapshot_identity'', ''checkpoint_goal_unchanged'', ''checkpoint_phase_unchanged'',
          ''checkpoint_model_unchanged'', ''checkpoint_present'', ''model_change_required'']
       @ [(need ''workflow_phases_remaining'' ''parent'' ''DERIVED'' ''halt'')\<lparr>fq_max_age := Some 600\<rparr>]\<rparr>"

definition marker_fact :: "string \<Rightarrow> canonical_fact" where
  "marker_fact p = sample_fact p p ''true'' ''org:r/workload:w/job:c'' ''job'' ''derived'' DERIVED ''[C]'' ''checkpoint/v1''"

definition session_store :: fact_store where
  "session_store = in_memory_store (remaining_fact ''3'' # map marker_fact (''checkpoint_present'' # unchanged_markers))"

definition session_pass :: "(unit + validation_result) option" where
  "session_pass =
     (case compile_context sample_digest session_store session_contract None sample_request sample_now of
        Inl _ \<Rightarrow> None
      | Inr ctx \<Rightarrow> Some (validate_decision sample_digest
          (session_routing_v1 sample_digest ctx ''job'' ''c'' sample_now ''policy_rule:session_routing'')
          ctx ctx session_contract sample_now (Some session_store)))"

lemma session_admitted: "session_pass = Some (Inr Admitted)"
  by code_simp

theorem session_routing_is_shadowed_witness:
  "\<exists>ctx :: control_context. cd_action (session_routing_v1 sample_digest ctx ''job'' ''c'' sample_now ''policy_rule:session_routing'') = ''continue''"
proof -
  obtain ctx :: control_context where "validate_decision sample_digest
          (session_routing_v1 sample_digest ctx ''job'' ''c'' sample_now ''policy_rule:session_routing'')
          ctx ctx session_contract sample_now (Some session_store) = Inr Admitted"
    using session_admitted by (auto simp: session_pass_def split: sum.splits)
  from session_routing_is_shadowed [OF this] show ?thesis by (intro exI [of _ ctx]) (simp add: starts_with_def)
qed

end
