(* ===== verification/Approval_Contract.thy ===== *)
theory Approval_Contract
  imports Iso_Time
begin

text \<open>
  The approval-decision contract (core/decision_contract.py): reading the markdown an operator
  writes into a typed decision, and binding the decision to the act it is to authorize.
  \<open>read_committed\<close> runs git and is not modelled: the text is an argument.
\<close>

section \<open>Text helpers\<close>

definition strip_chars :: "string \<Rightarrow> string \<Rightarrow> string" where
  "strip_chars cs s = strip_by (\<lambda>c. c \<in> set cs) s"

definition lstrip_chars :: "string \<Rightarrow> string \<Rightarrow> string" where
  "lstrip_chars cs s = dropWhile (\<lambda>c. c \<in> set cs) s"

text \<open>\<open>" ".join(s.split())\<close>\<close>

definition collapse_spaces :: "string \<Rightarrow> string" where
  "collapse_spaces s = join_with (CHR '' '')
     (filter (\<lambda>w. w \<noteq> []) (split_on (CHR '' '') (map (\<lambda>c. if py_space c then CHR '' '' else c) s)))"

text \<open>The first match of four digits, two digits and two digits joined by hyphens.\<close>

definition date_shape :: "string \<Rightarrow> bool" where
  "date_shape s \<longleftrightarrow> length s = 10 \<and> s ! 4 = CHR ''-'' \<and> s ! 7 = CHR ''-''
     \<and> list_all is_digit (take 4 s @ take 2 (drop 5 s) @ drop 8 s)"

fun find_date :: "string \<Rightarrow> string option" where
  "find_date [] = None"
| "find_date (c # s) = (if date_shape (take 10 (c # s)) then Some (take 10 (c # s)) else find_date s)"

function remove_all :: "string \<Rightarrow> string \<Rightarrow> string" where
  "remove_all old s =
     (if s = [] \<or> old = [] then s
      else if starts_with s old then remove_all old (drop (length old) s)
      else hd s # remove_all old (tl s))"
  by auto
termination
  by (relation "measure (\<lambda>(old, s). length s)") auto

declare remove_all.simps [simp del]

definition replace_char :: "char \<Rightarrow> string \<Rightarrow> string \<Rightarrow> string" where
  "replace_char c new s = concat (map (\<lambda>d. if d = c then new else [d]) s)"

section \<open>The decision\<close>

definition SCHEMA :: string where "SCHEMA = ''approval-decision/v1''"
definition PURPOSE_CHECKPOINT :: string where "PURPOSE_CHECKPOINT = ''checkpoint''"
definition PURPOSE_TREE_REUSE :: string where "PURPOSE_TREE_REUSE = ''tree_reuse''"

definition PLACEHOLDER_OPERATORS :: "string list" where
  "PLACEHOLDER_OPERATORS =
     ['''', ''operator'', ''operator-test'', ''operator_test'', ''your name'', ''your-name'',
      ''your signature'', ''sign here'', ''sign-here'', ''todo'', ''tbd'', ''n/a'', ''na'', ''xxx'', ''???'',
      ''<name>'', ''placeholder'', ''name'', ''test'', ''aio'']"

definition FIELD_BY_KEY :: "(string \<times> string) list" where
  "FIELD_BY_KEY =
     [(''operator'', ''operator''), (''signed-by-operator'', ''operator''),
      (''signed_by_operator'', ''operator''), (''signed by operator'', ''operator''),
      (''date'', ''date''), (''signed-date'', ''date''), (''signed_date'', ''date''), (''signed on'', ''date''),
      (''signed'', ''date''), (''signed-at'', ''date''),
      (''candidate'', ''candidate_sha''), (''candidate-sha'', ''candidate_sha''),
      (''candidate_sha'', ''candidate_sha''), (''sha'', ''candidate_sha''),
      (''run'', ''run_id''), (''run-id'', ''run_id''), (''run_id'', ''run_id''),
      (''gate'', ''gate_id''), (''gate-id'', ''gate_id''), (''gate_id'', ''gate_id''),
      (''spec'', ''spec''), (''workflow'', ''spec''), (''workflow-spec'', ''spec''),
      (''phase'', ''phase''),
      (''tree'', ''tree''), (''tree-hash'', ''tree''), (''tree_hash'', ''tree''),
      (''purpose'', ''purpose'')]"

record approval_decision =
  ap_schema :: string
  ap_purpose :: string
  ap_operator :: string
  ap_date :: string
  ap_candidate_sha :: string
  ap_run_id :: string
  ap_gate_id :: string
  ap_spec :: string
  ap_phase :: string
  ap_tree :: string
  ap_raw :: "(string \<times> string) list"

section \<open>Reading an artifact\<close>

definition decorated :: "string \<Rightarrow> string" where
  "decorated v = py_strip (strip_chars [CHR ''*'', CHR 0x60, CHR 0x27, CHR 0x22, CHR ''_'', CHR '' ''] (py_strip v))"

definition normalize_key :: "string \<Rightarrow> string" where
  "normalize_key k =
     collapse_spaces (py_lower (py_strip (strip_chars [CHR ''*'', CHR 0x60, CHR ''#'', CHR ''_'', CHR '' ''] (py_strip k))))"

type_synonym found = "(string \<times> string) list"

definition found_put :: "string \<Rightarrow> string \<Rightarrow> found \<Rightarrow> found" where
  "found_put f v m = (if v \<noteq> [] \<and> map_of m f = None then m @ [(f, v)] else m)"

definition found_get :: "found \<Rightarrow> string \<Rightarrow> string \<Rightarrow> string" where
  "found_get m f d = (case map_of m f of None \<Rightarrow> d | Some v \<Rightarrow> v)"

definition date_value :: "string \<Rightarrow> string" where
  "date_value v = (case find_date v of Some d \<Rightarrow> d | None \<Rightarrow> v)"

text \<open>An operator line that embeds a date gives both; the date goes in first.\<close>

definition operator_name :: "string \<Rightarrow> string" where
  "operator_name v =
     py_strip (strip_chars '' ,;'' (decorated (case find_date v of Some d \<Rightarrow> remove_all d v | None \<Rightarrow> v)))"

definition embedded_date :: "string \<Rightarrow> string" where
  "embedded_date v = (case find_date v of Some d \<Rightarrow> d | None \<Rightarrow> [])"

definition read_field :: "string \<Rightarrow> string \<Rightarrow> found \<Rightarrow> found" where
  "read_field f v m =
     (if f = ''date'' then found_put f (date_value v) m
      else if f = ''operator'' \<and> v \<noteq> [] then found_put f (operator_name v) (found_put ''date'' (embedded_date v) m)
      else found_put f v m)"

definition mentions_signature :: "string \<Rightarrow> bool" where
  "mentions_signature s \<longleftrightarrow> contains_str (py_lower s) ''signed'' \<or> contains_str (py_lower s) ''date''"

definition clean_line :: "string \<Rightarrow> string" where
  "clean_line l = py_strip (lstrip_chars ''-*!> '' (py_strip l))"

definition read_line :: "string \<Rightarrow> found \<Rightarrow> found" where
  "read_line l m =
     (let s = clean_line l in
      if s = [] \<or> hd s = CHR ''#'' then m
      else if CHR '':'' \<notin> set s then
        (if mentions_signature s then found_put ''date'' (embedded_date s) m else m)
      else case map_of FIELD_BY_KEY (normalize_key (before_char (CHR '':'') s)) of
        None \<Rightarrow> m
      | Some f \<Rightarrow> read_field f (decorated (after_char (CHR '':'') s)) m)"

definition read_lines :: "string list \<Rightarrow> found" where
  "read_lines ls = foldl (\<lambda>m l. read_line l m) [] ls"

definition decision_of :: "found \<Rightarrow> approval_decision" where
  "decision_of m =
     \<lparr>ap_schema = SCHEMA, ap_purpose = found_get m ''purpose'' PURPOSE_CHECKPOINT,
      ap_operator = found_get m ''operator'' [], ap_date = found_get m ''date'' [],
      ap_candidate_sha = found_get m ''candidate_sha'' [], ap_run_id = found_get m ''run_id'' [],
      ap_gate_id = found_get m ''gate_id'' [], ap_spec = found_get m ''spec'' [],
      ap_phase = found_get m ''phase'' [], ap_tree = found_get m ''tree'' [], ap_raw = m\<rparr>"

definition parse_approval_decision :: "string \<Rightarrow> approval_decision" where
  "parse_approval_decision text_of = decision_of (read_lines (splitlines text_of))"

section \<open>Binding a decision to an act\<close>

definition operator_is_placeholder :: "string \<Rightarrow> bool" where
  "operator_is_placeholder op \<longleftrightarrow>
     collapse_spaces (py_lower (py_strip op)) \<in> set PLACEHOLDER_OPERATORS
     \<or> length (py_strip op) < 2
     \<or> (starts_with (py_strip op) ''<'' \<and> ends_with (py_strip op) ''>'')"

definition date_is_valid :: "string \<Rightarrow> bool" where
  "date_is_valid v \<longleftrightarrow> v \<noteq> [] \<and> fromisoformat (replace_char (CHR ''Z'') ''+00:00'' v) \<noteq> None"

definition sha_matches :: "string \<Rightarrow> string \<Rightarrow> bool" where
  "sha_matches expected named \<longleftrightarrow>
     py_strip expected \<noteq> [] \<and> py_strip named \<noteq> []
     \<and> (starts_with (py_strip expected) (py_strip named) \<or> starts_with (py_strip named) (py_strip expected))"

datatype failed_check = FailedPurpose | FailedSpec | FailedPhase | FailedCandidateSha | FailedTree
  | FailedRunId | FailedGateId | FailedOperator | FailedDate

text \<open>What the consumer expects of the decision; \<open>None\<close> leaves a check out.\<close>

record expectations =
  ex_purpose :: "string option"
  ex_spec :: "string option"
  ex_phase :: "string option"
  ex_candidate_sha :: "string option"
  ex_tree :: "string option"
  ex_run_id :: "string option"
  ex_gate_id :: "string option"

definition differs :: "string option \<Rightarrow> string \<Rightarrow> bool" where
  "differs e v = (case e of None \<Rightarrow> False | Some x \<Rightarrow> v \<noteq> x)"

definition purpose_differs :: "approval_decision \<Rightarrow> string option \<Rightarrow> bool" where
  "purpose_differs d e \<longleftrightarrow> map_of (ap_raw d) ''purpose'' \<noteq> None \<and> differs e (ap_purpose d)"

definition sha_differs :: "string option \<Rightarrow> string \<Rightarrow> bool" where
  "sha_differs e v = (case e of None \<Rightarrow> False | Some x \<Rightarrow> \<not> sha_matches x v)"

definition validate_approval :: "approval_decision \<Rightarrow> expectations \<Rightarrow> failed_check list" where
  "validate_approval d e =
     (if purpose_differs d (ex_purpose e) then [FailedPurpose] else [])
     @ (if differs (ex_spec e) (ap_spec d) then [FailedSpec] else [])
     @ (if differs (ex_phase e) (ap_phase d) then [FailedPhase] else [])
     @ (if sha_differs (ex_candidate_sha e) (ap_candidate_sha d) then [FailedCandidateSha] else [])
     @ (if differs (ex_tree e) (ap_tree d) then [FailedTree] else [])
     @ (if differs (ex_run_id e) (ap_run_id d) then [FailedRunId] else [])
     @ (if differs (ex_gate_id e) (ap_gate_id d) then [FailedGateId] else [])
     @ (if operator_is_placeholder (ap_operator d) then [FailedOperator] else [])
     @ (if date_is_valid (ap_date d) then [] else [FailedDate])"

section \<open>Checks\<close>

lemma parse_check:
  "read_lines [''SIGNED-BY-OPERATOR: peparhugo (controller) 2026-09-11''] =
     [(''date'', ''2026-09-11''), (''operator'', ''peparhugo (controller)'')]"
  "read_lines [''- **Candidate:** `abc123`'', ''Signed 2026-09-11'', ''# operator: nobody'', ''operator: <name>''] =
     [(''candidate_sha'', ''abc123''), (''date'', ''2026-09-11''), (''operator'', ''<name>'')]"
  by code_simp+

section \<open>What a decision authorizes\<close>

lemma found_put_extends: "map_of m \<subseteq>\<^sub>m map_of (found_put f v m)"
  by (auto simp: found_put_def map_le_def map_add_def dom_def split: option.splits)

lemma read_field_extends: "map_of m \<subseteq>\<^sub>m map_of (read_field f v m)"
  unfolding read_field_def by (auto intro: found_put_extends map_le_trans [OF found_put_extends found_put_extends])

lemma read_line_extends: "map_of m \<subseteq>\<^sub>m map_of (read_line l m)"
  unfolding read_line_def Let_def
  by (auto intro: found_put_extends read_field_extends split: option.splits)

lemma read_lines_from: "map_of m \<subseteq>\<^sub>m map_of (foldl (\<lambda>m l. read_line l m) m ls)"
  by (induction ls arbitrary: m) (auto intro: map_le_trans [OF read_line_extends])

text \<open>The first line that states a field decides it. Whatever follows a prefix of an artifact can
  bind further fields but can never change one the prefix has bound: not the operator, not the
  candidate, not the purpose. So text appended below a signature cannot redirect what was signed.\<close>

theorem later_lines_never_override:
  "map_of (ap_raw (decision_of (read_lines ls))) \<subseteq>\<^sub>m map_of (ap_raw (decision_of (read_lines (ls @ later))))"
  by (simp add: decision_of_def read_lines_def read_lines_from)


text \<open>A single character is enough of an abbreviation: an artifact that names the first character of
  the candidate's sha passes the candidate check.\<close>

lemma one_character_sha:
  assumes "\<not> py_space c"
  shows "sha_matches (c # rest) [c]"
proof -
  have one: "py_strip [c] = [c]" using assms by (simp add: strip_by_def)
  obtain s where "py_strip (c # rest) = c # s"
  proof -
    have d: "dropWhile py_space (c # rest) = c # rest" using assms by simp
    have "\<not> (\<forall>x \<in> set (rev (c # rest)). py_space x)" using assms by simp
    then obtain t where "dropWhile py_space (rev (c # rest)) = t @ [c]"
      by (metis append_Nil dropWhile_append3 assms rev.simps(2))
    then have "py_strip (c # rest) = c # rev t" using d by (simp add: strip_by_def del: rev.simps dropWhile.simps)
    then show thesis by (rule that)
  qed
  with one show ?thesis by (simp add: sha_matches_def starts_with_def)
qed

text \<open>A name on a Signed line hides the date. The key Signed is an alias of the date, and the first
  value wins even when it is no date: the approval that signs with a name, then states operator and
  date on lines of their own, is refused for its date; without the first line it authorizes.\<close>

theorem signed_name_hides_date:
  "validate_approval (parse_approval_decision
      (''Signed: peparhugo'' @ [CHR 0x0A] @ ''Operator: peparhugo'' @ [CHR 0x0A] @ ''Date: 2026-09-11''))
      \<lparr>ex_purpose = None, ex_spec = None, ex_phase = None, ex_candidate_sha = None, ex_tree = None, ex_run_id = None, ex_gate_id = None\<rparr>
    = [FailedDate]
   \<and> validate_approval (parse_approval_decision (''Operator: peparhugo'' @ [CHR 0x0A] @ ''Date: 2026-09-11''))
      \<lparr>ex_purpose = None, ex_spec = None, ex_phase = None, ex_candidate_sha = None, ex_tree = None, ex_run_id = None, ex_gate_id = None\<rparr>
    = []"
  by (intro conjI; code_simp)

end
