(* ===== verification/Reducer_Base.thy ===== *)
theory Reducer_Base
  imports Profile_Composition Py_Json
begin

text \<open>
  The ground the fact reducers stand on (control/reducers/_common.py and the reducer input of
  control/facts.py): the evidence they are given, the identity of a run and of its workflow cell, the
  encoding of a measured value, and \<open>profiles/v1\<close>, the reducer of control/profiles.py. A reducer is a
  function of a \<open>reducer_input\<close>; an exception that leaves it is a \<open>py_error\<close>. SHA-256 is the
  parameter \<open>sha\<close>.
\<close>

section \<open>Evidence\<close>

text \<open>
  What the code-change reducer reads of a \<open>CodeDelta\<close> (core/language.py): symbols by qualified name and
  snapshots by their files.
\<close>

record code_symbol =
  sy_qualified_name :: string
  sy_kind :: string
  sy_file_path :: string

record code_snapshot =
  sn_files :: "(string \<times> code_symbol list) list"

record code_delta =
  de_before :: code_snapshot
  de_after :: code_snapshot
  de_added_symbols :: "code_symbol list"
  de_removed_symbols :: "code_symbol list"
  de_changed_symbols :: "code_symbol list"
  de_added_files :: "string list"
  de_changed_files :: "string list"

text \<open>
  A payload is a plain value, or an object together with what its \<open>to_dict()\<close> returns (\<open>None\<close> for an
  object without that method).
\<close>

datatype py_object = DeltaObject code_delta | DomainObject domain_profile | ChallengeObject challenge_profile | OtherObject

datatype payload = Plain pyval | Object py_object "pyval option"

record evidence_item =
  ei_source_type :: string
  ei_evidence_id :: string
  ei_payload :: payload

record reducer_input =
  ri_scope_path :: string
  ri_scope_type :: string
  ri_scope_id :: string
  ri_repository_id :: string
  ri_evidence :: "evidence_item list"
  ri_facts :: "canonical_fact list"
  ri_now :: string
  ri_source_revision :: string

type_synonym reducer = "reducer_input \<Rightarrow> py_error + canonical_fact list"

section \<open>Shared helpers of the reducers\<close>

definition REVISION_FALLBACK :: string where
  "REVISION_FALLBACK = ''workflow-run/unrevisioned''"

definition enum_list_text :: "pyval \<Rightarrow> py_error + string" where
  "enum_list_text v = (case iterate v of Inl e \<Rightarrow> Inl e | Inr xs \<Rightarrow> Inr (join_with (CHR '','') (map py_str xs)))"

definition encode_value :: "pyval \<Rightarrow> string \<Rightarrow> py_error + string" where
  "encode_value v value_type =
     (if value_type = ''bool'' then Inr (if truthy v then ''true'' else ''false'')
      else if value_type = ''int'' then (case py_int v of Inl e \<Rightarrow> Inl e | Inr i \<Rightarrow> Inr (show_int i))
      else if value_type \<in> {''float'', ''usd''} then Inr (py_str v)
      else if value_type = ''enum-list'' then enum_list_text v
      else Inr (py_str v))"

definition cell_id :: "string \<Rightarrow> string \<Rightarrow> string" where
  "cell_id spec_name model =
     ''wf_'' @ strip_by (\<lambda>c. c = CHR ''_'') (py_lower (underscore_slug (spec_name @ ''_'' @ model)))"

definition run_artifact_id :: "(string \<Rightarrow> string) \<Rightarrow> pydict \<Rightarrow> string" where
  "run_artifact_id sha run = sha (json_dumps (PDict run))"

definition run_recency_key :: "pydict \<Rightarrow> string" where
  "run_recency_key run = or_text (pyget run ''ended_at'') (or_text (pyget run ''started_at'') [])"

fun as_dict :: "payload \<Rightarrow> pydict option" where
  "as_dict (Plain v) = as_pydict v"
| "as_dict (Object _ coerced) = (case coerced of None \<Rightarrow> None | Some v \<Rightarrow> as_pydict v)"

text \<open>\<open>replace(fact, inputs_digest=recompute_inputs_digest(fact))\<close>, the last step of every constructor.\<close>

definition with_digest :: "(string \<Rightarrow> string) \<Rightarrow> canonical_fact \<Rightarrow> canonical_fact" where
  "with_digest sha f = f\<lparr>cf_inputs_digest := recompute_inputs_digest sha f\<rparr>"

text \<open>\<open>FACT_PREDICATES[p]\<close> and \<open>EPISTEMIC_MAP[s]\<close>; the reducers ask for declared names only
  (\<open>produced_predicate\<close>, \<open>epistemic_of\<close>).\<close>

definition predicate_row :: "string \<Rightarrow> predicate_spec" where
  "predicate_row p = the (predicate_of p)"

definition authority_of :: "string \<Rightarrow> authority" where
  "authority_of status = fst (the (map_of EPISTEMIC_MAP status))"

definition evidence_class_of :: "string \<Rightarrow> string" where
  "evidence_class_of status = snd (the (map_of EPISTEMIC_MAP status))"

section \<open>When a minted fact passes the chain check\<close>

definition minted_by :: "(string \<Rightarrow> string) \<Rightarrow> reducer_spec \<Rightarrow> canonical_fact \<Rightarrow> bool" where
  "minted_by sha s f \<longleftrightarrow> cf_reducer_version f = rs_version s \<and> cf_predicate f \<in> set (rs_produces s)
     \<and> cf_level f = ps_level (predicate_row (cf_predicate f))
     \<and> cf_inputs_digest f = recompute_inputs_digest sha f
     \<and> map_of EPISTEMIC_MAP (cf_epistemic_status f) = Some (cf_authority f, cf_evidence_class f)
     \<and> cf_fact_id f = []"

lemma digest_ignores_digest [simp]: "recompute_inputs_digest sha (f\<lparr>cf_inputs_digest := d\<rparr>) = recompute_inputs_digest sha f"
  by (simp add: recompute_inputs_digest_def)

lemma with_digest_simps [simp]:
  "cf_inputs_digest (with_digest sha f) = recompute_inputs_digest sha f"
  "recompute_inputs_digest sha (with_digest sha f) = recompute_inputs_digest sha f"
  "cf_reducer_version (with_digest sha f) = cf_reducer_version f" "cf_predicate (with_digest sha f) = cf_predicate f"
  "cf_level (with_digest sha f) = cf_level f" "cf_epistemic_status (with_digest sha f) = cf_epistemic_status f"
  "cf_authority (with_digest sha f) = cf_authority f" "cf_evidence_class (with_digest sha f) = cf_evidence_class f"
  "cf_fact_id (with_digest sha f) = cf_fact_id f" "cf_entity_id (with_digest sha f) = cf_entity_id f"
  "cf_value (with_digest sha f) = cf_value f" "cf_evidence_ids (with_digest sha f) = cf_evidence_ids f"
  "cf_scope_path (with_digest sha f) = cf_scope_path f" "cf_observed_at (with_digest sha f) = cf_observed_at f"
  by (simp_all add: with_digest_def)

lemma epistemic_of:
  "s \<in> {''observed'', ''verified'', ''derived'', ''declared'', ''advisory''} \<Longrightarrow>
     map_of EPISTEMIC_MAP s = Some (authority_of s, evidence_class_of s)"
  by (auto simp: authority_of_def evidence_class_of_def EPISTEMIC_MAP_def)

lemma minted_chain:
  assumes "minted_by sha s f" "reducer_of (rs_version s) = Some s"
  shows "verify_chain sha f None = []"
    and "(\<And>e. e \<in> set (cf_evidence_ids f) \<Longrightarrow> r e \<noteq> None) \<Longrightarrow> verify_chain sha f (Some r) = []"
proof -
  have "cf_level f = rs_level s"
    using assms produced_predicate [OF assms(2), of "cf_predicate f"] by (auto simp: minted_by_def predicate_row_def)
  with assms show "verify_chain sha f None = []"
    and "(\<And>e. e \<in> set (cf_evidence_ids f) \<Longrightarrow> r e \<noteq> None) \<Longrightarrow> verify_chain sha f (Some r) = []"
    by (auto simp: verify_chain_ok minted_by_def)
qed

section \<open>The profile reducer\<close>

definition profile_fact :: "(string \<Rightarrow> string) \<Rightarrow> reducer_input \<Rightarrow> string \<Rightarrow> string \<Rightarrow> string \<Rightarrow> canonical_fact" where
  "profile_fact sha inp subject_id predicate v =
     (let spec = predicate_row predicate in with_digest sha
      \<lparr>cf_entity_id = compute_fact_entity_id sha (ri_repository_id inp) ''workload'' subject_id predicate ''policy'' subject_id,
       cf_fact_id = [], cf_subject_type = ''policy'', cf_subject_id = subject_id, cf_predicate = predicate,
       cf_value = v, cf_value_type = ps_value_type spec, cf_unit = ps_unit spec,
       cf_scope_type = ''workload'', cf_scope_id = subject_id,
       cf_scope_path = ''org:'' @ ri_repository_id inp @ ''/workload:'' @ subject_id,
       cf_level = ps_level spec, cf_epistemic_status = ''declared'', cf_authority = authority_of ''declared'',
       cf_evidence_class = evidence_class_of ''declared'', cf_observed_at = ri_now inp, cf_valid_from = ri_now inp,
       cf_valid_to = None, cf_expires_at = None, cf_reducer = ''profiles'', cf_reducer_version = ''profiles/v1'',
       cf_evidence_ids = [], cf_inputs_digest = [], cf_supersedes = None,
       cf_source_revision = ri_source_revision inp, cf_repository_id = ri_repository_id inp,
       cf_lifecycle = ''current''\<rparr>)"

definition profile_facts_of :: "(string \<Rightarrow> string) \<Rightarrow> reducer_input \<Rightarrow> evidence_item \<Rightarrow> canonical_fact list" where
  "profile_facts_of sha inp item =
     (case ei_payload item of
        Object (DomainObject p) _ \<Rightarrow> [profile_fact sha inp (dp_domain p) ''domain_profile_version'' (dp_version p)]
      | Object (ChallengeObject p) _ \<Rightarrow> [profile_fact sha inp (ch_challenge p) ''challenge_profile_version'' (ch_version p)]
      | _ \<Rightarrow> [])"

definition profiles_v1 :: "(string \<Rightarrow> string) \<Rightarrow> reducer" where
  "profiles_v1 sha inp = Inr (concat (map (profile_facts_of sha inp) (ri_evidence inp)))"

lemma profile_fact_minted:
  "p \<in> {''domain_profile_version'', ''challenge_profile_version''} \<Longrightarrow>
     minted_by sha PROFILES_V1 (profile_fact sha inp i p v)"
  by (auto simp: minted_by_def profile_fact_def PROFILES_V1_def Let_def epistemic_of)

lemma profile_facts_of_minted: "f \<in> set (profile_facts_of sha inp item) \<Longrightarrow> minted_by sha PROFILES_V1 f"
  unfolding profile_facts_of_def using profile_fact_minted
  by (cases "ei_payload item") (auto split: py_object.splits)

lemma profiles_v1_minted: "profiles_v1 sha inp = Inr fs \<Longrightarrow> f \<in> set fs \<Longrightarrow> minted_by sha PROFILES_V1 f"
  by (auto simp: profiles_v1_def profile_facts_of_minted)

end
