(* ===== verification/Run_Reducers.thy ===== *)
theory Run_Reducers
  imports Reducer_Base
begin

text \<open>
  The reducers of run artifacts: \<open>attempt_facts/v1\<close>, \<open>job_facts/v1\<close> and \<open>story_facts/v1\<close>
  (control/reducers/attempt_facts.py, job_facts.py, story_facts.py). A run, a phase, a story cell and a
  session are dictionaries.
\<close>

section \<open>Attempt facts\<close>

definition EPISTEMIC_BY_PREDICATE :: "(string \<times> string) list" where
  "EPISTEMIC_BY_PREDICATE = [(''attempt_confidence'', ''advisory''), (''phase_test_verified'', ''verified'')]"

definition attempt_epistemic :: "string \<Rightarrow> string" where
  "attempt_epistemic predicate =
     (case map_of EPISTEMIC_BY_PREDICATE predicate of None \<Rightarrow> ''observed'' | Some s \<Rightarrow> s)"

definition run_cell :: "pydict \<Rightarrow> string" where
  "run_cell run = cell_id (or_text (pyget run ''spec_name'') []) (or_text (pyget run ''model'') [])"

definition run_observed_at :: "pydict \<Rightarrow> string \<Rightarrow> string" where
  "run_observed_at run now = or_text (pyget run ''ended_at'') (or_text (pyget run ''started_at'') now)"

definition attempt_fact ::
  "(string \<Rightarrow> string) \<Rightarrow> pydict \<Rightarrow> string \<Rightarrow> string \<Rightarrow> reducer_input \<Rightarrow> string \<Rightarrow> string \<Rightarrow> string \<Rightarrow> canonical_fact" where
  "attempt_fact sha run phase_name scope_id inp evidence_id predicate v =
     (let spec = predicate_row predicate; status = attempt_epistemic predicate; observed_at = run_observed_at run (ri_now inp)
      in with_digest sha
      \<lparr>cf_entity_id = compute_fact_entity_id sha (ri_repository_id inp) ''attempt'' scope_id predicate ''attempt'' phase_name,
       cf_fact_id = [], cf_subject_type = ''attempt'', cf_subject_id = phase_name, cf_predicate = predicate,
       cf_value = v, cf_value_type = ps_value_type spec, cf_unit = ps_unit spec,
       cf_scope_type = ''attempt'', cf_scope_id = scope_id,
       cf_scope_path = ''org:'' @ ri_repository_id inp @ ''/workload:'' @ py_str (pyget run ''spec_name'')
         @ ''/job:'' @ run_cell run @ ''/attempt:'' @ phase_name @ ''/run:'' @ run_artifact_id sha run,
       cf_level = ps_level spec, cf_epistemic_status = status, cf_authority = authority_of status,
       cf_evidence_class = evidence_class_of status, cf_observed_at = observed_at, cf_valid_from = observed_at,
       cf_valid_to = None, cf_expires_at = None, cf_reducer = ''attempt_facts'', cf_reducer_version = ''attempt_facts/v1'',
       cf_evidence_ids = (if evidence_id \<noteq> [] then [evidence_id] else []), cf_inputs_digest = [], cf_supersedes = None,
       cf_source_revision = or_text (pyget run ''git_sha'') REVISION_FALLBACK, cf_repository_id = ri_repository_id inp,
       cf_lifecycle = ''current''\<rparr>)"

text \<open>The token counts and the measurements of an agent phase, in the order of the code.\<close>

definition token_values :: "pyval \<Rightarrow> (string \<Rightarrow> string \<Rightarrow> canonical_fact) \<Rightarrow> (py_error + canonical_fact list) list" where
  "token_values tokens mk = (case as_pydict tokens of None \<Rightarrow> []
     | Some t \<Rightarrow> [append_if (pyget t ''in'' \<noteq> PNone) (mk ''attempt_tokens_in'') (encode_value (pyget t ''in'') ''int''),
                 append_if (pyget t ''out'' \<noteq> PNone) (mk ''attempt_tokens_out'') (encode_value (pyget t ''out'') ''int'')])"

definition is_number :: "pyval \<Rightarrow> bool" where
  "is_number v \<longleftrightarrow> as_number v \<noteq> None"

fun is_bool :: "pyval \<Rightarrow> bool" where
  "is_bool (PBool _) = True"
| "is_bool _ = False"

definition facts_for_phase ::
  "(string \<Rightarrow> string) \<Rightarrow> pydict \<Rightarrow> pydict \<Rightarrow> reducer_input \<Rightarrow> string \<Rightarrow> py_error + canonical_fact list" where
  "facts_for_phase sha run phase inp evidence_id =
     (let phase_name = or_text (pyget phase ''phase'') [];
          scope_id = run_cell run @ '':'' @ phase_name @ '':'' @ run_artifact_id sha run;
          mk = attempt_fact sha run phase_name scope_id inp evidence_id;
          status = or_text (pyget phase ''status'') [];
          commit = or_text (pyget phase ''commit_hash'') [];
          model = or_text (pyget phase ''model'') [];
          tokens = (if truthy (pyget phase ''tokens'') then pyget phase ''tokens'' else PDict [])
      in if phase_name = [] then Inr []
         else append_all
           ([append_if (status \<noteq> []) (mk ''phase_status'') (encode_value (PStr status) ''enum''),
             append_if (commit \<noteq> []) (mk ''phase_commit'') (encode_value (PStr commit) ''str'')]
            @ (if or_text (pyget phase ''kind'') ''agent'' = ''agent''
               then append_if (model \<noteq> []) (mk ''attempt_model'') (encode_value (PStr model) ''str'')
                    # token_values tokens mk
                    @ [append_if (is_number (pyget phase ''cost_usd'')) (mk ''attempt_cost_usd'')
                         (encode_value (pyget phase ''cost_usd'') ''usd''),
                       append_if (is_number (pyget phase ''cache_hit_rate'')) (mk ''attempt_cache_hit_rate'')
                         (encode_value (pyget phase ''cache_hit_rate'') ''float''),
                       append_if (pyget phase ''confidence'' \<noteq> PNone) (mk ''attempt_confidence'')
                         (encode_value (pyget phase ''confidence'') ''float'')]
               else [])
            @ [append_if (is_bool (pyget phase ''test_executed_success'')) (mk ''phase_test_verified'')
                 (encode_value (pyget phase ''test_executed_success'') ''bool'')]))"

text \<open>\<open>run.get("phases") or []\<close>, skipped unless it is a list.\<close>

definition list_field :: "pydict \<Rightarrow> string \<Rightarrow> pyval list option" where
  "list_field d k = (if truthy (pyget d k) then (case pyget d k of PList xs \<Rightarrow> Some xs | _ \<Rightarrow> None) else Some [])"

definition attempt_facts_for_item ::
  "(string \<Rightarrow> string) \<Rightarrow> reducer_input \<Rightarrow> evidence_item \<Rightarrow> py_error + canonical_fact list" where
  "attempt_facts_for_item sha inp item =
     (case as_dict (ei_payload item) of None \<Rightarrow> Inr []
      | Some run \<Rightarrow>
          (case list_field run ''phases'' of None \<Rightarrow> Inr []
           | Some phases \<Rightarrow> append_all
               (map (\<lambda>p. case as_pydict p of None \<Rightarrow> Inr [] | Some phase \<Rightarrow> facts_for_phase sha run phase inp (ei_evidence_id item))
                 phases)))"

definition attempt_facts_v1 :: "(string \<Rightarrow> string) \<Rightarrow> reducer" where
  "attempt_facts_v1 sha inp = append_all (map (attempt_facts_for_item sha inp) (ri_evidence inp))"

section \<open>Job facts\<close>

definition job_fact ::
  "(string \<Rightarrow> string) \<Rightarrow> pydict \<Rightarrow> reducer_input \<Rightarrow> string \<Rightarrow> string \<Rightarrow> string \<Rightarrow> canonical_fact" where
  "job_fact sha run inp evidence_id predicate v =
     (let spec = predicate_row predicate; cell = run_cell run; observed_at = run_observed_at run (ri_now inp)
      in with_digest sha
      \<lparr>cf_entity_id = compute_fact_entity_id sha (ri_repository_id inp) ''job'' cell predicate ''job'' cell,
       cf_fact_id = [], cf_subject_type = ''job'', cf_subject_id = cell, cf_predicate = predicate,
       cf_value = v, cf_value_type = ps_value_type spec, cf_unit = ps_unit spec,
       cf_scope_type = ''job'', cf_scope_id = cell,
       cf_scope_path = ''org:'' @ ri_repository_id inp @ ''/workload:'' @ py_str (pyget run ''spec_name'') @ ''/job:'' @ cell,
       cf_level = ps_level spec, cf_epistemic_status = ''observed'', cf_authority = authority_of ''observed'',
       cf_evidence_class = evidence_class_of ''observed'', cf_observed_at = observed_at, cf_valid_from = observed_at,
       cf_valid_to = None, cf_expires_at = None, cf_reducer = ''job_facts'', cf_reducer_version = ''job_facts/v1'',
       cf_evidence_ids = (if evidence_id \<noteq> [] then [evidence_id] else []), cf_inputs_digest = [], cf_supersedes = None,
       cf_source_revision = or_text (pyget run ''git_sha'') REVISION_FALLBACK, cf_repository_id = ri_repository_id inp,
       cf_lifecycle = ''current''\<rparr>)"

definition facts_for_run ::
  "(string \<Rightarrow> string) \<Rightarrow> pydict \<Rightarrow> reducer_input \<Rightarrow> string \<Rightarrow> py_error + canonical_fact list" where
  "facts_for_run sha run inp evidence_id =
     (let mk = job_fact sha run inp evidence_id;
          git_sha = or_text (pyget run ''git_sha'') [];
          n_phases = (case list_field run ''phases'' of None \<Rightarrow> 0 | Some xs \<Rightarrow> length xs)
      in if or_text (pyget run ''spec_name'') [] = [] \<or> or_text (pyget run ''model'') [] = [] then Inr []
         else append_all
           [append_if (git_sha \<noteq> []) (mk ''current_commit'') (encode_value (PStr git_sha) ''str''),
            append_if (is_number (pyget run ''total_cost_usd'')) (mk ''job_accumulated_cost_usd'')
              (encode_value (pyget run ''total_cost_usd'') ''usd''),
            Inr [mk ''job_status'' (if truthy (pyget run ''ok'') then ''ok'' else ''failed'')],
            append_if True (mk ''job_n_phases'') (encode_value (PInt (int n_phases)) ''int'')])"

definition job_facts_for_item ::
  "(string \<Rightarrow> string) \<Rightarrow> reducer_input \<Rightarrow> evidence_item \<Rightarrow> py_error + canonical_fact list" where
  "job_facts_for_item sha inp item =
     (case as_dict (ei_payload item) of None \<Rightarrow> Inr [] | Some run \<Rightarrow> facts_for_run sha run inp (ei_evidence_id item))"

definition job_facts_v1 :: "(string \<Rightarrow> string) \<Rightarrow> reducer" where
  "job_facts_v1 sha inp = append_all (map (job_facts_for_item sha inp) (ri_evidence inp))"

section \<open>Story facts\<close>

definition story_cell_identity :: "pydict \<Rightarrow> string \<times> string" where
  "story_cell_identity cell =
     (let story = or_text (pyget cell ''story_name'') []; condition = or_text (pyget cell ''perturbation_condition'') []
      in (if condition \<noteq> [] \<and> condition \<noteq> ''None'' then story @ ''_'' @ condition else story,
          or_text (pyget cell ''model'') []))"

text \<open>\<open>v == 0\<close> holds of the numbers zero and of \<open>False\<close>.\<close>

definition equals_zero :: "pyval \<Rightarrow> bool" where
  "equals_zero v \<longleftrightarrow> v = PInt 0 \<or> v = PFloat (Fin 0) \<or> v = PBool False"

definition session_ok :: "pydict \<Rightarrow> bool" where
  "session_ok s \<longleftrightarrow> equals_zero (pyget s ''exit_code'') \<and> \<not> truthy (pyget s ''error'')"

definition cell_ok :: "pydict \<Rightarrow> bool" where
  "cell_ok cell \<longleftrightarrow> \<not> truthy (pyget cell ''error'')
     \<and> (case pyget cell ''sessions'' of
          PList xs \<Rightarrow> xs \<noteq> [] \<and> list_all (\<lambda>s. case as_pydict s of None \<Rightarrow> False | Some d \<Rightarrow> session_ok d) xs
        | _ \<Rightarrow> False)"

definition session_name :: "pydict \<Rightarrow> string" where
  "session_name session = (case pyget session ''session_number'' of PNone \<Rightarrow> ''session'' | v \<Rightarrow> ''session'' @ py_str v)"

definition token_split :: "pydict \<Rightarrow> pydict" where
  "token_split t = [(''in'', pyget t ''in''), (''out'', pyget t ''out'')]"

definition session_phase :: "pydict \<Rightarrow> pydict \<Rightarrow> pydict" where
  "session_phase cell session =
     (let model = snd (story_cell_identity cell); commit = or_text (pyget session ''commit_hash'') []
      in [(''phase'', PStr (session_name session)), (''kind'', PStr ''agent''),
          (''status'', PStr (if session_ok session then ''ok'' else ''failed''))]
         @ (if commit \<noteq> [] then [(''commit_hash'', PStr commit)] else [])
         @ (if model \<noteq> [] then [(''model'', PStr model)] else [])
         @ (if is_number (pyget session ''cost_usd'') then [(''cost_usd'', pyget session ''cost_usd'')] else [])
         @ (if pyget session ''confidence'' \<noteq> PNone then [(''confidence'', pyget session ''confidence'')] else [])
         @ (case as_pydict (pyget session ''tokens'') of None \<Rightarrow> []
            | Some t \<Rightarrow> if pyget t ''in'' \<noteq> PNone \<or> pyget t ''out'' \<noteq> PNone
                       then [(''tokens'', PDict (token_split t))] else []))"

text \<open>\<open>(cell.get("summary") or {}).get("total_cost")\<close>\<close>

definition summary_total_cost :: "pydict \<Rightarrow> py_error + pyval" where
  "summary_total_cost cell =
     (if \<not> truthy (pyget cell ''summary'') then Inr PNone
      else case as_pydict (pyget cell ''summary'') of None \<Rightarrow> Inl AttributeError | Some s \<Rightarrow> Inr (pyget s ''total_cost''))"

definition session_run :: "pydict \<Rightarrow> pydict \<Rightarrow> py_error + pydict" where
  "session_run cell session =
     (case summary_total_cost cell of Inl e \<Rightarrow> Inl e
      | Inr spent \<Rightarrow>
          (let (spec_name, model) = story_cell_identity cell
           in Inr [(''spec_name'', PStr spec_name), (''spec_id'', PStr (spec_name @ ''@story'')), (''model'', PStr model),
                   (''git_sha'', PStr (or_text (pyget session ''commit_hash'') [])),
                   (''started_at'', PStr (or_text (pyget cell ''started_at'') [])),
                   (''ended_at'', PStr (or_text (pyget cell ''completed_at'') [])),
                   (''total_cost_usd'', spent), (''ok'', PBool (cell_ok cell)),
                   (''phases'', PList [PDict (session_phase cell session)])]))"

definition story_fact ::
  "(string \<Rightarrow> string) \<Rightarrow> pydict \<Rightarrow> pydict \<Rightarrow> pydict \<Rightarrow> string \<Rightarrow> string \<Rightarrow> reducer_input \<Rightarrow> string \<Rightarrow> string \<Rightarrow> string
     \<Rightarrow> canonical_fact" where
  "story_fact sha run cell session phase_name scope_id inp evidence_id predicate v =
     (let spec = predicate_row predicate; status = attempt_epistemic predicate;
          (spec_name, model) = story_cell_identity cell;
          observed_at = or_text (pyget cell ''completed_at'') (or_text (pyget cell ''started_at'') (ri_now inp))
      in with_digest sha
      \<lparr>cf_entity_id = compute_fact_entity_id sha (ri_repository_id inp) ''attempt'' scope_id predicate ''attempt'' phase_name,
       cf_fact_id = [], cf_subject_type = ''attempt'', cf_subject_id = phase_name, cf_predicate = predicate,
       cf_value = v, cf_value_type = ps_value_type spec, cf_unit = ps_unit spec,
       cf_scope_type = ''attempt'', cf_scope_id = scope_id,
       cf_scope_path = ''org:'' @ ri_repository_id inp @ ''/workload:'' @ spec_name
         @ ''/job:'' @ cell_id spec_name model @ ''/attempt:'' @ phase_name @ ''/run:'' @ run_artifact_id sha run,
       cf_level = ps_level spec, cf_epistemic_status = status, cf_authority = authority_of status,
       cf_evidence_class = evidence_class_of status, cf_observed_at = observed_at, cf_valid_from = observed_at,
       cf_valid_to = None, cf_expires_at = None, cf_reducer = ''story_facts'', cf_reducer_version = ''story_facts/v1'',
       cf_evidence_ids = (if evidence_id \<noteq> [] then [evidence_id] else []), cf_inputs_digest = [], cf_supersedes = None,
       cf_source_revision = or_text (pyget session ''commit_hash'') REVISION_FALLBACK,
       cf_repository_id = ri_repository_id inp, cf_lifecycle = ''current''\<rparr>)"

definition facts_for_session ::
  "(string \<Rightarrow> string) \<Rightarrow> pydict \<Rightarrow> pydict \<Rightarrow> reducer_input \<Rightarrow> string \<Rightarrow> bool \<Rightarrow> py_error + canonical_fact list" where
  "facts_for_session sha cell session inp evidence_id is_terminal =
     (case session_run cell session of Inl e \<Rightarrow> Inl e
      | Inr run \<Rightarrow>
          (let phase_name = session_name session;
               (spec_name, model) = story_cell_identity cell;
               scope_id = cell_id spec_name model @ '':'' @ phase_name @ '':'' @ run_artifact_id sha run;
               mk = story_fact sha run cell session phase_name scope_id inp evidence_id;
               commit = or_text (pyget session ''commit_hash'') []
           in append_all
             ([append_if True (mk ''phase_status'') (encode_value (PStr (if session_ok session then ''ok'' else ''failed'')) ''enum''),
               append_if (commit \<noteq> []) (mk ''phase_commit'') (encode_value (PStr commit) ''str''),
               append_if (model \<noteq> []) (mk ''attempt_model'') (encode_value (PStr model) ''str'')]
              @ token_values (pyget session ''tokens'') mk
              @ [append_if (is_number (pyget session ''cost_usd'')) (mk ''attempt_cost_usd'')
                   (encode_value (pyget session ''cost_usd'') ''usd''),
                 append_if (pyget session ''confidence'' \<noteq> PNone) (mk ''attempt_confidence'')
                   (encode_value (pyget session ''confidence'') ''float''),
                 append_if (is_terminal \<and> is_bool (pyget cell ''test_executed_success'')) (mk ''phase_test_verified'')
                   (encode_value (pyget cell ''test_executed_success'') ''bool'')])))"

text \<open>The live sessions in order; the last one is terminal.\<close>

fun facts_for_sessions ::
  "(string \<Rightarrow> string) \<Rightarrow> pydict \<Rightarrow> reducer_input \<Rightarrow> string \<Rightarrow> pydict list \<Rightarrow> (py_error + canonical_fact list) list" where
  "facts_for_sessions sha cell inp evidence_id [] = []"
| "facts_for_sessions sha cell inp evidence_id (s # ss) =
     facts_for_session sha cell s inp evidence_id (ss = []) # facts_for_sessions sha cell inp evidence_id ss"

definition story_facts_for_item ::
  "(string \<Rightarrow> string) \<Rightarrow> reducer_input \<Rightarrow> evidence_item \<Rightarrow> py_error + canonical_fact list" where
  "story_facts_for_item sha inp item =
     (case as_dict (ei_payload item) of None \<Rightarrow> Inr []
      | Some cell \<Rightarrow>
          if fst (story_cell_identity cell) = [] \<or> snd (story_cell_identity cell) = [] then Inr []
          else (case list_field cell ''sessions'' of None \<Rightarrow> Inr []
                | Some sessions \<Rightarrow>
                    append_all (facts_for_sessions sha cell inp (ei_evidence_id item) (List.map_filter as_pydict sessions))))"

definition story_facts_v1 :: "(string \<Rightarrow> string) \<Rightarrow> reducer" where
  "story_facts_v1 sha inp = append_all (map (story_facts_for_item sha inp) (ri_evidence inp))"

end
