(* ===== verification/Plan_Reducers.thy ===== *)
theory Plan_Reducers
  imports Run_Reducers
begin

text \<open>
  The reducers of plans and cells: \<open>spec_status/v1\<close> over the entries of the spec index, \<open>policy_facts/v1\<close>
  over the declared limits with their monotone tightening, and \<open>workflow_facts/v1\<close>, the first reducer
  that reads facts (control/reducers/spec_status.py, policy_facts.py, workflow_facts.py).
\<close>

section \<open>Spec status\<close>

text \<open>\<open>d.get(k, default)\<close>\<close>

definition pyget_or :: "pydict \<Rightarrow> string \<Rightarrow> pyval \<Rightarrow> pyval" where
  "pyget_or d k v = (case map_of d k of None \<Rightarrow> v | Some x \<Rightarrow> x)"

definition spec_fact :: "(string \<Rightarrow> string) \<Rightarrow> pydict \<Rightarrow> reducer_input \<Rightarrow> string \<Rightarrow> string \<Rightarrow> canonical_fact" where
  "spec_fact sha entry inp predicate v =
     (let name = py_str (pyget entry ''name''); spec = predicate_row predicate;
          observed_at = or_text (pyget entry ''last_run_at'') (ri_now inp)
      in with_digest sha
      \<lparr>cf_entity_id = compute_fact_entity_id sha (ri_repository_id inp) ''workload'' name predicate ''spec'' name,
       cf_fact_id = [], cf_subject_type = ''spec'', cf_subject_id = name, cf_predicate = predicate,
       cf_value = v, cf_value_type = ps_value_type spec, cf_unit = ps_unit spec,
       cf_scope_type = ''workload'', cf_scope_id = name,
       cf_scope_path = ''org:'' @ ri_repository_id inp @ ''/workload:'' @ name,
       cf_level = ps_level spec, cf_epistemic_status = ''derived'', cf_authority = authority_of ''derived'',
       cf_evidence_class = evidence_class_of ''derived'', cf_observed_at = observed_at, cf_valid_from = observed_at,
       cf_valid_to = None, cf_expires_at = None, cf_reducer = rs_name SPEC_STATUS_V1, cf_reducer_version = ''spec_status/v1'',
       cf_evidence_ids = [], cf_inputs_digest = [], cf_supersedes = None,
       cf_source_revision = ri_source_revision inp, cf_repository_id = ri_repository_id inp,
       cf_lifecycle = ''current''\<rparr>)"

text \<open>\<open>_encode\<close> is \<open>encode_value\<close> written out again; \<open>int(entry.get("n_runs", 0))\<close> may raise.\<close>

definition facts_for_entry :: "(string \<Rightarrow> string) \<Rightarrow> pydict \<Rightarrow> reducer_input \<Rightarrow> py_error + canonical_fact list" where
  "facts_for_entry sha entry inp =
     (let mk = spec_fact sha entry inp; get = pyget entry;
          supersedes = (if truthy (get ''supersedes'') then get ''supersedes'' else PList [])
      in if or_text (get ''name'') [] = [] then Inr []
         else append_all
           [append_if True (mk ''spec_status'') (encode_value (pyget_or entry ''status'' (PStr [])) ''enum''),
            append_if True (mk ''spec_n_runs'')
              (case py_int (pyget_or entry ''n_runs'' (PInt 0)) of Inl e \<Rightarrow> Inl e | Inr i \<Rightarrow> encode_value (PInt i) ''int''),
            append_if (truthy (get ''superseded_by'')) (mk ''spec_superseded_by'') (encode_value (get ''superseded_by'') ''str''),
            append_if (truthy supersedes) (mk ''spec_supersedes'') (encode_value supersedes ''enum-list''),
            append_if (truthy (get ''last_run_at'')) (mk ''spec_last_run_at'') (encode_value (get ''last_run_at'') ''timestamp''),
            append_if (is_bool (get ''latest_ok'')) (mk ''spec_latest_ok'') (encode_value (get ''latest_ok'') ''bool''),
            append_if (truthy (get ''latest_model'')) (mk ''spec_latest_model'') (encode_value (get ''latest_model'') ''str''),
            append_if (get ''latest_cost_usd'' \<noteq> PNone) (mk ''spec_latest_cost_usd'') (encode_value (get ''latest_cost_usd'') ''usd'')])"

definition per_dict :: "(pydict \<Rightarrow> py_error + canonical_fact list) \<Rightarrow> evidence_item \<Rightarrow> py_error + canonical_fact list" where
  "per_dict f item = (case as_dict (ei_payload item) of None \<Rightarrow> Inr [] | Some d \<Rightarrow> f d)"

definition spec_status_v1 :: "(string \<Rightarrow> string) \<Rightarrow> reducer" where
  "spec_status_v1 sha inp = append_all (map (per_dict (\<lambda>d. facts_for_entry sha d inp)) (ri_evidence inp))"

section \<open>Policy facts\<close>

definition policy_fact :: "(string \<Rightarrow> string) \<Rightarrow> string \<Rightarrow> reducer_input \<Rightarrow> string \<Rightarrow> string \<Rightarrow> canonical_fact" where
  "policy_fact sha name inp predicate v =
     (let spec = predicate_row predicate in with_digest sha
      \<lparr>cf_entity_id = compute_fact_entity_id sha (ri_repository_id inp) ''workload'' name predicate ''policy'' name,
       cf_fact_id = [], cf_subject_type = ''policy'', cf_subject_id = name, cf_predicate = predicate,
       cf_value = v, cf_value_type = ps_value_type spec, cf_unit = ps_unit spec,
       cf_scope_type = ''workload'', cf_scope_id = name,
       cf_scope_path = ''org:'' @ ri_repository_id inp @ ''/workload:'' @ name,
       cf_level = ps_level spec, cf_epistemic_status = ''declared'', cf_authority = authority_of ''declared'',
       cf_evidence_class = evidence_class_of ''declared'', cf_observed_at = ri_now inp, cf_valid_from = ri_now inp,
       cf_valid_to = None, cf_expires_at = None, cf_reducer = ''policy_facts'', cf_reducer_version = ''policy_facts/v1'',
       cf_evidence_ids = [], cf_inputs_digest = [], cf_supersedes = None,
       cf_source_revision = ri_source_revision inp, cf_repository_id = ri_repository_id inp,
       cf_lifecycle = ''current''\<rparr>)"

text \<open>\<open>isinstance(v, (int, float)) and v >= 0\<close> and \<open>isinstance(v, int) and v >= 0\<close>: a bool is an int.\<close>

fun non_negative_number :: "pyval \<Rightarrow> bool" where
  "non_negative_number (PBool b) = True"
| "non_negative_number (PInt i) = (0 \<le> i)"
| "non_negative_number (PFloat x) = fle (Fin 0) x"
| "non_negative_number _ = False"

fun non_negative_int :: "pyval \<Rightarrow> bool" where
  "non_negative_int (PBool b) = True"
| "non_negative_int (PInt i) = (0 \<le> i)"
| "non_negative_int _ = False"

fun non_empty_list :: "pyval \<Rightarrow> bool" where
  "non_empty_list (PList xs) = (xs \<noteq> [])"
| "non_empty_list _ = False"

definition facts_for_config :: "(string \<Rightarrow> string) \<Rightarrow> pydict \<Rightarrow> reducer_input \<Rightarrow> py_error + canonical_fact list" where
  "facts_for_config sha config inp =
     (let name = or_text (pyget config ''name'') []; mk = policy_fact sha name inp;
          pool = (if truthy (pyget config ''model_pool'') then pyget config ''model_pool'' else pyget config ''allowed_models'')
      in if name = [] then Inr []
         else append_all
           [append_if (non_negative_number (pyget config ''budget_usd'')) (mk ''max_spend_usd'')
              (encode_value (pyget config ''budget_usd'') ''usd''),
            append_if (non_negative_int (pyget config ''max_attempts'')) (mk ''max_attempts'')
              (encode_value (pyget config ''max_attempts'') ''int''),
            append_if (non_empty_list pool) (mk ''allowed_models'') (encode_value pool ''enum-list'')])"

definition policy_facts_v1 :: "(string \<Rightarrow> string) \<Rightarrow> reducer" where
  "policy_facts_v1 sha inp = append_all (map (per_dict (\<lambda>d. facts_for_config sha d inp)) (ri_evidence inp))"

text \<open>
  \<open>tighten(candidates, predicate)\<close>: the smallest limit, or the models every non-empty list allows. The
  predicate is one of the three the reducer declares.
\<close>

fun floats_of :: "string list \<Rightarrow> py_error + pyfloat list" where
  "floats_of [] = Inr []"
| "floats_of (v # vs) =
     (case py_float v of None \<Rightarrow> Inl ValueError
      | Some x \<Rightarrow> (case floats_of vs of Inl e \<Rightarrow> Inl e | Inr xs \<Rightarrow> Inr (x # xs)))"

definition common_models :: "string list \<Rightarrow> string list" where
  "common_models vs =
     (case map (split_on (CHR '','')) vs of [] \<Rightarrow> []
      | m # ms \<Rightarrow> sort (remdups (filter (\<lambda>x. list_all (\<lambda>l. x \<in> set l) ms) m)))"

definition smallest :: "pyfloat list \<Rightarrow> pyfloat" where
  "smallest xs = fmin_list (hd xs) (tl xs)"

definition tighten_policy :: "canonical_fact list \<Rightarrow> string \<Rightarrow> py_error + string option" where
  "tighten_policy candidates predicate =
     (let vs = map cf_value candidates in
      if vs = [] then Inr None
      else if predicate = ''allowed_models'' then
        (if filter (\<lambda>v. v \<noteq> []) vs = [] then Inr None
         else Inr (Some (join_with (CHR '','') (common_models (filter (\<lambda>v. v \<noteq> []) vs)))))
      else (case floats_of vs of Inl e \<Rightarrow> Inl e
            | Inr xs \<Rightarrow>
                (if ps_value_type (predicate_row predicate) = ''int''
                 then (case py_int (PFloat (smallest xs)) of Inl e \<Rightarrow> Inl e
                       | Inr i \<Rightarrow> map_sum id Some (encode_value (PInt i) ''int''))
                 else map_sum id Some (encode_value (PFloat (smallest xs)) (ps_value_type (predicate_row predicate))))))"

section \<open>Workflow facts\<close>

text \<open>The dictionary of a scope path: of two segments with one label the later wins.\<close>

definition segments :: "string \<Rightarrow> (string \<times> string) list" where
  "segments path = rev (parse_scope_path path)"

definition workflow_fact ::
  "(string \<Rightarrow> string) \<Rightarrow> string \<Rightarrow> string \<Rightarrow> reducer_input \<Rightarrow> string list \<Rightarrow> string \<Rightarrow> string \<Rightarrow> canonical_fact" where
  "workflow_fact sha workload cell inp evidence_ids predicate v =
     (let spec = predicate_row predicate in with_digest sha
      \<lparr>cf_entity_id = compute_fact_entity_id sha (ri_repository_id inp) ''workflow'' cell predicate ''workflow'' cell,
       cf_fact_id = [], cf_subject_type = ''workflow'', cf_subject_id = cell, cf_predicate = predicate,
       cf_value = v, cf_value_type = ps_value_type spec, cf_unit = ps_unit spec,
       cf_scope_type = ''workflow'', cf_scope_id = cell,
       cf_scope_path = ''org:'' @ ri_repository_id inp @ ''/workload:'' @ workload @ ''/workflow:'' @ cell,
       cf_level = ps_level spec, cf_epistemic_status = ''derived'', cf_authority = authority_of ''derived'',
       cf_evidence_class = evidence_class_of ''derived'', cf_observed_at = ri_now inp, cf_valid_from = ri_now inp,
       cf_valid_to = None, cf_expires_at = None, cf_reducer = ''workflow_facts'', cf_reducer_version = ''workflow_facts/v1'',
       cf_evidence_ids = evidence_ids, cf_inputs_digest = [], cf_supersedes = None,
       cf_source_revision = ri_source_revision inp, cf_repository_id = ri_repository_id inp,
       cf_lifecycle = ''current''\<rparr>)"

text \<open>The attempt facts of the most recently observed run, and the newest job fact of each predicate.\<close>

definition run_of :: "canonical_fact \<Rightarrow> string option" where
  "run_of f = map_of (segments (cf_scope_path f)) ''run''"

definition current_attempts :: "canonical_fact list \<Rightarrow> canonical_fact list" where
  "current_attempts cell_facts =
     (case filter (\<lambda>f. cf_scope_type f = ''attempt'') cell_facts of [] \<Rightarrow> []
      | f # fs \<Rightarrow> filter (\<lambda>g. run_of g = run_of (first_max cf_observed_at f fs)) (f # fs))"

fun put_job :: "canonical_fact \<Rightarrow> canonical_fact list \<Rightarrow> canonical_fact list" where
  "put_job f [] = [f]"
| "put_job f (g # gs) =
     (if cf_predicate g = cf_predicate f
      then (if cf_observed_at g \<le> cf_observed_at f then f else g) # gs
      else g # put_job f gs)"

definition current_jobs :: "canonical_fact list \<Rightarrow> canonical_fact list" where
  "current_jobs cell_facts = foldl (\<lambda>js f. put_job f js) [] (filter (\<lambda>f. cf_scope_type f = ''job'') cell_facts)"

definition job_of :: "string \<Rightarrow> canonical_fact list \<Rightarrow> canonical_fact option" where
  "job_of p js = List.find (\<lambda>f. cf_predicate f = p) js"

definition citable_ids :: "canonical_fact list \<Rightarrow> string list" where
  "citable_ids fs = sort (filter (\<lambda>i. i \<noteq> []) (map cf_fact_id fs))"

definition workflow_failed :: "canonical_fact option \<Rightarrow> canonical_fact list \<Rightarrow> bool" where
  "workflow_failed job_status phase_status =
     (case job_status of Some f \<Rightarrow> cf_value f = ''failed'' | None \<Rightarrow> list_ex (\<lambda>f. cf_value f = ''failed'') phase_status)"

definition workflow_status :: "bool \<Rightarrow> int \<Rightarrow> int \<Rightarrow> bool \<Rightarrow> string" where
  "workflow_status failed completed remaining recorded =
     (if failed then ''failed''
      else if 0 < completed \<and> remaining = 0 then ''completed''
      else if recorded then ''in_progress'' else ''unknown'')"

definition workflow_health :: "pyfloat option \<Rightarrow> bool \<Rightarrow> string \<Rightarrow> string" where
  "workflow_health overrun failed status =
     (if (case overrun of Some x \<Rightarrow> flt (Fin 0) x | None \<Rightarrow> False) \<or> failed then ''at_risk''
      else if status \<in> {''in_progress'', ''unknown''} then ''degraded'' else ''healthy'')"

text \<open>\<open>int(total_fact.value)\<close> and the two \<open>float(...)\<close> may raise ValueError.\<close>

definition total_phases :: "canonical_fact option \<Rightarrow> canonical_fact list \<Rightarrow> py_error + int" where
  "total_phases n_phases phase_status =
     (case n_phases of Some f \<Rightarrow> int_of_text (cf_value f) | None \<Rightarrow> Inr (int (length phase_status)))"

definition budget_overrun :: "canonical_fact option \<Rightarrow> canonical_fact option \<Rightarrow> py_error + pyfloat option" where
  "budget_overrun cost limit =
     (case (cost, limit) of
        (Some c, Some l) \<Rightarrow>
          (case (py_float (cf_value c), py_float (cf_value l)) of
             (Some x, Some y) \<Rightarrow> Inr (Some (fmax (Fin 0) (fsub x y)))
           | _ \<Rightarrow> Inl ValueError)
      | _ \<Rightarrow> Inr None)"

definition facts_for_cell ::
  "(string \<Rightarrow> string) \<Rightarrow> string \<Rightarrow> string \<Rightarrow> canonical_fact list \<Rightarrow> canonical_fact option \<Rightarrow> reducer_input
     \<Rightarrow> py_error + canonical_fact list" where
  "facts_for_cell sha workload cell cell_facts max_spend inp =
     (let attempts = current_attempts cell_facts;
          phase_status = filter (\<lambda>f. cf_predicate f = ''phase_status'') attempts;
          jobs = current_jobs cell_facts;
          evidence_ids = citable_ids (attempts @ jobs @ (case max_spend of None \<Rightarrow> [] | Some f \<Rightarrow> [f]));
          completed = int (length (filter (\<lambda>f. cf_value f = ''ok'') phase_status));
          failed = workflow_failed (job_of ''job_status'' jobs) phase_status;
          mk = workflow_fact sha workload cell inp evidence_ids
      in case total_phases (job_of ''job_n_phases'' jobs) phase_status of Inl e \<Rightarrow> Inl e
         | Inr t \<Rightarrow>
             (let remaining = max 0 (t - completed);
                  status = workflow_status failed completed remaining (phase_status \<noteq> [] \<or> jobs \<noteq> [])
              in case budget_overrun (job_of ''job_accumulated_cost_usd'' jobs) max_spend of Inl e \<Rightarrow> Inl e
                 | Inr overrun \<Rightarrow>
                     Inr ([mk ''workflow_phases_completed'' (show_int completed),
                           mk ''workflow_phases_remaining'' (show_int remaining),
                           mk ''workflow_status'' status,
                           mk ''workflow_health'' (workflow_health overrun failed status)]
                          @ (case overrun of None \<Rightarrow> [] | Some x \<Rightarrow> [mk ''projected_budget_overrun'' (repr_float x)]))))"

text \<open>
  The first pass over the facts: the limits by workload, and for each cell the workload of its first fact
  and its facts, without those whose id the cell has seen.
\<close>

record ladder =
  la_limits :: "string \<Rightarrow> canonical_fact option"
  la_cells :: "string list"
  la_workload :: "string \<Rightarrow> string"
  la_facts :: "string \<Rightarrow> canonical_fact list"

definition empty_ladder :: ladder where
  "empty_ladder = \<lparr>la_limits = (\<lambda>_. None), la_cells = [], la_workload = (\<lambda>_. []), la_facts = (\<lambda>_. [])\<rparr>"

definition is_policy :: "canonical_fact \<Rightarrow> bool" where
  "is_policy f \<longleftrightarrow> cf_scope_type f = ''workload'' \<and> cf_predicate f \<in> {''max_spend_usd'', ''spec_status''}"

definition segment_or_empty :: "canonical_fact \<Rightarrow> string \<Rightarrow> string" where
  "segment_or_empty f k = (case map_of (segments (cf_scope_path f)) k of None \<Rightarrow> [] | Some v \<Rightarrow> v)"

definition fact_cell :: "canonical_fact \<Rightarrow> string" where
  "fact_cell f = (if segment_or_empty f ''job'' \<noteq> [] then segment_or_empty f ''job'' else segment_or_empty f ''workflow'')"

definition seen_in :: "canonical_fact list \<Rightarrow> canonical_fact \<Rightarrow> bool" where
  "seen_in fs f \<longleftrightarrow> cf_fact_id f \<noteq> [] \<and> cf_fact_id f \<in> cf_fact_id ` set fs"

definition note_fact :: "canonical_fact \<Rightarrow> ladder \<Rightarrow> ladder" where
  "note_fact f L =
     (if is_policy f then
        (if cf_predicate f = ''max_spend_usd'' then L\<lparr>la_limits := (la_limits L)(cf_scope_id f := Some f)\<rparr> else L)
      else let cell = fact_cell f in
        if cell = [] \<or> seen_in (la_facts L cell) f then L
        else L\<lparr>la_cells := (if cell \<in> set (la_cells L) then la_cells L else la_cells L @ [cell]),
               la_workload := (if cell \<in> set (la_cells L) then la_workload L
                               else (la_workload L)(cell := segment_or_empty f ''workload'')),
               la_facts := (la_facts L)(cell := la_facts L cell @ [f])\<rparr>)"

definition ladder_of :: "canonical_fact list \<Rightarrow> ladder" where
  "ladder_of fs = foldl (\<lambda>L f. note_fact f L) empty_ladder fs"

definition workflow_facts_v1 :: "(string \<Rightarrow> string) \<Rightarrow> reducer" where
  "workflow_facts_v1 sha inp =
     (let L = ladder_of (ri_facts inp)
      in append_all (map (\<lambda>cell. facts_for_cell sha (la_workload L cell) cell (la_facts L cell)
           (la_limits L (la_workload L cell)) inp) (sort (la_cells L))))"

end
