(* ===== verification/Change_Reducers.thy ===== *)
theory Change_Reducers
  imports Plan_Reducers Py_Format
begin

text \<open>
  The reducers of sessions, code changes and findings: \<open>checkpoint/v1\<close>, \<open>code_change_facts/v2\<close> and
  \<open>pattern/v1\<close> (control/reducers/checkpoint.py with the payload of control/checkpoint.py,
  code_change_facts.py with the tested-by rule of core/language.py, pattern.py), and the registry of the
  reducers' implementations (control/reducers/__init__.py).
\<close>

section \<open>Checkpoints\<close>

record session_checkpoint =
  sc_goal :: string
  sc_completed :: "string list"
  sc_current_revision :: string
  sc_acceptance_state :: string

definition dict_items :: "pydict \<Rightarrow> string \<Rightarrow> py_error + pydict list" where
  "dict_items d k = (case iterate_or_empty (pyget d k) of Inl e \<Rightarrow> Inl e | Inr xs \<Rightarrow> Inr (List.map_filter as_pydict xs))"

definition completed_phase_names :: "pydict list \<Rightarrow> string list" where
  "completed_phase_names phases =
     map (\<lambda>p. py_str (pyget p ''phase'')) (filter (\<lambda>p. pyget p ''status'' = PStr ''ok'' \<and> truthy (pyget p ''phase'')) phases)"

definition acceptance_state :: "pydict \<Rightarrow> pydict list \<Rightarrow> string" where
  "acceptance_state run phases =
     (let tested = filter (\<lambda>p. pyget p ''test_executed_success'' \<noteq> PNone) phases
      in if tested \<noteq> [] then
           (if list_all (\<lambda>p. truthy (pyget p ''test_executed_success'')) tested then ''verified_pass'' else ''verified_fail'')
         else if truthy (pyget run ''ok'') then ''unverified_ok'' else ''unverified_fail'')"

definition checkpoint_from_run :: "pydict \<Rightarrow> py_error + session_checkpoint" where
  "checkpoint_from_run run =
     (case dict_items run ''phases'' of Inl e \<Rightarrow> Inl e
      | Inr phases \<Rightarrow> Inr \<lparr>sc_goal = or_text (pyget run ''goal'') [], sc_completed = completed_phase_names phases,
          sc_current_revision = or_text (pyget run ''git_sha'') [], sc_acceptance_state = acceptance_state run phases\<rparr>)"

text \<open>\<open>derived_payload\<close>: the snapshot fields are always \<open>None\<close> and \<open>False\<close> in this version.\<close>

definition derived_payload :: "session_checkpoint \<Rightarrow> pydict" where
  "derived_payload c =
     [(''goal'', PStr (sc_goal c)), (''completed'', PList (map PStr (sc_completed c))),
      (''current_revision'', PStr (sc_current_revision c)), (''acceptance_state'', PStr (sc_acceptance_state c)),
      (''context_snapshot_id'', PNone), (''snapshot_available'', PBool False)]"

definition checkpoint_fact ::
  "(string \<Rightarrow> string) \<Rightarrow> string \<Rightarrow> reducer_input \<Rightarrow> string \<Rightarrow> string \<Rightarrow> string list \<Rightarrow> string \<Rightarrow> string \<Rightarrow> canonical_fact" where
  "checkpoint_fact sha cell inp observed_at source_revision evidence_ids predicate v =
     (let spec = predicate_row predicate in with_digest sha
      \<lparr>cf_entity_id = compute_fact_entity_id sha (ri_repository_id inp) ''job'' cell predicate ''job'' cell,
       cf_fact_id = [], cf_subject_type = ''job'', cf_subject_id = cell, cf_predicate = predicate,
       cf_value = v, cf_value_type = ps_value_type spec, cf_unit = ps_unit spec,
       cf_scope_type = ''job'', cf_scope_id = cell,
       cf_scope_path = ''org:'' @ ri_repository_id inp @ ''/workload:'' @ cell @ ''/job:'' @ cell,
       cf_level = ps_level spec, cf_epistemic_status = ''derived'', cf_authority = authority_of ''derived'',
       cf_evidence_class = evidence_class_of ''derived'', cf_observed_at = observed_at, cf_valid_from = observed_at,
       cf_valid_to = None, cf_expires_at = None, cf_reducer = ''checkpoint'', cf_reducer_version = ''checkpoint/v1'',
       cf_evidence_ids = evidence_ids, cf_inputs_digest = [], cf_supersedes = None,
       cf_source_revision = source_revision, cf_repository_id = ri_repository_id inp,
       cf_lifecycle = ''current''\<rparr>)"

text \<open>
  The first pass: the runs of each cell in order, and the latest proposal of each session. An item of
  another kind, or one without a spec name and a model, is skipped.
\<close>

definition addressable :: "pydict \<Rightarrow> bool" where
  "addressable d \<longleftrightarrow> or_text (pyget d ''spec_name'') [] \<noteq> [] \<and> or_text (pyget d ''model'') [] \<noteq> []"

definition payloads_of :: "string \<Rightarrow> evidence_item list \<Rightarrow> pydict list" where
  "payloads_of source_type items =
     filter addressable (List.map_filter (\<lambda>i. if ei_source_type i = source_type then as_dict (ei_payload i) else None) items)"

definition runs_of_cell :: "string \<Rightarrow> evidence_item list \<Rightarrow> pydict list" where
  "runs_of_cell cell items = filter (\<lambda>run. run_cell run = cell) (payloads_of ''workflow_run'' items)"

definition checkpoint_cells :: "evidence_item list \<Rightarrow> string list" where
  "checkpoint_cells items = sort (remdups (map run_cell (payloads_of ''workflow_run'' items)))"

definition current_of_session :: "string \<Rightarrow> evidence_item list \<Rightarrow> pydict option" where
  "current_of_session spec_name items =
     List.find (\<lambda>d. or_text (pyget d ''spec_name'') [] = spec_name) (rev (payloads_of ''session_current'' items))"

text \<open>\<open>run.get("phases")[-1].get("phase") if run.get("phases") else None\<close>\<close>

definition last_phase_of :: "pydict \<Rightarrow> py_error + pyval" where
  "last_phase_of run =
     (if \<not> truthy (pyget run ''phases'') then Inr PNone
      else case pyget run ''phases'' of
        PList xs \<Rightarrow> (case as_pydict (last xs) of None \<Rightarrow> Inl AttributeError | Some p \<Rightarrow> Inr (pyget p ''phase''))
      | PStr _ \<Rightarrow> Inl AttributeError
      | PDict _ \<Rightarrow> Inl KeyError
      | _ \<Rightarrow> Inl TypeError)"

definition checkpoint_markers ::
  "session_checkpoint \<Rightarrow> pydict \<Rightarrow> pydict \<Rightarrow> pyval \<Rightarrow> string list" where
  "checkpoint_markers c run current last_phase =
     (let model = or_text (pyget run ''model'') []; current_model = or_text (pyget current ''model'') []
      in (if sc_goal c \<noteq> [] \<and> or_text (pyget current ''goal'') [] = sc_goal c then [''checkpoint_goal_unchanged''] else [])
         @ (if truthy last_phase \<and> PStr (or_text (pyget current ''phase'') []) = last_phase
            then [''checkpoint_phase_unchanged''] else [])
         @ (if model \<noteq> [] \<and> current_model = model then [''checkpoint_model_unchanged'']
            else if model \<noteq> [] \<and> current_model \<noteq> [] \<and> current_model \<noteq> model then [''model_change_required''] else []))"

definition checkpoint_of_run ::
  "(string \<Rightarrow> string) \<Rightarrow> reducer_input \<Rightarrow> string \<Rightarrow> pydict \<Rightarrow> py_error + canonical_fact list" where
  "checkpoint_of_run sha inp cell run =
     (case checkpoint_from_run run of Inl e \<Rightarrow> Inl e
      | Inr c \<Rightarrow>
          (let mk = checkpoint_fact sha cell inp (run_observed_at run (ri_now inp)) (or_text (pyget run ''git_sha'') REVISION_FALLBACK);
               run_id = ''workflow_run:'' @ cell;
               base = [mk [run_id] ''session_checkpoint'' (json_dumps (PDict (derived_payload c))),
                       mk [run_id] ''checkpoint_present'' ''true'']
           in case current_of_session (or_text (pyget run ''spec_name'') []) (ri_evidence inp) of
                None \<Rightarrow> Inr base
              | Some current \<Rightarrow>
                  (case last_phase_of run of Inl e \<Rightarrow> Inl e
                   | Inr p \<Rightarrow> Inr (base @ map (\<lambda>m. mk [run_id, ''session_current:'' @ cell] m ''true'')
                                            (checkpoint_markers c run current p)))))"

definition checkpoint_for_cell ::
  "(string \<Rightarrow> string) \<Rightarrow> reducer_input \<Rightarrow> string \<Rightarrow> py_error + canonical_fact list" where
  "checkpoint_for_cell sha inp cell =
     (case runs_of_cell cell (ri_evidence inp) of [] \<Rightarrow> Inr []
      | run # runs \<Rightarrow> checkpoint_of_run sha inp cell (first_max run_recency_key run runs))"

definition checkpoint_v1 :: "(string \<Rightarrow> string) \<Rightarrow> reducer" where
  "checkpoint_v1 sha inp = append_all (map (checkpoint_for_cell sha inp) (checkpoint_cells (ri_evidence inp)))"

section \<open>Code changes\<close>

text \<open>Pure paths: \<open>str(Path(p))\<close>, \<open>Path(p).name\<close> and \<open>Path(p).with_name(n)\<close>.\<close>

definition path_root :: "string \<Rightarrow> string" where
  "path_root p = (if \<not> starts_with p ''/'' then [] else if starts_with p ''//'' \<and> \<not> starts_with p ''///'' then ''//'' else ''/'')"

definition path_parts :: "string \<Rightarrow> string list" where
  "path_parts p = filter (\<lambda>c. c \<noteq> [] \<and> c \<noteq> ''.'') (split_on (CHR ''/'') p)"

definition with_name :: "string \<Rightarrow> string \<Rightarrow> string" where
  "with_name p n = path_root p @ join_with (CHR ''/'') (butlast (path_parts p) @ [n])"

definition module_path_from_test_file :: "string \<Rightarrow> string option" where
  "module_path_from_test_file f =
     (let p = map (\<lambda>c. if c = CHR 0x5C then CHR ''/'' else c) f; name = path_name p
      in if starts_with name ''test_'' \<and> ends_with name ''.py'' then Some (with_name p (drop 5 name))
         else if ends_with name ''.ts'' \<or> ends_with name ''.tsx'' then
           (if contains_str name ''.test.'' then Some (with_name p (replace_first ''.test.'' ''.'' name)) else None)
         else if ends_with name ''.go'' \<or> ends_with name ''.rs'' then
           (if contains_str name ''_test'' then Some (with_name p (replace_first ''_test'' [] name)) else None)
         else None)"

definition tested_symbols :: "code_snapshot \<Rightarrow> string list" where
  "tested_symbols s = concat (map (\<lambda>f. case module_path_from_test_file (fst f) of None \<Rightarrow> []
       | Some m \<Rightarrow> (case map_of (sn_files s) m of None \<Rightarrow> [] | Some syms \<Rightarrow> map sy_qualified_name syms)) (sn_files s))"

definition changed_symbol_count :: "code_delta \<Rightarrow> nat" where
  "changed_symbol_count d = length (de_added_symbols d) + length (de_removed_symbols d) + length (de_changed_symbols d)"

definition evidence_of :: "reducer_input \<Rightarrow> string \<Rightarrow> evidence_item option" where
  "evidence_of inp source_type = List.find (\<lambda>i. ei_source_type i = source_type) (ri_evidence inp)"

definition payload_dict :: "evidence_item option \<Rightarrow> pydict option" where
  "payload_dict item = (case item of None \<Rightarrow> None | Some i \<Rightarrow> (case ei_payload i of Plain v \<Rightarrow> as_pydict v | _ \<Rightarrow> None))"

definition change_fact :: "(string \<Rightarrow> string) \<Rightarrow> reducer_input \<Rightarrow> string list \<Rightarrow> string \<Rightarrow> string \<Rightarrow> canonical_fact" where
  "change_fact sha inp evidence_ids predicate v =
     (let spec = predicate_row predicate;
          job_id = (if ri_scope_id inp \<noteq> [] then ri_scope_id inp else cell_id ''unknown'' ''unknown'')
      in with_digest sha
      \<lparr>cf_entity_id = compute_fact_entity_id sha (ri_repository_id inp) ''job'' job_id predicate ''job'' job_id,
       cf_fact_id = [], cf_subject_type = ''job'', cf_subject_id = job_id, cf_predicate = predicate,
       cf_value = v, cf_value_type = ps_value_type spec, cf_unit = ps_unit spec,
       cf_scope_type = ''job'', cf_scope_id = job_id,
       cf_scope_path = (if ri_scope_path inp \<noteq> [] then ri_scope_path inp
         else ''org:'' @ ri_repository_id inp @ ''/job:'' @ job_id),
       cf_level = ps_level spec, cf_epistemic_status = ''derived'', cf_authority = authority_of ''derived'',
       cf_evidence_class = evidence_class_of ''derived'', cf_observed_at = ri_now inp, cf_valid_from = ri_now inp,
       cf_valid_to = None, cf_expires_at = None, cf_reducer = ''code_change_facts'', cf_reducer_version = ''code_change_facts/v2'',
       cf_evidence_ids = evidence_ids, cf_inputs_digest = [], cf_supersedes = None,
       cf_source_revision = (if ri_source_revision inp \<noteq> [] then ri_source_revision inp else REVISION_FALLBACK),
       cf_repository_id = ri_repository_id inp, cf_lifecycle = ''current''\<rparr>)"

text \<open>\<open>isinstance(v, int)\<close> with its number: a bool is an int.\<close>

fun int_like :: "pyval \<Rightarrow> int option" where
  "int_like (PInt i) = Some i"
| "int_like (PBool b) = Some (if b then 1 else 0)"
| "int_like _ = None"

definition int_field :: "pydict option \<Rightarrow> string \<Rightarrow> int option" where
  "int_field d k = (case d of None \<Rightarrow> None | Some p \<Rightarrow> int_like (pyget p k))"

definition ast_parse_coverage :: "code_delta \<Rightarrow> rat option" where
  "ast_parse_coverage d =
     (let changed_files = remdups (de_changed_files d @ de_added_files d)
      in if changed_files = [] then None
         else Some (of_nat (length (filter (\<lambda>f. f \<in> fst ` set (sn_files (de_after d))) changed_files))
                    / of_nat (length changed_files)))"

definition tested_changed :: "code_delta \<Rightarrow> nat" where
  "tested_changed d =
     (let after_names = map sy_qualified_name (de_added_symbols d @ de_changed_symbols d);
          before_names = map sy_qualified_name (de_removed_symbols d)
      in length (remdups (filter (\<lambda>n. n \<in> set (tested_symbols (de_after d))) after_names
                          @ filter (\<lambda>n. n \<in> set (tested_symbols (de_before d))) before_names)))"

definition tests_ratio :: "code_delta \<Rightarrow> rat option" where
  "tests_ratio d =
     (if changed_symbol_count d = 0 \<or> tested_changed d = 0 then None
      else Some (of_nat (tested_changed d) / of_nat (changed_symbol_count d)))"

text \<open>The measurable terms with their weights, and the renormalised weighted mean rounded to four digits.\<close>

definition count_term :: "int \<Rightarrow> rat" where
  "count_term n = min 1 (of_int n / 10)"

definition term_if :: "rat \<Rightarrow> rat option \<Rightarrow> (rat \<times> rat) list" where
  "term_if w t = (case t of None \<Rightarrow> [] | Some x \<Rightarrow> [(w, x)])"

definition risk_terms :: "int option \<Rightarrow> int option \<Rightarrow> rat option \<Rightarrow> int option \<Rightarrow> (rat \<times> rat) list" where
  "risk_terms criticals errors ratio impacted =
     term_if (35 / 100) (map_option count_term criticals) @ term_if (25 / 100) (map_option count_term errors)
     @ term_if (20 / 100) (map_option (\<lambda>r. 1 - r) ratio) @ term_if (20 / 100) (map_option count_term impacted)"

definition round4 :: "rat \<Rightarrow> rat" where
  "round4 q = of_int (round_even (q * 10000)) / 10000"

definition code_change_risk :: "(rat \<times> rat) list \<Rightarrow> rat option" where
  "code_change_risk terms =
     (if terms = [] then None
      else Some (round4 (sum_list (map (\<lambda>(w, t). w * t) terms) / sum_list (map fst terms))))"

definition float_text :: "rat \<Rightarrow> string" where
  "float_text q = repr_float (Fin q)"

definition delta_of :: "payload \<Rightarrow> code_delta option" where
  "delta_of p = (case p of Object (DeltaObject d) _ \<Rightarrow> Some d | _ \<Rightarrow> None)"

definition opt_fact :: "(string \<Rightarrow> canonical_fact) \<Rightarrow> string option \<Rightarrow> canonical_fact list" where
  "opt_fact mk v = (case v of None \<Rightarrow> [] | Some s \<Rightarrow> [mk s])"

definition status_field :: "pydict option \<Rightarrow> string option" where
  "status_field d = (case d of None \<Rightarrow> None | Some p \<Rightarrow> if truthy (pyget p ''status'') then Some (py_str (pyget p ''status'')) else None)"

definition code_change_facts ::
  "(string \<Rightarrow> string) \<Rightarrow> reducer_input \<Rightarrow> code_delta option \<Rightarrow> pydict option \<Rightarrow> pydict option \<Rightarrow> pydict option
     \<Rightarrow> canonical_fact list" where
  "code_change_facts sha inp delta sonar lsp impacted =
     (let mk = change_fact sha inp (filter (\<lambda>i. i \<noteq> []) (map ei_evidence_id (ri_evidence inp)));
          criticals = int_field sonar ''new_critical_count''; errors = int_field lsp ''new_error_count'';
          hits = int_field impacted ''count''; ratio = Option.bind delta tests_ratio
      in opt_fact (mk ''sonar_analysis_status'') (status_field sonar)
         @ opt_fact (mk ''lsp_analysis_status'') (status_field lsp)
         @ opt_fact (mk ''analysis_revision_matches'')
             (case sonar of None \<Rightarrow> None | Some p \<Rightarrow>
                if pyget p ''revision_matches'' = PNone then None
                else Some (if truthy (pyget p ''revision_matches'') then ''true'' else ''false''))
         @ opt_fact (mk ''ast_parse_coverage'') (map_option float_text (Option.bind delta ast_parse_coverage))
         @ opt_fact (mk ''changed_symbol_count'') (map_option (\<lambda>d. show_nat (changed_symbol_count d)) delta)
         @ opt_fact (mk ''impacted_symbol_count'') (map_option show_int hits)
         @ opt_fact (mk ''new_lsp_error_count'') (map_option show_int errors)
         @ opt_fact (mk ''new_sonar_critical_count'') (map_option show_int criticals)
         @ opt_fact (mk ''changed_symbols_with_tests_ratio'') (map_option float_text ratio)
         @ opt_fact (mk ''code_change_risk'') (map_option float_text (code_change_risk (risk_terms criticals errors ratio hits))))"

text \<open>
  The payload of the first \<open>code_delta\<close> item must be a delta or nothing: any other object lacks the
  attributes the code reads.
\<close>

definition code_change_facts_v2 :: "(string \<Rightarrow> string) \<Rightarrow> reducer" where
  "code_change_facts_v2 sha inp =
     (case evidence_of inp ''code_delta'' of
        Some i \<Rightarrow> if ei_payload i \<noteq> Plain PNone \<and> delta_of (ei_payload i) = None then Inl AttributeError
                  else Inr (code_change_facts sha inp (delta_of (ei_payload i)) (payload_dict (evidence_of inp ''sonar_analysis''))
                    (payload_dict (evidence_of inp ''lsp_analysis'')) (payload_dict (evidence_of inp ''impacted_symbols'')))
      | None \<Rightarrow> Inr (code_change_facts sha inp None (payload_dict (evidence_of inp ''sonar_analysis''))
                    (payload_dict (evidence_of inp ''lsp_analysis'')) (payload_dict (evidence_of inp ''impacted_symbols''))))"

section \<open>Patterns\<close>

text \<open>
  \<open>record_id\<close> of reporting/lab_contract.py names the row; \<open>content_digest\<close> stands for
  \<open>payload_content_digest\<close>, read for rows of the analysis table only.
\<close>

definition record_id :: "(pydict \<Rightarrow> string) \<Rightarrow> pydict \<Rightarrow> py_error + string" where
  "record_id content_digest row =
     (let table = or_text (pyget row ''_table'') [] in
      if truthy (pyget row ''_registry'') \<and> as_pydict (pyget row ''_registry'') = None then Inl AttributeError
      else let reg = (case as_pydict (pyget row ''_registry'') of None \<Rightarrow> [] | Some d \<Rightarrow> d);
               entity_id = or_text (pyget reg ''entity_id'') []; knowledge_id = or_text (pyget reg ''knowledge_id'') []
           in if table = ''analysis'' then Inr (''analysis:'' @ entity_id @ '':'' @ content_digest row)
              else Inr (table @ '':'' @ entity_id @ '':'' @ knowledge_id))"

definition population_key :: "pydict \<Rightarrow> string \<times> string" where
  "population_key row = (or_text (pyget row ''_experiment'') [], or_text (pyget row ''perturbation_class'') [])"

text \<open>\<open>math.sqrt\<close> is the parameter \<open>sqrt_of\<close>: the square root of a rational need not be one, and the
  rounding of floats is not modelled.\<close>

definition WILSON_Z :: rat where
  "WILSON_Z = 1959963984540054 / 1000000000000000"

definition wilson_interval_width :: "(rat \<Rightarrow> rat) \<Rightarrow> nat \<Rightarrow> nat \<Rightarrow> rat" where
  "wilson_interval_width sqrt_of successes trials =
     (let n = of_nat trials; z = WILSON_Z; p = of_nat successes / n; denom = 1 + (z * z) / n;
          center = (p + (z * z) / (2 * n)) / denom;
          margin = (z / denom) * sqrt_of ((p * (1 - p) / n) + (z * z) / (4 * n * n));
          lower = max 0 (center - margin); upper = min 1 (center + margin)
      in upper - lower)"

definition MIN_SUPPORT_FOR_UNCERTAINTY :: nat where
  "MIN_SUPPORT_FOR_UNCERTAINTY = 3"

record pattern_payload =
  pp_claim :: string
  pp_population :: string
  pp_conditions :: "string list"
  pp_support :: nat
  pp_uncertainty :: "rat option"
  pp_validity_window :: string
  pp_source_experiment :: string

definition payload_to_json :: "pattern_payload \<Rightarrow> string" where
  "payload_to_json p = json_dumps (PDict
     [(''claim'', PStr (pp_claim p)), (''population'', PStr (pp_population p)),
      (''conditions'', PList (map PStr (pp_conditions p))), (''support'', PInt (int (pp_support p))),
      (''uncertainty'', case pp_uncertainty p of None \<Rightarrow> PNone | Some u \<Rightarrow> PFloat (Fin u)),
      (''validity_window'', PStr (pp_validity_window p)), (''source_experiment'', PStr (pp_source_experiment p))])"

definition evidence_window :: "(string \<Rightarrow> string) \<Rightarrow> string list \<Rightarrow> string" where
  "evidence_window sha refs = ''evidence:'' @ take 16 (sha (join_with (CHR 0x0A) refs))"

text \<open>\<open>deduped.setdefault(record_id(row), row)\<close>: the first row of each id.\<close>

fun first_rows :: "(pydict \<Rightarrow> string) \<Rightarrow> pydict list \<Rightarrow> (string \<times> pydict) list \<Rightarrow> py_error + (string \<times> pydict) list" where
  "first_rows dg [] seen = Inr seen"
| "first_rows dg (r # rs) seen =
     (case record_id dg r of Inl e \<Rightarrow> Inl e
      | Inr i \<Rightarrow> first_rows dg rs (if i \<in> fst ` set seen then seen else seen @ [(i, r)]))"

definition pattern_of :: "(string \<Rightarrow> string) \<Rightarrow> (rat \<Rightarrow> rat) \<Rightarrow> (string \<times> pydict) list \<Rightarrow> string \<Rightarrow> string \<Rightarrow> pattern_payload" where
  "pattern_of sha sqrt_of rows task pclass =
     (let refs = sort (map fst rows);
          support = length (filter (\<lambda>(_, r). pyget r ''test_executed_success'' = PBool True) rows)
      in \<lparr>pp_claim = ''recovers_under_'' @ pclass,
          pp_population = ''finding:task='' @ task @ '',perturbation_class='' @ pclass,
          pp_conditions = [''test_executed_success=true''], pp_support = support,
          pp_uncertainty = (if MIN_SUPPORT_FOR_UNCERTAINTY \<le> length rows
            then Some (wilson_interval_width sqrt_of support (length rows)) else None),
          pp_validity_window = evidence_window sha refs, pp_source_experiment = hd refs\<rparr>)"

definition pattern_fact ::
  "(string \<Rightarrow> string) \<Rightarrow> reducer_input \<Rightarrow> string \<Rightarrow> string list \<Rightarrow> pattern_payload \<Rightarrow> canonical_fact" where
  "pattern_fact sha inp subject_id refs payload =
     (let spec = predicate_row ''pattern'' in with_digest sha
      \<lparr>cf_entity_id = compute_fact_entity_id sha (ri_repository_id inp) ''workload'' subject_id ''pattern'' ''workload'' subject_id,
       cf_fact_id = [], cf_subject_type = ''workload'', cf_subject_id = subject_id, cf_predicate = ''pattern'',
       cf_value = payload_to_json payload, cf_value_type = ps_value_type spec, cf_unit = ps_unit spec,
       cf_scope_type = ''workload'', cf_scope_id = subject_id,
       cf_scope_path = ''org:'' @ ri_repository_id inp @ ''/workload:'' @ subject_id,
       cf_level = ps_level spec, cf_epistemic_status = ''derived'', cf_authority = authority_of ''derived'',
       cf_evidence_class = evidence_class_of ''derived'', cf_observed_at = ri_now inp, cf_valid_from = ri_now inp,
       cf_valid_to = None, cf_expires_at = None, cf_reducer = ''pattern'', cf_reducer_version = ''pattern/v1'',
       cf_evidence_ids = refs, cf_inputs_digest = [], cf_supersedes = None,
       cf_source_revision = (if ri_source_revision inp \<noteq> [] then ri_source_revision inp else REVISION_FALLBACK),
       cf_repository_id = ri_repository_id inp, cf_lifecycle = ''current''\<rparr>)"

definition fact_for_slice ::
  "(string \<Rightarrow> string) \<Rightarrow> (rat \<Rightarrow> rat) \<Rightarrow> (pydict \<Rightarrow> string) \<Rightarrow> pydict list \<Rightarrow> string \<Rightarrow> string \<Rightarrow> reducer_input
     \<Rightarrow> py_error + canonical_fact list" where
  "fact_for_slice sha sqrt_of dg rows task pclass inp =
     (if rows = [] then Inr []
      else case first_rows dg rows [] of Inl e \<Rightarrow> Inl e
         | Inr deduped \<Rightarrow>
             Inr [pattern_fact sha inp (''pattern/'' @ underscore_slug task @ ''/'' @ underscore_slug pclass)
                    (sort (map fst deduped)) (pattern_of sha sqrt_of deduped task pclass)])"

text \<open>Rows of findings with a measured outcome and an addressable slice, and the slices in order.\<close>

definition finding_rows :: "evidence_item list \<Rightarrow> pydict list" where
  "finding_rows items =
     filter (\<lambda>r. is_bool (pyget r ''test_executed_success'') \<and> fst (population_key r) \<noteq> [] \<and> snd (population_key r) \<noteq> [])
       (List.map_filter (\<lambda>i. if ei_source_type i = ''finding''
          then (case ei_payload i of Plain v \<Rightarrow> as_pydict v | _ \<Rightarrow> None) else None) items)"

definition slices :: "pydict list \<Rightarrow> (string \<times> string) list" where
  "slices rows = sort_key fst (sort_key snd (remdups (map population_key rows)))"

definition pattern_v1 :: "(string \<Rightarrow> string) \<Rightarrow> (rat \<Rightarrow> rat) \<Rightarrow> (pydict \<Rightarrow> string) \<Rightarrow> reducer" where
  "pattern_v1 sha sqrt_of dg inp =
     (let rows = finding_rows (ri_evidence inp)
      in append_all (map (\<lambda>(task, pclass).
           fact_for_slice sha sqrt_of dg (filter (\<lambda>r. population_key r = (task, pclass)) rows) task pclass inp) (slices rows)))"

section \<open>The registry of implementations\<close>

definition IMPLS :: "(string \<Rightarrow> string) \<Rightarrow> (rat \<Rightarrow> rat) \<Rightarrow> (pydict \<Rightarrow> string) \<Rightarrow> (string \<times> reducer) list" where
  "IMPLS sha sqrt_of dg =
     [(''spec_status/v1'', spec_status_v1 sha), (''attempt_facts/v1'', attempt_facts_v1 sha),
      (''job_facts/v1'', job_facts_v1 sha), (''workflow_facts/v1'', workflow_facts_v1 sha),
      (''policy_facts/v1'', policy_facts_v1 sha), (''story_facts/v1'', story_facts_v1 sha),
      (''profiles/v1'', profiles_v1 sha), (''pattern/v1'', pattern_v1 sha sqrt_of dg),
      (''checkpoint/v1'', checkpoint_v1 sha), (''code_change_facts/v2'', code_change_facts_v2 sha)]"

definition get_reducer :: "(string \<Rightarrow> string) \<Rightarrow> (rat \<Rightarrow> rat) \<Rightarrow> (pydict \<Rightarrow> string) \<Rightarrow> string \<Rightarrow> reducer option" where
  "get_reducer sha sqrt_of dg version = map_of (IMPLS sha sqrt_of dg) version"

end
