(* ===== verification/Reducer_Facts.thy ===== *)
theory Reducer_Facts
  imports Change_Reducers
begin

text \<open>
  What the reducers guarantee: every fact a registered reducer mints passes the chain check of
  \<open>Fact_Schema\<close>, what it cites, and where a story session and a run artifact meet.
\<close>

section \<open>Every minted fact is declared\<close>

named_theorems fact_mints

lemma attempt_epistemic_map:
  "map_of EPISTEMIC_MAP (attempt_epistemic p) = Some (authority_of (attempt_epistemic p), evidence_class_of (attempt_epistemic p))"
  by (rule epistemic_of) (auto simp: attempt_epistemic_def EPISTEMIC_BY_PREDICATE_def)

lemma attempt_fact_minted [fact_mints]:
  "p \<in> set (rs_produces ATTEMPT_FACTS_V1) \<Longrightarrow> minted_by sha ATTEMPT_FACTS_V1 (attempt_fact sha run n i inp e p v)"
  by (simp add: minted_by_def attempt_fact_def Let_def attempt_epistemic_map ATTEMPT_FACTS_V1_def)

lemma story_fact_minted [fact_mints]:
  "p \<in> set (rs_produces STORY_FACTS_V1) \<Longrightarrow> minted_by sha STORY_FACTS_V1 (story_fact sha run cell s n i inp e p v)"
  by (simp add: minted_by_def story_fact_def Let_def attempt_epistemic_map STORY_FACTS_V1_def split: prod.splits)

lemma job_fact_minted [fact_mints]:
  "p \<in> set (rs_produces JOB_FACTS_V1) \<Longrightarrow> minted_by sha JOB_FACTS_V1 (job_fact sha run inp e p v)"
  by (simp add: minted_by_def job_fact_def Let_def epistemic_of JOB_FACTS_V1_def)

lemma spec_fact_minted [fact_mints]:
  "p \<in> set (rs_produces SPEC_STATUS_V1) \<Longrightarrow> minted_by sha SPEC_STATUS_V1 (spec_fact sha d inp p v)"
  by (simp add: minted_by_def spec_fact_def Let_def epistemic_of SPEC_STATUS_V1_def)

lemma policy_fact_minted [fact_mints]:
  "p \<in> set (rs_produces POLICY_FACTS_V1) \<Longrightarrow> minted_by sha POLICY_FACTS_V1 (policy_fact sha n inp p v)"
  by (simp add: minted_by_def policy_fact_def Let_def epistemic_of POLICY_FACTS_V1_def)

lemma workflow_fact_minted [fact_mints]:
  "p \<in> set (rs_produces WORKFLOW_FACTS_V1) \<Longrightarrow> minted_by sha WORKFLOW_FACTS_V1 (workflow_fact sha w c inp es p v)"
  by (simp add: minted_by_def workflow_fact_def Let_def epistemic_of WORKFLOW_FACTS_V1_def)

lemma checkpoint_fact_minted [fact_mints]:
  "p \<in> set (rs_produces CHECKPOINT_V1) \<Longrightarrow> minted_by sha CHECKPOINT_V1 (checkpoint_fact sha c inp t r es p v)"
  by (simp add: minted_by_def checkpoint_fact_def Let_def epistemic_of CHECKPOINT_V1_def)

lemma change_fact_minted [fact_mints]:
  "p \<in> set (rs_produces CODE_CHANGE_FACTS_V2) \<Longrightarrow> minted_by sha CODE_CHANGE_FACTS_V2 (change_fact sha inp es p v)"
  by (simp add: minted_by_def change_fact_def Let_def epistemic_of CODE_CHANGE_FACTS_V2_def)

lemma pattern_fact_minted [fact_mints]: "minted_by sha PATTERN_V1 (pattern_fact sha inp i refs p)"
  by (simp add: minted_by_def pattern_fact_def Let_def epistemic_of PATTERN_V1_def)

lemma produced_names [fact_mints]:
  "rs_produces ATTEMPT_FACTS_V1 = [''phase_status'', ''attempt_model'', ''attempt_tokens_in'',
    ''attempt_tokens_out'', ''attempt_cost_usd'', ''attempt_cache_hit_rate'', ''phase_test_verified'',
    ''attempt_confidence'', ''phase_commit'']"
  "rs_produces STORY_FACTS_V1 = [''phase_status'', ''phase_commit'', ''attempt_model'', ''attempt_tokens_in'',
    ''attempt_tokens_out'', ''attempt_cost_usd'', ''attempt_confidence'', ''phase_test_verified'']"
  "rs_produces JOB_FACTS_V1 = [''current_commit'', ''job_accumulated_cost_usd'', ''job_status'',
    ''job_n_phases'']"
  "rs_produces SPEC_STATUS_V1 = [''spec_status'', ''spec_superseded_by'', ''spec_supersedes'',
    ''spec_last_run_at'', ''spec_latest_ok'', ''spec_latest_model'', ''spec_latest_cost_usd'', ''spec_n_runs'']"
  "rs_produces POLICY_FACTS_V1 = [''allowed_models'', ''max_spend_usd'', ''max_attempts'']"
  "rs_produces WORKFLOW_FACTS_V1 = [''workflow_phases_completed'', ''workflow_phases_remaining'',
    ''workflow_status'', ''workflow_health'', ''projected_budget_overrun'']"
  "rs_produces CHECKPOINT_V1 = [''session_checkpoint'', ''checkpoint_present'', ''checkpoint_goal_unchanged'',
    ''checkpoint_phase_unchanged'', ''checkpoint_model_unchanged'', ''model_change_required'',
    ''checkpoint_snapshot_identity'']"
  "rs_produces CODE_CHANGE_FACTS_V2 = [''analysis_revision_matches'', ''ast_parse_coverage'',
    ''lsp_analysis_status'', ''sonar_analysis_status'', ''changed_symbol_count'', ''impacted_symbol_count'',
    ''new_lsp_error_count'', ''new_sonar_critical_count'', ''changed_symbols_with_tests_ratio'',
    ''code_change_risk'']"
  by (simp_all add: ATTEMPT_FACTS_V1_def STORY_FACTS_V1_def JOB_FACTS_V1_def SPEC_STATUS_V1_def POLICY_FACTS_V1_def
    WORKFLOW_FACTS_V1_def CHECKPOINT_V1_def CODE_CHANGE_FACTS_V2_def)

lemma token_values_yield:
  "(\<And>v. P (mk ''attempt_tokens_in'' v)) \<Longrightarrow> (\<And>v. P (mk ''attempt_tokens_out'' v)) \<Longrightarrow>
     list_all (yields P) (token_values tokens mk)"
  by (simp add: token_values_def split: option.split)

lemma facts_for_phase_minted: "yields (minted_by sha ATTEMPT_FACTS_V1) (facts_for_phase sha run phase inp e)"
  unfolding facts_for_phase_def Let_def
  by (simp add: fact_mints yields_append_all token_values_yield)

lemma facts_for_session_minted: "yields (minted_by sha STORY_FACTS_V1) (facts_for_session sha cell s inp e t)"
  unfolding facts_for_session_def Let_def
  by (simp add: fact_mints yields_append_all token_values_yield split: sum.split prod.split)

lemma facts_for_run_minted: "yields (minted_by sha JOB_FACTS_V1) (facts_for_run sha run inp e)"
  unfolding facts_for_run_def Let_def by (simp add: fact_mints yields_append_all)

lemma facts_for_entry_minted: "yields (minted_by sha SPEC_STATUS_V1) (facts_for_entry sha d inp)"
  unfolding facts_for_entry_def Let_def by (simp add: fact_mints yields_append_all)

lemma facts_for_config_minted: "yields (minted_by sha POLICY_FACTS_V1) (facts_for_config sha d inp)"
  unfolding facts_for_config_def Let_def by (simp add: fact_mints yields_append_all)

lemma facts_for_cell_minted: "yields (minted_by sha WORKFLOW_FACTS_V1) (facts_for_cell sha w c fs m inp)"
  unfolding facts_for_cell_def Let_def by (simp add: fact_mints split: sum.split option.split)

lemma checkpoint_of_run_minted: "yields (minted_by sha CHECKPOINT_V1) (checkpoint_of_run sha inp c run)"
  unfolding checkpoint_of_run_def Let_def
  by (simp add: fact_mints checkpoint_markers_def Let_def split: sum.split option.split)

lemma opt_fact_all: "(\<And>v. P (mk v)) \<Longrightarrow> list_all P (opt_fact mk v)"
  by (simp add: opt_fact_def split: option.split)

lemma code_change_minted: "list_all (minted_by sha CODE_CHANGE_FACTS_V2) (code_change_facts sha inp d s l i)"
  unfolding code_change_facts_def Let_def by (simp add: fact_mints opt_fact_all)

lemma fact_for_slice_minted: "yields (minted_by sha PATTERN_V1) (fact_for_slice sha q dg rows t p inp)"
  unfolding fact_for_slice_def by (simp add: fact_mints split: sum.split)

section \<open>The registered reducers\<close>

lemma versions_registered:
  "reducer_of ''spec_status/v1'' = Some SPEC_STATUS_V1" "reducer_of ''attempt_facts/v1'' = Some ATTEMPT_FACTS_V1"
  "reducer_of ''job_facts/v1'' = Some JOB_FACTS_V1" "reducer_of ''workflow_facts/v1'' = Some WORKFLOW_FACTS_V1"
  "reducer_of ''policy_facts/v1'' = Some POLICY_FACTS_V1" "reducer_of ''story_facts/v1'' = Some STORY_FACTS_V1"
  "reducer_of ''profiles/v1'' = Some PROFILES_V1" "reducer_of ''pattern/v1'' = Some PATTERN_V1"
  "reducer_of ''checkpoint/v1'' = Some CHECKPOINT_V1" "reducer_of ''code_change_facts/v2'' = Some CODE_CHANGE_FACTS_V2"
  by (simp_all add: reducer_of_def reducer_rows)

lemma yields_items: "(\<And>i. i \<in> set items \<Longrightarrow> yields P (h i)) \<Longrightarrow> yields P (append_all (map h items))"
  by (rule yields_append_all) (simp add: list_all_iff)

lemma attempt_facts_v1_yield:
  "(\<And>run phase i. i \<in> set (ri_evidence inp) \<Longrightarrow> yields P (facts_for_phase sha run phase inp (ei_evidence_id i))) \<Longrightarrow>
     yields P (attempt_facts_v1 sha inp)"
  unfolding attempt_facts_v1_def attempt_facts_for_item_def
  by (rule yields_items) (auto intro!: yields_items split: option.split)

lemma job_facts_v1_yield:
  "(\<And>run i. i \<in> set (ri_evidence inp) \<Longrightarrow> yields P (facts_for_run sha run inp (ei_evidence_id i))) \<Longrightarrow>
     yields P (job_facts_v1 sha inp)"
  unfolding job_facts_v1_def job_facts_for_item_def by (rule yields_items) (auto split: option.split)

lemma sessions_yield:
  "(\<And>s t. yields P (facts_for_session sha cell s inp e t)) \<Longrightarrow> list_all (yields P) (facts_for_sessions sha cell inp e ss)"
  by (induction ss) auto

lemma story_facts_v1_yield:
  "(\<And>cell s t i. i \<in> set (ri_evidence inp) \<Longrightarrow> yields P (facts_for_session sha cell s inp (ei_evidence_id i) t)) \<Longrightarrow>
     yields P (story_facts_v1 sha inp)"
  unfolding story_facts_v1_def story_facts_for_item_def
  by (rule yields_items) (auto intro!: yields_append_all sessions_yield split: option.split)

lemma per_dict_yield: "(\<And>d. yields P (h d)) \<Longrightarrow> yields P (append_all (map (per_dict h) items))"
  by (rule yields_items) (auto simp: per_dict_def split: option.split)

lemma checkpoint_v1_yield:
  "(\<And>cell run. yields P (checkpoint_of_run sha inp cell run)) \<Longrightarrow> yields P (checkpoint_v1 sha inp)"
  unfolding checkpoint_v1_def checkpoint_for_cell_def by (rule yields_items) (auto split: list.split)

lemma workflow_facts_v1_yield:
  "(\<And>cell. yields P (facts_for_cell sha (la_workload (ladder_of (ri_facts inp)) cell) cell (la_facts (ladder_of (ri_facts inp)) cell)
       (la_limits (ladder_of (ri_facts inp)) (la_workload (ladder_of (ri_facts inp)) cell)) inp)) \<Longrightarrow>
     yields P (workflow_facts_v1 sha inp)"
  unfolding workflow_facts_v1_def Let_def by (rule yields_items)

lemma pattern_v1_yield:
  "(\<And>rows t p. yields P (fact_for_slice sha q dg rows t p inp)) \<Longrightarrow> yields P (pattern_v1 sha q dg inp)"
  unfolding pattern_v1_def Let_def by (rule yields_items) (auto split: prod.split)

lemma code_change_v2_yield:
  "(\<And>d s l i. list_all P (code_change_facts sha inp d s l i)) \<Longrightarrow> yields P (code_change_facts_v2 sha inp)"
  unfolding code_change_facts_v2_def by (auto split: option.split)

lemma profiles_v1_yield: "yields (minted_by sha PROFILES_V1) (profiles_v1 sha inp)"
  by (auto simp: profiles_v1_def list_all_iff profile_facts_of_minted)

lemma spec_status_v1_minted: "yields (minted_by sha SPEC_STATUS_V1) (spec_status_v1 sha inp)"
  unfolding spec_status_v1_def by (rule per_dict_yield) (rule facts_for_entry_minted)

lemma policy_facts_v1_minted: "yields (minted_by sha POLICY_FACTS_V1) (policy_facts_v1 sha inp)"
  unfolding policy_facts_v1_def by (rule per_dict_yield) (rule facts_for_config_minted)

lemmas reducer_outputs = spec_status_v1_minted policy_facts_v1_minted
  attempt_facts_v1_yield [OF facts_for_phase_minted]
  job_facts_v1_yield [OF facts_for_run_minted]
  workflow_facts_v1_yield [OF facts_for_cell_minted]
  story_facts_v1_yield [OF facts_for_session_minted]
  profiles_v1_yield
  pattern_v1_yield [OF fact_for_slice_minted]
  checkpoint_v1_yield [OF checkpoint_of_run_minted]
  code_change_v2_yield [OF code_change_minted]

lemma registry_minted:
  "list_all (\<lambda>(v, R). \<exists>s. reducer_of v = Some s \<and> yields (minted_by sha s) (R inp)) (IMPLS sha q dg)"
  unfolding IMPLS_def by (simp add: versions_registered reducer_outputs)

lemma get_reducer_minted:
  assumes "get_reducer sha q dg v = Some R"
  shows "\<exists>s. reducer_of v = Some s \<and> rs_version s = v \<and> yields (minted_by sha s) (R inp)"
proof -
  have "(v, R) \<in> set (IMPLS sha q dg)" using assms map_of_SomeD by (simp add: get_reducer_def)
  then have "\<exists>s. reducer_of v = Some s \<and> yields (minted_by sha s) (R inp)"
    using registry_minted [of sha inp q dg] by (auto simp: list_all_iff)
  then show ?thesis using reducer_of_some by blast
qed

text \<open>C27: a fact is minted only under its declaration. Whatever evidence a registered reducer is given, every
  fact it returns carries the version it was registered under, a predicate that version declares at the
  declared abstraction level, the authority its epistemic status prescribes and the digest of what it cites;
  it has no id yet, and the chain check of the plane has nothing to object to.\<close>

theorem reducers_mint_declared_facts:
  assumes "get_reducer sha q dg v = Some R" and "R inp = Inr fs" and "f \<in> set fs"
  shows "verify_chain sha f None = [] \<and> cf_reducer_version f = v \<and> cf_fact_id f = []
    \<and> (\<exists>s. reducer_of v = Some s \<and> cf_predicate f \<in> set (rs_produces s) \<and> cf_level f = rs_level s)"
proof -
  obtain s where s: "reducer_of v = Some s" "rs_version s = v" "yields (minted_by sha s) (R inp)"
    using get_reducer_minted [OF assms(1)] by blast
  have m: "minted_by sha s f" using yieldsD [OF s(3) assms(2,3)] .
  have c: "verify_chain sha f None = []" using minted_chain(1) [OF m] s by simp
  have v: "cf_reducer_version f = v" "cf_fact_id f = []" using m s(2) by (simp_all add: minted_by_def)
  have "\<exists>s. reducer_of (cf_reducer_version f) = Some s \<and> cf_predicate f \<in> set (rs_produces s) \<and> cf_level f = rs_level s"
    using iffD1 [OF verify_chain_ok c] by (rule conjunct1)
  with c v show ?thesis by simp
qed

text \<open>A run of one phase, as a reducer input.\<close>

definition sample_run :: pydict where
  "sample_run = [(''spec_name'', PStr ''s''), (''model'', PStr ''m''), (''ok'', PBool True), (''ended_at'', PStr ''2026-03-02''),
     (''goal'', PStr ''g''), (''phases'', PList [PDict [(''phase'', PStr ''p''), (''status'', PStr ''ok''),
       (''tokens'', PDict [(''in'', PInt 0), (''out'', PStr ''7'')])]])]"

definition input_of :: "string \<Rightarrow> string \<Rightarrow> pydict \<Rightarrow> reducer_input" where
  "input_of source_type evidence_id d =
     \<lparr>ri_scope_path = [], ri_scope_type = [], ri_scope_id = [], ri_repository_id = ''r'',
      ri_evidence = [\<lparr>ei_source_type = source_type, ei_evidence_id = evidence_id, ei_payload = Plain (PDict d)\<rparr>],
      ri_facts = [], ri_now = ''n'', ri_source_revision = []\<rparr>"

definition hash_id :: "string \<Rightarrow> string" where
  "hash_id s = CHR ''#'' # s"

theorem reducers_mint_declared_facts_witness:
  "\<exists>fs. job_facts_v1 hash_id (input_of ''workflow_run'' ''e'' sample_run) = Inr fs
     \<and> map cf_value fs = [''ok'', ''1''] \<and> (\<forall>f \<in> set fs. verify_chain hash_id f None = [])"
proof -
  let ?i = "input_of ''workflow_run'' ''e'' sample_run"
  have g: "get_reducer hash_id id (\<lambda>_. []) ''job_facts/v1'' = Some (job_facts_v1 hash_id)"
    by (simp add: get_reducer_def IMPLS_def)
  have v: "map_sum id (map cf_value) (job_facts_v1 hash_id ?i) = Inr [''ok'', ''1'']" by code_simp
  then obtain fs where fs: "job_facts_v1 hash_id ?i = Inr fs" "map cf_value fs = [''ok'', ''1'']"
    by (cases "job_facts_v1 hash_id ?i") auto
  have "\<forall>f \<in> set fs. verify_chain hash_id f None = []" using reducers_mint_declared_facts [OF g fs(1)] by simp
  with fs show ?thesis by auto
qed

section \<open>What a minted fact cites\<close>

definition cites_input :: "reducer_input \<Rightarrow> canonical_fact \<Rightarrow> bool" where
  "cites_input inp f \<longleftrightarrow> set (cf_evidence_ids f) \<subseteq> ei_evidence_id ` set (ri_evidence inp) \<union> cf_fact_id ` set (ri_facts inp)"

lemma fact_evidence [simp]:
  "cf_evidence_ids (attempt_fact sha run n i inp e p v) = (if e \<noteq> [] then [e] else [])"
  "cf_evidence_ids (story_fact sha run cell s n i inp e p v) = (if e \<noteq> [] then [e] else [])"
  "cf_evidence_ids (job_fact sha run inp e p v) = (if e \<noteq> [] then [e] else [])"
  "cf_evidence_ids (spec_fact sha d inp p v) = []" "cf_evidence_ids (policy_fact sha n inp p v) = []"
  "cf_evidence_ids (profile_fact sha inp n p v) = []"
  "cf_evidence_ids (workflow_fact sha w c inp es p v) = es" "cf_evidence_ids (checkpoint_fact sha c inp t r es p v) = es"
  "cf_evidence_ids (change_fact sha inp es p v) = es" "cf_evidence_ids (pattern_fact sha inp i refs pl) = refs"
  by (simp_all add: attempt_fact_def story_fact_def job_fact_def spec_fact_def policy_fact_def profile_fact_def
      workflow_fact_def checkpoint_fact_def change_fact_def pattern_fact_def Let_def split: prod.splits)

lemma cites_one: "i \<in> set (ri_evidence inp) \<Longrightarrow> cf_evidence_ids f = (if ei_evidence_id i \<noteq> [] then [ei_evidence_id i] else []) \<Longrightarrow> cites_input inp f"
  by (auto simp: cites_input_def)

lemma phase_cites:
  assumes "i \<in> set (ri_evidence inp)"
  shows "yields (cites_input inp) (facts_for_phase sha run phase inp (ei_evidence_id i))"
    "yields (cites_input inp) (facts_for_session sha cell s inp (ei_evidence_id i) t)"
    "yields (cites_input inp) (facts_for_run sha run inp (ei_evidence_id i))"
  unfolding facts_for_phase_def facts_for_session_def facts_for_run_def Let_def
  by (simp_all add: cites_one [OF assms] yields_append_all token_values_yield split: sum.split prod.split)

lemma plan_cites:
  "yields (cites_input inp) (facts_for_entry sha d inp)" "yields (cites_input inp) (facts_for_config sha d inp)"
  unfolding facts_for_entry_def facts_for_config_def Let_def
  by (simp_all add: cites_input_def yields_append_all)

lemma change_fact_cites: "cites_input inp (change_fact sha inp (filter (\<lambda>i. i \<noteq> []) (map ei_evidence_id (ri_evidence inp))) p v)"
  by (auto simp: cites_input_def)

lemma change_cites: "list_all (cites_input inp) (code_change_facts sha inp d s l i)"
  unfolding code_change_facts_def Let_def by (simp add: opt_fact_all change_fact_cites)

lemma set_current_attempts: "set (current_attempts fs) \<subseteq> set fs"
proof (cases "filter (\<lambda>f. cf_scope_type f = ''attempt'') fs")
  case Nil
  then show ?thesis by (simp add: current_attempts_def)
next
  case (Cons a as)
  then have "set (a # as) \<subseteq> set fs" by (metis filter_is_subset)
  moreover have "set (current_attempts fs) \<subseteq> set (a # as)"
    unfolding current_attempts_def Cons list.case by (rule filter_is_subset)
  ultimately show ?thesis by blast
qed

lemma set_put_job: "set (put_job f js) \<subseteq> insert f (set js)"
  by (induction js) auto

lemma set_foldl_put_job: "set (foldl (\<lambda>js f. put_job f js) js fs) \<subseteq> set js \<union> set fs"
proof (induction fs arbitrary: js)
  case (Cons f fs)
  then show ?case using set_put_job [of f js] by fastforce
qed simp

lemma set_current_jobs: "set (current_jobs fs) \<subseteq> set fs"
  unfolding current_jobs_def using set_foldl_put_job [of "[]" "filter (\<lambda>f. cf_scope_type f = ''job'') fs"] by auto

definition ladder_within :: "ladder \<Rightarrow> canonical_fact list \<Rightarrow> bool" where
  "ladder_within L fs \<longleftrightarrow> (\<forall>c. set (la_facts L c) \<subseteq> set fs) \<and> (\<forall>w f. la_limits L w = Some f \<longrightarrow> f \<in> set fs)"

lemma note_fact_within: "ladder_within L fs \<Longrightarrow> f \<in> set fs \<Longrightarrow> ladder_within (note_fact f L) fs"
  by (auto simp: ladder_within_def note_fact_def Let_def)

lemma foldl_note_within: "ladder_within L fs \<Longrightarrow> set gs \<subseteq> set fs \<Longrightarrow> ladder_within (foldl (\<lambda>L f. note_fact f L) L gs) fs"
  by (induction gs arbitrary: L) (auto simp: note_fact_within)

lemma ladder_of_within: "ladder_within (ladder_of fs) fs"
  unfolding ladder_of_def by (rule foldl_note_within) (simp_all add: ladder_within_def empty_ladder_def)

lemma workflow_fact_cites:
  assumes "set es \<subseteq> cf_fact_id ` set (ri_facts inp)"
  shows "cites_input inp (workflow_fact sha w c inp es p v)"
  using assms by (auto simp: cites_input_def)

lemma facts_for_cell_cites:
  assumes "set fs \<subseteq> set (ri_facts inp)" "\<And>f. m = Some f \<Longrightarrow> f \<in> set (ri_facts inp)"
  shows "yields (cites_input inp) (facts_for_cell sha w c fs m inp)"
proof -
  have "set (citable_ids (current_attempts fs @ current_jobs fs @ (case m of None \<Rightarrow> [] | Some f \<Rightarrow> [f])))
      \<subseteq> cf_fact_id ` set (ri_facts inp)"
    using set_current_attempts [of fs] set_current_jobs [of fs] assms by (fastforce simp: citable_ids_def split: option.splits)
  then have c: "cites_input inp (workflow_fact sha w c inp
      (citable_ids (current_attempts fs @ current_jobs fs @ (case m of None \<Rightarrow> [] | Some f \<Rightarrow> [f]))) p v)" for p v
    by (rule workflow_fact_cites)
  show ?thesis
  proof (cases m)
    case None
    show ?thesis unfolding facts_for_cell_def Let_def None
      by (simp add: c [unfolded None, simplified] split: sum.split option.split)
  next
    case (Some f)
    show ?thesis unfolding facts_for_cell_def Let_def Some
      by (simp add: c [unfolded Some, simplified] split: sum.split option.split)
  qed
qed

lemma profile_facts_cite: "list_all (cites_input inp) (profile_facts_of sha inp i)"
  unfolding profile_facts_of_def by (cases "ei_payload i") (auto simp: cites_input_def split: py_object.split)

lemma registry_cites:
  "list_all (\<lambda>(v, R). v \<noteq> ''pattern/v1'' \<and> v \<noteq> ''checkpoint/v1'' \<longrightarrow> yields (cites_input inp) (R inp)) (IMPLS sha q dg)"
proof -
  have p: "yields (cites_input inp) (profiles_v1 sha inp)"
    using profile_facts_cite by (fastforce simp: profiles_v1_def list_all_iff)
  have w: "yields (cites_input inp) (workflow_facts_v1 sha inp)"
    using ladder_of_within [of "ri_facts inp"]
    by (intro workflow_facts_v1_yield facts_for_cell_cites) (auto simp: ladder_within_def)
  have e: "yields (cites_input inp) (spec_status_v1 sha inp)" "yields (cites_input inp) (policy_facts_v1 sha inp)"
    unfolding spec_status_v1_def policy_facts_v1_def by (rule per_dict_yield, rule plan_cites)+
  show ?thesis unfolding IMPLS_def
    by (simp add: p w e attempt_facts_v1_yield [OF phase_cites(1)] story_facts_v1_yield [OF phase_cites(2)]
        job_facts_v1_yield [OF phase_cites(3)] code_change_v2_yield [OF change_cites])
qed

text \<open>C28: what a fact cites can be looked up. A fact of any reducer other than the pattern and the checkpoint
  reducer cites only evidence and facts the reducer was given, so the chain check with a resolver that
  knows those accepts it.\<close>

theorem cited_evidence_resolves:
  assumes "get_reducer sha q dg v = Some R" and "v \<noteq> ''pattern/v1''" and "v \<noteq> ''checkpoint/v1''"
    and "R inp = Inr fs" and "f \<in> set fs"
    and "\<forall>e \<in> ei_evidence_id ` set (ri_evidence inp) \<union> cf_fact_id ` set (ri_facts inp). resolve e \<noteq> None"
  shows "verify_chain sha f (Some resolve) = []"
proof -
  obtain s where s: "reducer_of v = Some s" "rs_version s = v" "yields (minted_by sha s) (R inp)"
    using get_reducer_minted [OF assms(1)] by blast
  have m: "minted_by sha s f" using yieldsD [OF s(3) assms(4,5)] .
  have "(v, R) \<in> set (IMPLS sha q dg)" using assms(1) map_of_SomeD by (simp add: get_reducer_def)
  then have "yields (cites_input inp) (R inp)" using registry_cites [of inp sha q dg] assms(2,3) by (auto simp: list_all_iff)
  then have "cites_input inp f" using yieldsD [OF _ assms(4,5)] by blast
  then have "resolve e \<noteq> None" if "e \<in> set (cf_evidence_ids f)" for e
    using that assms(6) by (meson cites_input_def subsetD)
  then show ?thesis using minted_chain(2) [OF m, of resolve] s by simp
qed

theorem cited_evidence_resolves_witness:
  "\<exists>fs. job_facts_v1 hash_id (input_of ''workflow_run'' ''e'' sample_run) = Inr fs \<and> length fs = 2
     \<and> (\<forall>f \<in> set fs. verify_chain hash_id f (Some [''e'' \<mapsto> []]) = [])"
proof -
  let ?i = "input_of ''workflow_run'' ''e'' sample_run"
  have g: "get_reducer hash_id id (\<lambda>_. []) ''job_facts/v1'' = Some (job_facts_v1 hash_id)"
    by (simp add: get_reducer_def IMPLS_def)
  have v: "map_sum id length (job_facts_v1 hash_id ?i) = Inr 2" by code_simp
  then obtain fs where fs: "job_facts_v1 hash_id ?i = Inr fs" "length fs = 2" by (cases "job_facts_v1 hash_id ?i") auto
  have "\<forall>f \<in> set fs. verify_chain hash_id f (Some [''e'' \<mapsto> []]) = []"
    using cited_evidence_resolves [OF g _ _ fs(1), of _ "[''e'' \<mapsto> []]"] by (simp add: input_of_def)
  with fs show ?thesis by auto
qed

lemma checkpoint_cites_cell:
  "yields (\<lambda>f. ''workflow_run:'' @ cf_scope_id f \<in> set (cf_evidence_ids f)) (checkpoint_of_run sha inp c run)"
proof -
  have "cf_scope_id (checkpoint_fact sha c inp t r es p v) = c" for t r es p v
    by (simp add: checkpoint_fact_def with_digest_def Let_def)
  then show ?thesis unfolding checkpoint_of_run_def Let_def by (simp add: list_all_iff split: sum.split option.split)
qed

text \<open>A checkpoint cannot be used. The producer registers a run under \<open>workflow_run:\<close> and the digest of
  the run, but \<open>checkpoint/v1\<close> cites \<open>workflow_run:\<close> and the id of the cell. A resolver that does not
  know that name refuses every fact the reducer mints, so no checkpoint and no marker ever enters a
  snapshot.\<close>

theorem checkpoint_citations_dangle:
  assumes "checkpoint_v1 sha inp = Inr fs" and "f \<in> set fs" and "resolve (''workflow_run:'' @ cf_scope_id f) = None"
  shows "EvidenceUnresolved (''workflow_run:'' @ cf_scope_id f) \<in> set (verify_chain sha f (Some resolve))"
proof -
  have "yields (\<lambda>f. ''workflow_run:'' @ cf_scope_id f \<in> set (cf_evidence_ids f)) (checkpoint_v1 sha inp)"
    by (rule checkpoint_v1_yield) (rule checkpoint_cites_cell)
  then have "''workflow_run:'' @ cf_scope_id f \<in> set (cf_evidence_ids f)" by (rule yieldsD [OF _ assms(1,2)])
  with assms(3) show ?thesis by (auto simp: verify_chain_def evidence_errors_def)
qed

theorem checkpoint_citations_dangle_witness:
  "\<exists>fs. checkpoint_v1 hash_id (input_of ''workflow_run'' (''workflow_run:'' @ run_artifact_id hash_id sample_run) sample_run) = Inr fs
     \<and> map cf_predicate fs = [''session_checkpoint'', ''checkpoint_present'']
     \<and> (\<forall>f \<in> set fs. EvidenceUnresolved (''workflow_run:'' @ cf_scope_id f)
          \<in> set (verify_chain hash_id f (Some [''workflow_run:'' @ run_artifact_id hash_id sample_run \<mapsto> []])))"
proof -
  let ?i = "input_of ''workflow_run'' (''workflow_run:'' @ run_artifact_id hash_id sample_run) sample_run"
  have v: "map_sum id (map (\<lambda>f. (cf_predicate f, cf_scope_id f))) (checkpoint_v1 hash_id ?i)
      = Inr [(''session_checkpoint'', ''wf_s_m''), (''checkpoint_present'', ''wf_s_m'')]" by code_simp
  have n: "''workflow_run:wf_s_m'' \<noteq> ''workflow_run:'' @ run_artifact_id hash_id sample_run" by code_simp
  obtain fs where fs: "checkpoint_v1 hash_id ?i = Inr fs"
      "map (\<lambda>f. (cf_predicate f, cf_scope_id f)) fs = [(''session_checkpoint'', ''wf_s_m''), (''checkpoint_present'', ''wf_s_m'')]"
    using v by (cases "checkpoint_v1 hash_id ?i") auto
  have c: "\<forall>f \<in> set fs. cf_scope_id f = ''wf_s_m''" using fs(2) by auto
  show ?thesis using checkpoint_citations_dangle [OF fs(1)] c n fs by (auto simp: map_eq_Cons_conv)
qed

end
