(* ===== verification/Story_Bridge.thy ===== *)
theory Story_Bridge
  imports Reducer_Facts
begin

text \<open>
  The story reducer and the attempt reducer agree: what \<open>story_facts/v1\<close> mints for a session is what
  \<open>attempt_facts/v1\<close> mints for the run artifact the session projects to.
\<close>

section \<open>The story bridge\<close>

text \<open>The same fact under the name of the story reducer.\<close>

definition as_story :: "(string \<Rightarrow> string) \<Rightarrow> canonical_fact \<Rightarrow> canonical_fact" where
  "as_story sha f = with_digest sha (f\<lparr>cf_reducer := ''story_facts'', cf_reducer_version := ''story_facts/v1''\<rparr>)"

lemma append_if_map: "append_if c (\<lambda>x. h (mk x)) v = map_sum id (map h) (append_if c mk v)"
  by (auto simp: append_if_def split: sum.splits)

lemma append_all_map: "append_all (map (map_sum id (map h)) xs) = map_sum id (map h) (append_all xs)"
  by (induction xs rule: append_all.induct) (auto split: sum.splits)

lemma token_values_map: "token_values t (\<lambda>p v. h (mk p v)) = map (map_sum id (map h)) (token_values t mk)"
  by (auto simp: token_values_def append_if_map split: option.split)

lemma pyget_Cons: "pyget ((k, v) # d) x = (if x = k then v else pyget d x)"
  by (simp add: pyget_def)

lemma pyget_append: "pyget (d @ e) x = (case map_of d x of None \<Rightarrow> pyget e x | Some v \<Rightarrow> v)"
  by (simp add: pyget_def map_add_def split: option.split)

lemma session_run_fields:
  assumes "session_run cell session = Inr run"
  shows "pyget run ''spec_name'' = PStr (fst (story_cell_identity cell))" "pyget run ''model'' = PStr (snd (story_cell_identity cell))"
    "pyget run ''git_sha'' = PStr (or_text (pyget session ''commit_hash'') [])"
    "pyget run ''ended_at'' = PStr (or_text (pyget cell ''completed_at'') [])"
    "pyget run ''started_at'' = PStr (or_text (pyget cell ''started_at'') [])"
    "pyget run ''phases'' = PList [PDict (session_phase cell session)]"
  using assms by (auto simp: session_run_def pyget_Cons split: sum.splits prod.splits)

lemma truthy_text: "truthy v \<Longrightarrow> py_str v \<noteq> []"
proof (cases v)
  case (PFloat x)
  then show ?thesis by (cases x) (simp_all add: py_str_def Let_def)
next
  case (PInt i)
  have "show_nat n \<noteq> []" for n by (subst show_nat.simps) simp
  then show ?thesis using PInt by (simp add: py_str_def show_int_def)
qed (simp_all add: py_str_def)

lemma or_text_default [simp]: "or_text (PStr (or_text v [])) d = or_text v d"
  using truthy_text [of v] by (auto simp: or_text_def)

lemma or_text_self: "or_text (PStr s) [] = s"
  by simp

lemma story_fact_as_story:
  assumes "session_run cell session = Inr run"
  shows "story_fact sha run cell session n i inp e p v = as_story sha (attempt_fact sha run n i inp e p v)"
  using session_run_fields [OF assms]
  by (simp add: story_fact_def attempt_fact_def as_story_def with_digest_def run_cell_def run_observed_at_def
      recompute_inputs_digest_def Let_def or_text_self del: or_text_PStr split: prod.split)

lemma append_all_skip: "append_all xs = append_all (filter (\<lambda>x. x \<noteq> Inr []) xs)"
  by (induction xs rule: append_all.induct) (auto split: sum.splits)

lemma append_if_False [simp]: "append_if False mk v = Inr []"
  by (simp add: append_if_def)

lemma session_phase_fields:
  "pyget (session_phase cell session) ''phase'' = PStr (session_name session)"
  "pyget (session_phase cell session) ''kind'' = PStr ''agent''"
  "pyget (session_phase cell session) ''status'' = PStr (if session_ok session then ''ok'' else ''failed'')"
  "or_text (pyget (session_phase cell session) ''commit_hash'') [] = or_text (pyget session ''commit_hash'') []"
  "or_text (pyget (session_phase cell session) ''model'') [] = snd (story_cell_identity cell)"
  "pyget (session_phase cell session) ''cost_usd'' = (if is_number (pyget session ''cost_usd'') then pyget session ''cost_usd'' else PNone)"
  "pyget (session_phase cell session) ''confidence'' = pyget session ''confidence''"
  "pyget (session_phase cell session) ''cache_hit_rate'' = PNone"
  "pyget (session_phase cell session) ''test_executed_success'' = PNone"
  by (simp_all add: session_phase_def Let_def pyget_Cons pyget_append pyget_def [of "[]"] split: option.split)

lemma session_phase_tokens:
  "filter (\<lambda>x. x \<noteq> Inr []) (token_values (if truthy (pyget (session_phase cell session) ''tokens'')
       then pyget (session_phase cell session) ''tokens'' else PDict []) mk)
   = filter (\<lambda>x. x \<noteq> Inr []) (token_values (pyget session ''tokens'') mk)"
proof (cases "as_pydict (pyget session ''tokens'')")
  case None
  then have "pyget (session_phase cell session) ''tokens'' = PNone"
    by (simp add: session_phase_def Let_def pyget_Cons pyget_append pyget_def [of "[]"])
  with None show ?thesis by (simp add: token_values_def pyget_def append_if_def)
next
  case (Some t)
  let ?some = "pyget t ''in'' \<noteq> PNone \<or> pyget t ''out'' \<noteq> PNone"
  have "pyget (session_phase cell session) ''tokens'' = (if ?some then PDict (token_split t) else PNone)"
    using Some by (simp add: session_phase_def Let_def pyget_Cons pyget_append pyget_def [of "[]"])
  moreover have "pyget (token_split t) ''in'' = pyget t ''in''" "pyget (token_split t) ''out'' = pyget t ''out''"
    "token_split t \<noteq> []" by (simp_all add: token_split_def pyget_Cons)
  ultimately show ?thesis using Some by (auto simp: token_values_def append_if_def pyget_def [of "[]"])
qed

lemma session_name_nonempty: "session_name s \<noteq> []"
  by (simp add: session_name_def split: pyval.split)

text \<open>What both reducers emit for a session, as a function of the constructor.\<close>

definition session_entries ::
  "pydict \<Rightarrow> pydict \<Rightarrow> (string \<Rightarrow> string \<Rightarrow> canonical_fact) \<Rightarrow> (py_error + canonical_fact list) list" where
  "session_entries cell session mk =
     (let commit = or_text (pyget session ''commit_hash'') []; model = snd (story_cell_identity cell) in
      [append_if True (mk ''phase_status'') (encode_value (PStr (if session_ok session then ''ok'' else ''failed'')) ''enum''),
       append_if (commit \<noteq> []) (mk ''phase_commit'') (encode_value (PStr commit) ''str''),
       append_if (model \<noteq> []) (mk ''attempt_model'') (encode_value (PStr model) ''str'')]
      @ token_values (pyget session ''tokens'') mk
      @ [append_if (is_number (pyget session ''cost_usd'')) (mk ''attempt_cost_usd'') (encode_value (pyget session ''cost_usd'') ''usd''),
         append_if (pyget session ''confidence'' \<noteq> PNone) (mk ''attempt_confidence'') (encode_value (pyget session ''confidence'') ''float'')])"

lemma session_entries_map:
  "session_entries cell session (\<lambda>p v. h (mk p v)) = map (map_sum id (map h)) (session_entries cell session mk)"
  by (simp add: session_entries_def Let_def append_if_map token_values_map)

lemma phase_entries:
  "facts_for_phase sha run (session_phase cell session) inp e =
     append_all (session_entries cell session (attempt_fact sha run (session_name session)
       (run_cell run @ '':'' @ session_name session @ '':'' @ run_artifact_id sha run) inp e))"
  unfolding facts_for_phase_def session_entries_def Let_def
  by (subst (1 2) append_all_skip)
    (simp add: session_phase_fields session_name_nonempty session_phase_tokens is_number_def append_if_def)

lemma append_all_snoc_empty: "append_all (xs @ [Inr []]) = append_all xs"
  by (simp add: append_all_append split: sum.split)

lemma session_entries_of:
  assumes "session_run cell session = Inr run"
  shows "facts_for_session sha cell session inp e False =
     append_all (session_entries cell session (story_fact sha run cell session (session_name session)
       (run_cell run @ '':'' @ session_name session @ '':'' @ run_artifact_id sha run) inp e))"
proof -
  have rc: "run_cell run = cell_id (fst (story_cell_identity cell)) (snd (story_cell_identity cell))"
    using session_run_fields [OF assms] by (simp add: run_cell_def)
  show ?thesis unfolding facts_for_session_def session_entries_def Let_def assms rc
    by (subst (1 2) append_all_skip) (simp split: prod.split)
qed

text \<open>C29: the story bridge fills the same slots. The facts \<open>story_facts/v1\<close> mints for a session that is not
  the last are, fact by fact, the facts \<open>attempt_facts/v1\<close> mints for the run artifact the session projects
  to, with the reducer's name and version exchanged: same slot, same value, same time, same evidence; and
  where one of them raises, so does the other.\<close>

theorem story_bridge_matches_attempts:
  assumes "session_run cell session = Inr run"
  shows "facts_for_session sha cell session inp e False
    = map_sum id (map (as_story sha)) (facts_for_phase sha run (session_phase cell session) inp e)"
proof -
  let ?i = "run_cell run @ '':'' @ session_name session @ '':'' @ run_artifact_id sha run"
  have st: "story_fact sha run cell session (session_name session) ?i inp e
      = (\<lambda>p v. as_story sha (attempt_fact sha run (session_name session) ?i inp e p v))"
    by (intro ext) (rule story_fact_as_story [OF assms])
  show ?thesis unfolding session_entries_of [OF assms] phase_entries st session_entries_map append_all_map ..
qed

text \<open>A story of one session with a measured zero.\<close>

definition sample_cell :: pydict where
  "sample_cell = [(''story_name'', PStr ''s''), (''perturbation_condition'', PStr ''clean''), (''model'', PStr ''m''),
     (''completed_at'', PStr ''2026-03-02''), (''sessions'', PList [])]"

definition sample_session :: pydict where
  "sample_session = [(''session_number'', PInt 1), (''exit_code'', PInt 0), (''cost_usd'', PFloat (Fin (1 / 2))),
     (''tokens'', PDict [(''in'', PInt 0)])]"

theorem story_bridge_matches_attempts_witness:
  "\<exists>run gs. session_run sample_cell sample_session = Inr run
     \<and> facts_for_phase hash_id run (session_phase sample_cell sample_session) (input_of ''story'' ''e'' sample_cell) ''e'' = Inr gs
     \<and> map cf_value gs = [''ok'', ''m'', ''0'', ''0.5'']
     \<and> facts_for_session hash_id sample_cell sample_session (input_of ''story'' ''e'' sample_cell) ''e'' False
         = Inr (map (as_story hash_id) gs)"
proof -
  have r: "is_ok (session_run sample_cell sample_session)" by code_simp
  then obtain run where run: "session_run sample_cell sample_session = Inr run"
    by (cases "session_run sample_cell sample_session") auto
  have "case session_run sample_cell sample_session of Inl _ \<Rightarrow> False
      | Inr run \<Rightarrow> map_sum id (map cf_value) (facts_for_phase hash_id run (session_phase sample_cell sample_session)
          (input_of ''story'' ''e'' sample_cell) ''e'') = Inr [''ok'', ''m'', ''0'', ''0.5'']" by code_simp
  then obtain gs where "facts_for_phase hash_id run (session_phase sample_cell sample_session) (input_of ''story'' ''e'' sample_cell) ''e'' = Inr gs"
      "map cf_value gs = [''ok'', ''m'', ''0'', ''0.5'']"
    unfolding run by (cases "facts_for_phase hash_id run (session_phase sample_cell sample_session) (input_of ''story'' ''e'' sample_cell) ''e''") auto
  with story_bridge_matches_attempts [OF run, of hash_id "input_of ''story'' ''e'' sample_cell" "''e''"] run
  show ?thesis by auto
qed

end
