(* ===== verification/Reducer_Bounds.thy ===== *)
theory Reducer_Bounds
  imports Reducer_Facts
begin

text \<open>
  Bounds of the reducers: limits only tighten down the scope chain, the risk of a code change is a
  fraction, and the interval of a pattern has a width between 0 and 1.
\<close>

section \<open>Tightening\<close>

lemma fmin_list_is_Min: "fmin_list (Fin q) (map Fin qs) = Fin (Min (insert q (set qs)))"
proof (induction qs arbitrary: q)
  case (Cons r qs)
  have "fmin (Fin q) (Fin r) = Fin (min q r)" by (simp add: fmin_def min_def)
  then have "fmin_list (Fin q) (map Fin (r # qs)) = Fin (Min (insert (min q r) (set qs)))" using Cons.IH by simp
  also have "Min (insert (min q r) (set qs)) = Min (insert q (set (r # qs)))"
    by (cases "qs = []") (simp_all add: Min_insert2 min.assoc [symmetric])
  finally show ?case .
qed simp

lemma smallest_Fin: "qs \<noteq> [] \<Longrightarrow> smallest (map Fin qs) = Fin (Min (set qs))"
  by (cases qs) (simp_all add: smallest_def fmin_list_is_Min)

lemma floats_of_length: "floats_of vs = Inr xs \<Longrightarrow> length xs = length vs"
  by (induction vs arbitrary: xs) (auto split: option.splits sum.splits)

lemma limit_types: "ps_value_type (predicate_row ''max_spend_usd'') = ''usd''"
  "ps_value_type (predicate_row ''max_attempts'') = ''int''" by code_simp+

lemma split_on_parts: "m \<in> set (split_on c s) \<Longrightarrow> c \<notin> set m"
proof (induction s arbitrary: m)
  case (Cons d s)
  show ?case
  proof (cases "d = c")
    case False
    obtain x xs where "split_on c s = x # xs" by (cases "split_on c s") auto
    with Cons False show ?thesis by auto
  qed (use Cons in auto)
qed simp

lemma set_common_models:
  "vs \<noteq> [] \<Longrightarrow> set (common_models vs) = {m. \<forall>v \<in> set vs. m \<in> set (split_on (CHR '','') v)}"
  by (cases vs) (auto simp: common_models_def list_all_iff)

lemma models_of_join:
  assumes "\<And>m. m \<in> set xs \<Longrightarrow> c \<notin> set m"
  shows "set (split_on c (join_with c xs)) - {[]} = set xs - {[]}"
  using assms by (cases "xs = []") (simp_all add: split_on_join)

definition listed :: "string \<Rightarrow> string set" where
  "listed s = set (split_on (CHR '','') s) - {[]}"

text \<open>Limits only tighten down the scope chain. Of numeric limits the smallest is kept (a number of
  attempts in whole attempts), and of model lists exactly the models that every non-empty list allows.\<close>

theorem tightening_never_widens:
  assumes "candidates \<noteq> []"
  shows "(floats_of (map cf_value candidates) = Inr (map Fin qs) \<longrightarrow>
      tighten_policy candidates ''max_spend_usd'' = Inr (Some (repr_float (Fin (Min (set qs)))))
      \<and> tighten_policy candidates ''max_attempts'' = Inr (Some (show_int (truncate_rat (Min (set qs))))))
    \<and> (tighten_policy candidates ''allowed_models'' = Inr (Some s) \<longrightarrow>
      listed s = {m. m \<noteq> [] \<and> (\<forall>f \<in> set candidates. cf_value f = [] \<or> m \<in> listed (cf_value f))})"
proof (intro conjI impI)
  assume fl: "floats_of (map cf_value candidates) = Inr (map Fin qs)"
  then have "qs \<noteq> []" using floats_of_length [OF fl] assms by auto
  then show "tighten_policy candidates ''max_spend_usd'' = Inr (Some (repr_float (Fin (Min (set qs)))))"
    and "tighten_policy candidates ''max_attempts'' = Inr (Some (show_int (truncate_rat (Min (set qs)))))"
    using assms fl by (simp_all add: tighten_policy_def Let_def limit_types smallest_Fin encode_value_def py_str_def)
next
  let ?vs = "filter (\<lambda>v. v \<noteq> []) (map cf_value candidates)"
  assume "tighten_policy candidates ''allowed_models'' = Inr (Some s)"
  then have vs: "?vs \<noteq> []" and s: "s = join_with (CHR '','') (common_models ?vs)"
    using assms by (auto simp: tighten_policy_def Let_def split: if_splits)
  have "CHR '','' \<notin> set m" if "m \<in> set (common_models ?vs)" for m
  proof -
    have "m \<in> set (split_on (CHR '','') (hd ?vs))" using that hd_in_set [OF vs] unfolding set_common_models [OF vs] by blast
    then show ?thesis by (rule split_on_parts)
  qed
  then have "listed s = set (common_models ?vs) - {[]}" unfolding listed_def s by (rule models_of_join)
  then show "listed s = {m. m \<noteq> [] \<and> (\<forall>f \<in> set candidates. cf_value f = [] \<or> m \<in> listed (cf_value f))}"
    unfolding set_common_models [OF vs] by (auto simp: listed_def)
qed

theorem tightening_never_widens_witness:
  "\<exists>a b c. tighten_policy [a, b] ''max_spend_usd'' = Inr (Some ''2.5'') \<and> cf_value a = ''4'' \<and> cf_value b = ''2.5''
     \<and> tighten_policy [c, c] ''allowed_models'' = Inr (Some ''m1,m2'') \<and> cf_value c = ''m2,m1''
     \<and> listed ''m1,m2'' = {m. m \<noteq> [] \<and> m \<in> listed ''m2,m1''}"
proof -
  let ?f = "\<lambda>v. policy_fact hash_id [] (input_of [] [] []) ''max_spend_usd'' v"
  have v: "cf_value (?f v) = v" for v by (simp add: policy_fact_def Let_def)
  have n: "floats_of (map cf_value [?f ''4'', ?f ''2.5'']) = Inr (map Fin [4, 5 / 2])"
    unfolding list.map v by code_simp
  have "Min {4, 5 / 2 :: rat} = 5 / 2" "repr_float (Fin (5 / 2)) = ''2.5''" by (simp, code_simp)
  with tightening_never_widens [of "[?f ''4'', ?f ''2.5'']" "[4, 5 / 2]"] n
  have 1: "tighten_policy [?f ''4'', ?f ''2.5''] ''max_spend_usd'' = Inr (Some ''2.5'')" by simp
  have 2: "tighten_policy [?f ''m2,m1'', ?f ''m2,m1''] ''allowed_models'' = Inr (Some ''m1,m2'')"
    unfolding tighten_policy_def Let_def list.map v by code_simp
  have "listed ''m1,m2'' = {m. m \<noteq> [] \<and> m \<in> listed ''m2,m1''}"
    using tightening_never_widens [of "[?f ''m2,m1'', ?f ''m2,m1'']" "[]" "''m1,m2''"] 2 v by simp
  with 1 2 v show ?thesis by blast
qed

text \<open>Lists without a common model leave the empty text, which is not the \<open>None\<close> of an absent limit.\<close>

lemma empty_intersection:
  "map_sum id id (tighten_policy [policy_fact hash_id [] (input_of [] [] []) ''allowed_models'' ''m1'',
     policy_fact hash_id [] (input_of [] [] []) ''allowed_models'' ''m2''] ''allowed_models'') = Inr (Some [])"
  by code_simp

section \<open>Risk is a fraction\<close>

lemma round4_unit:
  assumes "0 \<le> q" "q \<le> 1"
  shows "0 \<le> round4 q \<and> round4 q \<le> 1"
proof -
  let ?n = "round_even (q * 10000)"
  have "\<bar>of_int ?n - q * 10000\<bar> \<le> (1 / 2 :: rat)" by (rule round_even_bounds)
  then have "- 1 < (of_int ?n :: rat)" "(of_int ?n :: rat) < 10001" using assms by linarith+
  then have "- 1 < ?n" "?n < 10001" by linarith+
  then show ?thesis by (simp add: round4_def)
qed

definition unit_terms :: "(rat \<times> rat) list \<Rightarrow> bool" where
  "unit_terms ts \<longleftrightarrow> (\<forall>(w, t) \<in> set ts. 0 < w \<and> 0 \<le> t \<and> t \<le> 1)"

lemma unit_terms_sums:
  "unit_terms ts \<Longrightarrow> 0 \<le> sum_list (map (\<lambda>(w, t). w * t) ts) \<and> sum_list (map (\<lambda>(w, t). w * t) ts) \<le> sum_list (map fst ts)"
proof (induction ts)
  case (Cons x ts)
  obtain w t where x: "x = (w, t)" by force
  with Cons.prems have "0 \<le> w * t" "w * t \<le> w" by (auto simp: unit_terms_def mult_left_le)
  moreover have "unit_terms ts" using Cons.prems by (simp add: unit_terms_def)
  ultimately show ?case using Cons.IH x by simp
qed simp

lemma weighted_mean_unit:
  assumes "unit_terms ts"
  shows "0 \<le> sum_list (map (\<lambda>(w, t). w * t) ts) / sum_list (map fst ts)"
    "sum_list (map (\<lambda>(w, t). w * t) ts) / sum_list (map fst ts) \<le> 1"
  using unit_terms_sums [OF assms] by (auto simp: divide_le_eq_1 intro: divide_nonneg_nonneg)

lemma tests_ratio_unit:
  assumes "tests_ratio d = Some q"
  shows "0 < q \<and> q \<le> 1"
proof -
  let ?after = "map sy_qualified_name (de_added_symbols d @ de_changed_symbols d)"
  let ?before = "map sy_qualified_name (de_removed_symbols d)"
  have q: "q = of_nat (tested_changed d) / of_nat (changed_symbol_count d)" "tested_changed d \<noteq> 0" "changed_symbol_count d \<noteq> 0"
    using assms by (auto simp: tests_ratio_def split: if_splits)
  have "tested_changed d \<le> length (filter (\<lambda>n. n \<in> set (tested_symbols (de_after d))) ?after
      @ filter (\<lambda>n. n \<in> set (tested_symbols (de_before d))) ?before)"
    unfolding tested_changed_def Let_def by (rule length_remdups_leq)
  also have "\<dots> \<le> length ?after + length ?before" unfolding length_append by (intro add_mono length_filter_le)
  also have "\<dots> = changed_symbol_count d" by (simp add: changed_symbol_count_def)
  finally show ?thesis using q by simp
qed

definition not_negative :: "int option \<Rightarrow> bool" where
  "not_negative n \<longleftrightarrow> (case n of None \<Rightarrow> True | Some i \<Rightarrow> 0 \<le> i)"

lemma risk_terms_unit:
  assumes "not_negative c" "not_negative e" "not_negative h"
  shows "unit_terms (risk_terms c e (Option.bind d tests_ratio) h)"
proof -
  have "0 \<le> count_term i \<and> count_term i \<le> 1" if "0 \<le> i" for i using that by (simp add: count_term_def)
  moreover have "0 \<le> 1 - q \<and> 1 - q \<le> 1" if "Option.bind d tests_ratio = Some q" for q
    using that tests_ratio_unit by (fastforce split: bind_splits)
  ultimately show ?thesis using assms
    by (auto simp: risk_terms_def term_if_def unit_terms_def not_negative_def split: option.splits)
qed

text \<open>The risk of a code change is a fraction. With counts that are not negative, the weighted mean over
  the measurable terms, renormalised and rounded, lies between 0 and 1, and there is no risk exactly when
  nothing was measured.\<close>

theorem code_change_risk_bounds:
  assumes "not_negative criticals" and "not_negative errors" and "not_negative hits"
  shows "case code_change_risk (risk_terms criticals errors (Option.bind delta tests_ratio) hits) of
      None \<Rightarrow> criticals = None \<and> errors = None \<and> hits = None \<and> Option.bind delta tests_ratio = None
    | Some r \<Rightarrow> 0 \<le> r \<and> r \<le> 1"
proof (cases "risk_terms criticals errors (Option.bind delta tests_ratio) hits = []")
  case True
  then show ?thesis by (auto simp: code_change_risk_def risk_terms_def term_if_def split: option.splits)
next
  case False
  then show ?thesis
    using round4_unit [OF weighted_mean_unit [OF risk_terms_unit [OF assms]]] by (simp add: code_change_risk_def)
qed

theorem code_change_risk_bounds_witness:
  "code_change_risk (risk_terms (Some 4) None (Option.bind None tests_ratio) (Some 30)) = Some (3091 / 5000)
     \<and> 0 \<le> (3091 / 5000 :: rat) \<and> (3091 / 5000 :: rat) \<le> 1"
proof -
  have v: "code_change_risk (risk_terms (Some 4) None (Option.bind None tests_ratio) (Some 30)) = Some (3091 / 5000)"
    by code_simp
  with code_change_risk_bounds [of "Some 4" None "Some 30" None] show ?thesis by (simp add: not_negative_def)
qed

section \<open>The interval of a pattern\<close>

lemma wilson_center:
  assumes "0 < n" "0 \<le> p" "p \<le> 1"
  shows "0 \<le> (p + (z * z) / (2 * n)) / (1 + (z * z) / n)" "(p + (z * z) / (2 * n)) / (1 + (z * z) / n) \<le> (1 :: rat)"
proof -
  have z: "0 \<le> z * z / n" "z * z / (2 * n) = z * z / n / 2" using assms(1) by simp_all
  show "0 \<le> (p + (z * z) / (2 * n)) / (1 + (z * z) / n)" using assms z by simp
  show "(p + (z * z) / (2 * n)) / (1 + (z * z) / n) \<le> 1"
    using z(1) assms(3) unfolding z(2) by (subst divide_le_eq_1_pos) simp_all
qed

lemma wilson_interval_width_unit:
  assumes "0 < trials" "successes \<le> trials" "\<And>x. 0 \<le> sqrt_of x"
  shows "0 \<le> wilson_interval_width sqrt_of successes trials" "wilson_interval_width sqrt_of successes trials \<le> 1"
proof -
  let ?n = "of_nat trials :: rat"
  let ?p = "of_nat successes / ?n"
  let ?s = "sqrt_of ((?p * (1 - ?p) / ?n) + (WILSON_Z * WILSON_Z) / (4 * ?n * ?n))"
  have n: "0 < ?n" "0 \<le> ?p" "?p \<le> 1" using assms(1,2) by simp_all
  have "0 \<le> WILSON_Z" by (simp add: WILSON_Z_def)
  moreover have "0 < 1 + (WILSON_Z * WILSON_Z) / ?n" by (rule add_pos_nonneg) (use n(1) in simp_all)
  ultimately have m: "0 \<le> WILSON_Z / (1 + (WILSON_Z * WILSON_Z) / ?n) * ?s" using assms(3) by simp
  show "0 \<le> wilson_interval_width sqrt_of successes trials" "wilson_interval_width sqrt_of successes trials \<le> 1"
    using m wilson_center [OF n, of WILSON_Z] unfolding wilson_interval_width_def Let_def by linarith+
qed

end
