(* ===== verification/Ladder_Facts.thy ===== *)
theory Ladder_Facts
  imports Reducer_Facts "HOL-Library.Multiset"
begin

text \<open>
  The workflow rung: a fact counts once however often it is handed in, and the order of the input does not
  matter as long as the time stamps and the paths leave no tie; with a tie it does.
\<close>

section \<open>Duplicates\<close>

lemma seen_after: "\<not> is_policy f \<Longrightarrow> fact_cell f \<noteq> [] \<Longrightarrow> cf_fact_id f \<noteq> [] \<Longrightarrow> seen_in (la_facts (note_fact f L) (fact_cell f)) f"
  by (auto simp: note_fact_def Let_def seen_in_def)

lemma seen_stays: "seen_in (la_facts L c) f \<Longrightarrow> seen_in (la_facts (note_fact g L) c) f"
  by (auto simp: note_fact_def Let_def seen_in_def)

lemma seen_stays_foldl: "seen_in (la_facts L c) f \<Longrightarrow> seen_in (la_facts (foldl (\<lambda>L f. note_fact f L) L gs) c) f"
  by (induction gs arbitrary: L) (auto intro: seen_stays)

lemma seen_in_ladder:
  assumes "f \<in> set fs" "\<not> is_policy f" "fact_cell f \<noteq> []" "cf_fact_id f \<noteq> []"
  shows "seen_in (la_facts (ladder_of fs) (fact_cell f)) f"
proof -
  obtain as bs where "fs = as @ f # bs" using assms(1) split_list by metis
  then show ?thesis using seen_stays_foldl [OF seen_after [OF assms(2-4)]] by (simp add: ladder_of_def)
qed

lemma note_seen: "\<not> is_policy f \<Longrightarrow> fact_cell f = [] \<or> seen_in (la_facts L (fact_cell f)) f \<Longrightarrow> note_fact f L = L"
  by (auto simp: note_fact_def Let_def)

lemma facts_for_cell_input [simp]:
  "facts_for_cell sha w c fs m (inp\<lparr>ri_facts := gs\<rparr>) = facts_for_cell sha w c fs m inp"
proof -
  have "workflow_fact sha w c (inp\<lparr>ri_facts := gs\<rparr>) es = workflow_fact sha w c inp es" for es
    by (intro ext) (simp add: workflow_fact_def)
  then show ?thesis by (simp add: facts_for_cell_def)
qed

text \<open>A phase counts once. Handing in again facts that are already there, in any number and any order,
  changes nothing of what the workflow reducer mints (limits excepted, where the last one wins).\<close>

theorem duplicates_do_not_count:
  assumes "\<forall>g \<in> set gs. g \<in> set fs \<and> \<not> is_policy g \<and> cf_fact_id g \<noteq> []"
  shows "workflow_facts_v1 sha (inp\<lparr>ri_facts := fs @ gs\<rparr>) = workflow_facts_v1 sha (inp\<lparr>ri_facts := fs\<rparr>)"
proof -
  have "foldl (\<lambda>L f. note_fact f L) (ladder_of fs) hs = ladder_of fs" if "set hs \<subseteq> set gs" for hs
    using that
  proof (induction hs)
    case (Cons h hs)
    then have "note_fact h (ladder_of fs) = ladder_of fs"
      using assms seen_in_ladder [of h fs] by (intro note_seen) auto
    with Cons show ?case by simp
  qed simp
  then have "ladder_of (fs @ gs) = ladder_of fs" by (simp add: ladder_of_def)
  then show ?thesis by (simp add: workflow_facts_v1_def)
qed

section \<open>Order\<close>

lemma current_attempts_alt:
  assumes "f \<in> set fs" "cf_scope_type f = ''attempt''"
    and "\<And>g. g \<in> set fs \<Longrightarrow> cf_scope_type g = ''attempt'' \<Longrightarrow> cf_observed_at g \<le> cf_observed_at f"
    and "\<And>g h. g \<in> set fs \<Longrightarrow> h \<in> set fs \<Longrightarrow> cf_scope_type g = ''attempt'' \<Longrightarrow> cf_scope_type h = ''attempt'' \<Longrightarrow>
        cf_observed_at g = cf_observed_at h \<Longrightarrow> run_of g = run_of h"
  shows "current_attempts fs = filter (\<lambda>g. cf_scope_type g = ''attempt'' \<and> run_of g = run_of f) fs"
proof -
  have "f \<in> set (filter (\<lambda>f. cf_scope_type f = ''attempt'') fs)" using assms(1,2) by simp
  then obtain a as where as: "filter (\<lambda>f. cf_scope_type f = ''attempt'') fs = a # as"
    by (cases "filter (\<lambda>f. cf_scope_type f = ''attempt'') fs") auto
  have mem: "g \<in> set (a # as) \<longleftrightarrow> g \<in> set fs \<and> cf_scope_type g = ''attempt''" for g
    by (simp flip: as)
  define m where "m = first_max cf_observed_at a as"
  have m: "m \<in> set fs" "cf_scope_type m = ''attempt''" unfolding m_def using mem [of "first_max cf_observed_at a as"] first_max_in [of cf_observed_at a as] by argo+
  have "f \<in> set (a # as)" using mem assms(1,2) by blast
  then have "cf_observed_at f \<le> cf_observed_at m" unfolding m_def by (rule first_max_ge)
  then have "cf_observed_at m = cf_observed_at f" using assms(3) [OF m] by (rule order.antisym [rotated])
  then have "run_of m = run_of f" by (rule assms(4) [OF m(1) assms(1) m(2) assms(2)])
  then have "current_attempts fs = filter (\<lambda>g. run_of g = run_of f) (a # as)" by (simp add: current_attempts_def as m_def)
  also have "\<dots> = filter (\<lambda>g. cf_scope_type g = ''attempt'' \<and> run_of g = run_of f) fs"
    unfolding as [symmetric] filter_filter ..
  finally show ?thesis .
qed

text \<open>The time stamps of one cell leave no tie: attempts observed at the same time belong to one run, and
  job facts of one predicate have different times.\<close>

definition no_ties :: "canonical_fact list \<Rightarrow> bool" where
  "no_ties fs \<longleftrightarrow>
     (\<forall>g \<in> set fs. \<forall>h \<in> set fs. cf_scope_type g = ''attempt'' \<and> cf_scope_type h = ''attempt''
        \<and> cf_observed_at g = cf_observed_at h \<longrightarrow> run_of g = run_of h)
     \<and> (\<forall>g \<in> set fs. \<forall>h \<in> set fs. cf_scope_type g = ''job'' \<and> cf_scope_type h = ''job''
        \<and> cf_predicate g = cf_predicate h \<and> cf_observed_at g = cf_observed_at h \<longrightarrow> g = h)"

lemma mset_current_attempts:
  assumes "mset fs = mset gs" "no_ties fs"
  shows "mset (current_attempts fs) = mset (current_attempts gs)"
proof (cases "\<exists>f \<in> set fs. cf_scope_type f = ''attempt''")
  case False
  then show ?thesis using mset_eq_setD [OF assms(1)] by (simp add: current_attempts_def filter_empty_conv)
next
  case True
  let ?A = "{f \<in> set fs. cf_scope_type f = ''attempt''}"
  have "finite ?A" "?A \<noteq> {}" using True by auto
  then have "Max (cf_observed_at ` ?A) \<in> cf_observed_at ` ?A" by (intro Max_in finite_imageI) auto
  then obtain f where f1: "f \<in> ?A" and fm: "Max (cf_observed_at ` ?A) = cf_observed_at f" by (elim imageE)
  have f2: "cf_observed_at g \<le> cf_observed_at f" if "g \<in> ?A" for g
    unfolding fm [symmetric] using \<open>finite ?A\<close> that by (intro Max_ge finite_imageI imageI)
  note f = f1 f2
  note top = f2
  have s: "set gs = set fs" using mset_eq_setD [OF assms(1)] by simp
  have tie: "run_of g = run_of h" if "g \<in> ?A" "h \<in> ?A" "cf_observed_at g = cf_observed_at h" for g h
    using that assms(2) unfolding no_ties_def by blast
  have "current_attempts fs = filter (\<lambda>g. cf_scope_type g = ''attempt'' \<and> run_of g = run_of f) fs"
    by (rule current_attempts_alt) (use f top tie in auto)
  moreover have "current_attempts gs = filter (\<lambda>g. cf_scope_type g = ''attempt'' \<and> run_of g = run_of f) gs"
    by (rule current_attempts_alt) (use f top tie s in auto)
  ultimately show ?thesis using assms(1) by (simp add: mset_filter)
qed

lemma put_job_predicates:
  "distinct (map cf_predicate js) \<Longrightarrow> distinct (map cf_predicate (put_job f js))
     \<and> cf_predicate ` set (put_job f js) = insert (cf_predicate f) (cf_predicate ` set js)"
  by (induction js) auto

lemma put_job_cases:
  "h \<in> set (put_job f js) \<Longrightarrow> distinct (map cf_predicate js) \<Longrightarrow>
     (h = f \<and> (\<forall>g \<in> set js. cf_predicate g = cf_predicate f \<longrightarrow> cf_observed_at g \<le> cf_observed_at f))
     \<or> (h \<in> set js \<and> (cf_predicate h = cf_predicate f \<longrightarrow> cf_observed_at f < cf_observed_at h))"
proof (induction js)
  case (Cons j js)
  show ?case
  proof (cases "cf_predicate j = cf_predicate f")
    case True
    have "cf_predicate g \<noteq> cf_predicate f" if "g \<in> set js" for g
      using Cons.prems(2) True imageI [OF that, of cf_predicate] by (metis distinct.simps(2) list.set_map list.simps(9))
    then show ?thesis using Cons.prems(1) True by (auto split: if_splits)
  qed (use Cons in auto)
qed simp

definition newest_of :: "canonical_fact list \<Rightarrow> canonical_fact list \<Rightarrow> bool" where
  "newest_of xs js \<longleftrightarrow> distinct (map cf_predicate js) \<and> cf_predicate ` set js = cf_predicate ` set xs
     \<and> (\<forall>f \<in> set js. f \<in> set xs \<and> (\<forall>g \<in> set xs. cf_predicate g = cf_predicate f \<longrightarrow> cf_observed_at g \<le> cf_observed_at f))"

lemma newest_of_step:
  assumes "newest_of xs js"
  shows "newest_of (xs @ [f]) (put_job f js)"
proof -
  have d: "distinct (map cf_predicate js)" and p: "cf_predicate ` set js = cf_predicate ` set xs"
    and m: "\<And>h g. h \<in> set js \<Longrightarrow> g \<in> set xs \<Longrightarrow> cf_predicate g = cf_predicate h \<Longrightarrow> cf_observed_at g \<le> cf_observed_at h"
    and i: "\<And>h. h \<in> set js \<Longrightarrow> h \<in> set xs"
    using assms by (auto simp: newest_of_def)
  have best: "cf_observed_at g \<le> cf_observed_at f"
    if "\<forall>g \<in> set js. cf_predicate g = cf_predicate f \<longrightarrow> cf_observed_at g \<le> cf_observed_at f" "g \<in> set xs" "cf_predicate g = cf_predicate f" for g
  proof -
    have "cf_predicate g \<in> cf_predicate ` set js" unfolding p using \<open>g \<in> set xs\<close> by (rule imageI)
    then obtain h where h: "h \<in> set js" "cf_predicate h = cf_predicate f" using \<open>cf_predicate g = cf_predicate f\<close> by (elim imageE) simp
    then have "cf_observed_at g \<le> cf_observed_at h" using m [of h g] that by simp
    also have "\<dots> \<le> cf_observed_at f" using h that by blast
    finally show ?thesis .
  qed
  have "h \<in> set (xs @ [f]) \<and> (\<forall>g \<in> set (xs @ [f]). cf_predicate g = cf_predicate h \<longrightarrow> cf_observed_at g \<le> cf_observed_at h)"
    if h: "h \<in> set (put_job f js)" for h
    using put_job_cases [OF h d] best m i by (auto simp: less_imp_le)
  then show ?thesis using put_job_predicates [OF d] p by (auto simp: newest_of_def)
qed

lemma newest_of_foldl: "newest_of xs js \<Longrightarrow> newest_of (xs @ ys) (foldl (\<lambda>js f. put_job f js) js ys)"
proof (induction ys arbitrary: xs js)
  case (Cons y ys)
  from Cons.IH [OF newest_of_step [OF Cons.prems]] show ?case by simp
qed simp

lemma newest_of_current: "newest_of (filter (\<lambda>f. cf_scope_type f = ''job'') fs) (current_jobs fs)"
  unfolding current_jobs_def using newest_of_foldl [of "[]" "[]" "filter (\<lambda>f. cf_scope_type f = ''job'') fs"]
  by (simp add: newest_of_def [of "[]" "[]"])

lemma newest_of_unique:
  assumes "newest_of xs js" "newest_of ys ks" "set xs = set ys"
    and "\<And>g h. g \<in> set xs \<Longrightarrow> h \<in> set xs \<Longrightarrow> cf_predicate g = cf_predicate h \<Longrightarrow> cf_observed_at g = cf_observed_at h \<Longrightarrow> g = h"
  shows "set js \<subseteq> set ks"
proof
  fix f assume f: "f \<in> set js"
  then have fx: "f \<in> set xs" "\<And>g. g \<in> set xs \<Longrightarrow> cf_predicate g = cf_predicate f \<Longrightarrow> cf_observed_at g \<le> cf_observed_at f"
    using assms(1) by (auto simp: newest_of_def)
  have "cf_predicate f \<in> cf_predicate ` set ks" using assms(2,3) fx(1) by (simp add: newest_of_def)
  then obtain g where g: "g \<in> set ks" "cf_predicate g = cf_predicate f" by (metis image_iff)
  then have gx: "g \<in> set xs" "cf_observed_at f \<le> cf_observed_at g" using assms(2,3) fx(1) by (auto simp: newest_of_def)
  with fx g(2) have "cf_observed_at g = cf_observed_at f" by (simp add: order.antisym)
  then have "g = f" using assms(4) gx(1) fx(1) g(2) by blast
  with g(1) show "f \<in> set ks" by simp
qed

lemma current_jobs_perm:
  assumes "mset fs = mset gs" "no_ties fs"
  shows "mset (current_jobs fs) = mset (current_jobs gs)" "job_of p (current_jobs fs) = job_of p (current_jobs gs)"
proof -
  let ?j = "\<lambda>fs. filter (\<lambda>f. cf_scope_type f = ''job'') fs"
  have s: "set (?j fs) = set (?j gs)" using mset_eq_setD [OF assms(1)] by simp
  have u: "g = h" if "g \<in> set (?j fs)" "h \<in> set (?j fs)" "cf_predicate g = cf_predicate h" "cf_observed_at g = cf_observed_at h" for g h
    using that assms(2) unfolding no_ties_def by auto
  have eq: "set (current_jobs fs) = set (current_jobs gs)"
    using newest_of_unique [OF newest_of_current newest_of_current s] newest_of_unique [OF newest_of_current newest_of_current s [symmetric]] u s
    by blast
  have d: "distinct (map cf_predicate (current_jobs hs))" for hs using newest_of_current by (simp add: newest_of_def)
  then show "mset (current_jobs fs) = mset (current_jobs gs)" using eq by (simp add: distinct_map set_eq_iff_mset_eq_distinct)
  have j: "job_of p js = Some f \<longleftrightarrow> f \<in> set js \<and> cf_predicate f = p" if "distinct (map cf_predicate js)" for js f
    using that by (induction js) (auto simp: job_of_def)
  show "job_of p (current_jobs fs) = job_of p (current_jobs gs)"
    using j [OF d [of fs]] j [OF d [of gs]] eq by (cases "job_of p (current_jobs gs)") (metis option.exhaust, metis)
qed

lemma facts_for_cell_perm:
  assumes "mset fs = mset gs" "no_ties fs"
  shows "facts_for_cell sha w c fs m inp = facts_for_cell sha w c gs m inp"
proof -
  note a = mset_current_attempts [OF assms]
  note j = current_jobs_perm [OF assms]
  let ?p = "\<lambda>fs. filter (\<lambda>f. cf_predicate f = ''phase_status'') (current_attempts fs)"
  have p: "mset (?p fs) = mset (?p gs)" using a by (simp add: mset_filter)
  have l: "length (?p fs) = length (?p gs)" using p by (rule mset_eq_length)
  have e: "?p fs = [] \<longleftrightarrow> ?p gs = []" using l by (metis length_0_conv)
  have k: "length (filter (\<lambda>f. cf_value f = ''ok'') (?p fs)) = length (filter (\<lambda>f. cf_value f = ''ok'') (?p gs))"
    using p by (metis mset_filter size_mset)
  have x: "list_ex (\<lambda>f. cf_value f = ''failed'') (?p fs) = list_ex (\<lambda>f. cf_value f = ''failed'') (?p gs)"
    using mset_eq_setD [OF p] by (simp only: list_ex_iff)
  have je: "current_jobs fs = [] \<longleftrightarrow> current_jobs gs = []" using j(1) by (metis mset_zero_iff)
  have "citable_ids (current_attempts fs @ current_jobs fs @ r) = citable_ids (current_attempts gs @ current_jobs gs @ r)" for r
    unfolding citable_ids_def
    by (rule properties_for_sort) (simp_all add: a j(1) mset_filter mset_map)
  then show ?thesis
    unfolding facts_for_cell_def Let_def workflow_failed_def total_phases_def
    by (simp only: j(2) l e k x je)
qed

section \<open>The ladder of a permuted input\<close>

definition rung :: "string \<Rightarrow> canonical_fact list \<Rightarrow> canonical_fact list" where
  "rung c fs = filter (\<lambda>f. \<not> is_policy f \<and> fact_cell f = c) fs"

lemma ladder_snoc: "ladder_of (fs @ [f]) = note_fact f (ladder_of fs)"
  by (simp add: ladder_of_def)

lemma distinct_ids_seen: "distinct (map cf_fact_id (fs @ [f])) \<Longrightarrow> \<not> seen_in (rung c fs) f"
  by (auto simp: seen_in_def rung_def)

lemma note_fact_fresh:
  assumes "\<not> is_policy f" "fact_cell f \<noteq> []" "\<not> seen_in (la_facts L (fact_cell f)) f"
  shows "la_facts (note_fact f L) = (la_facts L)(fact_cell f := la_facts L (fact_cell f) @ [f])"
    "set (la_cells (note_fact f L)) = insert (fact_cell f) (set (la_cells L))"
    "distinct (la_cells L) \<Longrightarrow> distinct (la_cells (note_fact f L))"
    "la_workload (note_fact f L) = (if fact_cell f \<in> set (la_cells L) then la_workload L
                               else (la_workload L)(fact_cell f := segment_or_empty f ''workload''))"
    "la_limits (note_fact f L) = la_limits L"
  using assms by (auto simp: note_fact_def Let_def)

lemma note_fact_skip: "\<not> is_policy f \<Longrightarrow> fact_cell f = [] \<Longrightarrow> note_fact f L = L"
  by (simp add: note_fact_def)

lemma note_fact_policy:
  assumes "is_policy f"
  shows "la_facts (note_fact f L) = la_facts L" "la_cells (note_fact f L) = la_cells L" "la_workload (note_fact f L) = la_workload L"
    "la_limits (note_fact f L) = (if cf_predicate f = ''max_spend_usd'' then (la_limits L)(cf_scope_id f := Some f) else la_limits L)"
  using assms by (auto simp: note_fact_def)

lemma ladder_rungs:
  "distinct (map cf_fact_id fs) \<Longrightarrow>
     (\<forall>c. c \<noteq> [] \<longrightarrow> la_facts (ladder_of fs) c = rung c fs)
     \<and> set (la_cells (ladder_of fs)) = {c. c \<noteq> [] \<and> rung c fs \<noteq> []} \<and> distinct (la_cells (ladder_of fs))"
proof (induction fs rule: rev_induct)
  case Nil
  then show ?case by (simp add: ladder_of_def empty_ladder_def rung_def)
next
  case (snoc f fs)
  then have IH: "\<And>c. c \<noteq> [] \<Longrightarrow> la_facts (ladder_of fs) c = rung c fs"
    "set (la_cells (ladder_of fs)) = {c. c \<noteq> [] \<and> rung c fs \<noteq> []}" "distinct (la_cells (ladder_of fs))" by auto
  have r: "rung c (fs @ [f]) = (if \<not> is_policy f \<and> fact_cell f = c then rung c fs @ [f] else rung c fs)" for c
    by (simp add: rung_def)
  show ?case
  proof (cases "is_policy f \<or> fact_cell f = []")
    case True
    then show ?thesis using IH by (cases "is_policy f") (auto simp: ladder_snoc r note_fact_policy note_fact_skip)
  next
    case False
    then have n: "\<not> is_policy f" "fact_cell f \<noteq> []" by auto
    then have "\<not> seen_in (la_facts (ladder_of fs) (fact_cell f)) f"
      using IH(1) [OF n(2)] distinct_ids_seen [OF snoc.prems] by simp
    note k = note_fact_fresh [OF n this]
    show ?thesis using IH n by (auto simp: ladder_snoc r k)
  qed
qed

lemma ladder_workload_limits:
  assumes "distinct (map cf_fact_id fs)"
  shows "\<And>c. c \<noteq> [] \<Longrightarrow> rung c fs \<noteq> [] \<Longrightarrow> la_workload (ladder_of fs) c = segment_or_empty (hd (rung c fs)) ''workload''"
    and "\<And>w. la_limits (ladder_of fs) w
      = (let ls = filter (\<lambda>f. is_policy f \<and> cf_predicate f = ''max_spend_usd'' \<and> cf_scope_id f = w) fs
         in if ls = [] then None else Some (last ls))"
proof -
  have "(\<forall>c. c \<noteq> [] \<longrightarrow> rung c fs \<noteq> [] \<longrightarrow> la_workload (ladder_of fs) c = segment_or_empty (hd (rung c fs)) ''workload'')
    \<and> (\<forall>w. la_limits (ladder_of fs) w
      = (let ls = filter (\<lambda>f. is_policy f \<and> cf_predicate f = ''max_spend_usd'' \<and> cf_scope_id f = w) fs
         in if ls = [] then None else Some (last ls)))"
    using assms
  proof (induction fs rule: rev_induct)
    case Nil
    then show ?case by (simp add: ladder_of_def empty_ladder_def rung_def)
  next
    case (snoc f fs)
    then have d: "distinct (map cf_fact_id fs)" by simp
    note IH = snoc.IH [OF d]
    have r: "rung c (fs @ [f]) = (if \<not> is_policy f \<and> fact_cell f = c then rung c fs @ [f] else rung c fs)" for c
      by (simp add: rung_def)
    show ?case
    proof (cases "is_policy f \<or> fact_cell f = []")
      case True
      then show ?thesis using IH by (cases "is_policy f") (auto simp: ladder_snoc r note_fact_policy note_fact_skip Let_def)
    next
      case False
      then have n: "\<not> is_policy f" "fact_cell f \<noteq> []" by auto
      then have "\<not> seen_in (la_facts (ladder_of fs) (fact_cell f)) f"
        using ladder_rungs [OF d] distinct_ids_seen [OF snoc.prems] by simp
      note k = note_fact_fresh [OF n this]
      show ?thesis using IH n ladder_rungs [OF d] by (auto simp: ladder_snoc r k Let_def)
    qed
  qed
  then show "\<And>c. c \<noteq> [] \<Longrightarrow> rung c fs \<noteq> [] \<Longrightarrow> la_workload (ladder_of fs) c = segment_or_empty (hd (rung c fs)) ''workload''"
    "\<And>w. la_limits (ladder_of fs) w
      = (let ls = filter (\<lambda>f. is_policy f \<and> cf_predicate f = ''max_spend_usd'' \<and> cf_scope_id f = w) fs
         in if ls = [] then None else Some (last ls))" by blast+
qed

text \<open>An input whose order cannot matter: its facts have different ids, the facts of a cell agree on the
  workload and leave no tie in time, and a workload has one limit.\<close>

definition one_limit :: "canonical_fact list \<Rightarrow> bool" where
  "one_limit fs \<longleftrightarrow> (\<forall>g \<in> set fs. \<forall>h \<in> set fs. is_policy g \<and> is_policy h \<and> cf_predicate g = ''max_spend_usd''
     \<and> cf_predicate h = ''max_spend_usd'' \<and> cf_scope_id g = cf_scope_id h \<longrightarrow> g = h)"

definition one_workload :: "canonical_fact list \<Rightarrow> bool" where
  "one_workload fs \<longleftrightarrow> (\<forall>g \<in> set fs. \<forall>h \<in> set fs. \<not> is_policy g \<and> \<not> is_policy h \<and> fact_cell g = fact_cell h
     \<longrightarrow> segment_or_empty g ''workload'' = segment_or_empty h ''workload'')"

definition rungs_untied :: "canonical_fact list \<Rightarrow> bool" where
  "rungs_untied fs \<longleftrightarrow> (\<forall>c \<in> fact_cell ` set fs. no_ties (rung c fs))"

lemma last_of_same: "set xs = set ys \<Longrightarrow> (\<And>g h. g \<in> set xs \<Longrightarrow> h \<in> set xs \<Longrightarrow> g = h) \<Longrightarrow>
    (if xs = [] then None else Some (last xs)) = (if ys = [] then None else Some (last ys))"
proof (cases "xs = []")
  case False
  assume s: "set xs = set ys" and one: "\<And>g h. g \<in> set xs \<Longrightarrow> h \<in> set xs \<Longrightarrow> g = h"
  from False s have "ys \<noteq> []" by auto
  have "last xs = last ys" by (rule one) (use s last_in_set [OF False] last_in_set [OF \<open>ys \<noteq> []\<close>] in simp_all)
  with False \<open>ys \<noteq> []\<close> show ?thesis by simp
qed simp

lemma ladder_perm:
  assumes "mset fs = mset gs" "distinct (map cf_fact_id fs)" "one_limit fs" "one_workload fs"
  shows "sort (la_cells (ladder_of fs)) = sort (la_cells (ladder_of gs))"
    "la_limits (ladder_of fs) = la_limits (ladder_of gs)"
    "c \<in> set (la_cells (ladder_of fs)) \<Longrightarrow> la_workload (ladder_of fs) c = la_workload (ladder_of gs) c"
    "c \<in> set (la_cells (ladder_of fs)) \<Longrightarrow> mset (la_facts (ladder_of fs) c) = mset (la_facts (ladder_of gs) c)"
proof -
  have s: "set fs = set gs" using assms(1) by (rule mset_eq_setD)
  have dg: "distinct (map cf_fact_id gs)" using assms(1,2) by (metis mset_eq_imp_distinct_iff mset_map)
  note F = ladder_rungs [OF assms(2)] and G = ladder_rungs [OF dg]
  have m: "mset (rung c fs) = mset (rung c gs)" for c using assms(1) by (simp add: rung_def mset_filter)
  have e: "rung c fs = [] \<longleftrightarrow> rung c gs = []" for c using m [of c] by (metis mset_zero_iff)
  have "set (la_cells (ladder_of fs)) = set (la_cells (ladder_of gs))"
    unfolding conjunct1 [OF conjunct2 [OF F]] conjunct1 [OF conjunct2 [OF G]] e ..
  then have "mset (la_cells (ladder_of fs)) = mset (la_cells (ladder_of gs))"
    using set_eq_iff_mset_eq_distinct [OF conjunct2 [OF conjunct2 [OF F]] conjunct2 [OF conjunct2 [OF G]]] by simp
  then show "sort (la_cells (ladder_of fs)) = sort (la_cells (ladder_of gs))" by (intro properties_for_sort) simp_all
  show "la_limits (ladder_of fs) = la_limits (ladder_of gs)"
  proof
    fix w
    show "la_limits (ladder_of fs) w = la_limits (ladder_of gs) w"
      unfolding ladder_workload_limits(2) [OF assms(2)] ladder_workload_limits(2) [OF dg] Let_def
      by (rule last_of_same) (use s assms(3) in \<open>auto simp: one_limit_def\<close>)
  qed
  assume c: "c \<in> set (la_cells (ladder_of fs))"
  then have c': "c \<noteq> []" "rung c fs \<noteq> []" "rung c gs \<noteq> []" using F e by auto
  show "mset (la_facts (ladder_of fs) c) = mset (la_facts (ladder_of gs) c)" using F G c' m by simp
  have "hd (rung c fs) \<in> set (rung c fs)" "hd (rung c gs) \<in> set (rung c gs)" using c' by simp_all
  then have "segment_or_empty (hd (rung c fs)) ''workload'' = segment_or_empty (hd (rung c gs)) ''workload''"
    using assms(4) s unfolding one_workload_def rung_def by simp
  then show "la_workload (ladder_of fs) c = la_workload (ladder_of gs) c"
    using ladder_workload_limits(1) [OF assms(2)] ladder_workload_limits(1) [OF dg] c' by simp
qed

text \<open>C30: the output does not depend on how the caller ordered the facts, when their ids differ, a workload has
  one limit, the facts of a cell agree on their workload, and no two runs of a cell share their latest time.\<close>

theorem workflow_facts_ignore_order:
  assumes "mset fs = mset gs" "distinct (map cf_fact_id fs)" "one_limit fs" "one_workload fs" "rungs_untied fs"
  shows "workflow_facts_v1 sha (inp\<lparr>ri_facts := fs\<rparr>) = workflow_facts_v1 sha (inp\<lparr>ri_facts := gs\<rparr>)"
proof -
  note P = ladder_perm [OF assms(1-4)]
  note F = ladder_rungs [OF assms(2)]
  have "facts_for_cell sha (la_workload (ladder_of fs) c) c (la_facts (ladder_of fs) c) l inp
      = facts_for_cell sha (la_workload (ladder_of gs) c) c (la_facts (ladder_of gs) c) l inp"
    if "c \<in> set (la_cells (ladder_of fs))" for c l
  proof -
    have c: "c \<noteq> []" "rung c fs \<noteq> []" using F that by auto
    then have "c \<in> fact_cell ` set fs" by (auto simp: rung_def filter_empty_conv)
    then have "no_ties (la_facts (ladder_of fs) c)" using assms(5) F c(1) unfolding rungs_untied_def by metis
    from facts_for_cell_perm [OF P(4) [OF that] this] show ?thesis using P(3) [OF that] by simp
  qed
  then show ?thesis unfolding workflow_facts_v1_def Let_def
    by (intro arg_cong [of _ _ append_all]) (simp add: P(1,2) cong: map_cong, use P(1,3) in \<open>metis set_sort\<close>)
qed

text \<open>A fact of one rung, for the concrete inputs.\<close>

definition rung_sample :: "string \<Rightarrow> string \<Rightarrow> string \<Rightarrow> string \<Rightarrow> string \<Rightarrow> string \<Rightarrow> canonical_fact" where
  "rung_sample i scope path p v t =
     (workflow_fact hash_id ''w'' ''c'' (input_of ''workflow_run'' ''e'' []) [] p v)
       \<lparr>cf_fact_id := i, cf_scope_type := scope, cf_scope_id := ''w'', cf_scope_path := path, cf_observed_at := t\<rparr>"

definition two_runs :: "string \<Rightarrow> canonical_fact list" where
  "two_runs t =
     [rung_sample ''1'' ''attempt'' ''workload:w/workflow:c/run:a'' ''phase_status'' ''ok'' ''2026-03-01'',
      rung_sample ''2'' ''attempt'' ''workload:w/workflow:c/run:b'' ''phase_status'' ''failed'' t,
      rung_sample ''3'' ''workload'' ''workload:w'' ''max_spend_usd'' ''2.0'' ''2026-03-01'']"

definition values_of :: "py_error + canonical_fact list \<Rightarrow> py_error + string list" where
  "values_of r = map_sum id (map cf_value) r"

theorem duplicates_do_not_count_witness:
  "workflow_facts_v1 hash_id (input_of ''workflow_run'' ''e'' []\<lparr>ri_facts := two_runs ''2026-03-02'' @ [hd (two_runs ''2026-03-02'')]\<rparr>)
     = workflow_facts_v1 hash_id (input_of ''workflow_run'' ''e'' []\<lparr>ri_facts := two_runs ''2026-03-02''\<rparr>)"
proof -
  have "\<not> is_policy (hd (two_runs ''2026-03-02'')) \<and> cf_fact_id (hd (two_runs ''2026-03-02'')) = ''1''" by code_simp
  then show ?thesis by (intro duplicates_do_not_count) (simp add: two_runs_def)
qed

theorem workflow_facts_ignore_order_witness:
  "workflow_facts_v1 hash_id (input_of ''workflow_run'' ''e'' []\<lparr>ri_facts := two_runs ''2026-03-02''\<rparr>)
     = workflow_facts_v1 hash_id (input_of ''workflow_run'' ''e'' []\<lparr>ri_facts := rev (two_runs ''2026-03-02'')\<rparr>)"
proof (rule workflow_facts_ignore_order)
  show "mset (two_runs ''2026-03-02'') = mset (rev (two_runs ''2026-03-02''))" by simp
  show "distinct (map cf_fact_id (two_runs ''2026-03-02''))" by code_simp
  show "one_limit (two_runs ''2026-03-02'')" "one_workload (two_runs ''2026-03-02'')" "rungs_untied (two_runs ''2026-03-02'')" by code_simp+
qed

text \<open>The conditions are needed: with a tie in time between two runs the first one in the input is the current one.\<close>

lemma order_decides_a_tie:
  "values_of (workflow_facts_v1 hash_id (input_of ''workflow_run'' ''e'' []\<lparr>ri_facts := two_runs ''2026-03-01''\<rparr>))
     = Inr [''1'', ''0'', ''completed'', ''healthy'']"
  "values_of (workflow_facts_v1 hash_id (input_of ''workflow_run'' ''e'' []\<lparr>ri_facts := rev (two_runs ''2026-03-01'')\<rparr>))
     = Inr [''0'', ''1'', ''failed'', ''at_risk'']"
  by code_simp+

end
