(* ===== verification/Json_Text.thy ===== *)
theory Json_Text
  imports Py_Json Float_Text "HOL-Library.Multiset"
begin

text \<open>
  \<open>json.loads\<close> and the round trip with \<open>json.dumps\<close>. The reader follows the decoder of the Python library: white space
  between tokens, the escapes of a string, no control character inside one, the number grammar, \<open>NaN\<close> and the
  infinities, the last of two equal keys. An escape above code point 255 has no character here and is refused.
  A value of \<open>None\<close> is the decoder's ValueError (JSONDecodeError).
\<close>

section \<open>The reader\<close>

definition json_space :: "char \<Rightarrow> bool" where
  "json_space c \<longleftrightarrow> c \<in> set [CHR 0x20, CHR 0x09, CHR 0x0A, CHR 0x0D]"

definition skip_ws :: "string \<Rightarrow> string" where
  "skip_ws s = dropWhile json_space s"

definition hex_val :: "char \<Rightarrow> nat option" where
  "hex_val c = (let n = (of_char c :: nat) in
     if 48 \<le> n \<and> n \<le> 57 then Some (n - 48) else if 97 \<le> n \<and> n \<le> 102 then Some (n - 87)
     else if 65 \<le> n \<and> n \<le> 70 then Some (n - 55) else None)"

definition unescape :: "char \<Rightarrow> char option" where
  "unescape e = map_of [(CHR 0x22, CHR 0x22), (CHR 0x5C, CHR 0x5C), (CHR ''/'', CHR ''/''), (CHR ''b'', CHR 0x08),
     (CHR ''f'', CHR 0x0C), (CHR ''n'', CHR 0x0A), (CHR ''r'', CHR 0x0D), (CHR ''t'', CHR 0x09)] e"

definition unicode_escape :: "char \<Rightarrow> char \<Rightarrow> char \<Rightarrow> char \<Rightarrow> char option" where
  "unicode_escape a b c d =
     (case (hex_val a, hex_val b, hex_val c, hex_val d) of
        (Some 0, Some 0, Some m, Some n) \<Rightarrow> Some (char_of (16 * m + n))
      | _ \<Rightarrow> None)"

fun json_chars :: "string \<Rightarrow> (string \<times> string) option" where
  "json_chars [] = None"
| "json_chars (c # s) =
     (if c = CHR 0x22 then Some ([], s)
      else if c = CHR 0x5C then
        (case s of [] \<Rightarrow> None
         | e # r \<Rightarrow>
           if e = CHR ''u'' then
             (case r of a # b # x # y # t \<Rightarrow>
                (case unicode_escape a b x y of None \<Rightarrow> None | Some z \<Rightarrow> map_option (apfst (Cons z)) (json_chars t))
              | _ \<Rightarrow> None)
           else (case unescape e of None \<Rightarrow> None | Some z \<Rightarrow> map_option (apfst (Cons z)) (json_chars r)))
      else if (of_char c :: nat) < 32 then None
      else map_option (apfst (Cons c)) (json_chars s))"

definition json_int_part :: "string \<Rightarrow> (string \<times> string) option" where
  "json_int_part s = (case s of [] \<Rightarrow> None
     | c # r \<Rightarrow> if c = CHR ''0'' then Some ([c], r)
        else if is_digit c then Some (takeWhile is_digit s, dropWhile is_digit s) else None)"

definition json_frac :: "string \<Rightarrow> string \<times> string" where
  "json_frac s = (case s of c # d # r \<Rightarrow>
       if c = CHR ''.'' \<and> is_digit d then (c # takeWhile is_digit (d # r), dropWhile is_digit (d # r)) else ([], s)
     | _ \<Rightarrow> ([], s))"

definition json_exp :: "string \<Rightarrow> string \<times> string" where
  "json_exp s = (case s of [] \<Rightarrow> ([], [])
     | c # r \<Rightarrow> if c = CHR ''e'' \<or> c = CHR ''E'' then
         (case (case r of [] \<Rightarrow> ([], []) | x # t \<Rightarrow> if x = CHR ''+'' \<or> x = CHR ''-'' then ([x], t) else ([], r)) of
            (sg, ds) \<Rightarrow> if ds \<noteq> [] \<and> is_digit (hd ds) then (c # sg @ takeWhile is_digit ds, dropWhile is_digit ds) else ([], s))
       else ([], s))"

definition json_number :: "string \<Rightarrow> (pyval \<times> string) option" where
  "json_number s =
     (case (case s of c # r \<Rightarrow> if c = CHR ''-'' then (- 1, ''-'', r) else (1, [], s) | [] \<Rightarrow> (1, [], s)) of
        (sg, neg, t) \<Rightarrow>
          (case json_int_part t of None \<Rightarrow> None
           | Some (i, r) \<Rightarrow>
               (case json_frac r of (f, r1) \<Rightarrow>
                 (case json_exp r1 of (e, r2) \<Rightarrow>
                    if f = [] \<and> e = [] then Some (PInt (sg * int (nat_of_digits i)), r2)
                    else map_option (\<lambda>x. (PFloat x, r2)) (py_float (neg @ i @ f @ e))))))"

text \<open>The names of the literals, tried in this order.\<close>

definition json_literals :: "(string \<times> pyval) list" where
  "json_literals = [(''null'', PNone), (''true'', PBool True), (''false'', PBool False), (''NaN'', PFloat NaN),
     (''Infinity'', PFloat PosInf), (''-Infinity'', PFloat NegInf)]"

definition json_literal :: "string \<Rightarrow> (pyval \<times> string) option" where
  "json_literal s = map_option (\<lambda>(t, v). (v, drop (length t) s)) (List.find (\<lambda>(t, v). starts_with s t) json_literals)"

text \<open>The fuel bounds the nesting and the number of elements; \<open>json_loads\<close> starts with one more than the length of
  the text, which is enough because every call reads a character.\<close>

fun json_value :: "nat \<Rightarrow> string \<Rightarrow> (pyval \<times> string) option"
and json_items :: "nat \<Rightarrow> string \<Rightarrow> (pyval list \<times> string) option"
and json_members :: "nat \<Rightarrow> pydict \<Rightarrow> string \<Rightarrow> (pydict \<times> string) option" where
  "json_value 0 s = None"
| "json_value (Suc n) [] = None"
| "json_value (Suc n) (c # s) =
     (if c = CHR 0x22 then map_option (apfst PStr) (json_chars s)
      else if c = CHR 0x7B then
        (if take 1 (skip_ws s) = [CHR 0x7D] then Some (PDict [], tl (skip_ws s))
         else map_option (apfst PDict) (json_members n [] (skip_ws s)))
      else if c = CHR 0x5B then
        (if take 1 (skip_ws s) = [CHR 0x5D] then Some (PList [], tl (skip_ws s))
         else map_option (apfst PList) (json_items n (skip_ws s)))
      else (case json_literal (c # s) of Some r \<Rightarrow> Some r | None \<Rightarrow> json_number (c # s)))"
| "json_items 0 s = None"
| "json_items (Suc n) s =
     (case json_value n s of None \<Rightarrow> None
      | Some (v, r) \<Rightarrow>
          (case skip_ws r of [] \<Rightarrow> None
           | c # t \<Rightarrow> if c = CHR 0x5D then Some ([v], t)
               else if c = CHR 0x2C then map_option (apfst (Cons v)) (json_items n (skip_ws t)) else None))"
| "json_members 0 d s = None"
| "json_members (Suc n) d s =
     (case s of [] \<Rightarrow> None
      | q # s' \<Rightarrow> if q \<noteq> CHR 0x22 then None
        else (case json_chars s' of None \<Rightarrow> None
          | Some (k, r) \<Rightarrow>
              (case skip_ws r of [] \<Rightarrow> None
               | c # t \<Rightarrow> if c \<noteq> CHR 0x3A then None
                 else (case json_value n (skip_ws t) of None \<Rightarrow> None
                   | Some (v, u) \<Rightarrow>
                       (case skip_ws u of [] \<Rightarrow> None
                        | e # w \<Rightarrow> if e = CHR 0x7D then Some (dict_put k v d, w)
                            else if e = CHR 0x2C then json_members n (dict_put k v d) (skip_ws w) else None)))))"

definition json_loads :: "string \<Rightarrow> pyval option" where
  "json_loads s =
     (case json_value (Suc (length s)) (skip_ws s) of None \<Rightarrow> None
      | Some (v, r) \<Rightarrow> if skip_ws r = [] then Some v else None)"

lemma json_loads_check:
  \<open>json_loads ('' {"a" : [1, -2.5, true,null], "b'' @ [CHR 0x5C] @ ''u00e9":{}} '') =
     Some (PDict [(''a'', PList [PInt 1, PFloat (Fin (- 5 / 2)), PBool True, PNone]), (''b'' @ [CHR 0xE9], PDict [])])\<close>
  \<open>json_loads ''{"a": 1'' = None\<close> \<open>json_loads ''[1,]'' = None\<close> \<open>json_loads ''01'' = None\<close> \<open>json_loads ''[1] x'' = None\<close>
  by code_simp+

section \<open>Writing in insertion order\<close>

text \<open>\<open>json.dumps(v)\<close> without \<open>sort_keys\<close>, and the value with the keys of every dictionary sorted.\<close>

fun json_dumps_plain :: "pyval \<Rightarrow> string" where
  "json_dumps_plain PNone = ''null''"
| "json_dumps_plain (PBool b) = (if b then ''true'' else ''false'')"
| "json_dumps_plain (PInt i) = show_int i"
| "json_dumps_plain (PFloat x) = json_float x"
| "json_dumps_plain (PStr s) = json_string s"
| "json_dumps_plain (PList xs) = json_array (map json_dumps_plain xs)"
| "json_dumps_plain (PDict d) = ''{'' @ comma_sep (map (\<lambda>(k, v). json_string k @ '': '' @ json_dumps_plain v) d) @ ''}''"

fun sort_keys :: "pyval \<Rightarrow> pyval" where
  "sort_keys (PList xs) = PList (map sort_keys xs)"
| "sort_keys (PDict d) = PDict (sort_key fst (map (\<lambda>(k, v). (k, sort_keys v)) d))"
| "sort_keys v = v"

section \<open>Strings come back\<close>

lemma hex_val_digit: "m < 16 \<Longrightarrow> hex_val (hex_digit m) = Some m"
proof -
  assume "m < 16"
  then have "m \<in> set [0..<16]" by simp
  moreover have "list_all (\<lambda>m. hex_val (hex_digit m) = Some m) [0..<16]" by code_simp
  ultimately show ?thesis by (auto simp: list_all_iff)
qed

lemma unicode_escape_char:
  "unicode_escape (CHR ''0'') (CHR ''0'') (hex_digit (of_char c div 16)) (hex_digit (of_char c mod 16)) = Some c"
proof -
  have c: "(of_char c :: nat) < 256" by (metis of_char_mod_256 mod_less_divisor zero_less_numeral)
  have "hex_val (CHR ''0'') = Some 0" by code_simp
  moreover have "hex_val (hex_digit (of_char c div 16)) = Some (of_char c div 16)" using c by (intro hex_val_digit less_mult_imp_div_less) simp
  moreover have "hex_val (hex_digit (of_char c mod 16)) = Some (of_char c mod 16)" by (intro hex_val_digit) simp
  ultimately show ?thesis by (simp add: unicode_escape_def)
qed

lemma plain_escapes:
  "unescape (CHR 0x22) = Some (CHR 0x22)" "unescape (CHR 0x5C) = Some (CHR 0x5C)" "unescape (CHR ''n'') = Some (CHR 0x0A)"
  "unescape (CHR ''r'') = Some (CHR 0x0D)" "unescape (CHR ''t'') = Some (CHR 0x09)" "unescape (CHR ''b'') = Some (CHR 0x08)"
  "unescape (CHR ''f'') = Some (CHR 0x0C)"
  by code_simp+

lemma control_chars:
  "char_of (10 :: nat) = CHR 0x0A" "char_of (13 :: nat) = CHR 0x0D" "char_of (9 :: nat) = CHR 0x09" "char_of (8 :: nat) = CHR 0x08"
  "char_of (12 :: nat) = CHR 0x0C"
  by code_simp+

lemma of_char_eq_char: "(of_char c :: nat) = n \<Longrightarrow> c = char_of n"
  by auto

lemma json_char_read: "json_chars (json_char c @ s) = map_option (apfst (Cons c)) (json_chars s)"
proof -
  let ?n = "of_char c :: nat"
  consider (quote) "c = CHR 0x22 \<or> c = CHR 0x5C" | (n) "?n = 10" | (r) "?n = 13" | (t) "?n = 9" | (b) "?n = 8" | (f) "?n = 12"
    | (u) "c \<noteq> CHR 0x22" "c \<noteq> CHR 0x5C" "?n \<notin> {8, 9, 10, 12, 13}" "?n < 32 \<or> 126 < ?n"
    | (plain) "c \<noteq> CHR 0x22" "c \<noteq> CHR 0x5C" "32 \<le> ?n" "?n \<le> 126" by fastforce
  then show ?thesis
  proof cases
    case quote
    then show ?thesis by (auto simp: json_char_def plain_escapes)
  next
    case n
    then have "c = CHR 0x0A" using of_char_eq_char [OF n] by (simp only: control_chars)
    then show ?thesis by (simp add: json_char_def plain_escapes)
  next
    case r
    then have "c = CHR 0x0D" using of_char_eq_char [OF r] by (simp only: control_chars)
    then show ?thesis by (simp add: json_char_def plain_escapes)
  next
    case t
    then have "c = CHR 0x09" using of_char_eq_char [OF t] by (simp only: control_chars)
    then show ?thesis by (simp add: json_char_def plain_escapes)
  next
    case b
    then have "c = CHR 0x08" using of_char_eq_char [OF b] by (simp only: control_chars)
    then show ?thesis by (simp add: json_char_def plain_escapes)
  next
    case f
    then have "c = CHR 0x0C" using of_char_eq_char [OF f] by (simp only: control_chars)
    then show ?thesis by (simp add: json_char_def plain_escapes)
  next
    case u
    then have "json_char c = [CHR 0x5C, CHR ''u'', CHR ''0'', CHR ''0'', hex_digit (?n div 16), hex_digit (?n mod 16)]"
      by (simp add: json_char_def Let_def)
    then show ?thesis by (simp add: unicode_escape_char)
  next
    case plain
    then have "json_char c = [c]" by (auto simp: json_char_def Let_def)
    then show ?thesis using plain by simp
  qed
qed

lemma json_string_read: "json_chars (concat (map json_char s) @ CHR 0x22 # r) = Some (s, r)"
  by (induction s) (simp_all add: json_char_read)

section \<open>Numbers come back\<close>

definition number_ends :: "string \<Rightarrow> bool" where
  "number_ends s \<longleftrightarrow> (case s of [] \<Rightarrow> True | c # _ \<Rightarrow> \<not> is_digit c \<and> c \<notin> {CHR ''.'', CHR ''e'', CHR ''E''})"

lemma show_nat_zero: "show_nat n = CHR ''0'' # r \<Longrightarrow> n = 0 \<and> r = []"
proof (induction n arbitrary: r rule: show_nat.induct)
  case (1 n)
  show ?case
  proof (cases "n < 10")
    case True
    then have "show_nat n = [char_of (n + 48)]" by (simp add: show_nat.simps)
    with 1(2) have c: "char_of (n + 48) = CHR ''0''" "r = []" by auto
    then have "digit_val (char_of (n + 48)) = digit_val (CHR ''0'')" by simp
    also have "digit_val (CHR ''0'') = 0" by code_simp
    finally show ?thesis using digit_char [OF True] c by simp
  next
    case False
    have "show_nat (n div 10) \<noteq> []" using show_nat_digits by blast
    moreover have "show_nat n = show_nat (n div 10) @ [char_of (n mod 10 + 48)]" using False by (simp add: show_nat.simps)
    ultimately obtain r' where "show_nat (n div 10) = CHR ''0'' # r'" using 1(2) by (cases "show_nat (n div 10)") auto
    with 1(1) [OF False] False show ?thesis by auto
  qed
qed

lemma takeWhile_number:
  assumes "list_all is_digit ds" "number_ends s"
  shows "takeWhile is_digit (ds @ s) = ds" "dropWhile is_digit (ds @ s) = s"
proof -
  have "takeWhile is_digit s = []" "dropWhile is_digit s = s" using assms(2) by (cases s; simp add: number_ends_def)+
  then show "takeWhile is_digit (ds @ s) = ds" "dropWhile is_digit (ds @ s) = s"
    using assms(1) by (auto simp: list_all_iff takeWhile_append dropWhile_append)
qed

lemma json_int_part_show:
  assumes "number_ends s"
  shows "json_int_part (show_nat n @ s) = Some (show_nat n, s)"
proof -
  obtain c r where c: "show_nat n = c # r" "is_digit c" using show_nat_digits [of n] by (cases "show_nat n") auto
  show ?thesis
  proof (cases "c = CHR ''0''")
    case True
    then show ?thesis using c show_nat_zero [of n r] by (simp add: json_int_part_def)
  next
    case False
    have "list_all is_digit (show_nat n)" using show_nat_digits by blast
    then have "takeWhile is_digit (c # r @ s) = c # r" "dropWhile is_digit (c # r @ s) = s"
      using takeWhile_number [OF _ assms, of "c # r"] c(1) by simp_all
    then show ?thesis using False c by (simp add: json_int_part_def)
  qed
qed

lemma number_tail: "number_ends s \<Longrightarrow> json_frac s = ([], s)" "number_ends s \<Longrightarrow> json_exp s = ([], s)"
  by (auto simp: number_ends_def json_frac_def json_exp_def split: list.splits)

lemma json_number_show_int:
  assumes "number_ends s"
  shows "json_number (show_int i @ s) = Some (PInt i, s)"
proof (cases "i < 0")
  case True
  then show ?thesis
    using json_int_part_show [OF assms] number_tail [OF assms] show_nat_digits [of "nat (- i)"] by (simp add: json_number_def show_int_def)
next
  case False
  obtain c r where c: "show_nat (nat i) = c # r" "is_digit c" using show_nat_digits [of "nat i"] by (cases "show_nat (nat i)") auto
  then have "c \<noteq> CHR ''-''" using is_digit_facts by blast
  then show ?thesis
    using False json_int_part_show [OF assms, of "nat i"] number_tail [OF assms] show_nat_digits [of "nat i"] c
    by (simp add: json_number_def show_int_def)
qed

lemma repr_float_parts:
  obtains i f where "repr_float (Fin q) = (if q < 0 then ''-'' else []) @ show_nat i @ CHR ''.'' # f" "list_all is_digit f" "f \<noteq> []"
proof -
  let ?d = "frac_digits \<bar>q\<bar>" and ?n = "nat \<lfloor>\<bar>q\<bar> * 10 ^ frac_digits \<bar>q\<bar>\<rfloor>"
  have d: "0 < ?d" by (auto simp: frac_digits_def split: option.splits dest!: find_SomeD)
  have f: "length (show_padded ?d (?n mod 10 ^ ?d)) = ?d" "list_all is_digit (show_padded ?d (?n mod 10 ^ ?d))"
    using show_padded_digits [of "?n mod 10 ^ ?d" ?d] by simp_all
  then have "show_padded ?d (?n mod 10 ^ ?d) \<noteq> []" using d by (metis length_0_conv less_not_refl)
  with f(2) that [of "?n div 10 ^ ?d" "show_padded ?d (?n mod 10 ^ ?d)"] show thesis by (simp add: Let_def)
qed

lemma json_int_part_point: "json_int_part (show_nat n @ CHR ''.'' # s) = Some (show_nat n, CHR ''.'' # s)"
proof -
  obtain c r where c: "show_nat n = c # r" "is_digit c" using show_nat_digits [of n] by (cases "show_nat n") auto
  have p: "\<not> is_digit (CHR ''.'')" by code_simp
  have "list_all is_digit (c # r)" using show_nat_digits c(1) by metis
  then have "takeWhile is_digit (c # r @ CHR ''.'' # s) = c # r" "dropWhile is_digit (c # r @ CHR ''.'' # s) = CHR ''.'' # s"
    using p by (auto simp: list_all_iff takeWhile_append dropWhile_append)
  then show ?thesis using c show_nat_zero [of n r] by (cases "c = CHR ''0''") (simp_all add: json_int_part_def)
qed

lemma json_frac_point:
  assumes "list_all is_digit f" "f \<noteq> []" "number_ends s"
  shows "json_frac (CHR ''.'' # f @ s) = (CHR ''.'' # f, s)"
proof -
  obtain d r where f: "f = d # r" using assms(2) by (cases f) auto
  then show ?thesis using takeWhile_number [OF assms(1,3)] assms(1) by (simp add: json_frac_def)
qed

lemma json_number_repr:
  assumes "number_ends s" "printable (Fin q)"
  shows "json_number (repr_float (Fin q) @ s) = Some (PFloat (Fin q), s)"
proof -
  obtain i f where r: "repr_float (Fin q) = (if q < 0 then ''-'' else []) @ show_nat i @ CHR ''.'' # f" and f: "list_all is_digit f" "f \<noteq> []"
    by (rule repr_float_parts)
  obtain c t where c: "show_nat i = c # t" "is_digit c" using show_nat_digits [of i] by (cases "show_nat i") auto
  then have n: "c \<noteq> CHR ''-''" using is_digit_facts by blast
  have p: "py_float ((if q < 0 then ''-'' else []) @ show_nat i @ CHR ''.'' # f) = Some (Fin q)"
    using py_float_printable [OF assms(2)] r by simp
  have ip: "json_int_part (c # t @ CHR ''.'' # f @ s) = Some (c # t, CHR ''.'' # f @ s)"
    using json_int_part_point [of i "f @ s"] c(1) by simp
  show ?thesis unfolding r
    using n p ip json_frac_point [OF f assms(1)] number_tail(2) [OF assms(1)] c(1)
    by (cases "q < 0") (simp_all add: json_number_def)
qed

section \<open>Values come back\<close>

text \<open>The values whose text is read back exactly: every float printable, and no key twice in a dictionary.\<close>

fun json_plain :: "pyval \<Rightarrow> bool" where
  "json_plain (PFloat x) \<longleftrightarrow> printable x"
| "json_plain (PList xs) \<longleftrightarrow> list_all json_plain xs"
| "json_plain (PDict d) \<longleftrightarrow> distinct (map fst d) \<and> list_all (\<lambda>(k, v). json_plain v) d"
| "json_plain _ \<longleftrightarrow> True"

fun fuel_need :: "pyval \<Rightarrow> nat" where
  "fuel_need (PList xs) = Suc (sum_list (map (\<lambda>v. Suc (fuel_need v)) xs))"
| "fuel_need (PDict d) = Suc (sum_list (map (\<lambda>(k, v). Suc (fuel_need v)) d))"
| "fuel_need _ = 1"

definition value_start :: "char \<Rightarrow> bool" where
  "value_start c \<longleftrightarrow> \<not> json_space c \<and> c \<noteq> CHR 0x5D \<and> c \<noteq> CHR 0x7D"

lemma show_int_start:
  obtains c r where "show_int i = c # r" "is_digit c \<or> (c = CHR ''-'' \<and> r \<noteq> [] \<and> is_digit (hd r))"
proof (cases "i < 0")
  case True
  obtain c r where "show_nat (nat (- i)) = c # r" "is_digit c"
    using show_nat_digits [of "nat (- i)"] by (cases "show_nat (nat (- i))") auto
  with True that show thesis by (simp add: show_int_def)
next
  case False
  obtain c r where "show_nat (nat i) = c # r" "is_digit c"
    using show_nat_digits [of "nat i"] by (cases "show_nat (nat i)") auto
  with False that show thesis by (simp add: show_int_def)
qed

lemma repr_float_start:
  obtains c r where "repr_float (Fin q) = c # r" "is_digit c \<or> (c = CHR ''-'' \<and> r \<noteq> [] \<and> is_digit (hd r))"
proof -
  obtain i f where r: "repr_float (Fin q) = (if q < 0 then ''-'' else []) @ show_nat i @ CHR ''.'' # f" by (rule repr_float_parts)
  obtain c t where c: "show_nat i = c # t" "is_digit c" using show_nat_digits [of i] by (cases "show_nat i") auto
  show thesis
  proof (cases "q < 0")
    case True
    then show thesis using r c by (intro that [of "CHR ''-''" "show_nat i @ CHR ''.'' # f"]) auto
  next
    case False
    then show thesis using r c by (intro that [of c "t @ CHR ''.'' # f"]) auto
  qed
qed

lemma digit_start:
  assumes "is_digit c"
  shows "value_start c" "c \<noteq> CHR 0x22" "c \<noteq> CHR 0x7B" "c \<noteq> CHR 0x5B" "c \<notin> {CHR ''n'', CHR ''t'', CHR ''f'', CHR ''N'', CHR ''I'', CHR ''-''}"
proof -
  have "list_all (\<lambda>c. value_start c \<and> c \<noteq> CHR 0x22 \<and> c \<noteq> CHR 0x7B \<and> c \<noteq> CHR 0x5B
     \<and> c \<notin> set [CHR ''n'', CHR ''t'', CHR ''f'', CHR ''N'', CHR ''I'', CHR ''-'']) ''0123456789''" by code_simp
  moreover from assms have "c \<in> set ''0123456789''" by (simp only: is_digit_def)
  ultimately show "value_start c" "c \<noteq> CHR 0x22" "c \<noteq> CHR 0x7B" "c \<noteq> CHR 0x5B"
    "c \<notin> {CHR ''n'', CHR ''t'', CHR ''f'', CHR ''N'', CHR ''I'', CHR ''-''}"
    unfolding list_all_iff by auto
qed

lemma starts_with_Cons [simp]: "starts_with (c # s) (d # p) \<longleftrightarrow> c = d \<and> starts_with s p" "starts_with s [] "
  by (auto simp: starts_with_def)

lemma value_starts:
  "value_start (CHR 0x22)" "value_start (CHR 0x7B)" "value_start (CHR 0x5B)" "value_start (CHR ''n'')" "value_start (CHR ''t'')"
  "value_start (CHR ''f'')" "value_start (CHR ''-'')"
  "value_start (CHR ''N'')" "value_start (CHR ''I'')"
  by code_simp+

lemma dumps_start:
  assumes "json_plain v"
  obtains c t where "json_dumps_plain v = c # t" "value_start c"
proof (cases v)
  case (PInt i)
  obtain c r where "show_int i = c # r" "is_digit c \<or> (c = CHR ''-'' \<and> r \<noteq> [] \<and> is_digit (hd r))" by (rule show_int_start)
  with that PInt digit_start(1) value_starts show thesis by auto
next
  case (PBool b)
  with that value_starts show thesis by (cases b) auto
next
  case (PFloat x)
  show thesis
  proof (cases x)
    case (Fin q)
    obtain c r where "repr_float (Fin q) = c # r" "is_digit c \<or> (c = CHR ''-'' \<and> r \<noteq> [] \<and> is_digit (hd r))" by (rule repr_float_start)
    with that PFloat Fin digit_start(1) value_starts show thesis by (auto simp: json_float_def simp del: repr_float.simps)
  qed (use PFloat that value_starts in \<open>auto simp: json_float_def\<close>)
qed (use assms that value_starts in \<open>auto simp: json_string_def json_array_def split: if_splits\<close>)

lemma skip_value: "json_plain v \<Longrightarrow> skip_ws (json_dumps_plain v @ r) = json_dumps_plain v @ r"
  by (erule dumps_start) (simp add: skip_ws_def value_start_def)

lemma skip_punctuation:
  "skip_ws (CHR 0x5D # r) = CHR 0x5D # r" "skip_ws (CHR 0x7D # r) = CHR 0x7D # r" "skip_ws (CHR 0x2C # r) = CHR 0x2C # r"
  "skip_ws (CHR 0x3A # r) = CHR 0x3A # r" "skip_ws (CHR 0x20 # r) = skip_ws r" "skip_ws (CHR 0x22 # r) = CHR 0x22 # r"
  by (simp_all add: skip_ws_def json_space_def)

lemma json_literal_number:
  assumes "is_digit c \<or> (c = CHR ''-'' \<and> r \<noteq> [] \<and> is_digit (hd r))"
  shows "json_literal (c # r @ s) = None"
  using assms
proof
  assume "is_digit c"
  then show ?thesis using digit_start(5) [of c] by (simp add: json_literal_def json_literals_def)
next
  assume "c = CHR ''-'' \<and> r \<noteq> [] \<and> is_digit (hd r)"
  then obtain d q where "c = CHR ''-''" "r = d # q" "is_digit d" by (cases r) auto
  then show ?thesis using digit_start(5) [of d] by (simp add: json_literal_def json_literals_def)
qed

lemma json_value_number:
  assumes c: "is_digit c \<or> (c = CHR ''-'' \<and> r \<noteq> [] \<and> is_digit (hd r))" and "json_number (c # r @ s) = v"
  shows "json_value (Suc n) (c # r @ s) = v"
proof -
  have "c \<noteq> CHR 0x22" "c \<noteq> CHR 0x7B" "c \<noteq> CHR 0x5B" using c digit_start by auto
  then show ?thesis using assms(2) json_literal_number [OF c] by simp
qed

lemma json_value_int: "number_ends s \<Longrightarrow> json_value (Suc n) (show_int i @ s) = Some (PInt i, s)"
  using json_number_show_int [of s i] json_value_number [of _ _ s "Some (PInt i, s)" n]
  by (rule_tac i = i in show_int_start) auto

lemma json_value_float:
  assumes "number_ends s" "printable x"
  shows "json_value (Suc n) (json_float x @ s) = Some (PFloat x, s)"
proof (cases x)
  case (Fin q)
  obtain c r where "repr_float (Fin q) = c # r" "is_digit c \<or> (c = CHR ''-'' \<and> r \<noteq> [] \<and> is_digit (hd r))" by (rule repr_float_start)
  then show ?thesis
    using json_number_repr [OF assms(1), of q] assms(2) json_value_number [of c r s "Some (PFloat x, s)" n] Fin
    by (simp add: json_float_def del: repr_float.simps)
qed (simp_all add: json_float_def json_literal_def json_literals_def)

lemma json_value_literals:
  "json_value (Suc n) (''null'' @ r) = Some (PNone, r)" "json_value (Suc n) (''true'' @ r) = Some (PBool True, r)"
  "json_value (Suc n) (''false'' @ r) = Some (PBool False, r)"
  by (simp_all add: json_literal_def json_literals_def)

lemma json_items_read:
  assumes "\<And>x m r. x \<in> set xs \<Longrightarrow> fuel_need x \<le> m \<Longrightarrow> number_ends r \<Longrightarrow> json_value m (json_dumps_plain x @ r) = Some (x, r)"
    and "list_all json_plain xs" "xs \<noteq> []" "sum_list (map (\<lambda>v. Suc (fuel_need v)) xs) \<le> n"
  shows "json_items n (comma_sep (map json_dumps_plain xs) @ CHR 0x5D # r) = Some (xs, r)"
  using assms
proof (induction xs arbitrary: n)
  case (Cons x xs)
  obtain m where n: "n = Suc m" using Cons.prems(4) by (cases n) auto
  have ends: "number_ends (CHR 0x5D # t)" "number_ends (CHR 0x2C # t)" for t by (simp_all add: number_ends_def is_digit_def)
  show ?case
  proof (cases xs)
    case Nil
    then show ?thesis using Cons.prems(1) [of x m] Cons.prems(4) ends n by (simp add: skip_punctuation)
  next
    case (Cons y ys)
    have y: "json_plain y" using Cons.prems(2) Cons by simp
    obtain rest where rest: "comma_sep (map json_dumps_plain xs) @ CHR 0x5D # r = json_dumps_plain y @ rest"
      using Cons by (cases ys) auto
    have "json_items m (comma_sep (map json_dumps_plain xs) @ CHR 0x5D # r) = Some (xs, r)"
      by (rule Cons.IH) (use Cons.prems Cons n in auto)
    then show ?thesis
      using Cons.prems(1) [of x m "'', '' @ comma_sep (map json_dumps_plain xs) @ CHR 0x5D # r"] Cons.prems(4) ends n Cons
        skip_value [OF y, of rest] rest
      by (simp add: skip_punctuation)
  qed
qed simp

abbreviation member_text :: "string \<times> pyval \<Rightarrow> string" where
  "member_text \<equiv> (\<lambda>(k, v). json_string k @ '': '' @ json_dumps_plain v)"

lemma json_members_read:
  assumes "\<And>k v m r. (k, v) \<in> set d \<Longrightarrow> fuel_need v \<le> m \<Longrightarrow> number_ends r \<Longrightarrow> json_value m (json_dumps_plain v @ r) = Some (v, r)"
    and "list_all (\<lambda>(k, v). json_plain v) d" "distinct (map fst (e @ d))" "d \<noteq> []"
    and "sum_list (map (\<lambda>(k, v). Suc (fuel_need v)) d) \<le> n"
  shows "json_members n e (comma_sep (map member_text d) @ CHR 0x7D # r) = Some (e @ d, r)"
  using assms
proof (induction d arbitrary: n e)
  case (Cons kv d)
  obtain k v where kv: "kv = (k, v)" by (cases kv)
  obtain m where n: "n = Suc m" using Cons.prems(5) kv by (cases n) auto
  have ends: "number_ends (CHR 0x7D # t)" "number_ends (CHR 0x2C # t)" for t by (simp_all add: number_ends_def is_digit_def)
  have v: "json_plain v" "fuel_need v \<le> m" using Cons.prems(2,5) kv n by auto
  have read: "json_value m (json_dumps_plain v @ t) = Some (v, t)" if "number_ends t" for t
    using Cons.prems(1) [of k v m t] v(2) that kv by simp
  have put: "dict_put k v e = e @ [(k, v)]" using Cons.prems(3) kv by (auto simp: dict_put_def)
  show ?case
  proof (cases d)
    case Nil
    then show ?thesis using kv n read put ends
      by (simp add: json_string_def json_string_read skip_punctuation skip_value [OF v(1)])
  next
    case (Cons y ys)
    obtain rest where rest: "comma_sep (map member_text d) @ CHR 0x7D # r = CHR 0x22 # rest"
      using Cons by (cases y; cases ys) (auto simp: json_string_def)
    have "json_members m (e @ [(k, v)]) (comma_sep (map member_text d) @ CHR 0x7D # r) = Some ((e @ [(k, v)]) @ d, r)"
      by (rule Cons.IH) (use Cons.prems kv Cons n in auto)
    moreover have "comma_sep (map member_text (kv # d)) @ CHR 0x7D # r
        = CHR 0x22 # concat (map json_char k) @ CHR 0x22 # CHR 0x3A # CHR 0x20 # json_dumps_plain v @ CHR 0x2C # CHR 0x20 # CHR 0x22 # rest"
      using Cons kv rest by (simp add: json_string_def)
    ultimately show ?thesis using kv n read put ends rest
      by (simp add: json_string_read skip_punctuation skip_value [OF v(1)] del: comma_sep.simps)
  qed
qed simp

lemma json_value_read: "json_plain v \<Longrightarrow> fuel_need v \<le> n \<Longrightarrow> number_ends r \<Longrightarrow> json_value n (json_dumps_plain v @ r) = Some (v, r)"
proof (induction v arbitrary: n r)
  case PNone
  then show ?case using json_value_literals by (cases n) auto
next
  case (PBool b)
  then show ?case using json_value_literals by (cases n; cases b) auto
next
  case (PInt i)
  then show ?case using json_value_int by (cases n) auto
next
  case (PFloat x)
  then show ?case using json_value_float by (cases n) auto
next
  case (PStr s)
  then show ?case by (cases n) (auto simp: json_string_def json_string_read)
next
  case (PList xs)
  obtain m where n: "n = Suc m" using PList.prems(2) by (cases n) auto
  show ?case
  proof (cases xs)
    case Nil
    then show ?thesis using n by (simp add: json_array_def skip_punctuation)
  next
    case (Cons x ys)
    have "json_items m (comma_sep (map json_dumps_plain xs) @ CHR 0x5D # r) = Some (xs, r)"
      by (rule json_items_read) (use PList n Cons in \<open>auto simp: list_all_iff\<close>)
    moreover have x: "json_plain x" using PList.prems(1) Cons by simp
    obtain rest where rest: "comma_sep (map json_dumps_plain xs) @ CHR 0x5D # r = json_dumps_plain x @ rest" using Cons by (cases ys) auto
    obtain c t where "json_dumps_plain x = c # t" "value_start c" by (rule dumps_start [OF x])
    ultimately show ?thesis using n rest skip_value [OF x, of rest] by (simp add: json_array_def value_start_def)
  qed
next
  case (PDict d)
  obtain m where n: "n = Suc m" using PDict.prems(2) by (cases n) auto
  show ?case
  proof (cases d)
    case Nil
    then show ?thesis using n by (simp add: skip_punctuation)
  next
    case (Cons y ys)
    have "json_members m [] (comma_sep (map member_text d) @ CHR 0x7D # r) = Some ([] @ d, r)"
    proof (rule json_members_read)
      fix k v l s
      assume "(k, v) \<in> set d" "fuel_need v \<le> l" "number_ends s"
      then show "json_value l (json_dumps_plain v @ s) = Some (v, s)"
        using PDict.IH [of "(k, v)" v l s] PDict.prems(1) by (auto simp: list_all_iff)
    qed (use PDict.prems n Cons in \<open>auto simp: list_all_iff\<close>)
    moreover obtain rest where "comma_sep (map member_text d) @ CHR 0x7D # r = CHR 0x22 # rest"
      using Cons by (cases y; cases ys) (auto simp: json_string_def)
    ultimately show ?thesis using n by (simp add: skip_punctuation)
  qed
qed

lemma length_comma_sep: "xs \<noteq> [] \<Longrightarrow> sum_list (map length xs) + length xs \<le> Suc (length (comma_sep xs))"
  by (induction xs rule: comma_sep.induct) auto

lemma fuel_need_length: "fuel_need v \<le> length (json_dumps_plain v)"
proof (induction v)
  case (PList xs)
  have "sum_list (map (\<lambda>v. Suc (fuel_need v)) xs) \<le> sum_list (map length (map json_dumps_plain xs)) + length xs"
    using PList
  proof (induction xs)
    case (Cons y ys)
    then show ?case using Cons.prems [of y] by fastforce
  qed simp
  then show ?case using length_comma_sep [of "map json_dumps_plain xs"] by (cases "xs = []") (auto simp: json_array_def)
next
  case (PDict d)
  have "sum_list (map (\<lambda>(k, v). Suc (fuel_need v)) d) \<le> sum_list (map length (map member_text d)) + length d"
    using PDict
  proof (induction d)
    case (Cons y d)
    obtain k v where "y = (k, v)" by (cases y)
    moreover have "fuel_need v \<le> length (json_dumps_plain v)" using Cons.prems [of y v] calculation by simp
    moreover have "sum_list (map (\<lambda>(k, v). Suc (fuel_need v)) d) \<le> sum_list (map length (map member_text d)) + length d"
      by (rule Cons.IH) (use Cons.prems in auto)
    ultimately show ?case by simp
  qed simp
  then show ?case using length_comma_sep [of "map member_text d"] by (cases "d = []") auto
next
  case (PFloat x)
  then show ?case by (cases x) (auto simp: json_float_def Let_def Suc_le_eq)
qed (auto simp: json_string_def show_int_def Suc_le_eq show_nat_digits)

lemma json_loads_plain:
  assumes "json_plain v"
  shows "json_loads (json_dumps_plain v) = Some v"
proof -
  have "json_value (Suc (length (json_dumps_plain v))) (json_dumps_plain v @ []) = Some (v, [])"
    using json_value_read [OF assms, of _ "[]"] fuel_need_length [of v] by (simp add: number_ends_def)
  then show ?thesis using skip_value [OF assms, of "[]"] by (simp add: json_loads_def skip_ws_def)
qed

text \<open>Sorting the keys first: what \<open>sort_keys=True\<close> writes.\<close>

lemma insort_key_map_snd:
  "insort_key fst (fst x, h (snd x)) (map (\<lambda>p. (fst p, h (snd p))) e) = map (\<lambda>p. (fst p, h (snd p))) (insort_key fst x e)"
  by (induction e) auto

lemma sort_key_map_snd: "sort_key fst (map (\<lambda>p. (fst p, h (snd p))) d) = map (\<lambda>p. (fst p, h (snd p))) (sort_key fst d)"
  by (induction d) (simp_all add: insort_key_map_snd)

lemma json_dumps_sorted: "json_dumps v = json_dumps_plain (sort_keys v)"
proof (induction v)
  case (PDict d)
  have "map (\<lambda>p. (fst p, json_dumps (snd p))) d = map (\<lambda>p. (fst p, json_dumps_plain (sort_keys (snd p)))) d"
    using PDict by (intro map_cong) (auto simp: snds.simps)
  then have "json_dumps (PDict d) = json_object (map (\<lambda>p. (fst p, json_dumps_plain (sort_keys (snd p)))) d)"
    by (simp only: json_dumps.simps case_prod_unfold)
  then show ?case
    by (simp add: json_object_def case_prod_unfold comp_def sort_key_map_snd [of "\<lambda>v. json_dumps_plain (sort_keys v)"]
        sort_key_map_snd [of sort_keys])
qed (auto simp: comp_def cong: map_cong)

lemma distinct_sort_key: "distinct (map fst (sort_key fst d)) \<longleftrightarrow> distinct (map fst d)"
  by (metis mset_map mset_sort mset_eq_imp_distinct_iff)

lemma sort_keys_plain: "json_plain v \<Longrightarrow> json_plain (sort_keys v)"
proof (induction v)
  case (PDict d)
  have "list_all (\<lambda>p. json_plain (sort_keys (snd p))) d"
    using PDict by (auto simp: list_all_iff snds.simps)
  then have "list_all (\<lambda>p. json_plain (sort_keys (snd p))) (sort_key fst d)" by (simp add: list_all_iff)
  then show ?case
    using PDict.prems by (simp add: case_prod_unfold sort_key_map_snd [of sort_keys] comp_def list_all_iff distinct_sort_key)
qed (auto simp: list_all_iff)

lemma json_loads_dumps: "json_plain v \<Longrightarrow> json_loads (json_dumps v) = Some (sort_keys v)"
  by (simp add: json_dumps_sorted json_loads_plain sort_keys_plain)

end
