(* ===== verification/Knowledge_Records.thy ===== *)
theory Knowledge_Records
  imports Fact_Schema Json_Text
begin

text \<open>
  The records of the knowledge plane: the vocabulary of source types and the two frozen types of
  knowledge/knowledge.py, the record factory of knowledge/record_factory.py (the order in which the
  identities are computed), and the pointer event and its extractor of knowledge/knowledge_ingestion.py.
  SHA-256 is the parameter \<open>sha\<close>; the clock enters as the text \<open>ts\<close> of \<open>_now_iso\<close>.
\<close>

section \<open>Source types\<close>

record source_type_spec =
  st_family :: string
  st_authority :: authority
  st_class :: string

definition SCHEMA_VERSION :: string where
  "SCHEMA_VERSION = ''kb/v1''"

definition OPERATIONS :: "string set" where
  "OPERATIONS = {''upsert'', ''supersede'', ''delete''}"

abbreviation obs_type :: "authority \<Rightarrow> string \<Rightarrow> source_type_spec" where
  "obs_type a c \<equiv> \<lparr>st_family = ''observation'', st_authority = a, st_class = c\<rparr>"

definition SOURCE_TYPES :: "(string \<times> source_type_spec) list" where
  "SOURCE_TYPES =
    [(''finding'', obs_type MEASURED ''[M]''), (''code'', obs_type SOURCE ''[C]''),
     (''report'', obs_type MEASURED ''[M]''), (''policy'', obs_type POLICY ''[P]''),
     (''story'', obs_type MEASURED ''[M]''), (''review'', obs_type ADVISORY ''[H]''),
     (''ledger_job'', obs_type MEASURED ''[M]''), (''ledger_attempt'', obs_type MEASURED ''[M]''),
     (''observation'', obs_type ADVISORY ''[H]''), (''flag'', obs_type ADVISORY ''[H]''),
     (''meta_session'', obs_type ADVISORY ''[H]''), (''decision'', obs_type ADVISORY ''[H]''),
     (''wave_verdict'', obs_type DERIVED ''[C]''), (''belief'', obs_type ADVISORY ''[H]''),
     (''reflection'', obs_type ADVISORY ''[H]''), (''spec'', obs_type POLICY ''[P]''),
     (''fact'', obs_type DERIVED ''[C]''), (''pattern'', obs_type DERIVED ''[C]''),
     (''context_snapshot'', obs_type DERIVED ''[C]''), (''orphan'', obs_type MEASURED ''[M]''),
     (''actuation'', \<lparr>st_family = ''actuation'', st_authority = POLICY, st_class = ''[P]''\<rparr>)]"

definition OBSERVATION_TYPES :: "string list" where
  "OBSERVATION_TYPES = map fst (filter (\<lambda>(_, s). st_family s = ''observation'') SOURCE_TYPES)"

definition ACTUATION_TYPES :: "string list" where
  "ACTUATION_TYPES = map fst (filter (\<lambda>(_, s). st_family s = ''actuation'') SOURCE_TYPES)"

definition message_family :: "string \<Rightarrow> string" where
  "message_family t = (case map_of SOURCE_TYPES t of Some s \<Rightarrow> st_family s | None \<Rightarrow> ''observation'')"

lemma actuation_types: "ACTUATION_TYPES = [''actuation'']"
  by code_simp

lemma message_family_cases: "message_family t = (if t = ''actuation'' then ''actuation'' else ''observation'')"
  by (simp add: message_family_def SOURCE_TYPES_def)

section \<open>Identities\<close>

definition compute_entity_id :: "(string \<Rightarrow> string) \<Rightarrow> string \<Rightarrow> string \<Rightarrow> string \<Rightarrow> string" where
  "compute_entity_id sha repository_id source_uri logical_locator =
     sha (join_with (CHR ''|'') [repository_id, source_uri, logical_locator])"

definition compute_knowledge_id :: "(string \<Rightarrow> string) \<Rightarrow> string \<Rightarrow> string \<Rightarrow> string \<Rightarrow> string \<Rightarrow> string" where
  "compute_knowledge_id sha entity_id source_revision content_hash extractor_version =
     sha (join_with (CHR ''|'') [entity_id, source_revision, content_hash, extractor_version])"

text \<open>\<open>_coerce_authority\<close> of a value read from JSON; \<open>KeyError\<close> for an unknown name, \<open>ValueError\<close> for an
  unknown rank. The names are ASCII, so only the ASCII part of \<open>upper\<close> matters.\<close>

definition upper_ascii :: "char \<Rightarrow> char" where
  "upper_ascii c = (let n = (of_char c :: nat) in if 97 \<le> n \<and> n \<le> 122 then char_of (n - 32) else c)"

definition coerce_authority :: "pyval \<Rightarrow> py_error + authority" where
  "coerce_authority v =
     (case v of
        PInt i \<Rightarrow> (case List.find (\<lambda>a. int (authority_rank a) = i) [ADVISORY, DERIVED, MEASURED, SOURCE, POLICY] of
            None \<Rightarrow> Inl ValueError | Some a \<Rightarrow> Inr a)
      | PBool b \<Rightarrow> if b then Inr ADVISORY else Inl ValueError
      | _ \<Rightarrow> of_option KeyError (authority_of_name (map upper_ascii (py_str v))))"

lemma coerce_authority_name [simp]: "coerce_authority (PStr (authority_name a)) = Inr a"
proof -
  have "list_all (\<lambda>a. map upper_ascii (authority_name a) = authority_name a) [ADVISORY, DERIVED, MEASURED, SOURCE, POLICY]"
    by code_simp
  then have "map upper_ascii (authority_name a) = authority_name a" by (cases a) simp_all
  then show ?thesis by (simp add: coerce_authority_def)
qed

section \<open>Events\<close>

record knowledge_event =
  ke_knowledge_id :: string
  ke_entity_id :: string
  ke_operation :: string
  ke_source_uri :: string
  ke_source_revision :: string
  ke_content_hash :: string
  ke_occurred_at :: string
  ke_schema_version :: string
  ke_event_id :: string
  ke_causes :: string
  ke_reason :: string
  ke_observed_at :: string

text \<open>The fields of a stream entry are texts.\<close>

definition event_to_dict :: "knowledge_event \<Rightarrow> (string \<times> string) list" where
  "event_to_dict e =
    [(''knowledge_id'', ke_knowledge_id e), (''entity_id'', ke_entity_id e), (''operation'', ke_operation e),
     (''source_uri'', ke_source_uri e), (''source_revision'', ke_source_revision e),
     (''content_hash'', ke_content_hash e), (''occurred_at'', ke_occurred_at e),
     (''schema_version'', ke_schema_version e), (''event_id'', ke_event_id e), (''causes'', ke_causes e),
     (''reason'', ke_reason e), (''observed_at'', ke_observed_at e)]"

definition get_or_empty :: "(string \<times> string) list \<Rightarrow> string \<Rightarrow> string" where
  "get_or_empty d k = (case map_of d k of None \<Rightarrow> [] | Some v \<Rightarrow> v)"

definition event_from_dict :: "(string \<times> string) list \<Rightarrow> py_error + knowledge_event" where
  "event_from_dict d =
     (if list_all (\<lambda>k. map_of d k \<noteq> None) [''knowledge_id'', ''entity_id'', ''operation'', ''source_uri'',
           ''source_revision'', ''content_hash'', ''occurred_at'', ''schema_version'']
      then Inr \<lparr>ke_knowledge_id = get_or_empty d ''knowledge_id'', ke_entity_id = get_or_empty d ''entity_id'',
         ke_operation = get_or_empty d ''operation'', ke_source_uri = get_or_empty d ''source_uri'',
         ke_source_revision = get_or_empty d ''source_revision'', ke_content_hash = get_or_empty d ''content_hash'',
         ke_occurred_at = get_or_empty d ''occurred_at'', ke_schema_version = get_or_empty d ''schema_version'',
         ke_event_id = get_or_empty d ''event_id'', ke_causes = get_or_empty d ''causes'',
         ke_reason = get_or_empty d ''reason'', ke_observed_at = get_or_empty d ''observed_at''\<rparr>
      else Inl KeyError)"

lemma event_round_trip [simp]: "event_from_dict (event_to_dict e) = Inr e"
  by (simp add: event_from_dict_def event_to_dict_def get_or_empty_def)

section \<open>Records\<close>

text \<open>The payload of a pattern is held as the dictionary that \<open>asdict\<close> makes of it.\<close>

record knowledge_record =
  kr_knowledge_id :: string
  kr_entity_id :: string
  kr_source_uri :: string
  kr_source_type :: string
  kr_logical_locator :: string
  kr_repository_id :: string
  kr_branch :: string
  kr_worktree_id :: string
  kr_commit_sha :: string
  kr_content_hash :: string
  kr_extractor_version :: string
  kr_embedding_version :: string
  kr_authority :: authority
  kr_valid_from :: string
  kr_valid_to :: "string option"
  kr_observed_at :: string
  kr_indexed_at :: string
  kr_acl_scope :: string
  kr_contains_sensitive_data :: bool
  kr_text :: string
  kr_token_count :: int
  kr_language :: string
  kr_symbols :: "string list"
  kr_outcome_id :: string
  kr_test_executed_success :: "bool option"
  kr_evidence_class :: string
  kr_confidence :: "pyfloat option"
  kr_perturbation_strength :: "pyfloat option"
  kr_causes :: "string option"
  kr_supersedes :: "string option"
  kr_subject_id :: string
  kr_subject_status :: string
  kr_energy_total_j :: "pyfloat option"
  kr_energy_per_token :: "pyfloat option"
  kr_region :: "string option"
  kr_pattern_payload :: pyval
  kr_source_fact_id :: string
  kr_evidence_ids :: "string list"

definition opt_text :: "string option \<Rightarrow> pyval" where
  "opt_text v = (case v of None \<Rightarrow> PNone | Some s \<Rightarrow> PStr s)"

definition opt_bool :: "bool option \<Rightarrow> pyval" where
  "opt_bool v = (case v of None \<Rightarrow> PNone | Some b \<Rightarrow> PBool b)"

definition opt_number :: "pyfloat option \<Rightarrow> pyval" where
  "opt_number v = (case v of None \<Rightarrow> PNone | Some x \<Rightarrow> PFloat x)"

definition unless_none :: "string \<Rightarrow> pyval \<Rightarrow> pydict" where
  "unless_none k v = (if v = PNone then [] else [(k, v)])"

definition record_base :: "knowledge_record \<Rightarrow> pydict" where
  "record_base r =
    [(''knowledge_id'', PStr (kr_knowledge_id r)), (''entity_id'', PStr (kr_entity_id r)),
     (''source_uri'', PStr (kr_source_uri r)), (''source_type'', PStr (kr_source_type r)),
     (''logical_locator'', PStr (kr_logical_locator r)), (''repository_id'', PStr (kr_repository_id r)),
     (''branch'', PStr (kr_branch r)), (''worktree_id'', PStr (kr_worktree_id r)),
     (''commit_sha'', PStr (kr_commit_sha r)), (''content_hash'', PStr (kr_content_hash r)),
     (''extractor_version'', PStr (kr_extractor_version r)), (''embedding_version'', PStr (kr_embedding_version r)),
     (''authority'', PStr (authority_name (kr_authority r))), (''valid_from'', PStr (kr_valid_from r)),
     (''valid_to'', opt_text (kr_valid_to r)), (''observed_at'', PStr (kr_observed_at r)),
     (''indexed_at'', PStr (kr_indexed_at r)), (''acl_scope'', PStr (kr_acl_scope r)),
     (''contains_sensitive_data'', PBool (kr_contains_sensitive_data r)), (''text'', PStr (kr_text r)),
     (''token_count'', PInt (kr_token_count r)), (''language'', PStr (kr_language r)),
     (''symbols'', PList (map PStr (kr_symbols r))), (''outcome_id'', PStr (kr_outcome_id r)),
     (''test_executed_success'', opt_bool (kr_test_executed_success r)), (''evidence_class'', PStr (kr_evidence_class r)),
     (''confidence'', opt_number (kr_confidence r)), (''perturbation_strength'', opt_number (kr_perturbation_strength r)),
     (''causes'', opt_text (kr_causes r)), (''supersedes'', opt_text (kr_supersedes r)),
     (''subject_id'', PStr (kr_subject_id r)), (''subject_status'', PStr (kr_subject_status r))]"

text \<open>The fields that are left out when they are not measured.\<close>

definition record_optional :: "knowledge_record \<Rightarrow> pydict" where
  "record_optional r =
    unless_none ''energy_total_j'' (opt_number (kr_energy_total_j r))
    @ unless_none ''energy_per_token'' (opt_number (kr_energy_per_token r))
    @ unless_none ''region'' (opt_text (kr_region r))
    @ unless_none ''pattern_payload'' (kr_pattern_payload r)
    @ (if kr_source_fact_id r \<noteq> [] then [(''source_fact_id'', PStr (kr_source_fact_id r))] else [])
    @ (if kr_evidence_ids r \<noteq> [] then [(''evidence_ids'', PList (map PStr (kr_evidence_ids r)))] else [])"

definition record_to_dict :: "knowledge_record \<Rightarrow> pydict" where
  "record_to_dict r = record_base r @ record_optional r"

lemmas record_dict_defs = record_to_dict_def record_base_def record_optional_def

text \<open>The artifact: the two identities and the three time stamps are blanked, and the subject is left out
  where it is empty. The bytes of the artifact are ASCII, so they are written as a text.\<close>

definition volatile_fields :: "string list" where
  "volatile_fields = [''knowledge_id'', ''content_hash'', ''valid_from'', ''observed_at'', ''indexed_at'']"

definition blank_fields :: "pydict \<Rightarrow> pydict" where
  "blank_fields d = map (\<lambda>(k, v). if k \<in> set volatile_fields then (k, PStr []) else (k, v)) d"

definition drop_empty_subject :: "pydict \<Rightarrow> pydict" where
  "drop_empty_subject d = filter (\<lambda>(k, v). \<not> (k \<in> {''subject_id'', ''subject_status''} \<and> \<not> truthy v)) d"

definition record_to_artifact :: "knowledge_record \<Rightarrow> string" where
  "record_to_artifact r = json_dumps (PDict (drop_empty_subject (blank_fields (record_to_dict r))))"

section \<open>Reading a record back\<close>

text \<open>\<open>from_dict\<close> for fields of their declared types: a missing required key is the KeyError of the code, and a value of
  another type, which Python would store unchecked, is a TypeError here.\<close>

definition need_text :: "pydict \<Rightarrow> string \<Rightarrow> py_error + string" where
  "need_text d k = (case map_of d k of Some (PStr s) \<Rightarrow> Inr s | None \<Rightarrow> Inl KeyError | _ \<Rightarrow> Inl TypeError)"

definition text_or :: "pydict \<Rightarrow> string \<Rightarrow> py_error + string" where
  "text_or d k = (case map_of d k of Some (PStr s) \<Rightarrow> Inr s | None \<Rightarrow> Inr [] | _ \<Rightarrow> Inl TypeError)"

definition maybe_text :: "pydict \<Rightarrow> string \<Rightarrow> py_error + string option" where
  "maybe_text d k = (case pyget d k of PStr s \<Rightarrow> Inr (Some s) | PNone \<Rightarrow> Inr None | _ \<Rightarrow> Inl TypeError)"

definition maybe_float :: "pydict \<Rightarrow> string \<Rightarrow> py_error + pyfloat option" where
  "maybe_float d k = (case pyget d k of PFloat x \<Rightarrow> Inr (Some x) | PNone \<Rightarrow> Inr None | _ \<Rightarrow> Inl TypeError)"

definition maybe_bool :: "pydict \<Rightarrow> string \<Rightarrow> py_error + bool option" where
  "maybe_bool d k = (case pyget d k of PBool b \<Rightarrow> Inr (Some b) | PNone \<Rightarrow> Inr None | _ \<Rightarrow> Inl TypeError)"

fun text_items :: "pyval list \<Rightarrow> py_error + string list" where
  "text_items [] = Inr []"
| "text_items (PStr s # vs) = (case text_items vs of Inl e \<Rightarrow> Inl e | Inr ss \<Rightarrow> Inr (s # ss))"
| "text_items _ = Inl TypeError"

definition texts_or_empty :: "pydict \<Rightarrow> string \<Rightarrow> py_error + string list" where
  "texts_or_empty d k = (if truthy (pyget d k) then (case pyget d k of PList vs \<Rightarrow> text_items vs | _ \<Rightarrow> Inl TypeError) else Inr [])"

definition need_int :: "pydict \<Rightarrow> string \<Rightarrow> py_error + int" where
  "need_int d k = (case map_of d k of Some (PInt i) \<Rightarrow> Inr i | None \<Rightarrow> Inl KeyError | _ \<Rightarrow> Inl TypeError)"

definition need_bool :: "pydict \<Rightarrow> string \<Rightarrow> py_error + bool" where
  "need_bool d k = (case map_of d k of Some (PBool b) \<Rightarrow> Inr b | None \<Rightarrow> Inl KeyError | _ \<Rightarrow> Inl TypeError)"

definition need_authority :: "pydict \<Rightarrow> string \<Rightarrow> py_error + authority" where
  "need_authority d k = (case map_of d k of Some v \<Rightarrow> coerce_authority v | None \<Rightarrow> Inl KeyError)"

definition bind_sum :: "'e + 'a \<Rightarrow> ('a \<Rightarrow> 'e + 'b) \<Rightarrow> 'e + 'b" where
  "bind_sum r k = (case r of Inl e \<Rightarrow> Inl e | Inr x \<Rightarrow> k x)"

lemma bind_sum_simps [simp]: "bind_sum (Inl e) k = Inl e" "bind_sum (Inr x) k = k x"
  by (simp_all add: bind_sum_def)

definition record_from_dict :: "pydict \<Rightarrow> py_error + knowledge_record" where
  "record_from_dict d =
     bind_sum (need_text d ''knowledge_id'') (\<lambda>kid. bind_sum (need_text d ''entity_id'') (\<lambda>eid.
     bind_sum (need_text d ''source_uri'') (\<lambda>uri. bind_sum (need_text d ''source_type'') (\<lambda>st.
     bind_sum (need_text d ''logical_locator'') (\<lambda>loc. bind_sum (need_text d ''repository_id'') (\<lambda>repo.
     bind_sum (need_text d ''branch'') (\<lambda>br. bind_sum (need_text d ''worktree_id'') (\<lambda>wt.
     bind_sum (need_text d ''commit_sha'') (\<lambda>cs. bind_sum (need_text d ''content_hash'') (\<lambda>ch.
     bind_sum (need_text d ''extractor_version'') (\<lambda>ev. bind_sum (need_text d ''embedding_version'') (\<lambda>mv.
     bind_sum (need_authority d ''authority'') (\<lambda>au. bind_sum (need_text d ''valid_from'') (\<lambda>vf.
     bind_sum (maybe_text d ''valid_to'') (\<lambda>vt. bind_sum (need_text d ''observed_at'') (\<lambda>oa.
     bind_sum (need_text d ''indexed_at'') (\<lambda>ia. bind_sum (need_text d ''acl_scope'') (\<lambda>acl.
     bind_sum (need_bool d ''contains_sensitive_data'') (\<lambda>sd. bind_sum (need_text d ''text'') (\<lambda>tx.
     bind_sum (need_int d ''token_count'') (\<lambda>tc. bind_sum (need_text d ''language'') (\<lambda>la.
     bind_sum (texts_or_empty d ''symbols'') (\<lambda>sy. bind_sum (need_text d ''outcome_id'') (\<lambda>oi.
     bind_sum (maybe_bool d ''test_executed_success'') (\<lambda>te. bind_sum (need_text d ''evidence_class'') (\<lambda>ec.
     bind_sum (maybe_float d ''confidence'') (\<lambda>co. bind_sum (maybe_float d ''perturbation_strength'') (\<lambda>ps.
     bind_sum (maybe_text d ''causes'') (\<lambda>ca. bind_sum (maybe_text d ''supersedes'') (\<lambda>su.
     bind_sum (text_or d ''subject_id'') (\<lambda>si. bind_sum (text_or d ''subject_status'') (\<lambda>ss.
     bind_sum (maybe_float d ''energy_total_j'') (\<lambda>et. bind_sum (maybe_float d ''energy_per_token'') (\<lambda>ep.
     bind_sum (maybe_text d ''region'') (\<lambda>re. bind_sum (text_or d ''source_fact_id'') (\<lambda>sf.
     bind_sum (texts_or_empty d ''evidence_ids'') (\<lambda>ei.
       Inr \<lparr>kr_knowledge_id = kid, kr_entity_id = eid, kr_source_uri = uri, kr_source_type = st, kr_logical_locator = loc,
         kr_repository_id = repo, kr_branch = br, kr_worktree_id = wt, kr_commit_sha = cs, kr_content_hash = ch,
         kr_extractor_version = ev, kr_embedding_version = mv, kr_authority = au, kr_valid_from = vf, kr_valid_to = vt,
         kr_observed_at = oa, kr_indexed_at = ia, kr_acl_scope = acl, kr_contains_sensitive_data = sd, kr_text = tx,
         kr_token_count = tc, kr_language = la, kr_symbols = sy, kr_outcome_id = oi, kr_test_executed_success = te,
         kr_evidence_class = ec, kr_confidence = co, kr_perturbation_strength = ps, kr_causes = ca, kr_supersedes = su,
         kr_subject_id = si, kr_subject_status = ss, kr_energy_total_j = et, kr_energy_per_token = ep, kr_region = re,
         kr_pattern_payload = pyget d ''pattern_payload'', kr_source_fact_id = sf, kr_evidence_ids = ei\<rparr>)))))))))))))))))))))))))))))))))))))"

section \<open>The factory\<close>

text \<open>The keys of \<open>extra_fields\<close> that the producers modelled here pass; any other key that is no field of a
  record is refused.\<close>

datatype extra_field =
    ExtractorVersion string | Supersedes "string option" | ObservedAt string | ValidFrom string | ValidTo "string option"
  | Payload pyval | SourceFactId string | EvidenceIds "string list" | OutcomeId string | AclScope string | Language string
  | Symbols "string list" | SubjectId string | SubjectStatus string | UnknownField string

primrec set_field :: "extra_field \<Rightarrow> knowledge_record \<Rightarrow> knowledge_record" where
  "set_field (ExtractorVersion v) r = r\<lparr>kr_extractor_version := v\<rparr>"
| "set_field (Supersedes v) r = r\<lparr>kr_supersedes := v\<rparr>"
| "set_field (ObservedAt v) r = r\<lparr>kr_observed_at := v\<rparr>"
| "set_field (ValidFrom v) r = r\<lparr>kr_valid_from := v\<rparr>"
| "set_field (ValidTo v) r = r\<lparr>kr_valid_to := v\<rparr>"
| "set_field (Payload v) r = r\<lparr>kr_pattern_payload := v\<rparr>"
| "set_field (SourceFactId v) r = r\<lparr>kr_source_fact_id := v\<rparr>"
| "set_field (EvidenceIds v) r = r\<lparr>kr_evidence_ids := v\<rparr>"
| "set_field (OutcomeId v) r = r\<lparr>kr_outcome_id := v\<rparr>"
| "set_field (AclScope v) r = r\<lparr>kr_acl_scope := v\<rparr>"
| "set_field (Language v) r = r\<lparr>kr_language := v\<rparr>"
| "set_field (Symbols v) r = r\<lparr>kr_symbols := v\<rparr>"
| "set_field (SubjectId v) r = r\<lparr>kr_subject_id := v\<rparr>"
| "set_field (SubjectStatus v) r = r\<lparr>kr_subject_status := v\<rparr>"
| "set_field (UnknownField k) r = r"

definition is_unknown :: "extra_field \<Rightarrow> bool" where
  "is_unknown x = (case x of UnknownField _ \<Rightarrow> True | _ \<Rightarrow> False)"

text \<open>\<open>len(text.split())\<close>.\<close>

fun word_count :: "bool \<Rightarrow> string \<Rightarrow> nat" where
  "word_count inside [] = 0"
| "word_count inside (c # s) =
     (if py_space c then word_count False s else (if inside then 0 else 1) + word_count True s)"

definition default_record ::
  "string \<Rightarrow> string \<Rightarrow> string \<Rightarrow> string \<Rightarrow> string \<Rightarrow> authority \<Rightarrow> string \<Rightarrow> string \<Rightarrow> string \<Rightarrow> string \<Rightarrow> knowledge_record" where
  "default_record source_type source_uri locator repository_id revision au ec text entity_id ts =
     \<lparr>kr_knowledge_id = [], kr_entity_id = entity_id, kr_source_uri = source_uri, kr_source_type = source_type,
      kr_logical_locator = locator, kr_repository_id = repository_id, kr_branch = [], kr_worktree_id = [],
      kr_commit_sha = revision, kr_content_hash = [], kr_extractor_version = [], kr_embedding_version = [],
      kr_authority = au, kr_valid_from = ts, kr_valid_to = None, kr_observed_at = ts, kr_indexed_at = ts,
      kr_acl_scope = ''public'', kr_contains_sensitive_data = False, kr_text = text,
      kr_token_count = max 1 (int (word_count False text)), kr_language = [], kr_symbols = [], kr_outcome_id = [],
      kr_test_executed_success = None, kr_evidence_class = ec, kr_confidence = None, kr_perturbation_strength = None,
      kr_causes = None, kr_supersedes = None, kr_subject_id = [], kr_subject_status = [], kr_energy_total_j = None,
      kr_energy_per_token = None, kr_region = None, kr_pattern_payload = PNone, kr_source_fact_id = [], kr_evidence_ids = []\<rparr>"

definition identify :: "(string \<Rightarrow> string) \<Rightarrow> string \<Rightarrow> knowledge_record \<Rightarrow> knowledge_record" where
  "identify sha revision r =
     (let h = sha (record_to_artifact r)
      in r\<lparr>kr_content_hash := h,
           kr_knowledge_id := compute_knowledge_id sha (kr_entity_id r) revision h (kr_extractor_version r)\<rparr>)"

definition build_record_from_parts ::
  "(string \<Rightarrow> string) \<Rightarrow> string \<Rightarrow> string \<Rightarrow> string \<Rightarrow> string \<Rightarrow> string \<Rightarrow> authority \<Rightarrow> string \<Rightarrow> string
     \<Rightarrow> extra_field list \<Rightarrow> string option \<Rightarrow> string \<Rightarrow> py_error + knowledge_record" where
  "build_record_from_parts sha source_type source_uri locator repository_id revision au ec text extra entity_id ts =
     (if list_ex is_unknown extra then Inl ValueError
      else let eid = (case entity_id of None \<Rightarrow> compute_entity_id sha repository_id source_uri locator | Some e \<Rightarrow> e);
               r = foldl (\<lambda>r x. set_field x r) (default_record source_type source_uri locator repository_id revision au ec text eid ts) extra
           in Inr (identify sha revision r))"

section \<open>The pointer event\<close>

definition artifact_uri :: "string \<Rightarrow> string" where
  "artifact_uri knowledge_id = ''file://experiments/results/kb/'' @ knowledge_id @ ''.json''"

definition record_to_event :: "(string \<Rightarrow> string) \<Rightarrow> knowledge_record \<Rightarrow> string \<Rightarrow> string \<Rightarrow> string \<Rightarrow> knowledge_event" where
  "record_to_event sha r operation reason ts =
     \<lparr>ke_knowledge_id = kr_knowledge_id r, ke_entity_id = kr_entity_id r, ke_operation = operation,
      ke_source_uri = artifact_uri (kr_knowledge_id r), ke_source_revision = kr_commit_sha r,
      ke_content_hash = sha (record_to_artifact r), ke_occurred_at = ts, ke_schema_version = SCHEMA_VERSION,
      ke_event_id = kr_knowledge_id r, ke_causes = (case kr_causes r of None \<Rightarrow> [] | Some c \<Rightarrow> c), ke_reason = reason,
      ke_observed_at = kr_observed_at r\<rparr>"

definition extract_record :: "knowledge_event \<Rightarrow> string \<Rightarrow> string \<Rightarrow> py_error + knowledge_record" where
  "extract_record e artifact ts =
     (case json_loads artifact of
        Some (PDict d) \<Rightarrow>
          bind_sum (record_from_dict d) (\<lambda>r. Inr (r\<lparr>kr_knowledge_id := ke_knowledge_id e, kr_content_hash := ke_content_hash e,
            kr_valid_from := ke_occurred_at e,
            kr_observed_at := (if ke_observed_at e \<noteq> [] then ke_observed_at e else ke_occurred_at e), kr_indexed_at := ts\<rparr>))
      | Some _ \<Rightarrow> Inl TypeError | None \<Rightarrow> Inl ValueError)"

section \<open>The identity does not depend on when it is computed\<close>

lemma record_lookups:
    "map_of (record_to_dict r) ''knowledge_id'' = Some (PStr (kr_knowledge_id r))"
    "map_of (record_to_dict r) ''entity_id'' = Some (PStr (kr_entity_id r))"
    "map_of (record_to_dict r) ''source_uri'' = Some (PStr (kr_source_uri r))"
    "map_of (record_to_dict r) ''source_type'' = Some (PStr (kr_source_type r))"
    "map_of (record_to_dict r) ''logical_locator'' = Some (PStr (kr_logical_locator r))"
    "map_of (record_to_dict r) ''repository_id'' = Some (PStr (kr_repository_id r))"
    "map_of (record_to_dict r) ''branch'' = Some (PStr (kr_branch r))"
    "map_of (record_to_dict r) ''worktree_id'' = Some (PStr (kr_worktree_id r))"
    "map_of (record_to_dict r) ''commit_sha'' = Some (PStr (kr_commit_sha r))"
    "map_of (record_to_dict r) ''content_hash'' = Some (PStr (kr_content_hash r))"
    "map_of (record_to_dict r) ''extractor_version'' = Some (PStr (kr_extractor_version r))"
    "map_of (record_to_dict r) ''embedding_version'' = Some (PStr (kr_embedding_version r))"
    "map_of (record_to_dict r) ''valid_from'' = Some (PStr (kr_valid_from r))"
    "map_of (record_to_dict r) ''observed_at'' = Some (PStr (kr_observed_at r))"
    "map_of (record_to_dict r) ''indexed_at'' = Some (PStr (kr_indexed_at r))"
    "map_of (record_to_dict r) ''acl_scope'' = Some (PStr (kr_acl_scope r))"
    "map_of (record_to_dict r) ''text'' = Some (PStr (kr_text r))"
    "map_of (record_to_dict r) ''language'' = Some (PStr (kr_language r))"
    "map_of (record_to_dict r) ''outcome_id'' = Some (PStr (kr_outcome_id r))"
    "map_of (record_to_dict r) ''evidence_class'' = Some (PStr (kr_evidence_class r))"
    "map_of (record_to_dict r) ''subject_id'' = Some (PStr (kr_subject_id r))"
    "map_of (record_to_dict r) ''subject_status'' = Some (PStr (kr_subject_status r))"
    "map_of (record_to_dict r) ''authority'' = Some (PStr (authority_name (kr_authority r)))"
    "map_of (record_to_dict r) ''valid_to'' = Some (opt_text (kr_valid_to r))"
    "map_of (record_to_dict r) ''causes'' = Some (opt_text (kr_causes r))"
    "map_of (record_to_dict r) ''supersedes'' = Some (opt_text (kr_supersedes r))"
    "map_of (record_to_dict r) ''confidence'' = Some (opt_number (kr_confidence r))"
    "map_of (record_to_dict r) ''perturbation_strength'' = Some (opt_number (kr_perturbation_strength r))"
    "map_of (record_to_dict r) ''test_executed_success'' = Some (opt_bool (kr_test_executed_success r))"
    "map_of (record_to_dict r) ''contains_sensitive_data'' = Some (PBool (kr_contains_sensitive_data r))"
    "map_of (record_to_dict r) ''token_count'' = Some (PInt (kr_token_count r))"
    "map_of (record_to_dict r) ''symbols'' = Some (PList (map PStr (kr_symbols r)))"
  by (simp_all add: record_dict_defs)

lemma record_optional_lookups:
    "pyget (record_to_dict r) ''energy_total_j'' = opt_number (kr_energy_total_j r)"
    "pyget (record_to_dict r) ''energy_per_token'' = opt_number (kr_energy_per_token r)"
    "pyget (record_to_dict r) ''region'' = opt_text (kr_region r)"
    "pyget (record_to_dict r) ''pattern_payload'' = kr_pattern_payload r"
    "map_of (record_to_dict r) ''source_fact_id'' = (if kr_source_fact_id r = [] then None else Some (PStr (kr_source_fact_id r)))"
    "map_of (record_to_dict r) ''evidence_ids'' = (if kr_evidence_ids r = [] then None else Some (PList (map PStr (kr_evidence_ids r))))"
  by (simp_all add: record_dict_defs pyget_def unless_none_def opt_number_def opt_text_def split: option.splits)

definition same_content :: "knowledge_record \<Rightarrow> knowledge_record \<Rightarrow> bool" where
  "same_content r s \<longleftrightarrow> (\<exists>k h f t i. s = r\<lparr>kr_knowledge_id := k, kr_content_hash := h, kr_valid_from := f, kr_observed_at := t, kr_indexed_at := i\<rparr>)"

lemma artifact_ignores_volatile:
  "record_to_artifact (r\<lparr>kr_knowledge_id := k\<rparr>) = record_to_artifact r"
  "record_to_artifact (r\<lparr>kr_content_hash := k\<rparr>) = record_to_artifact r"
  "record_to_artifact (r\<lparr>kr_valid_from := k\<rparr>) = record_to_artifact r"
  "record_to_artifact (r\<lparr>kr_observed_at := k\<rparr>) = record_to_artifact r"
  "record_to_artifact (r\<lparr>kr_indexed_at := k\<rparr>) = record_to_artifact r"
  by (simp_all add: record_to_artifact_def blank_fields_def record_dict_defs volatile_fields_def)

lemma same_content_artifact: "same_content r s \<Longrightarrow> record_to_artifact s = record_to_artifact r"
  by (auto simp: same_content_def artifact_ignores_volatile)

lemma identify_artifact [simp]: "record_to_artifact (identify sha revision r) = record_to_artifact r"
  by (simp add: identify_def Let_def artifact_ignores_volatile)

lemma identify_facts:
  "kr_content_hash (identify sha revision r) = sha (record_to_artifact r)" "kr_observed_at (identify sha revision r) = kr_observed_at r"
  "kr_entity_id (identify sha revision r) = kr_entity_id r" "kr_supersedes (identify sha revision r) = kr_supersedes r"
  "kr_text (identify sha revision r) = kr_text r"
  "kr_knowledge_id (identify sha revision r)
     = compute_knowledge_id sha (kr_entity_id r) revision (sha (record_to_artifact r)) (kr_extractor_version r)"
  by (simp_all add: identify_def Let_def)

section \<open>A record survives its artifact\<close>

definition base_keys :: "string list" where
  "base_keys = [''knowledge_id'', ''entity_id'', ''source_uri'', ''source_type'', ''logical_locator'', ''repository_id'',
     ''branch'', ''worktree_id'', ''commit_sha'', ''content_hash'', ''extractor_version'', ''embedding_version'',
     ''authority'', ''valid_from'', ''valid_to'', ''observed_at'', ''indexed_at'', ''acl_scope'',
     ''contains_sensitive_data'', ''text'', ''token_count'', ''language'', ''symbols'', ''outcome_id'',
     ''test_executed_success'', ''evidence_class'', ''confidence'', ''perturbation_strength'', ''causes'', ''supersedes'',
     ''subject_id'', ''subject_status'']"

definition optional_keys :: "string list" where
  "optional_keys = [''energy_total_j'', ''energy_per_token'', ''region'', ''pattern_payload'', ''source_fact_id'', ''evidence_ids'']"

lemma record_keys_distinct: "distinct (map fst (record_to_dict r))"
proof -
  have "map fst (record_base r) = base_keys" by (simp add: record_base_def base_keys_def)
  moreover have "distinct base_keys" "list_all (\<lambda>k. k \<notin> set base_keys) optional_keys" by code_simp+
  moreover have "set (map fst (record_optional r)) \<subseteq> set optional_keys" "distinct (map fst (record_optional r))"
    by (cases "kr_source_fact_id r = []"; cases "kr_evidence_ids r = []"; simp add: record_optional_def optional_keys_def unless_none_def)+
  ultimately show ?thesis unfolding record_to_dict_def list_all_iff by auto
qed

lemma map_of_blank: "map_of (blank_fields d) k = map_option (\<lambda>v. if k \<in> set volatile_fields then PStr [] else v) (map_of d k)"
  by (induction d) (auto simp: blank_fields_def)

lemma keys_blank: "map fst (blank_fields d) = map fst d"
  by (induction d) (auto simp: blank_fields_def)

lemma map_of_drop:
  "distinct (map fst d) \<Longrightarrow> map_of (drop_empty_subject d) k =
     (case map_of d k of None \<Rightarrow> None | Some v \<Rightarrow> if k \<in> {''subject_id'', ''subject_status''} \<and> \<not> truthy v then None else Some v)"
proof (induction d)
  case (Cons x d)
  obtain a b where x: "x = (a, b)" by (cases x)
  have "a \<notin> fst ` set d" using Cons.prems x by simp
  then have "map_of (drop_empty_subject d) a = None" by (auto simp: drop_empty_subject_def map_of_eq_None_iff)
  with Cons x show ?case by (auto simp: drop_empty_subject_def)
qed (simp add: drop_empty_subject_def)

lemma keys_drop: "distinct (map fst d) \<Longrightarrow> distinct (map fst (drop_empty_subject d))"
  by (simp add: drop_empty_subject_def distinct_map_filter)

lemma map_of_sorted:
  assumes "distinct (map fst d)"
  shows "map_of (sort_key fst (map (\<lambda>(k, v). (k, sort_keys v)) d)) k = map_option sort_keys (map_of d k)"
proof -
  have "distinct (map fst (map (\<lambda>(k, v). (k, sort_keys v)) d))" using assms by (simp add: comp_def case_prod_unfold)
  then have "map_of (sort_key fst (map (\<lambda>(k, v). (k, sort_keys v)) d)) = map_of (map (\<lambda>(k, v). (k, sort_keys v)) d)"
    by (intro map_of_inject_set [THEN iffD2]) (simp_all add: distinct_sort_key del: map_map)
  then show ?thesis by (simp add: map_of_map)
qed

text \<open>What the artifact can carry: printable floats and a payload with sorted keys.\<close>

definition opt_printable :: "pyfloat option \<Rightarrow> bool" where
  "opt_printable v \<longleftrightarrow> (case v of None \<Rightarrow> True | Some x \<Rightarrow> printable x)"

definition storable :: "knowledge_record \<Rightarrow> bool" where
  "storable r \<longleftrightarrow> json_plain (kr_pattern_payload r) \<and> sort_keys (kr_pattern_payload r) = kr_pattern_payload r
     \<and> list_all opt_printable [kr_confidence r, kr_perturbation_strength r, kr_energy_total_j r, kr_energy_per_token r]"

lemma storable_identify [simp]: "storable (identify sha revision r) \<longleftrightarrow> storable r"
  by (simp add: storable_def identify_def Let_def)

abbreviation artifact_dict :: "knowledge_record \<Rightarrow> pydict" where
  "artifact_dict r \<equiv> drop_empty_subject (blank_fields (record_to_dict r))"

lemma opt_plain [simp]: "json_plain (opt_text t)" "json_plain (opt_bool b)" "json_plain (opt_number x) \<longleftrightarrow> opt_printable x"
  by (simp_all add: opt_text_def opt_bool_def opt_number_def opt_printable_def split: option.splits)

lemma opt_sorted [simp]: "sort_keys (opt_text t) = opt_text t" "sort_keys (opt_bool b) = opt_bool b" "sort_keys (opt_number x) = opt_number x"
  by (simp_all add: opt_text_def opt_bool_def opt_number_def split: option.splits)

lemma record_values_plain:
  assumes "storable r"
  shows "list_all (\<lambda>(k, v). json_plain v) (record_to_dict r)"
  using assms by (simp add: record_dict_defs storable_def unless_none_def list_all_iff ball_Un split: if_splits)

lemma artifact_plain:
  assumes "storable r"
  shows "json_plain (PDict (artifact_dict r))"
proof -
  have "list_all (\<lambda>(k, v). json_plain v) (artifact_dict r)"
    using record_values_plain [OF assms] by (auto simp: list_all_iff drop_empty_subject_def blank_fields_def split: if_splits)
  moreover have "distinct (map fst (artifact_dict r))"
    by (rule keys_drop) (simp add: keys_blank record_keys_distinct)
  ultimately show ?thesis by simp
qed

definition read_back :: "knowledge_record \<Rightarrow> pydict" where
  "read_back r = sort_key fst (map (\<lambda>(k, v). (k, sort_keys v)) (artifact_dict r))"

lemma artifact_loads: "storable r \<Longrightarrow> json_loads (record_to_artifact r) = Some (PDict (read_back r))"
  using json_loads_dumps [OF artifact_plain] by (simp add: record_to_artifact_def read_back_def)

lemma read_back_lookup:
  "map_of (read_back r) k =
     (case map_of (record_to_dict r) k of None \<Rightarrow> None
      | Some v \<Rightarrow> (let w = if k \<in> set volatile_fields then PStr [] else v
                   in if k \<in> {''subject_id'', ''subject_status''} \<and> \<not> truthy w then None else Some (sort_keys w)))"
proof -
  have d: "distinct (map fst (blank_fields (record_to_dict r)))" by (simp add: keys_blank record_keys_distinct)
  show ?thesis unfolding read_back_def
    by (simp add: map_of_sorted [OF keys_drop [OF d]] map_of_drop [OF d] map_of_blank Let_def split: option.split)
qed

lemma text_items_PStr [simp]: "text_items (map PStr ss) = Inr ss"
  by (induction ss) simp_all

lemma read_fields:
  assumes "map_of (record_to_dict r) k = Some v" "k \<notin> set volatile_fields" "k \<notin> {''subject_id'', ''subject_status''}"
  shows "map_of (read_back r) k = Some (sort_keys v)"
  using assms by (simp add: read_back_lookup)

lemma volatile_lookup: "k \<in> set volatile_fields \<Longrightarrow> map_of (record_to_dict r) k = Some v \<Longrightarrow> map_of (read_back r) k = Some (PStr [])"
  using read_back_lookup [of r k] by (auto simp: volatile_fields_def)

lemma subject_lookup:
  "k \<in> {''subject_id'', ''subject_status''} \<Longrightarrow> map_of (record_to_dict r) k = Some (PStr t) \<Longrightarrow> text_or (read_back r) k = Inr t"
  using read_back_lookup [of r k] by (auto simp: text_or_def volatile_fields_def)

lemma pyget_read_back:
  assumes "k \<notin> set volatile_fields" "k \<notin> {''subject_id'', ''subject_status''}"
  shows "pyget (read_back r) k = sort_keys (pyget (record_to_dict r) k)"
  using assms by (simp add: pyget_def read_back_lookup split: option.split)

lemma sort_keys_texts [simp]: "sort_keys (PList (map PStr ts)) = PList (map PStr ts)"
  by (simp add: comp_def)

lemma required_keys:
    "need_text (read_back r) ''knowledge_id'' = Inr []"
    "need_text (read_back r) ''content_hash'' = Inr []"
    "need_text (read_back r) ''valid_from'' = Inr []"
    "need_text (read_back r) ''observed_at'' = Inr []"
    "need_text (read_back r) ''indexed_at'' = Inr []"
    "need_text (read_back r) ''entity_id'' = Inr (kr_entity_id r)"
    "need_text (read_back r) ''source_uri'' = Inr (kr_source_uri r)"
    "need_text (read_back r) ''source_type'' = Inr (kr_source_type r)"
    "need_text (read_back r) ''logical_locator'' = Inr (kr_logical_locator r)"
    "need_text (read_back r) ''repository_id'' = Inr (kr_repository_id r)"
    "need_text (read_back r) ''branch'' = Inr (kr_branch r)"
    "need_text (read_back r) ''worktree_id'' = Inr (kr_worktree_id r)"
    "need_text (read_back r) ''commit_sha'' = Inr (kr_commit_sha r)"
    "need_text (read_back r) ''extractor_version'' = Inr (kr_extractor_version r)"
    "need_text (read_back r) ''embedding_version'' = Inr (kr_embedding_version r)"
    "need_text (read_back r) ''acl_scope'' = Inr (kr_acl_scope r)"
    "need_text (read_back r) ''text'' = Inr (kr_text r)"
    "need_text (read_back r) ''language'' = Inr (kr_language r)"
    "need_text (read_back r) ''outcome_id'' = Inr (kr_outcome_id r)"
    "need_text (read_back r) ''evidence_class'' = Inr (kr_evidence_class r)"
  by (simp_all add: need_text_def volatile_lookup [OF _ record_lookups(1)] volatile_lookup read_fields record_lookups volatile_fields_def)

lemma optional_fields:
    "text_or (read_back r) ''subject_id'' = Inr (kr_subject_id r)"
    "text_or (read_back r) ''subject_status'' = Inr (kr_subject_status r)"
    "maybe_text (read_back r) ''valid_to'' = Inr (kr_valid_to r)" "maybe_text (read_back r) ''causes'' = Inr (kr_causes r)"
    "maybe_text (read_back r) ''supersedes'' = Inr (kr_supersedes r)" "maybe_text (read_back r) ''region'' = Inr (kr_region r)"
    "maybe_float (read_back r) ''confidence'' = Inr (kr_confidence r)"
    "maybe_float (read_back r) ''perturbation_strength'' = Inr (kr_perturbation_strength r)"
    "maybe_float (read_back r) ''energy_total_j'' = Inr (kr_energy_total_j r)"
    "maybe_float (read_back r) ''energy_per_token'' = Inr (kr_energy_per_token r)"
    "maybe_bool (read_back r) ''test_executed_success'' = Inr (kr_test_executed_success r)"
proof -
  have t: "pyget d k = opt_text v \<Longrightarrow> maybe_text d k = Inr v" for d k v by (cases v) (simp_all add: maybe_text_def opt_text_def)
  have f: "pyget d k = opt_number v \<Longrightarrow> maybe_float d k = Inr v" for d k v by (cases v) (simp_all add: maybe_float_def opt_number_def)
  have b: "pyget d k = opt_bool v \<Longrightarrow> maybe_bool d k = Inr v" for d k v by (cases v) (simp_all add: maybe_bool_def opt_bool_def)
  have g: "map_of d k = Some v \<Longrightarrow> pyget d k = v" for d k v by (simp add: pyget_def)
  note p = pyget_read_back record_optional_lookups record_lookups [THEN g] volatile_fields_def
  show "text_or (read_back r) ''subject_id'' = Inr (kr_subject_id r)" by (rule subject_lookup) (simp_all add: record_lookups)
  show "text_or (read_back r) ''subject_status'' = Inr (kr_subject_status r)" by (rule subject_lookup) (simp_all add: record_lookups)
  show "maybe_text (read_back r) ''valid_to'' = Inr (kr_valid_to r)" by (rule t) (simp add: p)
  show "maybe_text (read_back r) ''causes'' = Inr (kr_causes r)" by (rule t) (simp add: p)
  show "maybe_text (read_back r) ''supersedes'' = Inr (kr_supersedes r)" by (rule t) (simp add: p)
  show "maybe_text (read_back r) ''region'' = Inr (kr_region r)" by (rule t) (simp add: p)
  show "maybe_float (read_back r) ''confidence'' = Inr (kr_confidence r)" by (rule f) (simp add: p)
  show "maybe_float (read_back r) ''perturbation_strength'' = Inr (kr_perturbation_strength r)" by (rule f) (simp add: p)
  show "maybe_float (read_back r) ''energy_total_j'' = Inr (kr_energy_total_j r)" by (rule f) (simp add: p)
  show "maybe_float (read_back r) ''energy_per_token'' = Inr (kr_energy_per_token r)" by (rule f) (simp add: p)
  show "maybe_bool (read_back r) ''test_executed_success'' = Inr (kr_test_executed_success r)" by (rule b) (simp add: p)
qed

lemma typed_fields:
    "need_authority (read_back r) ''authority'' = Inr (kr_authority r)"
    "need_bool (read_back r) ''contains_sensitive_data'' = Inr (kr_contains_sensitive_data r)"
    "need_int (read_back r) ''token_count'' = Inr (kr_token_count r)"
    "texts_or_empty (read_back r) ''symbols'' = Inr (kr_symbols r)"
    "texts_or_empty (read_back r) ''evidence_ids'' = Inr (kr_evidence_ids r)"
    "text_or (read_back r) ''source_fact_id'' = Inr (kr_source_fact_id r)"
    "storable r \<Longrightarrow> pyget (read_back r) ''pattern_payload'' = kr_pattern_payload r"
proof -
  have g: "map_of d k = Some v \<Longrightarrow> pyget d k = v" for d k v by (simp add: pyget_def)
  have l: "texts_or_empty d k = Inr ts" if "pyget d k = PList (map PStr ts)" for d k ts
    using that by (cases ts) (simp_all add: texts_or_empty_def)
  show "need_authority (read_back r) ''authority'' = Inr (kr_authority r)"
    by (simp add: need_authority_def read_fields record_lookups volatile_fields_def)
  show "need_bool (read_back r) ''contains_sensitive_data'' = Inr (kr_contains_sensitive_data r)"
    by (simp add: need_bool_def read_fields record_lookups volatile_fields_def)
  show "need_int (read_back r) ''token_count'' = Inr (kr_token_count r)"
    by (simp add: need_int_def read_fields record_lookups volatile_fields_def)
  show "texts_or_empty (read_back r) ''symbols'' = Inr (kr_symbols r)"
    by (rule l) (simp add: pyget_def read_fields record_lookups volatile_fields_def comp_def)
  show "texts_or_empty (read_back r) ''evidence_ids'' = Inr (kr_evidence_ids r)"
  proof (cases "kr_evidence_ids r = []")
    case True
    then have "pyget (read_back r) ''evidence_ids'' = PNone" by (simp add: pyget_def read_back_lookup record_optional_lookups)
    with True show ?thesis by (simp add: texts_or_empty_def)
  next
    case False
    then show ?thesis by (intro l) (simp add: pyget_def read_fields record_optional_lookups volatile_fields_def comp_def)
  qed
  show "text_or (read_back r) ''source_fact_id'' = Inr (kr_source_fact_id r)"
    by (cases "kr_source_fact_id r = []") (simp_all add: text_or_def read_back_lookup record_optional_lookups volatile_fields_def)
  show "storable r \<Longrightarrow> pyget (read_back r) ''pattern_payload'' = kr_pattern_payload r"
    by (simp add: pyget_read_back record_optional_lookups volatile_fields_def storable_def)
qed

lemma read_back_record:
  assumes "storable r"
  shows "record_from_dict (read_back r)
    = Inr (r\<lparr>kr_knowledge_id := [], kr_content_hash := [], kr_valid_from := [], kr_observed_at := [], kr_indexed_at := []\<rparr>)"
  unfolding record_from_dict_def required_keys optional_fields typed_fields(1-6) typed_fields(7) [OF assms] bind_sum_simps
  by simp

text \<open>C26: what the consumer extracts from the pointer event and the artifact is the record the producer built, up to the
  times: valid from the event, observed when the record was (or when the event occurred), indexed at the consumer's
  clock. The event's hash is the hash of the artifact, so the consumer's verification passes.\<close>

theorem extracted_record_is_the_produced_one:
  assumes "storable r"
  shows "extract_record (record_to_event sha r operation reason ts) (record_to_artifact r) ts'
    = Inr (r\<lparr>kr_content_hash := sha (record_to_artifact r), kr_valid_from := ts,
        kr_observed_at := (if kr_observed_at r \<noteq> [] then kr_observed_at r else ts), kr_indexed_at := ts'\<rparr>)"
  by (simp add: extract_record_def artifact_loads [OF assms] read_back_record [OF assms] record_to_event_def)

definition sample_record :: "(string \<Rightarrow> string) \<Rightarrow> string \<Rightarrow> py_error + knowledge_record" where
  "sample_record sha ts = build_record_from_parts sha ''finding'' ''u'' ''l'' ''r'' ''rev'' MEASURED ''[M]'' ''two words''
     [ExtractorVersion ''v1'', SubjectId ''s'', Payload (PDict [(''claim'', PStr ''c''), (''support'', PInt 3)])] None ts"

theorem extracted_record_is_the_produced_one_witness:
  "\<exists>r. sample_record (\<lambda>s. CHR ''#'' # s) ''t0'' = Inr r
     \<and> extract_record (record_to_event (\<lambda>s. CHR ''#'' # s) r ''upsert'' [] ''t1'') (record_to_artifact r) ''t2''
         = Inr (r\<lparr>kr_valid_from := ''t1'', kr_indexed_at := ''t2''\<rparr>)"
proof -
  let ?sha = "\<lambda>s. CHR ''#'' # s"
  let ?d = "foldl (\<lambda>r x. set_field x r) (default_record ''finding'' ''u'' ''l'' ''r'' ''rev'' MEASURED ''[M]'' ''two words''
     (compute_entity_id ?sha ''r'' ''u'' ''l'') ''t0'')
     [ExtractorVersion ''v1'', SubjectId ''s'', Payload (PDict [(''claim'', PStr ''c''), (''support'', PInt 3)])]"
  define r where "r = identify ?sha ''rev'' ?d"
  then have r: "sample_record ?sha ''t0'' = Inr r"
    by (simp add: sample_record_def build_record_from_parts_def is_unknown_def Let_def)
  have "storable ?d" "kr_observed_at ?d = ''t0''" by (simp_all add: storable_def opt_printable_def default_record_def)
  then have st: "storable r" and h: "kr_content_hash r = ?sha (record_to_artifact r)" and o: "kr_observed_at r = ''t0''"
    unfolding r_def by (simp_all only: identify_facts identify_artifact storable_identify)
  have "r\<lparr>kr_content_hash := kr_content_hash r, kr_valid_from := ''t1'', kr_observed_at := kr_observed_at r, kr_indexed_at := ''t2''\<rparr>
      = r\<lparr>kr_valid_from := ''t1'', kr_indexed_at := ''t2''\<rparr>" by (cases r) simp
  then have "r\<lparr>kr_content_hash := ?sha (record_to_artifact r), kr_valid_from := ''t1'', kr_observed_at := kr_observed_at r, kr_indexed_at := ''t2''\<rparr>
      = r\<lparr>kr_valid_from := ''t1'', kr_indexed_at := ''t2''\<rparr>" by (simp only: h)
  with extracted_record_is_the_produced_one [OF st, of ?sha "''upsert''" "[]" "''t1''" "''t2''"] o r show ?thesis by simp
qed

end
