(* ===== verification/Registry_Log.thy ===== *)
theory Registry_Log
  imports Knowledge_Records
begin

text \<open>
  The knowledge registry log (\<open>registry_index.jsonl\<close>): the lines the registry worker appends for a record
  (scripts/kb_worker.py, the \<open>kb-registry-v1\<close> handler) and how a producer reads the log back
  (\<open>registry_head\<close> of knowledge/spec_ingestion.py and \<open>_registry_state_map\<close> of control/fact_ingestion.py).
  The log is a text; a file that cannot be read behaves as the empty text.
\<close>

section \<open>Reading\<close>

definition row_of :: "string \<Rightarrow> pydict option" where
  "row_of raw = (let line = py_strip raw in
     if line = [] then None else (case json_loads line of Some (PDict d) \<Rightarrow> Some d | _ \<Rightarrow> None))"

definition registry_rows :: "string \<Rightarrow> pydict list" where
  "registry_rows logged = List.map_filter row_of (splitlines logged)"

text \<open>
  What one pass over the rows of an entity collects: the ids in order of their first line, the latest line of
  each id, the superseded ids, and the fingerprints annotated with the prefix. \<open>registry_head\<close> and
  \<open>_registry_state_map\<close> run the same loop, for one entity and for all of them.
\<close>

record chain =
  ch_order :: "string list"
  ch_lines :: "(string \<times> pydict) list"
  ch_superseded :: "string set"
  ch_fingerprints :: "string set"

definition empty_chain :: chain where
  "empty_chain = \<lparr>ch_order = [], ch_lines = [], ch_superseded = {}, ch_fingerprints = {}\<rparr>"

definition reason_text :: "pydict \<Rightarrow> string" where
  "reason_text row = or_text (pyget row ''reason'') []"

definition fingerprint_from_reason :: "string \<Rightarrow> string \<Rightarrow> string" where
  "fingerprint_from_reason reason prefix = (if starts_with reason prefix then drop (length prefix) reason else [])"

definition put_line :: "string \<Rightarrow> pydict \<Rightarrow> (string \<times> pydict) list \<Rightarrow> (string \<times> pydict) list" where
  "put_line k row ls = (k, row) # filter (\<lambda>(k', _). k' \<noteq> k) ls"

text \<open>\<open>kid not in lines\<close> compares the raw value with the keys, which are texts.\<close>

definition note_row :: "string \<Rightarrow> pydict \<Rightarrow> chain \<Rightarrow> chain" where
  "note_row prefix row c =
     (let kid = pyget row ''knowledge_id''; k = py_str kid; s = pyget row ''supersedes'' in
      if \<not> truthy kid then c
      else c\<lparr>ch_superseded := ch_superseded c \<union> (if truthy s then {py_str s} else {})
               \<union> (if pyget row ''lifecycle_state'' = PStr ''superseded'' then {k} else {}),
             ch_order := (if kid \<in> PStr ` fst ` set (ch_lines c) then ch_order c else ch_order c @ [k]),
             ch_lines := put_line k row (ch_lines c),
             ch_fingerprints := ch_fingerprints c \<union> (if starts_with (reason_text row) prefix
               then {drop (length prefix) (reason_text row)} else {})\<rparr>)"

definition chain_of :: "string \<Rightarrow> string \<Rightarrow> pydict list \<Rightarrow> chain" where
  "chain_of prefix entity rows =
     foldl (\<lambda>c row. note_row prefix row c) empty_chain (filter (\<lambda>row. pyget row ''entity_id'' = PStr entity) rows)"

definition head_id :: "chain \<Rightarrow> string option" where
  "head_id c = List.find (\<lambda>k. k \<notin> ch_superseded c) (rev (ch_order c))"

definition line_of :: "chain \<Rightarrow> string \<Rightarrow> pydict" where
  "line_of c k = (case map_of (ch_lines c) k of None \<Rightarrow> [] | Some row \<Rightarrow> row)"

record head =
  rh_knowledge_id :: string
  rh_fingerprint :: string

definition registry_head :: "string \<Rightarrow> string \<Rightarrow> pydict list \<Rightarrow> head option" where
  "registry_head prefix entity rows =
     (let c = chain_of prefix entity rows in
      map_option (\<lambda>k. \<lparr>rh_knowledge_id = k, rh_fingerprint = fingerprint_from_reason (reason_text (line_of c k)) prefix\<rparr>) (head_id c))"

text \<open>The state of an entity for the guard against stale observations: the time of the head's own line (a text where
  the worker wrote it) and the registered fingerprints. Rows with an empty entity are skipped.\<close>

definition registry_state :: "string \<Rightarrow> string \<Rightarrow> pydict list \<Rightarrow> string \<times> string set" where
  "registry_state prefix entity rows =
     (if entity = [] then ([], {})
      else let c = chain_of prefix entity rows in
        ((case head_id c of None \<Rightarrow> [] | Some k \<Rightarrow> or_text (pyget (line_of c k) ''observed_at'') []), ch_fingerprints c))"

section \<open>Writing\<close>

definition lifecycle_state_for :: "string \<Rightarrow> string" where
  "lifecycle_state_for operation = (if operation = ''delete'' then ''tombstoned'' else ''current'')"

definition registration_row :: "knowledge_record \<Rightarrow> string \<Rightarrow> string \<Rightarrow> pydict" where
  "registration_row r operation reason =
     [(''knowledge_id'', PStr (kr_knowledge_id r)), (''entity_id'', PStr (kr_entity_id r)),
      (''source_type'', PStr (kr_source_type r)), (''logical_locator'', PStr (kr_logical_locator r)),
      (''source_uri'', PStr (kr_source_uri r)), (''lifecycle_state'', PStr (lifecycle_state_for operation)),
      (''observed_at'', PStr (kr_observed_at r)), (''indexed_at'', PStr (kr_indexed_at r)),
      (''supersedes'', opt_text (kr_supersedes r)), (''causes'', opt_text (kr_causes r)), (''reason'', PStr reason)]"

definition predecessor_row :: "knowledge_record \<Rightarrow> string \<Rightarrow> pydict" where
  "predecessor_row r predecessor =
     [(''knowledge_id'', PStr predecessor), (''entity_id'', PStr (kr_entity_id r)),
      (''lifecycle_state'', PStr ''superseded''), (''valid_to'', PStr (kr_valid_from r)),
      (''indexed_at'', PStr (kr_indexed_at r))]"

definition log_line :: "pydict \<Rightarrow> string" where
  "log_line row = json_dumps_plain (PDict row) @ [CHR 0x0A]"

definition handler_rows :: "knowledge_record \<Rightarrow> string \<Rightarrow> string \<Rightarrow> pydict list" where
  "handler_rows r operation reason =
     registration_row r operation reason
     # (case kr_supersedes r of
          Some p \<Rightarrow> if operation = ''supersede'' \<and> p \<noteq> [] then [predecessor_row r p] else []
        | None \<Rightarrow> [])"

definition registry_handler :: "knowledge_record \<Rightarrow> string \<Rightarrow> string \<Rightarrow> string \<Rightarrow> string" where
  "registry_handler r operation reason logged = logged @ concat (map log_line (handler_rows r operation reason))"

section \<open>A written line is read as its row\<close>

lemma lines_from_append: "lines_from cur (a @ CHR 0x0A # b) = lines_from cur (a @ [CHR 0x0A]) @ lines_from [] b"
  by (induction a arbitrary: cur) (auto simp: is_line_break_def)

lemma crlf_append: "crlf_to_lf (a @ CHR 0x0A # b) = crlf_to_lf (a @ [CHR 0x0A]) @ crlf_to_lf b"
proof (induction a)
  case (Cons c a)
  have "take 1 (a @ CHR 0x0A # b) = take 1 (a @ [CHR 0x0A])" by (cases a) auto
  with Cons show ?case by (simp del: take_append One_nat_def)
qed simp

lemma crlf_ends: "\<exists>a'. crlf_to_lf (a @ [CHR 0x0A]) = a' @ [CHR 0x0A]"
  by (induction a) (auto intro: exI [of _ "[]"])

lemma splitlines_append: "splitlines (a @ CHR 0x0A # b) = splitlines (a @ [CHR 0x0A]) @ splitlines b"
proof -
  obtain a' where "crlf_to_lf (a @ [CHR 0x0A]) = a' @ [CHR 0x0A]" using crlf_ends by blast
  then show ?thesis using crlf_append [of a b] lines_from_append [of "[]" a' "crlf_to_lf b"] by (simp add: splitlines_def)
qed

definition graphic :: "string \<Rightarrow> bool" where
  "graphic s \<longleftrightarrow> list_all (\<lambda>c. 32 \<le> (of_char c :: nat) \<and> of_char c \<le> (126 :: nat)) s"

lemma graphic_simps [simp]: "graphic []" "graphic (a @ b) \<longleftrightarrow> graphic a \<and> graphic b"
  "graphic (c # s) \<longleftrightarrow> 32 \<le> (of_char c :: nat) \<and> of_char c \<le> (126 :: nat) \<and> graphic s"
  by (auto simp: graphic_def)

lemma graphic_digits: "list_all is_digit s \<Longrightarrow> graphic s"
proof -
  have "list_all (\<lambda>c. 32 \<le> (of_char c :: nat) \<and> of_char c \<le> (126 :: nat)) ''0123456789''" by code_simp
  then show "list_all is_digit s \<Longrightarrow> graphic s" unfolding graphic_def list_all_iff is_digit_def by blast
qed

lemma graphic_hex: "m < 16 \<Longrightarrow> 32 \<le> (of_char (hex_digit m) :: nat) \<and> of_char (hex_digit m) \<le> (126 :: nat)"
proof -
  assume "m < 16"
  then have "m \<in> set [0..<16]" by simp
  moreover have "list_all (\<lambda>m. 32 \<le> (of_char (hex_digit m) :: nat) \<and> of_char (hex_digit m) \<le> (126 :: nat)) [0..<16]" by code_simp
  ultimately show ?thesis by (auto simp: list_all_iff)
qed

lemma graphic_json_char: "graphic (json_char c)"
proof -
  have "(of_char c :: nat) < 256" by (metis of_char_mod_256 mod_less_divisor zero_less_numeral)
  then have "(of_char c :: nat) div 16 < 16" by (intro less_mult_imp_div_less) simp
  then show ?thesis using graphic_hex [of "of_char c div 16"] graphic_hex [of "of_char c mod 16"] by (auto simp: json_char_def Let_def)
qed

lemma graphic_concat: "(\<And>x. x \<in> set xs \<Longrightarrow> graphic (f x)) \<Longrightarrow> graphic (concat (map f xs))"
  by (induction xs) auto

lemma graphic_comma_sep: "(\<And>x. x \<in> set xs \<Longrightarrow> graphic x) \<Longrightarrow> graphic (comma_sep xs)"
  by (induction xs rule: comma_sep.induct) auto

lemma graphic_json_string: "graphic (json_string s)"
  by (simp add: json_string_def graphic_concat graphic_json_char)

lemma graphic_show_int: "graphic (show_int i)"
  using graphic_digits show_nat_digits by (simp add: show_int_def)

lemma graphic_json_float: "graphic (json_float x)"
proof (cases x)
  case (Fin q)
  obtain i f where "repr_float (Fin q) = (if q < 0 then ''-'' else []) @ show_nat i @ CHR ''.'' # f" "list_all is_digit f"
    by (rule repr_float_parts)
  then show ?thesis using Fin graphic_digits show_nat_digits by (simp add: json_float_def del: repr_float.simps)
qed (simp_all add: json_float_def)

lemma graphic_dumps: "graphic (json_dumps_plain v)"
proof (induction v)
  case (PList xs)
  then show ?case by (auto simp: json_array_def intro!: graphic_comma_sep)
next
  case (PDict d)
  then show ?case by (auto intro!: graphic_comma_sep simp: graphic_json_string snds.simps)
qed (auto simp: graphic_json_string graphic_show_int graphic_json_float)

lemma graphic_one_line:
  assumes "graphic s" "s \<noteq> []"
  shows "splitlines (s @ [CHR 0x0A]) = [s]"
proof -
  have "crlf_to_lf (s @ [CHR 0x0A]) = s @ [CHR 0x0A]" using assms(1) by (induction s) auto
  moreover have "lines_from cur (s @ [CHR 0x0A]) = [rev cur @ s]" if "graphic s" for cur s
    using that by (induction s arbitrary: cur) (auto simp: is_line_break_def)
  ultimately show ?thesis using assms(1) by (simp add: splitlines_def)
qed

lemma row_of_dumps:
  assumes "json_plain (PDict row)"
  shows "row_of (json_dumps_plain (PDict row)) = Some row"
proof -
  have "py_strip (json_dumps_plain (PDict row)) = json_dumps_plain (PDict row)"
    by (rule strip_by_clean) (auto simp: py_space_def)
  then show ?thesis using json_loads_plain [OF assms] by (simp add: row_of_def del: json_plain.simps)
qed

text \<open>A log whose last line is complete, as every append leaves it.\<close>

definition complete_log :: "string \<Rightarrow> bool" where
  "complete_log logged \<longleftrightarrow> logged = [] \<or> last logged = CHR 0x0A"

lemma registry_rows_append:
  assumes "complete_log logged" "json_plain (PDict row)"
  shows "registry_rows (logged @ log_line row) = registry_rows logged @ [row]" "complete_log (logged @ log_line row)"
proof -
  have l: "splitlines (log_line row) = [json_dumps_plain (PDict row)]"
    unfolding log_line_def by (rule graphic_one_line [OF graphic_dumps]) simp
  have "splitlines (logged @ log_line row) = splitlines logged @ splitlines (log_line row)"
  proof (cases "logged = []")
    case True
    then show ?thesis by (simp add: splitlines_def)
  next
    case False
    then have "logged = butlast logged @ [CHR 0x0A]" using assms(1) append_butlast_last_id [of logged] by (simp add: complete_log_def)
    then obtain a where "logged = a @ [CHR 0x0A]" by blast
    then show ?thesis using splitlines_append [of a "log_line row"] by simp
  qed
  then show "registry_rows (logged @ log_line row) = registry_rows logged @ [row]"
    using l row_of_dumps [OF assms(2)] by (simp add: registry_rows_def map_filter_def del: json_plain.simps)
  show "complete_log (logged @ log_line row)" by (simp add: complete_log_def log_line_def)
qed

lemma handler_rows_plain: "row \<in> set (handler_rows r operation reason) \<Longrightarrow> json_plain (PDict row)"
  by (auto simp: handler_rows_def registration_row_def predecessor_row_def split: option.splits if_splits)

lemma registry_rows_handler:
  assumes "complete_log logged"
  shows "registry_rows (registry_handler r operation reason logged) = registry_rows logged @ handler_rows r operation reason"
    "complete_log (registry_handler r operation reason logged)"
proof -
  have "registry_rows (logged @ concat (map log_line rows)) = registry_rows logged @ rows \<and> complete_log (logged @ concat (map log_line rows))"
    if "\<forall>row \<in> set rows. json_plain (PDict row)" for rows
    using that
  proof (induction rows rule: rev_induct)
    case (snoc row rows)
    then have "registry_rows (logged @ concat (map log_line rows)) = registry_rows logged @ rows" "complete_log (logged @ concat (map log_line rows))"
      by auto
    with registry_rows_append [OF this(2), of row] snoc.prems show ?case by (simp del: json_plain.simps)
  qed (simp add: assms)
  then show "registry_rows (registry_handler r operation reason logged) = registry_rows logged @ handler_rows r operation reason"
    "complete_log (registry_handler r operation reason logged)"
    using handler_rows_plain unfolding registry_handler_def by blast+
qed

end
