(* ===== verification/Knowledge_Stream.thy ===== *)
theory Knowledge_Stream
  imports Registry_Log
begin

text \<open>
  The change stream of the knowledge plane (knowledge/knowledge_stream.py) and the batch loop of a consumer
  (\<open>process_batch\<close> of scripts/kb_worker.py). One consumer group of the Redis stream is modelled: its entries are
  numbered in order of arrival; the group has a position and a list of pending entries with their delivery counts.
  What the handlers write is the component \<open>sm_world\<close>. The environment flags and the clock are arguments.
\<close>

definition MAX_RETRIES :: nat where "MAX_RETRIES = 3"

definition CLAIM_BATCH :: nat where "CLAIM_BATCH = 100"

section \<open>The stream\<close>

type_synonym fields = "(string \<times> string) list"

record 'w stream =
  sm_entries :: "fields list"
  sm_index :: "string \<Rightarrow> string option"
  sm_dead :: "fields list"
  sm_position :: nat
  sm_pending :: "(nat \<times> nat) list"
  sm_world :: 'w

definition xadd :: "fields \<Rightarrow> 'w stream \<Rightarrow> nat \<times> 'w stream" where
  "xadd d s = (length (sm_entries s), s\<lparr>sm_entries := sm_entries s @ [d]\<rparr>)"

definition decode_event :: "fields \<Rightarrow> py_error + knowledge_event" where
  "decode_event d =
     (if get_or_empty d ''schema_version'' \<notin> {''kb/v1'', []} then Inl ValueError else event_from_dict d)"

section \<open>Publishing\<close>

datatype publish_error = NotAuthorized | NotArmed | NoObservation

definition resolves_to_observation :: "(string \<Rightarrow> string option) \<Rightarrow> string \<Rightarrow> bool" where
  "resolves_to_observation index knowledge_id =
     (case index knowledge_id of None \<Rightarrow> False | Some t \<Rightarrow> t \<noteq> [] \<and> message_family t = ''observation'')"

record environment =
  env_kb_write :: bool
  env_armed :: bool

definition publish_event ::
  "environment \<Rightarrow> bool \<Rightarrow> bool \<Rightarrow> string \<Rightarrow> knowledge_event \<Rightarrow> 'w stream \<Rightarrow> (publish_error + nat) \<times> 'w stream" where
  "publish_event env authorized armed source_type e s =
     (if \<not> authorized \<and> \<not> env_kb_write env then (Inl NotAuthorized, s)
      else if message_family source_type = ''actuation'' then
        (if \<not> armed \<and> \<not> env_armed env then (Inl NotArmed, s)
         else if ke_causes e = [] \<or> \<not> resolves_to_observation (sm_index s) (ke_causes e) then (Inl NoObservation, s)
         else apfst Inr (xadd (event_to_dict e) s))
      else
        (let s' = (if source_type \<noteq> [] then s\<lparr>sm_index := (sm_index s)(ke_knowledge_id e := Some source_type)\<rparr> else s)
         in apfst Inr (xadd (event_to_dict e) s')))"

text \<open>\<open>register_records\<close>: a connection that fails (\<open>reachable = False\<close>) and a publication that fails raise or are
  swallowed by \<open>fail_loud\<close>.\<close>

fun register_each ::
  "(string \<Rightarrow> string) \<Rightarrow> environment \<Rightarrow> string \<Rightarrow> bool \<Rightarrow> knowledge_record list \<Rightarrow> 'w stream \<Rightarrow> (publish_error + nat list) \<times> 'w stream" where
  "register_each sha env ts loud [] s = (Inr [], s)"
| "register_each sha env ts loud (r # rs) s =
     (case publish_event env True False (kr_source_type r) (record_to_event sha r ''upsert'' [] ts) s of
        (Inl e, s') \<Rightarrow> if loud then (Inl e, s') else register_each sha env ts loud rs s'
      | (Inr i, s') \<Rightarrow> (case register_each sha env ts loud rs s' of
            (Inl e, s'') \<Rightarrow> (Inl e, s'') | (Inr is, s'') \<Rightarrow> (Inr (i # is), s'')))"

datatype register_error = Unreachable | Refused publish_error

definition register_records ::
  "(string \<Rightarrow> string) \<Rightarrow> environment \<Rightarrow> string \<Rightarrow> bool \<Rightarrow> bool \<Rightarrow> knowledge_record list \<Rightarrow> 'w stream
     \<Rightarrow> (register_error + nat list) \<times> 'w stream" where
  "register_records sha env ts reachable loud rs s =
     (if \<not> reachable then (if loud then Inl Unreachable else Inr [], s)
      else apfst (map_sum Refused id) (register_each sha env ts loud rs s))"

fun reconcile_missing :: "environment \<Rightarrow> knowledge_event list \<Rightarrow> string set \<Rightarrow> 'w stream \<Rightarrow> (publish_error + nat list) \<times> 'w stream" where
  "reconcile_missing env [] known s = (Inr [], s)"
| "reconcile_missing env (e # es) known s =
     (if ke_knowledge_id e \<noteq> [] \<and> ke_knowledge_id e \<notin> known then
        (case publish_event env False False [] e s of
           (Inl x, s') \<Rightarrow> (Inl x, s')
         | (Inr i, s') \<Rightarrow> (case reconcile_missing env es known s' of
               (Inl x, s'') \<Rightarrow> (Inl x, s'') | (Inr is, s'') \<Rightarrow> (Inr (i # is), s'')))
      else reconcile_missing env es known s)"

section \<open>Consuming\<close>

definition acknowledge :: "nat list \<Rightarrow> 'w stream \<Rightarrow> nat \<times> 'w stream" where
  "acknowledge is s =
     (length (filter (\<lambda>(i, _). i \<in> set is) (sm_pending s)), s\<lparr>sm_pending := filter (\<lambda>(i, _). i \<notin> set is) (sm_pending s)\<rparr>)"

definition pending_count :: "'w stream \<Rightarrow> nat" where
  "pending_count s = length (sm_pending s)"

text \<open>\<open>XPENDING\<close> lists at most \<open>CLAIM_BATCH\<close> pending entries.\<close>

definition delivery_count :: "nat \<Rightarrow> 'w stream \<Rightarrow> nat" where
  "delivery_count i s = (case map_of (take CLAIM_BATCH (sm_pending s)) i of None \<Rightarrow> 0 | Some n \<Rightarrow> n)"

fun decode_all :: "(nat \<times> fields) list \<Rightarrow> py_error + (nat \<times> knowledge_event) list" where
  "decode_all [] = Inr []"
| "decode_all ((i, d) # ds) =
     bind_sum (decode_event d) (\<lambda>e. bind_sum (decode_all ds) (\<lambda>es. Inr ((i, e) # es)))"

definition with_fields :: "'w stream \<Rightarrow> nat list \<Rightarrow> (nat \<times> fields) list" where
  "with_fields s is = map (\<lambda>i. (i, sm_entries s ! i)) is"

text \<open>\<open>XREADGROUP >\<close>: the next undelivered entries become pending with one delivery.\<close>

definition read_events :: "nat \<Rightarrow> 'w stream \<Rightarrow> (py_error + (nat \<times> knowledge_event) list) \<times> 'w stream" where
  "read_events n s =
     (let is = take n [sm_position s ..< length (sm_entries s)]
      in (decode_all (with_fields s is),
          s\<lparr>sm_position := sm_position s + length is, sm_pending := sm_pending s @ map (\<lambda>i. (i, 1)) is\<rparr>))"

text \<open>\<open>XAUTOCLAIM\<close>: the first pending entries that have been idle long enough are delivered once more; which are idle
  is an argument.\<close>

definition claim_pending :: "(nat \<Rightarrow> bool) \<Rightarrow> 'w stream \<Rightarrow> (py_error + (nat \<times> knowledge_event) list) \<times> 'w stream" where
  "claim_pending idle s =
     (let is = take CLAIM_BATCH (filter idle (map fst (sm_pending s)))
      in (decode_all (with_fields s is),
          s\<lparr>sm_pending := map (\<lambda>(i, n). (i, if i \<in> set is then n + 1 else n)) (sm_pending s)\<rparr>))"

section \<open>Processing one entry\<close>

definition verify_content_hash :: "(string \<Rightarrow> string) \<Rightarrow> string \<Rightarrow> string \<Rightarrow> bool" where
  "verify_content_hash sha artifact expected \<longleftrightarrow> expected \<noteq> [] \<and> sha artifact = expected"

text \<open>A handler changes the world and may raise after having done so; it may ask for the operation.\<close>

datatype 'w handler =
    Simple "knowledge_record \<Rightarrow> 'w \<Rightarrow> py_error option \<times> 'w"
  | WithOperation "knowledge_record \<Rightarrow> string \<Rightarrow> string \<Rightarrow> 'w \<Rightarrow> py_error option \<times> 'w"

definition call_handler :: "'w handler \<Rightarrow> knowledge_event \<Rightarrow> knowledge_record \<Rightarrow> 'w \<Rightarrow> py_error option \<times> 'w" where
  "call_handler h e r w = (case h of Simple f \<Rightarrow> f r w | WithOperation f \<Rightarrow> f r (ke_operation e) (ke_reason e) w)"

datatype entry_outcome = Done | Retry | DeadLetter

record 'w consumer =
  co_sha :: "string \<Rightarrow> string"
  co_read :: "string \<Rightarrow> py_error + string"
  co_extract :: "knowledge_event \<Rightarrow> string \<Rightarrow> py_error + knowledge_record"
  co_handler :: "'w handler"

text \<open>The body of the \<open>try\<close>: the exception it ends with, if any, and the world after it.\<close>

definition attempt :: "'w consumer \<Rightarrow> knowledge_event \<Rightarrow> 'w \<Rightarrow> py_error option \<times> 'w" where
  "attempt c e w =
     (case co_read c (ke_source_uri e) of Inl x \<Rightarrow> (Some x, w)
      | Inr artifact \<Rightarrow>
          if \<not> verify_content_hash (co_sha c) artifact (ke_content_hash e) then (Some ValueError, w)
          else (case co_extract c e artifact of Inl x \<Rightarrow> (Some x, w) | Inr r \<Rightarrow> call_handler (co_handler c) e r w))"

fun error_name :: "py_error \<Rightarrow> string" where
  "error_name ValueError = ''ValueError''"
| "error_name TypeError = ''TypeError''"
| "error_name OverflowError = ''OverflowError''"
| "error_name AttributeError = ''AttributeError''"
| "error_name KeyError = ''KeyError''"

text \<open>The dead letter keeps the fields of the event, with the exception in place of its reason (the name of its class
  stands for its text).\<close>

definition dead_letter :: "string \<Rightarrow> string \<Rightarrow> knowledge_event \<Rightarrow> nat \<Rightarrow> 'w stream \<Rightarrow> 'w stream" where
  "dead_letter ts why e i s =
     s\<lparr>sm_dead := sm_dead s @ [event_to_dict (e\<lparr>ke_reason := why\<rparr>)
         @ [(''source_entry_id'', show_nat i), (''dead_lettered_at'', ts)]]\<rparr>"

definition process_entry :: "'w consumer \<Rightarrow> string \<Rightarrow> nat \<Rightarrow> knowledge_event \<Rightarrow> 'w stream \<Rightarrow> entry_outcome \<times> 'w stream" where
  "process_entry c ts i e s =
     (case attempt c e (sm_world s) of
        (Some x, w) \<Rightarrow>
          (let s' = s\<lparr>sm_world := w\<rparr> in
           if MAX_RETRIES \<le> delivery_count i s' then (DeadLetter, snd (acknowledge [i] (dead_letter ts (error_name x) e i s')))
           else (Retry, s'))
      | (None, w) \<Rightarrow> (Done, snd (acknowledge [i] (s\<lparr>sm_world := w\<rparr>))))"

section \<open>One batch of a worker\<close>

record batch_outcome =
  bo_processed :: nat
  bo_last_acked :: "nat option"
  bo_dead_lettered :: nat
  bo_retried :: nat

definition no_outcome :: batch_outcome where
  "no_outcome = \<lparr>bo_processed = 0, bo_last_acked = None, bo_dead_lettered = 0, bo_retried = 0\<rparr>"

definition fold_outcome :: "nat \<Rightarrow> entry_outcome \<Rightarrow> batch_outcome \<Rightarrow> batch_outcome" where
  "fold_outcome i r b =
     b\<lparr>bo_processed := bo_processed b + 1,
       bo_last_acked := (if r = Done \<or> r = DeadLetter then Some i else bo_last_acked b),
       bo_dead_lettered := bo_dead_lettered b + (if r = DeadLetter then 1 else 0),
       bo_retried := bo_retried b + (if r = Retry then 1 else 0)\<rparr>"

fun handle_all :: "'w consumer \<Rightarrow> string \<Rightarrow> (nat \<times> knowledge_event) list \<Rightarrow> batch_outcome \<times> 'w stream \<Rightarrow> batch_outcome \<times> 'w stream" where
  "handle_all c ts [] bs = bs"
| "handle_all c ts ((i, e) # es) (b, s) =
     (case process_entry c ts i e s of (r, s') \<Rightarrow> handle_all c ts es (fold_outcome i r b, s'))"

text \<open>An entry that does not decode ends the batch with its exception; what was claimed or read before stays pending.\<close>

definition process_batch :: "'w consumer \<Rightarrow> string \<Rightarrow> (nat \<Rightarrow> bool) \<Rightarrow> 'w stream \<Rightarrow> (py_error + batch_outcome) \<times> 'w stream" where
  "process_batch c ts idle s =
     (case claim_pending idle s of
        (Inl x, s1) \<Rightarrow> (Inl x, s1)
      | (Inr claimed, s1) \<Rightarrow>
          (case handle_all c ts claimed (no_outcome, s1) of
             (b, s2) \<Rightarrow>
               (case read_events CLAIM_BATCH s2 of
                  (Inl x, s3) \<Rightarrow> (Inl x, s3)
                | (Inr new, s3) \<Rightarrow> (case handle_all c ts new (b, s3) of (b', s4) \<Rightarrow> (Inr b', s4)))))"

end
