(* ===== verification/Fact_Ingestion.thy ===== *)
theory Fact_Ingestion
  imports Registry_Log
begin

text \<open>
  Producer-side fact ingestion (control/fact_ingestion.py): the record a fact becomes, the fingerprint that decides
  whether its value changed, and the derivation of the records that need registering against the registry log,
  for facts and for the retrieval projection of patterns. \<open>ts\<close> is the producer's clock.
\<close>

definition REASON_PREFIX :: string where
  "REASON_PREFIX = ''fact-content=''"

definition PATTERN_REASON_PREFIX :: string where
  "PATTERN_REASON_PREFIX = ''pattern-content=''"

section \<open>The record of a fact\<close>

definition fact_payload :: "canonical_fact \<Rightarrow> pydict" where
  "fact_payload f =
    [(''abstraction_level'', PStr (cf_level f)), (''evidence_ids'', PList (map PStr (cf_evidence_ids f))),
     (''expires_at'', opt_text (cf_expires_at f)), (''inputs_digest'', PStr (cf_inputs_digest f)),
     (''predicate'', PStr (cf_predicate f)), (''reducer_version'', PStr (cf_reducer_version f)),
     (''scope_path'', PStr (cf_scope_path f)), (''subject_id'', PStr (cf_subject_id f)),
     (''subject_type'', PStr (cf_subject_type f)), (''unit'', PStr (cf_unit f)), (''value'', PStr (cf_value f)),
     (''value_type'', PStr (cf_value_type f))]"

definition fact_text :: "canonical_fact \<Rightarrow> string" where
  "fact_text f = json_dumps (PDict (fact_payload f))"

definition PROVENANCE_KEYS :: "string set" where
  "PROVENANCE_KEYS = {''evidence_ids'', ''inputs_digest''}"

definition declarative :: "pydict \<Rightarrow> pydict" where
  "declarative payload = filter (\<lambda>(k, _). k \<notin> PROVENANCE_KEYS) payload"

definition fact_fingerprint :: "(string \<Rightarrow> string) \<Rightarrow> knowledge_record \<Rightarrow> py_error + string" where
  "fact_fingerprint sha r =
     (case json_loads (kr_text r) of
        Some (PDict payload) \<Rightarrow> Inr (sha (json_dumps (PDict (declarative payload))))
      | Some _ \<Rightarrow> Inl AttributeError | None \<Rightarrow> Inl ValueError)"

definition build_fact_record :: "(string \<Rightarrow> string) \<Rightarrow> canonical_fact \<Rightarrow> string option \<Rightarrow> string \<Rightarrow> py_error + knowledge_record" where
  "build_fact_record sha f supersedes ts =
     build_record_from_parts sha ''fact'' (fact_source_uri (cf_scope_type f) (cf_scope_id f) (cf_predicate f))
       (fact_logical_locator (cf_subject_type f) (cf_subject_id f) (cf_predicate f))
       (cf_repository_id f) (cf_source_revision f) (cf_authority f) (cf_evidence_class f) (fact_text f)
       [ExtractorVersion (cf_reducer_version f), Supersedes supersedes, ObservedAt (cf_observed_at f),
        ValidFrom (cf_valid_from f), ValidTo (cf_valid_to f)]
       (Some (cf_entity_id f)) ts"

definition fact_operation :: "knowledge_record \<Rightarrow> string" where
  "fact_operation r = (case kr_supersedes r of Some p \<Rightarrow> if p \<noteq> [] then ''supersede'' else ''upsert'' | None \<Rightarrow> ''upsert'')"

definition fact_reason :: "(string \<Rightarrow> string) \<Rightarrow> knowledge_record \<Rightarrow> py_error + string" where
  "fact_reason sha r = bind_sum (fact_fingerprint sha r) (\<lambda>fp. Inr (REASON_PREFIX @ fp))"

definition fact_event :: "(string \<Rightarrow> string) \<Rightarrow> knowledge_record \<Rightarrow> string \<Rightarrow> py_error + knowledge_event" where
  "fact_event sha r ts = bind_sum (fact_reason sha r) (\<lambda>reason. Inr (record_to_event sha r (fact_operation r) reason ts))"

definition finalize_fact :: "canonical_fact \<Rightarrow> knowledge_record \<Rightarrow> canonical_fact" where
  "finalize_fact f r = f\<lparr>cf_fact_id := kr_knowledge_id r\<rparr>"

section \<open>Deriving the records to register\<close>

text \<open>
  The state of the loop: the heads this batch has moved (\<open>pending_head\<close>), the records to emit and, for every
  fact, the id it is registered under (\<open>identity_out\<close>, in processing order).
\<close>

record derivation =
  dv_pending :: "string \<Rightarrow> head option"
  dv_records :: "knowledge_record list"
  dv_identity :: "(canonical_fact \<times> string) list"

definition start_derivation :: derivation where
  "start_derivation = \<lparr>dv_pending = (\<lambda>_. None), dv_records = [], dv_identity = []\<rparr>"

definition current_head :: "string \<Rightarrow> pydict list \<Rightarrow> derivation \<Rightarrow> string \<Rightarrow> head option" where
  "current_head prefix rows s e = (case dv_pending s e of Some h \<Rightarrow> Some h | None \<Rightarrow> registry_head prefix e rows)"

definition emit :: "canonical_fact \<Rightarrow> knowledge_record \<Rightarrow> string \<Rightarrow> derivation \<Rightarrow> derivation" where
  "emit f r fp s =
     s\<lparr>dv_pending := (dv_pending s)(kr_entity_id r := Some \<lparr>rh_knowledge_id = kr_knowledge_id r, rh_fingerprint = fp\<rparr>),
       dv_records := dv_records s @ [r], dv_identity := dv_identity s @ [(f, kr_knowledge_id r)]\<rparr>"

definition converge :: "canonical_fact \<Rightarrow> string \<Rightarrow> head \<Rightarrow> derivation \<Rightarrow> derivation" where
  "converge f e h s = s\<lparr>dv_pending := (dv_pending s)(e := Some h), dv_identity := dv_identity s @ [(f, rh_knowledge_id h)]\<rparr>"

text \<open>The guard: older than the registered head, with a value that is already registered.\<close>

definition stale_observation :: "pydict list \<Rightarrow> string \<Rightarrow> string \<Rightarrow> string \<Rightarrow> bool" where
  "stale_observation rows e observed_at fp =
     (case registry_state REASON_PREFIX e rows of
        (head_at, fingerprints) \<Rightarrow> head_at \<noteq> [] \<and> observed_at \<noteq> [] \<and> observed_at < head_at \<and> fp \<in> fingerprints)"

definition derive_fact ::
  "(string \<Rightarrow> string) \<Rightarrow> string \<Rightarrow> pydict list \<Rightarrow> canonical_fact \<Rightarrow> derivation \<Rightarrow> py_error + derivation" where
  "derive_fact sha ts rows f s =
     bind_sum (build_fact_record sha f None ts) (\<lambda>candidate.
     bind_sum (fact_fingerprint sha candidate) (\<lambda>fp.
       let e = kr_entity_id candidate in
       case current_head REASON_PREFIX rows s e of
         None \<Rightarrow> Inr (emit f candidate fp s)
       | Some h \<Rightarrow>
           if rh_fingerprint h \<noteq> [] \<and> rh_fingerprint h = fp then Inr (converge f e h s)
           else if rh_knowledge_id h = kr_knowledge_id candidate then Inr (converge f e h s)
           else if stale_observation rows e (cf_observed_at f) fp then Inr (converge f e h s)
           else bind_sum (build_fact_record sha f (Some (rh_knowledge_id h)) ts) (\<lambda>linked.
                bind_sum (fact_fingerprint sha linked) (\<lambda>fp'. Inr (emit f linked fp' s)))))"

fun derive_loop ::
  "(string \<Rightarrow> string) \<Rightarrow> string \<Rightarrow> pydict list \<Rightarrow> canonical_fact list \<Rightarrow> derivation \<Rightarrow> py_error + derivation" where
  "derive_loop sha ts rows [] s = Inr s"
| "derive_loop sha ts rows (f # fs) s = bind_sum (derive_fact sha ts rows f s) (derive_loop sha ts rows fs)"

definition derive_fact_records ::
  "(string \<Rightarrow> string) \<Rightarrow> string \<Rightarrow> string \<Rightarrow> canonical_fact list \<Rightarrow> py_error + (knowledge_record list \<times> (canonical_fact \<times> string) list)" where
  "derive_fact_records sha ts logged facts =
     bind_sum (derive_loop sha ts (registry_rows logged) (sort_key cf_observed_at facts) start_derivation)
       (\<lambda>s. Inr (dv_records s, dv_identity s))"

section \<open>The projection of patterns\<close>

text \<open>\<open>decode_pattern_payload\<close>, as the dictionary that \<open>asdict\<close> makes of the payload. The conditions of a payload
  are an iterable, which the tuple copies.\<close>

definition need_str :: "pydict \<Rightarrow> string \<Rightarrow> py_error + string" where
  "need_str d k = (case map_of d k of None \<Rightarrow> Inl KeyError | Some v \<Rightarrow> Inr (py_str v))"

definition maybe_number :: "pyval \<Rightarrow> py_error + pyval" where
  "maybe_number v = (case v of PNone \<Rightarrow> Inr PNone
     | PList _ \<Rightarrow> Inl TypeError | PDict _ \<Rightarrow> Inl TypeError
     | _ \<Rightarrow> (case float_of v of None \<Rightarrow> Inl ValueError | Some x \<Rightarrow> Inr (PFloat x)))"

definition decode_pattern_payload :: "string \<Rightarrow> py_error + pydict" where
  "decode_pattern_payload v =
     (case json_loads v of
        Some (PDict d) \<Rightarrow>
          bind_sum (need_str d ''claim'') (\<lambda>claim. bind_sum (need_str d ''population'') (\<lambda>population.
          bind_sum (iterate_or_empty (pyget d ''conditions'')) (\<lambda>conditions.
          bind_sum (case map_of d ''support'' of None \<Rightarrow> Inl KeyError | Some x \<Rightarrow> py_int x) (\<lambda>support.
          bind_sum (maybe_number (pyget d ''uncertainty'')) (\<lambda>uncertainty.
          bind_sum (need_str d ''validity_window'') (\<lambda>window. bind_sum (need_str d ''source_experiment'') (\<lambda>experiment.
            Inr [(''claim'', PStr claim), (''population'', PStr population), (''conditions'', PList conditions),
                 (''support'', PInt support), (''uncertainty'', uncertainty), (''validity_window'', PStr window),
                 (''source_experiment'', PStr experiment)])))))))
      | Some _ \<Rightarrow> Inl AttributeError | None \<Rightarrow> Inl ValueError)"

definition build_pattern_projection_record ::
  "(string \<Rightarrow> string) \<Rightarrow> canonical_fact \<Rightarrow> string \<Rightarrow> string option \<Rightarrow> string \<Rightarrow> py_error + knowledge_record" where
  "build_pattern_projection_record sha f source_fact_id supersedes ts =
     (if cf_predicate f \<noteq> ''pattern'' \<or> cf_reducer_version f \<noteq> ''pattern/v1'' then Inl ValueError
      else if cf_authority f \<noteq> DERIVED \<or> cf_evidence_class f \<noteq> ''[C]'' then Inl ValueError
      else bind_sum (decode_pattern_payload (cf_value f)) (\<lambda>payload.
        bind_sum (let i = (if source_fact_id \<noteq> [] then source_fact_id else cf_fact_id f) in
                  if i \<noteq> [] then Inr i else bind_sum (build_fact_record sha f None ts) (\<lambda>r. Inr (kr_knowledge_id r))) (\<lambda>source.
          build_record_from_parts sha ''pattern'' (''pattern:'' @ source)
            (fact_logical_locator (cf_subject_type f) (cf_subject_id f) (cf_predicate f))
            (cf_repository_id f) (cf_source_revision f) (cf_authority f) (cf_evidence_class f) (json_dumps (PDict payload))
            [ExtractorVersion ''pattern-projection/v1'', ValidFrom (cf_valid_from f), ValidTo (cf_valid_to f),
             ObservedAt (cf_observed_at f), Payload (PDict payload), SourceFactId source, EvidenceIds (cf_evidence_ids f),
             OutcomeId source, Supersedes supersedes]
            (Some (''pattern-projection:'' @ cf_entity_id f)) ts)))"

definition pattern_projection_reason :: "(string \<Rightarrow> string) \<Rightarrow> knowledge_record \<Rightarrow> string" where
  "pattern_projection_reason sha r = PATTERN_REASON_PREFIX @ sha (kr_text r)"

definition pattern_projection_event :: "(string \<Rightarrow> string) \<Rightarrow> knowledge_record \<Rightarrow> string \<Rightarrow> py_error + knowledge_event" where
  "pattern_projection_event sha r ts =
     (if kr_source_type r \<noteq> ''pattern'' then Inl ValueError
      else Inr (record_to_event sha r (fact_operation r) (pattern_projection_reason sha r) ts))"

text \<open>The derivation of projections has no guard against stale observations and keeps no identities of its own;
  \<open>identity\<close> gives the id a fact was registered under, if the caller has it.\<close>

definition derive_projection ::
  "(string \<Rightarrow> string) \<Rightarrow> string \<Rightarrow> pydict list \<Rightarrow> (canonical_fact \<Rightarrow> string) \<Rightarrow> canonical_fact \<Rightarrow> derivation \<Rightarrow> py_error + derivation" where
  "derive_projection sha ts rows identity f s =
     bind_sum (build_pattern_projection_record sha f (identity f) None ts) (\<lambda>candidate.
       let e = kr_entity_id candidate; fp = sha (kr_text candidate) in
       case current_head PATTERN_REASON_PREFIX rows s e of
         None \<Rightarrow> Inr (emit f candidate fp s)
       | Some h \<Rightarrow>
           if rh_fingerprint h = fp then Inr (converge f e h s)
           else if rh_knowledge_id h = kr_knowledge_id candidate then Inr (converge f e h s)
           else bind_sum (build_pattern_projection_record sha f (identity f) (Some (rh_knowledge_id h)) ts) (\<lambda>linked.
                Inr (emit f linked fp s)))"

fun projection_loop ::
  "(string \<Rightarrow> string) \<Rightarrow> string \<Rightarrow> pydict list \<Rightarrow> (canonical_fact \<Rightarrow> string) \<Rightarrow> canonical_fact list \<Rightarrow> derivation \<Rightarrow> py_error + derivation" where
  "projection_loop sha ts rows identity [] s = Inr s"
| "projection_loop sha ts rows identity (f # fs) s =
     bind_sum (derive_projection sha ts rows identity f s) (projection_loop sha ts rows identity fs)"

definition derive_pattern_projection_records ::
  "(string \<Rightarrow> string) \<Rightarrow> string \<Rightarrow> string \<Rightarrow> (canonical_fact \<Rightarrow> string) \<Rightarrow> canonical_fact list \<Rightarrow> py_error + knowledge_record list" where
  "derive_pattern_projection_records sha ts logged identity facts =
     bind_sum (projection_loop sha ts (registry_rows logged) identity (sort_key cf_observed_at facts) start_derivation)
       (\<lambda>s. Inr (dv_records s))"

section \<open>The worker registers an emitted record\<close>

text \<open>
  What one delivery does to the log: the record is written as an artifact and a pointer event, read back by the
  extractor and appended by the registry handler. \<open>ts\<close> is the producer's clock, \<open>ts'\<close> the worker's.
\<close>

definition register :: "(string \<Rightarrow> string) \<Rightarrow> string \<Rightarrow> string \<Rightarrow> knowledge_record \<Rightarrow> string \<Rightarrow> py_error + string" where
  "register sha ts ts' r logged =
     bind_sum (fact_event sha r ts) (\<lambda>e.
     bind_sum (extract_record e (record_to_artifact r) ts') (\<lambda>r'.
       Inr (registry_handler r' (ke_operation e) (ke_reason e) logged)))"

fun register_all :: "(string \<Rightarrow> string) \<Rightarrow> string \<Rightarrow> string \<Rightarrow> knowledge_record list \<Rightarrow> string \<Rightarrow> py_error + string" where
  "register_all sha ts ts' [] logged = Inr logged"
| "register_all sha ts ts' (r # rs) logged = bind_sum (register sha ts ts' r logged) (register_all sha ts ts' rs)"

end
