(* ===== verification/Ingestion_Facts.thy ===== *)
theory Ingestion_Facts
  imports Fact_Ingestion
begin

text \<open>
  What fact ingestion promises: a record's id does not depend on the clock, a derivation never fails, what it emits is
  one linked chain per entity, and deriving the same facts again over the log that holds those records emits nothing.
\<close>

section \<open>Records and fingerprints\<close>

lemma fact_payload_plain: "json_plain (PDict (fact_payload f))"
  by (simp add: fact_payload_def list_all_iff)

lemma fact_payload_sorted: "sort_keys (PDict (fact_payload f)) = PDict (fact_payload f)"
proof -
  have "sorted [''abstraction_level'', ''evidence_ids'', ''expires_at'', ''inputs_digest'', ''predicate'', ''reducer_version'',
    ''scope_path'', ''subject_id'', ''subject_type'', ''unit'', ''value'', ''value_type'']" by code_simp
  then have "sorted (map fst (fact_payload f))" by (simp only: fact_payload_def list.map fst_conv)
  moreover have "map (\<lambda>(k, v). (k, sort_keys v)) (fact_payload f) = fact_payload f" by (simp add: fact_payload_def)
  ultimately show ?thesis by (simp add: sort_key_id_if_sorted)
qed

definition content_fingerprint :: "(string \<Rightarrow> string) \<Rightarrow> canonical_fact \<Rightarrow> string" where
  "content_fingerprint sha f = sha (json_dumps (PDict (declarative (fact_payload f))))"

lemma fact_text_loads: "json_loads (fact_text f) = Some (PDict (fact_payload f))"
  using json_loads_dumps [OF fact_payload_plain, of f] by (simp add: fact_text_def fact_payload_sorted del: sort_keys.simps json_dumps.simps)

lemma fingerprint_of_fact: "kr_text r = fact_text f \<Longrightarrow> fact_fingerprint sha r = Inr (content_fingerprint sha f)"
  by (simp add: fact_fingerprint_def fact_text_loads content_fingerprint_def)

definition fact_record :: "(string \<Rightarrow> string) \<Rightarrow> canonical_fact \<Rightarrow> string option \<Rightarrow> string \<Rightarrow> knowledge_record" where
  "fact_record sha f supersedes ts = projr (build_fact_record sha f supersedes ts)"

lemma build_fact_ok: "build_fact_record sha f supersedes ts = Inr (fact_record sha f supersedes ts)"
  by (simp add: fact_record_def build_fact_record_def build_record_from_parts_def is_unknown_def Let_def)

lemma fact_record_fields:
  "kr_entity_id (fact_record sha f s ts) = cf_entity_id f" "kr_text (fact_record sha f s ts) = fact_text f"
  "kr_supersedes (fact_record sha f s ts) = s" "kr_observed_at (fact_record sha f s ts) = cf_observed_at f"
  "storable (fact_record sha f s ts)"
  by (simp_all add: fact_record_def build_fact_record_def build_record_from_parts_def is_unknown_def Let_def identify_facts
      default_record_def storable_def opt_printable_def identify_def)

text \<open>The id under which a fact is registered, given its predecessor.\<close>

definition fact_id :: "(string \<Rightarrow> string) \<Rightarrow> canonical_fact \<Rightarrow> string option \<Rightarrow> string" where
  "fact_id sha f supersedes = kr_knowledge_id (fact_record sha f supersedes [])"

lemma fact_record_id: "kr_knowledge_id (fact_record sha f s ts) = fact_id sha f s"
proof -
  let ?r = "\<lambda>ts. foldl (\<lambda>r x. set_field x r)
    (default_record ''fact'' (fact_source_uri (cf_scope_type f) (cf_scope_id f) (cf_predicate f))
       (fact_logical_locator (cf_subject_type f) (cf_subject_id f) (cf_predicate f)) (cf_repository_id f) (cf_source_revision f)
       (cf_authority f) (cf_evidence_class f) (fact_text f) (cf_entity_id f) ts)
    [ExtractorVersion (cf_reducer_version f), Supersedes s, ObservedAt (cf_observed_at f),
        ValidFrom (cf_valid_from f), ValidTo (cf_valid_to f)]"
  have f: "fact_record sha f s ts = identify sha (cf_source_revision f) (?r ts)" for ts
    by (simp add: fact_record_def build_fact_record_def build_record_from_parts_def is_unknown_def Let_def)
  have "?r ts = (?r [])\<lparr>kr_indexed_at := ts\<rparr>" by (simp add: default_record_def)
  then have a: "record_to_artifact (?r ts) = record_to_artifact (?r [])" by (metis artifact_ignores_volatile(5))
  have "kr_entity_id (?r ts) = kr_entity_id (?r [])" "kr_extractor_version (?r ts) = kr_extractor_version (?r [])"
    by (simp_all add: default_record_def)
  then show ?thesis unfolding fact_id_def f identify_facts(6) using a by (simp only:)
qed

lemma fact_id_sha: "\<exists>x. fact_id sha f s = sha x"
  by (auto simp: fact_id_def fact_record_def build_fact_record_def build_record_from_parts_def is_unknown_def Let_def identify_facts compute_knowledge_id_def)

section \<open>The derivation never fails\<close>

definition settled :: "(string \<Rightarrow> string) \<Rightarrow> pydict list \<Rightarrow> canonical_fact \<Rightarrow> head \<Rightarrow> bool" where
  "settled sha rows f h \<longleftrightarrow>
     (rh_fingerprint h \<noteq> [] \<and> rh_fingerprint h = content_fingerprint sha f) \<or> rh_knowledge_id h = fact_id sha f None
     \<or> stale_observation rows (cf_entity_id f) (cf_observed_at f) (content_fingerprint sha f)"

definition derive_step :: "(string \<Rightarrow> string) \<Rightarrow> string \<Rightarrow> pydict list \<Rightarrow> derivation \<Rightarrow> canonical_fact \<Rightarrow> derivation" where
  "derive_step sha ts rows s f =
     (case current_head REASON_PREFIX rows s (cf_entity_id f) of
        None \<Rightarrow> emit f (fact_record sha f None ts) (content_fingerprint sha f) s
      | Some h \<Rightarrow> if settled sha rows f h then converge f (cf_entity_id f) h s
          else emit f (fact_record sha f (Some (rh_knowledge_id h)) ts) (content_fingerprint sha f) s)"

lemma derive_fact_step: "derive_fact sha ts rows f s = Inr (derive_step sha ts rows s f)"
  by (simp add: derive_fact_def derive_step_def build_fact_ok fingerprint_of_fact fact_record_fields fact_record_id settled_def
      Let_def split: option.split)

lemma derive_loop_fold: "derive_loop sha ts rows fs s = Inr (foldl (derive_step sha ts rows) s fs)"
  by (induction fs arbitrary: s) (simp_all add: derive_fact_step)

definition derived :: "(string \<Rightarrow> string) \<Rightarrow> string \<Rightarrow> pydict list \<Rightarrow> canonical_fact list \<Rightarrow> derivation" where
  "derived sha ts rows fs = foldl (derive_step sha ts rows) start_derivation fs"

lemma derive_fact_records_ok:
  "derive_fact_records sha ts logged facts =
     Inr (dv_records (derived sha ts (registry_rows logged) (sort_key cf_observed_at facts)),
          dv_identity (derived sha ts (registry_rows logged) (sort_key cf_observed_at facts)))"
  by (simp add: derive_fact_records_def derive_loop_fold derived_def)

section \<open>Registering a fact record\<close>

definition text_fingerprint :: "(string \<Rightarrow> string) \<Rightarrow> knowledge_record \<Rightarrow> string" where
  "text_fingerprint sha r = (case fact_fingerprint sha r of Inr fp \<Rightarrow> fp | Inl _ \<Rightarrow> [])"

lemma text_fingerprint_record [simp]: "text_fingerprint sha (fact_record sha f s ts) = content_fingerprint sha f"
  by (simp add: text_fingerprint_def fingerprint_of_fact fact_record_fields)

definition delivered :: "(string \<Rightarrow> string) \<Rightarrow> string \<Rightarrow> string \<Rightarrow> knowledge_record \<Rightarrow> knowledge_record" where
  "delivered sha ts ts' r = r\<lparr>kr_content_hash := sha (record_to_artifact r), kr_valid_from := ts,
     kr_observed_at := (if kr_observed_at r \<noteq> [] then kr_observed_at r else ts), kr_indexed_at := ts'\<rparr>"

definition record_rows :: "(string \<Rightarrow> string) \<Rightarrow> string \<Rightarrow> string \<Rightarrow> knowledge_record \<Rightarrow> pydict list" where
  "record_rows sha ts ts' r =
     handler_rows (delivered sha ts ts' r) (fact_operation r) (REASON_PREFIX @ text_fingerprint sha r)"

definition is_fact_record :: "(string \<Rightarrow> string) \<Rightarrow> knowledge_record \<Rightarrow> bool" where
  "is_fact_record sha r \<longleftrightarrow> (\<exists>f s ts. r = fact_record sha f s ts)"

lemma read_produced:
  assumes "storable r"
  shows "extract_record (record_to_event sha r operation reason ts) (record_to_artifact r) ts' = Inr (delivered sha ts ts' r)"
  by (simp add: extract_record_def artifact_loads [OF assms] read_back_record [OF assms] record_to_event_def delivered_def)

lemma register_fact:
  assumes "is_fact_record sha r" "complete_log logged"
  obtains logged' where "register sha ts ts' r logged = Inr logged'"
    "registry_rows logged' = registry_rows logged @ record_rows sha ts ts' r" "complete_log logged'"
proof -
  obtain f s t where r: "r = fact_record sha f s t" using assms(1) by (auto simp: is_fact_record_def)
  have fp: "fact_fingerprint sha r = Inr (text_fingerprint sha r)"
    by (simp add: r fingerprint_of_fact fact_record_fields)
  have "storable r" by (simp add: r fact_record_fields)
  then have "register sha ts ts' r logged
      = Inr (registry_handler (delivered sha ts ts' r) (fact_operation r) (REASON_PREFIX @ text_fingerprint sha r) logged)"
    using read_produced by (simp add: register_def fact_event_def fact_reason_def fp record_to_event_def)
  then show thesis using that registry_rows_handler [OF assms(2)] by (simp add: record_rows_def)
qed

lemma register_all_facts:
  assumes "list_all (is_fact_record sha) rs" "complete_log logged"
  shows "\<exists>logged'. register_all sha ts ts' rs logged = Inr logged'
    \<and> registry_rows logged' = registry_rows logged @ concat (map (record_rows sha ts ts') rs) \<and> complete_log logged'"
  using assms
proof (induction rs arbitrary: logged)
  case (Cons r rs)
  obtain l where l: "register sha ts ts' r logged = Inr l" "registry_rows l = registry_rows logged @ record_rows sha ts ts' r" "complete_log l"
    using register_fact [of sha r logged ts ts'] Cons.prems by auto
  then show ?case using Cons.IH [of l] Cons.prems(1) by simp
qed simp

section \<open>The chain the log holds for an entity\<close>

lemma chain_append: "chain_of p e (rows @ rows') = foldl (\<lambda>c row. note_row p row c) (chain_of p e rows) (filter (\<lambda>row. pyget row ''entity_id'' = PStr e) rows')"
  by (simp add: chain_of_def)

lemma row_fields [simp]:
  "pyget (registration_row r operation reason) ''knowledge_id'' = PStr (kr_knowledge_id r)"
  "pyget (registration_row r operation reason) ''entity_id'' = PStr (kr_entity_id r)"
  "pyget (registration_row r operation reason) ''supersedes'' = opt_text (kr_supersedes r)"
  "pyget (registration_row r operation reason) ''lifecycle_state'' = PStr (lifecycle_state_for operation)"
  "pyget (registration_row r operation reason) ''observed_at'' = PStr (kr_observed_at r)"
  "pyget (registration_row r operation reason) ''reason'' = PStr reason"
  "pyget (predecessor_row r p) ''knowledge_id'' = PStr p" "pyget (predecessor_row r p) ''entity_id'' = PStr (kr_entity_id r)"
  "pyget (predecessor_row r p) ''supersedes'' = PNone" "pyget (predecessor_row r p) ''lifecycle_state'' = PStr ''superseded''"
  "pyget (predecessor_row r p) ''reason'' = PNone"
  by (simp_all add: registration_row_def predecessor_row_def pyget_def)

lemma delivered_fields [simp]:
  "kr_knowledge_id (delivered sha ts ts' r) = kr_knowledge_id r" "kr_entity_id (delivered sha ts ts' r) = kr_entity_id r"
  "kr_supersedes (delivered sha ts ts' r) = kr_supersedes r"
  "kr_observed_at (delivered sha ts ts' r) = (if kr_observed_at r \<noteq> [] then kr_observed_at r else ts)"
  by (simp_all add: delivered_def)

lemma record_rows_entity: "row \<in> set (record_rows sha ts ts' r) \<Longrightarrow> pyget row ''entity_id'' = PStr (kr_entity_id r)"
  by (auto simp: record_rows_def handler_rows_def split: option.splits if_splits)

text \<open>The log holds exactly the records \<open>rs\<close> of an entity, each linked to the one before.\<close>

definition holds_chain :: "(string \<Rightarrow> string) \<Rightarrow> chain \<Rightarrow> knowledge_record list \<Rightarrow> bool" where
  "holds_chain sha c rs \<longleftrightarrow> ch_order c = map kr_knowledge_id rs \<and> ch_superseded c = set (butlast (map kr_knowledge_id rs))
     \<and> fst ` set (ch_lines c) = set (map kr_knowledge_id rs)
     \<and> ch_fingerprints c = set (map (text_fingerprint sha) rs)
     \<and> (rs \<noteq> [] \<longrightarrow> reason_text (line_of c (kr_knowledge_id (last rs))) = REASON_PREFIX @ text_fingerprint sha (last rs)
          \<and> pyget (line_of c (kr_knowledge_id (last rs))) ''observed_at'' = PStr (kr_observed_at (last rs)))"

definition links_to :: "knowledge_record list \<Rightarrow> knowledge_record \<Rightarrow> bool" where
  "links_to rs r \<longleftrightarrow> kr_supersedes r = (if rs = [] then None else Some (kr_knowledge_id (last rs)))"

lemma starts_with_own_prefix [simp]: "starts_with (p @ s) p"
  by (simp add: starts_with_def)

lemma put_line_keys: "fst ` set (put_line k row ls) = insert k (fst ` set ls)"
  by (auto simp: put_line_def image_iff)

lemma put_line_lookup: "map_of (put_line k row ls) k' = (if k' = k then Some row else map_of ls k')"
proof -
  have "map_of (filter (\<lambda>(x, _). x \<noteq> k) ls) k' = (if k' = k then None else map_of ls k')"
    by (induction ls) auto
  then show ?thesis by (auto simp: put_line_def)
qed

lemma operation_state: "lifecycle_state_for (fact_operation r) = ''current''"
  by (auto simp: lifecycle_state_for_def fact_operation_def split: option.split)

lemma PStr_image: "PStr x \<in> PStr ` S \<longleftrightarrow> x \<in> S"
  by auto

lemma note_registration:
  assumes "kr_knowledge_id r \<noteq> []" "kr_knowledge_id r \<notin> fst ` set (ch_lines c)"
  shows "note_row REASON_PREFIX (registration_row (delivered sha ts ts' r) (fact_operation r) (REASON_PREFIX @ fp)) c
    = c\<lparr>ch_superseded := ch_superseded c \<union> (case kr_supersedes r of Some p \<Rightarrow> if p \<noteq> [] then {p} else {} | None \<Rightarrow> {}),
        ch_order := ch_order c @ [kr_knowledge_id r],
        ch_lines := put_line (kr_knowledge_id r) (registration_row (delivered sha ts ts' r) (fact_operation r) (REASON_PREFIX @ fp)) (ch_lines c),
        ch_fingerprints := insert fp (ch_fingerprints c)\<rparr>"
  using assms by (simp add: note_row_def Let_def PStr_image operation_state reason_text_def opt_text_def REASON_PREFIX_def split: option.split)

lemma note_predecessor:
  assumes "p \<noteq> []" "p \<in> fst ` set (ch_lines c)"
  shows "note_row REASON_PREFIX (predecessor_row r p) c
    = c\<lparr>ch_superseded := insert p (ch_superseded c), ch_lines := put_line p (predecessor_row r p) (ch_lines c)\<rparr>"
  using assms by (simp add: note_row_def Let_def PStr_image reason_text_def REASON_PREFIX_def starts_with_def)

lemma holds_chain_snoc:
  assumes c: "holds_chain sha c rs" and l: "links_to rs r"
    and k: "kr_knowledge_id r \<notin> set (map kr_knowledge_id rs)" "kr_knowledge_id r \<noteq> []" "list_all (\<lambda>r. kr_knowledge_id r \<noteq> []) rs"
    and o: "kr_observed_at r \<noteq> []"
  shows "holds_chain sha (foldl (\<lambda>c row. note_row REASON_PREFIX row c) c (record_rows sha ts ts' r)) (rs @ [r])"
proof -
  let ?row = "registration_row (delivered sha ts ts' r) (fact_operation r) (REASON_PREFIX @ text_fingerprint sha r)"
  have k': "kr_knowledge_id r \<notin> fst ` set (ch_lines c)" using c k(1) by (simp add: holds_chain_def)
  note reg = note_registration [OF k(2) k', of sha ts ts' "text_fingerprint sha r"]
  have row: "reason_text ?row = REASON_PREFIX @ text_fingerprint sha r" "pyget ?row ''observed_at'' = PStr (kr_observed_at r)"
    using o by (simp_all add: reason_text_def REASON_PREFIX_def)
  show ?thesis
  proof (cases "rs = []")
    case True
    then have "kr_supersedes r = None" using l by (simp add: links_to_def)
    then have rr: "record_rows sha ts ts' r = [?row]" by (simp add: record_rows_def handler_rows_def)
    show ?thesis unfolding rr using c True row \<open>kr_supersedes r = None\<close>
      by (simp add: reg holds_chain_def put_line_keys put_line_lookup line_of_def)
  next
    case False
    define p where "p = kr_knowledge_id (last rs)"
    have "p \<in> set (map kr_knowledge_id rs)" using False by (simp add: p_def)
    then have "p \<noteq> kr_knowledge_id r" "p \<in> fst ` set (ch_lines c)" "p \<noteq> []"
      using k c unfolding holds_chain_def list_all_iff by (metis, blast, metis imageE list.set_map)
    moreover have "kr_supersedes r = Some p" using l False by (simp add: links_to_def p_def)
    ultimately have p: "kr_supersedes r = Some p" "p \<noteq> []" "p \<in> fst ` set (ch_lines c)" "p \<noteq> kr_knowledge_id r" by simp_all
    then have rr: "record_rows sha ts ts' r = [?row, predecessor_row (delivered sha ts ts' r) p]"
      by (simp add: record_rows_def handler_rows_def fact_operation_def)
    let ?c1 = "note_row REASON_PREFIX ?row c"
    have "p \<in> fst ` set (ch_lines ?c1)" using p(3) by (simp add: reg put_line_keys)
    note pre = note_predecessor [OF p(2) this, of "delivered sha ts ts' r"]
    have b: "set (map kr_knowledge_id rs) = insert p (set (butlast (map kr_knowledge_id rs)))"
    proof -
      have "map kr_knowledge_id rs = butlast (map kr_knowledge_id rs) @ [p]"
        using False append_butlast_last_id [of "map kr_knowledge_id rs"] by (simp add: p_def last_map)
      then show ?thesis by (metis Un_insert_right list.simps(15) set_append sup_bot.right_neutral empty_set)
    qed
    show ?thesis unfolding rr foldl.simps pre
      using c False row p b
      by (auto simp: reg holds_chain_def put_line_keys put_line_lookup line_of_def butlast_append)
  qed
qed

text \<open>What the readers see in a log that holds a chain: its last record is the head.\<close>

definition head_of :: "(string \<Rightarrow> string) \<Rightarrow> knowledge_record list \<Rightarrow> head option" where
  "head_of sha rs = (if rs = [] then None
     else Some \<lparr>rh_knowledge_id = kr_knowledge_id (last rs), rh_fingerprint = text_fingerprint sha (last rs)\<rparr>)"

lemma fingerprint_of_reason [simp]: "fingerprint_from_reason (p @ fp) p = fp"
  by (simp add: fingerprint_from_reason_def)

lemma head_id_of_chain:
  assumes "holds_chain sha c rs" "distinct (map kr_knowledge_id rs)"
  shows "head_id c = (if rs = [] then None else Some (kr_knowledge_id (last rs)))"
proof (cases "rs = []")
  case True
  then show ?thesis using assms by (simp add: head_id_def holds_chain_def)
next
  case False
  then obtain ks k where ks: "map kr_knowledge_id rs = ks @ [k]" "k = kr_knowledge_id (last rs)"
    by (metis append_butlast_last_id last_map map_is_Nil_conv)
  then have "k \<notin> set ks" using assms(2) by simp
  moreover have "head_id c = List.find (\<lambda>x. x \<notin> set ks) (rev (ks @ [k]))"
    using assms(1) unfolding head_id_def holds_chain_def ks(1) butlast_snoc by simp
  ultimately show ?thesis using False ks(2) by simp
qed

lemma readers_of_chain:
  assumes "holds_chain sha (chain_of REASON_PREFIX e rows) rs" "distinct (map kr_knowledge_id rs)"
  shows "registry_head REASON_PREFIX e rows = head_of sha rs"
    "e \<noteq> [] \<Longrightarrow> rs \<noteq> [] \<Longrightarrow> registry_state REASON_PREFIX e rows = (kr_observed_at (last rs), text_fingerprint sha ` set rs)"
  using head_id_of_chain [OF assms] assms(1)
  by (auto simp: registry_head_def registry_state_def head_of_def holds_chain_def Let_def)

section \<open>Deriving again\<close>

text \<open>
  The facts of one batch, and the log it is derived against: the hash gives non-empty texts, no row of the log is
  about their entities, every fact has a time, and facts of one entity with the same time have the same content.
  Two facts whose records have the same id have the same content (no collision).
\<close>

definition fresh_batch :: "(string \<Rightarrow> string) \<Rightarrow> pydict list \<Rightarrow> canonical_fact list \<Rightarrow> bool" where
  "fresh_batch sha rows fs \<longleftrightarrow>
     (\<forall>f \<in> set fs. cf_entity_id f \<noteq> [] \<and> cf_observed_at f \<noteq> [] \<and> content_fingerprint sha f \<noteq> []
        \<and> (\<forall>row \<in> set rows. pyget row ''entity_id'' \<noteq> PStr (cf_entity_id f)))
     \<and> (\<forall>f \<in> set fs. \<forall>g \<in> set fs. cf_entity_id f = cf_entity_id g \<and> cf_observed_at f = cf_observed_at g
        \<longrightarrow> content_fingerprint sha f = content_fingerprint sha g)"

definition collision_free :: "(string \<Rightarrow> string) \<Rightarrow> canonical_fact list \<Rightarrow> bool" where
  "collision_free sha fs \<longleftrightarrow> (\<forall>f \<in> set fs. fact_id sha f None \<noteq> []
     \<and> (\<forall>g \<in> set fs. \<forall>s. fact_id sha g s \<noteq> [] \<and> (fact_id sha f None = fact_id sha g s \<longrightarrow> content_fingerprint sha f = content_fingerprint sha g)))"

abbreviation of_entity :: "string \<Rightarrow> knowledge_record list \<Rightarrow> knowledge_record list" where
  "of_entity e rs \<equiv> filter (\<lambda>r. kr_entity_id r = e) rs"

definition made_from :: "(string \<Rightarrow> string) \<Rightarrow> canonical_fact list \<Rightarrow> knowledge_record \<Rightarrow> bool" where
  "made_from sha fs r \<longleftrightarrow> (\<exists>f \<in> set fs. \<exists>s ts. r = fact_record sha f s ts)"

text \<open>The chain of each entity after the facts \<open>ps\<close>: linked, and every fact is in it, older than its last record
  or of the same content.\<close>

fun linked :: "knowledge_record list \<Rightarrow> knowledge_record list \<Rightarrow> bool" where
  "linked before [] \<longleftrightarrow> True"
| "linked before (r # rs) \<longleftrightarrow> links_to before r \<and> linked (before @ [r]) rs"

lemma linked_snoc: "linked before (rs @ [r]) \<longleftrightarrow> linked before rs \<and> links_to (before @ rs) r"
  by (induction rs arbitrary: before) auto

definition batch_inv :: "(string \<Rightarrow> string) \<Rightarrow> canonical_fact list \<Rightarrow> derivation \<Rightarrow> bool" where
  "batch_inv sha ps s \<longleftrightarrow>
     (\<forall>e. dv_pending s e = head_of sha (of_entity e (dv_records s)))
     \<and> (\<forall>e. linked [] (of_entity e (dv_records s)))
     \<and> list_all (made_from sha ps) (dv_records s)
     \<and> (\<forall>f \<in> set ps. let rs = of_entity (cf_entity_id f) (dv_records s) in
          rs \<noteq> [] \<and> content_fingerprint sha f \<in> text_fingerprint sha ` set rs
          \<and> (cf_observed_at f < kr_observed_at (last rs) \<or> content_fingerprint sha f = text_fingerprint sha (last rs)))"

lemma fresh_tie:
  "fresh_batch sha rows fs \<Longrightarrow> g \<in> set fs \<Longrightarrow> f \<in> set fs \<Longrightarrow> cf_entity_id g = cf_entity_id f \<Longrightarrow> cf_observed_at g = cf_observed_at f
     \<Longrightarrow> content_fingerprint sha g = content_fingerprint sha f"
  unfolding fresh_batch_def by blast

lemma emit_inv:
  assumes "batch_inv sha ps s" "links_to (of_entity (cf_entity_id f) (dv_records s)) (fact_record sha f pre ts)"
    and "\<And>g. g \<in> set ps \<Longrightarrow> cf_observed_at g \<le> cf_observed_at f"
    and tie: "\<And>g. g \<in> set ps \<Longrightarrow> cf_entity_id g = cf_entity_id f \<Longrightarrow> cf_observed_at g = cf_observed_at f
        \<Longrightarrow> content_fingerprint sha g = content_fingerprint sha f"
  shows "batch_inv sha (ps @ [f]) (emit f (fact_record sha f pre ts) (content_fingerprint sha f) s)"
proof -
  let ?r = "fact_record sha f pre ts" and ?s = "emit f (fact_record sha f pre ts) (content_fingerprint sha f) s"
  have recs: "of_entity e (dv_records ?s) = of_entity e (dv_records s) @ (if e = cf_entity_id f then [?r] else [])" for e
    by (simp add: emit_def fact_record_fields)
  have pend: "dv_pending ?s e = (if e = cf_entity_id f then Some \<lparr>rh_knowledge_id = kr_knowledge_id ?r, rh_fingerprint = content_fingerprint sha f\<rparr>
      else dv_pending s e)" for e by (simp add: emit_def fact_record_fields)
  have inv: "\<And>e. dv_pending s e = head_of sha (of_entity e (dv_records s))" "\<And>e. linked [] (of_entity e (dv_records s))"
    "list_all (made_from sha ps) (dv_records s)"
    using assms(1) by (simp_all add: batch_inv_def)
  have "dv_pending ?s e = head_of sha (of_entity e (dv_records ?s))" for e
    unfolding pend recs using inv(1) [of e] by (simp add: head_of_def)
  moreover have "linked [] (of_entity e (dv_records ?s))" for e
    unfolding recs using inv(2) [of e] assms(2) by (cases "e = cf_entity_id f") (simp_all add: linked_snoc)
  moreover have "list_all (made_from sha (ps @ [f])) (dv_records ?s)"
    using inv(3) by (auto simp: emit_def list_all_iff made_from_def)
  moreover have "let rs = of_entity (cf_entity_id g) (dv_records ?s) in
          rs \<noteq> [] \<and> content_fingerprint sha g \<in> text_fingerprint sha ` set rs
          \<and> (cf_observed_at g < kr_observed_at (last rs) \<or> content_fingerprint sha g = text_fingerprint sha (last rs))"
    if g: "g \<in> set (ps @ [f])" for g
  proof (cases "g = f")
    case True
    then show ?thesis by (simp add: recs Let_def)
  next
    case False
    then have gp: "g \<in> set ps" using g by simp
    then have old: "let rs = of_entity (cf_entity_id g) (dv_records s) in
          rs \<noteq> [] \<and> content_fingerprint sha g \<in> text_fingerprint sha ` set rs
          \<and> (cf_observed_at g < kr_observed_at (last rs) \<or> content_fingerprint sha g = text_fingerprint sha (last rs))"
      using assms(1) unfolding batch_inv_def by blast
    show ?thesis
    proof (cases "cf_entity_id g = cf_entity_id f")
      case True
      have "cf_observed_at g < cf_observed_at f \<or> content_fingerprint sha g = content_fingerprint sha f"
        using assms(3) [OF gp] tie [OF gp True] by (auto simp: order.order_iff_strict)
      then show ?thesis using old True by (simp add: recs Let_def fact_record_fields)
    qed (use old in \<open>simp add: recs\<close>)
  qed
  ultimately show ?thesis unfolding batch_inv_def by blast
qed

lemma no_rows_no_head:
  assumes "\<forall>row \<in> set rows. pyget row ''entity_id'' \<noteq> PStr e"
  shows "registry_head p e rows = None" "registry_state p e rows = ([], {})"
proof -
  have "filter (\<lambda>row. pyget row ''entity_id'' = PStr e) rows = []" using assms by (simp add: filter_empty_conv)
  then have "chain_of p e rows = empty_chain" by (simp add: chain_of_def)
  then show "registry_head p e rows = None" "registry_state p e rows = ([], {})"
    by (simp_all add: registry_head_def registry_state_def head_id_def empty_chain_def)
qed

lemma step_inv:
  assumes inv: "batch_inv sha ps s" and fresh: "fresh_batch sha rows fs" "collision_free sha fs" "set (ps @ [f]) \<subseteq> set fs"
    and le: "\<And>g. g \<in> set ps \<Longrightarrow> cf_observed_at g \<le> cf_observed_at f"
  shows "batch_inv sha (ps @ [f]) (derive_step sha ts rows s f)"
proof -
  let ?e = "cf_entity_id f"
  let ?rs = "of_entity ?e (dv_records s)"
  have f: "f \<in> set fs" using fresh(3) by simp
  have none: "registry_head REASON_PREFIX ?e rows = None" "registry_state REASON_PREFIX ?e rows = ([], {})"
    using fresh(1) f no_rows_no_head [of rows ?e] unfolding fresh_batch_def by blast+
  have tie: "content_fingerprint sha g = content_fingerprint sha f"
    if "g \<in> set ps" "cf_entity_id g = ?e" "cf_observed_at g = cf_observed_at f" for g
    by (rule fresh_tie [OF fresh(1) _ f that(2,3)]) (use that(1) fresh(3) in auto)
  have head: "current_head REASON_PREFIX rows s ?e = head_of sha ?rs"
    using inv none by (simp add: current_head_def batch_inv_def split: option.split)
  show ?thesis
  proof (cases "?rs = []")
    case True
    then have "derive_step sha ts rows s f = emit f (fact_record sha f None ts) (content_fingerprint sha f) s"
      by (simp add: derive_step_def head head_of_def)
    moreover have "links_to ?rs (fact_record sha f None ts)" using True by (simp add: links_to_def fact_record_fields)
    note new = emit_inv [OF inv this]
    ultimately show ?thesis by (simp only:) (intro new, erule le, erule (2) tie)
  next
    case False
    let ?h = "\<lparr>rh_knowledge_id = kr_knowledge_id (last ?rs), rh_fingerprint = text_fingerprint sha (last ?rs)\<rparr>"
    have h: "head_of sha ?rs = Some ?h" using False by (simp add: head_of_def)
    show ?thesis
    proof (cases "settled sha rows f ?h")
      case True
      have "last ?rs \<in> set (dv_records s)" using last_in_set [OF False] by simp
      then obtain g t u where g: "g \<in> set ps" "last ?rs = fact_record sha g t u"
        using inv by (auto simp: batch_inv_def list_all_iff made_from_def)
      have gf: "g \<in> set fs" using g(1) fresh(3) by auto
      have "content_fingerprint sha f = text_fingerprint sha (last ?rs)"
      proof -
        have "fact_id sha f None = fact_id sha g t \<Longrightarrow> content_fingerprint sha f = content_fingerprint sha g"
          using fresh(2) f gf unfolding collision_free_def by blast
        then show ?thesis using True none(2) g(2)
          by (auto simp: settled_def stale_observation_def fact_record_id)
      qed
      moreover have "text_fingerprint sha (last ?rs) \<in> text_fingerprint sha ` set ?rs" using last_in_set [OF False] by blast
      moreover have step: "derive_step sha ts rows s f = converge f ?e ?h s" using True h head by (simp add: derive_step_def)
      moreover have "dv_records (converge f ?e ?h s) = dv_records s" "dv_pending (converge f ?e ?h s) = (dv_pending s)(?e := Some ?h)"
        by (simp_all add: converge_def)
      moreover have "(dv_pending s)(?e := Some ?h) = dv_pending s" using inv h by (auto simp: batch_inv_def)
      moreover have "list_all (made_from sha (ps @ [f])) (dv_records s)"
        using inv by (auto simp: batch_inv_def list_all_iff made_from_def)
      ultimately show ?thesis using inv False unfolding batch_inv_def by (auto simp: Let_def)
    next
      case ns: False
      then have "derive_step sha ts rows s f
          = emit f (fact_record sha f (Some (kr_knowledge_id (last ?rs))) ts) (content_fingerprint sha f) s"
        using h head by (simp add: derive_step_def)
      moreover have "links_to ?rs (fact_record sha f (Some (kr_knowledge_id (last ?rs))) ts)"
        using False by (simp add: links_to_def fact_record_fields)
      note new = emit_inv [OF inv this]
      ultimately show ?thesis by (simp only:) (intro new, erule le, erule (2) tie)
    qed
  qed
qed

lemma derived_inv:
  assumes "fresh_batch sha rows fs" "collision_free sha fs" "set ps \<subseteq> set fs" "sorted (map cf_observed_at ps)"
  shows "batch_inv sha ps (derived sha ts rows ps)"
  using assms(3,4)
proof (induction ps rule: rev_induct)
  case Nil
  then show ?case by (simp add: derived_def batch_inv_def start_derivation_def head_of_def)
next
  case (snoc f ps)
  have "batch_inv sha ps (derived sha ts rows ps)" by (rule snoc.IH) (use snoc.prems in \<open>auto simp: sorted_append\<close>)
  from step_inv [OF this assms(1,2) snoc.prems(1)] snoc.prems(2) show ?case by (simp add: derived_def sorted_append)
qed

section \<open>The log after the records are registered\<close>

lemma made_fields:
  assumes "made_from sha fs r" "fresh_batch sha rows fs" "collision_free sha fs"
  shows "kr_knowledge_id r \<noteq> []" "kr_observed_at r \<noteq> []" "kr_entity_id r \<noteq> []" "is_fact_record sha r"
    "\<exists>f \<in> set fs. kr_entity_id r = cf_entity_id f \<and> kr_observed_at r = cf_observed_at f \<and> text_fingerprint sha r = content_fingerprint sha f"
proof -
  obtain f s ts where f: "f \<in> set fs" "r = fact_record sha f s ts" using assms(1) by (auto simp: made_from_def)
  show "kr_knowledge_id r \<noteq> []" using assms(3) f by (auto simp: collision_free_def fact_record_id)
  show "kr_observed_at r \<noteq> []" "kr_entity_id r \<noteq> []" using assms(2) f by (auto simp: fresh_batch_def fact_record_fields)
  show "is_fact_record sha r" using f by (auto simp: is_fact_record_def)
  show "\<exists>f \<in> set fs. kr_entity_id r = cf_entity_id f \<and> kr_observed_at r = cf_observed_at f \<and> text_fingerprint sha r = content_fingerprint sha f"
    using f by (auto simp: fact_record_fields)
qed

lemma holds_chain_empty: "holds_chain sha empty_chain []"
  by (simp add: holds_chain_def empty_chain_def)

lemma filter_all_or_none:
  "(\<And>x. x \<in> set xs \<Longrightarrow> P x) \<Longrightarrow> filter P xs = xs" "(\<And>x. x \<in> set xs \<Longrightarrow> \<not> P x) \<Longrightarrow> filter P xs = []"
  by (induction xs) auto

lemma filter_record_rows:
  "filter (\<lambda>row. pyget row ''entity_id'' = PStr e) (record_rows sha ts ts' r)
     = (if kr_entity_id r = e then record_rows sha ts ts' r else [])"
  using filter_all_or_none [of "record_rows sha ts ts' r" "\<lambda>row. pyget row ''entity_id'' = PStr e"] record_rows_entity by auto

lemma chain_after_records:
  assumes "\<forall>row \<in> set rows. pyget row ''entity_id'' \<noteq> PStr e"
    and "linked [] (of_entity e rs)" "distinct (map kr_knowledge_id rs)"
    and "list_all (\<lambda>r. kr_knowledge_id r \<noteq> [] \<and> kr_observed_at r \<noteq> []) rs"
  shows "holds_chain sha (chain_of REASON_PREFIX e (rows @ concat (map (record_rows sha ts ts') rs))) (of_entity e rs)"
  using assms(2-4)
proof (induction rs rule: rev_induct)
  case Nil
  have "filter (\<lambda>row. pyget row ''entity_id'' = PStr e) rows = []" using assms(1) by (simp add: filter_empty_conv)
  then show ?case by (simp add: chain_of_def holds_chain_empty)
next
  case (snoc r rs)
  let ?c = "chain_of REASON_PREFIX e (rows @ concat (map (record_rows sha ts ts') rs))"
  have c: "chain_of REASON_PREFIX e (rows @ concat (map (record_rows sha ts ts') (rs @ [r])))
      = (if kr_entity_id r = e then foldl (\<lambda>c row. note_row REASON_PREFIX row c) ?c (record_rows sha ts ts' r) else ?c)"
    using chain_append [of REASON_PREFIX e "rows @ concat (map (record_rows sha ts ts') rs)" "record_rows sha ts ts' r"]
    by (simp add: filter_record_rows)
  have prev: "linked [] (of_entity e rs)" using snoc.prems(1) by (cases "kr_entity_id r = e") (simp_all add: linked_snoc)
  have IH: "holds_chain sha ?c (of_entity e rs)" by (rule snoc.IH) (use snoc.prems prev in auto)
  show ?case
  proof (cases "kr_entity_id r = e")
    case True
    have "links_to (of_entity e rs) r" using snoc.prems(1) True by (simp add: linked_snoc)
    moreover have "kr_knowledge_id r \<notin> set (map kr_knowledge_id (of_entity e rs))" using snoc.prems(2) by auto
    ultimately show ?thesis using holds_chain_snoc [OF IH] snoc.prems(3) True c by (auto simp: list_all_iff)
  qed (use IH c in simp)
qed

text \<open>The hypotheses of one round: a batch derived against a log, and its records registered there.\<close>

definition registered_round ::
  "(string \<Rightarrow> string) \<Rightarrow> string \<Rightarrow> canonical_fact list \<Rightarrow> string \<Rightarrow> knowledge_record list \<Rightarrow> string \<Rightarrow> bool" where
  "registered_round sha ts fs logged rs logged' \<longleftrightarrow>
     complete_log logged \<and> fresh_batch sha (registry_rows logged) fs \<and> collision_free sha fs
     \<and> (\<exists>ids. derive_fact_records sha ts logged fs = Inr (rs, ids)) \<and> distinct (map kr_knowledge_id rs)
     \<and> (\<exists>t t'. register_all sha t t' rs logged = Inr logged')"

lemma made_from_sort [simp]: "made_from sha (sort_key k fs) = made_from sha fs"
  by (simp add: made_from_def fun_eq_iff)

lemma round_state:
  assumes "registered_round sha ts fs logged rs logged'" "f \<in> set fs"
  defines "own \<equiv> of_entity (cf_entity_id f) rs"
  shows "registry_head REASON_PREFIX (cf_entity_id f) (registry_rows logged') = head_of sha own"
    and "registry_state REASON_PREFIX (cf_entity_id f) (registry_rows logged') = (kr_observed_at (last own), text_fingerprint sha ` set own)"
    and "own \<noteq> []" "content_fingerprint sha f \<in> text_fingerprint sha ` set own"
    and "cf_observed_at f < kr_observed_at (last own) \<or> content_fingerprint sha f = text_fingerprint sha (last own)"
    and "kr_observed_at (last own) \<noteq> []"
    and "\<exists>g \<in> set fs. cf_entity_id g = cf_entity_id f \<and> cf_observed_at g = kr_observed_at (last own)"
proof -
  have fresh: "fresh_batch sha (registry_rows logged) fs" "collision_free sha fs" "complete_log logged" "distinct (map kr_knowledge_id rs)"
    using assms(1) by (auto simp: registered_round_def)
  let ?fs = "sort_key cf_observed_at fs"
  have rs: "rs = dv_records (derived sha ts (registry_rows logged) ?fs)"
    using assms(1) by (auto simp: registered_round_def derive_fact_records_ok)
  have inv: "batch_inv sha ?fs (derived sha ts (registry_rows logged) ?fs)"
    by (rule derived_inv [OF fresh(1,2)]) simp_all
  then have made: "list_all (made_from sha fs) rs" and linked: "linked [] own"
    and f: "own \<noteq> []" "content_fingerprint sha f \<in> text_fingerprint sha ` set own"
      "cf_observed_at f < kr_observed_at (last own) \<or> content_fingerprint sha f = text_fingerprint sha (last own)"
    using assms(2) unfolding batch_inv_def rs [symmetric] own_def Let_def by auto
  show "own \<noteq> []" "content_fingerprint sha f \<in> text_fingerprint sha ` set own"
      "cf_observed_at f < kr_observed_at (last own) \<or> content_fingerprint sha f = text_fingerprint sha (last own)" using f by blast+
  have fields: "list_all (\<lambda>r. kr_knowledge_id r \<noteq> [] \<and> kr_observed_at r \<noteq> []) rs" "list_all (is_fact_record sha) rs"
    using made made_fields [OF _ fresh(1,2)] unfolding list_all_iff by blast+
  obtain t t' where reg: "register_all sha t t' rs logged = Inr logged'" using assms(1) by (auto simp: registered_round_def)
  then have rows: "registry_rows logged' = registry_rows logged @ concat (map (record_rows sha t t') rs)"
    using register_all_facts [OF fields(2) fresh(3), of t t'] by auto
  have none: "\<forall>row \<in> set (registry_rows logged). pyget row ''entity_id'' \<noteq> PStr (cf_entity_id f)"
    and e: "cf_entity_id f \<noteq> []" using fresh(1) assms(2) by (auto simp: fresh_batch_def)
  have chain: "holds_chain sha (chain_of REASON_PREFIX (cf_entity_id f) (registry_rows logged')) own"
    unfolding rows own_def by (rule chain_after_records [OF none linked [unfolded own_def] fresh(4) fields(1)])
  have "distinct (map kr_knowledge_id own)" unfolding own_def using fresh(4) by (simp add: distinct_map_filter)
  from readers_of_chain [OF chain this] e f(1)
  show "registry_head REASON_PREFIX (cf_entity_id f) (registry_rows logged') = head_of sha own"
    "registry_state REASON_PREFIX (cf_entity_id f) (registry_rows logged') = (kr_observed_at (last own), text_fingerprint sha ` set own)"
    by simp_all
  have l: "last own \<in> set rs" "kr_entity_id (last own) = cf_entity_id f" using last_in_set [OF f(1)] by (simp_all add: own_def)
  then have "made_from sha fs (last own)" using made by (simp add: list_all_iff)
  from made_fields(2,5) [OF this fresh(1,2)] l(2)
  show "kr_observed_at (last own) \<noteq> []" "\<exists>g \<in> set fs. cf_entity_id g = cf_entity_id f \<and> cf_observed_at g = kr_observed_at (last own)"
    by auto
qed

lemma settled_again:
  assumes "registered_round sha ts fs logged rs logged'" "f \<in> set fs" "head_of sha (of_entity (cf_entity_id f) rs) = Some h"
  shows "settled sha (registry_rows logged') f h"
proof -
  note r = round_state [OF assms(1,2)]
  have fresh: "cf_observed_at f \<noteq> []" "content_fingerprint sha f \<noteq> []"
    using assms(1,2) unfolding registered_round_def fresh_batch_def by blast+
  have h: "rh_fingerprint h = text_fingerprint sha (last (of_entity (cf_entity_id f) rs))"
    using assms(3) by (auto simp: head_of_def split: if_splits)
  from r(5) show ?thesis
  proof
    assume "cf_observed_at f < kr_observed_at (last (of_entity (cf_entity_id f) rs))"
    then have "stale_observation (registry_rows logged') (cf_entity_id f) (cf_observed_at f) (content_fingerprint sha f)"
      unfolding stale_observation_def r(2) using r(4,6) fresh by simp
    then show ?thesis by (simp add: settled_def)
  next
    assume "content_fingerprint sha f = text_fingerprint sha (last (of_entity (cf_entity_id f) rs))"
    then show ?thesis using h fresh by (simp add: settled_def)
  qed
qed

lemma second_pass:
  assumes round: "registered_round sha ts fs logged rs logged'" and "set gs \<subseteq> set fs"
    and "\<And>e h. dv_pending s e = Some h \<Longrightarrow> head_of sha (of_entity e rs) = Some h"
  shows "dv_records (foldl (derive_step sha ts' (registry_rows logged')) s gs) = dv_records s"
  using assms(2,3)
proof (induction gs arbitrary: s)
  case (Cons g gs)
  have g: "g \<in> set fs" using Cons.prems(1) by simp
  note r = round_state [OF round g]
  obtain h where h: "head_of sha (of_entity (cf_entity_id g) rs) = Some h" using r(3) by (simp add: head_of_def)
  have "current_head REASON_PREFIX (registry_rows logged') s (cf_entity_id g) = Some h"
    using Cons.prems(2) [of "cf_entity_id g"] r(1) h by (cases "dv_pending s (cf_entity_id g)") (auto simp: current_head_def)
  then have step: "derive_step sha ts' (registry_rows logged') s g = converge g (cf_entity_id g) h s"
    using settled_again [OF round g h] by (simp add: derive_step_def)
  have "dv_records (foldl (derive_step sha ts' (registry_rows logged')) (converge g (cf_entity_id g) h s) gs) = dv_records (converge g (cf_entity_id g) h s)"
  proof (rule Cons.IH)
    fix e k assume "dv_pending (converge g (cf_entity_id g) h s) e = Some k"
    then show "head_of sha (of_entity e rs) = Some k"
      using Cons.prems(2) [of e k] h by (auto simp: converge_def split: if_splits)
  qed (use Cons.prems(1) in simp)
  then show ?case unfolding foldl.simps step by (simp add: converge_def)
qed simp

text \<open>When the ids cannot collide: an injective hash, and facts of one slot made by one reducer at one revision.\<close>

lemma fact_id_injective:
  assumes "inj sha" "cf_entity_id f = cf_entity_id g" "cf_source_revision f = cf_source_revision g"
    "cf_reducer_version f = cf_reducer_version g" "fact_id sha f s = fact_id sha g t"
  shows "fact_text f = fact_text g"
proof -
  have id: "fact_id sha f s = compute_knowledge_id sha (cf_entity_id f) (cf_source_revision f)
      (sha (record_to_artifact (fact_record sha f s []))) (cf_reducer_version f)" for f s
    by (simp add: fact_id_def fact_record_def build_fact_record_def build_record_from_parts_def is_unknown_def Let_def identify_facts
        default_record_def)
  have "sha (record_to_artifact (fact_record sha f s [])) = sha (record_to_artifact (fact_record sha g t []))"
    using assms(2-5) injD [OF assms(1)] unfolding id compute_knowledge_id_def by fastforce
  then have "record_to_artifact (fact_record sha f s []) = record_to_artifact (fact_record sha g t [])" by (rule injD [OF assms(1)])
  then have "read_back (fact_record sha f s []) = read_back (fact_record sha g t [])"
    using artifact_loads [OF fact_record_fields(5), of sha f s "[]"] artifact_loads [OF fact_record_fields(5), of sha g t "[]"] by simp
  then show ?thesis using required_keys(17) [of "fact_record sha f s []"] required_keys(17) [of "fact_record sha g t []"]
    by (simp add: fact_record_fields)
qed

lemma collision_free_slot:
  assumes "inj sha" "\<And>x. sha x \<noteq> []"
    and "\<And>f g. f \<in> set fs \<Longrightarrow> g \<in> set fs \<Longrightarrow> cf_entity_id f = cf_entity_id g \<and> cf_source_revision f = cf_source_revision g
       \<and> cf_reducer_version f = cf_reducer_version g"
  shows "collision_free sha fs"
proof -
  have "fact_id sha f s \<noteq> []" for f s using fact_id_sha [of sha f s] assms(2) by metis
  moreover have "content_fingerprint sha f = content_fingerprint sha g"
    if "f \<in> set fs" "g \<in> set fs" "fact_id sha f None = fact_id sha g s" for f g s
  proof -
    have "fact_text f = fact_text g" using fact_id_injective [OF assms(1) _ _ _ that(3)] assms(3) [OF that(1,2)] by blast
    then have "fact_payload f = fact_payload g" using fact_text_loads [of f] fact_text_loads [of g] by simp
    then show ?thesis by (simp add: content_fingerprint_def)
  qed
  ultimately show ?thesis unfolding collision_free_def by blast
qed

definition sample_job_fact :: "string \<Rightarrow> string \<Rightarrow> canonical_fact" where
  "sample_job_fact v t =
     \<lparr>cf_entity_id = ''e'', cf_fact_id = [], cf_subject_type = ''job'', cf_subject_id = ''c'', cf_predicate = ''job_status'',
      cf_value = v, cf_value_type = ''enum'', cf_unit = [], cf_scope_type = ''job'', cf_scope_id = ''c'',
      cf_scope_path = ''org:r/workload:w/job:c'', cf_level = ''job'', cf_epistemic_status = ''observed'', cf_authority = MEASURED,
      cf_evidence_class = ''[M]'', cf_observed_at = t, cf_valid_from = t, cf_valid_to = None, cf_expires_at = None,
      cf_reducer = ''job_facts'', cf_reducer_version = ''job_facts/v1'', cf_evidence_ids = [t], cf_inputs_digest = t,
      cf_supersedes = None, cf_source_revision = ''r1'', cf_repository_id = ''r'', cf_lifecycle = ''current''\<rparr>"

definition plain_hash :: "string \<Rightarrow> string" where
  "plain_hash s = CHR ''#'' # s"

definition two_runs_of_a_cell :: "canonical_fact list" where
  "two_runs_of_a_cell = [sample_job_fact ''failed'' ''2026-03-02'', sample_job_fact ''ok'' ''2026-03-01'']"

lemma sample_fields [simp]:
  "cf_entity_id (sample_job_fact v t) = ''e''" "cf_observed_at (sample_job_fact v t) = t" "cf_source_revision (sample_job_fact v t) = ''r1''"
  "cf_reducer_version (sample_job_fact v t) = ''job_facts/v1''"
  by (simp_all add: sample_job_fact_def)

lemma sorted_dict_entries:
  assumes "sort_keys (PDict a) = sort_keys (PDict b)"
  shows "set (map (\<lambda>(k, v). (k, sort_keys v)) a) = set (map (\<lambda>(k, v). (k, sort_keys v)) b)"
proof -
  have "set (sort_key fst (map (\<lambda>(k, v). (k, sort_keys v)) a)) = set (sort_key fst (map (\<lambda>(k, v). (k, sort_keys v)) b))"
    using assms by simp
  then show ?thesis by (simp only: set_sort)
qed

lemma sample_contents: "content_fingerprint plain_hash (sample_job_fact ''ok'' t) \<noteq> content_fingerprint plain_hash (sample_job_fact ''failed'' u)"
proof
  let ?d = "\<lambda>v t. PDict (declarative (fact_payload (sample_job_fact v t)))"
  have p: "json_plain (?d v t)" for v t by (simp add: fact_payload_def declarative_def PROVENANCE_KEYS_def)
  assume "content_fingerprint plain_hash (sample_job_fact ''ok'' t) = content_fingerprint plain_hash (sample_job_fact ''failed'' u)"
  then have "json_dumps (?d ''ok'' t) = json_dumps (?d ''failed'' u)"
    by (simp add: content_fingerprint_def plain_hash_def del: json_dumps.simps)
  then have s: "sort_keys (?d ''ok'' t) = sort_keys (?d ''failed'' u)"
    using json_loads_dumps [OF p, of "''ok''" t] json_loads_dumps [OF p, of "''failed''" u] by simp
  have "(''value'', PStr ''ok'') \<in> set (declarative (fact_payload (sample_job_fact ''ok'' t)))"
    "(''value'', PStr ''ok'') \<notin> set (map (\<lambda>(k, v). (k, sort_keys v)) (declarative (fact_payload (sample_job_fact ''failed'' u))))"
    by (simp_all add: fact_payload_def declarative_def PROVENANCE_KEYS_def sample_job_fact_def opt_text_def)
  moreover have "set (map (\<lambda>(k, v). (k, sort_keys v)) (declarative (fact_payload (sample_job_fact ''ok'' t))))
      = set (map (\<lambda>(k, v). (k, sort_keys v)) (declarative (fact_payload (sample_job_fact ''failed'' u))))"
    by (rule sorted_dict_entries [OF s])
  ultimately show False by force
qed

lemma sample_collision_free: "collision_free plain_hash two_runs_of_a_cell"
  by (rule collision_free_slot) (auto simp: plain_hash_def inj_def two_runs_of_a_cell_def)

lemma sample_round: "\<exists>rs l. registered_round plain_hash ''t'' two_runs_of_a_cell [] rs l \<and> length rs = 2"
proof -
  let ?a = "sample_job_fact ''ok'' ''2026-03-01''" and ?b = "sample_job_fact ''failed'' ''2026-03-02''"
  have sort: "sort_key cf_observed_at two_runs_of_a_cell = [?a, ?b]"
  proof -
    have "''2026-03-01'' < ''2026-03-02''" by code_simp
    then show ?thesis by (simp add: two_runs_of_a_cell_def)
  qed
  have ids: "fact_id plain_hash ?b None \<noteq> fact_id plain_hash ?a None" "fact_id plain_hash ?a None \<noteq> fact_id plain_hash ?b s" for s
    using sample_collision_free sample_contents unfolding collision_free_def two_runs_of_a_cell_def by (metis list.set_intros)+
  have none: "registry_head REASON_PREFIX ''e'' [] = None" "registry_state REASON_PREFIX ''e'' [] = ([], {})"
    using no_rows_no_head [of "[]"] by simp_all
  define d where "d = derived plain_hash ''t'' [] [?a, ?b]"
  have rec: "dv_records d = [fact_record plain_hash ?a None ''t'', fact_record plain_hash ?b (Some (fact_id plain_hash ?a None)) ''t'']"
    using ids sample_contents [of "''2026-03-01''" "''2026-03-02''"] none
    by (simp add: d_def derived_def derive_step_def current_head_def start_derivation_def emit_def fact_record_fields fact_record_id
        settled_def stale_observation_def)
  have fresh: "fresh_batch plain_hash [] two_runs_of_a_cell"
    by (simp add: fresh_batch_def two_runs_of_a_cell_def content_fingerprint_def plain_hash_def)
  have dist: "distinct (map kr_knowledge_id (dv_records d))" unfolding rec using ids(2) by (simp add: fact_record_id)
  have facts: "list_all (is_fact_record plain_hash) (dv_records d)" unfolding rec by (auto simp: is_fact_record_def)
  obtain l where "register_all plain_hash ''t'' ''t'' (dv_records d) [] = Inr l"
    using register_all_facts [OF facts, of "[]" "''t''" "''t''"] by (auto simp: complete_log_def)
  moreover have "derive_fact_records plain_hash ''t'' [] two_runs_of_a_cell = Inr (dv_records d, dv_identity d)"
    by (simp add: derive_fact_records_ok sort d_def registry_rows_def splitlines_def map_filter_def)
  moreover have "registry_rows [] = []" by (simp add: registry_rows_def splitlines_def map_filter_def)
  ultimately have "registered_round plain_hash ''t'' two_runs_of_a_cell [] (dv_records d) l"
    unfolding registered_round_def using fresh sample_collision_free dist by (auto simp: complete_log_def)
  then show ?thesis using rec by (intro exI [of _ "dv_records d"]) auto
qed





text \<open>The condition on times is needed. Two contents of one slot observed at the same time are registered again by every
  pass: the first is no longer the head and not older than it, so it supersedes the head, and then the second supersedes
  it.\<close>

lemma tied_contents_register_again:
  assumes "registry_head REASON_PREFIX (cf_entity_id a) rows = Some h"
    and "fst (registry_state REASON_PREFIX (cf_entity_id a) rows) = cf_observed_at a"
    and "cf_entity_id b = cf_entity_id a" "cf_observed_at b = cf_observed_at a"
    and "rh_fingerprint h = content_fingerprint sha b" "content_fingerprint sha a \<noteq> content_fingerprint sha b"
    and "rh_knowledge_id h \<noteq> fact_id sha a None" "\<And>s. fact_id sha a s \<noteq> fact_id sha b None"
  shows "dv_records (derived sha ts rows [a, b]) =
    [fact_record sha a (Some (rh_knowledge_id h)) ts,
     fact_record sha b (Some (fact_id sha a (Some (rh_knowledge_id h)))) ts]"
proof -
  have n: "\<not> stale_observation rows (cf_entity_id a) (cf_observed_at a) fp" for fp
    using assms(2) by (auto simp: stale_observation_def split: prod.splits)
  have a: "derive_step sha ts rows start_derivation a
      = emit a (fact_record sha a (Some (rh_knowledge_id h)) ts) (content_fingerprint sha a) start_derivation"
    using assms(1,5-7) n by (simp add: derive_step_def current_head_def start_derivation_def settled_def)
  show ?thesis unfolding derived_def foldl.simps a
    using assms(3,4,6,8) n
    by (simp add: derive_step_def current_head_def emit_def fact_record_fields fact_record_id settled_def start_derivation_def)
qed

end
