(* ===== verification/Stream_Facts.thy ===== *)
theory Stream_Facts
  imports Knowledge_Stream Ingestion_Facts
begin

text \<open>
  What the change stream guarantees: an actuation is armed and cites an earlier observation, an entry leaves the pending
  list only when its handler finished or it was dead-lettered, redelivery of a failing entry ends, and the facts a producer
  derives reach the registry log. Two limits are theorems as well: an entry that does not decode is never removed, and one
  behind a hundred others is never dead-lettered.
\<close>

section \<open>Actuations\<close>

text \<open>The accepted publications so far, with their source type and the \<open>armed\<close> argument; everything else that happens
  to the stream leaves the index of source types alone.\<close>

inductive traffic :: "environment \<Rightarrow> (string \<times> bool \<times> knowledge_event) list \<Rightarrow> 'w stream \<Rightarrow> bool" for env where
  start: "\<forall>k. sm_index s k = None \<Longrightarrow> traffic env [] s"
| accepted: "traffic env tr s \<Longrightarrow> publish_event env au ar t e s = (Inr i, s') \<Longrightarrow> traffic env (tr @ [(t, ar, e)]) s'"
| other: "traffic env tr s \<Longrightarrow> sm_index s' = sm_index s \<Longrightarrow> traffic env tr s'"

definition cites_earlier :: "(string \<times> bool \<times> knowledge_event) list \<Rightarrow> string \<Rightarrow> bool" where
  "cites_earlier tr k \<longleftrightarrow> (\<exists>t ar e. (t, ar, e) \<in> set tr \<and> t \<noteq> [] \<and> t \<noteq> ''actuation'' \<and> ke_knowledge_id e = k)"

lemma publish_accepted:
  assumes "publish_event env au ar t e s = (Inr i, s')"
  shows "t = ''actuation'' \<Longrightarrow> (ar \<or> env_armed env) \<and> ke_causes e \<noteq> [] \<and> resolves_to_observation (sm_index s) (ke_causes e)"
    and "sm_index s' = (if t \<noteq> [] \<and> t \<noteq> ''actuation'' then (sm_index s)(ke_knowledge_id e := Some t) else sm_index s)"
    and "sm_entries s' = sm_entries s @ [event_to_dict e]" "i = length (sm_entries s)"
    and "sm_pending s' = sm_pending s" "sm_position s' = sm_position s" "sm_world s' = sm_world s" "sm_dead s' = sm_dead s"
  using assms by (auto simp: publish_event_def message_family_cases xadd_def Let_def split: if_splits)

lemma index_cites: "traffic env tr s \<Longrightarrow> sm_index s k = Some t \<Longrightarrow> t \<noteq> [] \<and> t \<noteq> ''actuation'' \<and> cites_earlier tr k"
proof (induction arbitrary: k t rule: traffic.induct)
  case (accepted tr s au ar u e i s')
  show ?case
  proof (cases "u \<noteq> [] \<and> u \<noteq> ''actuation'' \<and> k = ke_knowledge_id e")
    case True
    then have "t = u" using accepted.prems publish_accepted(2) [OF accepted.hyps(2)] by simp
    with True show ?thesis by (auto simp: cites_earlier_def)
  next
    case False
    then have "sm_index s k = Some t" using accepted.prems publish_accepted(2) [OF accepted.hyps(2)] by (auto split: if_splits)
    from accepted.IH [OF this] show ?thesis by (auto simp: cites_earlier_def)
  qed
qed simp_all


definition bare_event :: "string \<Rightarrow> string \<Rightarrow> knowledge_event" where
  "bare_event k c = \<lparr>ke_knowledge_id = k, ke_entity_id = ''e'', ke_operation = ''upsert'', ke_source_uri = ''u'',
     ke_source_revision = [], ke_content_hash = ''h'', ke_occurred_at = ''t'', ke_schema_version = ''kb/v1'',
     ke_event_id = [], ke_causes = c, ke_reason = [], ke_observed_at = []\<rparr>"

definition empty_stream :: "'w \<Rightarrow> 'w stream" where
  "empty_stream w = \<lparr>sm_entries = [], sm_index = (\<lambda>_. None), sm_dead = [], sm_position = 0, sm_pending = [], sm_world = w\<rparr>"


section \<open>Processing\<close>

lemma acknowledge_pending [simp]: "sm_pending (snd (acknowledge is s)) = filter (\<lambda>(i, _). i \<notin> set is) (sm_pending s)"
  by (simp add: acknowledge_def)

lemma acknowledge_rest [simp]:
  "sm_entries (snd (acknowledge is s)) = sm_entries s" "sm_world (snd (acknowledge is s)) = sm_world s"
  "sm_position (snd (acknowledge is s)) = sm_position s" "sm_dead (snd (acknowledge is s)) = sm_dead s"
  "sm_index (snd (acknowledge is s)) = sm_index s"
  by (simp_all add: acknowledge_def)

lemma dead_letter_rest [simp]:
  "sm_pending (dead_letter ts x e i s) = sm_pending s" "sm_entries (dead_letter ts x e i s) = sm_entries s"
  "sm_world (dead_letter ts x e i s) = sm_world s" "sm_position (dead_letter ts x e i s) = sm_position s"
  "sm_index (dead_letter ts x e i s) = sm_index s"
  by (simp_all add: dead_letter_def)

lemma process_entry_rest:
  assumes "process_entry c ts i e s = (r, s')"
  shows "sm_entries s' = sm_entries s" "sm_position s' = sm_position s" "sm_index s' = sm_index s"
    "sm_world s' = snd (attempt c e (sm_world s))"
    "sm_pending s' = (if r = Retry then sm_pending s else filter (\<lambda>(j, _). j \<noteq> i) (sm_pending s))"
  using assms by (auto simp: process_entry_def Let_def split: prod.splits option.splits if_splits)

definition pending_ids :: "'w stream \<Rightarrow> nat set" where
  "pending_ids s = fst ` set (sm_pending s)"


text \<open>A worker that cannot read any artifact.\<close>

definition blind_worker :: "unit consumer" where
  "blind_worker = \<lparr>co_sha = id, co_read = (\<lambda>_. Inl KeyError), co_extract = (\<lambda>_ _. Inl ValueError), co_handler = Simple (\<lambda>_ w. (None, w))\<rparr>"


section \<open>Redelivery ends\<close>

text \<open>The claim of one stale entry and its processing, as the loop does it for each claimed entry.\<close>

definition redeliver :: "'w consumer \<Rightarrow> string \<Rightarrow> nat \<Rightarrow> 'w stream \<Rightarrow> 'w stream" where
  "redeliver c ts i s =
     (case claim_pending (\<lambda>j. j = i) s of
        (Inl x, s1) \<Rightarrow> s1
      | (Inr claimed, s1) \<Rightarrow> snd (handle_all c ts claimed (no_outcome, s1)))"

definition always_fails :: "'w consumer \<Rightarrow> knowledge_event \<Rightarrow> bool" where
  "always_fails c e \<longleftrightarrow> (\<forall>w. fst (attempt c e w) \<noteq> None)"

text \<open>The entry is pending with \<open>n\<close> deliveries, among the first \<open>CLAIM_BATCH\<close> of the list.\<close>

definition waits :: "nat \<Rightarrow> nat \<Rightarrow> 'w stream \<Rightarrow> bool" where
  "waits i n s \<longleftrightarrow> distinct (map fst (sm_pending s)) \<and> map_of (take CLAIM_BATCH (sm_pending s)) i = Some n"

lemma take_filter_one: "distinct xs \<Longrightarrow> i \<in> set xs \<Longrightarrow> filter (\<lambda>j. j = i) xs = [i]"
proof (induction xs)
  case (Cons x xs)
  show ?case
  proof (cases "x = i")
    case True
    then have "filter (\<lambda>j. j = i) xs = []" using Cons.prems(1) by (auto simp: filter_empty_conv)
    with True show ?thesis by simp
  qed (use Cons in auto)
qed simp

lemma waits_pending: "waits i n s \<Longrightarrow> i \<in> set (map fst (sm_pending s))"
  unfolding waits_def by (auto dest!: map_of_SomeD in_set_takeD intro: rev_image_eqI)

lemma claim_one:
  assumes "waits i n s" "decode_event (sm_entries s ! i) = Inr e"
  shows "claim_pending (\<lambda>j. j = i) s = (Inr [(i, e)], s\<lparr>sm_pending := map (\<lambda>(j, m). (j, if j = i then m + 1 else m)) (sm_pending s)\<rparr>)"
    and "waits i (n + 1) (s\<lparr>sm_pending := map (\<lambda>(j, m). (j, if j = i then m + 1 else m)) (sm_pending s)\<rparr>)"
proof -
  have f: "filter (\<lambda>j. j = i) (map fst (sm_pending s)) = [i]"
    using assms(1) waits_pending [OF assms(1)] by (intro take_filter_one) (simp_all add: waits_def)
  then show "claim_pending (\<lambda>j. j = i) s = (Inr [(i, e)], s\<lparr>sm_pending := map (\<lambda>(j, m). (j, if j = i then m + 1 else m)) (sm_pending s)\<rparr>)"
    using assms(2) by (simp add: claim_pending_def with_fields_def CLAIM_BATCH_def)
  have "map_of (map (\<lambda>(j, m). (j, if j = i then m + 1 else m)) ps) i = Some (n + 1)" if "map_of ps i = Some n" for ps :: "(nat \<times> nat) list"
    using that by (induction ps) (auto split: if_splits)
  then show "waits i (n + 1) (s\<lparr>sm_pending := map (\<lambda>(j, m). (j, if j = i then m + 1 else m)) (sm_pending s)\<rparr>)"
    using assms(1) by (simp add: waits_def take_map comp_def case_prod_unfold)
qed

lemma process_failing:
  assumes "always_fails c e" "waits i n s"
  shows "if MAX_RETRIES \<le> n then fst (process_entry c ts i e s) = DeadLetter else fst (process_entry c ts i e s) = Retry"
proof -
  have "delivery_count i s = n" using assms(2) by (simp add: waits_def delivery_count_def)
  moreover have "fst (attempt c e (sm_world s)) \<noteq> None" using assms(1) by (simp add: always_fails_def)
  ultimately show ?thesis by (auto simp: process_entry_def Let_def delivery_count_def split: prod.splits option.splits)
qed

lemma redeliver_step:
  assumes "always_fails c e" "waits i n s" "decode_event (sm_entries s ! i) = Inr e"
  shows "if MAX_RETRIES \<le> n + 1 then i \<notin> pending_ids (redeliver c ts i s) else waits i (n + 1) (redeliver c ts i s)"
    and "sm_entries (redeliver c ts i s) = sm_entries s"
proof -
  let ?s1 = "s\<lparr>sm_pending := map (\<lambda>(j, m). (j, if j = i then m + 1 else m)) (sm_pending s)\<rparr>"
  note cl = claim_one [OF assms(2,3)]
  obtain r s' where p: "process_entry c ts i e ?s1 = (r, s')" by (cases "process_entry c ts i e ?s1")
  have re: "redeliver c ts i s = s'" by (simp add: redeliver_def cl(1) p)
  have r: "if MAX_RETRIES \<le> n + 1 then r = DeadLetter else r = Retry" using process_failing [OF assms(1) cl(2), of ts] unfolding p by (simp only: fst_conv)
  show "if MAX_RETRIES \<le> n + 1 then i \<notin> pending_ids (redeliver c ts i s) else waits i (n + 1) (redeliver c ts i s)"
    using r cl(2) process_entry_rest(5) [OF p] unfolding re by (auto simp: pending_ids_def waits_def split: if_splits)
  show "sm_entries (redeliver c ts i s) = sm_entries s" using process_entry_rest(1) [OF p] unfolding re by simp
qed

lemma redeliver_gone: "i \<notin> pending_ids s \<Longrightarrow> i \<notin> pending_ids (redeliver c ts i s)"
proof -
  assume "i \<notin> pending_ids s"
  then have "filter (\<lambda>j. j = i) (map fst (sm_pending s)) = []" by (auto simp: pending_ids_def filter_empty_conv)
  then have "redeliver c ts i s = s\<lparr>sm_pending := map (\<lambda>(j, m). (j, m)) (sm_pending s)\<rparr>"
    by (simp add: redeliver_def claim_pending_def with_fields_def)
  with \<open>i \<notin> pending_ids s\<close> show ?thesis by (simp add: pending_ids_def)
qed



section \<open>Entries that stay\<close>

text \<open>Behind a hundred others the delivery count is not seen: such an entry is retried, never dead-lettered.\<close>

lemma hidden_entry_is_retried:
  assumes "always_fails c e" "map_of (take CLAIM_BATCH (sm_pending s)) i = None"
  shows "fst (process_entry c ts i e s) = Retry"
proof -
  have "delivery_count i s = 0" using assms(2) by (simp add: delivery_count_def)
  moreover have "fst (attempt c e (sm_world s)) \<noteq> None" using assms(1) by (simp add: always_fails_def)
  ultimately show ?thesis by (auto simp: process_entry_def Let_def delivery_count_def MAX_RETRIES_def split: prod.splits option.splits)
qed

lemma decode_all_ok: "decode_all ds = Inr es \<Longrightarrow> map fst es = map fst ds \<and> (\<forall>(i, d) \<in> set ds. \<exists>e. decode_event d = Inr e)"
proof (induction ds arbitrary: es)
  case (Cons x ds)
  obtain i d where "x = (i, d)" by (cases x)
  then show ?case using Cons by (cases "decode_event d"; cases "decode_all ds") auto
qed simp

lemma handle_all_keeps:
  "handle_all c ts es (b, s) = (b', s') \<Longrightarrow>
     sm_entries s' = sm_entries s \<and> sm_position s' = sm_position s \<and> pending_ids s - fst ` set es \<subseteq> pending_ids s'"
proof (induction es arbitrary: b s)
  case (Cons x es)
  obtain i e r s1 where x: "x = (i, e)" "process_entry c ts i e s = (r, s1)" by (metis prod.exhaust)
  have h: "handle_all c ts es (fold_outcome i r b, s1) = (b', s')" using Cons.prems x by simp
  note rest = process_entry_rest [OF x(2)] and IH = Cons.IH [OF h]
  have "pending_ids s - {i} \<subseteq> pending_ids s1" using rest(5) by (auto simp: pending_ids_def image_iff)
  then show ?case using IH rest(1,2) x(1) by auto
qed simp

lemmas handle_all_rest = handle_all_keeps [THEN conjunct1] handle_all_keeps [THEN conjunct2, THEN conjunct1]
  handle_all_keeps [THEN conjunct2, THEN conjunct2]

lemma undecodable_not_read:
  assumes "i \<in> set ks" "decode_event (sm_entries t ! i) = Inl x"
  shows "decode_all (with_fields t ks) \<noteq> Inr es"
proof
  assume "decode_all (with_fields t ks) = Inr es"
  from decode_all_ok [OF this] assms show False by (fastforce simp: with_fields_def)
qed

lemma read_back_keys:
  assumes "decode_all (with_fields t ks) = Inr es"
  shows "fst ` set es = set ks"
proof -
  have "map fst es = ks" using decode_all_ok [OF assms] by (simp add: with_fields_def comp_def)
  then show ?thesis by (metis list.set_map)
qed

lemma claim_pending_rest:
  assumes "claim_pending idle s = (res, s1)"
  shows "pending_ids s1 = pending_ids s" "sm_entries s1 = sm_entries s" "sm_position s1 = sm_position s"
    "res = decode_all (with_fields s (take CLAIM_BATCH (filter idle (map fst (sm_pending s)))))"
proof -
  let ?is = "take CLAIM_BATCH (filter idle (map fst (sm_pending s)))"
  have keys: "fst ` set (map (\<lambda>(i, n). (i, g i n)) ps) = fst ` set ps" for g :: "nat \<Rightarrow> nat \<Rightarrow> nat" and ps
    by (induction ps) auto
  have s1: "s1 = s\<lparr>sm_pending := map (\<lambda>(i, n). (i, if i \<in> set ?is then n + 1 else n)) (sm_pending s)\<rparr>"
    using assms by (auto simp: claim_pending_def Let_def)
  show "pending_ids s1 = pending_ids s" "sm_entries s1 = sm_entries s" "sm_position s1 = sm_position s"
    unfolding s1 pending_ids_def using keys [of "\<lambda>i n. if i \<in> set ?is then n + 1 else n" "sm_pending s"] by (simp_all del: set_map)
  show "res = decode_all (with_fields s ?is)" using assms by (auto simp: claim_pending_def Let_def)
qed

lemma read_events_rest:
  assumes "read_events n s = (res, s')"
  shows "pending_ids s \<subseteq> pending_ids s'" "sm_entries s' = sm_entries s"
    "res = decode_all (with_fields s (take n [sm_position s ..< length (sm_entries s)]))"
  using assms by (auto simp: read_events_def Let_def pending_ids_def)

text \<open>Reading and handling new entries leaves a delivered one pending, if it was not handled itself.\<close>

lemma new_entries_leave:
  assumes "read_events n s = (res, s')" "i \<in> pending_ids s" "i < sm_position s"
    and "res = Inr es" "handle_all c ts es (b, s') = (b', t)"
  shows "i \<in> pending_ids t"
proof -
  note r = read_events_rest [OF assms(1)]
  have "fst ` set es = set (take n [sm_position s ..< length (sm_entries s)])" using read_back_keys r(3) assms(4) by metis
  then have "i \<notin> fst ` set es" using assms(3) by (auto dest: in_set_takeD)
  then show ?thesis using handle_all_rest(3) [OF assms(5)] r(1) assms(2) by blast
qed

lemma undecodable_survives_batch:
  assumes "i \<in> pending_ids s" "decode_event (sm_entries s ! i) = Inl x" "i < sm_position s"
  shows "i \<in> pending_ids (snd (process_batch c ts idle s))"
proof -
  obtain res s1 where cl: "claim_pending idle s = (res, s1)" by (cases "claim_pending idle s")
  note c1 = claim_pending_rest [OF cl]
  show ?thesis
  proof (cases res)
    case (Inl y)
    then show ?thesis using cl c1(1) assms(1) by (simp add: process_batch_def)
  next
    case (Inr claimed)
    have "i \<notin> fst ` set claimed"
      using read_back_keys [of s _ claimed] undecodable_not_read [OF _ assms(2)] c1(4) Inr by metis
    moreover obtain b s2 where h: "handle_all c ts claimed (no_outcome, s1) = (b, s2)" by (cases "handle_all c ts claimed (no_outcome, s1)")
    ultimately have i2: "i \<in> pending_ids s2" "i < sm_position s2" using handle_all_rest [OF h] c1 assms(1,3) by auto
    obtain res' s3 where rd: "read_events CLAIM_BATCH s2 = (res', s3)" by (cases "read_events CLAIM_BATCH s2")
    show ?thesis
    proof (cases res')
      case (Inl y)
      then show ?thesis using cl Inr h rd i2 read_events_rest(1) [OF rd] by (auto simp: process_batch_def)
    next
      case new: (Inr es)
      obtain b' s4 where h4: "handle_all c ts es (b, s3) = (b', s4)" by (cases "handle_all c ts es (b, s3)")
      from new_entries_leave [OF rd i2 new h4] cl Inr h rd new h4 show ?thesis by (simp add: process_batch_def)
    qed
  qed
qed

text \<open>An entry that does not decode (an unknown schema version, a missing field) is never acknowledged and never
  dead-lettered: no batch removes it from the pending list, whatever else it does. The batch that claims it ends with the
  exception before it reads anything new.\<close>

theorem undecodable_entry_stays_pending:
  assumes "i \<in> pending_ids s" "decode_event (sm_entries s ! i) = Inl x" "i < sm_position s"
  shows "i \<in> pending_ids (snd (process_batch c ts idle s))
    \<and> (i \<in> set (take CLAIM_BATCH (filter idle (map fst (sm_pending s)))) \<longrightarrow>
      (\<exists>y. fst (process_batch c ts idle s) = Inl y \<and> sm_position (snd (process_batch c ts idle s)) = sm_position s))"
proof (intro conjI impI)
  show "i \<in> pending_ids (snd (process_batch c ts idle s))" using assms by (rule undecodable_survives_batch)
next
  assume i: "i \<in> set (take CLAIM_BATCH (filter idle (map fst (sm_pending s))))"
  obtain res s1 where cl: "claim_pending idle s = (res, s1)" by (cases "claim_pending idle s")
  note c1 = claim_pending_rest [OF cl]
  from undecodable_not_read [OF i assms(2)] c1(4) obtain y where "res = Inl y" by (metis sum.exhaust)
  then show "\<exists>y. fst (process_batch c ts idle s) = Inl y \<and> sm_position (snd (process_batch c ts idle s)) = sm_position s"
    using cl c1(3) by (simp add: process_batch_def)
qed

definition stuck_stream :: "unit stream" where
  "stuck_stream = empty_stream ()\<lparr>sm_entries := [[(''schema_version'', ''kb/v2'')]], sm_position := 1, sm_pending := [(0, 9)]\<rparr>"

theorem undecodable_entry_stays_pending_witness:
  "\<exists>y. fst (process_batch blind_worker ''t'' (\<lambda>_. True) stuck_stream) = Inl y
    \<and> sm_position (snd (process_batch blind_worker ''t'' (\<lambda>_. True) stuck_stream)) = 1"
  using undecodable_entry_stays_pending [of 0 stuck_stream ValueError blind_worker "''t''" "\<lambda>_. True"]
  by (simp add: stuck_stream_def pending_ids_def decode_event_def get_or_empty_def CLAIM_BATCH_def)

section \<open>Facts reach the registry log\<close>

definition registry_worker :: "(string \<Rightarrow> string) \<Rightarrow> (string \<Rightarrow> py_error + string) \<Rightarrow> string \<Rightarrow> string consumer" where
  "registry_worker sha store ts =
     \<lparr>co_sha = sha, co_read = store, co_extract = (\<lambda>e a. extract_record e a ts),
      co_handler = WithOperation (\<lambda>r operation reason w. (None, registry_handler r operation reason w))\<rparr>"

text \<open>The producer publishes the event of every record it derived.\<close>

fun publish_facts :: "(string \<Rightarrow> string) \<Rightarrow> string \<Rightarrow> knowledge_record list \<Rightarrow> 'w stream \<Rightarrow> 'w stream" where
  "publish_facts sha ts [] s = s"
| "publish_facts sha ts (r # rs) s =
     (case fact_event sha r ts of
        Inl _ \<Rightarrow> s
      | Inr e \<Rightarrow> publish_facts sha ts rs (snd (publish_event \<lparr>env_kb_write = True, env_armed = False\<rparr> False False ''fact'' e s)))"

definition event_of :: "(string \<Rightarrow> string) \<Rightarrow> string \<Rightarrow> knowledge_record \<Rightarrow> knowledge_event" where
  "event_of sha ts r = record_to_event sha r (fact_operation r) (REASON_PREFIX @ text_fingerprint sha r) ts"

lemma fact_event_of: "is_fact_record sha r \<Longrightarrow> fact_event sha r ts = Inr (event_of sha ts r)"
  by (auto simp: is_fact_record_def fact_event_def fact_reason_def fingerprint_of_fact fact_record_fields event_of_def)

lemma publish_facts_stream:
  "list_all (is_fact_record sha) rs \<Longrightarrow>
     sm_entries (publish_facts sha ts rs s) = sm_entries s @ map (event_to_dict \<circ> event_of sha ts) rs
     \<and> sm_pending (publish_facts sha ts rs s) = sm_pending s \<and> sm_position (publish_facts sha ts rs s) = sm_position s
     \<and> sm_world (publish_facts sha ts rs s) = sm_world s"
proof (induction rs arbitrary: s)
  case (Cons r rs)
  let ?env = "\<lparr>env_kb_write = True, env_armed = False\<rparr>"
  have p: "publish_event ?env False False ''fact'' (event_of sha ts r) s
      = apfst Inr (xadd (event_to_dict (event_of sha ts r)) (s\<lparr>sm_index := (sm_index s)(ke_knowledge_id (event_of sha ts r) := Some ''fact'')\<rparr>))"
    by (simp add: publish_event_def message_family_cases)
  show ?case using Cons by (simp add: fact_event_of p xadd_def)
qed simp

lemma decode_event_of [simp]: "decode_event (event_to_dict (event_of sha ts r)) = Inr (event_of sha ts r)"
proof -
  have "get_or_empty (event_to_dict (event_of sha ts r)) ''schema_version'' = ''kb/v1''"
    by (simp add: get_or_empty_def event_to_dict_def event_of_def record_to_event_def SCHEMA_VERSION_def)
  then show ?thesis by (simp add: decode_event_def)
qed

lemma process_fact:
  assumes "is_fact_record sha r" "store (artifact_uri (kr_knowledge_id r)) = Inr (record_to_artifact r)" "sha (record_to_artifact r) \<noteq> []"
    and "register sha ts ts' r (sm_world s) = Inr l"
  shows "process_entry (registry_worker sha store ts') t i (event_of sha ts r) s = (Done, snd (acknowledge [i] (s\<lparr>sm_world := l\<rparr>)))"
proof -
  have "storable r" using assms(1) by (auto simp: is_fact_record_def fact_record_fields)
  then have x: "extract_record (event_of sha ts r) (record_to_artifact r) ts' = Inr (delivered sha ts ts' r)"
    unfolding event_of_def by (rule read_produced)
  then have "registry_handler (delivered sha ts ts' r) (ke_operation (event_of sha ts r)) (ke_reason (event_of sha ts r)) (sm_world s) = l"
    using assms(4) by (simp add: register_def fact_event_of [OF assms(1)])
  then have "attempt (registry_worker sha store ts') (event_of sha ts r) (sm_world s) = (None, l)"
    using assms(2,3) x by (simp add: attempt_def registry_worker_def verify_content_hash_def call_handler_def event_of_def record_to_event_def)
  then show ?thesis by (simp add: process_entry_def)
qed

lemma handle_facts:
  assumes "list_all (is_fact_record sha) rs" "\<And>r. r \<in> set rs \<Longrightarrow> store (artifact_uri (kr_knowledge_id r)) = Inr (record_to_artifact r)"
    and "\<And>x. sha x \<noteq> []" "complete_log (sm_world s)" "distinct is" "length is = length rs" "pending_ids s \<subseteq> set is"
  shows "\<exists>l b' s'. register_all sha ts ts' rs (sm_world s) = Inr l
    \<and> handle_all (registry_worker sha store ts') t (zip is (map (event_of sha ts) rs)) (b, s) = (b', s') \<and> sm_world s' = l \<and> sm_pending s' = []"
  using assms(1,2,4-7)
proof (induction rs arbitrary: "is" b s)
  case Nil
  then show ?case by (auto simp: pending_ids_def)
next
  case (Cons r rs)
  obtain i js where is_: "is = i # js" using Cons.prems(5) by (cases "is") auto
  obtain l where l: "register sha ts ts' r (sm_world s) = Inr l" "complete_log l"
    using register_fact [of sha r "sm_world s" ts ts'] Cons.prems(1,3) by auto
  let ?s = "snd (acknowledge [i] (s\<lparr>sm_world := l\<rparr>))"
  have p: "process_entry (registry_worker sha store ts') t i (event_of sha ts r) s = (Done, ?s)"
    by (rule process_fact) (use Cons.prems l assms(3) in auto)
  have "\<exists>l' b' s'. register_all sha ts ts' rs (sm_world ?s) = Inr l'
    \<and> handle_all (registry_worker sha store ts') t (zip js (map (event_of sha ts) rs)) (fold_outcome i Done b, ?s) = (b', s') \<and> sm_world s' = l' \<and> sm_pending s' = []"
    by (rule Cons.IH) (use Cons.prems l is_ in \<open>auto simp: pending_ids_def\<close>)
  then show ?case using l p is_ by simp
qed

text \<open>C23: one batch of the registry worker carries the facts of one derivation into the log: published on a stream that
  is caught up, at most a hundred of them, with their artifacts in the store, they are all acknowledged, and the log
  becomes what registering them one after the other makes of it.\<close>

theorem one_batch_registers_the_facts:
  assumes "list_all (is_fact_record sha) rs" "length rs \<le> CLAIM_BATCH" "\<And>x. sha x \<noteq> []"
    and "\<And>r. r \<in> set rs \<Longrightarrow> store (artifact_uri (kr_knowledge_id r)) = Inr (record_to_artifact r)"
    and "sm_pending s = []" "sm_position s = length (sm_entries s)" "complete_log (sm_world s)"
  shows "\<exists>l b s'. register_all sha ts ts' rs (sm_world s) = Inr l
    \<and> process_batch (registry_worker sha store ts') t idle (publish_facts sha ts rs s) = (Inr b, s')
    \<and> sm_world s' = l \<and> sm_pending s' = []"
proof -
  let ?p = "publish_facts sha ts rs s" and ?n = "length (sm_entries s)"
  let ?is = "[?n ..< ?n + length rs]"
  note pub = publish_facts_stream [OF assms(1), of ts s]
  have c: "claim_pending idle ?p = (Inr [], ?p\<lparr>sm_pending := []\<rparr>)"
    using pub assms(5) by (simp add: claim_pending_def with_fields_def)
  have ks: "take CLAIM_BATCH [?n ..< length (sm_entries ?p)] = ?is" using pub assms(2) by simp
  have fields: "with_fields ?p ?is = zip ?is (map (event_to_dict \<circ> event_of sha ts) rs)"
    using pub by (intro nth_equalityI) (simp_all add: with_fields_def nth_append)
  have dec: "decode_all (zip js (map (event_to_dict \<circ> event_of sha ts) qs)) = Inr (zip js (map (event_of sha ts) qs))"
    if "length js = length qs" for js qs
    using that by (induction js qs rule: list_induct2) simp_all
  let ?s1 = "?p\<lparr>sm_pending := map (\<lambda>i. (i, 1)) ?is, sm_position := ?n + length rs\<rparr>"
  have r: "read_events CLAIM_BATCH (?p\<lparr>sm_pending := []\<rparr>) = (Inr (zip ?is (map (event_of sha ts) rs)), ?s1)"
    using pub assms(6) ks fields dec [of ?is rs] by (simp add: read_events_def Let_def with_fields_def)
  have ids: "pending_ids ?s1 \<subseteq> set ?is" by (auto simp: pending_ids_def)
  obtain l b' s' where "register_all sha ts ts' rs (sm_world ?s1) = Inr l"
      "handle_all (registry_worker sha store ts') t (zip ?is (map (event_of sha ts) rs)) (no_outcome, ?s1) = (b', s')" "sm_world s' = l" "sm_pending s' = []"
    using handle_facts [OF assms(1,4,3), of ?s1 ?is ts ts' t no_outcome] assms(7) pub ids by auto
  then show ?thesis using c r pub by (simp add: process_batch_def)
qed

theorem one_batch_registers_the_facts_witness:
  "\<exists>l b s'. process_batch (registry_worker plain_hash (\<lambda>_. Inr (record_to_artifact (fact_record plain_hash (sample_job_fact ''ok'' ''d'') None ''t''))) ''w'') ''w'' (\<lambda>_. True)
      (publish_facts plain_hash ''t'' [fact_record plain_hash (sample_job_fact ''ok'' ''d'') None ''t''] (empty_stream [])) = (Inr b, s')
    \<and> sm_world s' = l \<and> sm_pending s' = [] \<and> registry_rows l \<noteq> []"
proof -
  let ?r = "fact_record plain_hash (sample_job_fact ''ok'' ''d'') None ''t''"
  have f: "list_all (is_fact_record plain_hash) [?r]" by (auto simp: is_fact_record_def)
  obtain l b s' where l: "register_all plain_hash ''t'' ''w'' [?r] [] = Inr l"
      "process_batch (registry_worker plain_hash (\<lambda>_. Inr (record_to_artifact ?r)) ''w'') ''w'' (\<lambda>_. True) (publish_facts plain_hash ''t'' [?r] (empty_stream [])) = (Inr b, s')"
      "sm_world s' = l" "sm_pending s' = []"
    using one_batch_registers_the_facts [OF f, of "\<lambda>_. Inr (record_to_artifact ?r)" "empty_stream []" "''t''" "''w''" "''w''" "\<lambda>_. True"]
    by (auto simp: CLAIM_BATCH_def plain_hash_def empty_stream_def complete_log_def)
  moreover have "registry_rows l \<noteq> []"
    using register_all_facts [OF f, of "[]" "''t''" "''w''"] l(1) by (auto simp: complete_log_def record_rows_def handler_rows_def)
  ultimately show ?thesis by blast
qed

end
