(* ===== verification/Signal_Registry.thy ===== *)
theory Signal_Registry
  imports Py_Format
begin

text \<open>
  The signals that the ledger measures (measurement/signal_registry.py) and the prices at which a session is
  billed (the pricing tables and the cost estimate of measurement/efficiency.py). Prices are exact rationals, in
  dollars per million tokens; the texts that name the source of a price are left out.
\<close>

section \<open>Signals\<close>

record signal =
  sg_producer :: string
  sg_evidence_class :: string
  sg_scope :: string
  sg_value_type :: string
  sg_measured :: bool
  sg_consumers :: "string list"
  sg_freshness :: string

definition ROUTING :: string where "ROUTING = ''routing''"

definition CASCADE :: string where "CASCADE = ''cascade''"

abbreviation routing_signal :: "string \<Rightarrow> string \<Rightarrow> string \<Rightarrow> string \<Rightarrow> signal" where
  "routing_signal producer ec sc freshness \<equiv>
     \<lparr>sg_producer = producer, sg_evidence_class = ec, sg_scope = sc, sg_value_type = ''float'', sg_measured = True,
      sg_consumers = [ROUTING], sg_freshness = freshness\<rparr>"

abbreviation ledger_signal :: "string \<Rightarrow> string \<Rightarrow> string \<Rightarrow> signal" where
  "ledger_signal producer value_type freshness \<equiv>
     \<lparr>sg_producer = producer, sg_evidence_class = ''[M]'', sg_scope = ''attempt'', sg_value_type = value_type,
      sg_measured = True, sg_consumers = [], sg_freshness = freshness\<rparr>"

definition SIGNALS :: "(string \<times> signal) list" where
  "SIGNALS =
    [(''correctness'', routing_signal ''solution.py SolutionMetrics'' ''[M]'' ''model'' ''per-model aggregate''),
     (''cost'', routing_signal ''efficiency.py EfficiencyMetrics'' ''[M]'' ''model'' ''per-model aggregate''),
     (''efficiency'', routing_signal ''correctness / cost (derived)'' ''[C]'' ''model'' ''per-model aggregate''),
     (''cache_hit_rate'', routing_signal ''ledger tokens (cache read / input)'' ''[M]'' ''attempt'' ''per-attempt''),
     (''constraint_score'', routing_signal ''solution.py SolutionMetrics'' ''[M]'' ''attempt'' ''per-attempt''),
     (''code_quality_score'', routing_signal ''solution.py SolutionMetrics'' ''[M]'' ''attempt'' ''per-attempt''),
     (''novelty_score'', routing_signal ''solution.py SolutionMetrics'' ''[M]'' ''attempt'' ''per-attempt''),
     (''composite_score'', routing_signal ''solution.py SolutionMetrics'' ''[M]'' ''attempt'' ''per-attempt''),
     (''edge_case_coverage'',
       \<lparr>sg_producer = ''(none '' @ [CHR 0xE2, CHR 0x80, CHR 0x94] @ '' not yet instrumented)'', sg_evidence_class = ''[M]'', sg_scope = ''attempt'',
        sg_value_type = ''float'', sg_measured = False, sg_consumers = [], sg_freshness = ''not instrumented''\<rparr>),
     (''confidence'',
       \<lparr>sg_producer = ''opencode.AgenticResult.confidence'', sg_evidence_class = ''[H]'', sg_scope = ''attempt'',
        sg_value_type = ''float'', sg_measured = True, sg_consumers = [CASCADE], sg_freshness = ''per-attempt''\<rparr>),
     (''perturbation_strength'', ledger_signal ''story/run ledger (strength axis, s=0.0 baseline)'' ''float'' ''per-attempt''),
     (''test_executed_success'', ledger_signal ''test_runner.run_suite (independent, not self-report)'' ''bool'' ''per-attempt''),
     (''tokens_answer'', ledger_signal ''ledger token split (tokens in steps that wrote files)'' ''int'' ''per-attempt''),
     (''tokens_explanation'', ledger_signal ''ledger token split (tokens in prose-only steps)'' ''int'' ''per-attempt''),
     (''cost_source'', ledger_signal ''adapters (opencode/claude) via core.cost_provenance'' ''str'' ''per-attempt''),
     (''estimation_method'', ledger_signal ''adapters (opencode/claude) via core.cost_provenance'' ''str'' ''per-attempt''),
     (''reported_cost_usd'', ledger_signal ''backend-reported cost, verbatim (None = none reported)'' ''float'' ''per-attempt''),
     (''settled_cost_usd'', ledger_signal ''control.settlement (reconciled against the provider meter)'' ''float'' ''post-run''),
     (''settlement_status'', ledger_signal ''control.settlement.SettlementStatus'' ''str'' ''post-run'')]"

definition signal_named :: "string \<Rightarrow> signal option" where
  "signal_named n = map_of SIGNALS n"

definition is_measured :: "string \<Rightarrow> bool" where
  "is_measured n = (case signal_named n of None \<Rightarrow> False | Some s \<Rightarrow> sg_measured s)"

definition is_permitted :: "string \<Rightarrow> string \<Rightarrow> bool" where
  "is_permitted n consumer =
     (case signal_named n of None \<Rightarrow> False | Some s \<Rightarrow> sg_measured s \<and> consumer \<in> set (sg_consumers s))"

definition signals_where :: "(signal \<Rightarrow> bool) \<Rightarrow> string list" where
  "signals_where p = map fst (filter (\<lambda>(_, s). p s) SIGNALS)"

definition measured_signals :: "string list" where
  "measured_signals = signals_where sg_measured"

definition signals_for :: "string \<Rightarrow> string list" where
  "signals_for consumer = signals_where (\<lambda>s. sg_measured s \<and> consumer \<in> set (sg_consumers s))"

definition measured_but_not_permitted :: "string \<Rightarrow> string list" where
  "measured_but_not_permitted consumer = signals_where (\<lambda>s. sg_measured s \<and> consumer \<notin> set (sg_consumers s))"

definition reserved_for_other :: "string \<Rightarrow> string list" where
  "reserved_for_other consumer =
     signals_where (\<lambda>s. sg_measured s \<and> sg_consumers s \<noteq> [] \<and> consumer \<notin> set (sg_consumers s))"

definition unmeasured_signals :: "string list" where
  "unmeasured_signals = signals_where (\<lambda>s. \<not> sg_measured s)"

text \<open>Every registered signal is in exactly one of three classes for a consumer: permitted, measured but not
  permitted, unmeasured; what is reserved for another consumer is measured and not permitted.\<close>

lemma signals_partition:
  "set (map fst SIGNALS) = set (signals_for c) \<union> set (measured_but_not_permitted c) \<union> set unmeasured_signals"
  by (auto simp: signals_for_def measured_but_not_permitted_def unmeasured_signals_def signals_where_def rev_image_eqI)

lemma reserved_is_not_permitted: "set (reserved_for_other c) \<subseteq> set (measured_but_not_permitted c)"
  by (auto simp: reserved_for_other_def measured_but_not_permitted_def signals_where_def)

lemma signal_names_distinct: "distinct (map fst SIGNALS)"
  by code_simp

lemma routing_vocabulary:
  "signals_for ROUTING = [''correctness'', ''cost'', ''efficiency'', ''cache_hit_rate'', ''constraint_score'',
     ''code_quality_score'', ''novelty_score'', ''composite_score'']"
  "reserved_for_other ROUTING = [''confidence'']" "unmeasured_signals = [''edge_case_coverage'']"
  by code_simp+

section \<open>Prices\<close>

record rates =
  rt_input :: rat
  rt_output :: rat
  rt_reasoning :: rat
  rt_cache_read :: rat
  rt_cache_write :: rat

abbreviation rates :: "rat \<Rightarrow> rat \<Rightarrow> rat \<Rightarrow> rat \<Rightarrow> rates" where
  "rates i out r w \<equiv> \<lparr>rt_input = i, rt_output = out, rt_reasoning = out, rt_cache_read = r, rt_cache_write = w\<rparr>"

definition PROVIDER_PRICING :: "(string \<times> rates) list" where
  "PROVIDER_PRICING =
    [(''deepseek'', rates (66 / 100) (198 / 100) (22 / 1000) (66 / 100)),
     (''deepseek-flash'', rates (22 / 100) (66 / 100) (7 / 1000) (22 / 100)),
     (''anthropic'', rates 3 15 (30 / 100) (375 / 100)),
     (''openai'', rates (125 / 100) 10 (625 / 1000) (250 / 100)),
     (''anthropic-sonnet5'', rates 2 10 (20 / 100) (250 / 100)),
     (''anthropic-haiku'', rates 1 5 (10 / 100) (125 / 100)),
     (''openai-luna'', rates (20 / 100) (120 / 100) (2 / 100) (25 / 100)),
     (''openai-sol'', rates 5 30 (50 / 100) (625 / 100)),
     (''openai-terra'', rates (250 / 100) 15 (25 / 100) (3125 / 1000)),
     (''openai-astra'', rates 10 50 1 (1250 / 100))]"

definition CONTEXT_OVER_200K_PRICING :: "(string \<times> rates) list" where
  "CONTEXT_OVER_200K_PRICING =
    [(''openai-sol'', rates 10 45 1 (1250 / 100)),
     (''openai-terra'', rates 5 (2250 / 100) (50 / 100) (625 / 100)),
     (''openai-astra'', rates 20 75 2 25)]"

text \<open>\<open>None\<close> stands for the \<open>ValueError\<close> of an unknown provider.\<close>

definition resolve_pricing_key :: "string \<Rightarrow> string \<Rightarrow> string option" where
  "resolve_pricing_key provider_id model_id =
     (let combined = py_lower (provider_id @ '' '' @ model_id) in
      if contains_str combined ''flash'' then Some ''deepseek-flash''
      else if contains_str combined ''deepseek'' then Some ''deepseek''
      else if contains_str combined ''sonnet'' then Some ''anthropic-sonnet5''
      else if contains_str combined ''haiku'' then Some ''anthropic-haiku''
      else if contains_str combined ''luna'' then Some ''openai-luna''
      else if contains_str combined ''sol'' then Some ''openai-sol''
      else if contains_str combined ''terra'' then Some ''openai-terra''
      else if contains_str combined ''astra'' then Some ''openai-astra''
      else if contains_str combined ''anthropic'' \<or> contains_str combined ''claude'' then Some ''anthropic''
      else if contains_str combined ''openai'' \<or> contains_str combined ''gpt'' then Some ''openai''
      else None)"

definition price_of :: "string \<Rightarrow> rates" where
  "price_of key = the (map_of PROVIDER_PRICING key)"

definition get_pricing :: "string \<Rightarrow> string \<Rightarrow> rates option" where
  "get_pricing provider_id model_id = map_option price_of (resolve_pricing_key provider_id model_id)"

lemma resolved_key_is_priced: "resolve_pricing_key p m = Some k \<Longrightarrow> k \<in> fst ` set PROVIDER_PRICING"
  by (auto simp: resolve_pricing_key_def PROVIDER_PRICING_def Let_def split: if_splits)

section \<open>The cost estimate\<close>

record usage =
  us_prompt :: int
  us_completion :: int
  us_reasoning :: int
  us_cache_read :: int
  us_cache_write :: int

record cost_estimate =
  ce_input :: rat
  ce_output :: rat
  ce_reasoning :: rat
  ce_cache_read :: rat
  ce_cache_write :: rat
  ce_total :: rat
  ce_pricing_key :: string
  ce_long_context_tier :: bool

definition context_of :: "int option \<Rightarrow> usage \<Rightarrow> int" where
  "context_of context_tokens u =
     (case context_tokens of Some c \<Rightarrow> c | None \<Rightarrow> us_prompt u + us_cache_read u + us_cache_write u)"

text \<open>\<open>_rate\<close>: the tier's share grows with what lies beyond 200,000 tokens of context.\<close>

definition blended_rate :: "rates option \<Rightarrow> int \<Rightarrow> (rates \<Rightarrow> rat) \<Rightarrow> rates \<Rightarrow> rat" where
  "blended_rate tier context field base =
     (case tier of None \<Rightarrow> field base
      | Some t \<Rightarrow>
          if context \<le> 200000 then field base
          else let over = of_int (max 0 (context - 200000)) / of_int context
               in field base * (1 - over) + field t * over)"

definition round8 :: "rat \<Rightarrow> rat" where
  "round8 q = of_int (round_even (q * 100000000)) / 100000000"

definition component_cost :: "int \<Rightarrow> rat \<Rightarrow> rat" where
  "component_cost tokens rate = of_int tokens * rate / 1000000"

definition raw_total :: "string \<Rightarrow> int \<Rightarrow> usage \<Rightarrow> rat" where
  "raw_total key context u =
     (let rate = (\<lambda>field. blended_rate (map_of CONTEXT_OVER_200K_PRICING key) context field (price_of key))
      in component_cost (us_prompt u) (rate rt_input) + component_cost (us_completion u) (rate rt_output)
         + component_cost (us_reasoning u) (rate rt_reasoning) + component_cost (us_cache_read u) (rate rt_cache_read)
         + component_cost (us_cache_write u) (rate rt_cache_write))"

definition compute_cost_estimate :: "usage \<Rightarrow> int option \<Rightarrow> string \<Rightarrow> string \<Rightarrow> cost_estimate option" where
  "compute_cost_estimate u context_tokens provider model =
     (case resolve_pricing_key provider model of None \<Rightarrow> None
      | Some key \<Rightarrow>
          (let tier = map_of CONTEXT_OVER_200K_PRICING key; context = context_of context_tokens u;
               rate = (\<lambda>field. blended_rate tier context field (price_of key))
           in Some \<lparr>ce_input = round8 (component_cost (us_prompt u) (rate rt_input)),
                ce_output = round8 (component_cost (us_completion u) (rate rt_output)),
                ce_reasoning = round8 (component_cost (us_reasoning u) (rate rt_reasoning)),
                ce_cache_read = round8 (component_cost (us_cache_read u) (rate rt_cache_read)),
                ce_cache_write = round8 (component_cost (us_cache_write u) (rate rt_cache_write)),
                ce_total = round8 (raw_total key context u), ce_pricing_key = key,
                ce_long_context_tier = (tier \<noteq> None \<and> 200000 < context)\<rparr>))"

end
