(* ===== verification/Step_Routing.thy ===== *)
theory Step_Routing
  imports Profile_Composition Signal_Registry Py_Json
begin

text \<open>
  The choice of a model for one step of a workflow: the routing contract with its validation
  (runtime/routing.py) and the policy that scores the eligible models and picks one (control/step_routing.py).
  Phases, preferences and workflow parameters are the dynamic values of the specification file; the aggregated
  signals of the models are an association list. Floats are exact.
\<close>

section \<open>The routing vocabulary\<close>

definition SIGNAL_FIELDS :: "string list" where
  "SIGNAL_FIELDS = [''correctness'', ''cost'', ''efficiency'', ''cache_hit_rate'', ''constraint_score'',
     ''code_quality_score'', ''novelty_score'', ''composite_score'', ''edge_case_coverage'']"

definition MEASURED_SIGNALS :: "string list" where
  "MEASURED_SIGNALS = signals_for ROUTING"

definition FORBIDDEN_SIGNALS :: "string list" where
  "FORBIDDEN_SIGNALS = reserved_for_other ROUTING"

definition DIRECTIONS :: "string list" where
  "DIRECTIONS = [''maximize'', ''minimize'']"

text \<open>\<open>k in v\<close> for a text \<open>k\<close>: a key of a dict, an element of a list, a part of a text.\<close>

fun text_in :: "string \<Rightarrow> pyval \<Rightarrow> py_error + bool" where
  "text_in k (PDict d) = Inr (k \<in> fst ` set d)"
| "text_in k (PList xs) = Inr (PStr k \<in> set xs)"
| "text_in k (PStr s) = Inr (contains_str s k)"
| "text_in k _ = Inl TypeError"

definition float_or_raise :: "pyval \<Rightarrow> py_error + pyfloat" where
  "float_or_raise v =
     (case float_of v of Some x \<Rightarrow> Inr x | None \<Rightarrow> (case v of PStr _ \<Rightarrow> Inl ValueError | _ \<Rightarrow> Inl TypeError))"

definition default_value :: "pydict \<Rightarrow> string \<Rightarrow> pyval \<Rightarrow> pyval" where
  "default_value d k v = (case map_of d k of None \<Rightarrow> v | Some x \<Rightarrow> x)"

section \<open>Preferences\<close>

definition objective_from_dict :: "pyval \<Rightarrow> py_error + objective" where
  "objective_from_dict v =
     (case text_in ''signal'' v of Inl e \<Rightarrow> Inl e
      | Inr present \<Rightarrow>
          if \<not> present then Inl ValueError
          else (case v of
             PDict d \<Rightarrow>
               (case float_or_raise (default_value d ''weight'' (PFloat (Fin 1))) of Inl e \<Rightarrow> Inl e
                | Inr w \<Rightarrow> Inr \<lparr>ob_signal = py_str (pyget d ''signal''),
                    ob_direction = py_str (default_value d ''direction'' (PStr ''maximize'')), ob_weight = w\<rparr>)
           | _ \<Rightarrow> Inl TypeError))"

definition preferences_from_dict :: "pyval \<Rightarrow> py_error + objective list" where
  "preferences_from_dict v =
     (if \<not> truthy v then Inr []
      else (case v of
         PDict d \<Rightarrow> (case iterate_or_empty (pyget d ''objectives'') of Inl e \<Rightarrow> Inl e
                     | Inr raw \<Rightarrow> append_all (map (\<lambda>o'. map_sum id (\<lambda>x. [x]) (objective_from_dict o')) raw))
       | _ \<Rightarrow> Inl AttributeError))"

definition section_5 :: string where
  "section_5 = [CHR 0xC2, CHR 0xA7, CHR ''5'']"

definition signal_error :: "string list \<Rightarrow> string \<Rightarrow> string list" where
  "signal_error produced s =
     (if s \<in> set FORBIDDEN_SIGNALS then
        [''preference objective '' @ repr_str s @ '' is measured but reserved for the cascade control arms ''
           @ [CHR 0xE2, CHR 0x80, CHR 0x94] @ '' it is not permitted for generic model routing.'']
      else if s \<notin> set MEASURED_SIGNALS \<union> set produced then
        [''preference objective '' @ repr_str s @ '' is not produced by the ledger or any measurement rule. ''
           @ ''Instrument it first (docs/routing_design.md '' @ section_5 @ '').'']
      else [])"

definition objective_errors :: "string list \<Rightarrow> objective \<Rightarrow> string list" where
  "objective_errors produced ob =
     signal_error produced (ob_signal ob)
     @ (if ob_direction ob \<notin> set DIRECTIONS then
          [''preference objective '' @ repr_str (ob_signal ob) @ '': direction '' @ repr_str (ob_direction ob)
             @ '' is not one of ['' @ comma_sep (map repr_str DIRECTIONS) @ '']'']
        else [])
     @ (if flt (ob_weight ob) (Fin 0) then
          [''preference objective '' @ repr_str (ob_signal ob) @ '': weight must be >= 0'']
        else [])"

definition validate_preferences :: "objective list \<Rightarrow> string list \<Rightarrow> string list" where
  "validate_preferences prefs produced = concat (map (objective_errors produced) prefs)"

section \<open>Step selectors\<close>

record step_selector =
  ss_pinned :: "string option"
  ss_allowed :: "pyval list"

text \<open>\<open>frozenset(xs)\<close> raises on an element that has no hash.\<close>

definition hashable :: "pyval \<Rightarrow> bool" where
  "hashable v = (case v of PList _ \<Rightarrow> False | PDict _ \<Rightarrow> False | _ \<Rightarrow> True)"

definition parse_step_selector :: "pydict \<Rightarrow> py_error + step_selector" where
  "parse_step_selector phase =
     (case iterate_or_empty (pyget phase ''allowed_models'') of Inl e \<Rightarrow> Inl e
      | Inr allowed \<Rightarrow>
          if list_all hashable allowed
          then Inr \<lparr>ss_pinned = (if truthy (pyget phase ''model'') then Some (py_str (pyget phase ''model'')) else None),
                    ss_allowed = allowed\<rparr>
          else Inl TypeError)"

definition pin_errors :: "pyval \<Rightarrow> string list \<Rightarrow> string list" where
  "pin_errors v pool =
     (if py_str v \<notin> set pool then [''pinned model '' @ repr_str (py_str v) @ '' is not in model_pool''] else [])"

definition allowed_errors :: "pyval \<Rightarrow> string list \<Rightarrow> string list" where
  "allowed_errors v pool =
     (case v of
        PList (x # xs) \<Rightarrow>
          (let ids = map py_str (x # xs) in
           (if \<not> distinct ids then [''allowed_models contains duplicate ids''] else [])
           @ map (\<lambda>m. ''allowed_models entry '' @ repr_str m @ '' is not in model_pool'') (filter (\<lambda>m. m \<notin> set pool) ids))
      | _ \<Rightarrow> [''allowed_models must be a non-empty list''])"

definition validate_step_selector :: "pyval \<Rightarrow> string list \<Rightarrow> py_error + string list" where
  "validate_step_selector phase pool =
     (case (text_in ''model'' phase, text_in ''allowed_models'' phase) of
        (Inr has_pin, Inr has_allowed) \<Rightarrow>
          (let both = (if has_pin \<and> has_allowed
                       then [''phase declares both '' @ repr_str ''model'' @ '' and '' @ repr_str ''allowed_models''
                               @ ''; use exactly one''] else [])
           in case phase of
                PDict d \<Rightarrow> Inr (both @ (if has_pin then pin_errors (pyget d ''model'') pool else [])
                                @ (if has_allowed then allowed_errors (pyget d ''allowed_models'') pool else []))
              | _ \<Rightarrow> if has_pin then Inl TypeError else if has_allowed then Inl AttributeError else Inr [])
      | _ \<Rightarrow> Inl TypeError)"

section \<open>Validation of a workflow\<close>

record routing_rule =
  rr_plane :: string
  rr_produces :: "string list"

record routing_spec =
  rs_params :: pydict
  rs_rules :: "routing_rule list"

definition produced_signals :: "routing_rule list \<Rightarrow> string list" where
  "produced_signals rules = concat (map rr_produces (filter (\<lambda>r. rr_plane r = ''measurement'') rules))"

definition resolve_pool :: "pydict \<Rightarrow> string \<Rightarrow> py_error + string list" where
  "resolve_pool params default_model =
     (let pool = pyget params ''model_pool'' in
      if truthy pool then map_sum id (map py_str) (iterate pool)
      else Inr (if default_model \<noteq> [] then [default_model] else []))"

fun any_selector :: "pyval list \<Rightarrow> py_error + bool" where
  "any_selector [] = Inr False"
| "any_selector (p # ps) =
     (case text_in ''model'' p of Inl e \<Rightarrow> Inl e
      | Inr True \<Rightarrow> Inr True
      | Inr False \<Rightarrow> (case text_in ''allowed_models'' p of Inl e \<Rightarrow> Inl e
                     | Inr True \<Rightarrow> Inr True
                     | Inr False \<Rightarrow> any_selector ps))"

definition pool_errors :: "bool \<Rightarrow> string list \<Rightarrow> string list" where
  "pool_errors has_pool pool =
     (if has_pool then
        (if pool = [] then [''workflow.params.model_pool is empty'']
         else if \<not> distinct pool then [''workflow.params.model_pool contains duplicate ids''] else [])
      else [])"

definition validate_active_routing ::
  "routing_spec \<Rightarrow> bool \<Rightarrow> string list \<Rightarrow> pyval list \<Rightarrow> py_error + string list" where
  "validate_active_routing spec has_pool pool phases =
     (case append_all (map (\<lambda>p. validate_step_selector p pool) phases) of Inl e \<Rightarrow> Inl e
      | Inr selector_errors \<Rightarrow>
          (case preferences_from_dict (pyget (rs_params spec) ''preferences'') of Inl e \<Rightarrow> Inl e
           | Inr prefs \<Rightarrow> Inr (pool_errors has_pool pool @ selector_errors
                              @ validate_preferences prefs (produced_signals (rs_rules spec)))))"

definition validate_workflow_routing :: "routing_spec \<Rightarrow> string \<Rightarrow> py_error + string list" where
  "validate_workflow_routing spec default_model =
     (case resolve_pool (rs_params spec) default_model of Inl e \<Rightarrow> Inl e
      | Inr pool \<Rightarrow>
          (case iterate_or_empty (pyget (rs_params spec) ''phases'') of Inl e \<Rightarrow> Inl e
           | Inr phases \<Rightarrow>
               (case any_selector phases of Inl e \<Rightarrow> Inl e
                | Inr has_selectors \<Rightarrow>
                    (let has_pool = truthy (pyget (rs_params spec) ''model_pool'');
                         has_prefs = truthy (pyget (rs_params spec) ''preferences'')
                     in if has_pool \<or> has_selectors \<or> has_prefs
                        then validate_active_routing spec has_pool pool phases else Inr []))))"

section \<open>Measured signals and the state of a route\<close>

record model_signals =
  ms_model :: string
  ms_correctness :: "pyfloat option"
  ms_cost :: "pyfloat option"
  ms_efficiency :: "pyfloat option"
  ms_cache_hit_rate :: "pyfloat option"
  ms_constraint_score :: "pyfloat option"
  ms_code_quality_score :: "pyfloat option"
  ms_novelty_score :: "pyfloat option"
  ms_composite_score :: "pyfloat option"
  ms_edge_case_coverage :: "pyfloat option"

definition signal_value :: "model_signals \<Rightarrow> string \<Rightarrow> pyfloat option" where
  "signal_value s n =
     (if n = ''correctness'' then ms_correctness s else if n = ''cost'' then ms_cost s
      else if n = ''efficiency'' then ms_efficiency s else if n = ''cache_hit_rate'' then ms_cache_hit_rate s
      else if n = ''constraint_score'' then ms_constraint_score s
      else if n = ''code_quality_score'' then ms_code_quality_score s
      else if n = ''novelty_score'' then ms_novelty_score s
      else if n = ''composite_score'' then ms_composite_score s
      else if n = ''edge_case_coverage'' then ms_edge_case_coverage s else None)"

record route_state =
  rt_pool :: "string list"
  rt_prev_model :: "string option"
  rt_prev_session_id :: string
  rt_prev_cache_read_tokens :: int
  rt_context_tokens :: int

type_synonym signal_store = "(string \<times> model_signals) list"

text \<open>\<open>if state.prev_model\<close>: neither \<open>None\<close> nor the empty text.\<close>

definition prior_model :: "route_state \<Rightarrow> string option" where
  "prior_model st = (case rt_prev_model st of Some m \<Rightarrow> if m = [] then None else Some m | None \<Rightarrow> None)"

section \<open>The policy\<close>

definition cache_switch_penalty :: "string \<Rightarrow> int \<Rightarrow> rat" where
  "cache_switch_penalty prev tokens =
     (if prev = [] \<or> tokens \<le> 0 then 0
      else let before = before_char (CHR ''/'') prev;
               provider = (if before = [] then prev else before)
           in case get_pricing provider (after_char (CHR ''/'') prev) of None \<Rightarrow> 0
              | Some p \<Rightarrow> of_int tokens * max (rt_input p - rt_cache_read p) 0 / 1000000)"

definition effective_cost :: "string \<Rightarrow> model_signals \<Rightarrow> route_state \<Rightarrow> pyfloat" where
  "effective_cost m s st =
     (let cost = (case ms_cost s of Some c \<Rightarrow> c | None \<Rightarrow> Fin 0)
      in case prior_model st of None \<Rightarrow> cost
         | Some p \<Rightarrow> if m \<noteq> p then fadd cost (Fin (cache_switch_penalty p (rt_prev_cache_read_tokens st))) else cost)"

text \<open>Division of floats by a divisor other than zero.\<close>

fun fdiv :: "pyfloat \<Rightarrow> pyfloat \<Rightarrow> pyfloat" where
  "fdiv (Fin a) (Fin b) = Fin (a / b)"
| "fdiv NaN _ = NaN"
| "fdiv _ NaN = NaN"
| "fdiv (Fin a) _ = Fin 0"
| "fdiv a (Fin b) = (if 0 < b then a else fneg a)"
| "fdiv _ _ = NaN"

definition normalize :: "pyfloat \<Rightarrow> pyfloat \<Rightarrow> pyfloat \<Rightarrow> string \<Rightarrow> pyfloat" where
  "normalize v lo hi direction =
     (if flt (fsub hi lo) (Fin (1 / 10 ^ 12)) then Fin (1 / 2)
      else let n = fdiv (fsub v lo) (fsub hi lo) in if direction = ''maximize'' then n else fsub (Fin 1) n)"

text \<open>The value of a signal that the scores use, and the range in which the eligible models have it.\<close>

definition observed :: "string \<Rightarrow> model_signals \<Rightarrow> route_state \<Rightarrow> string \<Rightarrow> pyfloat option" where
  "observed m s st n =
     map_option (\<lambda>v. if n = ''cost'' then effective_cost m s st else v) (signal_value s n)"

definition observations :: "string list \<Rightarrow> signal_store \<Rightarrow> route_state \<Rightarrow> string \<Rightarrow> pyfloat list" where
  "observations eligible store st n =
     List.map_filter (\<lambda>m. case map_of store m of None \<Rightarrow> None | Some s \<Rightarrow> observed m s st n) eligible"

definition signal_range :: "string list \<Rightarrow> signal_store \<Rightarrow> route_state \<Rightarrow> string \<Rightarrow> (pyfloat \<times> pyfloat) option" where
  "signal_range eligible store st n =
     (case observations eligible store st n of [] \<Rightarrow> None
      | v # vs \<Rightarrow> Some (fmin_list v vs, fmax_list v vs))"

type_synonym ranges = "string \<Rightarrow> (pyfloat \<times> pyfloat) option"

definition add_objective ::
  "ranges \<Rightarrow> string \<Rightarrow> model_signals \<Rightarrow> route_state \<Rightarrow> pyfloat \<times> pyfloat \<Rightarrow> objective \<Rightarrow> pyfloat \<times> pyfloat" where
  "add_objective ranges m s st acc ob =
     (case (ranges (ob_signal ob), observed m s st (ob_signal ob)) of
        (Some (lo, hi), Some v) \<Rightarrow>
          (fadd (fst acc) (fmul (ob_weight ob) (normalize v lo hi (ob_direction ob))), fadd (snd acc) (ob_weight ob))
      | _ \<Rightarrow> acc)"

type_synonym scored = "string \<times> pyfloat \<times> pyfloat \<times> model_signals"

definition score_model ::
  "ranges \<Rightarrow> objective list \<Rightarrow> signal_store \<Rightarrow> route_state \<Rightarrow> string \<Rightarrow> scored option" where
  "score_model ranges objs store st m =
     (case map_of store m of None \<Rightarrow> None
      | Some s \<Rightarrow>
          (case foldl (add_objective ranges m s st) (Fin 0, Fin 0) objs of
             (weighted, weights) \<Rightarrow>
               if fle weights (Fin 0) then None else Some (m, fdiv weighted weights, effective_cost m s st, s)))"

definition score_eligible ::
  "string list \<Rightarrow> signal_store \<Rightarrow> objective list \<Rightarrow> route_state \<Rightarrow> scored list" where
  "score_eligible eligible store prefs st =
     (let objs = filter (\<lambda>ob. ob_signal ob \<in> set SIGNAL_FIELDS) prefs
      in List.map_filter (score_model (signal_range eligible store st) objs store st) eligible)"

text \<open>The comparison of the keys (score, continuity, negated cost) as Python tuples.\<close>

definition beats :: "route_state \<Rightarrow> scored \<Rightarrow> scored \<Rightarrow> bool" where
  "beats st b a =
     (case (a, b) of ((ma, sa, ca, _), (mb, sb, cb, _)) \<Rightarrow>
        if \<not> feq sa sb then flt sa sb
        else let ka = (Some ma = rt_prev_model st); kb = (Some mb = rt_prev_model st)
             in if ka \<noteq> kb then kb else flt (fneg ca) (fneg cb))"

definition select_model :: "route_state \<Rightarrow> scored list \<Rightarrow> string" where
  "select_model st scored =
     (case sort_key fst scored of [] \<Rightarrow> []
      | x # xs \<Rightarrow> fst (foldl (\<lambda>best y. if beats st y best then y else best) x xs))"

definition route_eligible ::
  "string list \<Rightarrow> route_state \<Rightarrow> objective list \<Rightarrow> signal_store \<Rightarrow> py_error + string" where
  "route_eligible eligible st prefs store =
     (if eligible = [] then Inl ValueError
      else let scored = score_eligible eligible store prefs st
           in if scored \<noteq> [] then Inr (select_model st scored)
              else case prior_model st of
                     Some p \<Rightarrow> if p \<in> set eligible then Inr p else Inr (hd eligible)
                   | None \<Rightarrow> Inr (hd eligible))"

definition eligible_models :: "step_selector \<Rightarrow> string list \<Rightarrow> string list" where
  "eligible_models sel pool =
     (if ss_allowed sel \<noteq> [] then filter (\<lambda>m. PStr m \<in> set (ss_allowed sel)) pool else pool)"

definition route_step :: "pydict \<Rightarrow> route_state \<Rightarrow> objective list \<Rightarrow> signal_store \<Rightarrow> py_error + string" where
  "route_step job st prefs store =
     (case parse_step_selector job of Inl e \<Rightarrow> Inl e
      | Inr sel \<Rightarrow>
          (case ss_pinned sel of
             Some p \<Rightarrow> Inr p
           | None \<Rightarrow> route_eligible (eligible_models sel (rt_pool st)) st prefs store))"

end
