(* ===== verification/Routing_Facts.thy ===== *)
theory Routing_Facts
  imports Step_Routing Control_Rules
begin

text \<open>
  What the routing policy guarantees: a step that validation accepted is routed to a model of the pool, the
  scores are shares of the weights, the choice is the best of the scored models and does not depend on the
  order of the pool, and the cost estimate grows with every token count.
\<close>

section \<open>Choosing a model\<close>

lemma score_model_fst: "score_model r objs store st m = Some e \<Longrightarrow> fst e = m"
  by (auto simp: score_model_def split: option.splits prod.splits if_splits)

lemma map_filter_mem: "y \<in> set (List.map_filter f xs) \<longleftrightarrow> (\<exists>x \<in> set xs. f x = Some y)"
  by (induction xs) (auto simp: List.map_filter_simps split: option.splits)

lemma scored_in_eligible: "e \<in> set (score_eligible eligible store prefs st) \<Longrightarrow> fst e \<in> set eligible"
  by (auto simp: score_eligible_def Let_def map_filter_mem dest: score_model_fst)

lemma foldl_choice: "foldl (\<lambda>best y. if p best y then y else best) x xs \<in> set (x # xs)"
  by (induction xs arbitrary: x) auto

lemma select_model_in: "scored \<noteq> [] \<Longrightarrow> select_model st scored \<in> fst ` set scored"
proof (cases "sort_key fst scored")
  case (Cons x xs)
  moreover have "set (x # xs) = set scored" using Cons by (metis set_sort)
  ultimately show ?thesis
    using foldl_choice [of "\<lambda>best y. beats st y best" x xs] by (simp add: select_model_def)
next
  case Nil
  moreover assume "scored \<noteq> []"
  ultimately show ?thesis by (metis set_empty set_sort)
qed

lemma route_eligible_in:
  assumes "eligible \<noteq> []" shows "\<exists>m \<in> set eligible. route_eligible eligible st prefs store = Inr m"
proof -
  let ?scored = "score_eligible eligible store prefs st"
  have "?scored \<noteq> [] \<Longrightarrow> select_model st ?scored \<in> set eligible"
    using select_model_in [of ?scored st] scored_in_eligible by fastforce
  then show ?thesis using assms by (auto simp: route_eligible_def Let_def split: option.splits)
qed

section \<open>Accepted steps\<close>

fun is_text :: "pyval \<Rightarrow> bool" where
  "is_text (PStr _) = True"
| "is_text _ = False"

text \<open>A phase's \<open>allowed_models\<close> are texts, as the annotations of the code have them.\<close>

definition text_ids :: "pydict \<Rightarrow> bool" where
  "text_ids job = (case pyget job ''allowed_models'' of PList xs \<Rightarrow> list_all is_text xs | _ \<Rightarrow> True)"

text \<open>A phase that validation passed against a non-empty pool and whose \<open>allowed_models\<close> are texts.\<close>

definition accepted_phase :: "pydict \<Rightarrow> string list \<Rightarrow> bool" where
  "accepted_phase job pool \<longleftrightarrow> pool \<noteq> [] \<and> validate_step_selector (PDict job) pool = Inr [] \<and> text_ids job"

text \<open>What a phase asks for: its pin, and a member of its \<open>allowed_models\<close>.\<close>

definition permitted :: "pydict \<Rightarrow> string \<Rightarrow> bool" where
  "permitted job m \<longleftrightarrow> (truthy (pyget job ''model'') \<longrightarrow> m = py_str (pyget job ''model''))
     \<and> (case pyget job ''allowed_models'' of PList (x # xs) \<Rightarrow> PStr m \<in> set (x # xs) | _ \<Rightarrow> True)"

lemma is_text_hashable: "is_text v \<Longrightarrow> hashable v"
  by (cases v) (auto simp: hashable_def)

lemma pyget_None: "k \<notin> fst ` set d \<Longrightarrow> pyget d k = PNone"
  by (simp add: pyget_def map_of_eq_None_iff [symmetric])

lemma allowed_errors_none:
  "allowed_errors v pool = [] \<longleftrightarrow> (\<exists>x xs. v = PList (x # xs) \<and> distinct (map py_str (x # xs)) \<and> py_str ` set (x # xs) \<subseteq> set pool)"
  by (cases v) (auto simp: allowed_errors_def Let_def filter_empty_conv image_subset_iff split: list.splits)

lemma accepted_without_allowed:
  assumes "accepted_phase job pool" "''allowed_models'' \<notin> fst ` set job"
  shows "\<exists>sel. parse_step_selector job = Inr sel \<and> ss_allowed sel = [] \<and> set_option (ss_pinned sel) \<subseteq> set pool
    \<and> ss_pinned sel = (if truthy (pyget job ''model'') then Some (py_str (pyget job ''model'')) else None)"
proof -
  have pin: "pin_errors (pyget job ''model'') pool = []" if "''model'' \<in> fst ` set job"
    using assms that by (auto simp: accepted_phase_def validate_step_selector_def Let_def split: if_splits)
  have "py_str (pyget job ''model'') \<in> set pool" if "truthy (pyget job ''model'')"
    using that pin pyget_None [of "''model''" job] by (force simp: pin_errors_def split: if_splits)
  then show ?thesis
    using pyget_None [OF assms(2)] by (auto simp: parse_step_selector_def iterate_or_empty_def)
qed

lemma accepted_with_allowed:
  assumes "accepted_phase job pool" "''allowed_models'' \<in> fst ` set job"
  shows "\<exists>x xs. parse_step_selector job = Inr \<lparr>ss_pinned = None, ss_allowed = x # xs\<rparr>
           \<and> list_all is_text (x # xs) \<and> py_str ` set (x # xs) \<subseteq> set pool
           \<and> pyget job ''allowed_models'' = PList (x # xs) \<and> pyget job ''model'' = PNone"
proof -
  have no_pin: "''model'' \<notin> fst ` set job" and ok: "allowed_errors (pyget job ''allowed_models'') pool = []"
    using assms by (auto simp: accepted_phase_def validate_step_selector_def Let_def split: if_splits)
  obtain x xs where xs: "pyget job ''allowed_models'' = PList (x # xs)" "py_str ` set (x # xs) \<subseteq> set pool"
    using ok by (auto simp: allowed_errors_none)
  moreover have "list_all is_text (x # xs)" using assms(1) xs by (simp add: accepted_phase_def text_ids_def)
  moreover have "list_all hashable (x # xs)" using calculation(3) by (auto simp: list_all_iff is_text_hashable)
  ultimately show ?thesis
    using pyget_None [OF no_pin] by (auto simp: parse_step_selector_def iterate_or_empty_def)
qed

lemma accepted_phase_routes:
  assumes "accepted_phase job (rt_pool st)"
  shows "\<exists>m \<in> set (rt_pool st). permitted job m \<and> route_step job st prefs store = Inr m"
proof (cases "''allowed_models'' \<in> fst ` set job")
  case False
  then obtain sel where sel: "parse_step_selector job = Inr sel" "ss_allowed sel = []"
      "set_option (ss_pinned sel) \<subseteq> set (rt_pool st)"
      "ss_pinned sel = (if truthy (pyget job ''model'') then Some (py_str (pyget job ''model'')) else None)"
    using accepted_without_allowed [OF assms] by blast
  have "rt_pool st \<noteq> []" using assms by (simp add: accepted_phase_def)
  then show ?thesis
    using sel route_eligible_in [of "rt_pool st" st prefs store] pyget_None [OF False]
    by (auto simp: route_step_def eligible_models_def permitted_def split: option.splits if_splits)
next
  case True
  then obtain x xs where p: "parse_step_selector job = Inr \<lparr>ss_pinned = None, ss_allowed = x # xs\<rparr>"
      "list_all is_text (x # xs)" "py_str ` set (x # xs) \<subseteq> set (rt_pool st)"
      "pyget job ''allowed_models'' = PList (x # xs)" "pyget job ''model'' = PNone"
    using accepted_with_allowed [OF assms] by blast
  let ?el = "filter (\<lambda>m. PStr m \<in> set (x # xs)) (rt_pool st)"
  have "\<exists>m. x = PStr m" using p(2) by (cases x) auto
  then have "?el \<noteq> []" using p(3) by (auto simp: filter_empty_conv)
  then show ?thesis
    using p route_eligible_in [of ?el st prefs store] by (auto simp: route_step_def eligible_models_def permitted_def)
qed

section \<open>The router as an interface\<close>

text \<open>
  The runner and the control plane know a router only by this contract (\<open>Router\<close> in runtime/routing.py): a
  step accepted for the pool gets a model of the pool that the step permits, and no exception.
\<close>

locale router =
  fixes route :: "pydict \<Rightarrow> route_state \<Rightarrow> objective list \<Rightarrow> signal_store \<Rightarrow> py_error + string"
    and accepted :: "pydict \<Rightarrow> string list \<Rightarrow> bool"
    and suits :: "pydict \<Rightarrow> string \<Rightarrow> bool"
  assumes routes: "accepted job (rt_pool st) \<Longrightarrow> \<exists>m \<in> set (rt_pool st). suits job m \<and> route job st prefs store = Inr m"
begin

lemma routes_all:
  assumes "\<forall>(job, st) \<in> set steps. rt_pool st = pool \<and> accepted job pool"
  shows "\<exists>ms. map (\<lambda>(job, st). route job st prefs store) steps = map Inr ms
    \<and> list_all2 (\<lambda>(job, _) m. m \<in> set pool \<and> suits job m) steps ms"
  using assms
proof (induction steps)
  case (Cons step steps)
  then obtain ms where ms: "map (\<lambda>(job, st). route job st prefs store) steps = map Inr ms"
      "list_all2 (\<lambda>(job, _) m. m \<in> set pool \<and> suits job m) steps ms" by auto
  obtain job st where [simp]: "step = (job, st)" by (cases step)
  obtain m where "m \<in> set pool" "suits job m" "route job st prefs store = Inr m"
    using Cons.prems routes [of job st prefs store] by auto
  then have "map (\<lambda>(job, st). route job st prefs store) (step # steps) = map Inr (m # ms)
      \<and> list_all2 (\<lambda>(job, _) m. m \<in> set pool \<and> suits job m) (step # steps) (m # ms)"
    using ms by simp
  then show ?case by blast
qed auto

end

interpretation step_router: router route_step accepted_phase permitted
  by unfold_locales (rule accepted_phase_routes)

text \<open>The shadow router of the control plane wraps \<open>route_step\<close> and keeps the contract.\<close>

definition shadow_step ::
  "(string \<Rightarrow> string) \<Rightarrow> contract_spec option \<Rightarrow> string \<Rightarrow> string \<Rightarrow> string \<Rightarrow> bool \<Rightarrow> bool \<Rightarrow> reading
     \<Rightarrow> pydict \<Rightarrow> route_state \<Rightarrow> objective list \<Rightarrow> signal_store \<Rightarrow> py_error + string" where
  "shadow_step sha loaded repo workload cell rec recorded rd job st prefs store =
     (case route_step job st prefs store of Inl e \<Rightarrow> Inl e
      | Inr model \<Rightarrow> Inr (fst (shadow_router sha loaded repo workload cell rec model recorded rd)))"

lemma shadow_step_routes: "shadow_step sha loaded repo workload cell rec recorded rd = route_step"
  by (intro ext) (simp add: shadow_step_def shadow_router_def split: sum.splits)

interpretation shadow_router: router "shadow_step sha loaded repo workload cell rec recorded rd" accepted_phase permitted
  for sha loaded repo workload cell rec recorded rd
  unfolding shadow_step_routes by (rule step_router.router_axioms)

section \<open>Validated workflows\<close>

lemma append_all_Nil: "append_all xs = Inr [] \<longleftrightarrow> (\<forall>x \<in> set xs. x = Inr [])"
  by (induction xs rule: append_all.induct) (auto split: sum.splits)

lemma validated_phase:
  assumes "validate_workflow_routing spec dm = Inr []" "resolve_pool (rs_params spec) dm = Inr pool"
    and "truthy (pyget (rs_params spec) ''model_pool'')" "iterate_or_empty (pyget (rs_params spec) ''phases'') = Inr phases"
    and "PDict job \<in> set phases"
  shows "pool \<noteq> [] \<and> validate_step_selector (PDict job) pool = Inr []"
  using assms
  by (auto simp: validate_workflow_routing_def validate_active_routing_def Let_def append_all_Nil pool_errors_def
      split: sum.splits if_splits)

text \<open>C13: the steps of a workflow that \<open>validate_workflow_routing\<close> accepted are all routed. When a spec declares
  a model pool and passes validation, then for every phase whose allowed ids are texts and every state with that pool,
  \<open>route_step\<close> raises no exception and returns a model of the pool that the phase permits (its pin, one of its
  allowed ids), whatever the preferences, the measured signals and the prior steps are.\<close>

theorem validated_workflow_routes_in_pool:
  assumes "validate_workflow_routing spec dm = Inr []" "resolve_pool (rs_params spec) dm = Inr pool"
    and "truthy (pyget (rs_params spec) ''model_pool'')" "iterate_or_empty (pyget (rs_params spec) ''phases'') = Inr phases"
    and "\<forall>(job, st) \<in> set steps. PDict job \<in> set phases \<and> text_ids job \<and> rt_pool st = pool"
  shows "\<exists>ms. map (\<lambda>(job, st). route_step job st prefs store) steps = map Inr ms
    \<and> list_all2 (\<lambda>(job, _) m. m \<in> set pool \<and> permitted job m) steps ms"
proof (rule step_router.routes_all)
  show "\<forall>(job, st) \<in> set steps. rt_pool st = pool \<and> accepted_phase job pool"
    using assms(5) validated_phase [OF assms(1-4)] by (fastforce simp: accepted_phase_def)
qed

definition two_step_spec :: routing_spec where
  "two_step_spec = \<lparr>rs_params = [(''model_pool'', PList [PStr ''a/x'', PStr ''b/y'']),
     (''phases'', PList [PDict [(''allowed_models'', PList [PStr ''b/y''])], PDict [(''model'', PStr ''a/x'')]])],
     rs_rules = []\<rparr>"

definition fresh_route :: "string list \<Rightarrow> route_state" where
  "fresh_route pool = \<lparr>rt_pool = pool, rt_prev_model = None, rt_prev_session_id = [], rt_prev_cache_read_tokens = 0,
     rt_context_tokens = 0\<rparr>"

definition two_steps :: "(pydict \<times> route_state) list" where
  "two_steps = [([(''allowed_models'', PList [PStr ''b/y''])], fresh_route [''a/x'', ''b/y'']),
     ([(''model'', PStr ''a/x'')], fresh_route [''a/x'', ''b/y''])]"

theorem validated_workflow_routes_in_pool_witness:
  "\<exists>ms. map (\<lambda>(job, st). route_step job st [] []) two_steps = map Inr ms
    \<and> list_all2 (\<lambda>(job, _) m. m \<in> set [''a/x'', ''b/y''] \<and> permitted job m) two_steps ms"
proof -
  have "validate_workflow_routing two_step_spec [] = Inr []" by code_simp
  moreover have "resolve_pool (rs_params two_step_spec) [] = Inr [''a/x'', ''b/y'']" by code_simp
  moreover have "truthy (pyget (rs_params two_step_spec) ''model_pool'')" by code_simp
  moreover have "iterate_or_empty (pyget (rs_params two_step_spec) ''phases'')
      = Inr [PDict [(''allowed_models'', PList [PStr ''b/y''])], PDict [(''model'', PStr ''a/x'')]]" by code_simp
  moreover have "\<forall>(job, st) \<in> set two_steps.
        PDict job \<in> set [PDict [(''allowed_models'', PList [PStr ''b/y''])], PDict [(''model'', PStr ''a/x'')]]
        \<and> text_ids job \<and> rt_pool st = [''a/x'', ''b/y'']"
    by (simp add: two_steps_def text_ids_def pyget_def fresh_route_def)
  ultimately show ?thesis by (rule validated_workflow_routes_in_pool)
qed

section \<open>Scores\<close>

text \<open>Every measured value is a finite float.\<close>

definition finite_signals :: "signal_store \<Rightarrow> bool" where
  "finite_signals store \<longleftrightarrow> (\<forall>(m, s) \<in> set store. \<forall>n. \<forall>v \<in> set_option (signal_value s n). is_finite v)"

lemma signal_value_cost: "signal_value s ''cost'' = ms_cost s"
  by (simp add: signal_value_def)

lemma effective_cost_finite:
  "is_finite (case ms_cost s of Some c \<Rightarrow> c | None \<Rightarrow> Fin 0) \<Longrightarrow> is_finite (effective_cost m s st)"
  by (auto simp: effective_cost_def Let_def is_finite_conv split: option.splits)

lemma finite_signalsD: "finite_signals store \<Longrightarrow> map_of store m = Some s \<Longrightarrow> signal_value s n = Some v \<Longrightarrow> is_finite v"
  by (fastforce simp: finite_signals_def dest: map_of_SomeD)

lemma finite_effective_cost: "finite_signals store \<Longrightarrow> map_of store m = Some s \<Longrightarrow> is_finite (effective_cost m s st)"
  by (rule effective_cost_finite) (auto dest: finite_signalsD [where n = "''cost''"] simp: signal_value_cost split: option.splits)

lemma observed_finite:
  "finite_signals store \<Longrightarrow> map_of store m = Some s \<Longrightarrow> observed m s st n = Some v \<Longrightarrow> is_finite v"
  by (auto simp: observed_def finite_effective_cost dest: finite_signalsD split: if_splits)

lemma observations_mem:
  "v \<in> set (observations eligible store st n) \<longleftrightarrow>
     (\<exists>m \<in> set eligible. \<exists>s. map_of store m = Some s \<and> observed m s st n = Some v)"
  by (auto simp: observations_def map_filter_mem split: option.splits)

lemma observations_finite: "finite_signals store \<Longrightarrow> list_all is_finite (observations eligible store st n)"
  by (auto simp: list_all_iff observations_mem dest: observed_finite)

lemma finite_list: "list_all is_finite vs \<Longrightarrow> vs = map Fin (map the_fin vs)"
  by (induction vs) (auto simp: is_finite_the_fin)

lemma Min_insert_min: "finite S \<Longrightarrow> Min (insert (min a b) S) = min a (Min (insert b S))"
  by (cases "S = {}") (auto simp: min.assoc)

lemma Max_insert_max: "finite S \<Longrightarrow> Max (insert (max a b) S) = max a (Max (insert b S))"
  by (cases "S = {}") (auto simp: max.assoc)

lemma fmin_list_Min: "fmin_list (Fin a) (map Fin xs) = Fin (Min (set (a # xs)))"
  by (induction xs arbitrary: a) (auto simp: Min_insert_min)

lemma fmax_list_Max: "fmax_list (Fin a) (map Fin xs) = Fin (Max (set (a # xs)))"
  by (induction xs arbitrary: a) (auto simp: Max_insert_max)

lemma signal_range_finite:
  assumes "finite_signals store"
  shows "signal_range eligible store st n =
    (let obs = the_fin ` set (observations eligible store st n)
     in if obs = {} then None else Some (Fin (Min obs), Fin (Max obs)))"
proof -
  obtain xs where xs: "observations eligible store st n = map Fin xs"
    using finite_list [OF observations_finite [OF assms]] by blast
  have "the_fin ` set (map Fin xs) = set xs" by (auto simp: image_image)
  then show ?thesis
    using xs by (cases xs) (simp_all add: signal_range_def fmin_list_Min fmax_list_Max Let_def del: fmin_list.simps fmax_list.simps)
qed

lemma normalize_unit:
  assumes "lo \<le> v" "v \<le> hi"
  shows "\<exists>q. normalize (Fin v) (Fin lo) (Fin hi) d = Fin q \<and> 0 \<le> q \<and> q \<le> 1"
proof (cases "hi - lo < 1 / 10 ^ 12")
  case True
  then have "normalize (Fin v) (Fin lo) (Fin hi) d = Fin (1 / 2)" by (simp add: normalize_def)
  moreover have "(0::rat) \<le> 1 / 2" "(1::rat) / 2 \<le> 1" by simp_all
  ultimately show ?thesis by blast
next
  case False
  then have "0 < hi - lo" by (simp add: not_less order.strict_trans2 [of 0 "1 / 10 ^ 12"])
  then have "0 \<le> (v - lo) / (hi - lo)" "(v - lo) / (hi - lo) \<le> 1" using assms by simp_all
  then show ?thesis using False by (auto simp: normalize_def Let_def)
qed

text \<open>The pair of the running sums is finite, and the weighted sum is between 0 and the sum of the weights.\<close>

definition within_weights :: "pyfloat \<times> pyfloat \<Rightarrow> bool" where
  "within_weights acc \<longleftrightarrow> (\<exists>a w. acc = (Fin a, Fin w) \<and> 0 \<le> a \<and> a \<le> w)"

definition finite_weights :: "objective list \<Rightarrow> bool" where
  "finite_weights prefs \<longleftrightarrow> (\<forall>ob \<in> set prefs. \<exists>w. ob_weight ob = Fin w \<and> 0 \<le> w)"

lemma range_contains:
  assumes "finite_signals store" "m \<in> set eligible" "map_of store m = Some s" "observed m s st n = Some v"
  shows "\<exists>x lo hi. v = Fin x \<and> signal_range eligible store st n = Some (Fin lo, Fin hi) \<and> lo \<le> x \<and> x \<le> hi"
proof -
  let ?obs = "the_fin ` set (observations eligible store st n)"
  have v: "v \<in> set (observations eligible store st n)" using assms by (auto simp: observations_mem)
  then have "the_fin v \<in> ?obs" by blast
  moreover have "v = Fin (the_fin v)" using observed_finite [OF assms(1,3,4)] is_finite_the_fin by metis
  moreover have "?obs \<noteq> {}" using v by auto
  ultimately show ?thesis
    using signal_range_finite [OF assms(1), of eligible st n] by (auto simp: Let_def)
qed

lemma add_objective_within:
  assumes "finite_signals store" "m \<in> set eligible" "map_of store m = Some s" "within_weights acc"
    and "ob_weight ob = Fin w" "0 \<le> w"
  shows "within_weights (add_objective (signal_range eligible store st) m s st acc ob)"
proof (cases "observed m s st (ob_signal ob)")
  case None
  then show ?thesis using assms(4) by (simp add: add_objective_def split: option.splits prod.splits)
next
  case (Some v)
  obtain x lo hi where r: "v = Fin x" "signal_range eligible store st (ob_signal ob) = Some (Fin lo, Fin hi)" "lo \<le> x" "x \<le> hi"
    using range_contains [OF assms(1-3) Some] by blast
  obtain q where "normalize (Fin x) (Fin lo) (Fin hi) (ob_direction ob) = Fin q" "0 \<le> q" "q \<le> 1"
    using normalize_unit [OF r(3,4)] by blast
  moreover have "w * q \<le> w" using \<open>q \<le> 1\<close> assms(6) by (simp add: mult_left_le)
  ultimately show ?thesis
    using assms(4-6) Some r by (auto simp: within_weights_def add_objective_def intro!: add_mono)
qed

lemma foldl_within:
  assumes "finite_signals store" "m \<in> set eligible" "map_of store m = Some s" "finite_weights objs" "within_weights acc"
  shows "within_weights (foldl (add_objective (signal_range eligible store st) m s st) acc objs)"
  using assms(4,5)
proof (induction objs arbitrary: acc)
  case (Cons ob objs)
  obtain w where "ob_weight ob = Fin w" "0 \<le> w" using Cons.prems(1) by (auto simp: finite_weights_def)
  then have "within_weights (add_objective (signal_range eligible store st) m s st acc ob)"
    by (rule add_objective_within [OF assms(1-3) Cons.prems(2)])
  moreover have "finite_weights objs" using Cons.prems(1) by (simp add: finite_weights_def)
  ultimately show ?case using Cons.IH by simp
qed simp

lemma score_model_unit:
  assumes "finite_signals store" "m \<in> set eligible" "finite_weights objs"
    and "score_model (signal_range eligible store st) objs store st m = Some (m', score, cost, s)"
  shows "\<exists>q c. score = Fin q \<and> 0 \<le> q \<and> q \<le> 1 \<and> cost = Fin c"
proof -
  have s: "map_of store m = Some s" and c: "cost = effective_cost m s st"
    using assms(4) by (auto simp: score_model_def split: option.splits prod.splits if_splits)
  have "within_weights (Fin 0, Fin 0)" by (simp add: within_weights_def)
  then have "within_weights (foldl (add_objective (signal_range eligible store st) m s st) (Fin 0, Fin 0) objs)"
    by (rule foldl_within [OF assms(1,2) s assms(3)])
  moreover have "is_finite cost" using finite_effective_cost [OF assms(1) s] c by simp
  ultimately show ?thesis
    using assms(4) s by (auto simp: score_model_def within_weights_def is_finite_conv split: if_splits)
qed

lemma finite_weights_filter: "finite_weights prefs \<Longrightarrow> finite_weights (filter p prefs)"
  by (simp add: finite_weights_def)

lemma scored_shares:
  assumes "finite_signals store" "finite_weights prefs" "(m, score, cost, s) \<in> set (score_eligible eligible store prefs st)"
  shows "\<exists>q c. score = Fin q \<and> 0 \<le> q \<and> q \<le> 1 \<and> cost = Fin c"
proof -
  obtain m' where "m' \<in> set eligible"
      "score_model (signal_range eligible store st) (filter (\<lambda>ob. ob_signal ob \<in> set SIGNAL_FIELDS) prefs) store st m'
         = Some (m, score, cost, s)"
    using assms(3) by (auto simp: score_eligible_def Let_def map_filter_mem)
  then show ?thesis by (rule score_model_unit [OF assms(1) _ finite_weights_filter [OF assms(2)]])
qed

text \<open>A score is a share. When every measured signal is finite and every weight is finite and not negative
  (what validation lets through apart from NaN and infinity), every scored model has a score between 0 and 1 and a finite
  effective cost, so the comparison of the keys is a total order on the scored models.\<close>

theorem scores_are_shares:
  assumes "finite_signals store" "finite_weights prefs" "(m, score, cost, s) \<in> set (score_eligible eligible store prefs st)"
  shows "\<exists>q c. score = Fin q \<and> 0 \<le> q \<and> q \<le> 1 \<and> cost = Fin c"
  by (rule scored_shares [OF assms])

section \<open>The best model\<close>

text \<open>The key of a scored model as a list in lexicographic order: its score, continuity, and the negated cost.\<close>

fun choice_key :: "route_state \<Rightarrow> scored \<Rightarrow> rat list" where
  "choice_key st (m, score, cost, _) =
     [the_fin score, if Some m = rt_prev_model st then 1 else 0, - the_fin cost]"

fun finite_scored :: "scored \<Rightarrow> bool" where
  "finite_scored (_, score, cost, _) \<longleftrightarrow> is_finite score \<and> is_finite cost"

lemma beats_choice_key: "finite_scored a \<Longrightarrow> finite_scored b \<Longrightarrow> beats st b a \<longleftrightarrow> choice_key st a < choice_key st b"
  by (cases a; cases b) (auto simp: beats_def Let_def is_finite_conv)

lemma foldl_beats:
  "list_all finite_scored (x # xs) \<Longrightarrow>
     foldl (\<lambda>best y. if beats st y best then y else best) x xs = first_max (choice_key st) x xs"
  by (induction xs arbitrary: x) (auto simp: first_max_def beats_choice_key)

lemma first_max_first:
  assumes "sorted (map f (x # xs))" "y \<in> set (x # xs)" "k y = k (first_max k x xs)"
  shows "f (first_max k x xs) \<le> f y"
  using assms
proof (induction xs arbitrary: x y)
  case (Cons z zs)
  let ?m = "if k x < k z then z else x"
  have step: "first_max k x (z # zs) = first_max k ?m zs" by (simp add: first_max_def)
  have sorted: "sorted (map f (?m # zs))" using Cons.prems(1) by (auto intro: order.trans)
  show ?case
  proof (cases "y \<in> set (?m # zs)")
    case True
    then show ?thesis using Cons.IH [OF sorted True] Cons.prems(3) step by simp
  next
    case False
    then have y: "y = (if k x < k z then x else z)" using Cons.prems(2) by (auto split: if_splits)
    have "k ?m \<le> k (first_max k ?m zs)" using first_max_ge [of ?m ?m zs k] by simp
    then have "k y = k ?m" "?m = x" using y Cons.prems(3) step by (auto split: if_splits)
    moreover have "f x \<le> f y" using Cons.prems(1) y by auto
    moreover have "f (first_max k ?m zs) \<le> f ?m" using Cons.IH [OF sorted, of ?m] Cons.prems(3) step \<open>k y = k ?m\<close> by simp
    ultimately show ?thesis using step by simp
  qed
qed (simp add: first_max_def)

definition is_best :: "route_state \<Rightarrow> scored list \<Rightarrow> scored \<Rightarrow> bool" where
  "is_best st scored e \<longleftrightarrow> e \<in> set scored \<and>
     (\<forall>y \<in> set scored. choice_key st y < choice_key st e \<or> (choice_key st y = choice_key st e \<and> fst e \<le> fst y))"

lemma select_model_best:
  assumes "scored \<noteq> []" "list_all finite_scored scored"
  shows "\<exists>e. select_model st scored = fst e \<and> is_best st scored e"
proof -
  obtain x xs where xs: "sort_key fst scored = x # xs" using assms(1) by (metis list.exhaust set_empty set_sort)
  have set_eq: "set (x # xs) = set scored" using xs by (metis set_sort)
  have fin: "list_all finite_scored (x # xs)" using assms(2) set_eq by (simp add: list_all_iff)
  let ?e = "first_max (choice_key st) x xs"
  have "sorted (map fst (x # xs))" using xs by (metis sorted_sort_key)
  then have "y \<in> set scored \<Longrightarrow> choice_key st y = choice_key st ?e \<Longrightarrow> fst ?e \<le> fst y" for y
    using first_max_first [of fst x xs y "choice_key st"] set_eq by blast
  moreover have "y \<in> set scored \<Longrightarrow> choice_key st y \<le> choice_key st ?e" for y
    using first_max_ge [of y x xs "choice_key st"] set_eq by blast
  ultimately have "is_best st scored ?e"
    using first_max_in [of "choice_key st" x xs] set_eq unfolding is_best_def order.order_iff_strict by blast
  moreover have "select_model st scored = fst ?e" by (simp add: select_model_def xs foldl_beats [OF fin])
  ultimately show ?thesis by blast
qed

lemma best_unique: "is_best st A e \<Longrightarrow> is_best st B e' \<Longrightarrow> set A = set B \<Longrightarrow> fst e = fst e'"
  unfolding is_best_def by (metis order.antisym order.asym)

lemma score_eligible_finite:
  "finite_signals store \<Longrightarrow> finite_weights prefs \<Longrightarrow> list_all finite_scored (score_eligible eligible store prefs st)"
  by (auto simp: list_all_iff dest!: scored_shares)

text \<open>C14: the router picks the best of the scored models. With finite signals and non-negative finite weights, when
  some eligible model is scored, the model returned is the one whose key (score, then continuity with the prior
  model, then lower effective cost) no other scored model exceeds, and among equal keys the smallest id; so neither
  the position in the pool nor the order of the store decides.\<close>

theorem router_picks_the_best:
  assumes "finite_signals store" "finite_weights prefs" "score_eligible eligible store prefs st \<noteq> []"
  shows "\<exists>e. route_eligible eligible st prefs store = Inr (fst e) \<and> is_best st (score_eligible eligible store prefs st) e"
proof -
  have "eligible \<noteq> []" using assms(3) by (auto simp: score_eligible_def Let_def List.map_filter_simps)
  then show ?thesis
    using select_model_best [OF assms(3) score_eligible_finite [OF assms(1,2)]] assms(3)
    by (auto simp: route_eligible_def Let_def)
qed

text \<open>A model measured on one signal only, and two such models with the prior model in second place.\<close>

definition correct_only :: "rat \<Rightarrow> model_signals" where
  "correct_only x = \<lparr>ms_model = [], ms_correctness = Some (Fin x), ms_cost = None, ms_efficiency = None,
     ms_cache_hit_rate = None, ms_constraint_score = None, ms_code_quality_score = None, ms_novelty_score = None,
     ms_composite_score = None, ms_edge_case_coverage = None\<rparr>"

definition correctness_first :: "objective list" where
  "correctness_first = [\<lparr>ob_signal = ''correctness'', ob_direction = ''maximize'', ob_weight = Fin 2\<rparr>]"

definition two_models :: signal_store where
  "two_models = [(''a/x'', correct_only (1 / 2)), (''b/y'', correct_only (9 / 10))]"

lemma two_models_finite: "finite_signals two_models" "finite_weights correctness_first"
  by (auto simp: finite_signals_def two_models_def signal_value_def correct_only_def finite_weights_def correctness_first_def)

definition two_pool :: "string list" where
  "two_pool = [''a/x'', ''b/y'']"

lemma two_models_scored:
  "score_eligible two_pool two_models correctness_first (fresh_route two_pool)
     = [(''a/x'', Fin 0, Fin 0, correct_only (1 / 2)), (''b/y'', Fin 1, Fin 0, correct_only (9 / 10))]"
  by code_simp

lemma two_models_some: "score_eligible two_pool two_models correctness_first (fresh_route two_pool) \<noteq> []"
  unfolding two_models_scored by (rule list.distinct)

theorem router_picks_the_best_witness:
  "\<exists>e. route_eligible two_pool (fresh_route two_pool) correctness_first two_models = Inr (fst e)
     \<and> is_best (fresh_route two_pool) (score_eligible two_pool two_models correctness_first (fresh_route two_pool)) e"
  by (rule router_picks_the_best [OF two_models_finite two_models_some])

lemma second_is_scored:
  "(''b/y'', Fin 1, Fin 0, correct_only (9 / 10))
     \<in> set (score_eligible two_pool two_models correctness_first (fresh_route two_pool))"
  unfolding two_models_scored by (rule list.set_intros(2), rule list.set_intros(1))

theorem scores_are_shares_witness: "\<exists>q c. Fin 1 = Fin q \<and> 0 \<le> q \<and> q \<le> 1 \<and> Fin 0 = Fin c"
  by (rule scores_are_shares [OF two_models_finite second_is_scored])

section \<open>The order of the pool\<close>

lemma observations_set:
  "set A = set B \<Longrightarrow> set (observations A store st n) = set (observations B store st n)"
  by (rule set_eqI) (simp add: observations_mem)

lemma signal_range_set:
  "finite_signals store \<Longrightarrow> set A = set B \<Longrightarrow> signal_range A store st = signal_range B store st"
  by (rule ext) (simp add: signal_range_finite observations_set [of A B])

lemma score_eligible_set:
  "finite_signals store \<Longrightarrow> set A = set B \<Longrightarrow> set (score_eligible A store prefs st) = set (score_eligible B store prefs st)"
  unfolding score_eligible_def Let_def by (rule set_eqI) (simp add: map_filter_mem signal_range_set [of store A B])

text \<open>The order in which the pool lists its models does not matter when something is measured: two eligible
  lists with the same models give the same choice. (Only the cold start, with no model scored, takes the head.)\<close>

theorem choice_ignores_pool_order:
  assumes "finite_signals store" "finite_weights prefs" "set A = set B" "score_eligible A store prefs st \<noteq> []"
  shows "route_eligible A st prefs store = route_eligible B st prefs store"
proof -
  have eq: "set (score_eligible A store prefs st) = set (score_eligible B store prefs st)"
    by (rule score_eligible_set [OF assms(1,3)])
  then have ne: "score_eligible B store prefs st \<noteq> []" using assms(4) by (metis set_empty)
  obtain e e' where e: "select_model st (score_eligible A store prefs st) = fst e" "is_best st (score_eligible A store prefs st) e"
      and e': "select_model st (score_eligible B store prefs st) = fst e'" "is_best st (score_eligible B store prefs st) e'"
    using select_model_best [OF assms(4) score_eligible_finite [OF assms(1,2)]]
      select_model_best [OF ne score_eligible_finite [OF assms(1,2)]] by blast
  have "fst e = fst e'" by (rule best_unique [OF e(2) e'(2) eq])
  moreover have "A \<noteq> []" "B \<noteq> []" using assms(4) ne by (auto simp: score_eligible_def Let_def List.map_filter_simps)
  ultimately show ?thesis using assms(4) ne e(1) e'(1) by (simp add: route_eligible_def Let_def)
qed

theorem choice_ignores_pool_order_witness:
  "route_eligible two_pool (fresh_route two_pool) correctness_first two_models
     = route_eligible (rev two_pool) (fresh_route two_pool) correctness_first two_models"
  by (rule choice_ignores_pool_order [OF two_models_finite set_rev [symmetric] two_models_some])

section \<open>Prices\<close>

lemma round_even_mono:
  assumes "a \<le> b" shows "round_even a \<le> round_even b"
proof (cases "a = b")
  case False
  have "of_int (round_even a) \<le> a + 1 / 2" "b - 1 / 2 \<le> of_int (round_even b)"
    using round_even_bounds [of a] round_even_bounds [of b] by linarith+
  then have "(of_int (round_even a) :: rat) < of_int (round_even b + 1)" using assms False by simp
  then show ?thesis by (simp only: of_int_less_iff)
qed simp

lemma round8_mono: "a \<le> b \<Longrightarrow> round8 a \<le> round8 b"
  by (simp add: round8_def divide_right_mono round_even_mono)

definition billed_fields :: "(rates \<Rightarrow> rat) list" where
  "billed_fields = [rt_input, rt_output, rt_reasoning, rt_cache_read, rt_cache_write]"

lemma tier_dominates:
  "map_of CONTEXT_OVER_200K_PRICING key = Some t \<Longrightarrow> list_all (\<lambda>f. f (price_of key) \<le> f t) billed_fields"
  by (auto simp: CONTEXT_OVER_200K_PRICING_def price_of_def PROVIDER_PRICING_def billed_fields_def split: if_splits)

lemma prices_nonneg: "key \<in> fst ` set PROVIDER_PRICING \<Longrightarrow> list_all (\<lambda>f. 0 \<le> f (price_of key)) billed_fields"
  by (auto simp: price_of_def PROVIDER_PRICING_def billed_fields_def)

lemma blended_rate_alt:
  "blended_rate (Some t) c f b = f b + (f t - f b) * (if c \<le> 200000 then 0 else 1 - 200000 / of_int c)"
proof (cases "c \<le> 200000")
  case False
  define x :: rat where "x = of_int (max 0 (c - 200000)) / of_int c"
  have "x = 1 - 200000 / of_int c" using False by (simp add: x_def diff_divide_distrib)
  moreover have "blended_rate (Some t) c f b = f b * (1 - x) + f t * x"
    using False by (simp add: blended_rate_def Let_def x_def)
  moreover have "f b * (1 - x) + f t * x = f b + (f t - f b) * x" by (simp add: algebra_simps)
  ultimately show ?thesis using False by simp
qed (simp add: blended_rate_def)

lemma over_share_mono:
  assumes "c \<le> c'"
  shows "(if c \<le> 200000 then 0 else 1 - 200000 / (of_int c :: rat)) \<le> (if c' \<le> 200000 then 0 else 1 - 200000 / of_int c')"
proof (cases "c \<le> 200000")
  case False
  then have "(0::rat) < of_int c" "(of_int c :: rat) \<le> of_int c'" using assms by simp_all
  then have "(200000 :: rat) / of_int c' \<le> 200000 / of_int c" by (intro divide_left_mono) simp_all
  then show ?thesis using False assms by simp
qed auto

lemma blended_rate_mono:
  assumes "c \<le> c'" "f \<in> set billed_fields"
  shows "blended_rate (map_of CONTEXT_OVER_200K_PRICING key) c f (price_of key)
       \<le> blended_rate (map_of CONTEXT_OVER_200K_PRICING key) c' f (price_of key)"
proof (cases "map_of CONTEXT_OVER_200K_PRICING key")
  case (Some t)
  then have "f (price_of key) \<le> f t" using tier_dominates assms(2) by (auto simp: list_all_iff)
  then show ?thesis
    unfolding Some blended_rate_alt by (intro add_left_mono mult_left_mono over_share_mono assms(1)) simp
qed (simp add: blended_rate_def)

lemma blended_rate_nonneg:
  assumes "key \<in> fst ` set PROVIDER_PRICING" "f \<in> set billed_fields"
  shows "0 \<le> blended_rate (map_of CONTEXT_OVER_200K_PRICING key) c f (price_of key)"
proof -
  have "0 \<le> blended_rate (map_of CONTEXT_OVER_200K_PRICING key) (min c 0) f (price_of key)"
    using prices_nonneg [OF assms(1)] assms(2)
    by (auto simp: blended_rate_def list_all_iff Let_def split: option.splits)
  then show ?thesis using blended_rate_mono [of "min c 0" c f key] assms(2) by simp
qed

lemma component_cost_mono: "0 \<le> n \<Longrightarrow> n \<le> n' \<Longrightarrow> 0 \<le> r \<Longrightarrow> r \<le> r' \<Longrightarrow> component_cost n r \<le> component_cost n' r'"
  by (simp add: component_cost_def divide_right_mono mult_mono)

definition counts :: "usage \<Rightarrow> int list" where
  "counts u = [us_prompt u, us_completion u, us_reasoning u, us_cache_read u, us_cache_write u]"

lemma raw_total_mono:
  assumes "key \<in> fst ` set PROVIDER_PRICING" "c \<le> c'" "list_all (\<lambda>n. 0 \<le> n) (counts u)" "list_all2 (\<le>) (counts u) (counts u')"
  shows "raw_total key c u \<le> raw_total key c' u'"
proof -
  let ?r = "\<lambda>c f. blended_rate (map_of CONTEXT_OVER_200K_PRICING key) c f (price_of key)"
  have "component_cost n (?r c f) \<le> component_cost n' (?r c' f)" if "0 \<le> n" "n \<le> n'" "f \<in> set billed_fields" for n n' f
    using that blended_rate_nonneg [OF assms(1) that(3)] blended_rate_mono [OF assms(2) that(3)]
    by (intro component_cost_mono) simp_all
  moreover have "{rt_input, rt_output, rt_reasoning, rt_cache_read, rt_cache_write} \<subseteq> set billed_fields"
    by (simp add: billed_fields_def)
  ultimately show ?thesis
    unfolding raw_total_def Let_def using assms(3,4) by (intro add_mono) (simp_all add: counts_def)
qed

text \<open>The cost estimate grows with use. For one provider and model, when no token count and not the context
  shrinks, the rounded total does not shrink: the rate of a long context is a mix that only moves from the base rate towards the
  higher one, no rate is negative, and rounding to eight decimals keeps the order.\<close>

theorem cost_estimate_grows:
  assumes "compute_cost_estimate u ctx provider model = Some e" "list_all (\<lambda>n. 0 \<le> n) (counts u)"
    and "list_all2 (\<le>) (counts u) (counts u')" "context_of ctx u \<le> context_of ctx' u'"
  shows "\<exists>e'. compute_cost_estimate u' ctx' provider model = Some e' \<and> ce_total e \<le> ce_total e'"
proof -
  obtain key where key: "resolve_pricing_key provider model = Some key"
    using assms(1) by (auto simp: compute_cost_estimate_def split: option.splits)
  have "raw_total key (context_of ctx u) u \<le> raw_total key (context_of ctx' u') u'"
    by (rule raw_total_mono [OF resolved_key_is_priced [OF key] assms(4,2,3)])
  then show ?thesis
    using assms(1) key by (auto simp: compute_cost_estimate_def Let_def round8_mono)
qed

definition sol_usage :: "int \<Rightarrow> usage" where
  "sol_usage n = \<lparr>us_prompt = n, us_completion = 1000, us_reasoning = 0, us_cache_read = 0, us_cache_write = 0\<rparr>"

theorem cost_estimate_grows_witness:
  "\<exists>e'. compute_cost_estimate (sol_usage 400000) None ''openai'' ''gpt-5.6-sol'' = Some e' \<and> 53 / 100 \<le> ce_total e'"
proof -
  let ?e = "the (compute_cost_estimate (sol_usage 100000) None ''openai'' ''gpt-5.6-sol'')"
  have "compute_cost_estimate (sol_usage 100000) None ''openai'' ''gpt-5.6-sol'' = Some ?e \<and> ce_total ?e = 53 / 100" by code_simp
  then show ?thesis
    using cost_estimate_grows [of "sol_usage 100000" None "''openai''" "''gpt-5.6-sol''" ?e "sol_usage 400000" None]
    by (auto simp: counts_def sol_usage_def context_of_def)
qed

section \<open>Three gaps between validation and policy\<close>

text \<open>Ids that are not texts pass validation as their text but are compared as they are by the policy.\<close>

lemma raw_ids_not_compared:
  "validate_step_selector (PDict [(''allowed_models'', PList [PInt 5])]) [''5''] = Inr []"
  "route_step [(''allowed_models'', PList [PInt 5])] (fresh_route [''5'']) [] [] = Inl ValueError"
  by code_simp+

text \<open>A weight that is not a number is not below zero.\<close>

lemma nan_weight_passes:
  "validate_preferences [\<lparr>ob_signal = ''cost'', ob_direction = ''minimize'', ob_weight = NaN\<rparr>] [] = []"
  by code_simp

text \<open>A signal that a rule of the spec produces is admitted, and ignored by the scores.\<close>

lemma produced_signal_ignored:
  "validate_preferences [\<lparr>ob_signal = ''safety'', ob_direction = ''maximize'', ob_weight = Fin 1\<rparr>] [''safety''] = []"
  "score_eligible eligible store [\<lparr>ob_signal = ''safety'', ob_direction = ''maximize'', ob_weight = Fin 1\<rparr>] st = []"
proof -
  show "validate_preferences [\<lparr>ob_signal = ''safety'', ob_direction = ''maximize'', ob_weight = Fin 1\<rparr>] [''safety''] = []"
    by code_simp
  have "''safety'' \<notin> set SIGNAL_FIELDS" by code_simp
  moreover have "score_model r [] store st = (\<lambda>m. None)" for r
    by (rule ext) (simp add: score_model_def split: option.splits)
  moreover have "List.map_filter (\<lambda>m. None :: scored option) eligible = []"
    by (induction eligible) (simp_all add: List.map_filter_simps)
  ultimately show "score_eligible eligible store [\<lparr>ob_signal = ''safety'', ob_direction = ''maximize'', ob_weight = Fin 1\<rparr>] st = []"
    by (simp add: score_eligible_def)
qed

end
