(* ===== verification/Session_Capacity.thy ===== *)
theory Session_Capacity
  imports Json_Text Py_Format
begin

text \<open>
  The usable context of a session's model (core/session_capacity.py): the runtime's own formula, the identity of
  the active model, the limits merged from the catalog, the configuration files and the runtime's listing, and the
  verdict on a measured context. What is read from outside (the session row and messages, the text of the
  configuration files, the output of the runtime's command, the catalog, the environment) is an argument. Floats
  are exact: the advisory fraction is four fifths. The provenance block of a capacity is left out.
\<close>

section \<open>The formula of the runtime\<close>

definition OUTPUT_TOKEN_MAX_DEFAULT :: int where "OUTPUT_TOKEN_MAX_DEFAULT = 32000"

definition COMPACTION_RESERVED_CAP :: int where "COMPACTION_RESERVED_CAP = 20000"

definition WARN_FRACTION :: rat where "WARN_FRACTION = 4 / 5"

datatype verdict = VOk | VWarn | VCompact | VClose | VUnjudged

record model_ref =
  mr_provider :: string
  mr_model :: string
  mr_variant :: "string option"
  mr_source :: string

record session_capacity =
  sc_model :: model_ref
  sc_context_limit :: "int option"
  sc_input_limit :: "int option"
  sc_output_limit :: "int option"
  sc_response_headroom :: int
  sc_compaction_reserved :: int
  sc_native_limit :: int
  sc_effective_limit :: int
  sc_hard_limit :: int
  sc_policy_limit :: "int option"
  sc_warn_fraction :: rat
  sc_compaction_enabled :: bool

definition max_output_tokens :: "int option \<Rightarrow> int option \<Rightarrow> int" where
  "max_output_tokens output_limit output_token_max =
     (let ceiling = (case output_token_max of Some m \<Rightarrow> if 0 < m then m else OUTPUT_TOKEN_MAX_DEFAULT
                     | None \<Rightarrow> OUTPUT_TOKEN_MAX_DEFAULT);
          limit = (case output_limit of Some l \<Rightarrow> l | None \<Rightarrow> 0); least = min limit ceiling
      in if least = 0 then ceiling else least)"

definition reserve_of :: "int option \<Rightarrow> int \<Rightarrow> int" where
  "reserve_of reserved headroom =
     (case reserved of Some r \<Rightarrow> if 0 \<le> r then r else min COMPACTION_RESERVED_CAP headroom
      | None \<Rightarrow> min COMPACTION_RESERVED_CAP headroom)"

definition effective_limit :: "int option \<Rightarrow> int option \<Rightarrow> int option \<Rightarrow> int option \<Rightarrow> int option \<Rightarrow> int" where
  "effective_limit context_limit input_limit output_limit output_token_max reserved =
     (let context = (case context_limit of Some c \<Rightarrow> if 0 < c then c else 0 | None \<Rightarrow> 0)
      in if context = 0 then 0
         else let headroom = max_output_tokens output_limit output_token_max;
                  reserve = reserve_of reserved headroom
              in case input_limit of
                   Some i \<Rightarrow> if 0 < i then max 0 (i - reserve) else max 0 (context - headroom)
                 | None \<Rightarrow> max 0 (context - headroom))"

definition classify :: "int \<Rightarrow> session_capacity \<Rightarrow> verdict" where
  "classify context_tokens cap =
     (if sc_hard_limit cap \<le> context_tokens then VClose
      else if sc_native_limit cap \<le> context_tokens then (if sc_compaction_enabled cap then VCompact else VClose)
      else if (case sc_policy_limit cap of Some p \<Rightarrow> p \<le> context_tokens | None \<Rightarrow> False) then VClose
      else if sc_warn_fraction cap * of_int (sc_effective_limit cap) \<le> of_int context_tokens then VWarn
      else VOk)"

section \<open>Usage samples\<close>

definition value_or_zero :: "pydict \<Rightarrow> string \<Rightarrow> pyval" where
  "value_or_zero d k = (if truthy (pyget d k) then pyget d k else PInt 0)"

text \<open>The ints of the four counts; \<open>None\<close> is the caught TypeError or ValueError, other exceptions pass.\<close>

fun all_ints :: "pyval list \<Rightarrow> py_error + int list option" where
  "all_ints [] = Inr (Some [])"
| "all_ints (v # vs) =
     (case py_int v of
        Inl e \<Rightarrow> if e = TypeError \<or> e = ValueError then Inr None else Inl e
      | Inr i \<Rightarrow> map_sum id (map_option (Cons i)) (all_ints vs))"

definition positive_total :: "pyval \<Rightarrow> bool" where
  "positive_total v = (case as_number v of Some x \<Rightarrow> flt (Fin 0) x | None \<Rightarrow> False)"

definition sample_tokens :: "pyval \<Rightarrow> int list \<Rightarrow> py_error + int option" where
  "sample_tokens tot values =
     (if \<not> list_ex (\<lambda>v. 0 < v) values \<and> \<not> positive_total tot then Inr None
      else if positive_total tot then map_sum id Some (py_int tot)
      else Inr (Some (sum_list values)))"

definition usage_context_tokens :: "pyval \<Rightarrow> py_error + int option" where
  "usage_context_tokens tokens =
     (case (if truthy tokens then tokens else PDict []) of
        PDict d \<Rightarrow>
          (case (if truthy (pyget d ''cache'') then pyget d ''cache'' else PDict []) of
             PDict c \<Rightarrow>
               (case all_ints [value_or_zero d ''input'', value_or_zero d ''output'',
                               value_or_zero c ''read'', value_or_zero c ''write''] of
                  Inl e \<Rightarrow> Inl e
                | Inr None \<Rightarrow> Inr None
                | Inr (Some values) \<Rightarrow> sample_tokens (pyget d ''total'') values)
           | _ \<Rightarrow> Inl AttributeError)
      | _ \<Rightarrow> Inl AttributeError)"

section \<open>The identity of the model\<close>

definition parse_model_payload :: "pyval \<Rightarrow> (string \<times> string \<times> string option) option" where
  "parse_model_payload v =
     (case v of
        PDict d \<Rightarrow>
          (let provider = py_strip (or_text (pyget d ''providerID'') (or_text (pyget d ''provider'') []));
               model = py_strip (or_text (pyget d ''id'') (or_text (pyget d ''modelID'') []))
           in if provider = [] \<or> model = [] then None
              else Some (provider, model, if truthy (pyget d ''variant'') then Some (py_str (pyget d ''variant'')) else None))
      | _ \<Rightarrow> None)"

definition parse_model_json :: "pyval \<Rightarrow> (string \<times> string \<times> string option) option" where
  "parse_model_json raw =
     (case raw of
        PDict d \<Rightarrow> parse_model_payload raw
      | PStr s \<Rightarrow> if py_strip s = [] then None
                  else (case json_loads s of None \<Rightarrow> None | Some v \<Rightarrow> parse_model_payload v)
      | _ \<Rightarrow> None)"

text \<open>The messages are given newest first.\<close>

fun newest_message_model :: "string list \<Rightarrow> py_error + (string \<times> string) option" where
  "newest_message_model [] = Inr None"
| "newest_message_model (blob # blobs) =
     (case json_loads blob of
        None \<Rightarrow> newest_message_model blobs
      | Some (PDict d) \<Rightarrow>
          if pyget d ''role'' \<noteq> PStr ''assistant'' then newest_message_model blobs
          else let provider = py_strip (or_text (pyget d ''providerID'') []); model = py_strip (or_text (pyget d ''modelID'') [])
               in if provider \<noteq> [] \<and> model \<noteq> [] then Inr (Some (provider, model)) else newest_message_model blobs
      | Some _ \<Rightarrow> Inl AttributeError)"

text \<open>What the session database holds for one session: its row and its messages, oldest first.\<close>

record session_db =
  sd_path :: string
  sd_row :: "pydict option"
  sd_messages :: "string list"

definition resolve_session_model :: "session_db \<Rightarrow> string \<Rightarrow> py_error + (model_ref option \<times> string)" where
  "resolve_session_model db session_id =
     (let sid = py_strip session_id in
      if sid = [] then Inr (None, ''no session identity supplied'')
      else (case sd_row db of
         None \<Rightarrow> Inr (None, ''session '' @ repr_str sid @ '' does not exist in '' @ sd_path db)
       | Some row \<Rightarrow>
           (case parse_model_json (pyget row ''model'') of
              Some (p, m, v) \<Rightarrow> Inr (Some \<lparr>mr_provider = p, mr_model = m, mr_variant = v, mr_source = ''session.model''\<rparr>, [])
            | None \<Rightarrow>
                (case newest_message_model (rev (sd_messages db)) of Inl e \<Rightarrow> Inl e
                 | Inr (Some (p, m)) \<Rightarrow>
                     Inr (Some \<lparr>mr_provider = p, mr_model = m, mr_variant = None, mr_source = ''message.model''\<rparr>, [])
                 | Inr None \<Rightarrow> Inr (None, ''session '' @ repr_str sid
                     @ '' carries no resolved model (session.model and messages are silent)'')))))"

section \<open>The runtime's listing\<close>

text \<open>The limits of the models, keyed by provider and model; the last entry of a key counts.\<close>

type_synonym model_limits = "(string \<times> string) \<Rightarrow> pydict option"

definition listed_limit :: "pyval \<Rightarrow> ((string \<times> string) \<times> pydict) option" where
  "listed_limit payload =
     (case payload of
        PDict d \<Rightarrow> if truthy (pyget d ''providerID'') \<and> truthy (pyget d ''id'')
          then (case pyget d ''limit'' of
                  PDict l \<Rightarrow> Some ((py_str (pyget d ''providerID''), py_str (pyget d ''id'')), l) | _ \<Rightarrow> None)
          else None
      | _ \<Rightarrow> None)"

definition add_listed :: "model_limits \<Rightarrow> pyval \<Rightarrow> model_limits" where
  "add_listed limits payload = (case listed_limit payload of Some (k, l) \<Rightarrow> limits(k \<mapsto> l) | None \<Rightarrow> limits)"

text \<open>\<open>raw_decode\<close> at every opening brace; one unit of fuel per brace tried.\<close>

fun scan_listing :: "nat \<Rightarrow> string \<Rightarrow> model_limits \<Rightarrow> model_limits" where
  "scan_listing 0 s limits = limits"
| "scan_listing (Suc n) s limits =
     (case dropWhile (\<lambda>c. c \<noteq> CHR 0x7B) s of
        [] \<Rightarrow> limits
      | c # rest \<Rightarrow>
          (case json_value (Suc (length (c # rest))) (c # rest) of
             None \<Rightarrow> scan_listing n rest limits
           | Some (payload, after) \<Rightarrow> scan_listing n after (add_listed limits payload)))"

definition parse_models_verbose :: "string \<Rightarrow> model_limits" where
  "parse_models_verbose s = scan_listing (length s) s (\<lambda>_. None)"

definition RUNTIME_CLI_MAX_OUTPUT_BYTES :: nat where "RUNTIME_CLI_MAX_OUTPUT_BYTES = 8000000"

text \<open>The outcome of the child process: \<open>None\<close> where it could not be run or timed out, else its return code and
  its output.\<close>

definition run_models_verbose :: "(int \<times> string) option \<Rightarrow> model_limits option" where
  "run_models_verbose proc =
     (case proc of None \<Rightarrow> None
      | Some (code, out) \<Rightarrow>
          if code \<noteq> 0 then None
          else if RUNTIME_CLI_MAX_OUTPUT_BYTES < length out then None else Some (parse_models_verbose out))"

section \<open>Configuration files\<close>

fun skip_block :: "string \<Rightarrow> string" where
  "skip_block [] = []"
| "skip_block (c # s) = (if c = CHR ''*'' \<and> take 1 s = [CHR ''/''] then tl s else skip_block s)"

lemma length_skip_block: "length (skip_block s) \<le> length s"
  by (induction s rule: skip_block.induct) auto

definition closes_next :: "string \<Rightarrow> bool" where
  "closes_next s = (case dropWhile json_space s of c # _ \<Rightarrow> c = CHR 0x7D \<or> c = CHR 0x5D | [] \<Rightarrow> False)"

text \<open>The text outside strings and, with the escape flag, inside one.\<close>

function (sequential) strip_jsonc :: "string \<Rightarrow> string" and strip_in_string :: "bool \<Rightarrow> string \<Rightarrow> string" where
  "strip_jsonc [] = []"
| "strip_jsonc (c # s) =
     (if c = CHR 0x22 then c # strip_in_string False s
      else if c = CHR ''/'' \<and> take 1 s = [CHR ''/''] then strip_jsonc (dropWhile (\<lambda>x. x \<noteq> CHR 0x0D \<and> x \<noteq> CHR 0x0A) s)
      else if c = CHR ''/'' \<and> take 1 s = [CHR ''*''] then strip_jsonc (skip_block (tl s))
      else if c = CHR '','' \<and> closes_next s then strip_jsonc s
      else c # strip_jsonc s)"
| "strip_in_string esc [] = []"
| "strip_in_string esc (c # s) =
     c # (if esc then strip_in_string False s
          else if c = CHR 0x5C then strip_in_string True s
          else if c = CHR 0x22 then strip_jsonc s
          else strip_in_string False s)"
  by pat_completeness auto
termination
proof (relation "measure (case_sum length (\<lambda>(_, s). length s))", goal_cases)
  case 3
  then show ?case by (simp add: less_Suc_eq_le length_dropWhile_le)
next
  case (4 c s)
  have "length (skip_block (tl s)) \<le> length s" using length_skip_block [of "tl s"] by simp
  then show ?case by simp
qed simp_all

definition load_json_config :: "string option \<Rightarrow> pydict" where
  "load_json_config raw =
     (case raw of None \<Rightarrow> []
      | Some s \<Rightarrow> (case json_loads (strip_jsonc s) of Some (PDict d) \<Rightarrow> d | _ \<Rightarrow> []))"

definition limit_keys :: "string list" where
  "limit_keys = [''context'', ''input'', ''output'']"

definition put_numbers :: "pydict \<Rightarrow> pydict \<Rightarrow> pydict" where
  "put_numbers entry limit =
     foldl (\<lambda>e k. if as_number (pyget limit k) \<noteq> None then dict_put k (pyget limit k) e else e) entry limit_keys"

record runtime_config =
  rc_limits :: model_limits
  rc_compaction :: pydict
  rc_sources :: "string list"

definition add_model_limit :: "string \<Rightarrow> model_limits \<Rightarrow> string \<times> pyval \<Rightarrow> model_limits" where
  "add_model_limit provider limits entry =
     (case entry of (model, PDict m) \<Rightarrow>
        (case pyget m ''limit'' of
           PDict l \<Rightarrow> limits((provider, model) \<mapsto>
             put_numbers (case limits (provider, model) of Some e \<Rightarrow> e | None \<Rightarrow> []) l)
         | _ \<Rightarrow> limits)
      | _ \<Rightarrow> limits)"

definition add_provider :: "model_limits \<Rightarrow> string \<times> pyval \<Rightarrow> model_limits" where
  "add_provider limits entry =
     (case entry of (provider, PDict p) \<Rightarrow>
        (case pyget p ''models'' of PDict ms \<Rightarrow> foldl (add_model_limit provider) limits ms | _ \<Rightarrow> limits)
      | _ \<Rightarrow> limits)"

definition add_config_file :: "runtime_config \<Rightarrow> string \<times> string option \<Rightarrow> runtime_config" where
  "add_config_file cfg file =
     (let payload = load_json_config (snd file) in
      if payload = [] then cfg
      else \<lparr>rc_limits = (case pyget payload ''provider'' of PDict ps \<Rightarrow> foldl add_provider (rc_limits cfg) ps | _ \<Rightarrow> rc_limits cfg),
            rc_compaction = (case pyget payload ''compaction'' of PDict b \<Rightarrow> dict_merge (rc_compaction cfg) b | _ \<Rightarrow> rc_compaction cfg),
            rc_sources = rc_sources cfg @ [fst file]\<rparr>)"

text \<open>The candidate files in the runtime's order; a file that is absent or unreadable has no text.\<close>

definition load_runtime_config :: "(string \<times> string option) list \<Rightarrow> runtime_config" where
  "load_runtime_config files =
     foldl add_config_file \<lparr>rc_limits = (\<lambda>_. None), rc_compaction = [], rc_sources = []\<rparr> files"

definition catalog_limit :: "pydict \<Rightarrow> model_ref \<Rightarrow> pydict option" where
  "catalog_limit catalog model =
     (case pyget catalog (mr_provider model) of
        PDict p \<Rightarrow>
          (case pyget p ''models'' of
             PDict ms \<Rightarrow>
               (case pyget ms (mr_model model) of
                  PDict entry \<Rightarrow> (case pyget entry ''limit'' of PDict l \<Rightarrow> Some l | _ \<Rightarrow> None)
                | _ \<Rightarrow> None)
           | _ \<Rightarrow> None)
      | _ \<Rightarrow> None)"

section \<open>The capacity of a session\<close>

text \<open>\<open>str.isdigit\<close> on the code points up to 255; \<open>int\<close> refuses the three superscripts.\<close>

definition is_digit_char :: "char \<Rightarrow> bool" where
  "is_digit_char c = (let n = (of_char c :: nat) in (48 \<le> n \<and> n \<le> 57) \<or> n \<in> {0xB2, 0xB3, 0xB9})"

definition if_positive :: "int \<Rightarrow> int option" where
  "if_positive i = (if 0 < i then Some i else None)"

definition positive_int :: "pyval \<Rightarrow> py_error + int option" where
  "positive_int v =
     (case v of
        PStr s \<Rightarrow> (let t = py_strip s in
          if t \<noteq> [] \<and> list_all is_digit_char t then map_sum id if_positive (int_of_text t) else Inr None)
      | PInt i \<Rightarrow> Inr (if_positive i)
      | PFloat x \<Rightarrow> map_sum id if_positive (py_int v)
      | _ \<Rightarrow> Inr None)"

definition env_value :: "(string \<Rightarrow> string option) \<Rightarrow> string \<Rightarrow> pyval" where
  "env_value env k = (case env k of None \<Rightarrow> PNone | Some s \<Rightarrow> PStr s)"

definition merge_limits :: "pydict option list \<Rightarrow> pydict" where
  "merge_limits layers =
     foldl (\<lambda>merged layer. case layer of None \<Rightarrow> merged | Some l \<Rightarrow> put_numbers merged l) [] layers"

definition reserved_setting :: "pyval \<Rightarrow> py_error + int option" where
  "reserved_setting v =
     (case as_number v of
        None \<Rightarrow> Inr None
      | Some x \<Rightarrow> if fle (Fin 0) x then map_sum id Some (py_int v) else Inr None)"

text \<open>What the environment of the process gives: its variables, the configuration files, the outcome of the
  runtime's command (\<open>None\<close> without a binary as well), the path of the catalog and its content if it is a dict.\<close>

record host =
  ho_env :: "string \<Rightarrow> string option"
  ho_files :: "(string \<times> string option) list"
  ho_listing :: "(int \<times> string) option"
  ho_catalog_path :: string
  ho_catalog :: "pydict option"

definition runtime_limits :: "host \<Rightarrow> model_ref \<Rightarrow> pydict option" where
  "runtime_limits h model =
     (let source = or_text (env_value (ho_env h) ''FINOPS_SESSION_CAPACITY_SOURCE'') ''auto''
      in if py_lower (py_strip source) = ''catalog'' then None
         else (case run_models_verbose (ho_listing h) of None \<Rightarrow> None
               | Some limits \<Rightarrow> limits (mr_provider model, mr_model model)))"

definition merged_limits :: "host \<Rightarrow> model_ref \<Rightarrow> pydict" where
  "merged_limits h model =
     merge_limits
       [case ho_catalog h of None \<Rightarrow> None | Some c \<Rightarrow> catalog_limit c model,
        rc_limits (load_runtime_config (ho_files h)) (mr_provider model, mr_model model),
        runtime_limits h model]"

text \<open>The record for the limits that were read; the policy cap is clamped to the native limit.\<close>

definition build_capacity ::
  "model_ref \<Rightarrow> int \<Rightarrow> int option \<Rightarrow> int option \<Rightarrow> int option \<Rightarrow> int option \<Rightarrow> int option \<Rightarrow> bool \<Rightarrow> session_capacity" where
  "build_capacity model context_limit input_limit output_limit output_max reserved override enabled =
     (let headroom = max_output_tokens output_limit output_max;
          native = effective_limit (Some context_limit) input_limit output_limit output_max reserved;
          policy = map_option (\<lambda>cap. min cap native) override
      in \<lparr>sc_model = model, sc_context_limit = Some context_limit, sc_input_limit = input_limit,
          sc_output_limit = output_limit, sc_response_headroom = headroom,
          sc_compaction_reserved = (case reserved of Some r \<Rightarrow> r | None \<Rightarrow> min COMPACTION_RESERVED_CAP headroom),
          sc_native_limit = native, sc_effective_limit = (case policy of Some p \<Rightarrow> p | None \<Rightarrow> native),
          sc_hard_limit = context_limit, sc_policy_limit = policy, sc_warn_fraction = WARN_FRACTION,
          sc_compaction_enabled = enabled\<rparr>)"

definition em_dash_text :: string where
  "em_dash_text = [CHR 0xE2, CHR 0x80, CHR 0x94]"

definition model_name :: "model_ref \<Rightarrow> string" where
  "model_name model = mr_provider model @ ''/'' @ mr_model model"

definition no_metadata_reason :: "host \<Rightarrow> model_ref \<Rightarrow> string" where
  "no_metadata_reason h model =
     ''no installed metadata for '' @ model_name model @ '' (runtime CLI unavailable or silent; catalog ''
     @ ho_catalog_path h @ '' + runtime config carry no context limit) '' @ em_dash_text
     @ '' capacity cannot be resolved''"

definition zero_limit_reason :: "model_ref \<Rightarrow> string" where
  "zero_limit_reason model =
     ''model '' @ model_name model @ '' reports context 0 '' @ em_dash_text
     @ '' the runtime disables its overflow check and capacity cannot be resolved''"

text \<open>The numbers in the order the code reads them; any of the conversions may raise.\<close>

definition capacity_of_limits :: "host \<Rightarrow> model_ref \<Rightarrow> py_error + (session_capacity option \<times> string)" where
  "capacity_of_limits h model =
     (let merged = merged_limits h model; compaction = rc_compaction (load_runtime_config (ho_files h)) in
      case positive_int (pyget merged ''context'') of Inl e \<Rightarrow> Inl e
      | Inr None \<Rightarrow> Inr (None, no_metadata_reason h model)
      | Inr (Some context_limit) \<Rightarrow>
        (case positive_int (env_value (ho_env h) ''OPENCODE_EXPERIMENTAL_OUTPUT_TOKEN_MAX'') of Inl e \<Rightarrow> Inl e
         | Inr output_max \<Rightarrow>
        (case positive_int (pyget merged ''input'') of Inl e \<Rightarrow> Inl e
         | Inr input_limit \<Rightarrow>
        (case positive_int (pyget merged ''output'') of Inl e \<Rightarrow> Inl e
         | Inr output_limit \<Rightarrow>
        (case reserved_setting (pyget compaction ''reserved'') of Inl e \<Rightarrow> Inl e
         | Inr reserved \<Rightarrow>
        (case positive_int (env_value (ho_env h) ''FINOPS_SESSION_CTX_LIMIT'') of Inl e \<Rightarrow> Inl e
         | Inr override \<Rightarrow>
             (let cap = build_capacity model context_limit input_limit output_limit output_max reserved override
                          (pyget compaction ''auto'' \<noteq> PBool False)
              in if sc_effective_limit cap \<le> 0 then Inr (None, zero_limit_reason model)
                 else Inr (Some cap, []))))))))"

definition resolve_capacity ::
  "host \<Rightarrow> session_db \<Rightarrow> string \<Rightarrow> py_error + (session_capacity option \<times> string \<times> model_ref option)" where
  "resolve_capacity h db session_id =
     (case resolve_session_model db session_id of Inl e \<Rightarrow> Inl e
      | Inr (None, reason) \<Rightarrow> Inr (None, reason, None)
      | Inr (Some model, _) \<Rightarrow>
          (case capacity_of_limits h model of Inl e \<Rightarrow> Inl e
           | Inr (cap, reason) \<Rightarrow> Inr (cap, reason, Some model)))"

end
