(* ===== verification/Session_Budget.thy ===== *)
theory Session_Budget
  imports Session_Capacity
begin

text \<open>
  The budget check of a session (scripts/session_budget.py): the measurement as a fold over the recorded
  messages, the resolution behind one error boundary, the judgment, its exit code and the structured report. A
  database that cannot be read is given by the text of the exception; the texts of other exceptions are a parameter.
\<close>

section \<open>Measuring a session\<close>

record reading_state =
  bm_turns :: int
  bm_context :: int
  bm_incomplete :: bool
  bm_compacted :: bool

definition no_reading :: reading_state where
  "no_reading = \<lparr>bm_turns = 0, bm_context = 0, bm_incomplete = False, bm_compacted = False\<rparr>"

text \<open>What one message means for the reading.\<close>

datatype sample = NotAssistant | SummaryDone | Unfinished | Completed int

definition sample_of :: "pydict \<Rightarrow> py_error + sample" where
  "sample_of d =
     (if pyget d ''role'' \<noteq> PStr ''assistant'' then Inr NotAssistant
      else (case usage_context_tokens (pyget d ''tokens'') of Inl e \<Rightarrow> Inl e
        | Inr measured \<Rightarrow>
            if pyget d ''summary'' = PBool True
            then Inr (if measured \<noteq> None \<or> truthy (pyget d ''finish'') then SummaryDone else Unfinished)
            else Inr (case measured of None \<Rightarrow> Unfinished | Some c \<Rightarrow> Completed c)))"

fun apply_sample :: "reading_state \<Rightarrow> sample \<Rightarrow> reading_state" where
  "apply_sample s NotAssistant = s"
| "apply_sample s SummaryDone = s\<lparr>bm_turns := bm_turns s + 1, bm_compacted := True\<rparr>"
| "apply_sample s Unfinished = s\<lparr>bm_turns := bm_turns s + 1, bm_incomplete := True\<rparr>"
| "apply_sample s (Completed c) = s\<lparr>bm_turns := bm_turns s + 1, bm_context := c, bm_compacted := False\<rparr>"

fun measure_messages :: "reading_state \<Rightarrow> string list \<Rightarrow> py_error + reading_state" where
  "measure_messages s [] = Inr s"
| "measure_messages s (blob # blobs) =
     (case json_loads blob of
        None \<Rightarrow> measure_messages s blobs
      | Some (PDict d) \<Rightarrow> (case sample_of d of Inl e \<Rightarrow> Inl e | Inr x \<Rightarrow> measure_messages (apply_sample s x) blobs)
      | Some _ \<Rightarrow> Inl AttributeError)"

section \<open>Resolving\<close>

datatype status = Measured | Initial | Unmeasured | Unresolved

record session_resolution =
  re_status :: status
  re_session :: string
  re_reading :: reading_state
  re_capacity :: "session_capacity option"
  re_model :: "model_ref option"
  re_reason :: string
  re_backend :: bool

text \<open>The session database: absent, present but raising with the given text, or readable.\<close>

datatype database = Absent | Corrupt string | Readable session_db

definition unresolved :: "string \<Rightarrow> string \<Rightarrow> bool \<Rightarrow> session_resolution" where
  "unresolved session_id reason backend =
     \<lparr>re_status = Unresolved, re_session = session_id, re_reading = no_reading, re_capacity = None, re_model = None,
      re_reason = reason, re_backend = backend\<rparr>"

definition judge_capacity :: "(py_error \<Rightarrow> string) \<Rightarrow> host \<Rightarrow> session_db \<Rightarrow> string \<Rightarrow> session_resolution \<Rightarrow> session_resolution" where
  "judge_capacity exc h db sid r =
     (case resolve_capacity h db sid of
        Inl e \<Rightarrow> r\<lparr>re_reason := exc e\<rparr>
      | Inr (None, reason, model) \<Rightarrow> r\<lparr>re_model := model, re_reason := reason\<rparr>
      | Inr (Some cap, _, model) \<Rightarrow> r\<lparr>re_model := model, re_capacity := Some cap, re_status := Measured\<rparr>)"

definition resolve_reading ::
  "(py_error \<Rightarrow> string) \<Rightarrow> host \<Rightarrow> session_db \<Rightarrow> string \<Rightarrow> session_resolution \<Rightarrow> session_resolution" where
  "resolve_reading exc h db sid base =
     (case measure_messages no_reading (sd_messages db) of
        Inl e \<Rightarrow> base\<lparr>re_reason := exc e\<rparr>
      | Inr s \<Rightarrow>
          (let r = base\<lparr>re_reading := s\<rparr> in
           if bm_turns s = 0 then r\<lparr>re_status := Initial, re_reason := ''initial session: no usage recorded yet''\<rparr>
           else if bm_incomplete s \<and> bm_context s = 0 \<and> \<not> bm_compacted s
           then r\<lparr>re_status := Unmeasured,
                  re_reason := ''no usable measurement: every recorded usage sample is pending/incomplete''\<rparr>
           else judge_capacity exc h db sid r))"

definition resolve_session ::
  "(py_error \<Rightarrow> string) \<Rightarrow> host \<Rightarrow> string \<Rightarrow> database \<Rightarrow> string \<Rightarrow> session_resolution" where
  "resolve_session exc h path db session_id =
     (case db of
        Absent \<Rightarrow> unresolved session_id (''session db '' @ path @ '' not found'') False
      | _ \<Rightarrow>
        (let sid = py_strip session_id; base = unresolved session_id [] True in
         if sid = [] then base\<lparr>re_reason := ''no session identity supplied (--session-id or FINOPS_SESSION_ID)''\<rparr>
         else (case db of
             Absent \<Rightarrow> base
           | Corrupt reason \<Rightarrow> base\<lparr>re_reason := reason\<rparr>
           | Readable d \<Rightarrow>
               if sd_row d = None
               then base\<lparr>re_reason := ''session '' @ repr_str sid @ '' does not exist in '' @ path\<rparr>
               else resolve_reading exc h d sid base)))"

section \<open>The judgment\<close>

text \<open>\<open>{n:,}\<close>: groups of three digits.\<close>

fun group_digits :: "string \<Rightarrow> string" where
  "group_digits (a # b # c # d # ds) = a # b # c # CHR '','' # group_digits (d # ds)"
| "group_digits ds = ds"

definition with_commas :: "int \<Rightarrow> string" where
  "with_commas n = (if n < 0 then ''-'' else []) @ rev (group_digits (rev (show_nat (nat \<bar>n\<bar>))))"

definition percent_text :: "rat \<Rightarrow> string" where
  "percent_text q = fmt_0f (Fin (q * 100)) @ ''%''"

definition dash :: string where
  "dash = '' '' @ em_dash_text @ '' ''"

definition warn_reason :: "int \<Rightarrow> session_capacity \<Rightarrow> string" where
  "warn_reason context cap =
     ''advisory: context '' @ with_commas context @ '' >= '' @ percent_text (sc_warn_fraction cap)
     @ '' of the operative limit '' @ with_commas (sc_effective_limit cap) @ dash
     @ ''informational, not a stopping condition''"

definition compact_reason :: "int \<Rightarrow> session_capacity \<Rightarrow> string" where
  "compact_reason context cap =
     ''at the native compaction boundary: context '' @ with_commas context @ '' >= native usable ''
     @ with_commas (sc_native_limit cap) @ '' (hard '' @ with_commas (sc_hard_limit cap) @ '')'' @ dash
     @ ''the installed runtime compacts natively on the next request and this session continues; ''
     @ ''re-evaluate against the reduced context''"

definition close_reason :: "int \<Rightarrow> session_capacity \<Rightarrow> string" where
  "close_reason context cap =
     (if sc_hard_limit cap \<le> context then
        ''context '' @ with_commas context @ '' >= the model'' @ [CHR 0x27] @ ''s hard context limit ''
        @ with_commas (sc_hard_limit cap) @ dash
        @ ''the next request cannot be processed; close and hand off to a fresh session''
      else if \<not> sc_compaction_enabled cap then
        ''context '' @ with_commas context @ '' >= native usable '' @ with_commas (sc_native_limit cap)
        @ '' and native compaction is disabled (compaction.auto=false)'' @ dash
        @ ''no mechanism reduces the context; close and hand off''
      else
        ''context '' @ with_commas context @ '' >= the LOCAL POLICY limit ''
        @ (case sc_policy_limit cap of Some p \<Rightarrow> with_commas p | None \<Rightarrow> [])
        @ '' (FINOPS_SESSION_CTX_LIMIT; native compaction starts at '' @ with_commas (sc_native_limit cap) @ '')'' @ dash
        @ ''a policy limit is not a native trigger, so nothing reduces the context there; close and hand off'')"

definition verdict_reason :: "verdict \<Rightarrow> int \<Rightarrow> session_capacity \<Rightarrow> string" where
  "verdict_reason v context cap =
     (case v of VWarn \<Rightarrow> warn_reason context cap | VCompact \<Rightarrow> compact_reason context cap
      | VClose \<Rightarrow> close_reason context cap | _ \<Rightarrow> [])"

definition with_incomplete :: "bool \<Rightarrow> string \<Rightarrow> string" where
  "with_incomplete incomplete reason =
     (if \<not> incomplete then reason
      else let suffix = ''usage incomplete'' @ dash @ ''last completed sample used''
           in if reason \<noteq> [] then reason @ ''; '' @ suffix else suffix)"

definition post_compaction_reason :: string where
  "post_compaction_reason =
     ''post-compaction: the completed compaction summary replaced the native context; the runtime skips its ''
     @ ''overflow check for the summary and the session continues'' @ dash
     @ ''the pre-compaction reading is not the current context; measurement resumes with the next completed sample''"

definition or_default :: "string \<Rightarrow> string \<Rightarrow> string" where
  "or_default s d = (if s = [] then d else s)"

definition verdict_for :: "session_resolution \<Rightarrow> verdict \<times> string \<times> session_capacity option" where
  "verdict_for r =
     (case (re_status r, re_capacity r) of
        (Initial, _) \<Rightarrow> (VOk, re_reason r, None)
      | (Measured, Some cap) \<Rightarrow>
          if bm_compacted (re_reading r) then (VOk, post_compaction_reason, Some cap)
          else let context = bm_context (re_reading r); v = classify context cap
               in (v, with_incomplete (bm_incomplete (re_reading r)) (verdict_reason v context cap), Some cap)
      | _ \<Rightarrow> (VUnjudged, or_default (re_reason r) ''capacity unresolved'', None))"

definition is_measured_reading :: "session_resolution \<Rightarrow> bool" where
  "is_measured_reading r = (re_status r = Measured \<and> \<not> bm_compacted (re_reading r))"

record budget_report =
  br_verdict :: verdict
  br_reason :: string
  br_backend :: bool
  br_measured :: bool

definition measure_report :: "(py_error \<Rightarrow> string) \<Rightarrow> host \<Rightarrow> string \<Rightarrow> database \<Rightarrow> string \<Rightarrow> budget_report" where
  "measure_report exc h path db session_id =
     (let r = resolve_session exc h path db session_id
      in \<lparr>br_verdict = fst (verdict_for r), br_reason = fst (snd (verdict_for r)), br_backend = re_backend r,
          br_measured = is_measured_reading r\<rparr>)"

definition measure_verdict ::
  "(py_error \<Rightarrow> string) \<Rightarrow> host \<Rightarrow> string \<Rightarrow> database \<Rightarrow> string \<Rightarrow> verdict \<times> string \<times> bool" where
  "measure_verdict exc h path db session_id =
     (let r = measure_report exc h path db session_id in (br_verdict r, br_reason r, br_backend r))"

section \<open>The command line\<close>

fun EXIT_CODES :: "verdict \<Rightarrow> int" where
  "EXIT_CODES VOk = 0"
| "EXIT_CODES VWarn = 1"
| "EXIT_CODES VUnjudged = 1"
| "EXIT_CODES VCompact = 2"
| "EXIT_CODES VClose = 3"

definition resolve_session_id :: "string option \<Rightarrow> (string \<Rightarrow> string option) \<Rightarrow> string option" where
  "resolve_session_id arg env =
     (let s = py_strip (case arg of Some a \<Rightarrow> if a \<noteq> [] then a else or_text (env_value env ''FINOPS_SESSION_ID'') []
                        | None \<Rightarrow> or_text (env_value env ''FINOPS_SESSION_ID'') [])
      in if s = [] then None else Some s)"

record budget_result =
  bu_turns :: int
  bu_context :: int
  bu_incomplete :: bool
  bu_post_compaction :: bool
  bu_verdict :: verdict
  bu_reason :: string
  bu_model :: "model_ref option"
  bu_capacity :: "session_capacity option"
  bu_remaining :: "int option"

definition result_of :: "session_resolution \<Rightarrow> budget_result" where
  "result_of r =
     (case verdict_for r of (v, reason, block) \<Rightarrow>
        let post = (bm_compacted (re_reading r) \<and> v = VOk)
        in \<lparr>bu_turns = bm_turns (re_reading r), bu_context = bm_context (re_reading r),
            bu_incomplete = (bm_incomplete (re_reading r) \<and> v \<noteq> VUnjudged), bu_post_compaction = post,
            bu_verdict = v, bu_reason = reason, bu_model = re_model r, bu_capacity = block,
            bu_remaining = (if post then None
              else map_option (\<lambda>cap. max 0 (sc_effective_limit cap - bm_context (re_reading r))) (re_capacity r))\<rparr>)"

definition budget_main ::
  "(py_error \<Rightarrow> string) \<Rightarrow> host \<Rightarrow> string \<Rightarrow> database \<Rightarrow> string option \<Rightarrow> budget_result \<times> int" where
  "budget_main exc h path db arg =
     (let sid = (case resolve_session_id arg (ho_env h) of Some s \<Rightarrow> s | None \<Rightarrow> []);
          r = (if db \<noteq> Absent \<and> sid \<noteq> [] then resolve_session exc h path db sid
               else unresolved sid
                 (if db = Absent then ''session db '' @ path @ '' not found''
                  else ''no session identity supplied'' @ dash @ ''pass --session-id or export FINOPS_SESSION_ID'') False)
      in (result_of r, EXIT_CODES (bu_verdict (result_of r))))"

end
