(* ===== verification/Session_Facts.thy ===== *)
theory Session_Facts
  imports Session_Budget
begin

text \<open>
  What the budget check guarantees: the measurement is the summary of the samples, an operator's cap only moves
  the boundary earlier, a capacity is positive and below its native limit, no verdict is made up, and a configuration
  file in plain JSON is read as it was written.
\<close>

section \<open>The reader consumes its text\<close>

lemma json_chars_shorter: "json_chars s = Some (t, r) \<Longrightarrow> length r < length s"
proof (induction s arbitrary: t r rule: json_chars.induct)
  case (2 c s)
  then show ?case by (fastforce split: if_splits list.splits option.splits)
qed simp

lemma skip_ws_length: "length (skip_ws s) \<le> length s"
  by (simp add: skip_ws_def length_dropWhile_le)

lemma skip_ws_Cons_length: "skip_ws s = c # t \<Longrightarrow> length t < length s"
  using skip_ws_length [of s] by simp

lemma json_literal_shorter: "json_literal s = Some (v, r) \<Longrightarrow> s \<noteq> [] \<Longrightarrow> length r < length s"
  by (auto simp: json_literal_def json_literals_def split: if_splits)

lemma json_int_part_shorter: "json_int_part s = Some (i, r) \<Longrightarrow> length r < length s"
  by (auto simp: json_int_part_def length_dropWhile_le less_Suc_eq_le split: list.splits if_splits)

lemma json_frac_shorter: "json_frac s = (f, r) \<Longrightarrow> length r \<le> length s"
  using length_dropWhile_le [of is_digit s] length_dropWhile_le [of is_digit "tl s"]
  by (auto simp: json_frac_def split: list.splits if_splits)

lemma json_exp_shorter: "json_exp s = (e, r) \<Longrightarrow> length r \<le> length s"
  using length_dropWhile_le [of is_digit "tl s"] length_dropWhile_le [of is_digit "tl (tl s)"]
  by (auto simp: json_exp_def split: list.splits if_splits prod.splits)

lemma json_number_shorter:
  assumes "json_number s = Some (v, r)" shows "length r < length s"
proof -
  obtain sg :: int and neg t where t: "(case s of c # r \<Rightarrow> if c = CHR ''-'' then (- 1, ''-'', r) else (1, [], s) | [] \<Rightarrow> (1, [], s)) = (sg, neg, t)"
    by (metis prod_cases3)
  then have "length t \<le> length s" by (auto split: list.splits if_splits)
  moreover obtain i r0 where i: "json_int_part t = Some (i, r0)"
    using assms unfolding json_number_def t by (auto split: option.splits)
  moreover obtain f r1 where f: "json_frac r0 = (f, r1)" by fastforce
  moreover obtain e r2 where e: "json_exp r1 = (e, r2)" by fastforce
  moreover have "r = r2" using assms i f e unfolding json_number_def t by (auto split: if_splits)
  ultimately show ?thesis
    using json_int_part_shorter [OF i] json_frac_shorter [OF f] json_exp_shorter [OF e] by simp
qed

lemma json_value_shorter:
  "json_value n s = Some (v, r) \<Longrightarrow> length r < length s"
  "json_items n s = Some (vs, r) \<Longrightarrow> length r < length s"
  "json_members n d s = Some (d', r) \<Longrightarrow> length r < length s"
proof (induction n s and n s and n d s arbitrary: v r and vs r and d' r rule: json_value_json_items_json_members.induct)
  case (3 n c s)
  have "length (skip_ws s) \<le> length s" by (rule skip_ws_length)
  then show ?case
    using 3 json_chars_shorter [of s] json_literal_shorter [of "c # s" v r] json_number_shorter [of "c # s" v r]
    by (auto split: if_splits option.splits intro: less_trans_Suc less_SucI order.strict_trans2)
next
  case (5 n s)
  then show ?case
    apply (auto split: option.splits list.splits if_splits prod.splits)
    apply (meson less_trans skip_ws_Cons_length)
    by (meson less_trans order.strict_trans2 skip_ws_Cons_length skip_ws_length)
next
  case (7 n d s)
  obtain s' k r0 c t v u e w where step: "s = CHR 0x22 # s'" "json_chars s' = Some (k, r0)" "skip_ws r0 = c # t"
      "json_value n (skip_ws t) = Some (v, u)" "skip_ws u = e # w"
      "r = w \<or> json_members n (dict_put k v d) (skip_ws w) = Some (d', r) \<and> e = CHR 0x2C \<and> c = CHR 0x3A"
      "c = CHR 0x3A"
    using 7(3) by (auto split: option.splits list.splits if_splits prod.splits)
  have "length r \<le> length w"
    using step(6) 7(2) [OF step(1) _ step(2) refl step(3) _ step(4) refl step(5)] skip_ws_length [of w] by fastforce
  moreover have "length u < length (skip_ws t)" using 7(1) step by auto
  ultimately show ?case
    using skip_ws_Cons_length [OF step(5)] skip_ws_length [of t] skip_ws_Cons_length [OF step(3)]
      json_chars_shorter [OF step(2)] step(1) by simp
qed auto

lemma scan_listing_fuel: "length s \<le> n \<Longrightarrow> length s \<le> m \<Longrightarrow> scan_listing n s limits = scan_listing m s limits"
proof (induction n s limits arbitrary: m rule: scan_listing.induct)
  case (1 s limits)
  then show ?case by (cases m) simp_all
next
  case (2 n s limits)
  show ?case
  proof (cases "dropWhile (\<lambda>c. c \<noteq> CHR 0x7B) s")
    case Nil
    then show ?thesis by (cases m) (simp_all only: scan_listing.simps list.case)
  next
    case (Cons c rest)
    then have len: "length rest < length s" using length_dropWhile_le [of "\<lambda>c. c \<noteq> CHR 0x7B" s] by simp
    then obtain m' where m: "m = Suc m'" using 2(4) by (cases m) auto
    show ?thesis
    proof (cases "json_value (Suc (length (c # rest))) (c # rest)")
      case None
      then show ?thesis using 2(1) [OF Cons None, of m'] 2(3,4) len m Cons by simp
    next
      case (Some p)
      obtain payload "after" where p: "p = (payload, after)" by (cases p)
      have "length after < length (c # rest)" by (rule json_value_shorter(1) [OF Some [unfolded p]])
      then have "length after \<le> length rest" by simp
      then show ?thesis using 2(2) [OF Cons Some p [symmetric], of m'] 2(3,4) len m Cons Some p by simp
    qed
  qed
qed

section \<open>The measurement\<close>

text \<open>The samples of the messages in their order, and their summary: the number of assistant messages, the last
  completed sample, whether any message is unfinished, and whether the last finished one is a compaction summary.\<close>

fun read_samples :: "string list \<Rightarrow> py_error + sample list" where
  "read_samples [] = Inr []"
| "read_samples (blob # blobs) =
     (case json_loads blob of
        None \<Rightarrow> read_samples blobs
      | Some (PDict d) \<Rightarrow> (case sample_of d of Inl e \<Rightarrow> Inl e | Inr x \<Rightarrow> map_sum id (Cons x) (read_samples blobs))
      | Some _ \<Rightarrow> Inl AttributeError)"

definition completed_counts :: "sample list \<Rightarrow> int list" where
  "completed_counts xs = concat (map (\<lambda>x. case x of Completed c \<Rightarrow> [c] | _ \<Rightarrow> []) xs)"

definition finished :: "sample list \<Rightarrow> sample list" where
  "finished xs = filter (\<lambda>x. x \<noteq> NotAssistant \<and> x \<noteq> Unfinished) xs"

definition summarise :: "sample list \<Rightarrow> reading_state" where
  "summarise xs =
     \<lparr>bm_turns = int (length (filter (\<lambda>x. x \<noteq> NotAssistant) xs)), bm_context = last (0 # completed_counts xs),
      bm_incomplete = (Unfinished \<in> set xs), bm_compacted = (last (NotAssistant # finished xs) = SummaryDone)\<rparr>"

lemma summarise_snoc: "summarise (xs @ [x]) = apply_sample (summarise xs) x"
  by (cases x) (auto simp: summarise_def completed_counts_def finished_def)

lemma summarise_foldl: "foldl apply_sample no_reading xs = summarise xs"
  by (induction xs rule: rev_induct)
     (simp_all add: summarise_snoc, simp add: summarise_def no_reading_def completed_counts_def finished_def)

lemma measure_messages_foldl:
  "measure_messages s blobs = map_sum id (foldl apply_sample s) (read_samples blobs)"
proof (induction blobs arbitrary: s)
  case (Cons blob blobs)
  then show ?case by (cases "read_samples blobs") (auto split: option.splits pyval.splits sum.splits)
qed simp


section \<open>The cap of the operator\<close>

fun severity :: "verdict \<Rightarrow> nat" where
  "severity VOk = 0"
| "severity VWarn = 1"
| "severity VCompact = 2"
| "severity VClose = 3"
| "severity VUnjudged = 0"

lemma effective_limit_nonneg: "0 \<le> effective_limit c i out m r"
  by (auto simp: effective_limit_def Let_def split: option.splits)

text \<open>C32: a policy cap only moves the boundary earlier. For the same model and limits, the verdict with the
  operator's cap is at least as severe as the verdict without it at every measured context, and it is \<open>COMPACT\<close> in
  exactly the same contexts: the cap is clamped to the native limit and never claims that compaction engages.\<close>

theorem policy_cap_moves_earlier:
  "severity (classify t (build_capacity model c i out m r None enabled))
     \<le> severity (classify t (build_capacity model c i out m r (Some cap) enabled))
   \<and> (classify t (build_capacity model c i out m r (Some cap) enabled) = VCompact
     \<longleftrightarrow> classify t (build_capacity model c i out m r None enabled) = VCompact)"
proof -
  let ?n = "effective_limit (Some c) i out m r"
  have "4 / 5 * of_int (min cap ?n) \<le> (4 / 5 * of_int ?n :: rat)" by simp
  then have warn: "4 / 5 * of_int ?n \<le> (of_int t :: rat) \<Longrightarrow> 4 / 5 * of_int (min cap ?n) \<le> (of_int t :: rat)" by linarith
  show ?thesis
    using warn by (auto simp: classify_def build_capacity_def Let_def WARN_FRACTION_def)
qed

section \<open>Resolved capacities\<close>

lemma if_positive_SomeD: "if_positive i = Some n \<Longrightarrow> 0 < n"
  by (simp add: if_positive_def split: if_splits)

lemma positive_int_pos: "positive_int v = Inr (Some n) \<Longrightarrow> 0 < n"
  by (auto simp: positive_int_def Let_def map_sum_def intro: if_positive_SomeD split: pyval.splits if_splits sum.splits)

lemma max_output_tokens_pos: "(\<And>l. out = Some l \<Longrightarrow> 0 < l) \<Longrightarrow> 0 < max_output_tokens out m"
  by (cases out) (auto simp: max_output_tokens_def Let_def OUTPUT_TOKEN_MAX_DEFAULT_def min_def split: option.splits)

lemma native_below_hard:
  assumes "0 < c" "i = None" "\<And>l. out = Some l \<Longrightarrow> 0 < l"
  shows "effective_limit (Some c) i out m r < c"
  using assms(1,2) max_output_tokens_pos [of out m, OF assms(3)] by (auto simp: effective_limit_def Let_def)

lemma capacity_of_limits_built:
  assumes "capacity_of_limits h model = Inr (Some cap, reason)"
  shows "\<exists>c i out m r override enabled. cap = build_capacity model c i out m r override enabled \<and> 0 < c
           \<and> (\<forall>l. out = Some l \<longrightarrow> 0 < l) \<and> (\<forall>p. override = Some p \<longrightarrow> 0 < p) \<and> 0 < sc_effective_limit cap"
proof -
  obtain c i out m r override where
      "positive_int (pyget (merged_limits h model) ''context'') = Inr (Some c)"
      "positive_int (pyget (merged_limits h model) ''output'') = Inr out"
      "positive_int (env_value (ho_env h) ''FINOPS_SESSION_CTX_LIMIT'') = Inr override"
      "cap = build_capacity model c i out m r override
         (pyget (rc_compaction (load_runtime_config (ho_files h))) ''auto'' \<noteq> PBool False)"
      "0 < sc_effective_limit cap"
    using assms unfolding capacity_of_limits_def Let_def
    by (auto split: sum.splits option.splits if_splits)
  then show ?thesis using positive_int_pos by blast
qed

text \<open>A resolved capacity is usable. Whatever the catalog, the configuration files, the runtime's listing and the
  environment say, when \<open>resolve_capacity\<close> returns a capacity its operative limit is positive and at most the native
  one, the hard limit is positive, a policy limit is the operative limit, and without an input limit the native limit
  is below the hard limit, so compaction comes before the context is full.\<close>

theorem resolved_capacity_bounds:
  assumes "resolve_capacity h db session_id = Inr (Some cap, reason, model)"
  shows "0 < sc_effective_limit cap \<and> sc_effective_limit cap \<le> sc_native_limit cap \<and> 0 < sc_hard_limit cap
    \<and> (\<forall>p. sc_policy_limit cap = Some p \<longrightarrow> p = sc_effective_limit cap)
    \<and> (sc_input_limit cap = None \<longrightarrow> sc_native_limit cap < sc_hard_limit cap)"
proof -
  obtain ref reason' where "capacity_of_limits h ref = Inr (Some cap, reason')"
    using assms by (auto simp: resolve_capacity_def split: sum.splits option.splits prod.splits)
  then obtain c i out m r override enabled where b: "cap = build_capacity ref c i out m r override enabled" "0 < c"
      "\<forall>l. out = Some l \<longrightarrow> 0 < l" "0 < sc_effective_limit cap"
    using capacity_of_limits_built by blast
  have "sc_input_limit cap = None \<longrightarrow> sc_native_limit cap < sc_hard_limit cap"
    using native_below_hard [OF b(2), of i out m r] b(1,3) by (auto simp: build_capacity_def Let_def)
  then show ?thesis using b by (auto simp: build_capacity_def Let_def split: option.splits)
qed

definition small_host :: "string option \<Rightarrow> host" where
  "small_host cap = \<lparr>ho_env = (\<lambda>k. if k = ''FINOPS_SESSION_CTX_LIMIT'' then cap else None), ho_files = [],
     ho_listing = None, ho_catalog_path = ''models.json'',
     ho_catalog = Some [(''p'', PDict [(''models'', PDict [(''m'', PDict [(''limit'',
       PDict [(''context'', PInt 200000), (''output'', PInt 64000)])])])])]\<rparr>"

definition small_db :: "string list \<Rightarrow> session_db" where
  "small_db blobs = \<lparr>sd_path = ''db'', sd_row = Some [(''model'', PDict [(''providerID'', PStr ''p''), (''id'', PStr ''m'')])],
     sd_messages = blobs\<rparr>"

definition small_capacity :: "session_capacity" where
  "small_capacity = build_capacity \<lparr>mr_provider = ''p'', mr_model = ''m'', mr_variant = None, mr_source = ''session.model''\<rparr>
     200000 None (Some 64000) None None (Some 90) True"

lemma small_capacity_resolved:
  "resolve_capacity (small_host (Some '' 90 '')) (small_db blobs) ''s''
     = Inr (Some small_capacity, [], Some (sc_model small_capacity))"
proof -
  have "resolve_session_model (small_db blobs) ''s'' = Inr (Some (sc_model small_capacity), [])"
    by (simp add: resolve_session_model_def small_db_def) code_simp
  moreover have "capacity_of_limits (small_host (Some '' 90 '')) (sc_model small_capacity) = Inr (Some small_capacity, [])"
    by code_simp
  ultimately show ?thesis by (simp add: resolve_capacity_def)
qed

theorem resolved_capacity_bounds_witness:
  "0 < sc_effective_limit small_capacity \<and> sc_effective_limit small_capacity \<le> sc_native_limit small_capacity
    \<and> sc_native_limit small_capacity < sc_hard_limit small_capacity"
  using resolved_capacity_bounds [OF small_capacity_resolved [of "[]"]] by (simp add: small_capacity_def build_capacity_def Let_def)

section \<open>The judgment\<close>

text \<open>C33: no verdict is made up. When the budget check says anything other than \<open>UNJUDGED\<close>, the database was read,
  the session's row exists, every message was read without an exception, and either no assistant message has been
  recorded yet or a capacity was resolved for the session's model; every other case, a corrupt database and an
  exception of the code included, is \<open>UNJUDGED\<close>.\<close>

theorem no_fabricated_verdict:
  assumes "br_verdict (measure_report exc h path db session_id) \<noteq> VUnjudged"
  shows "\<exists>d row s. db = Readable d \<and> sd_row d = Some row \<and> measure_messages no_reading (sd_messages d) = Inr s
    \<and> (bm_turns s = 0 \<or> (\<exists>cap reason model. resolve_capacity h d (py_strip session_id) = Inr (Some cap, reason, model)))"
proof -
  let ?r = "resolve_session exc h path db session_id"
  have judged: "fst (verdict_for ?r) \<noteq> VUnjudged" using assms by (simp add: measure_report_def Let_def)
  have [simp]: "verdict_for r = (VUnjudged, or_default (re_reason r) ''capacity unresolved'', None)" if "re_status r = Unresolved" for r
    using that by (simp add: verdict_for_def)
  obtain d row where d: "db = Readable d" "sd_row d = Some row"
      "?r = resolve_reading exc h d (py_strip session_id) (unresolved session_id [] True)"
    using judged by (auto simp: resolve_session_def unresolved_def Let_def split: database.splits if_splits)
  then have judged': "fst (verdict_for (resolve_reading exc h d (py_strip session_id) (unresolved session_id [] True))) \<noteq> VUnjudged"
    using judged by simp
  then obtain s where s: "measure_messages no_reading (sd_messages d) = Inr s"
    by (auto simp: resolve_reading_def unresolved_def split: sum.splits)
  have "bm_turns s = 0 \<or> (\<exists>cap reason model. resolve_capacity h d (py_strip session_id) = Inr (Some cap, reason, model))"
    using judged' s
    by (auto simp: resolve_reading_def judge_capacity_def unresolved_def verdict_for_def Let_def
        split: sum.splits option.splits prod.splits if_splits)
  with d s show ?thesis by blast
qed

lemma classify_ok:
  assumes "classify t cap = VOk"
  shows "t < sc_hard_limit cap \<and> t < sc_native_limit cap \<and> (\<forall>p. sc_policy_limit cap = Some p \<longrightarrow> t < p)
    \<and> of_int t < sc_warn_fraction cap * of_int (sc_effective_limit cap)"
  using assms by (auto simp: classify_def split: if_splits option.splits)

text \<open>An OK that rests on a reading is below every boundary. When the report says OK and \<open>measured\<close>, a capacity was
  resolved and the current context, the last completed sample, is below the hard limit, the native boundary, the policy
  cap if there is one, and the advisory fraction of the operative limit.\<close>

theorem measured_ok_is_below_limits:
  assumes "br_verdict (measure_report exc h path db session_id) = VOk" "br_measured (measure_report exc h path db session_id)"
  shows "\<exists>d xs cap reason model. db = Readable d \<and> read_samples (sd_messages d) = Inr xs
    \<and> resolve_capacity h d (py_strip session_id) = Inr (Some cap, reason, model)
    \<and> (let t = last (0 # completed_counts xs) in t < sc_hard_limit cap \<and> t < sc_native_limit cap
        \<and> (\<forall>p. sc_policy_limit cap = Some p \<longrightarrow> t < p) \<and> of_int t < sc_warn_fraction cap * of_int (sc_effective_limit cap))"
proof -
  let ?r = "resolve_session exc h path db session_id"
  have m: "re_status ?r = Measured" "\<not> bm_compacted (re_reading ?r)" and ok: "fst (verdict_for ?r) = VOk"
    using assms by (simp_all add: measure_report_def is_measured_reading_def Let_def)
  obtain d row where d: "db = Readable d" "sd_row d = Some row"
      "?r = resolve_reading exc h d (py_strip session_id) (unresolved session_id [] True)"
    using m(1) by (auto simp: resolve_session_def unresolved_def Let_def split: database.splits if_splits)
  obtain s where s: "measure_messages no_reading (sd_messages d) = Inr s"
    using m(1) d(3) by (auto simp: resolve_reading_def unresolved_def split: sum.splits)
  obtain cap reason model where cap: "resolve_capacity h d (py_strip session_id) = Inr (Some cap, reason, model)"
      "re_capacity ?r = Some cap" "re_reading ?r = s"
    using m(1) d(3) s
    by (auto simp: resolve_reading_def judge_capacity_def unresolved_def Let_def split: sum.splits option.splits prod.splits if_splits)
  have "classify (bm_context s) cap = VOk" using ok m cap by (simp add: verdict_for_def Let_def)
  moreover obtain xs where "read_samples (sd_messages d) = Inr xs" "bm_context s = last (0 # completed_counts xs)"
    using s by (cases "read_samples (sd_messages d)")
      (auto simp: measure_messages_foldl summarise_foldl, simp add: summarise_def)
  ultimately show ?thesis using classify_ok [of "bm_context s" cap] d(1) cap(1) by (auto simp: Let_def)
qed

definition one_sample :: string where
  \<open>one_sample = ''{"role": "assistant", "tokens": {"input": 60, "cache": {}}}''\<close>

lemma one_sample_measured: "measure_messages no_reading [one_sample]
    = Inr \<lparr>bm_turns = 1, bm_context = 60, bm_incomplete = False, bm_compacted = False\<rparr>"
  by code_simp

lemma one_sample_report:
  "measure_report exc (small_host (Some '' 90 '')) ''db'' (Readable (small_db [one_sample])) ''s''
     = \<lparr>br_verdict = VOk, br_reason = [], br_backend = True, br_measured = True\<rparr>"
proof -
  have sid: "py_strip ''s'' = ''s''" by code_simp
  have row: "sd_row (small_db [one_sample]) \<noteq> None" "sd_messages (small_db [one_sample]) = [one_sample]"
    by (simp_all add: small_db_def)
  have verdict: "classify 60 small_capacity = VOk" by code_simp
  show ?thesis
    by (simp add: measure_report_def resolve_session_def unresolved_def sid row Let_def resolve_reading_def
        one_sample_measured judge_capacity_def small_capacity_resolved verdict_for_def verdict verdict_reason_def
        with_incomplete_def is_measured_reading_def del: measure_messages.simps)
qed

theorem no_fabricated_verdict_witness:
  "\<exists>d row s. Readable (small_db [one_sample]) = Readable d \<and> sd_row d = Some row
    \<and> measure_messages no_reading (sd_messages d) = Inr s
    \<and> (bm_turns s = 0 \<or> (\<exists>cap reason model.
         resolve_capacity (small_host (Some '' 90 '')) d (py_strip ''s'') = Inr (Some cap, reason, model)))"
  by (rule no_fabricated_verdict [where exc = "\<lambda>_. []" and path = "''db''"]) (simp add: one_sample_report)

theorem measured_ok_is_below_limits_witness:
  "\<exists>d xs cap reason model. Readable (small_db [one_sample]) = Readable d \<and> read_samples (sd_messages d) = Inr xs
    \<and> resolve_capacity (small_host (Some '' 90 '')) d (py_strip ''s'') = Inr (Some cap, reason, model)
    \<and> (let t = last (0 # completed_counts xs) in t < sc_hard_limit cap \<and> t < sc_native_limit cap
        \<and> (\<forall>p. sc_policy_limit cap = Some p \<longrightarrow> t < p) \<and> of_int t < sc_warn_fraction cap * of_int (sc_effective_limit cap))"
  by (rule measured_ok_is_below_limits [where exc = "\<lambda>_. []" and path = "''db''"]) (simp_all add: one_sample_report)

section \<open>Configuration files\<close>

text \<open>A character that \<open>strip_jsonc\<close> copies without looking further.\<close>

definition copied :: "char \<Rightarrow> bool" where
  "copied c \<longleftrightarrow> c \<notin> set [CHR 0x22, CHR ''/'', CHR '','']"

lemma strip_jsonc_copied: "list_all copied w \<Longrightarrow> strip_jsonc (w @ r) = w @ strip_jsonc r"
  by (induction w) (simp_all add: copied_def)

lemma strip_in_string_char: "strip_in_string False (json_char c @ t) = json_char c @ strip_in_string False t"
proof -
  have hex: "hex_digit m \<noteq> CHR 0x22 \<and> hex_digit m \<noteq> CHR 0x5C" if "m < 16" for m
  proof -
    have "list_all (\<lambda>m. hex_digit m \<noteq> CHR 0x22 \<and> hex_digit m \<noteq> CHR 0x5C) [0..<16]" by code_simp
    then show ?thesis using that by (simp add: list_all_iff)
  qed
  have "(of_char c :: nat) < 256" by (metis of_char_mod_256 mod_less_divisor zero_less_numeral)
  then have "(of_char c :: nat) div 16 < 16" by (simp add: less_mult_imp_div_less)
  then show ?thesis using hex by (auto simp: json_char_def Let_def)
qed

lemma strip_in_string_chars:
  "strip_in_string False (concat (map json_char s) @ CHR 0x22 # r) = concat (map json_char s) @ CHR 0x22 # strip_jsonc r"
  by (induction s) (simp_all add: strip_in_string_char)

lemma strip_jsonc_string: "strip_jsonc (json_string s @ r) = json_string s @ strip_jsonc r"
  by (simp add: json_string_def strip_in_string_chars)

lemma digits_copied: "is_digit c \<Longrightarrow> copied c"
proof -
  have "list_all copied ''0123456789''" by code_simp
  moreover assume "is_digit c"
  ultimately show "copied c" by (simp only: is_digit_def list_all_iff)
qed

lemma copied_chars: "copied (CHR ''-'')" "copied (CHR ''.'')" "copied (CHR '' '')" "copied (CHR '':'')" "copied (CHR 0x5B)"
  "copied (CHR 0x5D)" "copied (CHR 0x7B)" "copied (CHR 0x7D)"
  by code_simp+

lemma literals_copied: "list_all copied ''null''" "list_all copied ''true''" "list_all copied ''false''" "list_all copied ''NaN''"
  "list_all copied ''Infinity''" "list_all copied ''-Infinity''"
  by code_simp+

lemma show_nat_copied: "list_all copied (show_nat n)"
  using show_nat_digits [of n] by (auto simp: list_all_iff digits_copied)

lemma show_int_copied: "list_all copied (show_int i)"
  by (simp add: show_int_def show_nat_copied copied_chars)

lemma json_float_copied: "list_all copied (json_float x)"
proof (cases x)
  case (Fin q)
  obtain i f where "repr_float (Fin q) = (if q < 0 then ''-'' else []) @ show_nat i @ CHR ''.'' # f" "list_all is_digit f"
    by (rule repr_float_parts)
  then have "list_all copied (repr_float (Fin q))"
    using show_nat_copied [of i] by (auto simp: copied_chars list_all_iff digits_copied)
  then show ?thesis using Fin by (simp add: json_float_def del: repr_float.simps)
qed (simp_all only: json_float_def pyfloat.case literals_copied)

text \<open>A comma in front of a further value stays.\<close>

lemma value_not_closing:
  assumes "json_plain v" shows "\<not> closes_next (CHR '' '' # json_dumps_plain v @ r)"
proof -
  obtain c t where "json_dumps_plain v = c # t" "value_start c" by (rule dumps_start [OF assms])
  then show ?thesis by (simp add: closes_next_def value_start_def json_space_def)
qed

lemma strip_comma: "\<not> closes_next s \<Longrightarrow> strip_jsonc (CHR '','' # s) = CHR '','' # strip_jsonc s"
  by simp

lemma strip_space: "strip_jsonc (CHR '' '' # s) = CHR '' '' # strip_jsonc s"
  by simp

lemma strip_items:
  assumes "\<And>w r. w \<in> set ws \<Longrightarrow> strip_jsonc (w @ r) = w @ strip_jsonc r"
    and "\<And>w r. w \<in> set ws \<Longrightarrow> \<not> closes_next (CHR '' '' # w @ r)"
  shows "strip_jsonc (comma_sep ws @ r) = comma_sep ws @ strip_jsonc r"
  using assms
proof (induction ws rule: comma_sep.induct)
  case (3 x y xs)
  have "\<exists>t. comma_sep (y # xs) @ r = y @ t" by (cases xs) simp_all
  then have "\<not> closes_next (CHR '' '' # comma_sep (y # xs) @ r)" using 3(3) [of y] by auto
  then show ?case using 3 by (simp add: strip_comma strip_space del: strip_jsonc.simps)
qed simp_all

lemma strip_jsonc_value: "json_plain v \<Longrightarrow> strip_jsonc (json_dumps_plain v @ r) = json_dumps_plain v @ strip_jsonc r"
proof (induction v arbitrary: r)
  case PNone
  then show ?case by simp
next
  case (PBool b)
  then show ?case by simp
next
  case (PList xs)
  have "strip_jsonc (comma_sep (map json_dumps_plain xs) @ t) = comma_sep (map json_dumps_plain xs) @ strip_jsonc t" for t
    by (rule strip_items) (use PList value_not_closing in \<open>auto simp: list_all_iff\<close>)
  then show ?case
    using strip_jsonc_copied [of "[CHR 0x5B]"] strip_jsonc_copied [of "[CHR 0x5D]"]
    by (simp add: json_array_def copied_chars)
next
  case (PDict d)
  let ?member = "\<lambda>(k, v). json_string k @ '': '' @ json_dumps_plain v"
  have member: "strip_jsonc (?member p @ t) = ?member p @ strip_jsonc t" if "p \<in> set d" for p t
  proof -
    obtain k v where p: "p = (k, v)" by (cases p)
    have "json_plain v" using that PDict.prems p by (auto simp: list_all_iff)
    then have v: "strip_jsonc (json_dumps_plain v @ t) = json_dumps_plain v @ strip_jsonc t"
      using PDict.IH [of "(k, v)" v] that p by (simp add: snds.simps)
    have colon: "strip_jsonc ('': '' @ s) = '': '' @ strip_jsonc s" for s
      by (rule strip_jsonc_copied) (simp add: copied_chars)
    show ?thesis unfolding p prod.case append_assoc strip_jsonc_string colon v ..
  qed
  have "strip_jsonc (comma_sep (map ?member d) @ t) = comma_sep (map ?member d) @ strip_jsonc t" for t
  proof (rule strip_items)
    show "strip_jsonc (w @ r) = w @ strip_jsonc r" if "w \<in> set (map ?member d)" for w r
      using that member by (metis (no_types, lifting) imageE list.set_map)
    show "\<not> closes_next (CHR '' '' # w @ r)" if "w \<in> set (map ?member d)" for w r
      using that by (auto simp: closes_next_def json_string_def json_space_def)
  qed
  then show ?case
    using strip_jsonc_copied [of "[CHR 0x7B]"] strip_jsonc_copied [of "[CHR 0x7D]"]
    by (simp add: copied_chars case_prod_unfold)
qed (simp_all add: strip_jsonc_string strip_jsonc_copied show_int_copied json_float_copied
      del: strip_jsonc.simps repr_float.simps)

text \<open>A configuration file in plain JSON is read as it was written. Removing comments and trailing commas leaves
  every text that the JSON writer produces unchanged (a slash or a comma inside a string is not touched), so the
  dictionary whose text is in the file is the configuration that is loaded.\<close>

theorem plain_config_loads:
  assumes "json_plain (PDict d)"
  shows "load_json_config (Some (json_dumps_plain (PDict d))) = d"
proof -
  have "strip_jsonc (json_dumps_plain (PDict d)) = json_dumps_plain (PDict d)"
    using strip_jsonc_value [OF assms, of "[]"] by simp
  then show ?thesis unfolding load_json_config_def by (simp only: option.case json_loads_plain [OF assms] pyval.case)
qed

theorem plain_config_loads_witness:
  \<open>load_json_config (Some (json_dumps_plain (PDict [(''u'', PStr ''a//b,}''), (''n'', PList [PInt 1, PNone])])))
     = [(''u'', PStr ''a//b,}''), (''n'', PList [PInt 1, PNone])]\<close>
  by (rule plain_config_loads) simp

lemma commented_config:
  \<open>load_json_config (Some (''{ // first'' @ [CHR 0x0A] @ ''"a": /* one */ [1, 2,], }'')) = [(''a'', PList [PInt 1, PInt 2])]\<close>
  by code_simp

section \<open>Two observations\<close>

text \<open>Without a cap the verdict only gets more severe as the context grows. With a cap below the native boundary it
  does not: between the cap and the boundary it is CLOSE, and from the boundary on COMPACT.\<close>

lemma severity_grows:
  assumes "sc_policy_limit cap = None" "t \<le> t'"
  shows "severity (classify t cap) \<le> severity (classify t' cap)"
proof -
  have "of_int t \<le> (of_int t' :: rat)" using assms(2) by simp
  then have "sc_warn_fraction cap * of_int (sc_effective_limit cap) \<le> of_int t \<Longrightarrow>
      sc_warn_fraction cap * of_int (sc_effective_limit cap) \<le> of_int t'" by linarith
  then show ?thesis using assms by (auto simp: classify_def)
qed

lemma closed_then_compacts: "classify 100 small_capacity = VClose" "classify 170000 small_capacity = VCompact"
  by code_simp+

text \<open>A model whose context is smaller than the response headroom is reported as having context 0.\<close>

definition tiny_host :: host where
  "tiny_host = (small_host None)\<lparr>ho_catalog := Some [(''p'', PDict [(''models'', PDict [(''m'', PDict [(''limit'',
     PDict [(''context'', PInt 16000)])])])])]\<rparr>"

lemma small_context_called_zero:
  "capacity_of_limits tiny_host (sc_model small_capacity) = Inr (None, zero_limit_reason (sc_model small_capacity))"
  by code_simp

end
