(* ===== verification/Regex_Search.thy ===== *)
theory Regex_Search
  imports Py_Json
begin

text \<open>
  The part of Python's regular expressions that the program searches with: characters, sequences, alternatives,
  bounded and unbounded repetition, word boundaries, line anchors, and the two look-around forms. A position is the
  character before it and the text after it; \<open>run\<close> gives the positions where a match from a position can end, so
  whether a search succeeds does not depend on greediness.
\<close>

type_synonym pos = "char option \<times> string"

datatype rx =
    Ch "char \<Rightarrow> bool"
  | Eps
  | Cat rx rx
  | Alt rx rx
  | Times nat rx
  | Star rx
  | WordB
  | LineStart
  | LineEnd
  | NotBehind "char \<Rightarrow> bool"
  | NotAhead rx

definition word_char :: "char \<Rightarrow> bool" where
  "word_char c = (is_alnum c \<or> c = CHR ''_'')"

definition next_char :: "pos \<Rightarrow> char option" where
  "next_char p = (case snd p of [] \<Rightarrow> None | c # _ \<Rightarrow> Some c)"

definition is_word :: "char option \<Rightarrow> bool" where
  "is_word c = (case c of None \<Rightarrow> False | Some x \<Rightarrow> word_char x)"

definition at_newline :: "char option \<Rightarrow> bool" where
  "at_newline c = (case c of None \<Rightarrow> True | Some x \<Rightarrow> x = CHR 0x0A)"

definition step_char :: "(char \<Rightarrow> bool) \<Rightarrow> pos \<Rightarrow> pos list" where
  "step_char p x = (case snd x of [] \<Rightarrow> [] | c # s \<Rightarrow> if p c then [(Some c, s)] else [])"

text \<open>At most \<open>n\<close> rounds.\<close>

fun rounds :: "nat \<Rightarrow> (pos \<Rightarrow> pos list) \<Rightarrow> pos list \<Rightarrow> pos list" where
  "rounds 0 f ps = ps"
| "rounds (Suc n) f ps = (if ps = [] then [] else ps @ rounds n f (concat (map f ps)))"

text \<open>An unbounded repetition needs no more rounds than there are characters: a round that consumes nothing adds no
  position.\<close>

primrec run :: "rx \<Rightarrow> pos \<Rightarrow> pos list" where
  "run (Ch p) = step_char p"
| "run Eps = (\<lambda>x. [x])"
| "run (Cat a b) = (\<lambda>x. concat (map (run b) (run a x)))"
| "run (Alt a b) = (\<lambda>x. run a x @ run b x)"
| "run (Times n a) = (\<lambda>x. rounds n (run a) [x])"
| "run (Star a) = (\<lambda>x. rounds (length (snd x)) (run a) [x])"
| "run WordB = (\<lambda>x. if is_word (fst x) \<noteq> is_word (next_char x) then [x] else [])"
| "run LineStart = (\<lambda>x. if at_newline (fst x) then [x] else [])"
| "run LineEnd = (\<lambda>x. if at_newline (next_char x) then [x] else [])"
| "run (NotBehind p) = (\<lambda>x. case fst x of None \<Rightarrow> [x] | Some c \<Rightarrow> if p c then [] else [x])"
| "run (NotAhead a) = (\<lambda>x. if run a x = [] then [x] else [])"

fun positions :: "char option \<Rightarrow> string \<Rightarrow> pos list" where
  "positions before [] = [(before, [])]"
| "positions before (c # s) = (before, c # s) # positions (Some c) s"

definition rx_search :: "rx \<Rightarrow> string \<Rightarrow> bool" where
  "rx_search r s = list_ex (\<lambda>p. run r p \<noteq> []) (positions None s)"

definition rx_match :: "rx \<Rightarrow> string \<Rightarrow> bool" where
  "rx_match r s = (run r (None, s) \<noteq> [])"

section \<open>Forms\<close>

definition lit :: "string \<Rightarrow> rx" where
  "lit s = foldr (\<lambda>c r. Cat (Ch ((=) c)) r) s Eps"

definition one_of :: "string list \<Rightarrow> rx" where
  "one_of ss = foldr (\<lambda>s r. Alt (lit s) r) ss (Ch (\<lambda>_. False))"

definition cats :: "rx list \<Rightarrow> rx" where
  "cats rs = foldr Cat rs Eps"

definition opt :: "rx \<Rightarrow> rx" where
  "opt r = Times 1 r"

definition plus_rx :: "rx \<Rightarrow> rx" where
  "plus_rx r = Cat r (Star r)"

definition spaces :: rx where
  "spaces = plus_rx (Ch py_space)"

definition not_newline :: rx where
  "not_newline = Star (Ch (\<lambda>c. c \<noteq> CHR 0x0A))"

definition word :: "string \<Rightarrow> rx" where
  "word s = cats [WordB, lit s, WordB]"

section \<open>Facts about searching\<close>

lemma positions_suffix: "p \<in> set (positions b s) \<Longrightarrow> \<exists>u. s = u @ snd p"
proof (induction b s rule: positions.induct)
  case (2 before c s)
  show ?case
  proof (cases "p = (before, c # s)")
    case False
    then obtain u where "s = u @ snd p" using 2 by auto
    then show ?thesis by (intro exI [of _ "c # u"]) simp
  qed (auto intro: exI [of _ "[]"])
qed simp

lemma run_lit_ends: "q \<in> set (run (lit t) p) \<Longrightarrow> snd p = t @ snd q"
  by (induction t arbitrary: p) (auto simp: lit_def step_char_def split: list.splits if_splits)

lemma run_lit: "run (lit t) (b, t @ s) \<noteq> []"
  by (induction t arbitrary: b) (auto simp: lit_def step_char_def)

lemma positions_has: "\<exists>b'. (b', v) \<in> set (positions b (u @ v))"
  by (induction u arbitrary: b) (auto, (cases v; auto))

text \<open>Searching for a plain text is the substring test.\<close>

lemma rx_search_lit: "rx_search (lit t) s \<longleftrightarrow> (\<exists>u v. s = u @ t @ v)"
proof
  assume "rx_search (lit t) s"
  then obtain p where p: "p \<in> set (positions None s)" "run (lit t) p \<noteq> []"
    unfolding rx_search_def list_ex_iff by blast
  then obtain q where "q \<in> set (run (lit t) p)" by (cases "run (lit t) p") auto
  then show "\<exists>u v. s = u @ t @ v" using positions_suffix [OF p(1)] run_lit_ends by metis
next
  assume "\<exists>u v. s = u @ t @ v"
  then obtain u v where "s = u @ t @ v" by blast
  then show "rx_search (lit t) s"
    using positions_has [of "t @ v" None u] run_lit [of t] by (auto simp: rx_search_def list_ex_iff)
qed

text \<open>The ends of a match: sequences, alternatives, literal texts and repetitions of one character class.\<close>

lemma run_Cat_iff: "q \<in> set (run (Cat a b) p) \<longleftrightarrow> (\<exists>m \<in> set (run a p). q \<in> set (run b m))"
  by auto

lemma search_at: "run r (b, v) \<noteq> [] \<Longrightarrow> \<forall>b. run r (b, v) \<noteq> [] \<Longrightarrow> rx_search r (u @ v)"
  using positions_has [of v None u] by (auto simp: rx_search_def list_ex_iff)

lemma rounds_mono: "x \<in> set ps \<Longrightarrow> x \<in> set (rounds n f ps)"
  by (cases n) auto

lemma rounds_step: "y \<in> set (rounds n f (concat (map f ps))) \<Longrightarrow> y \<in> set (rounds (Suc n) f ps)"
  by (cases "ps = []") (cases n; auto)+

lemma run_star_class:
  "list_all P u \<Longrightarrow> (if u = [] then b else Some (last u), v) \<in> set (run (Star (Ch P)) (b, u @ v))"
proof -
  have "list_all P u \<Longrightarrow> length u \<le> n
    \<Longrightarrow> (if u = [] then b else Some (last u), v) \<in> set (rounds n (step_char P) [(b, u @ v)])" for n
  proof (induction u arbitrary: b n)
    case (Cons c u)
    then obtain m where m: "n = Suc m" by (cases n) auto
    have "(if u = [] then Some c else Some (last u), v) \<in> set (rounds m (step_char P) [(Some c, u @ v)])"
      using Cons m by simp
    moreover have "step_char P (b, (c # u) @ v) = [(Some c, u @ v)]"
      using Cons.prems by (simp add: step_char_def)
    ultimately show ?case by (cases "u = []") (simp_all add: m)
  qed (simp add: rounds_mono)
  then show "list_all P u \<Longrightarrow> ?thesis" by simp
qed

lemma run_lit_end: "t \<noteq> [] \<Longrightarrow> (Some (last t), s) \<in> set (run (lit t) (b, t @ s))"
proof (induction t arbitrary: b)
  case (Cons c t)
  then show ?case by (cases t) (auto simp: lit_def step_char_def)
qed simp

lemma run_one_of: "q \<in> set (run (one_of ts) p) \<Longrightarrow> \<exists>t \<in> set ts. snd p = t @ snd q"
  by (induction ts) (auto simp: one_of_def step_char_def split: list.splits dest: run_lit_ends)

lemma run_one_of_in: "t \<in> set ts \<Longrightarrow> q \<in> set (run (lit t) p) \<Longrightarrow> q \<in> set (run (one_of ts) p)"
  by (induction ts) (auto simp: one_of_def)

text \<open>A match consumes a prefix of what is left.\<close>

lemma rounds_suffix:
  assumes "\<And>p q. q \<in> set (f p) \<Longrightarrow> \<exists>u. snd p = u @ snd q" and "q \<in> set (rounds n f ps)"
  shows "\<exists>p \<in> set ps. \<exists>u. snd p = u @ snd q"
  using assms(2)
proof (induction n arbitrary: ps)
  case (Suc n)
  show ?case
  proof (cases "q \<in> set ps")
    case False
    then have "q \<in> set (rounds n f (concat (map f ps)))" using Suc.prems by (simp split: if_splits)
    then obtain p m u where p: "p \<in> set ps" "m \<in> set (f p)" "snd m = u @ snd q" using Suc.IH by fastforce
    obtain v where "snd p = v @ snd m" using assms(1) p(2) by blast
    then show ?thesis using p by (intro bexI [of _ p] exI [of _ "v @ u"]) simp_all
  qed (auto intro: exI [of _ "[]"])
qed (auto intro: exI [of _ "[]"])

lemma run_suffix: "q \<in> set (run r p) \<Longrightarrow> \<exists>u. snd p = u @ snd q"
proof (induction r arbitrary: p q)
  case (Cat a b)
  then obtain m where "m \<in> set (run a p)" "q \<in> set (run b m)" by auto
  then obtain u v where "snd p = u @ snd m" "snd m = v @ snd q" using Cat.IH by meson
  then show ?case by simp
next
  case (Times n r)
  then show ?case using rounds_suffix [of "run r" q n "[p]"] by auto
next
  case (Star r)
  then show ?case using rounds_suffix [of "run r" q _ "[p]"] by auto
next
  case (Ch P)
  then show ?case by (cases "snd p") (auto simp: step_char_def split: if_splits)
next
  case (Alt a b)
  then show ?case by (cases "q \<in> set (run a p)") (metis, metis UnE run.simps(4) set_append)
qed (auto split: if_splits option.splits intro: exI [of _ "[]"])

text \<open>Where no character of the first class occurs, a repetition that needs one stays in place.\<close>

lemma rounds_stuck: "f x = [] \<Longrightarrow> rounds n f [x] = [x]"
proof (cases n)
  case (Suc m)
  assume "f x = []"
  then show ?thesis using Suc by (cases m) simp_all
qed simp

lemma regex_check:
  "rx_search (cats [word ''ab'', not_newline, word ''cd'']) ''x ab-- cd''"
  "\<not> rx_search (cats [word ''ab'', not_newline, word ''cd'']) ''x abc cd''"
  "rx_match (cats [Star (Cat (one_of [''a='', ''b='']) spaces), lit ''go'']) ''a= b=  go''"
  by code_simp+

end
