(* ===== verification/Deploy_Gate.thy ===== *)
theory Deploy_Gate
  imports Regex_Search Json_Text Plan_Reducers
begin

text \<open>
  The deploy gate of the workflow runner (runtime/workflow_runner.py): after an agent phase the transcript of its
  session is scanned for production deploys, in the commands its shell tool ran and in the output of such commands, and a
  phase without the \<open>deploy_allowed\<close> marker that ran one fails. The transcript is its text, or \<open>None\<close> where it
  cannot be read.
\<close>

section \<open>The patterns\<close>

definition production_hosts :: "string list" where
  "production_hosts = [''agentic-dynamics'', ''ai-finops-rulebook'']"

definition DEPLOY_PATTERNS :: "(rx \<times> string) list" where
  "DEPLOY_PATTERNS =
     [(cats [word ''firebase'', not_newline, word ''deploy''], ''firebase deploy''),
      (cats [word ''firebase'', not_newline, WordB, lit ''--project'', spaces, one_of production_hosts, WordB],
       ''firebase --project <production-host>''),
      (cats [word ''firebase'', not_newline, WordB, lit ''hosting'', spaces, lit ''deploy'', WordB],
       ''firebase hosting deploy'')]"

definition unquoted :: "char \<Rightarrow> bool" where
  "unquoted c = (c \<noteq> CHR 0x22 \<and> c \<noteq> CHR 0x27 \<and> c \<noteq> CHR 0x0A)"

definition DEPLOY_OUTPUT_PATTERNS :: "(rx \<times> string) list" where
  "DEPLOY_OUTPUT_PATTERNS =
     [(cats [LineStart, NotAhead (Cat (Star (Ch unquoted)) (one_of [''compile('', ''r'' @ [CHR 0x22], ''print(''])),
             Star (Ch unquoted), lit ''Deploy'', spaces, lit ''complete!'', LineEnd],
       ''firebase deploy output (Deploy complete!)''),
      (cats [lit ''hosting['', one_of production_hosts, lit '']'', not_newline,
             one_of [''beginning'', ''deploying'', ''Deploying'', ''complete'', ''Complete'']],
       ''firebase hosting[<production-host>] output''),
      (cats [lit ''Hosting URL: https://'', one_of production_hosts, lit ''.web.app''], ''firebase Hosting URL output'')]"

definition first_label :: "(rx \<times> string) list \<Rightarrow> string \<Rightarrow> string option" where
  "first_label patterns s = map_option snd (List.find (\<lambda>(r, _). rx_search r s) patterns)"

section \<open>The command tier\<close>

definition known_launchers :: "string list" where
  "known_launchers = [''npx '', ''yarn '', ''sudo '', ''firebase '', ''./firebase'', ''env '']"

definition ident_start :: "char \<Rightarrow> bool" where
  "ident_start c = (c \<in> set ''ABCDEFGHIJKLMNOPQRSTUVWXYZabcdefghijklmnopqrstuvwxyz_'')"

definition ident_char :: "char \<Rightarrow> bool" where
  "ident_char c = (ident_start c \<or> is_digit c)"

text \<open>\<open>NAME=value \<close> in front of a command, and an optional launcher.\<close>

definition assignment :: rx where
  "assignment = cats [Ch ident_start, Star (Ch ident_char), lit ''='', Star (Ch (\<lambda>c. \<not> py_space c)), spaces]"

definition opt_launcher :: rx where
  "opt_launcher = opt (Alt (Cat (lit ''npx'') spaces) (Cat (lit ''sudo'') spaces))"

definition chain_ops :: rx where
  "chain_ops = one_of [''&&'', ''||'', '';'']"

definition starts_at_command :: "string \<Rightarrow> bool" where
  "starts_at_command head =
     (starts_with head ''firebase'' \<or> list_ex (starts_with head) known_launchers
      \<or> rx_match (cats [assignment, opt_launcher, lit ''firebase'', WordB]) head)"

definition chain_ok :: "string \<Rightarrow> bool" where
  "chain_ok head =
     rx_search (cats [chain_ops, Star (Ch py_space), opt_launcher, lit ''firebase'', WordB]) head"

definition wrap_prefix :: rx where
  "wrap_prefix = Star (cats [opt assignment, chain_ops, spaces])"

definition quote_char :: rx where
  "quote_char = Ch (\<lambda>c. c = CHR 0x22 \<or> c = CHR 0x27)"

definition wrap_at_command :: "string \<Rightarrow> bool" where
  "wrap_at_command head =
     (rx_match (cats [wrap_prefix, one_of [''sh'', ''bash''], spaces, lit ''-c'', spaces, quote_char]) head
      \<or> rx_match (cats [wrap_prefix, lit ''eval'', spaces, quote_char]) head)"

text \<open>\<open>s.split(sep)[-1]\<close> for a non-empty separator; the first argument is the piece so far.\<close>

function last_piece_from :: "string \<Rightarrow> string \<Rightarrow> string \<Rightarrow> string" where
  "last_piece_from sep cur [] = cur"
| "last_piece_from sep cur (c # s) =
     (if starts_with (c # s) sep then last_piece_from sep (drop (length sep - 1) s) (drop (length sep - 1) s)
      else last_piece_from sep cur s)"
  by pat_completeness auto
termination by (relation "measure (\<lambda>(_, _, s). length s)") (auto simp: less_Suc_eq_le)

definition last_piece :: "string \<Rightarrow> string \<Rightarrow> string" where
  "last_piece sep s = last_piece_from sep s s"

definition wrap_ok :: "string \<Rightarrow> bool" where
  "wrap_ok head =
     (wrap_at_command head
      \<and> rx_search (Cat (lit ''firebase'') WordB) (last_piece '';'' (last_piece ''||'' (last_piece ''&&'' head))))"

definition deploy_pattern_match :: "string \<Rightarrow> string option" where
  "deploy_pattern_match command =
     (let head = dropWhile py_space command in
      if starts_at_command head \<or> chain_ok head \<or> wrap_ok head then first_label DEPLOY_PATTERNS head else None)"

definition deploy_output_pattern_match :: "string \<Rightarrow> string option" where
  "deploy_output_pattern_match output = first_label DEPLOY_OUTPUT_PATTERNS output"

section \<open>The transcript\<close>

text \<open>The state of a shell tool event.\<close>

definition bash_state :: "pydict \<Rightarrow> pydict option" where
  "bash_state event =
     (if pyget event ''type'' \<noteq> PStr ''tool_use'' then None
      else (case pyget_or event ''part'' (PDict []) of
              PDict part \<Rightarrow> if pyget part ''tool'' \<noteq> PStr ''bash'' then None
                else as_pydict (pyget_or part ''state'' (PDict []))
            | _ \<Rightarrow> None))"

definition command_from_event :: "pydict \<Rightarrow> pyval option" where
  "command_from_event event =
     (case bash_state event of None \<Rightarrow> None
      | Some state \<Rightarrow>
          (let inp = pyget_or state ''input'' (PStr []);
               command = (case inp of PDict d \<Rightarrow> pyget_or d ''command'' (PStr []) | _ \<Rightarrow> PStr (py_str inp))
           in if truthy command then Some command else None))"

definition output_from_event :: "pydict \<Rightarrow> string" where
  "output_from_event event =
     (case bash_state event of None \<Rightarrow> []
      | Some state \<Rightarrow>
          (case pyget_or state ''output'' (PStr []) of
             PDict d \<Rightarrow> or_text (pyget_or d ''output'' (PStr [])) []
           | v \<Rightarrow> or_text v []))"

record violation =
  vi_command :: string
  vi_pattern :: string
  vi_line :: string

definition deploy_words :: rx where
  "deploy_words = cats [WordB, one_of [''firebase'', ''deploy'', ''hosting''], WordB]"

text \<open>What one command of an event and its output give; the command is a text, or the code raises.\<close>

definition command_violation :: "string \<Rightarrow> string \<Rightarrow> string option" where
  "command_violation command output =
     (case deploy_pattern_match command of
        Some label \<Rightarrow> Some label
      | None \<Rightarrow> if rx_search deploy_words command then deploy_output_pattern_match output else None)"

definition event_violations :: "string \<Rightarrow> pydict \<Rightarrow> py_error + violation list" where
  "event_violations line event =
     (case command_from_event event of
        None \<Rightarrow> Inr []
      | Some (PStr command) \<Rightarrow>
          (case command_violation command (output_from_event event) of
             None \<Rightarrow> Inr []
           | Some label \<Rightarrow> Inr [\<lparr>vi_command = command, vi_pattern = label, vi_line = take 2000 line\<rparr>])
      | Some _ \<Rightarrow> Inl AttributeError)"

definition line_violations :: "string \<Rightarrow> py_error + violation list" where
  "line_violations raw =
     (let line = py_strip raw in
      if line = [] then Inr []
      else (case json_loads line of Some (PDict event) \<Rightarrow> event_violations line event | _ \<Rightarrow> Inr []))"

definition scan_transcript_for_deploys :: "string option \<Rightarrow> py_error + violation list" where
  "scan_transcript_for_deploys transcript =
     (case transcript of None \<Rightarrow> Inr [] | Some t \<Rightarrow> append_all (map line_violations (splitlines t)))"

section \<open>The gate\<close>

record phase_outcome =
  po_status :: string
  po_error :: string
  po_deploy_gate :: "violation list option"

definition gate_message :: "violation list \<Rightarrow> string" where
  "gate_message vs =
     ''DEPLOY_GATE '' @ [CHR 0xE2, CHR 0x80, CHR 0x94] @ '' firebase production deploy in phase not marked deploy_allowed: ''
     @ concat (case map (\<lambda>v. [CHR 0x27] @ vi_command v @ [CHR 0x27]) vs of [] \<Rightarrow> []
               | x # xs \<Rightarrow> x # map (\<lambda>y. ''; '' @ y) xs)"

definition enforce_deploy_gate :: "pydict \<Rightarrow> string option \<Rightarrow> phase_outcome \<Rightarrow> py_error + phase_outcome" where
  "enforce_deploy_gate phase_def transcript pr =
     (if truthy (pyget_or phase_def ''deploy_allowed'' (PBool False)) then Inr pr
      else (case scan_transcript_for_deploys transcript of
              Inl e \<Rightarrow> Inl e
            | Inr [] \<Rightarrow> Inr pr
            | Inr vs \<Rightarrow>
                Inr (if po_status pr = ''ok''
                     then pr\<lparr>po_deploy_gate := Some vs, po_status := ''failed'', po_error := gate_message vs\<rparr>
                     else pr\<lparr>po_deploy_gate := Some vs, po_error := po_error pr @ [CHR 0x0A] @ gate_message vs\<rparr>)))"

end
