(* ===== verification/Deploy_Facts.thy ===== *)
theory Deploy_Facts
  imports Deploy_Gate
begin

text \<open>
  Facts about the deploy gate: which commands its command tier catches, which it leaves alone, and what the gate does to
  the outcome of a phase.
\<close>

section \<open>Commands\<close>

lemma nonempty_member: "xs \<noteq> [] \<Longrightarrow> \<exists>q. q \<in> set xs"
  by (cases xs) auto

lemma member_nonempty: "q \<in> set xs \<Longrightarrow> xs \<noteq> []"
  by auto

lemma first_label_head: "rx_search r s \<Longrightarrow> first_label ((r, l) # ps) s = Some l"
  by (simp add: first_label_def)

text \<open>\<open>firebase \<dots> deploy\<close> on one line matches the first pattern.\<close>

lemma run_word:
  assumes "b = None \<or> (\<exists>c. b = Some c \<and> \<not> word_char c)" and "t \<noteq> []" "word_char (hd t)" "word_char (last t)"
    and "v = [] \<or> \<not> word_char (hd v)"
  shows "(Some (last t), v) \<in> set (run (word t) (b, t @ v))"
proof -
  have "next_char (b, t @ v) = Some (hd t)" using assms(2) by (cases t) (auto simp: next_char_def)
  then have "is_word b \<noteq> is_word (next_char (b, t @ v))" using assms(1,3) by (auto simp: is_word_def)
  moreover have "is_word (Some (last t)) \<noteq> is_word (next_char (Some (last t), v))"
    using assms(4,5) by (cases v) (auto simp: is_word_def next_char_def)
  ultimately show ?thesis
    using run_lit_end [OF assms(2), of v b] by (auto simp: word_def cats_def)
qed

lemma deploy_line_matches:
  assumes "b = None \<or> (\<exists>c. b = Some c \<and> \<not> word_char c)" and "CHR 0x0A \<notin> set args"
  shows "run (fst (hd DEPLOY_PATTERNS)) (b, ''firebase '' @ args @ '' deploy'') \<noteq> []"
proof -
  let ?v = "('' '' @ args @ '' '') @ ''deploy''"
  have f: "(Some CHR ''e'', ?v) \<in> set (run (word ''firebase'') (b, ''firebase'' @ ?v))"
    using run_word [of b "''firebase''" ?v] assms(1) by (simp add: word_char_def is_alnum_def)
  have n: "(Some CHR '' '', ''deploy'') \<in> set (run not_newline (Some CHR ''e'', ?v))"
    using run_star_class [of "\<lambda>c. c \<noteq> CHR 0x0A" "'' '' @ args @ '' ''" "Some CHR ''e''" "''deploy''"] assms(2)
    by (auto simp: not_newline_def list_all_iff simp del: run.simps)
  have d: "(Some CHR ''y'', []) \<in> set (run (word ''deploy'') (Some CHR '' '', ''deploy'' @ []))"
    using run_word [of "Some CHR '' ''" "''deploy''" "[]"] by (simp add: word_char_def is_alnum_def)
  have "(Some CHR ''y'', []) \<in> set (run (fst (hd DEPLOY_PATTERNS)) (b, ''firebase'' @ ?v))"
    unfolding DEPLOY_PATTERNS_def cats_def foldr.simps o_def list.sel fst_conv
    unfolding run_Cat_iff using f n d by (force simp del: run.simps(1,3-11) simp: run_Cat_iff)
  then show ?thesis by auto
qed

text \<open>The prefixes after which \<open>firebase\<close> stands at the command position: nothing, or a chain operator and
  spaces, each with an optional launcher.\<close>

definition launcher_texts :: "string list" where
  "launcher_texts = ['''', ''npx '', ''sudo '']"

definition command_position :: "string \<Rightarrow> bool" where
  "command_position pre \<longleftrightarrow>
     (\<exists>sp. \<exists>l \<in> set launcher_texts. list_all py_space sp
        \<and> (pre = sp @ l \<or> (\<exists>u. \<exists>op \<in> set [''&&'', ''||'', '';'']. pre = u @ op @ sp @ l)))"

lemma run_firebase_word:
  assumes "v = [] \<or> \<not> word_char (hd v)"
  shows "run (Cat (lit ''firebase'') (Cat WordB Eps)) (b, ''firebase'' @ v) \<noteq> []"
proof -
  have "(Some CHR ''e'', v) \<in> set (run (lit ''firebase'') (b, ''firebase'' @ v))"
    using run_lit_end [of "''firebase''" v b] by simp
  moreover have "(Some CHR ''e'', v) \<in> set (run (Cat WordB Eps) (Some CHR ''e'', v))"
    using assms by (cases v) (auto simp: is_word_def next_char_def word_char_def is_alnum_def)
  ultimately have "(Some CHR ''e'', v) \<in> set (run (Cat (lit ''firebase'') (Cat WordB Eps)) (b, ''firebase'' @ v))"
    by (simp only: run_Cat_iff) blast
  then show ?thesis by (rule member_nonempty)
qed

lemma run_launcher:
  assumes "l \<in> set launcher_texts" and "v = [] \<or> \<not> word_char (hd v)"
  shows "run (cats [opt_launcher, lit ''firebase'', WordB]) (b, l @ ''firebase'' @ v) \<noteq> []"
proof -
  have "\<exists>b'. (b', ''firebase'' @ v) \<in> set (run opt_launcher (b, l @ ''firebase'' @ v))"
  proof -
    consider "l = []" | "l = ''npx ''" | "l = ''sudo ''" using assms(1) by (auto simp: launcher_texts_def)
    then show ?thesis
      by cases (auto simp: opt_launcher_def opt_def lit_def spaces_def plus_rx_def step_char_def py_space_def)
  qed
  then obtain b' where "(b', ''firebase'' @ v) \<in> set (run opt_launcher (b, l @ ''firebase'' @ v))" by blast
  moreover obtain q where "q \<in> set (run (Cat (lit ''firebase'') (Cat WordB Eps)) (b', ''firebase'' @ v))"
    using run_firebase_word [OF assms(2), of b'] using nonempty_member by blast
  ultimately have "q \<in> set (run (cats [opt_launcher, lit ''firebase'', WordB]) (b, l @ ''firebase'' @ v))"
    unfolding cats_def foldr.simps o_def run_Cat_iff [of q opt_launcher] by (auto simp del: run.simps)
  then show ?thesis by (rule member_nonempty)
qed

lemma chain_matches:
  assumes "op \<in> set [''&&'', ''||'', '';'']" "list_all py_space sp" "l \<in> set launcher_texts"
    and "v = [] \<or> \<not> word_char (hd v)"
  shows "chain_ok (u @ op @ sp @ l @ ''firebase'' @ v)"
proof -
  let ?r = "cats [chain_ops, Star (Ch py_space), opt_launcher, lit ''firebase'', WordB]"
  let ?t = "l @ ''firebase'' @ v"
  have "run ?r (b, op @ sp @ ?t) \<noteq> []" for b
  proof -
    have o: "(Some (last op), sp @ ?t) \<in> set (run chain_ops (b, op @ sp @ ?t))"
      unfolding chain_ops_def using assms(1) by (intro run_one_of_in [of op] run_lit_end) auto
    obtain c where c: "(c, ?t) \<in> set (run (Star (Ch py_space)) (Some (last op), sp @ ?t))"
      using run_star_class [OF assms(2)] by blast
    obtain q where q: "q \<in> set (run (cats [opt_launcher, lit ''firebase'', WordB]) (c, ?t))"
      using run_launcher [OF assms(3,4), of c] using nonempty_member by blast
    have "q \<in> set (run (Cat chain_ops (Cat (Star (Ch py_space)) (cats [opt_launcher, lit ''firebase'', WordB])))
      (b, op @ sp @ ?t))"
      using o c q by (simp only: run_Cat_iff) blast
    moreover have "?r = Cat chain_ops (Cat (Star (Ch py_space)) (cats [opt_launcher, lit ''firebase'', WordB]))"
      by (simp add: cats_def)
    ultimately show ?thesis using member_nonempty by metis
  qed
  then show ?thesis unfolding chain_ok_def using search_at [of ?r _ "op @ sp @ ?t" u] by auto
qed

lemma positions_at: "(if u = [] then b else Some (last u), v) \<in> set (positions b (u @ v))"
proof (induction u arbitrary: b)
  case Nil
  then show ?case by (cases v) auto
next
  case (Cons c u)
  then show ?case using Cons.IH [of "Some c"] by (cases "u = []") auto
qed

lemma deploy_line_found:
  assumes "u = [] \<or> \<not> word_char (last u)" and "CHR 0x0A \<notin> set args"
  shows "first_label DEPLOY_PATTERNS (u @ ''firebase '' @ args @ '' deploy'') = Some ''firebase deploy''"
proof -
  let ?v = "''firebase '' @ args @ '' deploy''"
  let ?b = "if u = [] then None else Some (last u)"
  have "run (fst (hd DEPLOY_PATTERNS)) (?b, ?v) \<noteq> []"
    using deploy_line_matches [of ?b args] assms by auto
  then have "rx_search (fst (hd DEPLOY_PATTERNS)) (u @ ?v)"
    unfolding rx_search_def list_ex_iff using positions_at [of u None ?v] by blast
  then show ?thesis by (simp add: DEPLOY_PATTERNS_def first_label_head)
qed

lemma dropWhile_spaces: "list_all P sp \<Longrightarrow> v = [] \<or> \<not> P (hd v) \<Longrightarrow> dropWhile P (sp @ v) = v"
  by (induction sp) (auto, cases v, auto)

lemma dropWhile_keeps: "v \<noteq> [] \<Longrightarrow> \<not> P (hd v) \<Longrightarrow> \<exists>u'. dropWhile P (u @ v) = u' @ v"
proof (induction u)
  case Nil
  then show ?case by (cases v) (auto intro: exI [of _ "[]"])
next
  case (Cons c u)
  then show ?case by (cases "P c") (auto intro: exI [of _ "c # u"])
qed



section \<open>Commands that only mention a deploy\<close>

lemma contains_str_iff: "contains_str s p \<longleftrightarrow> (\<exists>u v. s = u @ p @ v)"
proof (induction s)
  case (Cons c s)
  have "starts_with (c # s) p \<longleftrightarrow> (\<exists>v. c # s = p @ v)"
    unfolding starts_with_def by (metis append_eq_conv_conj append_take_drop_id)
  moreover have "(\<exists>u v. c # s = u @ p @ v) \<longleftrightarrow> (\<exists>v. c # s = p @ v) \<or> (\<exists>u v. s = u @ p @ v)"
    by (metis append_Cons append_Nil neq_Nil_conv list.inject)
  ultimately show ?case using Cons by simp
qed auto

lemma one_of_starts: "run (one_of ts) p \<noteq> [] \<Longrightarrow> \<exists>t \<in> set ts. \<exists>v. snd p = t @ v"
  using nonempty_member [of "run (one_of ts) p"] run_one_of by blast

lemma lit_starts: "run (lit t) p \<noteq> [] \<Longrightarrow> \<exists>v. snd p = t @ v"
  using nonempty_member [of "run (lit t) p"] run_lit_ends by blast

lemma cats_first: "run (cats (r # rs)) p \<noteq> [] \<Longrightarrow> \<exists>m \<in> set (run r p). run (cats rs) m \<noteq> []"
proof -
  assume "run (cats (r # rs)) p \<noteq> []"
  then have "concat (map (run (cats rs)) (run r p)) \<noteq> []" by (simp add: cats_def)
  then show ?thesis by (auto simp: concat_eq_Nil_conv)
qed

lemma cats_starts: "run (cats (r # rs)) p \<noteq> [] \<Longrightarrow> run r p \<noteq> []"
  using cats_first by (metis list.set(1) empty_iff)

lemma no_chain:
  assumes "\<forall>op \<in> set [''&&'', ''||'', '';'']. \<not> contains_str s op" and "s = u @ snd p"
  shows "run chain_ops p = []"
  using one_of_starts [of "[''&&'', ''||'', '';'']" p] assms unfolding chain_ops_def contains_str_iff by metis

lemma wrap_prefix_stays:
  assumes "\<forall>op \<in> set [''&&'', ''||'', '';'']. \<not> contains_str s op"
  shows "run wrap_prefix (None, s) = [(None, s)]"
proof -
  have "run (cats [opt assignment, chain_ops, spaces]) (None, s) = []"
  proof (rule ccontr)
    assume "\<not> ?thesis"
    then obtain m where m: "m \<in> set (run (opt assignment) (None, s))" "run (cats [chain_ops, spaces]) m \<noteq> []"
      using cats_first by blast
    moreover obtain u where "s = u @ snd m" using run_suffix [OF m(1)] by auto
    ultimately show False using no_chain [OF assms] cats_starts by blast
  qed
  then show ?thesis unfolding wrap_prefix_def run.simps(6) by (rule rounds_stuck)
qed

lemma match_wrap_form:
  assumes "\<forall>op \<in> set [''&&'', ''||'', '';'']. \<not> contains_str s op" and "rx_match (cats (wrap_prefix # r # rs)) s"
  shows "run r (None, s) \<noteq> []"
proof -
  obtain m where "m \<in> set (run wrap_prefix (None, s))" "run (cats (r # rs)) m \<noteq> []"
    using cats_first assms(2) unfolding rx_match_def by blast
  then have "run (cats (r # rs)) (None, s) \<noteq> []" using wrap_prefix_stays [OF assms(1)] by auto
  then show ?thesis by (rule cats_starts)
qed

text \<open>A command that is none of the launchers, has no chain operator and is no shell wrap is never a deploy: a commit
  message or a search pattern that quotes the command passes the command tier.\<close>

theorem mentions_are_not_deploys:
  assumes "head = dropWhile py_space command" and "\<not> starts_at_command head"
    and "\<forall>op \<in> set [''&&'', ''||'', '';'']. \<not> contains_str head op"
    and "\<forall>w \<in> set [''sh'', ''bash'', ''eval'']. \<not> starts_with head w"
  shows "deploy_pattern_match command = None"
proof -
  have "\<not> chain_ok head"
  proof
    assume "chain_ok head"
    then obtain p where "p \<in> set (positions None head)" "run chain_ops p \<noteq> []"
      unfolding chain_ok_def rx_search_def list_ex_iff using cats_starts by blast
    then show False using no_chain [OF assms(3)] positions_suffix by blast
  qed
  moreover have "\<not> wrap_at_command head"
  proof
    assume "wrap_at_command head"
    then have "run (one_of [''sh'', ''bash'']) (None, head) \<noteq> [] \<or> run (lit ''eval'') (None, head) \<noteq> []"
      unfolding wrap_at_command_def using match_wrap_form [OF assms(3)] by blast
    then have "\<exists>w \<in> set [''sh'', ''bash'', ''eval'']. \<exists>v. head = w @ v"
      using one_of_starts [of _ "(None, head)"] lit_starts [of _ "(None, head)"] by fastforce
    then show False using assms(4) by (auto simp: starts_with_def)
  qed
  ultimately show ?thesis using assms(1,2) by (simp add: deploy_pattern_match_def wrap_ok_def)
qed

theorem mentions_are_not_deploys_witness:
  "deploy_pattern_match ''  git commit -m (run firebase deploy later)'' = None"
  by (rule mentions_are_not_deploys [OF refl]) code_simp+

section \<open>The documented forms that are missed\<close>

text \<open>The comment lists \<open>cmd | firebase deploy\<close> and a compound command; a single bar and a new line are not
  chain operators of the code, and no command-line option matches \<open>\b--project\<close> after a space.\<close>

lemma piped_deploy_missed: "deploy_pattern_match ''cat x | firebase deploy'' = None"
  by code_simp

lemma second_line_deploy_missed: "deploy_pattern_match (''cd x'' @ [CHR 0x0A] @ ''firebase deploy'') = None"
  by code_simp

lemma project_flag_missed: "deploy_pattern_match ''firebase --project agentic-dynamics use'' = None"
  by code_simp

section \<open>The gate\<close>

lemma append_all_Inr:
  "append_all rs = Inr xs \<Longrightarrow> (\<forall>r \<in> set rs. \<exists>ys. r = Inr ys) \<and> set xs = (\<Union>r \<in> set rs. case r of Inr ys \<Rightarrow> set ys | _ \<Rightarrow> {})"
  by (induction rs arbitrary: xs rule: append_all.induct) (auto split: sum.splits)

text \<open>The deploys a transcript shows: an event of a line whose command, or whose output, matches.\<close>

definition shows_deploy :: "string \<Rightarrow> string \<Rightarrow> string \<Rightarrow> bool" where
  "shows_deploy raw command label \<longleftrightarrow>
     (\<exists>event. json_loads (py_strip raw) = Some (PDict event) \<and> command_from_event event = Some (PStr command)
        \<and> command_violation command (output_from_event event) = Some label)"

lemma json_loads_empty: "json_loads [] = None"
  by code_simp

lemma line_violations_iff:
  assumes "line_violations raw = Inr vs"
  shows "v \<in> set vs \<longleftrightarrow> shows_deploy raw (vi_command v) (vi_pattern v) \<and> vi_line v = take 2000 (py_strip raw) \<and> vs = [v]"
  using assms
  by (cases v) (auto simp: line_violations_def Let_def event_violations_def shows_deploy_def json_loads_empty
      split: if_splits option.splits pyval.splits)

lemma scan_iff:
  assumes "scan_transcript_for_deploys (Some t) = Inr vs"
  shows "v \<in> set vs \<longleftrightarrow> (\<exists>raw \<in> set (splitlines t).
    shows_deploy raw (vi_command v) (vi_pattern v) \<and> vi_line v = take 2000 (py_strip raw))"
proof -
  have all: "append_all (map line_violations (splitlines t)) = Inr vs"
    using assms by (simp add: scan_transcript_for_deploys_def)
  have each: "\<exists>ys. line_violations raw = Inr ys" if "raw \<in> set (splitlines t)" for raw
    using append_all_Inr [OF all] that by auto
  have "v \<in> set vs \<longleftrightarrow> (\<exists>raw \<in> set (splitlines t). \<exists>ys. line_violations raw = Inr ys \<and> v \<in> set ys)"
    using append_all_Inr [OF all] each by (fastforce split: sum.splits)
  moreover have "(\<exists>ys. line_violations raw = Inr ys \<and> v \<in> set ys) \<longleftrightarrow>
      shows_deploy raw (vi_command v) (vi_pattern v) \<and> vi_line v = take 2000 (py_strip raw)"
    if raw: "raw \<in> set (splitlines t)" for raw
  proof -
    obtain ys where ys: "line_violations raw = Inr ys" using each [OF raw] by blast
    show ?thesis
    proof
      assume d: "shows_deploy raw (vi_command v) (vi_pattern v) \<and> vi_line v = take 2000 (py_strip raw)"
      then have "ys = [v]"
        using ys by (cases v) (auto simp: line_violations_def Let_def event_violations_def shows_deploy_def json_loads_empty
            split: if_splits)
      then show "\<exists>ys. line_violations raw = Inr ys \<and> v \<in> set ys" using ys by simp
    qed (use line_violations_iff in blast)
  qed
  ultimately show ?thesis by blast
qed


text \<open>A phase that ran a deploy in its shell tool.\<close>

definition deploy_event :: string where
  \<open>deploy_event = ''{"type":"tool_use","part":{"tool":"bash","state":{"input":{"command":"firebase deploy"}}}}''\<close>


end
