(* ===== verification/Fact_Contracts.thy ===== *)
theory Fact_Contracts
  imports Profile_Composition
begin

text \<open>
  The compile-time gate on the facts that rules consume (core/contracts.py, refusals R1 to R11). The registries of
  predicates and reducers and the loaded contracts are arguments, as in the code.
\<close>

section \<open>Rules\<close>

record rule_spec =
  rl_name :: string
  rl_plane :: string
  rl_evidence_class :: string
  rl_requires :: "string list"
  rl_produces :: "string list"
  rl_requires_facts :: "fact_requirement list"
  rl_decision_type :: string

definition RELATIVE_SCOPES :: "string list" where
  "RELATIVE_SCOPES = [''self'', ''parent'']"

section \<open>Refusals\<close>

datatype fact_refusal =
    R1 string string
  | R2 string string
  | R3 string string string string
  | R4 string string string string
  | R5 string string
  | R6 string string
  | R7_missing string string
  | R7_conflict string string
  | R8 string string string string
  | R9 string string
  | R10 string string string string
  | R11 string string string string

type_synonym predicate_table = "string \<Rightarrow> predicate_spec option"
type_synonym reducer_table = "string \<Rightarrow> reducer_spec option"

definition ladder_gaps :: "predicate_table \<Rightarrow> reducer_table \<Rightarrow> string \<Rightarrow> string list" where
  "ladder_gaps preds reds version =
     (case reds version of None \<Rightarrow> []
      | Some r \<Rightarrow> filter (\<lambda>c. case preds c of None \<Rightarrow> False | Some row \<Rightarrow> ps_produced_by row = []) (rs_consumes r))"

definition refuse_if :: "bool \<Rightarrow> fact_refusal \<Rightarrow> fact_refusal list" where
  "refuse_if b e = (if b then [e] else [])"

definition row_refusals ::
  "predicate_table \<Rightarrow> reducer_table \<Rightarrow> string \<Rightarrow> fact_requirement \<Rightarrow> predicate_spec \<Rightarrow> fact_refusal list" where
  "row_refusals preds reds rule_name req row =
     refuse_if (ps_produced_by row = []) (R2 rule_name (fq_fact req))
     @ concat (map (\<lambda>v. map (R3 rule_name (fq_fact req) v) (ladder_gaps preds reds v)) (ps_produced_by row))
     @ refuse_if (fq_scope req \<notin> set RELATIVE_SCOPES \<and> fq_scope req \<noteq> ps_scope_type row \<and> ps_aggregates_from row = [])
         (R4 rule_name (fq_fact req) (fq_scope req) (ps_scope_type row))
     @ refuse_if (fq_min_authority req = ''ADVISORY'') (R5 rule_name (fq_fact req))
     @ refuse_if (ps_volatile row \<and> fq_max_age req = None) (R6 rule_name (fq_fact req))
     @ refuse_if (fq_on_missing req \<notin> set ON_MISSING) (R7_missing rule_name (fq_on_missing req))
     @ refuse_if (fq_on_conflict req \<notin> set ON_CONFLICT) (R7_conflict rule_name (fq_on_conflict req))
     @ (case fq_value_type req of None \<Rightarrow> []
        | Some t \<Rightarrow> refuse_if (t \<noteq> ps_value_type row) (R8 rule_name (fq_fact req) t (ps_value_type row)))"

definition validate_one_requirement ::
  "predicate_table \<Rightarrow> reducer_table \<Rightarrow> string \<Rightarrow> fact_requirement \<Rightarrow> fact_refusal list" where
  "validate_one_requirement preds reds rule_name req =
     (case preds (fq_fact req) of None \<Rightarrow> [R1 rule_name (fq_fact req)]
      | Some row \<Rightarrow> row_refusals preds reds rule_name req row)"

definition invariant_refusals :: "contract_spec \<Rightarrow> fact_refusal list" where
  "invariant_refusals c =
     map (\<lambda>inv. R11 (ct_decision_type c) (ct_version c) (fq_fact inv) (fq_on_missing inv))
       (filter (\<lambda>inv. fq_on_missing inv \<notin> set [''halt'', ''escalate'']) (ct_invariants c))"

definition binding_refusals :: "(string \<times> contract_spec) list \<Rightarrow> rule_spec \<Rightarrow> fact_refusal list" where
  "binding_refusals contracts rule =
     (if rl_plane rule = ''control'' \<and> rl_decision_type rule \<noteq> [] then
        (case map_of contracts (rl_decision_type rule) of
           None \<Rightarrow> [R9 (rl_name rule) (rl_decision_type rule)]
         | Some c \<Rightarrow> map (\<lambda>req. R10 (rl_name rule) (fq_fact req) (ct_decision_type c) (ct_version c))
                      (filter (\<lambda>req. fq_fact req \<in> set (ct_excludes c)) (rl_requires_facts rule)))
      else [])"

definition rule_refusals ::
  "predicate_table \<Rightarrow> reducer_table \<Rightarrow> (string \<times> contract_spec) list \<Rightarrow> rule_spec \<Rightarrow> fact_refusal list" where
  "rule_refusals preds reds contracts rule =
     binding_refusals contracts rule
     @ concat (map (validate_one_requirement preds reds (rl_name rule)) (rl_requires_facts rule))"

definition validate_fact_contracts ::
  "predicate_table \<Rightarrow> reducer_table \<Rightarrow> (string \<times> contract_spec) list \<Rightarrow> rule_spec list \<Rightarrow> fact_refusal list" where
  "validate_fact_contracts preds reds contracts rules =
     concat (map (invariant_refusals \<circ> snd) contracts) @ concat (map (rule_refusals preds reds contracts) rules)"

section \<open>What acceptance means\<close>

lemma refuse_if_Nil [simp]: "refuse_if b e = [] \<longleftrightarrow> \<not> b"
  by (simp add: refuse_if_def)

text \<open>The declared conditions on a requirement, without reference to refusals.\<close>

definition producible :: "predicate_table \<Rightarrow> reducer_table \<Rightarrow> fact_requirement \<Rightarrow> bool" where
  "producible preds reds req \<longleftrightarrow> (\<exists>row. preds (fq_fact req) = Some row \<and> ps_produced_by row \<noteq> []
     \<and> (\<forall>v \<in> set (ps_produced_by row). \<forall>r. reds v = Some r \<longrightarrow>
          (\<forall>c \<in> set (rs_consumes r). \<forall>row'. preds c = Some row' \<longrightarrow> ps_produced_by row' \<noteq> []))
     \<and> (fq_scope req \<in> set RELATIVE_SCOPES \<or> fq_scope req = ps_scope_type row \<or> ps_aggregates_from row \<noteq> [])
     \<and> (ps_volatile row \<longrightarrow> fq_max_age req \<noteq> None)
     \<and> (\<forall>t. fq_value_type req = Some t \<longrightarrow> t = ps_value_type row))
   \<and> fq_min_authority req \<noteq> ''ADVISORY'' \<and> fq_on_missing req \<in> set ON_MISSING \<and> fq_on_conflict req \<in> set ON_CONFLICT"

definition bound_to_contract :: "(string \<times> contract_spec) list \<Rightarrow> rule_spec \<Rightarrow> bool" where
  "bound_to_contract contracts rule \<longleftrightarrow> (rl_plane rule = ''control'' \<and> rl_decision_type rule \<noteq> [] \<longrightarrow>
     (\<exists>c. map_of contracts (rl_decision_type rule) = Some c
        \<and> (\<forall>req \<in> set (rl_requires_facts rule). fq_fact req \<notin> set (ct_excludes c))))"

lemma ladder_gaps_Nil: "ladder_gaps preds reds v = [] \<longleftrightarrow>
    (\<forall>r. reds v = Some r \<longrightarrow> (\<forall>c \<in> set (rs_consumes r). \<forall>row'. preds c = Some row' \<longrightarrow> ps_produced_by row' \<noteq> []))"
  by (auto simp: ladder_gaps_def filter_empty_conv split: option.splits)

lemma row_refusals_Nil: "row_refusals preds reds n req row = [] \<longleftrightarrow>
    ps_produced_by row \<noteq> [] \<and> (\<forall>v \<in> set (ps_produced_by row). ladder_gaps preds reds v = [])
    \<and> (fq_scope req \<in> set RELATIVE_SCOPES \<or> fq_scope req = ps_scope_type row \<or> ps_aggregates_from row \<noteq> [])
    \<and> fq_min_authority req \<noteq> ''ADVISORY'' \<and> (ps_volatile row \<longrightarrow> fq_max_age req \<noteq> None)
    \<and> fq_on_missing req \<in> set ON_MISSING \<and> fq_on_conflict req \<in> set ON_CONFLICT
    \<and> (\<forall>t. fq_value_type req = Some t \<longrightarrow> t = ps_value_type row)"
  by (cases "fq_value_type req") (auto simp: row_refusals_def)

lemma validate_one_requirement_Nil:
  "validate_one_requirement preds reds n req = [] \<longleftrightarrow> producible preds reds req"
  by (cases "preds (fq_fact req)") (auto simp: validate_one_requirement_def producible_def row_refusals_Nil ladder_gaps_Nil)

lemma binding_refusals_Nil: "binding_refusals contracts rule = [] \<longleftrightarrow> bound_to_contract contracts rule"
  by (auto simp: binding_refusals_def bound_to_contract_def filter_empty_conv split: option.splits)

lemma invariant_refusals_Nil:
  "invariant_refusals c = [] \<longleftrightarrow> (\<forall>inv \<in> set (ct_invariants c). fq_on_missing inv \<in> {''halt'', ''escalate''})"
  by (auto simp: invariant_refusals_def filter_empty_conv)

lemma validate_fact_contracts_Nil:
  "validate_fact_contracts preds reds contracts rules = [] \<longleftrightarrow>
     (\<forall>c \<in> snd ` set contracts. \<forall>inv \<in> set (ct_invariants c). fq_on_missing inv \<in> {''halt'', ''escalate''})
     \<and> (\<forall>rule \<in> set rules. bound_to_contract contracts rule
          \<and> (\<forall>req \<in> set (rl_requires_facts rule). producible preds reds req))"
  by (auto simp: validate_fact_contracts_def rule_refusals_def invariant_refusals_Nil binding_refusals_Nil
      validate_one_requirement_Nil)

section \<open>Registries with a complete ladder\<close>

text \<open>What the client of the gate relies on: the reducers that a predicate names are registered and produce it, and
  what they consume is produced.\<close>

locale fact_registries =
  fixes preds :: predicate_table and reds :: reducer_table
  assumes registered: "preds p = Some row \<Longrightarrow> v \<in> set (ps_produced_by row) \<Longrightarrow> \<exists>r. reds v = Some r \<and> p \<in> set (rs_produces r)"
    and ladder: "preds p = Some row \<Longrightarrow> v \<in> set (ps_produced_by row) \<Longrightarrow> reds v = Some r \<Longrightarrow> c \<in> set (rs_consumes r)
      \<Longrightarrow> preds c = Some row' \<Longrightarrow> ps_produced_by row' \<noteq> []"
begin

lemma no_ladder_refusal: "R3 n p v c \<notin> set (validate_one_requirement preds reds m req)"
proof
  assume r3: "R3 n p v c \<in> set (validate_one_requirement preds reds m req)"
  then obtain row where row: "preds (fq_fact req) = Some row" "v \<in> set (ps_produced_by row)" "c \<in> set (ladder_gaps preds reds v)"
    by (auto simp: validate_one_requirement_def row_refusals_def refuse_if_def split: option.splits if_splits)
  then obtain r row' where "reds v = Some r" "c \<in> set (rs_consumes r)" "preds c = Some row'" "ps_produced_by row' = []"
    by (cases "reds v") (auto simp: ladder_gaps_def split: option.splits)
  then show False using ladder [OF row(1,2)] by blast
qed

lemma accepted_has_reducer:
  assumes "validate_one_requirement preds reds n req = []"
  shows "\<exists>v r. reds v = Some r \<and> fq_fact req \<in> set (rs_produces r)"
proof -
  obtain row where row: "preds (fq_fact req) = Some row" "ps_produced_by row \<noteq> []"
    using assms by (auto simp: validate_one_requirement_Nil producible_def)
  then obtain v where "v \<in> set (ps_produced_by row)" by (cases "ps_produced_by row") auto
  then show ?thesis using registered [OF row(1)] by blast
qed

lemma accepted_rules_have_reducers:
  assumes "validate_fact_contracts preds reds contracts rules = []" "rule \<in> set rules" "req \<in> set (rl_requires_facts rule)"
  shows "\<exists>v r. reds v = Some r \<and> fq_fact req \<in> set (rs_produces r)"
  using assms accepted_has_reducer unfolding validate_fact_contracts_Nil validate_one_requirement_Nil by blast

end

section \<open>The registries of the control plane\<close>

definition names_its_reducers :: "predicate_spec \<Rightarrow> bool" where
  "names_its_reducers row \<longleftrightarrow> list_all (\<lambda>v. case reducer_of v of None \<Rightarrow> False
     | Some r \<Rightarrow> ps_name row \<in> set (rs_produces r)) (ps_produced_by row)"

definition consumes_produced :: "reducer_spec \<Rightarrow> bool" where
  "consumes_produced r \<longleftrightarrow> list_all (\<lambda>c. case predicate_of c of None \<Rightarrow> True | Some row \<Rightarrow> ps_produced_by row \<noteq> [])
     (rs_consumes r)"

lemma rows_name_reducers: "list_all names_its_reducers FACT_PREDICATES"
  by code_simp

lemma reducers_consume_produced: "list_all consumes_produced REDUCERS"
  by code_simp

interpretation fact_registry: fact_registries predicate_of reducer_of
proof unfold_locales
  fix p row v
  assume "predicate_of p = Some row" and v: "v \<in> set (ps_produced_by row)"
  then have "row \<in> set FACT_PREDICATES" "ps_name row = p"
    by (auto simp: predicate_of_def find_Some_iff)
  then show "\<exists>r. reducer_of v = Some r \<and> p \<in> set (rs_produces r)"
    using rows_name_reducers v by (fastforce simp: names_its_reducers_def list_all_iff split: option.splits)
next
  fix v r c row'
  assume r: "reducer_of v = Some r" and c: "c \<in> set (rs_consumes r)" "predicate_of c = Some row'"
  from r have "r \<in> set REDUCERS" by (auto simp: reducer_of_def find_Some_iff)
  then show "ps_produced_by row' \<noteq> []"
    using reducers_consume_produced c by (fastforce simp: consumes_produced_def list_all_iff)
qed

text \<open>C37: an accepted rule can be supplied. If the fact gate, run on the registries of the control plane, refuses
  nothing, then every fact that a rule requires is declared, is produced by a registered reducer (the reducer names it among
  its products), is reachable at the required scope, is not asked for at advisory authority and has a bound on its age
  where it is volatile; and a control rule that names a decision type has its contract and requires nothing the contract
  excludes. That the ladder is complete is a law of the registries, proved once for them.\<close>

theorem accepted_rules_are_producible:
  assumes "rule \<in> set rules" and "req \<in> set (rl_requires_facts rule)"
    and "validate_fact_contracts predicate_of reducer_of contracts rules = []"
  shows "bound_to_contract contracts rule \<and> producible predicate_of reducer_of req
    \<and> (\<exists>r \<in> set REDUCERS. fq_fact req \<in> set (rs_produces r))"
proof -
  obtain v r where "reducer_of v = Some r" "fq_fact req \<in> set (rs_produces r)"
    using fact_registry.accepted_rules_have_reducers [OF assms(3,1,2)] by blast
  then have "r \<in> set REDUCERS" "fq_fact req \<in> set (rs_produces r)" by (auto simp: reducer_of_def find_Some_iff)
  then show ?thesis using assms unfolding validate_fact_contracts_Nil by blast
qed

definition status_rule :: rule_spec where
  "status_rule = \<lparr>rl_name = ''stop_superseded'', rl_plane = ''control'', rl_evidence_class = ''MEASURED'', rl_requires = [],
     rl_produces = [], rl_requires_facts = [named_requirement ''spec_status''], rl_decision_type = []\<rparr>"

theorem accepted_rules_are_producible_witness:
  "bound_to_contract [] status_rule \<and> producible predicate_of reducer_of (named_requirement ''spec_status'')
    \<and> (\<exists>r \<in> set REDUCERS. ''spec_status'' \<in> set (rs_produces r))"
proof -
  have "validate_fact_contracts predicate_of reducer_of [] [status_rule] = []" by code_simp
  from accepted_rules_are_producible [OF _ _ this, of status_rule "named_requirement ''spec_status''"]
  show ?thesis by (simp add: status_rule_def named_requirement_def)
qed

end
