(* ===== verification/Experiment_Spec.thy ===== *)
theory Experiment_Spec
  imports Fact_Contracts Regex_Search Step_Routing
begin

text \<open>
  Experiment specifications (experiment/experiment_spec.py): the objects of a spec, its serialized form, the revision
  digest, and the validator with its phase-level gates. The workflow's parameters are the dynamic values of the file;
  iterating or hashing one can raise, so the validator's result is an exception or the list of errors. Reading a
  spec from YAML (\<open>from_dict\<close>) is left out; SHA-256 is a parameter.
\<close>

section \<open>Vocabularies\<close>

definition WORKFLOW_KINDS :: "string list" where
  "WORKFLOW_KINDS = [''agent_task'', ''experiment'', ''story'', ''task'']"

definition PLANES :: "string list" where "PLANES = [''control'', ''measurement'']"

definition EVIDENCE_CLASSES :: "string list" where
  "EVIDENCE_CLASSES = [''[C]'', ''[H]'', ''[M]'', ''[P]'', ''[X]'']"

definition METRIC_AGGS :: "string list" where "METRIC_AGGS = [''distribution'', ''mean'', ''ratio'']"

definition METRIC_OVERS :: "string list" where "METRIC_OVERS = [''attempt'', ''cell'', ''job'', ''outcome'']"

definition ADAPT_STRATEGIES :: "string list" where "ADAPT_STRATEGIES = [''coordinate_descent'', ''manual'']"

definition ADAPT_SELECTIONS :: "string list" where
  "ADAPT_SELECTIONS = [''highest_regret'', ''highest_uncertainty'', ''largest_effect'']"

definition SCOPE_VOCABULARY :: "string list" where
  "SCOPE_VOCABULARY = [''adversarial_readonly'', ''implementation'', ''proposal_write'', ''research_readonly'', ''review_readonly'']"

definition ARTIFACT_KINDS :: "string list" where "ARTIFACT_KINDS = [''experiment'', ''workflow'']"

definition INTENTS :: "string list" where "INTENTS = [''measure'', ''mutate'']"

definition SPEC_STATUSES :: "string list" where
  "SPEC_STATUSES = [''blocked'', ''completed'', ''draft'', ''failed'', ''runnable'', ''running'', ''superseded'', ''tombstoned'']"

definition REVISION_VOLATILE_KEYS :: "string list" where
  "REVISION_VOLATILE_KEYS = [''status'', ''supersedes'', ''superseded_by'', ''completed_at'', ''last_run_at'',
     ''results_pointer'', ''git_sha'', ''pricing_version'', ''generated_at'']"

definition LEDGER_FIELDS :: "string list" where
  "LEDGER_FIELDS = [''job_id'', ''spec_id'', ''policy_arm'', ''policy_id'', ''budget'', ''due_at'', ''forecast_cost'',
     ''forecast_latency'', ''actual_cost'', ''deadline_slack'', ''status'', ''checkpoints'',
     ''model'', ''condition'', ''policy'', ''seed'', ''strength'', ''story'', ''tier'',
     ''attempt_id'', ''attempt_number'', ''parent_attempt_id'', ''retry_reason'', ''escalation_from'', ''escalation_to'',
     ''provider_model_version'', ''queued_at'', ''leased_at'', ''started_at'', ''first_token_at'', ''ended_at'',
     ''queue_wait_ms'', ''service_time_ms'', ''cache_hit'', ''tool_calls'', ''completed'', ''first_pass'', ''accepted'',
     ''evaluator_independent'', ''tokens_in'', ''tokens_out'', ''tokens_reasoning'', ''tokens_answer'',
     ''tokens_explanation'', ''cost_inference'', ''cost_orchestration'', ''cost_source'', ''estimation_method'',
     ''reported_cost_usd'', ''settled_cost_usd'', ''settlement_status'', ''value'', ''rework_cost'', ''reuse_value'',
     ''confidence'', ''perturbation_strength'', ''test_executed_success'']"

section \<open>The objects of a spec\<close>

record workflow =
  wf_kind :: string
  wf_params :: pydict

record factor =
  fc_name :: string
  fc_levels :: "string list"
  fc_active :: bool
  fc_current :: pyval

record metric_spec =
  me_name :: string
  me_agg :: string
  me_over :: string

record comparison_spec =
  cm_kind :: string
  cm_arm_factor :: string
  cm_loss :: "(string \<times> pyfloat) list"

record writeup_spec =
  wr_format :: string
  wr_sections :: "string list"

record stop_spec =
  st_budget :: pyval
  st_max_attempts :: pyval
  st_uncertainty :: pyval

record adapt_spec =
  ad_strategy :: string
  ad_selection :: string

record side_effects =
  se_repository :: bool
  se_external :: bool

record experiment_spec =
  xs_name :: string
  xs_question :: string
  xs_version :: string
  xs_workflow :: workflow
  xs_factors :: "factor list"
  xs_design :: string
  xs_rules :: "rule_spec list"
  xs_metrics :: "metric_spec list"
  xs_comparison :: "comparison_spec option"
  xs_writeup :: "writeup_spec option"
  xs_stop :: stop_spec
  xs_adapt :: adapt_spec
  xs_git_sha :: string
  xs_pricing_version :: string
  xs_seed :: "int option"
  xs_artifact_kind :: string
  xs_intent :: string
  xs_side_effects :: side_effects
  xs_repeatable :: bool
  xs_sandboxed :: bool
  xs_status :: string
  xs_supersedes :: "string list"
  xs_superseded_by :: "string option"
  xs_completed_at :: "string option"
  xs_last_run_at :: "string option"
  xs_results_pointer :: "string option"

section \<open>The serialized form\<close>

definition texts :: "string list \<Rightarrow> pyval" where
  "texts xs = PList (map PStr xs)"

definition opt_str :: "string option \<Rightarrow> pyval" where
  "opt_str s = (case s of None \<Rightarrow> PNone | Some t \<Rightarrow> PStr t)"

definition opt_int :: "int option \<Rightarrow> pyval" where
  "opt_int i = (case i of None \<Rightarrow> PNone | Some n \<Rightarrow> PInt n)"

definition requirement_to_dict :: "fact_requirement \<Rightarrow> pyval" where
  "requirement_to_dict r = PDict [(''fact'', PStr (fq_fact r)), (''scope'', PStr (fq_scope r)),
     (''max_age_seconds'', opt_int (fq_max_age r)), (''min_authority'', PStr (fq_min_authority r)),
     (''on_missing'', PStr (fq_on_missing r)), (''on_conflict'', PStr (fq_on_conflict r)),
     (''value_type'', opt_str (fq_value_type r))]"

definition factor_to_dict :: "factor \<Rightarrow> pyval" where
  "factor_to_dict f = PDict ([(''name'', PStr (fc_name f)), (''levels'', texts (fc_levels f)), (''active'', PBool (fc_active f))]
     @ (if fc_current f \<noteq> PNone then [(''current'', fc_current f)] else []))"

definition rule_to_dict :: "rule_spec \<Rightarrow> pyval" where
  "rule_to_dict r = PDict [(''name'', PStr (rl_name r)), (''plane'', PStr (rl_plane r)),
     (''evidence_class'', PStr (rl_evidence_class r)), (''requires'', texts (rl_requires r)),
     (''produces'', texts (rl_produces r)), (''requires_facts'', PList (map requirement_to_dict (rl_requires_facts r))),
     (''decision_type'', PStr (rl_decision_type r))]"

definition metric_to_dict :: "metric_spec \<Rightarrow> pyval" where
  "metric_to_dict m = PDict [(''name'', PStr (me_name m)), (''agg'', PStr (me_agg m)), (''over'', PStr (me_over m))]"

definition comparison_to_dict :: "comparison_spec \<Rightarrow> pyval" where
  "comparison_to_dict c = PDict [(''kind'', PStr (cm_kind c)), (''arm_factor'', PStr (cm_arm_factor c)),
     (''loss'', PDict (map (\<lambda>(k, w). (k, PFloat w)) (cm_loss c)))]"

definition writeup_to_dict :: "writeup_spec \<Rightarrow> pyval" where
  "writeup_to_dict w = PDict [(''format'', PStr (wr_format w)), (''sections'', texts (wr_sections w))]"

definition stop_to_dict :: "stop_spec \<Rightarrow> pyval" where
  "stop_to_dict s = PDict [(''budget_usd'', st_budget s), (''max_attempts'', st_max_attempts s),
     (''uncertainty_threshold'', st_uncertainty s)]"

definition adapt_to_dict :: "adapt_spec \<Rightarrow> pyval" where
  "adapt_to_dict a = PDict [(''strategy'', PStr (ad_strategy a)), (''selection'', PStr (ad_selection a))]"

definition side_effects_to_dict :: "side_effects \<Rightarrow> pyval" where
  "side_effects_to_dict s = PDict [(''repository'', PBool (se_repository s)), (''external_services'', PBool (se_external s))]"

definition workflow_to_dict :: "workflow \<Rightarrow> pyval" where
  "workflow_to_dict w = PDict [(''kind'', PStr (wf_kind w)), (''params'', PDict (wf_params w))]"

definition spec_to_dict :: "experiment_spec \<Rightarrow> pydict" where
  "spec_to_dict s =
     [(''name'', PStr (xs_name s)), (''question'', PStr (xs_question s)), (''version'', PStr (xs_version s)),
      (''workflow'', workflow_to_dict (xs_workflow s)), (''factors'', PList (map factor_to_dict (xs_factors s))),
      (''design'', PStr (xs_design s)), (''rules'', PList (map rule_to_dict (xs_rules s))),
      (''metrics'', PList (map metric_to_dict (xs_metrics s))), (''stop'', stop_to_dict (xs_stop s)),
      (''adapt'', adapt_to_dict (xs_adapt s)), (''git_sha'', PStr (xs_git_sha s)),
      (''pricing_version'', PStr (xs_pricing_version s)), (''seed'', opt_int (xs_seed s)),
      (''artifact_kind'', PStr (xs_artifact_kind s)), (''intent'', PStr (xs_intent s)),
      (''side_effects'', side_effects_to_dict (xs_side_effects s)), (''repeatable'', PBool (xs_repeatable s)),
      (''sandboxed'', PBool (xs_sandboxed s)), (''status'', PStr (xs_status s)), (''supersedes'', texts (xs_supersedes s)),
      (''superseded_by'', opt_str (xs_superseded_by s)), (''completed_at'', opt_str (xs_completed_at s)),
      (''last_run_at'', opt_str (xs_last_run_at s)), (''results_pointer'', opt_str (xs_results_pointer s))]
     @ (case xs_comparison s of None \<Rightarrow> [] | Some c \<Rightarrow> [(''comparison'', comparison_to_dict c)])
     @ (case xs_writeup s of None \<Rightarrow> [] | Some w \<Rightarrow> [(''writeup'', writeup_to_dict w)])"

definition canonical_spec_definition :: "experiment_spec \<Rightarrow> pydict" where
  "canonical_spec_definition s = filter (\<lambda>(k, _). k \<notin> set REVISION_VOLATILE_KEYS) (spec_to_dict s)"

text \<open>\<open>json.dumps\<close> with sorted keys and the compact separators.\<close>

fun compact_sep :: "string list \<Rightarrow> string" where
  "compact_sep [] = []"
| "compact_sep [x] = x"
| "compact_sep (x # y # xs) = x @ '','' @ compact_sep (y # xs)"

fun canonical_json :: "pyval \<Rightarrow> string" where
  "canonical_json PNone = ''null''"
| "canonical_json (PBool b) = (if b then ''true'' else ''false'')"
| "canonical_json (PInt i) = show_int i"
| "canonical_json (PFloat x) = json_float x"
| "canonical_json (PStr s) = json_string s"
| "canonical_json (PList xs) = ''['' @ compact_sep (map canonical_json xs) @ '']''"
| "canonical_json (PDict d) =
     ''{'' @ compact_sep (map (\<lambda>(k, t). json_string k @ '':'' @ t) (sort_key fst (map (\<lambda>(k, v). (k, canonical_json v)) d)))
     @ ''}''"

definition compute_workflow_revision_id :: "(string \<Rightarrow> string) \<Rightarrow> experiment_spec \<Rightarrow> string" where
  "compute_workflow_revision_id sha s = sha (canonical_json (PDict (canonical_spec_definition s)))"

definition spec_id :: "experiment_spec \<Rightarrow> string" where
  "spec_id s = xs_name s @ ''@'' @ xs_version s"

section \<open>The scope of a phase\<close>

definition PHASE_SCOPE_AUTHORIZATION :: "(string \<times> string) list" where
  "PHASE_SCOPE_AUTHORIZATION =
    [(''p1_research_infra'', ''research_readonly''),
     (''p2_research_kb_access'', ''research_readonly''),
     (''p3_review'', ''review_readonly''),
     (''p4_proposal'', ''proposal_write''),
     (''p5_adversarial'', ''adversarial_readonly''),
     (''p0_pin_mandate'', ''proposal_write''),
     (''p1_slice1_base_supervisor'', ''implementation''),
     (''p2_slice1_workers_live'', ''implementation''),
     (''p3_slice2_orchestrator'', ''implementation''),
     (''p4_slice3_neo4j'', ''implementation''),
     (''p5_slice4_guards'', ''implementation''),
     (''p6_adversarial'', ''adversarial_readonly''),
     (''p7_smoke_handoff'', ''proposal_write''),
     (''p1_review_authority'', ''implementation''),
     (''p2_publication_closure'', ''implementation''),
     (''p3_full_suite_guards'', ''implementation''),
     (''p4_final_verify'', ''implementation''),
     (''p1_lease_registry'', ''implementation''),
     (''p2_admission_controller'', ''implementation''),
     (''p3_cost_provenance'', ''implementation''),
     (''p4_expiry_and_quarantine'', ''implementation''),
     (''p5_suite_and_closure'', ''implementation''),
     (''p1_submit_contract'', ''implementation''),
     (''p2_launch_handler'', ''implementation''),
     (''p3_base_image_caching'', ''implementation''),
     (''p4_isolation_guards'', ''implementation''),
     (''p5_egress_proxy_enforcement'', ''implementation''),
     (''p3_test_gate'', ''implementation''),
     (''p5_test_gate'', ''implementation''),
     (''p6_test_gate'', ''implementation''),
     (''p1_doc_findings'', ''implementation''),
     (''p2_context_claim'', ''implementation''),
     (''p3_mount_guard'', ''implementation''),
     (''p4_acceptance_gate'', ''research_readonly''),
     (''p_launch_handler_noop'', ''implementation'')]"

text \<open>Looking a scope or a name up hashes it.\<close>

definition spec_phase_scope :: "pyval \<Rightarrow> string option \<Rightarrow> py_error + string option" where
  "spec_phase_scope phase given =
     (let declared = (case phase of PDict d \<Rightarrow> pyget d ''scope'' | _ \<Rightarrow> PNone);
          name = (case given of Some (c # cs) \<Rightarrow> PStr (c # cs)
                  | _ \<Rightarrow> (case phase of PDict d \<Rightarrow> pyget d ''name'' | _ \<Rightarrow> PNone)) in
      if \<not> hashable declared then Inl TypeError
      else case List.find (\<lambda>v. PStr v = declared) SCOPE_VOCABULARY of
        Some v \<Rightarrow> Inr (Some v)
      | None \<Rightarrow>
          if \<not> truthy name then Inr None
          else if \<not> hashable name then Inl TypeError
          else Inr (case name of
                      PStr n \<Rightarrow> (case map_of PHASE_SCOPE_AUTHORIZATION n of
                                   Some v \<Rightarrow> if v \<in> set SCOPE_VOCABULARY then Some v else None
                                 | None \<Rightarrow> None)
                    | _ \<Rightarrow> None))"

section \<open>Rules need information\<close>

definition spaced_dash :: string where
  "spaced_dash = [CHR '' '', CHR 0xE2, CHR 0x80, CHR 0x94, CHR '' '']"

definition quoted :: "string \<Rightarrow> string" where
  "quoted s = [CHR 0x22] @ s @ [CHR 0x22]"

definition list_text :: "string list \<Rightarrow> string" where
  "list_text xs = ''['' @ comma_sep (map repr_str xs) @ '']''"

definition rule_form_errors :: "string list \<Rightarrow> rule_spec \<Rightarrow> string list" where
  "rule_form_errors seen r =
     (if rl_name r \<in> set seen then [''duplicate rule name '' @ repr_str (rl_name r)] else [])
     @ (if rl_plane r \<notin> set PLANES then
          [''rule '' @ quoted (rl_name r) @ '': plane '' @ repr_str (rl_plane r) @ '' is not one of '' @ list_text PLANES] else [])
     @ (if rl_evidence_class r \<notin> set EVIDENCE_CLASSES then
          [''rule '' @ quoted (rl_name r) @ '': evidence_class '' @ repr_str (rl_evidence_class r) @ '' is not one of ''
             @ list_text EVIDENCE_CLASSES] else [])"

fun rules_form_errors :: "string list \<Rightarrow> rule_spec list \<Rightarrow> string list" where
  "rules_form_errors seen [] = []"
| "rules_form_errors seen (r # rs) = rule_form_errors seen r @ rules_form_errors (rl_name r # seen) rs"

definition available_information :: "rule_spec list \<Rightarrow> string list" where
  "available_information rules =
     LEDGER_FIELDS @ concat (map rl_produces (filter (\<lambda>r. rl_plane r = ''measurement'') rules))"

definition unavailable_errors :: "string list \<Rightarrow> rule_spec \<Rightarrow> string list" where
  "unavailable_errors available r =
     map (\<lambda>req. ''rule '' @ quoted (rl_name r) @ '' requires '' @ repr_str req @ spaced_dash
              @ ''not produced by the ledger or any measurement rule in this spec. Instrument it first.'')
       (filter (\<lambda>req. req \<notin> set available) (rl_requires r))"

text \<open>The registries of the fact gate: both tables or none, and the contracts. A refusal's text is a parameter.\<close>

record fact_gate =
  fg_predicates :: predicate_table
  fg_reducers :: reducer_table
  fg_contracts :: "(string \<times> contract_spec) list"
  fg_text :: "fact_refusal \<Rightarrow> string"

definition fact_gate_errors :: "fact_gate option \<Rightarrow> rule_spec list \<Rightarrow> string list" where
  "fact_gate_errors gate rules =
     (case gate of None \<Rightarrow> []
      | Some g \<Rightarrow> map (fg_text g) (validate_fact_contracts (fg_predicates g) (fg_reducers g) (fg_contracts g) rules))"

definition validate_rules :: "fact_gate option \<Rightarrow> rule_spec list \<Rightarrow> string list" where
  "validate_rules gate rules =
     rules_form_errors [] rules
     @ concat (map (unavailable_errors (available_information rules)) rules)
     @ fact_gate_errors gate rules"

section \<open>Safety requirements in prose\<close>

definition in_sentence :: "char \<Rightarrow> bool" where
  "in_sentence c = (c \<noteq> CHR 0x0A \<and> c \<noteq> CHR ''.'')"

definition opt_the :: rx where
  "opt_the = opt (Cat (lit ''the'') spaces)"

text \<open>These are searched in the line with its letters lowered (the flag for ignoring case).\<close>

definition checkpoint_patterns :: "rx list" where
  "checkpoint_patterns =
     [cats [word ''stop'', Times 80 (Ch in_sentence), WordB, opt_the, one_of [''operator'', ''human''], WordB],
      cats [word ''halt'', Times 80 (Ch in_sentence), WordB, one_of [''operator'', ''human'', ''approval'', ''campaign''], WordB],
      cats [WordB, lit ''await'', opt (lit ''ing''), spaces, opt_the, one_of [''operator'', ''human''], WordB,
            Times 60 (Ch in_sentence), WordB, lit ''approval'', WordB]]"

definition bare_command :: rx where
  "bare_command = NotBehind (\<lambda>c. word_char c \<or> c = CHR 0x60 \<or> c = CHR 0x22 \<or> c = CHR 0x27)"

definition prose_deploy_patterns :: "rx list" where
  "prose_deploy_patterns =
     [cats [bare_command, word ''firebase'', not_newline, word ''deploy'', not_newline, lit ''--only'', WordB],
      cats [bare_command, word ''firebase'', not_newline, lit ''--project'', spaces,
            one_of [''agentic-dynamics'', ''ai-finops-rulebook''], WordB]]"

definition orders_halt :: "string \<Rightarrow> bool" where
  "orders_halt line = list_ex (\<lambda>r. rx_search r (py_lower line)) checkpoint_patterns"

definition issues_deploy :: "string \<Rightarrow> bool" where
  "issues_deploy line = list_ex (\<lambda>r. rx_search r line) prose_deploy_patterns"

definition deploy_subject :: "string \<Rightarrow> bool" where
  "deploy_subject line = list_ex (contains_str line) [''--dry-run'', ''deploy gate'', ''DEPLOY_GATE'']"

definition clip :: "string \<Rightarrow> string" where
  "clip line = take 80 (py_strip line)"

definition line_violations_of :: "string \<Rightarrow> pydict \<Rightarrow> string \<Rightarrow> string list" where
  "line_violations_of name ph line =
     (if contains_str line ''checkpoint'' then []
      else (if \<not> truthy (pyget ph ''checkpoint'') \<and> orders_halt line then
              [''phase '' @ quoted name @ '' orders an operator halt in prose ('' @ quoted (clip line)
                 @ '') but does not declare checkpoint: true'' @ spaced_dash
                 @ ''the mechanical stop (cap_runner_hardening2) never engages'']
            else [])
           @ (if truthy (pyget ph ''deploy_allowed'') \<or> deploy_subject line then []
              else if issues_deploy line then
                [''phase '' @ quoted name @ '' issues a production deploy command in prose ('' @ quoted (clip line)
                   @ '') but does not declare deploy_allowed: true'' @ spaced_dash
                   @ ''the deploy gate (cap_runner_hardening p2) never engages'']
              else []))"

definition phase_name :: "pydict \<Rightarrow> string" where
  "phase_name ph = py_str (default_value ph ''name'' (PStr ''?''))"

definition prose_phase_violations :: "pydict \<Rightarrow> string list" where
  "prose_phase_violations ph =
     concat (map (line_violations_of (phase_name ph) ph) (splitlines (or_text (pyget ph ''prompt'') [])))"

section \<open>The gates of a phase\<close>

definition phase_error :: "pydict \<Rightarrow> string \<Rightarrow> string" where
  "phase_error ph what = ''phase '' @ quoted (phase_name ph) @ '': '' @ what"

definition bool_marker_errors :: "string \<Rightarrow> pydict \<Rightarrow> string list" where
  "bool_marker_errors key ph =
     (if key \<in> fst ` set ph \<and> (\<forall>b \<in> {True, False}. pyget ph key \<noteq> PBool b)
      then [phase_error ph (key @ '' must be a boolean (got '' @ py_repr (pyget ph key) @ '')'')] else [])"

definition is_test_phase :: "pydict \<Rightarrow> bool" where
  "is_test_phase ph = (pyget ph ''kind'' = PStr ''test'')"

definition checkpoint_kind_errors :: "pydict \<Rightarrow> string list" where
  "checkpoint_kind_errors ph =
     (if truthy (pyget ph ''checkpoint'') \<and> is_test_phase ph then
        [phase_error ph (''checkpoint: true on kind: test is unsupported'' @ spaced_dash
           @ ''the runner'' @ [CHR 0x27] @ ''s checkpoint stop applies to agent phases only ''
           @ ''(use an agent phase with checkpoint: true + test_gate: true to bind an independent test gate before the stop)'')]
      else [])"

text \<open>An int that is not a bool and is at least the bound.\<close>

definition int_at_least :: "int \<Rightarrow> pyval \<Rightarrow> bool" where
  "int_at_least n v = (case v of PInt i \<Rightarrow> n \<le> i | _ \<Rightarrow> False)"

definition gate_retry_errors :: "pydict \<Rightarrow> string list" where
  "gate_retry_errors ph =
     (if ''gate_retry'' \<in> fst ` set ph \<and> \<not> int_at_least 0 (pyget ph ''gate_retry'')
      then [phase_error ph (''gate_retry must be a non-negative integer (got '' @ py_repr (pyget ph ''gate_retry'') @ '')'')]
      else [])"

definition blank_or_other :: "pyval \<Rightarrow> bool" where
  "blank_or_other v = (case v of PStr s \<Rightarrow> py_strip s = [] | _ \<Rightarrow> True)"

definition expansion_errors :: "pydict \<Rightarrow> string list" where
  "expansion_errors ph =
     (if ''expand_from_plan'' \<notin> fst ` set ph then []
      else let v = pyget ph ''expand_from_plan'' in
        if blank_or_other v
        then [phase_error ph (''expand_from_plan must be a non-empty string path (got '' @ py_repr v @ '')'')]
        else if is_test_phase ph
        then [phase_error ph (''expand_from_plan on kind: test is unsupported'' @ spaced_dash
                @ ''only an agent phase can expand into unit slices + gates'')]
        else if truthy (pyget ph ''checkpoint'')
        then [phase_error ph (''expand_from_plan with checkpoint: true is unsupported'' @ spaced_dash
                @ ''the expansion replaces the phase, so the checkpoint would silently vanish ''
                @ ''(put the checkpoint on its own phase)'')]
        else [])"

definition declaring_phases :: "pydict list \<Rightarrow> string list" where
  "declaring_phases phases = map phase_name (filter (\<lambda>ph. truthy (pyget ph ''expand_from_plan'')) phases)"

definition uniqueness_errors :: "pydict list \<Rightarrow> string list" where
  "uniqueness_errors phases =
     (if 1 < length (declaring_phases phases) then
        [''only one phase may declare expand_from_plan'' @ spaced_dash @ ''got '' @ list_text (declaring_phases phases)
           @ '' (the expansion replaces ONE phase; two are ambiguous)'']
      else [])"

definition unit_cap_errors :: "pydict \<Rightarrow> string list" where
  "unit_cap_errors params =
     (if ''plan_unit_cap'' \<in> fst ` set params \<and> \<not> int_at_least 1 (pyget params ''plan_unit_cap'')
      then [''workflow.params.plan_unit_cap must be a positive integer (got '' @ py_repr (pyget params ''plan_unit_cap'') @ '')'']
      else [])"

text \<open>Membership in the vocabulary hashes the value.\<close>

definition scope_errors :: "pydict \<Rightarrow> py_error + string list" where
  "scope_errors ph =
     (if ''scope'' \<notin> fst ` set ph then Inr []
      else let v = pyget ph ''scope'' in
        if \<not> hashable v then Inl TypeError
        else if v \<in> set (map PStr SCOPE_VOCABULARY) then Inr []
        else Inr [phase_error ph (''scope '' @ py_repr v @ '' is not one of '' @ list_text SCOPE_VOCABULARY)])"

definition phases_errors :: "pydict \<Rightarrow> pydict list \<Rightarrow> py_error + string list" where
  "phases_errors params phases =
     (case append_all (map scope_errors phases) of Inl e \<Rightarrow> Inl e
      | Inr scopes \<Rightarrow> Inr
          (concat (map (bool_marker_errors ''deploy_allowed'') phases)
           @ concat (map (\<lambda>ph. bool_marker_errors ''checkpoint'' ph @ checkpoint_kind_errors ph @ gate_retry_errors ph) phases)
           @ concat (map expansion_errors phases)
           @ uniqueness_errors phases
           @ unit_cap_errors params
           @ concat (map (bool_marker_errors ''no_emit'') phases)
           @ scopes
           @ concat (map prose_phase_violations phases)))"

section \<open>The validator\<close>

definition member_error :: "string \<Rightarrow> string \<Rightarrow> string list \<Rightarrow> string list" where
  "member_error what v vocabulary =
     (if v \<notin> set vocabulary then [what @ repr_str v @ '' is not one of '' @ list_text vocabulary] else [])"

definition factor_errors :: "factor list \<Rightarrow> string list" where
  "factor_errors factors =
     (if \<not> distinct (map fc_name factors) then [''duplicate factor names: '' @ list_text (map fc_name factors)] else [])
     @ concat (map (\<lambda>f. (if fc_name f = [] then [''factor with empty name''] else [])
                 @ (if fc_levels f = [] then [''factor '' @ quoted (fc_name f) @ '' has no levels''] else [])) factors)"

definition comparison_errors :: "experiment_spec \<Rightarrow> string list" where
  "comparison_errors s =
     (case xs_comparison s of None \<Rightarrow> []
      | Some c \<Rightarrow> if cm_arm_factor c \<in> set (map fc_name (xs_factors s)) then []
          else [''comparison.arm_factor '' @ repr_str (cm_arm_factor c) @ '' is not a declared factor (''
                  @ list_text (map fc_name (xs_factors s)) @ '')''])"

definition metric_errors :: "metric_spec \<Rightarrow> string list" where
  "metric_errors m = member_error (''metric '' @ quoted (me_name m) @ '': agg '') (me_agg m) METRIC_AGGS
     @ member_error (''metric '' @ quoted (me_name m) @ '': over '') (me_over m) METRIC_OVERS"

definition lifecycle_errors :: "experiment_spec \<Rightarrow> string list" where
  "lifecycle_errors s =
     (if xs_status s \<noteq> [] then member_error ''status '' (xs_status s) SPEC_STATUSES else [])
     @ (if xs_superseded_by s = Some (xs_name s) then
          [''superseded_by '' @ repr_str (xs_name s) @ '' points at the spec itself''] else [])
     @ (if xs_name s \<in> set (xs_supersedes s) then
          [''supersedes lists the spec itself ('' @ repr_str (xs_name s) @ '')''] else [])"

definition mutation_reasons :: "experiment_spec \<Rightarrow> string list" where
  "mutation_reasons s =
     (if xs_intent s = ''mutate'' then [''intent=mutate (source-modification phases)''] else [])
     @ (if se_repository (xs_side_effects s) then [''side_effects.repository=true''] else [])"

fun and_join :: "string list \<Rightarrow> string" where
  "and_join [] = []"
| "and_join [x] = x"
| "and_join (x # y # xs) = x @ '' and '' @ and_join (y # xs)"

definition identity_errors :: "experiment_spec \<Rightarrow> string list" where
  "identity_errors s =
     member_error ''artifact_kind '' (xs_artifact_kind s) ARTIFACT_KINDS
     @ member_error ''intent '' (xs_intent s) INTENTS
     @ (if xs_artifact_kind s = ''experiment'' \<and> mutation_reasons s \<noteq> [] \<and> \<not> xs_sandboxed s then
          [''artifact_kind '' @ quoted ''experiment'' @ '' but '' @ and_join (mutation_reasons s) @ spaced_dash
             @ ''an experiment measures, it does not modify the repository; declare artifact_kind ''
             @ quoted ''workflow'' @ '' or set sandboxed: true'']
        else [])"

definition structure_errors :: "experiment_spec \<Rightarrow> string list" where
  "structure_errors s =
     member_error ''workflow.kind '' (wf_kind (xs_workflow s)) WORKFLOW_KINDS
     @ (if xs_design s \<noteq> ''factorial'' then
          [''design '' @ repr_str (xs_design s) @ '' unsupported'' @ spaced_dash @ ''only '' @ quoted ''factorial'' @ '' is defined'']
        else [])
     @ factor_errors (xs_factors s)
     @ comparison_errors s
     @ concat (map metric_errors (xs_metrics s))
     @ member_error ''adapt.strategy '' (ad_strategy (xs_adapt s)) ADAPT_STRATEGIES
     @ member_error ''adapt.selection '' (ad_selection (xs_adapt s)) ADAPT_SELECTIONS
     @ lifecycle_errors s"

definition spec_phases :: "experiment_spec \<Rightarrow> py_error + pydict list" where
  "spec_phases s =
     map_sum id (List.map_filter as_pydict) (iterate_or_empty (pyget (wf_params (xs_workflow s)) ''phases''))"

definition validate_spec :: "fact_gate option \<Rightarrow> experiment_spec \<Rightarrow> py_error + string list" where
  "validate_spec gate s =
     (case spec_phases s of Inl e \<Rightarrow> Inl e
      | Inr phases \<Rightarrow>
          (case phases_errors (wf_params (xs_workflow s)) phases of Inl e \<Rightarrow> Inl e
           | Inr errors \<Rightarrow> Inr (structure_errors s @ errors @ identity_errors s @ validate_rules gate (xs_rules s))))"

end
