(* ===== verification/Spec_Facts.thy ===== *)
theory Spec_Facts
  imports Experiment_Spec
begin

text \<open>
  What the validator of experiment specs guarantees: a rule of a valid spec reads only what the ledger or a measurement
  rule gives, its phases carry the markers their prompts call for, and the revision digest sees the definition of a
  spec and nothing else.
\<close>

section \<open>Rules\<close>

lemma rules_form_errors_Nil: "rules_form_errors seen rules = [] \<longleftrightarrow>
    distinct (map rl_name rules) \<and> set (map rl_name rules) \<inter> set seen = {}
    \<and> (\<forall>r \<in> set rules. rl_plane r \<in> set PLANES \<and> rl_evidence_class r \<in> set EVIDENCE_CLASSES)"
  by (induction rules arbitrary: seen) (auto simp: rule_form_errors_def)

lemma available_information_iff: "x \<in> set (available_information rules) \<longleftrightarrow>
    x \<in> set LEDGER_FIELDS \<or> (\<exists>m \<in> set rules. rl_plane m = ''measurement'' \<and> x \<in> set (rl_produces m))"
  by (auto simp: available_information_def)

text \<open>The gate on rules: an accepted rule requires only what the ledger or a measurement rule of the spec gives.\<close>

theorem rules_need_information:
  "validate_rules None rules = [] \<longleftrightarrow>
     distinct (map rl_name rules)
     \<and> (\<forall>r \<in> set rules. rl_plane r \<in> {''control'', ''measurement''}
          \<and> rl_evidence_class r \<in> {''[C]'', ''[H]'', ''[M]'', ''[P]'', ''[X]''}
          \<and> (\<forall>req \<in> set (rl_requires r). req \<in> set LEDGER_FIELDS
               \<or> (\<exists>m \<in> set rules. rl_plane m = ''measurement'' \<and> req \<in> set (rl_produces m))))"
  by (auto simp: validate_rules_def rules_form_errors_Nil unavailable_errors_def filter_empty_conv fact_gate_errors_def
      available_information_iff PLANES_def EVIDENCE_CLASSES_def)

section \<open>The revision digest\<close>

lemma texts_inj [simp]: "texts xs = texts ys \<longleftrightarrow> xs = ys"
  by (auto simp: texts_def inj_map_eq_map inj_def)

lemma opt_str_inj [simp]: "opt_str a = opt_str b \<longleftrightarrow> a = b"
  by (auto simp: opt_str_def split: option.splits)

lemma opt_int_inj [simp]: "opt_int a = opt_int b \<longleftrightarrow> a = b"
  by (auto simp: opt_int_def split: option.splits)

lemma requirement_to_dict_inj [simp]: "requirement_to_dict a = requirement_to_dict b \<longleftrightarrow> a = b"
  by (cases a; cases b) (auto simp: requirement_to_dict_def)

lemma factor_to_dict_inj [simp]: "factor_to_dict a = factor_to_dict b \<longleftrightarrow> a = b"
  by (cases a; cases b) (auto simp: factor_to_dict_def)

lemma rule_to_dict_inj [simp]: "rule_to_dict a = rule_to_dict b \<longleftrightarrow> a = b"
  by (cases a; cases b) (auto simp: rule_to_dict_def inj_map_eq_map inj_def)

lemma metric_to_dict_inj [simp]: "metric_to_dict a = metric_to_dict b \<longleftrightarrow> a = b"
  by (cases a; cases b) (auto simp: metric_to_dict_def)

lemma comparison_to_dict_inj [simp]: "comparison_to_dict a = comparison_to_dict b \<longleftrightarrow> a = b"
  by (cases a; cases b) (auto simp: comparison_to_dict_def inj_map_eq_map inj_def)

lemma writeup_to_dict_inj [simp]: "writeup_to_dict a = writeup_to_dict b \<longleftrightarrow> a = b"
  by (cases a; cases b) (auto simp: writeup_to_dict_def)

lemma stop_to_dict_inj [simp]: "stop_to_dict a = stop_to_dict b \<longleftrightarrow> a = b"
  by (cases a; cases b) (auto simp: stop_to_dict_def)

lemma adapt_to_dict_inj [simp]: "adapt_to_dict a = adapt_to_dict b \<longleftrightarrow> a = b"
  by (cases a; cases b) (auto simp: adapt_to_dict_def)

lemma side_effects_to_dict_inj [simp]: "side_effects_to_dict a = side_effects_to_dict b \<longleftrightarrow> a = b"
  by (cases a; cases b) (auto simp: side_effects_to_dict_def)

lemma workflow_to_dict_inj [simp]: "workflow_to_dict a = workflow_to_dict b \<longleftrightarrow> a = b"
  by (cases a; cases b) (auto simp: workflow_to_dict_def)

lemma map_inj_iff: "(\<And>a b. f a = f b \<longleftrightarrow> a = b) \<Longrightarrow> map f xs = map f ys \<longleftrightarrow> xs = ys"
  by (simp add: inj_map_eq_map inj_def)

text \<open>The spec \<open>s\<close> with the lifecycle and provenance fields of \<open>t\<close>.\<close>

definition with_lifecycle :: "experiment_spec \<Rightarrow> experiment_spec \<Rightarrow> experiment_spec" where
  "with_lifecycle t s = s\<lparr>xs_git_sha := xs_git_sha t, xs_pricing_version := xs_pricing_version t, xs_status := xs_status t,
     xs_supersedes := xs_supersedes t, xs_superseded_by := xs_superseded_by t, xs_completed_at := xs_completed_at t,
     xs_last_run_at := xs_last_run_at t, xs_results_pointer := xs_results_pointer t\<rparr>"

lemma canonical_spec_definition_eq:
  "canonical_spec_definition s =
     [(''name'', PStr (xs_name s)), (''question'', PStr (xs_question s)), (''version'', PStr (xs_version s)),
      (''workflow'', workflow_to_dict (xs_workflow s)), (''factors'', PList (map factor_to_dict (xs_factors s))),
      (''design'', PStr (xs_design s)), (''rules'', PList (map rule_to_dict (xs_rules s))),
      (''metrics'', PList (map metric_to_dict (xs_metrics s))), (''stop'', stop_to_dict (xs_stop s)),
      (''adapt'', adapt_to_dict (xs_adapt s)), (''seed'', opt_int (xs_seed s)),
      (''artifact_kind'', PStr (xs_artifact_kind s)), (''intent'', PStr (xs_intent s)),
      (''side_effects'', side_effects_to_dict (xs_side_effects s)), (''repeatable'', PBool (xs_repeatable s)),
      (''sandboxed'', PBool (xs_sandboxed s))]
     @ (case xs_comparison s of None \<Rightarrow> [] | Some c \<Rightarrow> [(''comparison'', comparison_to_dict c)])
     @ (case xs_writeup s of None \<Rightarrow> [] | Some w \<Rightarrow> [(''writeup'', writeup_to_dict w)])"
  by (simp add: canonical_spec_definition_def spec_to_dict_def REVISION_VOLATILE_KEYS_def split: option.splits)


section \<open>Phases\<close>

text \<open>The contract of a phase: its markers are booleans, a test phase neither stops nor expands, an expansion has a path
  and no checkpoint, the scope is one of the five, and what the prompt calls for is declared.\<close>

definition is_marker :: "pydict \<Rightarrow> string \<Rightarrow> bool" where
  "is_marker ph key \<longleftrightarrow> key \<notin> fst ` set ph \<or> pyget ph key = PBool True \<or> pyget ph key = PBool False"

definition prompt_lines :: "pydict \<Rightarrow> string list" where
  "prompt_lines ph = splitlines (or_text (pyget ph ''prompt'') [])"

definition safe_phase :: "pydict \<Rightarrow> bool" where
  "safe_phase ph \<longleftrightarrow>
     is_marker ph ''deploy_allowed'' \<and> is_marker ph ''checkpoint'' \<and> is_marker ph ''no_emit''
     \<and> \<not> (is_test_phase ph \<and> truthy (pyget ph ''checkpoint''))
     \<and> (''expand_from_plan'' \<in> fst ` set ph \<longrightarrow>
          \<not> blank_or_other (pyget ph ''expand_from_plan'') \<and> \<not> is_test_phase ph \<and> \<not> truthy (pyget ph ''checkpoint''))
     \<and> (''gate_retry'' \<in> fst ` set ph \<longrightarrow> int_at_least 0 (pyget ph ''gate_retry''))
     \<and> (''scope'' \<in> fst ` set ph \<longrightarrow> pyget ph ''scope'' \<in> PStr ` set SCOPE_VOCABULARY)
     \<and> (\<forall>line \<in> set (prompt_lines ph). \<not> contains_str line ''checkpoint'' \<longrightarrow>
          (orders_halt line \<longrightarrow> truthy (pyget ph ''checkpoint''))
          \<and> (issues_deploy line \<and> \<not> deploy_subject line \<longrightarrow> truthy (pyget ph ''deploy_allowed'')))"

lemma bool_marker_errors_Nil: "bool_marker_errors key ph = [] \<longleftrightarrow> is_marker ph key"
  by (auto simp: bool_marker_errors_def is_marker_def)

lemma expansion_errors_Nil: "expansion_errors ph = [] \<longleftrightarrow> (''expand_from_plan'' \<in> fst ` set ph \<longrightarrow>
    \<not> blank_or_other (pyget ph ''expand_from_plan'') \<and> \<not> is_test_phase ph \<and> \<not> truthy (pyget ph ''checkpoint''))"
  by (simp add: expansion_errors_def Let_def)

lemma scope_errors_Nil: "scope_errors ph = Inr [] \<longleftrightarrow>
    (''scope'' \<in> fst ` set ph \<longrightarrow> pyget ph ''scope'' \<in> PStr ` set SCOPE_VOCABULARY)"
  by (auto simp: scope_errors_def Let_def hashable_def)

lemma line_violations_of_Nil: "line_violations_of name ph line = [] \<longleftrightarrow> (\<not> contains_str line ''checkpoint'' \<longrightarrow>
       (orders_halt line \<longrightarrow> truthy (pyget ph ''checkpoint''))
       \<and> (issues_deploy line \<and> \<not> deploy_subject line \<longrightarrow> truthy (pyget ph ''deploy_allowed'')))"
  by (simp add: line_violations_of_def)

lemma prose_phase_violations_Nil: "prose_phase_violations ph = [] \<longleftrightarrow>
    (\<forall>line \<in> set (prompt_lines ph). \<not> contains_str line ''checkpoint'' \<longrightarrow>
       (orders_halt line \<longrightarrow> truthy (pyget ph ''checkpoint''))
       \<and> (issues_deploy line \<and> \<not> deploy_subject line \<longrightarrow> truthy (pyget ph ''deploy_allowed'')))"
  by (simp add: prose_phase_violations_def prompt_lines_def line_violations_of_Nil)

lemma all_scopes_valid: "append_all rs = Inr [] \<longleftrightarrow> (\<forall>r \<in> set rs. r = Inr [])"
  by (induction rs rule: append_all.induct) (auto split: sum.splits)

lemma phases_errors_Nil: "phases_errors params phases = Inr [] \<longleftrightarrow>
    (\<forall>ph \<in> set phases. safe_phase ph) \<and> uniqueness_errors phases = [] \<and> unit_cap_errors params = []"
proof (cases "append_all (map scope_errors phases)")
  case (Inl e)
  then have "\<not> (\<forall>ph \<in> set phases. scope_errors ph = Inr [])" using all_scopes_valid [of "map scope_errors phases"] by auto
  then show ?thesis using Inl by (auto simp: phases_errors_def safe_phase_def scope_errors_Nil)
next
  case (Inr xs)
  have x: "xs = [] \<longleftrightarrow> (\<forall>ph \<in> set phases. scope_errors ph = Inr [])"
    using all_scopes_valid [of "map scope_errors phases"] Inr by simp
  have "phases_errors params phases = Inr [] \<longleftrightarrow>
      (\<forall>ph \<in> set phases. bool_marker_errors ''deploy_allowed'' ph = [] \<and> bool_marker_errors ''checkpoint'' ph = []
         \<and> checkpoint_kind_errors ph = [] \<and> gate_retry_errors ph = [] \<and> expansion_errors ph = []
         \<and> bool_marker_errors ''no_emit'' ph = [] \<and> scope_errors ph = Inr [] \<and> prose_phase_violations ph = [])
      \<and> uniqueness_errors phases = [] \<and> unit_cap_errors params = []"
    by (simp add: phases_errors_def Inr x) blast
  also have "\<dots> \<longleftrightarrow> (\<forall>ph \<in> set phases. safe_phase ph) \<and> uniqueness_errors phases = [] \<and> unit_cap_errors params = []"
  proof -
    have "bool_marker_errors ''deploy_allowed'' ph = [] \<and> bool_marker_errors ''checkpoint'' ph = []
         \<and> checkpoint_kind_errors ph = [] \<and> gate_retry_errors ph = [] \<and> expansion_errors ph = []
         \<and> bool_marker_errors ''no_emit'' ph = [] \<and> scope_errors ph = Inr [] \<and> prose_phase_violations ph = []
       \<longleftrightarrow> safe_phase ph" for ph
      unfolding safe_phase_def bool_marker_errors_Nil expansion_errors_Nil scope_errors_Nil prose_phase_violations_Nil
      by (auto simp: checkpoint_kind_errors_def gate_retry_errors_def)
    then show ?thesis by simp
  qed
  finally show ?thesis .
qed


text \<open>A spec whose agent phase stops for the operator and says so.\<close>

definition phase_text :: string where
  "phase_text = ''Build it. Then STOP for the operator.''"

definition spec_with_phase :: "pydict \<Rightarrow> experiment_spec" where
  "spec_with_phase ph = \<lparr>xs_name = ''w'', xs_question = [], xs_version = ''1'',
     xs_workflow = \<lparr>wf_kind = ''agent_task'', wf_params = [(''phases'', PList [PDict ph])]\<rparr>, xs_factors = [],
     xs_design = ''factorial'', xs_rules = [], xs_metrics = [], xs_comparison = None, xs_writeup = None,
     xs_stop = \<lparr>st_budget = PNone, st_max_attempts = PNone, st_uncertainty = PNone\<rparr>,
     xs_adapt = \<lparr>ad_strategy = ''manual'', ad_selection = ''largest_effect''\<rparr>, xs_git_sha = [], xs_pricing_version = [],
     xs_seed = None, xs_artifact_kind = ''workflow'', xs_intent = ''mutate'',
     xs_side_effects = \<lparr>se_repository = True, se_external = False\<rparr>, xs_repeatable = True, xs_sandboxed = False,
     xs_status = [], xs_supersedes = [], xs_superseded_by = None, xs_completed_at = None, xs_last_run_at = None,
     xs_results_pointer = None\<rparr>"


lemma undeclared_halt_refused:
  "validate_spec None (spec_with_phase [(''name'', PStr ''p1''), (''prompt'', PStr phase_text)]) \<noteq> Inr []"
  by code_simp

text \<open>The scope of a phase is one of the five, and a declared one wins over the table.\<close>

lemma find_scope: "List.find (\<lambda>v. PStr v = d) vs = (case d of PStr x \<Rightarrow> if x \<in> set vs then Some x else None | _ \<Rightarrow> None)"
  by (induction vs) (auto split: pyval.splits)

lemma find_text: "List.find (\<lambda>v. v = d) vs = (if d \<in> set vs then Some d else None)"
  by (induction vs) auto

lemma authorized_scopes: "list_all (\<lambda>(_, v). v \<in> set SCOPE_VOCABULARY) PHASE_SCOPE_AUTHORIZATION"
  by code_simp

lemma declared_scope_wins:
  "pyget ph ''scope'' = PStr v \<Longrightarrow> v \<in> set SCOPE_VOCABULARY \<Longrightarrow> spec_phase_scope (PDict ph) name = Inr (Some v)"
  by (simp add: spec_phase_scope_def find_text hashable_def [of "PStr v"] Let_def)

lemma authorized_scope_known: "spec_phase_scope phase name = Inr (Some v) \<Longrightarrow> v \<in> set SCOPE_VOCABULARY"
  by (auto simp: spec_phase_scope_def find_scope Let_def split: if_splits option.splits pyval.splits)

text \<open>The docstring of the prose gate lists more words that excuse a line than the code tests.\<close>

lemma implement_line_flagged:
  "\<not> deploy_subject ''may run: implement detection patterns for firebase deploy --only hosting''
   \<and> issues_deploy ''may run: implement detection patterns for firebase deploy --only hosting''"
  by code_simp

end
