(* ===== verification/Experiment_Compiler.thy ===== *)
theory Experiment_Compiler
  imports Experiment_Spec
begin

text \<open>
  The compiler of experiments (experiment/compile_experiment.py): the refusal of an invalid spec, the compiled graph with
  its topological order, the cells of the grid, and the comparison of arms. Metric values and loss weights are finite
  and exact; the measurement rules over a ledger of attempts are left out.
\<close>

section \<open>The graph\<close>

definition PHASES :: "string list" where
  "PHASES = [''validate'', ''cells'', ''execute'', ''measure'', ''compare'', ''writeup'', ''adapt'']"

type_synonym edge = "string \<times> string"

record dag =
  dag_phases :: "string list"
  dag_edges :: "edge list"
  dag_feedback :: "edge list"

datatype spec_error = SpecError "string list" | SpecRaises py_error

definition compile_spec :: "experiment_spec \<Rightarrow> spec_error + dag" where
  "compile_spec s =
     (case validate_spec None s of
        Inl e \<Rightarrow> Inl (SpecRaises e)
      | Inr (x # xs) \<Rightarrow> Inl (SpecError (x # xs))
      | Inr [] \<Rightarrow> Inr \<lparr>dag_phases = PHASES, dag_edges = zip PHASES (tl PHASES), dag_feedback = [(''adapt'', ''cells'')]\<rparr>)"

section \<open>Topological order\<close>

text \<open>The keys of a dict filled in this order: each in the place where it first occurs.\<close>

fun first_occurrences :: "'a list \<Rightarrow> 'a list" where
  "first_occurrences [] = []"
| "first_occurrences (x # xs) = x # filter (\<lambda>y. y \<noteq> x) (first_occurrences xs)"

text \<open>The successors of a node and the number of edges into it, in the order and with the multiplicity of the edges.\<close>

definition successors :: "edge list \<Rightarrow> string \<Rightarrow> string list" where
  "successors edges n = map snd (filter (\<lambda>e. fst e = n) edges)"

definition in_degree :: "edge list \<Rightarrow> string \<Rightarrow> nat" where
  "in_degree edges n = length (filter (\<lambda>e. snd e = n) edges)"

definition release_edge :: "(string \<Rightarrow> nat) \<times> string list \<Rightarrow> string \<Rightarrow> (string \<Rightarrow> nat) \<times> string list" where
  "release_edge st n = (case st of (deg, queue) \<Rightarrow>
     let deg' = deg(n := deg n - 1) in (deg', if deg' n = 0 then queue @ [n] else queue))"

text \<open>The loop takes the queue's head until the queue is empty; every round takes a node, so one unit of fuel per node
  is enough.\<close>

fun drain :: "nat \<Rightarrow> edge list \<Rightarrow> string list \<Rightarrow> (string \<Rightarrow> nat) \<Rightarrow> string list \<Rightarrow> string list" where
  "drain fuel edges order deg [] = order"
| "drain 0 edges order deg (n # queue) = order"
| "drain (Suc fuel) edges order deg (n # queue) =
     (case foldl release_edge (deg, queue) (successors edges n) of
        (deg', queue') \<Rightarrow> drain fuel edges (order @ [n]) deg' queue')"

definition topological_order :: "dag \<Rightarrow> py_error + string list" where
  "topological_order g =
     (let nodes = first_occurrences (dag_phases g) in
      if list_all (\<lambda>(a, b). a \<in> set nodes \<and> b \<in> set nodes) (dag_edges g)
      then Inr (drain (length nodes) (dag_edges g) [] (in_degree (dag_edges g))
                  (filter (\<lambda>n. in_degree (dag_edges g) n = 0) nodes))
      else Inl KeyError)"

section \<open>The grid\<close>

definition slugify :: "string \<Rightarrow> string" where
  "slugify v =
     (let out = py_lower (strip_by (\<lambda>c. c = CHR ''_'') (underscore_slug v)) in if out = [] then ''cell'' else out)"

type_synonym cell = "(string \<times> string) list"

definition put_level :: "string \<Rightarrow> string \<Rightarrow> cell \<Rightarrow> cell" where
  "put_level k v c =
     (if k \<in> fst ` set c then map (\<lambda>(k', v'). if k' = k then (k, v) else (k', v')) c else c @ [(k, v)])"

definition add_factor :: "cell list \<Rightarrow> factor \<Rightarrow> cell list" where
  "add_factor cells f = concat (map (\<lambda>c. map (\<lambda>level. put_level (fc_name f) level c) (fc_levels f)) cells)"

definition assignments :: "experiment_spec \<Rightarrow> cell list" where
  "assignments s = foldl add_factor [[]] (filter fc_active (xs_factors s))"

definition matrix_cell_id :: "experiment_spec \<Rightarrow> cell \<Rightarrow> string" where
  "matrix_cell_id s c =
     slugify (xs_name s) @ ''_'' @ join_with (CHR ''_'') (map (\<lambda>(k, v). slugify k @ ''_'' @ slugify v) c)"

definition experiment_matrix :: "experiment_spec \<Rightarrow> cell list" where
  "experiment_matrix s = map (\<lambda>c. put_level ''cell_id'' (matrix_cell_id s c) c) (assignments s)"

section \<open>Comparing arms\<close>

definition DEFAULT_OBJECTIVE_FIELDS :: "(string \<times> string) list" where
  "DEFAULT_OBJECTIVE_FIELDS = [(''cost'', ''cost''), (''quality'', ''correctness''), (''latency'', ''latency''),
     (''sla'', ''sla''), (''value'', ''value'')]"

text \<open>The number of a usable metric value.\<close>

fun usable_metric :: "pyval \<Rightarrow> rat option" where
  "usable_metric (PBool b) = Some (if b then 1 else 0)"
| "usable_metric (PInt i) = Some (of_int i)"
| "usable_metric (PFloat (Fin q)) = Some q"
| "usable_metric _ = None"

definition round_to_4 :: "rat \<Rightarrow> rat" where
  "round_to_4 q = of_int (round_even (q * 10000)) / 10000"

definition field_values :: "string \<Rightarrow> pydict list \<Rightarrow> rat list" where
  "field_values fld rows = List.map_filter (\<lambda>r. usable_metric (pyget r fld)) rows"

definition arm_of :: "string \<Rightarrow> pydict \<Rightarrow> string option" where
  "arm_of arm_factor r = (case pyget r arm_factor of PNone \<Rightarrow> None | v \<Rightarrow> Some (py_str v))"

definition arm_rows :: "string \<Rightarrow> pydict list \<Rightarrow> string \<Rightarrow> pydict list" where
  "arm_rows arm_factor rows arm = filter (\<lambda>r. arm_of arm_factor r = Some arm) rows"

text \<open>The arms in the order in which they first occur.\<close>

definition arms_of :: "string \<Rightarrow> pydict list \<Rightarrow> string list" where
  "arms_of arm_factor rows = first_occurrences (List.map_filter (arm_of arm_factor) rows)"

record coverage =
  co_objective :: string
  co_n :: nat
  co_of :: nat
  co_rate :: rat

record arm_stats =
  as_n :: nat
  as_averages :: "(string \<times> rat) list"
  as_coverage :: "coverage list"
  as_missing :: "string list"
  as_under :: "string list"
  as_eligible :: bool
  as_weighted_loss :: "rat option"

definition MISSING_POLICIES :: "string list" where
  "MISSING_POLICIES = [''exclude'', ''ignore'']"

text \<open>One objective of an arm: its measured values and their share of the rows.\<close>

definition mean :: "rat list \<Rightarrow> rat" where
  "mean xs = sum_list xs / of_nat (length xs)"

definition covered_rate :: "string \<Rightarrow> pydict list \<Rightarrow> rat" where
  "covered_rate fld rows =
     (if rows = [] then 0 else of_nat (length (field_values fld rows)) / of_nat (length rows))"

definition missing_objectives :: "(string \<times> string) list \<Rightarrow> pydict list \<Rightarrow> string list" where
  "missing_objectives objs rows = map fst (filter (\<lambda>(_, fld). field_values fld rows = []) objs)"

definition under_covered :: "rat \<Rightarrow> (string \<times> string) list \<Rightarrow> pydict list \<Rightarrow> string list" where
  "under_covered min_coverage objs rows =
     map fst (filter (\<lambda>(_, fld). field_values fld rows \<noteq> [] \<and> covered_rate fld rows < min_coverage) objs)"

definition weighted_loss :: "(string \<Rightarrow> rat) \<Rightarrow> (string \<times> string) list \<Rightarrow> pydict list \<Rightarrow> rat" where
  "weighted_loss loss objs rows =
     foldl (\<lambda>acc (ob, fld). if field_values fld rows = [] then acc else acc + loss ob * mean (field_values fld rows)) 0 objs"

definition stats_of ::
  "string \<Rightarrow> rat \<Rightarrow> (string \<Rightarrow> rat) \<Rightarrow> (string \<times> string) list \<Rightarrow> pydict list \<Rightarrow> arm_stats" where
  "stats_of policy min_coverage loss objs rows =
     (let missing = missing_objectives objs rows; under = under_covered min_coverage objs rows;
          eligible = (policy = ''ignore'' \<or> (missing = [] \<and> under = []))
      in \<lparr>as_n = length rows,
          as_averages = map (\<lambda>(_, fld). (''avg_'' @ fld, round_to_4 (mean (field_values fld rows))))
            (filter (\<lambda>(_, fld). field_values fld rows \<noteq> []) objs),
          as_coverage = map (\<lambda>(ob, fld). \<lparr>co_objective = ob, co_n = length (field_values fld rows), co_of = length rows,
            co_rate = round_to_4 (covered_rate fld rows)\<rparr>) objs,
          as_missing = missing, as_under = under, as_eligible = eligible,
          as_weighted_loss = (if eligible then Some (round_to_4 (weighted_loss loss objs rows)) else None)\<rparr>)"

record comparison =
  cp_objectives :: "string list"
  cp_unmeasured :: "string list"
  cp_unmapped :: "string list"
  cp_empty_state :: "string option"
  cp_arms :: "(string \<times> arm_stats) list"
  cp_eligible :: "string list"
  cp_ineligible :: "string list"
  cp_best :: "string option"
  cp_regrets :: "(string \<times> rat) list"

definition objective_fields_of :: "(string \<times> string) list \<Rightarrow> string \<Rightarrow> string option" where
  "objective_fields_of extra ob =
     (case map_of extra ob of Some f \<Rightarrow> Some f | None \<Rightarrow> map_of DEFAULT_OBJECTIVE_FIELDS ob)"

definition loss_of :: "(string \<times> arm_stats) list \<Rightarrow> string \<Rightarrow> rat" where
  "loss_of stats arm = (case map_of stats arm of Some s \<Rightarrow> (case as_weighted_loss s of Some l \<Rightarrow> l | None \<Rightarrow> 0) | None \<Rightarrow> 0)"

text \<open>\<open>min(xs, key=k)\<close>: the first of the smallest.\<close>

definition first_min :: "('a \<Rightarrow> rat) \<Rightarrow> 'a \<Rightarrow> 'a list \<Rightarrow> 'a" where
  "first_min k x xs = foldl (\<lambda>m y. if k y < k m then y else m) x xs"

definition rank_arms ::
  "(string \<times> string) list \<Rightarrow> string list \<Rightarrow> string list \<Rightarrow> (string \<times> arm_stats) list \<Rightarrow> comparison" where
  "rank_arms objs unmeasured unmapped stats =
     (let eligible = map fst (filter (\<lambda>(_, s). as_eligible s) stats);
          state = (if stats = [] then Some ''no_arms'' else if objs = [] then Some ''no_measured_objectives''
                   else if eligible = [] then Some ''no_eligible_arms'' else None);
          best = (if state \<noteq> None then None
                  else (case eligible of [] \<Rightarrow> None | x # xs \<Rightarrow> Some (first_min (loss_of stats) x xs)))
      in \<lparr>cp_objectives = map fst objs, cp_unmeasured = unmeasured, cp_unmapped = unmapped, cp_empty_state = state,
          cp_arms = stats, cp_eligible = eligible,
          cp_ineligible = map fst (filter (\<lambda>(_, s). \<not> as_eligible s) stats), cp_best = best,
          cp_regrets = (case best of None \<Rightarrow> []
            | Some b \<Rightarrow> map (\<lambda>a. (a, round_to_4 (loss_of stats a - loss_of stats b))) eligible)\<rparr>)"

definition compare_arms ::
  "pydict list \<Rightarrow> string \<Rightarrow> (string \<times> rat) list \<Rightarrow> (string \<times> string) list \<Rightarrow> string \<Rightarrow> rat
     \<Rightarrow> py_error + comparison" where
  "compare_arms rows arm_factor loss extra policy min_coverage =
     (if policy \<notin> set MISSING_POLICIES \<or> min_coverage < 0 \<or> 1 < min_coverage then Inl ValueError
      else let names = map fst loss;
               mapped = List.map_filter (\<lambda>ob. map_option (Pair ob) (objective_fields_of extra ob)) names;
               objs = filter (\<lambda>(_, fld). field_values fld rows \<noteq> []) mapped;
               weight = (\<lambda>ob. case map_of loss ob of Some w \<Rightarrow> w | None \<Rightarrow> 0)
           in Inr (rank_arms objs
                (map fst (filter (\<lambda>(_, fld). field_values fld rows = []) mapped))
                (filter (\<lambda>ob. objective_fields_of extra ob = None) names)
                (map (\<lambda>arm. (arm, stats_of policy min_coverage weight objs (arm_rows arm_factor rows arm)))
                   (arms_of arm_factor rows))))"

end
