(* ===== verification/Compiler_Facts.thy ===== *)
theory Compiler_Facts
  imports Experiment_Compiler
begin

text \<open>
  What the compiler guarantees: the topological order of any graph respects its edges and is complete when the
  graph has no cycle, the grid is the product of the active factors, and a comparison never ranks an arm by an
  objective that was not measured.
\<close>

section \<open>Topological order\<close>

lemma release_foldl:
  assumes "\<forall>n. count_list xs n \<le> deg n" "foldl release_edge (deg, queue) xs = (deg', queue')"
  shows "\<exists>added. queue' = queue @ added \<and> (\<forall>n. deg' n = deg n - count_list xs n) \<and> distinct added
    \<and> set added = {n \<in> set xs. deg n = count_list xs n}"
  using assms
proof (induction xs arbitrary: deg queue)
  case (Cons x xs)
  let ?d = "deg(x := deg x - 1)" and ?q = "if deg x - 1 = 0 then queue @ [x] else queue"
  have x: "count_list xs x + 1 \<le> deg x" using Cons.prems(1) by (metis count_list.simps(2))
  have le: "\<forall>n. count_list xs n \<le> ?d n" using Cons.prems(1) x by (auto split: if_splits)
  have "release_edge (deg, queue) x = (?d, ?q)" by (simp add: release_edge_def Let_def)
  then have "foldl release_edge (?d, ?q) xs = (deg', queue')" using Cons.prems(2) by (simp only: foldl.simps)
  then obtain added where a: "queue' = ?q @ added" "\<forall>n. deg' n = ?d n - count_list xs n" "distinct added"
      "set added = {n \<in> set xs. ?d n = count_list xs n}"
    using Cons.IH [OF le] by blast
  let ?a = "(if deg x - 1 = 0 then [x] else []) @ added"
  have "deg x - 1 = 0 \<Longrightarrow> x \<notin> set xs" using x by (metis add_le_cancel_right add_0 count_list_0_iff diff_is_0_eq le_zero_eq order.trans)
  then have "distinct ?a" using a(3,4) by auto
  moreover have "set ?a = {n \<in> set (x # xs). deg n = count_list (x # xs) n}"
    using a(4) x by (auto simp: count_list_0_iff)
  moreover have "\<forall>n. deg' n = deg n - count_list (x # xs) n" using a(2) x by auto
  ultimately show ?case using a(1) by (intro exI [of _ ?a]) auto
qed simp

lemma count_successors: "count_list (successors edges n) m = length (filter (\<lambda>e. e = (n, m)) edges)"
  by (induction edges) (auto simp: successors_def)

text \<open>The state of the loop: nodes are taken or waiting exactly when no edge from an untaken node leads to them.\<close>

definition open_edges :: "edge list \<Rightarrow> string list \<Rightarrow> string \<Rightarrow> nat" where
  "open_edges edges order n = length (filter (\<lambda>e. snd e = n \<and> fst e \<notin> set order) edges)"

definition order_respects :: "edge list \<Rightarrow> string list \<Rightarrow> bool" where
  "order_respects edges order \<longleftrightarrow> (\<forall>xs v ys. order = xs @ v # ys \<longrightarrow> (\<forall>u. (u, v) \<in> set edges \<longrightarrow> u \<in> set xs))"

definition kahn_inv :: "string list \<Rightarrow> edge list \<Rightarrow> string list \<Rightarrow> (string \<Rightarrow> nat) \<Rightarrow> string list \<Rightarrow> bool" where
  "kahn_inv nodes edges order deg queue \<longleftrightarrow> distinct (order @ queue) \<and> set (order @ queue) \<subseteq> set nodes
     \<and> (\<forall>n. deg n = open_edges edges order n)
     \<and> (\<forall>n \<in> set nodes. n \<in> set (order @ queue) \<longleftrightarrow> deg n = 0)
     \<and> order_respects edges order"

lemma open_edges_0: "open_edges edges order n = 0 \<longleftrightarrow> (\<forall>u. (u, n) \<in> set edges \<longrightarrow> u \<in> set order)"
  by (auto simp: open_edges_def filter_empty_conv)

lemma open_edges_snoc:
  "n \<notin> set order \<Longrightarrow> open_edges edges (order @ [n]) m = open_edges edges order m - count_list (successors edges n) m
     \<and> count_list (successors edges n) m \<le> open_edges edges order m"
  unfolding open_edges_def count_successors by (induction edges) auto

lemma order_respects_snoc:
  assumes "order_respects edges order" "\<forall>u. (u, n) \<in> set edges \<longrightarrow> u \<in> set order"
  shows "order_respects edges (order @ [n])"
  unfolding order_respects_def
proof (intro allI impI)
  fix xs v ys u
  assume eq: "order @ [n] = xs @ v # ys" and e: "(u, v) \<in> set edges"
  show "u \<in> set xs"
  proof (cases ys rule: rev_cases)
    case Nil
    then show ?thesis using eq e assms(2) by simp
  next
    case (snoc zs z)
    then have "order = xs @ v # zs" using eq by simp
    then show ?thesis using assms(1) e unfolding order_respects_def by blast
  qed
qed

lemma kahn_step:
  assumes inv: "kahn_inv nodes edges order deg (n # queue)"
    and edges: "\<forall>(a, b) \<in> set edges. a \<in> set nodes \<and> b \<in> set nodes"
    and step: "foldl release_edge (deg, queue) (successors edges n) = (deg', queue')"
  shows "kahn_inv nodes edges (order @ [n]) deg' queue'"
proof -
  have n: "n \<notin> set order" "n \<in> set nodes" "deg n = 0" using inv by (auto simp: kahn_inv_def)
  have deg: "\<And>m. deg m = open_edges edges order m" using inv by (simp add: kahn_inv_def)
  have le: "\<forall>m. count_list (successors edges n) m \<le> deg m" using open_edges_snoc [OF n(1)] deg by simp
  obtain added where a: "queue' = queue @ added" "\<forall>m. deg' m = deg m - count_list (successors edges n) m" "distinct added"
      "set added = {m \<in> set (successors edges n). deg m = count_list (successors edges n) m}"
    using release_foldl [OF le step] by blast
  have deg': "deg' m = open_edges edges (order @ [n]) m" for m using a(2) deg open_edges_snoc [OF n(1)] by simp
  have succ: "set (successors edges n) \<subseteq> set nodes" using edges by (auto simp: successors_def)
  have pos: "m \<in> set added \<Longrightarrow> 0 < deg m" for m
    using a(4) by (metis (mono_tags, lifting) count_list_0_iff mem_Collect_eq not_gr0)
  have zero: "m \<in> set (order @ n # queue) \<Longrightarrow> deg m = 0" for m using inv unfolding kahn_inv_def by (meson subsetD)
  then have new: "set added \<inter> set (order @ n # queue) = {}" using pos by (metis disjoint_iff less_irrefl)
  have "m \<in> set (order @ [n] @ queue') \<longleftrightarrow> deg' m = 0" if "m \<in> set nodes" for m
  proof (cases "m \<in> set (order @ n # queue)")
    case True
    then have "deg m = 0" using inv that by (simp add: kahn_inv_def)
    then show ?thesis using True a(1,2) by auto
  next
    case False
    then have "0 < deg m" using inv that by (auto simp: kahn_inv_def)
    have "count_list (successors edges n) m \<le> deg m" using le by simp
    then have "deg' m = 0 \<longleftrightarrow> deg m = count_list (successors edges n) m" using a(2) by auto
    also have "\<dots> \<longleftrightarrow> m \<in> set added" using a(4) \<open>0 < deg m\<close> count_list_0_iff by fastforce
    finally have "deg' m = 0 \<longleftrightarrow> m \<in> set added" .
    then show ?thesis using False a(1) by auto
  qed
  moreover have "distinct (order @ [n] @ queue')" using inv a(1,3) new by (auto simp: kahn_inv_def)
  moreover have "set (order @ [n] @ queue') \<subseteq> set nodes" using inv a(1,4) succ by (auto simp: kahn_inv_def)
  moreover have "order_respects edges (order @ [n])"
    using inv n(3) deg open_edges_0 by (intro order_respects_snoc) (auto simp: kahn_inv_def)
  ultimately show ?thesis using deg' by (simp add: kahn_inv_def)
qed

lemma drain_inv:
  assumes "kahn_inv nodes edges order deg queue" "\<forall>(a, b) \<in> set edges. a \<in> set nodes \<and> b \<in> set nodes"
    and "card (set nodes) \<le> fuel + length order"
  shows "\<exists>deg'. kahn_inv nodes edges (drain fuel edges order deg queue) deg' []"
  using assms
proof (induction fuel edges order deg queue rule: drain.induct)
  case (1 fuel edges order deg)
  then show ?case by auto
next
  case (2 edges order deg n queue)
  then have d: "distinct (order @ n # queue)" "set (order @ n # queue) \<subseteq> set nodes" by (auto simp: kahn_inv_def)
  have "length (order @ n # queue) = card (set (order @ n # queue))" using d(1) by (metis distinct_card)
  also have "\<dots> \<le> card (set nodes)" using d(2) by (intro card_mono) simp_all
  finally show ?case using 2(3) by simp
next
  case (3 fuel edges order deg n queue)
  obtain deg' queue' where step: "foldl release_edge (deg, queue) (successors edges n) = (deg', queue')" by fastforce
  have "kahn_inv nodes edges (order @ [n]) deg' queue'" by (rule kahn_step [OF 3(2,3) step])
  then show ?case using 3(1) [OF step [symmetric] _ 3(3)] 3(4) step by simp
qed

text \<open>The loop ends: what is left has an edge from something that is left.\<close>

lemma first_occurrences_set [simp]: "set (first_occurrences xs) = set xs"
  by (induction xs) auto

lemma first_occurrences_distinct [simp]: "distinct (first_occurrences xs)"
  by (induction xs) auto

lemma kahn_start:
  "distinct nodes \<Longrightarrow> kahn_inv nodes edges [] (in_degree edges) (filter (\<lambda>n. in_degree edges n = 0) nodes)"
  by (auto simp: kahn_inv_def open_edges_def in_degree_def order_respects_def)

lemma topological_order_inv:
  assumes "topological_order g = Inr order"
  shows "\<exists>deg. kahn_inv (first_occurrences (dag_phases g)) (dag_edges g) order deg []
    \<and> (\<forall>(a, b) \<in> set (dag_edges g). a \<in> set (dag_phases g) \<and> b \<in> set (dag_phases g))"
proof -
  let ?nodes = "first_occurrences (dag_phases g)"
  have edges: "\<forall>(a, b) \<in> set (dag_edges g). a \<in> set ?nodes \<and> b \<in> set ?nodes"
    and order: "order = drain (length ?nodes) (dag_edges g) [] (in_degree (dag_edges g))
      (filter (\<lambda>n. in_degree (dag_edges g) n = 0) ?nodes)"
    using assms by (auto simp: topological_order_def Let_def list_all_iff split: if_splits)
  have "\<exists>deg. kahn_inv ?nodes (dag_edges g) order deg []"
    unfolding order by (rule drain_inv [OF kahn_start edges]) (simp_all only: first_occurrences_distinct list.size(3) add_0_right card_length)
  then show ?thesis using edges by simp
qed

text \<open>C39: the topological order of any graph is sound, and complete when the graph has no cycle. It lists each node
  at most once and after all nodes with an edge to it; a node that is missing has an edge from another missing node, so if
  the nodes can be ranked along the edges, none is missing. The loop needs no more rounds than there are nodes. Repeated
  nodes and repeated edges are allowed.\<close>

theorem topological_order_is_sound:
  assumes "topological_order g = Inr order"
  shows "distinct order \<and> set order \<subseteq> set (dag_phases g) \<and> order_respects (dag_edges g) order
    \<and> (\<forall>n \<in> set (dag_phases g) - set order. \<exists>m \<in> set (dag_phases g) - set order. (m, n) \<in> set (dag_edges g))
    \<and> ((\<exists>rank :: string \<Rightarrow> nat. \<forall>(a, b) \<in> set (dag_edges g). rank a < rank b) \<longrightarrow> set order = set (dag_phases g))"
proof -
  obtain deg where inv: "kahn_inv (first_occurrences (dag_phases g)) (dag_edges g) order deg []"
    and edges: "\<forall>(a, b) \<in> set (dag_edges g). a \<in> set (dag_phases g) \<and> b \<in> set (dag_phases g)"
    using topological_order_inv [OF assms] by blast
  have sub: "set order \<subseteq> set (dag_phases g)" using inv by (simp add: kahn_inv_def)
  have blocked: "\<exists>m \<in> set (dag_phases g) - set order. (m, n) \<in> set (dag_edges g)"
    if "n \<in> set (dag_phases g) - set order" for n
  proof -
    have "open_edges (dag_edges g) order n \<noteq> 0" using inv that unfolding kahn_inv_def by fastforce
    then show ?thesis using edges unfolding open_edges_0 by blast
  qed
  have "set order = set (dag_phases g)" if "\<forall>(a, b) \<in> set (dag_edges g). rank a < rank b" for rank :: "string \<Rightarrow> nat"
  proof -
    have "n \<in> set (dag_phases g) \<Longrightarrow> n \<in> set order" for n
    proof (induction "rank n" arbitrary: n rule: less_induct)
      case less
      then show ?case using blocked [of n] that by blast
    qed
    then show ?thesis using sub by blast
  qed
  then show ?thesis using inv sub blocked by (auto simp: kahn_inv_def)
qed

section \<open>The grid\<close>

lemma put_level_new: "k \<notin> fst ` set c \<Longrightarrow> put_level k v c = c @ [(k, v)]"
  by (simp add: put_level_def)

lemma add_factor_new:
  assumes "\<forall>c \<in> set cells. fc_name f \<notin> fst ` set c"
  shows "add_factor cells f = concat (map (\<lambda>c. map (\<lambda>level. c @ [(fc_name f, level)]) (fc_levels f)) cells)"
  unfolding add_factor_def by (intro arg_cong [where f = concat] map_cong refl) (use assms in \<open>simp add: put_level_new\<close>)

definition in_grid :: "factor list \<Rightarrow> cell \<Rightarrow> bool" where
  "in_grid fs c \<longleftrightarrow> list_all2 (\<lambda>(k, v) f. k = fc_name f \<and> v \<in> set (fc_levels f)) c fs"

lemma in_grid_keys: "in_grid fs c \<Longrightarrow> map fst c = map fc_name fs"
  unfolding in_grid_def by (induction rule: list_all2_induct) auto

lemma list_all2_snoc: "list_all2 P (xs @ [x]) (ys @ [y]) \<longleftrightarrow> list_all2 P xs ys \<and> P x y"
  by (induction xs ys rule: list_induct2') (auto simp: list_all2_Cons1 list_all2_Cons2)

lemma in_grid_snoc: "in_grid (fs @ [f]) c \<longleftrightarrow> (\<exists>c' v. c = c' @ [(fc_name f, v)] \<and> in_grid fs c' \<and> v \<in> set (fc_levels f))"
  by (cases c rule: rev_cases) (auto simp: in_grid_def list_all2_snoc)

lemma distinct_extensions:
  "distinct cs \<Longrightarrow> distinct vs \<Longrightarrow> distinct (concat (map (\<lambda>c. map (\<lambda>v. c @ [(k, v)]) vs) cs))"
  by (induction cs) (auto simp: distinct_map inj_on_def)

lemma grid_of_factors:
  "distinct (map fc_name fs) \<Longrightarrow> set (foldl add_factor [[]] fs) = {c. in_grid fs c}
     \<and> length (foldl add_factor [[]] fs) = prod_list (map (\<lambda>f. length (fc_levels f)) fs)
     \<and> ((\<forall>f \<in> set fs. distinct (fc_levels f)) \<longrightarrow> distinct (foldl add_factor [[]] fs))"
proof (induction fs rule: rev_induct)
  case Nil
  then show ?case by (auto simp: in_grid_def)
next
  case (snoc f fs)
  let ?g = "foldl add_factor [[]] fs"
  have IH: "set ?g = {c. in_grid fs c}" "length ?g = prod_list (map (\<lambda>f. length (fc_levels f)) fs)"
    "(\<forall>f \<in> set fs. distinct (fc_levels f)) \<longrightarrow> distinct ?g"
    using snoc by auto
  have fresh: "\<forall>c \<in> set ?g. fc_name f \<notin> fst ` set c"
  proof
    fix c assume "c \<in> set ?g"
    then have "fst ` set c = fc_name ` set fs" using IH(1) in_grid_keys [of fs c] by (metis list.set_map mem_Collect_eq)
    then show "fc_name f \<notin> fst ` set c" using snoc.prems by auto
  qed
  have g: "foldl add_factor [[]] (fs @ [f]) = concat (map (\<lambda>c. map (\<lambda>level. c @ [(fc_name f, level)]) (fc_levels f)) ?g)"
    using add_factor_new [OF fresh] by simp
  have "set (foldl add_factor [[]] (fs @ [f])) = {c. in_grid (fs @ [f]) c}"
    unfolding g in_grid_snoc using IH(1) by auto
  moreover have "length (foldl add_factor [[]] (fs @ [f])) = prod_list (map (\<lambda>f. length (fc_levels f)) (fs @ [f]))"
    unfolding g using IH(2) by (simp add: length_concat o_def sum_list_triv)
  moreover have "distinct (foldl add_factor [[]] (fs @ [f]))" if "\<forall>f' \<in> set (fs @ [f]). distinct (fc_levels f')"
  proof -
    have "distinct ?g" "distinct (fc_levels f)" using that IH(3) by auto
    then show ?thesis unfolding g by (rule distinct_extensions)
  qed
  ultimately show ?case by simp
qed

text \<open>The grid has one cell for every choice of a level of each active factor.\<close>

theorem grid_is_the_product:
  assumes "distinct (map fc_name (filter fc_active (xs_factors s)))"
  shows "(\<forall>c. c \<in> set (assignments s) \<longleftrightarrow> in_grid (filter fc_active (xs_factors s)) c)
    \<and> length (experiment_matrix s) = prod_list (map (\<lambda>f. length (fc_levels f)) (filter fc_active (xs_factors s)))
    \<and> ((\<forall>f \<in> set (xs_factors s). distinct (fc_levels f)) \<longrightarrow> distinct (assignments s))"
  using grid_of_factors [OF assms] by (simp add: assignments_def experiment_matrix_def)

text \<open>Two factors, one of them inactive.\<close>

definition small_spec :: "string list \<Rightarrow> experiment_spec" where
  "small_spec levels = \<lparr>xs_name = ''Cost'', xs_question = [], xs_version = ''1'', xs_workflow = \<lparr>wf_kind = ''task'', wf_params = []\<rparr>,
     xs_factors = [\<lparr>fc_name = ''model'', fc_levels = levels, fc_active = True, fc_current = PNone\<rparr>,
       \<lparr>fc_name = ''tier'', fc_levels = [''x''], fc_active = False, fc_current = PNone\<rparr>,
       \<lparr>fc_name = ''seed'', fc_levels = [''1'', ''2''], fc_active = True, fc_current = PNone\<rparr>],
     xs_design = ''factorial'', xs_rules = [], xs_metrics = [], xs_comparison = None, xs_writeup = None,
     xs_stop = \<lparr>st_budget = PNone, st_max_attempts = PNone, st_uncertainty = PNone\<rparr>,
     xs_adapt = \<lparr>ad_strategy = ''manual'', ad_selection = ''largest_effect''\<rparr>, xs_git_sha = [], xs_pricing_version = [],
     xs_seed = None, xs_artifact_kind = ''experiment'', xs_intent = ''measure'',
     xs_side_effects = \<lparr>se_repository = False, se_external = False\<rparr>, xs_repeatable = True, xs_sandboxed = False,
     xs_status = [], xs_supersedes = [], xs_superseded_by = None, xs_completed_at = None, xs_last_run_at = None,
     xs_results_pointer = None\<rparr>"

theorem grid_is_the_product_witness:
  "length (experiment_matrix (small_spec [''a'', ''b''])) = 4"
  using grid_is_the_product [of "small_spec [''a'', ''b'']"] by (simp add: small_spec_def)

text \<open>Levels that differ only in characters other than letters and digits share a cell id.\<close>

lemma cell_ids_collide:
  "map (\<lambda>c. map_of c ''cell_id'') (experiment_matrix (small_spec [''a/b'', ''a-b'']))
   = map (Some \<circ> (@) ''cost_model_a_b_seed_'') [''1'', ''2'', ''1'', ''2'']"
  by code_simp

lemma compiled_order: "compile_spec (small_spec [''a'']) = Inr g \<Longrightarrow> topological_order g = Inr PHASES"
proof -
  have "compile_spec (small_spec [''a'']) = Inr \<lparr>dag_phases = PHASES, dag_edges = zip PHASES (tl PHASES),
      dag_feedback = [(''adapt'', ''cells'')]\<rparr>"
    by code_simp
  moreover have "topological_order \<lparr>dag_phases = PHASES, dag_edges = zip PHASES (tl PHASES),
      dag_feedback = [(''adapt'', ''cells'')]\<rparr> = Inr PHASES"
    by code_simp
  ultimately show "compile_spec (small_spec [''a'']) = Inr g \<Longrightarrow> topological_order g = Inr PHASES" by simp
qed

theorem topological_order_is_sound_witness:
  "distinct PHASES \<and> order_respects (zip PHASES (tl PHASES)) PHASES"
proof -
  have "topological_order \<lparr>dag_phases = PHASES, dag_edges = zip PHASES (tl PHASES),
      dag_feedback = [(''adapt'', ''cells'')]\<rparr> = Inr PHASES"
    by code_simp
  from topological_order_is_sound [OF this] show ?thesis by simp
qed

section \<open>Comparing arms\<close>

lemma first_min_in: "first_min k x xs \<in> set (x # xs) \<and> (\<forall>y \<in> set (x # xs). k (first_min k x xs) \<le> k y)"
proof (induction xs arbitrary: x)
  case (Cons y xs)
  have "first_min k x (y # xs) = first_min k (if k y < k x then y else x) xs" by (simp add: first_min_def)
  then show ?case using Cons.IH [of "if k y < k x then y else x"] by (auto split: if_splits)
qed (simp add: first_min_def)

lemma round_to_4_nonneg: "0 \<le> q \<Longrightarrow> 0 \<le> round_to_4 q"
proof -
  assume "0 \<le> q"
  have "\<bar>of_int (round_even (q * 10000)) - q * 10000\<bar> \<le> 1 / 2" by (rule round_even_bounds)
  then have "(-1 :: rat) < of_int (round_even (q * 10000))" using \<open>0 \<le> q\<close> by linarith
  then have "0 \<le> round_even (q * 10000)" by linarith
  then show ?thesis by (simp add: round_to_4_def)
qed

lemma rank_arms_best:
  assumes "cp_best (rank_arms objs unmeasured unmapped stats) = Some b"
  shows "b \<in> set (cp_eligible (rank_arms objs unmeasured unmapped stats)) \<and> objs \<noteq> []
    \<and> (\<forall>a \<in> set (cp_eligible (rank_arms objs unmeasured unmapped stats)). loss_of stats b \<le> loss_of stats a)
    \<and> cp_regrets (rank_arms objs unmeasured unmapped stats)
      = map (\<lambda>a. (a, round_to_4 (loss_of stats a - loss_of stats b))) (cp_eligible (rank_arms objs unmeasured unmapped stats))"
proof -
  let ?e = "map fst (filter (\<lambda>(_, s). as_eligible s) stats)"
  obtain x xs where e: "?e = x # xs" and b: "b = first_min (loss_of stats) x xs" and "objs \<noteq> []"
    using assms by (auto simp: rank_arms_def Let_def split: list.splits if_splits)
  then show ?thesis
    using assms first_min_in [of "loss_of stats" x xs] by (auto simp: rank_arms_def Let_def)
qed

lemma regrets_nonneg: "\<forall>(a, r) \<in> set (cp_regrets (rank_arms objs um up stats)). 0 \<le> r"
proof (cases "cp_best (rank_arms objs um up stats)")
  case None
  then show ?thesis by (auto simp: rank_arms_def Let_def)
next
  case (Some b)
  have "0 \<le> round_to_4 (loss_of stats a - loss_of stats b)" if "a \<in> set (cp_eligible (rank_arms objs um up stats))" for a
    using rank_arms_best [OF Some] that by (intro round_to_4_nonneg) simp
  then show ?thesis using rank_arms_best [OF Some] by auto
qed

lemma rank_arms_fields [simp]:
  "cp_objectives (rank_arms objs um up stats) = map fst objs" "cp_unmeasured (rank_arms objs um up stats) = um"
  "cp_unmapped (rank_arms objs um up stats) = up" "cp_arms (rank_arms objs um up stats) = stats"
  "cp_eligible (rank_arms objs um up stats) = map fst (filter (\<lambda>(_, s). as_eligible s) stats)"
  by (simp_all add: rank_arms_def Let_def)

lemma excluded_unless_covered:
  "as_eligible (stats_of ''exclude'' mc weight objs rows) \<longleftrightarrow>
     (\<forall>(ob, fld) \<in> set objs. field_values fld rows \<noteq> [] \<and> mc \<le> covered_rate fld rows)"
  by (fastforce simp: stats_of_def Let_def missing_objectives_def under_covered_def filter_empty_conv not_less)

lemma map_filter_Some_iff: "y \<in> set (List.map_filter f xs) \<longleftrightarrow> (\<exists>x \<in> set xs. f x = Some y)"
  by (induction xs) (auto simp: List.map_filter_simps split: option.splits)

lemma objectives_split:
  assumes "\<And>ob fld. (ob, fld) \<in> set ms \<longleftrightarrow> ob \<in> set names \<and> field_of ob = Some fld"
  shows "ob \<in> set names \<longleftrightarrow> ob \<in> set (map fst (filter (\<lambda>(_, fld). P fld \<noteq> []) ms))
    \<union> set (map fst (filter (\<lambda>(_, fld). P fld = []) ms)) \<union> set (filter (\<lambda>ob. field_of ob = None) names)"
proof (cases "ob \<in> set names")
  case True
  show ?thesis
  proof (cases "field_of ob")
    case (Some fld)
    then have "(ob, fld) \<in> set ms" using assms True by blast
    then show ?thesis using True by (cases "P fld = []") (force simp: image_iff)+
  qed (use True in simp)
next
  case False
  then show ?thesis using assms by auto
qed

text \<open>C40: a winner was measured. If a comparison that excludes incomplete arms names a best arm, there is an objective
  to compare by, the rows of this arm have usable values for every objective of the comparison, and for the required share
  of them at least; no eligible arm has a smaller weighted loss and no regret is negative. Every name of the loss is
  reported as compared, unmeasured or unmapped. An arm without a cost never wins a comparison of costs.\<close>

theorem best_arm_is_covered:
  assumes "compare_arms rows arm_factor loss extra ''exclude'' mc = Inr cmp" and "cp_best cmp = Some b"
  shows "cp_objectives cmp \<noteq> []
    \<and> (\<forall>ob \<in> set (cp_objectives cmp). \<exists>fld. objective_fields_of extra ob = Some fld
         \<and> field_values fld (arm_rows arm_factor rows b) \<noteq> [] \<and> mc \<le> covered_rate fld (arm_rows arm_factor rows b))
    \<and> (\<forall>a \<in> set (cp_eligible cmp). loss_of (cp_arms cmp) b \<le> loss_of (cp_arms cmp) a)
    \<and> (\<forall>(a, r) \<in> set (cp_regrets cmp). 0 \<le> r)
    \<and> set (map fst loss) = set (cp_objectives cmp) \<union> set (cp_unmeasured cmp) \<union> set (cp_unmapped cmp)"
proof -
  let ?names = "map fst loss"
  let ?mapped = "List.map_filter (\<lambda>ob. map_option (Pair ob) (objective_fields_of extra ob)) ?names"
  let ?objs = "filter (\<lambda>(_, fld). field_values fld rows \<noteq> []) ?mapped"
  let ?um = "map fst (filter (\<lambda>(_, fld). field_values fld rows = []) ?mapped)"
  let ?up = "filter (\<lambda>ob. objective_fields_of extra ob = None) ?names"
  let ?weight = "\<lambda>ob. case map_of loss ob of Some w \<Rightarrow> w | None \<Rightarrow> 0"
  let ?stats = "map (\<lambda>arm. (arm, stats_of ''exclude'' mc ?weight ?objs (arm_rows arm_factor rows arm))) (arms_of arm_factor rows)"
  have cmp: "cmp = rank_arms ?objs ?um ?up ?stats"
    using assms(1) by (simp add: compare_arms_def Let_def split: if_splits)
  have mapped: "(ob, fld) \<in> set ?mapped \<longleftrightarrow> ob \<in> set ?names \<and> objective_fields_of extra ob = Some fld" for ob fld
    by (auto simp: map_filter_Some_iff)
  note best = rank_arms_best [OF assms(2) [unfolded cmp]]
  have "as_eligible (stats_of ''exclude'' mc ?weight ?objs (arm_rows arm_factor rows b))" using best by auto
  then have cov: "\<forall>(ob, fld) \<in> set ?objs. field_values fld (arm_rows arm_factor rows b) \<noteq> []
      \<and> mc \<le> covered_rate fld (arm_rows arm_factor rows b)"
    by (simp only: excluded_unless_covered)
  have "\<exists>fld. objective_fields_of extra ob = Some fld \<and> field_values fld (arm_rows arm_factor rows b) \<noteq> []
      \<and> mc \<le> covered_rate fld (arm_rows arm_factor rows b)" if ob: "ob \<in> set (map fst ?objs)" for ob
  proof -
    obtain fld where o: "(ob, fld) \<in> set ?objs" using ob by auto
    then have "objective_fields_of extra ob = Some fld" using mapped by auto
    then show ?thesis using cov o by auto
  qed
  moreover have "set ?names = set (map fst ?objs) \<union> set ?um \<union> set ?up"
  proof (rule set_eqI)
    fix ob
    show "ob \<in> set ?names \<longleftrightarrow> ob \<in> set (map fst ?objs) \<union> set ?um \<union> set ?up"
      by (rule objectives_split [OF mapped])
  qed
  moreover have "\<forall>(a, r) \<in> set (cp_regrets cmp). 0 \<le> r" unfolding cmp by (rule regrets_nonneg)
  ultimately show ?thesis using best unfolding cmp by simp
qed

text \<open>An arm with no cost never wins a comparison of costs.\<close>

definition two_arms :: "pydict list" where
  "two_arms = [[(''arm'', PStr ''a''), (''cost'', PNone)], [(''arm'', PStr ''b''), (''cost'', PInt 3)]]"

theorem best_arm_is_covered_witness:
  "\<exists>cmp. compare_arms two_arms ''arm'' [(''cost'', 1)] [] ''exclude'' 1 = Inr cmp \<and> cp_best cmp = Some ''b''
    \<and> cp_objectives cmp \<noteq> []"
proof -
  have "(case compare_arms two_arms ''arm'' [(''cost'', 1)] [] ''exclude'' 1 of Inr c \<Rightarrow> cp_best c = Some ''b'' | _ \<Rightarrow> False)"
    by code_simp
  then obtain cmp where "compare_arms two_arms ''arm'' [(''cost'', 1)] [] ''exclude'' 1 = Inr cmp" "cp_best cmp = Some ''b''"
    by (auto split: sum.splits)
  then show ?thesis using best_arm_is_covered by blast
qed

end
