(* ===== verification/Spec2Isabelle.thy ===== *)
theory Spec2Isabelle
  imports Fleet_Server Admission_Settlement Watchdog_Facts Decision_Facts Approval_Contract
    Story_Bridge Reducer_Bounds Ladder_Facts Stream_Facts Routing_Facts Session_Facts
    Deploy_Facts Spec_Facts Compiler_Facts
begin

text \<open>
  A model of the control plane of agentic-dynamics, a system that runs coding agents as experiments: it decides
  which agent runs may spend money, records what they did as facts, and lets rules decide the next step on those
  facts. All paths below are relative to src/src/agentic_dynamics unless they start with scripts/.

  \<^bold>\<open>The program and its parts.\<close> A run asks the admission controller for a budget lease and concurrency leases. The
  leases live in Redis; the registry grants one only under the cap of its scope. The admitted run carries its lease
  context through the environment, the guard checks it before a paid call, and after the run the settlement compares
  the estimate with the provider's meter. A watchdog sweeps expired leases and quarantines the output of runs that
  went on past their budget. What runs record is reduced to canonical facts by versioned pure reducers; producers turn
  facts into knowledge records, publish pointer events on a Redis stream, and a worker appends them to the registry
  log, from which producers and readers take the current version of each entity. The context compiler resolves the
  facts a decision may see into a snapshot, rules propose a decision, and a validator admits or refuses it. A router
  chooses the model of each workflow step from measured signals and prices, and a budget check judges how much of its
  model's context a coordinator's session has used. What runs is written down as an experiment specification, which a
  validator accepts or refuses before it is compiled into a graph and a grid of cells, and after an agent's phase the
  runner scans its transcript for production deploys the phase was not allowed to make.

  \<^bold>\<open>Foundations.\<close>
  \<^item> \<open>Agd_Prelude\<close>, \<open>Py_Format\<close>, \<open>Py_Json\<close>, \<open>Json_Text\<close>, \<open>Float_Text\<close>, \<open>Iso_Time\<close>: the part of Python the code uses: floats
    with infinities and NaN, values of unknown type, string methods, number formats, \<open>json.dumps\<close> and \<open>json.loads\<close>
    (with \<open>json_loads_dumps\<close>, the round trip), \<open>datetime\<close> texts. An exception is a value of a sum type.
  \<^item> \<open>Redis_Client\<close>: the Redis client, the clock and the id generator as a parameter, its documented behaviour as the
    assumptions of locales, and a reference world in which they hold.

  \<^bold>\<open>Leases and admission.\<close>
  \<^item> \<open>Cost_Provenance\<close> (core/cost_provenance.py): how far a cost can be trusted.
  \<^item> \<open>Lease_Types\<close>, \<open>Lease_Registry\<close> (control/lease_registry.py): the value objects with their stored form, and every
    operation of the registry with its optimistic retry loop. \<open>Lease_Registry_Facts\<close>, \<open>Lease_Guarantees\<close>: what an
    operation does when nobody interferes. \<open>Lease_Shared\<close>, \<open>Fleet_Server\<close>: the same operations while other processes
    take any number of steps between any two client calls; \<open>Lease_Concurrency\<close>: the committed transactions as an
    inductive step relation and the cap as its invariant.
  \<^item> \<open>Admission_Context\<close> (core/admission_context.py), \<open>Admission\<close> (control/admission.py, control/model_policy.py) with
    \<open>Admission_Registry\<close>, the controller on the model of the registry: a refused admission leaves nothing behind, a
    granted one is backed by leases and passes the guard.
  \<^item> \<open>Settlement\<close> (control/settlement.py) and \<open>Admission_Settlement\<close>, the admitted scope that settles at its end.
  \<^item> \<open>Quarantine\<close> (control/quarantine.py), \<open>Quarantine_Facts\<close>: the ledger refines a set of marks; \<open>Lease_Watchdog\<close>
    (control/lease_watchdog.py, part of control/supervisor.py), \<open>Watchdog_Facts\<close>: one pass over registry and ledger.

  \<^bold>\<open>Facts.\<close>
  \<^item> \<open>Fact_Schema\<close> (control/facts.py, knowledge/knowledge.py, the declarations of control/reducers): the fact, the
    registries of predicates and reducers, the derivation-chain check, the state of a fact.
  \<^item> \<open>Reducer_Base\<close>, \<open>Run_Reducers\<close>, \<open>Plan_Reducers\<close>, \<open>Change_Reducers\<close> (control/reducers, control/checkpoint.py, the
    tested-by rule of core/language.py, \<open>record_id\<close> of reporting/lab_contract.py): the ten reducers and the table of
    their implementations. \<open>Reducer_Facts\<close>: every minted fact passes the chain check, and what it cites resolves;
    \<open>Story_Bridge\<close>: the story reducer agrees with the attempt reducer; \<open>Ladder_Facts\<close>: the workflow rung depends on
    neither duplicates nor the order of its input, up to ties; \<open>Reducer_Bounds\<close>: tightening, risk, interval.
  \<^item> \<open>Fact_Scope\<close>, \<open>Profile_Composition\<close>, \<open>Context_Compiler\<close> (control/context_compiler.py, control/profiles.py,
    core/contracts.py), \<open>Context_Facts\<close>: scopes, requirements and their composition with a profile, the snapshot.

  \<^bold>\<open>Knowledge.\<close>
  \<^item> \<open>Knowledge_Records\<close> (knowledge/knowledge.py, record_factory.py, knowledge_ingestion.py): events and records, their
    stored forms, the identities, the artifact and its extractor, with the round trip from producer to consumer.
  \<^item> \<open>Registry_Log\<close> (scripts/kb_worker.py, knowledge/spec_ingestion.py): the append-only log as a text, written by the
    handler and read back as rows; heads and chains of an entity.
  \<^item> \<open>Fact_Ingestion\<close> (control/fact_ingestion.py), \<open>Ingestion_Facts\<close>: which records a set of facts needs; deriving again
    emits nothing, and the latest observation ends up current.
  \<^item> \<open>Knowledge_Stream\<close> (knowledge/knowledge_stream.py, \<open>process_batch\<close> of scripts/kb_worker.py), \<open>Stream_Facts\<close>: the
    publishing gates, one consumer group, redelivery and dead letters, and the composition of stream, extractor and
    handler with the log.

  \<^bold>\<open>Decisions.\<close>
  \<^item> \<open>Decision_Validator\<close> (control/decisions.py, control/validator.py), \<open>Control_Rules\<close> (control/rules.py),
    \<open>Decision_Facts\<close>: the ten checks, the two rules and the routers around them.
  \<^item> \<open>Signal_Registry\<close> (measurement/signal_registry.py, the prices of measurement/efficiency.py), \<open>Step_Routing\<close>
    (runtime/routing.py, control/step_routing.py), \<open>Routing_Facts\<close>: the validation of a workflow's routing and the
    scored choice; the locale \<open>router\<close> states the contract that \<open>route_step\<close> and the shadow router satisfy.
  \<^item> \<open>Session_Capacity\<close> (core/session_capacity.py), \<open>Session_Budget\<close> (scripts/session_budget.py), \<open>Session_Facts\<close>: the
    usable context from the runtime's formula and merged limits, the measurement of a session, and the verdict.
  \<^item> \<open>Fact_Contracts\<close> (core/contracts.py): the gate on the facts that rules require, refusals R1 to R11; the locale
    \<open>fact_registries\<close> states what the gate's client relies on and is interpreted on the registries of \<open>Fact_Schema\<close>.
  \<^item> \<open>Approval_Contract\<close> (core/decision_contract.py): the approval an operator writes as markdown.

  \<^bold>\<open>Experiments and the runner.\<close>
  \<^item> \<open>Experiment_Spec\<close> (experiment/experiment_spec.py), \<open>Spec_Facts\<close>: the objects of a spec, its serialized form and
    revision digest, and the validator with its gates on rules, phases and prompts; what a valid spec guarantees and
    which changes the digest sees.
  \<^item> \<open>Experiment_Compiler\<close> (experiment/compile_experiment.py), \<open>Compiler_Facts\<close>: the compiled graph with its topological
    order, the grid of cells, the comparison of arms; soundness and completeness of the order, the grid as a product,
    and the coverage of a winner.
  \<^item> \<open>Regex_Search\<close>: the part of Python's regular expressions that the prose gate and the deploy gate search with.
  \<^item> \<open>Deploy_Gate\<close> (the deploy gate of runtime/workflow_runner.py), \<open>Deploy_Facts\<close>: both detection tiers, the scan of a
    transcript and the verdict on a phase.

  \<^bold>\<open>Correspondence.\<close> A dataclass is a record with a prefix on its fields, an enum a datatype, a dictionary an association
  list whose first binding counts, a method a function that takes the state and returns it updated. Definitions keep
  the names of the code; one that clashes has a suffix or a prefix (\<open>build_record_from_parts\<close>, \<open>validate_approval\<close>).
  Several small definitions may model one long function; the manifest gives the lines of each.

  \<^bold>\<open>Fuel and bounds.\<close> \<open>json_loads\<close> recurses on a fuel of the length of the text plus one; every nested value consumes a
  character, so the fuel never runs out before the text does (\<open>json_loads_dumps\<close> shows that it is enough for all the
  program writes). The scan of the runtime's listing takes one unit per brace tried, and \<open>scan_listing_fuel\<close> shows that
  the length of the text is enough. The topological sort takes one unit per node, which \<open>topological_order_inv\<close> shows to be
  enough; a repetition of a regular expression goes at most one round per character left. The retry loops of the registry count down the attempts the code allows. All other recursion is
  structural or on a decreasing measure.

  \<^bold>\<open>Parameters.\<close> Redis, clocks, id generators, SHA-256, the square root of the Wilson interval, the content digest of
  analysis rows, the aggregated signals of the models, the session database, the runtime's listing and the contents of
  YAML and configuration files are arguments of the definitions. Hypotheses
  on them are stated in the theorems (for instance that a client call keeps what other keys hold, or that a digest
  is not empty) and have witnesses.

  \<^bold>\<open>Not modelled.\<close> Binary rounding of floats (finite floats are rationals) and code points above 255; the wording of
  messages (an error is a value that carries what its message names); rendering for people (reports, boards beyond
  their rows); reading YAML; the measurement rules over attempts; the SQLite control database with the outbox,
  publication, projections, run lifecycle and orphan sweep that live in it; the workflow runner outside its deploy gate, the agent adapters and
  the fleet scripts, which drive subprocesses, git and containers; retrieval over Chroma and Neo4j with embeddings;
  belief updates, entropy and the other statistics; the control room. Of the stream, connecting and creating groups;
  of the registry handler, the clearing of flags from an in-process table.
\<close>

end
